(* ===== verification/Prelude.thy ===== *)
theory Prelude
  imports Main "HOL-Library.Word"
begin

section \<open>Shared vocabulary\<close>

text \<open>
  What every theory of the development uses: Go's 64-bit integers read as mathematical
  integers with their bounds, the named collections the component theories fill, and the
  few list facts that more than one component needs.

  A Go \<open>int64\<close> field is an \<open>int\<close> here. Where the source adds to such a field without
  checking, the model wraps the sum with \<open>wrap64\<close>; where it compares with \<open>math.MaxInt64\<close>
  first, the model makes the same comparison.
\<close>

subsection \<open>64-bit integers\<close>

abbreviation max_int64 :: int where
  "max_int64 \<equiv> 9223372036854775807"

abbreviation min_int64 :: int where
  "min_int64 \<equiv> - 9223372036854775808"

definition int64 :: "int \<Rightarrow> bool" where
  "int64 n \<longleftrightarrow> min_int64 \<le> n \<and> n \<le> max_int64"

text \<open>Two's complement wrap-around of a 64-bit sum.\<close>

definition wrap64 :: "int \<Rightarrow> int" where
  "wrap64 n = (n + 9223372036854775808) mod 18446744073709551616 - 9223372036854775808"

lemma int64_wrap64 [simp]: "int64 (wrap64 n)"
proof -
  let ?m = "(n + 9223372036854775808) mod 18446744073709551616"
  have "0 \<le> ?m" "?m < 18446744073709551616" by simp_all
  then show ?thesis by (simp add: int64_def wrap64_def)
qed

lemma wrap64_id [simp]: "int64 n \<Longrightarrow> wrap64 n = n"
  by (simp add: int64_def wrap64_def)

lemma int64_bounds: "int64 n \<Longrightarrow> min_int64 \<le> n" "int64 n \<Longrightarrow> n \<le> max_int64"
  by (simp_all add: int64_def)

lemma wrap64_max_overflows: "wrap64 (max_int64 + 1) = min_int64"
  by (simp add: wrap64_def)

subsection \<open>Collections\<close>

named_theorems run_simps \<open>equations that execute the operations of the effect model\<close>
named_theorems frame_intros \<open>introduction rules for the frame conditions of programs\<close>

subsection \<open>Lists\<close>

text \<open>The largest value of a list that starts from a floor, as the Go loops compute it.\<close>

fun scan_max :: "int \<Rightarrow> int list \<Rightarrow> int" where
  "scan_max b [] = b"
| "scan_max b (x # xs) = scan_max (if x > b then x else b) xs"

lemma scan_max_ge: "b \<le> scan_max b xs"
proof (induction xs arbitrary: b)
  case (Cons x xs)
  have "b \<le> (if x > b then x else b)" by simp
  also have "\<dots> \<le> scan_max (if x > b then x else b) xs" by (rule Cons.IH)
  finally show ?case by simp
qed simp

lemma scan_max_upper: "x \<in> set xs \<Longrightarrow> x \<le> scan_max b xs"
proof (induction xs arbitrary: b)
  case (Cons y ys)
  show ?case
  proof (cases "x = y")
    case True
    have "y \<le> (if y > b then y else b)" by simp
    also have "\<dots> \<le> scan_max (if y > b then y else b) ys" by (rule scan_max_ge)
    finally show ?thesis using True by simp
  next
    case False
    with Cons.prems have "x \<in> set ys" by simp
    then show ?thesis using Cons.IH by simp
  qed
qed simp

lemma scan_max_in: "scan_max b xs = b \<or> scan_max b xs \<in> set xs"
proof (induction xs arbitrary: b)
  case (Cons x xs)
  from Cons.IH [of "if x > b then x else b"] show ?case by (auto split: if_splits)
qed simp

lemma scan_max_fresh: "scan_max b xs + 1 \<notin> set xs"
proof
  assume "scan_max b xs + 1 \<in> set xs"
  then have "scan_max b xs + 1 \<le> scan_max b xs" by (rule scan_max_upper)
  then show False by simp
qed

lemma length_filter_one: "length (filter P xs) \<le> 1 \<Longrightarrow> x \<in> set xs \<Longrightarrow> P x \<Longrightarrow> filter P xs = [x]"
proof -
  assume len: "length (filter P xs) \<le> 1" and x: "x \<in> set xs" "P x"
  then have "x \<in> set (filter P xs)" by simp
  with len show ?thesis by (cases "filter P xs") auto
qed

end
