(* ===== verification/VarintCode.thy ===== *)
theory VarintCode
  imports Prelude
begin

section \<open>Variable-length identifiers (be/schema/varint.go)\<close>

text \<open>
  A \<open>Varint\<close> is a 64-bit value written with 32 symbols. The first symbol is the value
  itself below 16 and otherwise says how many base-32 digits follow; the values with the
  same first symbol form one interval, so that every value has exactly one spelling. Pixur
  uses the encoding for every identifier it shows to clients and in file names.

  A byte slice is a \<open>string\<close>, whose characters are bytes. \<open>bytes.ToLower\<close> is applied
  by the decoder to input that need not be ASCII; it is the argument \<open>to_lower\<close> of the
  decoder, with the documented behaviour on an ASCII prefix as the hypothesis
  \<open>lowers_ascii\<close> of the theorems.
\<close>

unbundle bit_operations_syntax

type_synonym u64 = "64 word"

subsection \<open>Tables\<close>

definition varbits :: nat where
  "varbits = 5"

definition symbolCount :: nat where
  "symbolCount = 2 ^ varbits"

text \<open>The constants \<open>prefixg\<close>, \<open>prefixh\<close>, \dots, \<open>prefixz\<close>, by their \<open>iota\<close>.\<close>

definition prefix_const :: "nat \<Rightarrow> nat" where
  "prefix_const i =
     (2 ^ (varbits * i) - 1) * symbolCount div (symbolCount - 1) + symbolCount div 2"

definition encodeTable :: string where
  "encodeTable = ''0123456789abcdefghjkmnpqrstvwxyz''"

definition upperTable :: string where
  "upperTable = ''0123456789ABCDEFGHJKMNPQRSTVWXYZ''"

definition symbol_index :: "char \<Rightarrow> nat option" where
  "symbol_index c = map_of (zip encodeTable [0..<32] @ zip upperTable [0..<32]) c"

text \<open>
  The lookup tables are arrays of 256 entries whose missing entries are zero. Symbols 16 to
  28 introduce an interval; 29 to 31 have a length for a better error message only.
\<close>

definition valueTable :: "char \<Rightarrow> u64" where
  "valueTable c = (case symbol_index c of Some i \<Rightarrow> of_nat i | None \<Rightarrow> 0)"

definition lengthTable :: "char \<Rightarrow> nat" where
  "lengthTable c =
     (case symbol_index c of Some i \<Rightarrow> (if i < 16 then 1 else i - 14) | None \<Rightarrow> 0)"

definition prefixDecodeTable :: "char \<Rightarrow> u64" where
  "prefixDecodeTable c =
     (case symbol_index c of
        Some i \<Rightarrow> (if i < 16 then of_nat i
                  else if i \<le> 28 then of_nat (prefix_const (i - 16)) else 0)
      | None \<Rightarrow> 0)"

definition prefixEncodeTable :: "nat \<Rightarrow> u64" where
  "prefixEncodeTable i =
     (if 16 \<le> i \<and> i \<le> 28 then of_nat (prefix_const (i - 16)) else 0)"

definition prefixw :: u64 where
  "prefixw = of_nat (prefix_const 12)"

subsection \<open>Encoding\<close>

text \<open>The loop that looks for the interval of \<open>n\<close>; it ends at symbol 27 at the latest.\<close>

function find_symbol :: "u64 \<Rightarrow> nat \<Rightarrow> nat" where
  "find_symbol n i =
     (if i < 31 \<and> \<not> n < prefixEncodeTable (i + 1) then find_symbol n (i + 1) else i)"
  by pat_completeness auto
termination
  by (relation "measure (\<lambda>(n, i). 31 - i)") auto

declare find_symbol.simps [simp del]

text \<open>The loop that fills the digits from the right.\<close>

fun put_digits :: "nat \<Rightarrow> u64 \<Rightarrow> string \<Rightarrow> string" where
  "put_digits 0 n acc = acc"
| "put_digits (Suc k) n acc =
     put_digits k (drop_bit varbits n) (encodeTable ! unat (n AND 31) # acc)"

definition varint_append :: "u64 \<Rightarrow> string \<Rightarrow> string" where
  "varint_append v dest =
     (if v < 0x10 then dest @ [encodeTable ! unat v]
      else if v < prefixw then
        (let i = find_symbol v 16;
             n = v - prefixEncodeTable i;
             c = encodeTable ! i
         in dest @ c # put_digits (lengthTable c - 1) n [])
      else
        dest @ CHR ''w'' # put_digits (lengthTable (CHR ''w'') - 1) (v - prefixw) [])"

definition encode_bytes :: "u64 \<Rightarrow> string" where
  "encode_bytes v = varint_append v []"

definition maxValue :: string where
  "maxValue = encode_bytes (- 1)"

definition maxLength :: nat where
  "maxLength = length maxValue"

subsection \<open>Decoding\<close>

datatype varint_error =
  ErrNoInput | ErrInvalidLength | ErrInvalidSymbol | ErrEof | ErrOverflow | ErrExcessInput

definition byte :: "char \<Rightarrow> nat" where
  "byte c = of_char c"

fun bytes_compare :: "string \<Rightarrow> string \<Rightarrow> int" where
  "bytes_compare [] [] = 0"
| "bytes_compare [] (y # ys) = - 1"
| "bytes_compare (x # xs) [] = 1"
| "bytes_compare (x # xs) (y # ys) =
     (if byte x < byte y then - 1 else if byte y < byte x then 1 else bytes_compare xs ys)"

fun decode_digits :: "string \<Rightarrow> u64 \<Rightarrow> varint_error + u64" where
  "decode_digits [] num = Inr num"
| "decode_digits (c # cs) num =
     (let val = valueTable c
      in if val = 0 \<and> c \<noteq> CHR ''0'' then Inl ErrInvalidSymbol
         else decode_digits cs (push_bit varbits num + val))"

definition decode_bytes :: "(string \<Rightarrow> string) \<Rightarrow> string \<Rightarrow> varint_error + (u64 \<times> nat)" where
  "decode_bytes to_lower raw =
     (case raw of
        [] \<Rightarrow> Inl ErrNoInput
      | c # cs \<Rightarrow>
          (let len = lengthTable c
           in if len = 0 then Inl ErrInvalidLength
              else if len > length raw then Inl ErrEof
              else if len \<ge> maxLength \<and> bytes_compare (to_lower raw) maxValue > 0
                then Inl ErrOverflow
              else (case decode_digits (take (len - 1) cs) 0 of
                      Inl e \<Rightarrow> Inl e
                    | Inr num \<Rightarrow> Inr (num + prefixDecodeTable c, len))))"

definition decode_all :: "(string \<Rightarrow> string) \<Rightarrow> string \<Rightarrow> varint_error + u64" where
  "decode_all to_lower raw =
     (case decode_bytes to_lower raw of
        Inl e \<Rightarrow> Inl e
      | Inr (v, n) \<Rightarrow> (if n \<noteq> length raw then Inl ErrExcessInput else Inr v))"

subsection \<open>What \<open>bytes.ToLower\<close> is relied on for\<close>

definition ascii :: "char \<Rightarrow> bool" where
  "ascii c \<longleftrightarrow> byte c < 128"

definition lower_ascii :: "char \<Rightarrow> char" where
  "lower_ascii c = (if 65 \<le> byte c \<and> byte c \<le> 90 then char_of (byte c + 32) else c)"

definition lowers_ascii :: "(string \<Rightarrow> string) \<Rightarrow> bool" where
  "lowers_ascii f \<longleftrightarrow>
     (\<forall>a b. list_all ascii a \<longrightarrow> f (a @ b) = map lower_ascii a @ f b) \<and>
     (\<forall>s. f s = [] \<longleftrightarrow> s = [])"

lemma lowers_asciiD: "lowers_ascii f \<Longrightarrow> list_all ascii a \<Longrightarrow> f (a @ b) = map lower_ascii a @ f b"
  by (simp add: lowers_ascii_def)

lemma lowers_ascii_all: "lowers_ascii f \<Longrightarrow> list_all ascii a \<Longrightarrow> f a = map lower_ascii a"
  using lowers_asciiD [of f a "[]"] by (simp add: lowers_ascii_def)

lemma lowers_ascii_map: "lowers_ascii (map lower_ascii)"
  by (simp add: lowers_ascii_def)

end
