(* ===== verification/VarintFacts.thy ===== *)
theory VarintFacts
  imports VarintCode
begin

section \<open>Correctness of the identifier encoding\<close>

text \<open>
  The machine-word functions of \<open>VarintCode\<close> are compared with base-32 digit lists over the
  natural numbers. The main facts are that the encoding is a prefix-free code whose byte
  order is the unsigned order of the values, that decoding inverts encoding in front of any
  further input (but for the largest value, whose overflow test looks at the whole input),
  and that every accepted input is, up to letter case, the encoding of its value.
\<close>

subsection \<open>Base-32 digits\<close>

fun digs :: "nat \<Rightarrow> nat \<Rightarrow> nat list" where
  "digs 0 m = []"
| "digs (Suc k) m = (m div 32 ^ k) mod 32 # digs k m"

definition undigs :: "nat \<Rightarrow> nat list \<Rightarrow> nat" where
  "undigs a ds = foldl (\<lambda>a d. a * 32 + d) a ds"

abbreviation sym :: "nat \<Rightarrow> char" where
  "sym i \<equiv> encodeTable ! i"

lemma undigs_simps [simp]:
  "undigs a [] = a" "undigs a (d # ds) = undigs (a * 32 + d) ds"
  by (simp_all add: undigs_def)

lemma length_digs [simp]: "length (digs k m) = k"
  by (induction k) simp_all

lemma digs_less: "d \<in> set (digs k m) \<Longrightarrow> d < 32"
  by (induction k) auto

lemma digs_snoc: "digs (Suc k) m = digs k (m div 32) @ [m mod 32]"
proof (induction k)
  case (Suc k)
  have "m div 32 ^ Suc k = m div 32 div 32 ^ k"
    by (simp add: div_mult2_eq)
  moreover have "digs (Suc (Suc k)) m = m div 32 ^ Suc k mod 32 # digs (Suc k) m" by simp
  ultimately show ?case using Suc.IH by simp
qed simp

lemma undigs_linear: "undigs a ds = a * 32 ^ length ds + undigs 0 ds"
proof (induction ds arbitrary: a)
  case (Cons d ds)
  have "undigs a (d # ds) = (a * 32 + d) * 32 ^ length ds + undigs 0 ds"
    using Cons.IH [of "a * 32 + d"] by simp
  also have "\<dots> = a * 32 ^ length (d # ds) + (d * 32 ^ length ds + undigs 0 ds)"
    by (simp add: algebra_simps)
  also have "d * 32 ^ length ds + undigs 0 ds = undigs 0 (d # ds)"
    using Cons.IH [of d] by simp
  finally show ?case .
qed simp

lemma undigs_digs: "undigs 0 (digs k m) = m mod 32 ^ k"
proof (induction k)
  case (Suc k)
  have "undigs 0 (digs (Suc k) m) = (m div 32 ^ k mod 32) * 32 ^ k + m mod 32 ^ k"
    using undigs_linear [of "m div 32 ^ k mod 32" "digs k m"] Suc.IH by simp
  also have "\<dots> = m mod (32 ^ k * 32)"
    by (simp add: mod_mult2_eq)
  finally show ?case by (simp add: mult.commute)
qed simp

lemma undigs_less: "\<forall>d \<in> set ds. d < 32 \<Longrightarrow> undigs 0 ds < 32 ^ length ds"
proof (induction ds)
  case (Cons d ds)
  have "undigs 0 (d # ds) = d * 32 ^ length ds + undigs 0 ds"
    using undigs_linear [of d ds] by simp
  also have "\<dots> < d * 32 ^ length ds + 32 ^ length ds" using Cons by simp
  also have "\<dots> \<le> 31 * 32 ^ length ds + 32 ^ length ds"
    using Cons.prems by (intro add_right_mono mult_le_mono1) auto
  also have "\<dots> = 32 ^ length (d # ds)" by simp
  finally show ?case .
qed simp

lemma mod_div_power: "(m::nat) mod 32 ^ (k + i) div 32 ^ k = m div 32 ^ k mod 32 ^ i"
proof -
  have "m mod 32 ^ (k + i) = 32 ^ k * (m div 32 ^ k mod 32 ^ i) + m mod 32 ^ k"
    by (simp only: power_add mod_mult2_eq)
  then show ?thesis by simp
qed

lemma digs_mod: "j \<ge> k \<Longrightarrow> digs k (m mod 32 ^ j) = digs k m"
proof (induction k arbitrary: j)
  case (Suc k)
  then obtain i where j: "j = k + Suc i" by (metis add_Suc_right less_eqE add_Suc)
  have "m mod 32 ^ j div 32 ^ k mod 32 = m div 32 ^ k mod 32 ^ Suc i mod 32"
    by (simp only: j mod_div_power)
  also have "\<dots> = m div 32 ^ k mod 32"
    by (rule mod_mod_cancel) simp
  finally show ?case using Suc by simp
qed simp

lemma digs_undigs: "\<forall>d \<in> set ds. d < 32 \<Longrightarrow> digs (length ds) (undigs 0 ds) = ds"
proof (induction ds)
  case (Cons d ds)
  have small: "undigs 0 ds < 32 ^ length ds" using undigs_less Cons.prems by simp
  have eq: "undigs 0 (d # ds) = d * 32 ^ length ds + undigs 0 ds"
    using undigs_linear [of d ds] by simp
  have "digs (length ds) (undigs 0 (d # ds)) = digs (length ds) (undigs 0 (d # ds) mod 32 ^ length ds)"
    by (simp only: digs_mod order_refl)
  also have "undigs 0 (d # ds) mod 32 ^ length ds = undigs 0 ds"
    using small by (simp only: eq) simp
  finally have tl: "digs (length ds) (undigs 0 (d # ds)) = ds" using Cons by simp
  have "undigs 0 (d # ds) div 32 ^ length ds = d"
    using small by (simp only: eq) simp
  with tl Cons.prems show ?case by simp
qed simp

subsection \<open>The tables\<close>

lemma symbol_index_sym: "i < 32 \<Longrightarrow> symbol_index (sym i) = Some i"
proof -
  have "list_all (\<lambda>i. symbol_index (sym i) = Some i) [0..<32]" by code_simp
  then show "i < 32 \<Longrightarrow> ?thesis" by (simp add: list_all_iff)
qed

lemma lower_ascii_sym: "i < 32 \<Longrightarrow> lower_ascii (sym i) = sym i \<and> ascii (sym i)"
proof -
  have "list_all (\<lambda>i. lower_ascii (sym i) = sym i \<and> ascii (sym i)) [0..<32]" by code_simp
  then show "i < 32 \<Longrightarrow> ?thesis" by (simp add: list_all_iff)
qed

lemma length_tables: "length encodeTable = 32" "length upperTable = 32"
  by (simp_all add: encodeTable_def upperTable_def)

lemma sym_inverse:
  assumes "symbol_index c = Some i"
  shows "i < 32 \<and> lower_ascii c = sym i \<and> ascii c"
proof -
  let ?ps = "zip encodeTable [0..<32] @ zip upperTable [0..<32]"
  have all: "list_all (\<lambda>(c, i). i < 32 \<and> lower_ascii c = sym i \<and> ascii c) ?ps" by code_simp
  have "(c, i) \<in> set ?ps" using assms unfolding symbol_index_def by (rule map_of_SomeD)
  with all show ?thesis by (fastforce simp: list_all_iff)
qed

lemma sym_less:
  assumes "i < j" "j < 32"
  shows "byte (sym i) < byte (sym j)"
proof -
  have "sorted_wrt (<) (map byte encodeTable)" by code_simp
  from sorted_wrt_nth_less [OF this, of i j] assms show ?thesis by (simp add: length_tables)
qed

lemma sym_zero: "sym i = CHR ''0'' \<Longrightarrow> i < 32 \<Longrightarrow> i = 0"
  using symbol_index_sym [of i] symbol_index_sym [of 0] by (simp add: encodeTable_def)

lemma prefix_const_values:
  "prefix_const 0 = 16" "prefix_const 1 = 48" "prefix_const 2 = 1072"
  "prefix_const 3 = 33840" "prefix_const 4 = 1082416" "prefix_const 5 = 34636848"
  "prefix_const 6 = 1108378672" "prefix_const 7 = 35468117040"
  "prefix_const 8 = 1134979744816" "prefix_const 9 = 36319351833648"
  "prefix_const 10 = 1162219258676272" "prefix_const 11 = 37191016277640240"
  "prefix_const 12 = 1190112520884487216"
  by (simp_all add: prefix_const_def varbits_def symbolCount_def)

lemma prefix_const_Suc: "prefix_const (Suc i) = prefix_const i + 32 ^ Suc i"
proof -
  have "\<exists>s. 2 ^ (5 * i) = 31 * s + (1::nat)"
  proof (induction i)
    case (Suc i)
    then obtain s where s: "2 ^ (5 * i) = 31 * s + (1::nat)" by blast
    have "2 ^ (5 * Suc i) = 31 * (32 * s + 1) + (1::nat)" by (simp add: power_add s)
    then show ?case by blast
  qed simp
  then obtain s where s: "2 ^ (5 * i) = 31 * s + (1::nat)" by blast
  have "(32::nat) ^ i = (2 ^ 5) ^ i" by simp
  also have "\<dots> = 31 * s + 1" by (simp only: power_mult [symmetric] s)
  finally have p: "(32::nat) ^ i = 31 * s + 1" .
  have s': "2 ^ (5 * Suc i) = 31 * (32 * s + 1) + (1::nat)" by (simp add: power_add s)
  have "prefix_const i = s * 32 + 16"
    by (simp add: prefix_const_def varbits_def symbolCount_def s)
  moreover have "prefix_const (Suc i) = (32 * s + 1) * 32 + 16"
    using s' by (simp add: prefix_const_def varbits_def symbolCount_def)
  ultimately show ?thesis by (simp add: p)
qed

lemma prefix_const_mono: "i \<le> j \<Longrightarrow> prefix_const i \<le> prefix_const j"
  by (rule lift_Suc_mono_le) (simp_all add: prefix_const_Suc)

lemma prefix_const_12: "i \<le> 12 \<Longrightarrow> prefix_const i \<le> 1190112520884487216"
  using prefix_const_mono [of i 12] by (simp add: prefix_const_values)

text \<open>The intervals are disjoint and in order.\<close>

lemma interval_unique:
  assumes "prefix_const i \<le> m" "m < prefix_const (Suc i)" "prefix_const j \<le> m"
    "m < prefix_const (Suc j)"
  shows "i = j"
proof (rule ccontr)
  assume "i \<noteq> j"
  then consider "Suc i \<le> j" | "Suc j \<le> i" by linarith
  then show False
    using prefix_const_mono [of "Suc i" j] prefix_const_mono [of "Suc j" i] assms by cases auto
qed

lemma unat_of_nat_u64: "n < 18446744073709551616 \<Longrightarrow> unat (of_nat n :: u64) = n"
  by (simp add: unat_of_nat)

lemma unat_prefixEncodeTable: "i \<le> 12 \<Longrightarrow> unat (prefixEncodeTable (16 + i)) = prefix_const i"
  using prefix_const_12 [of i] by (simp add: prefixEncodeTable_def unat_of_nat_u64)

lemma unat_prefixw: "unat prefixw = prefix_const 12"
  by (simp add: prefixw_def prefix_const_values unat_of_nat_u64)

lemma lengthTable_sym: "i < 32 \<Longrightarrow> lengthTable (sym i) = (if i < 16 then 1 else i - 14)"
  by (simp add: lengthTable_def symbol_index_sym)

subsection \<open>The encoder as digit lists\<close>

lemma put_digits_eq: "put_digits k n acc = map sym (digs k (unat n)) @ acc"
proof (induction k arbitrary: n acc)
  case (Suc k)
  have "unat (n AND 31) = unat n mod 32"
  proof -
    have "n AND 31 = n mod 32"
      using take_bit_eq_mask [of 5 n] by (simp add: mask_eq_exp_minus_1 take_bit_eq_mod)
    then show ?thesis by (simp add: unat_mod)
  qed
  moreover have "unat (drop_bit varbits n) = unat n div 32"
    by (simp add: unat_drop_bit_eq varbits_def drop_bit_eq_div unat_div)
  ultimately show ?case by (simp add: Suc.IH digs_snoc del: digs.simps(2))
qed simp

lemma find_symbol_between:
  assumes "16 \<le> i" "i \<le> 27" "prefixEncodeTable i \<le> n" "n < prefixw"
  shows "\<exists>j \<le> 11. find_symbol n i = 16 + j \<and> prefix_const j \<le> unat n \<and> unat n < prefix_const (Suc j)"
  using assms
proof (induction n i rule: find_symbol.induct)
  case (1 n i)
  let ?c = "i < 31 \<and> \<not> n < prefixEncodeTable (i + 1)"
  define j where "j = i - 16"
  have i: "i = 16 + j" "j \<le> 11" using "1.prems" by (simp_all add: j_def)
  have eq: "find_symbol n i = (if ?c then find_symbol n (i + 1) else i)"
    by (simp add: find_symbol.simps)
  show ?case
  proof (cases ?c)
    case True
    have "prefixEncodeTable 28 = prefixw" by (simp add: prefixEncodeTable_def prefixw_def)
    with True "1.prems"(4) have "i \<noteq> 27" by auto
    then have "i + 1 \<le> 27" using "1.prems"(2) by simp
    moreover have "prefixEncodeTable (i + 1) \<le> n" using True by (simp add: not_less)
    moreover have "16 \<le> i + 1" using "1.prems"(1) by simp
    ultimately have "\<exists>j \<le> 11. find_symbol n (i + 1) = 16 + j \<and> prefix_const j \<le> unat n \<and>
        unat n < prefix_const (Suc j)"
      using "1.IH" [OF True] "1.prems"(4) by blast
    then show ?thesis unfolding eq using True by simp
  next
    case False
    have "prefix_const j \<le> unat n"
      using "1.prems"(3) unat_prefixEncodeTable [of j] i by (simp add: word_le_nat_alt)
    moreover have "unat n < prefix_const (Suc j)"
      using False i unat_prefixEncodeTable [of "Suc j"] by (simp add: word_less_nat_alt)
    moreover have "find_symbol n i = i" unfolding eq by (rule if_not_P [OF False])
    ultimately show ?thesis using i by auto
  qed
qed

text \<open>Every value is one symbol, or the symbol of its interval and its offset in it.\<close>

lemma encode_small: "unat v < 16 \<Longrightarrow> encode_bytes v = [sym (unat v)]"
  by (simp add: encode_bytes_def varint_append_def word_less_nat_alt)

lemma encode_large:
  assumes "16 \<le> unat v"
  obtains j where "j \<le> 12" "prefix_const j \<le> unat v" "j < 12 \<Longrightarrow> unat v < prefix_const (Suc j)"
    "encode_bytes v = sym (16 + j) # map sym (digs (Suc j) (unat v - prefix_const j))"
proof (cases "v < prefixw")
  case True
  have big: "\<not> v < 0x10" using assms by (simp add: word_less_nat_alt)
  have "prefixEncodeTable 16 \<le> v"
    using assms by (simp add: word_le_nat_alt prefixEncodeTable_def prefix_const_values)
  with True obtain j where j: "j \<le> 11" "find_symbol v 16 = 16 + j"
      "prefix_const j \<le> unat v" "unat v < prefix_const (Suc j)"
    using find_symbol_between [of 16 v] by auto
  have "prefixEncodeTable (16 + j) \<le> v"
    using j unat_prefixEncodeTable [of j] by (simp add: word_le_nat_alt)
  then have "unat (v - prefixEncodeTable (16 + j)) = unat v - prefix_const j"
    using j unat_prefixEncodeTable [of j] by (simp add: unat_sub)
  then have "encode_bytes v = sym (16 + j) # map sym (digs (Suc j) (unat v - prefix_const j))"
    using True big j
    by (simp add: encode_bytes_def varint_append_def Let_def lengthTable_sym put_digits_eq
        del: digs.simps)
  with j show thesis by (intro that [of j]) auto
next
  case False
  have big: "\<not> v < 0x10" using assms by (simp add: word_less_nat_alt)
  have le: "prefixw \<le> v" using False by simp
  have w: "CHR ''w'' = sym 28" by (simp add: encodeTable_def)
  have "unat (v - prefixw) = unat v - prefix_const 12"
    using le unat_prefixw by (simp add: unat_sub)
  then have "encode_bytes v = sym (16 + 12) # map sym (digs (Suc 12) (unat v - prefix_const 12))"
    using False big
    by (simp add: encode_bytes_def varint_append_def w lengthTable_sym put_digits_eq
        del: digs.simps)
  moreover have "prefix_const 12 \<le> unat v" using le unat_prefixw by (simp add: word_le_nat_alt)
  ultimately show thesis by (intro that [of 12]) auto
qed

subsection \<open>Byte order\<close>

lemma bytes_compare_refl [simp]: "bytes_compare s s = 0"
  by (induction s) simp_all

lemma bytes_compare_same_prefix: "bytes_compare (p @ x) (p @ y) = bytes_compare x y"
  by (induction p) simp_all

lemma bytes_compare_sym: "i < 32 \<Longrightarrow> j < 32 \<Longrightarrow> bytes_compare (sym i # x) (sym j # y) =
    (if i < j then - 1 else if j < i then 1 else bytes_compare x y)"
  using sym_less [of i j] sym_less [of j i] by (cases "i = j") (auto simp: not_less)

lemma bytes_compare_digs:
  assumes "m < 32 ^ k" "m' < 32 ^ k"
  shows "bytes_compare (map sym (digs k m) @ x) (map sym (digs k m') @ y) =
    (if m < m' then - 1 else if m' < m then 1 else bytes_compare x y)"
  using assms
proof (induction k arbitrary: m m')
  case (Suc k)
  let ?q = "m div 32 ^ k" and ?q' = "m' div 32 ^ k"
  let ?r = "m mod 32 ^ k" and ?r' = "m' mod 32 ^ k"
  have q: "?q < 32" "?q' < 32" using Suc.prems by (simp_all add: less_mult_imp_div_less)
  have m: "m = ?q * 32 ^ k + ?r" "m' = ?q' * 32 ^ k + ?r'" by (rule div_mult_mod_eq [symmetric])+
  have r: "?r < 32 ^ k" "?r' < 32 ^ k" by simp_all
  have tails: "digs k m = digs k ?r" "digs k m' = digs k ?r'" by (simp_all only: digs_mod order_refl)
  consider "?q < ?q'" | "?q' < ?q" | "?q = ?q'" by linarith
  then show ?case
  proof cases
    case 1
    then have "(?q + 1) * 32 ^ k \<le> ?q' * 32 ^ k" by (intro mult_le_mono1) simp
    moreover have "(?q + 1) * 32 ^ k = ?q * 32 ^ k + 32 ^ k" by simp
    ultimately have "m < m'" using m r by linarith
    with 1 q show ?thesis by (simp add: bytes_compare_sym del: bytes_compare.simps)
  next
    case 2
    then have "(?q' + 1) * 32 ^ k \<le> ?q * 32 ^ k" by (intro mult_le_mono1) simp
    moreover have "(?q' + 1) * 32 ^ k = ?q' * 32 ^ k + 32 ^ k" by simp
    ultimately have "m' < m" using m r by linarith
    with 2 q show ?thesis by (simp add: bytes_compare_sym del: bytes_compare.simps)
  next
    case 3
    have "m < m' \<longleftrightarrow> ?r < ?r'" using m 3 by (metis nat_add_left_cancel_less)
    moreover have "m' < m \<longleftrightarrow> ?r' < ?r" using m 3 by (metis nat_add_left_cancel_less)
    ultimately show ?thesis using 3 q Suc.IH [OF r]
      by (simp add: bytes_compare_sym tails del: bytes_compare.simps)
  qed
qed simp

lemma offset_bound:
  assumes "j \<le> 12" "prefix_const j \<le> unat v" "j < 12 \<Longrightarrow> unat v < prefix_const (Suc j)"
  shows "unat (v :: u64) - prefix_const j < 32 ^ Suc j"
proof (cases "j < 12")
  case True
  with assms show ?thesis using prefix_const_Suc [of j] by simp
next
  case False
  with assms have "j = 12" by simp
  moreover have "unat v < 18446744073709551616" using unsigned_less [of v] by simp
  ultimately show ?thesis by simp
qed

text \<open>The order of the encodings, whatever follows them, is the unsigned order of the values.\<close>

lemma encode_order:
  assumes "v < w"
  shows "bytes_compare (encode_bytes v @ x) (encode_bytes w @ y) = - 1"
proof -
  have vw: "unat v < unat w" using assms by (simp add: word_less_nat_alt)
  show ?thesis
  proof (cases "unat w < 16")
    case True
    with vw show ?thesis by (simp add: encode_small bytes_compare_sym del: bytes_compare.simps)
  next
    case w: False
    then obtain j where j: "j \<le> 12" "prefix_const j \<le> unat w" "j < 12 \<Longrightarrow> unat w < prefix_const (Suc j)"
      "encode_bytes w = sym (16 + j) # map sym (digs (Suc j) (unat w - prefix_const j))"
      using encode_large [of w] by auto
    show ?thesis
    proof (cases "unat v < 16")
      case True
      with j show ?thesis by (simp add: encode_small bytes_compare_sym del: bytes_compare.simps digs.simps)
    next
      case False
      then obtain i where i: "i \<le> 12" "prefix_const i \<le> unat v" "i < 12 \<Longrightarrow> unat v < prefix_const (Suc i)"
        "encode_bytes v = sym (16 + i) # map sym (digs (Suc i) (unat v - prefix_const i))"
        using encode_large [of v] by auto
      have "i \<le> j"
      proof (rule ccontr)
        assume "\<not> i \<le> j"
        then have "Suc j \<le> i" by simp
        then show False using prefix_const_mono [of "Suc j" i] i j vw by auto
      qed
      show ?thesis
      proof (cases "i = j")
        case True
        have "unat v - prefix_const j < unat w - prefix_const j" using vw i True by simp
        with True i j offset_bound [OF i(1-3)] offset_bound [OF j(1-3)] show ?thesis
          by (simp add: bytes_compare_sym bytes_compare_digs del: bytes_compare.simps digs.simps power_Suc)
      next
        case False
        with \<open>i \<le> j\<close> have "i < j" by simp
        with i j show ?thesis by (simp add: bytes_compare_sym del: bytes_compare.simps digs.simps)
      qed
    qed
  qed
qed

lemma encode_prefix_free:
  assumes "encode_bytes v @ a = encode_bytes w @ b"
  shows "v = w \<and> a = b"
proof -
  have "v = w"
  proof (rule ccontr)
    assume "v \<noteq> w"
    then consider "v < w" | "w < v" by (metis linorder_less_linear)
    then show False
      using encode_order [of v w a b] encode_order [of w v b a] assms by cases simp_all
  qed
  with assms show ?thesis by simp
qed

subsection \<open>The largest value\<close>

lemma unat_max: "unat (- 1 :: u64) = 18446744073709551615"
  by (simp add: unsigned_minus_1_eq_mask mask_eq_exp_minus_1)

lemma length_maxValue: "maxLength = 14" "maxValue = sym 28 # map sym (digs 13 (18446744073709551615 - prefix_const 12))"
proof -
  obtain j where j: "j \<le> 12" "prefix_const j \<le> unat (- 1 :: u64)"
    "j < 12 \<Longrightarrow> unat (- 1 :: u64) < prefix_const (Suc j)"
    "maxValue = sym (16 + j) # map sym (digs (Suc j) (unat (- 1 :: u64) - prefix_const j))"
    using encode_large [of "- 1"] unat_max unfolding maxValue_def by auto
  have "\<not> j < 12" using j(3) prefix_const_12 [of "Suc j"] unat_max by (auto simp: Suc_le_eq)
  with j have "j = 12" by simp
  with j(4) show "maxValue = sym 28 # map sym (digs 13 (18446744073709551615 - prefix_const 12))"
    by (simp only: unat_max) simp
  then show "maxLength = 14" unfolding maxLength_def by (rule ssubst) simp
qed

lemma encode_le_max: "v \<noteq> - 1 \<Longrightarrow> bytes_compare (encode_bytes v @ x) maxValue = - 1"
  using encode_order [of v "- 1" x "[]"] word_order.extremum_strict [of v]
  by (simp add: maxValue_def word_order.not_eq_extremum)

subsection \<open>Decoding inverts encoding\<close>

lemma valueTable_sym: "i < 32 \<Longrightarrow> valueTable (sym i) = of_nat i"
  by (simp add: valueTable_def symbol_index_sym)

lemma valueTable_zero: "i < 32 \<Longrightarrow> valueTable (sym i) = 0 \<longleftrightarrow> i = 0"
proof -
  assume i: "i < 32"
  then have "unat (valueTable (sym i)) = i" by (simp add: valueTable_sym unat_of_nat_u64)
  then show "valueTable (sym i) = 0 \<longleftrightarrow> i = 0" by (auto simp: valueTable_sym)
qed

lemma sym_0: "sym 0 = CHR ''0''"
  by (simp add: encodeTable_def)

lemma decode_digits_syms:
  "\<forall>d \<in> set ds. d < 32 \<Longrightarrow> decode_digits (map sym ds) (of_nat a) = Inr (of_nat (undigs a ds))"
proof (induction ds arbitrary: a)
  case (Cons d ds)
  have "push_bit varbits (of_nat a) + valueTable (sym d) = (of_nat (a * 32 + d) :: u64)"
    using Cons.prems by (simp add: push_bit_eq_mult varbits_def valueTable_sym)
  moreover have "\<not> (valueTable (sym d) = 0 \<and> sym d \<noteq> CHR ''0'')"
    using Cons.prems valueTable_zero [of d] sym_0 by auto
  ultimately show ?case using Cons.IH [of "a * 32 + d"] Cons.prems by (simp add: Let_def)
qed simp

lemma prefixDecodeTable_sym:
  "i < 16 \<Longrightarrow> prefixDecodeTable (sym i) = of_nat i"
  "j \<le> 12 \<Longrightarrow> prefixDecodeTable (sym (16 + j)) = of_nat (prefix_const j)"
  by (simp_all add: prefixDecodeTable_def symbol_index_sym)

lemma ascii_syms: "\<forall>d \<in> set ds. d < 32 \<Longrightarrow> list_all ascii (map sym ds) \<and> map lower_ascii (map sym ds) = map sym ds"
  by (auto simp: list_all_iff lower_ascii_sym)

lemma encode_ascii: "list_all ascii (encode_bytes v) \<and> map lower_ascii (encode_bytes v) = encode_bytes v"
proof (cases "unat v < 16")
  case True
  then show ?thesis by (simp add: encode_small lower_ascii_sym)
next
  case False
  then obtain j where j: "j \<le> 12"
    "encode_bytes v = sym (16 + j) # map sym (digs (Suc j) (unat v - prefix_const j))"
    using encode_large [of v] by auto
  with ascii_syms [of "(16 + j) # digs (Suc j) (unat v - prefix_const j)"]
  show ?thesis by (auto simp: digs_less simp del: digs.simps)
qed

lemma overflow_test:
  assumes "lowers_ascii low" "rest = [] \<or> v \<noteq> - 1"
  shows "\<not> bytes_compare (low (encode_bytes v @ rest)) maxValue > 0"
proof -
  have eq: "low (encode_bytes v @ rest) = encode_bytes v @ low rest"
    using lowers_asciiD [OF assms(1)] encode_ascii [of v] by metis
  have "rest = [] \<Longrightarrow> low rest = []" using assms(1) by (simp add: lowers_ascii_def)
  with assms(2) encode_le_max [of v "low rest"]
  have "\<not> bytes_compare (encode_bytes v @ low rest) maxValue > 0"
    by (cases "v = - 1") (auto simp: maxValue_def)
  then show ?thesis unfolding eq .
qed

lemma decode_append:
  assumes low: "lowers_ascii to_lower" and more: "rest = [] \<or> v \<noteq> - 1"
  shows "decode_bytes to_lower (encode_bytes v @ rest) = Inr (v, length (encode_bytes v))"
proof (cases "unat v < 16")
  case True
  then show ?thesis
    by (simp add: encode_small decode_bytes_def lengthTable_sym length_maxValue
        prefixDecodeTable_sym Let_def)
next
  case False
  then obtain j where j: "j \<le> 12" "prefix_const j \<le> unat v"
    "j < 12 \<Longrightarrow> unat v < prefix_const (Suc j)"
    "encode_bytes v = sym (16 + j) # map sym (digs (Suc j) (unat v - prefix_const j))"
    using encode_large [of v] by auto
  let ?d = "unat v - prefix_const j"
  have d: "?d < 32 ^ Suc j" by (rule offset_bound [OF j(1-3)])
  have digits: "decode_digits (map sym (digs (Suc j) ?d)) 0 = Inr (of_nat ?d)"
    using decode_digits_syms [of "digs (Suc j) ?d" 0] undigs_digs [of "Suc j" ?d] digs_less d
    by (auto simp del: digs.simps power_Suc)
  have sum: "of_nat ?d + of_nat (prefix_const j) = v"
    using j(2) by (simp flip: of_nat_add)
  note test = overflow_test [OF low more]
  show ?thesis
    using test digits sum j(1)
    by (simp add: decode_bytes_def j(4) lengthTable_sym prefixDecodeTable_sym Let_def
        del: digs.simps decode_digits.simps)
qed



text \<open>
  The overflow test compares the whole input with the largest encoding, not only the
  symbols of the value: the encoding of the all-ones value followed by anything is rejected
  as an overflow, although decoding the same symbols alone succeeds.
\<close>

theorem varint_max_then_more:
  assumes low: "lowers_ascii to_lower" and more: "rest \<noteq> []"
  shows "decode_bytes to_lower (encode_bytes (- 1) @ rest) = Inl ErrOverflow"
proof -
  have eq: "to_lower (maxValue @ rest) = maxValue @ to_lower rest"
    using lowers_asciiD [OF low] encode_ascii [of "- 1"] unfolding maxValue_def by metis
  have "to_lower rest \<noteq> []" using low more by (simp add: lowers_ascii_def)
  then have "bytes_compare (maxValue @ to_lower rest) (maxValue @ []) = 1"
    by (cases "to_lower rest") (simp_all add: bytes_compare_same_prefix del: append_Nil2)
  then have over: "bytes_compare (to_lower (maxValue @ rest)) maxValue > 0" by (simp add: eq)
  obtain cs where cs: "maxValue = sym 28 # cs" "length cs = 13"
    using length_maxValue(2) by (rule that) simp
  have "0 < bytes_compare (to_lower (sym 28 # cs @ rest)) maxValue" using over by (simp add: cs(1))
  then show ?thesis
    using cs(2)
    by (simp add: decode_bytes_def cs(1) [unfolded maxValue_def] lengthTable_sym Let_def
        length_maxValue(1))
qed

theorem varint_max_then_more_witness:
  "lowers_ascii (map lower_ascii) \<and>
   decode_bytes (map lower_ascii) (encode_bytes (- 1) @ ''1'') = Inl ErrOverflow"
  using varint_max_then_more [of "map lower_ascii" "''1''"] lowers_ascii_map by simp

subsection \<open>Accepted input is canonical\<close>

lemma decode_digits_Inr:
  assumes "decode_digits cs num = Inr r"
  shows "\<exists>ds. map lower_ascii cs = map sym ds \<and> length ds = length cs \<and> (\<forall>d \<in> set ds. d < 32) \<and>
    list_all ascii cs \<and> decode_digits (map sym ds) num = Inr r"
  using assms
proof (induction cs arbitrary: num)
  case (Cons c cs)
  let ?val = "valueTable c"
  have ok: "\<not> (?val = 0 \<and> c \<noteq> CHR ''0'')" and rest: "decode_digits cs (push_bit varbits num + ?val) = Inr r"
    using Cons.prems by (auto simp: Let_def split: if_splits)
  obtain i where i: "symbol_index c = Some i"
  proof (cases "symbol_index c")
    case None
    then have "?val = 0" by (simp add: valueTable_def)
    with ok have "c = sym 0" by (simp add: sym_0)
    with None symbol_index_sym [of 0] show thesis by simp
  qed
  have c: "i < 32" "lower_ascii c = sym i" "ascii c" using sym_inverse [OF i] by simp_all
  have val: "valueTable (sym i) = ?val" using c i by (simp add: valueTable_def symbol_index_sym)
  have ok': "\<not> (valueTable (sym i) = 0 \<and> sym i \<noteq> CHR ''0'')"
    using valueTable_zero [OF c(1)] sym_0 by auto
  from Cons.IH [OF rest] obtain ds where ds: "map lower_ascii cs = map sym ds"
    "length ds = length cs" "\<forall>d \<in> set ds. d < 32" "list_all ascii cs"
    "decode_digits (map sym ds) (push_bit varbits num + ?val) = Inr r" by blast
  show ?case
    using c ds val ok' by (intro exI [of _ "i # ds"]) (auto simp: Let_def)
qed simp

lemma encode_of_offset:
  assumes "j \<le> 12" "d < 32 ^ Suc j" "prefix_const j + d < 18446744073709551616"
  shows "encode_bytes (of_nat (prefix_const j + d)) = sym (16 + j) # map sym (digs (Suc j) d)"
proof -
  let ?v = "of_nat (prefix_const j + d) :: u64"
  have v: "unat ?v = prefix_const j + d" using assms(3) by (rule unat_of_nat_u64)
  have "16 \<le> unat ?v" using prefix_const_mono [of 0 j] by (simp only: v) (simp add: prefix_const_values)
  then obtain i where i: "i \<le> 12" "prefix_const i \<le> unat ?v"
    "i < 12 \<Longrightarrow> unat ?v < prefix_const (Suc i)"
    "encode_bytes ?v = sym (16 + i) # map sym (digs (Suc i) (unat ?v - prefix_const i))"
    using encode_large [of ?v] by blast
  have j: "prefix_const j \<le> unat ?v" "unat ?v < prefix_const (Suc j)"
    using assms(2) by (simp_all only: v prefix_const_Suc)
  have "unat ?v < prefix_const (Suc i)"
  proof (cases "i < 12")
    case False
    with i(1) have "j \<le> i" using assms(1) by simp
    with j(2) show ?thesis using prefix_const_mono [of "Suc j" "Suc i"] by simp
  qed (rule i(3))
  from interval_unique [OF i(2) this j] have "i = j" .
  with i(4) show ?thesis unfolding v by simp
qed

lemma decode_bytes_Inr:
  assumes "decode_bytes low raw = Inr (v, n)"
  obtains c cs num where "raw = c # cs" "n = lengthTable c" "0 < n" "n \<le> length raw"
    "n \<ge> maxLength \<longrightarrow> \<not> bytes_compare (low raw) maxValue > 0"
    "decode_digits (take (n - 1) cs) 0 = Inr num" "v = num + prefixDecodeTable c"
  using assms
  by (auto simp: decode_bytes_def Let_def split: list.splits if_splits sum.splits)

text \<open>
  Whatever is accepted is the encoding of its value up to letter case: the decoder never
  maps two spellings of different letters to one value, and consumes exactly the length of
  the encoding. This is the property that be/schema/varint\_fuzz.go tests at random.
\<close>

theorem varint_decode_canonical:
  assumes low: "lowers_ascii to_lower" and dec: "decode_bytes to_lower raw = Inr (v, n)"
  shows "map lower_ascii (take n raw) = encode_bytes v \<and> n = length (encode_bytes v) \<and> n \<le> length raw"
proof -
  from dec obtain c cs num where raw: "raw = c # cs" "n = lengthTable c" "0 < n" "n \<le> length raw"
    and over: "n \<ge> maxLength \<longrightarrow> \<not> bytes_compare (to_lower raw) maxValue > 0"
    and num: "decode_digits (take (n - 1) cs) 0 = Inr num" and v: "v = num + prefixDecodeTable c"
    using decode_bytes_Inr by blast
  have len_cs: "length (take (n - 1) cs) = n - 1" using raw by auto
  obtain i where i: "symbol_index c = Some i"
    using raw(2,3) by (cases "symbol_index c") (auto simp: lengthTable_def)
  have c: "i < 32" "lower_ascii c = sym i" "ascii c" using sym_inverse [OF i] by simp_all
  have n: "n = (if i < 16 then 1 else i - 14)" using raw(2) i by (simp add: lengthTable_def)
  obtain ds where ds: "map lower_ascii (take (n - 1) cs) = map sym ds" "length ds = n - 1"
    "\<forall>d \<in> set ds. d < 32" "list_all ascii (take (n - 1) cs)" "decode_digits (map sym ds) 0 = Inr num"
    using decode_digits_Inr [OF num] len_cs by auto
  have num': "num = of_nat (undigs 0 ds)" using ds(5) decode_digits_syms [OF ds(3), of 0] by simp
  have take: "take n raw = c # take (n - 1) cs" using raw(1,3) by (cases n) simp_all
  have spelled: "map lower_ascii (take n raw) = sym i # map sym ds" using take c ds by simp
  have prefix: "to_lower raw = (sym i # map sym ds) @ to_lower (drop n raw)"
  proof -
    have "to_lower (take n raw @ drop n raw) = map lower_ascii (take n raw) @ to_lower (drop n raw)"
      using ds(4) c(3) take by (intro lowers_asciiD [OF low]) simp
    then show ?thesis by (simp add: spelled)
  qed
  have "encode_bytes v = sym i # map sym ds"
  proof (cases "i < 16")
    case True
    then have "ds = []" "v = of_nat i" using ds(2) n num' v i by (simp_all add: prefixDecodeTable_def)
    with True show ?thesis by (simp add: encode_small unat_of_nat_u64)
  next
    case False
    have i28: "i \<le> 28"
    proof (rule ccontr)
      assume "\<not> i \<le> 28"
      then have "n \<ge> maxLength" using n by (simp add: length_maxValue(1))
      moreover have "bytes_compare (to_lower raw) maxValue = 1"
        using \<open>\<not> i \<le> 28\<close> c(1)
        by (simp add: prefix length_maxValue(2) bytes_compare_sym del: bytes_compare.simps digs.simps)
      ultimately show False using over by simp
    qed
    define j where "j = i - 16"
    have j: "i = 16 + j" "j \<le> 12" using False i28 by (simp_all add: j_def)
    have len: "length ds = Suc j" using ds(2) n j by simp
    let ?d = "undigs 0 ds"
    have d: "?d < 32 ^ Suc j" "digs (Suc j) ?d = ds"
      using undigs_less [OF ds(3)] digs_undigs [OF ds(3)] len by simp_all
    have fits: "prefix_const j + ?d < 18446744073709551616"
    proof (cases "j = 12")
      case True
      then have "n \<ge> maxLength" using n j by (simp add: length_maxValue(1))
      with over have "\<not> bytes_compare (map sym (digs 13 ?d) @ to_lower (drop n raw))
          (map sym (digs 13 (18446744073709551615 - prefix_const 12)) @ []) > 0"
        using d(2) True j by (simp add: prefix length_maxValue(2))
      then have "\<not> 18446744073709551615 - prefix_const 12 < ?d"
        using d(1) True bytes_compare_digs [of ?d 13 "18446744073709551615 - prefix_const 12"
          "to_lower (drop n raw)" "[]"]
        by (auto simp: prefix_const_values simp del: digs.simps)
      then show ?thesis using True by (simp add: prefix_const_values)
    next
      case False
      then have "prefix_const (Suc j) \<le> prefix_const 12" using j by (intro prefix_const_mono) simp
      then show ?thesis using d(1) by (simp add: prefix_const_Suc prefix_const_values)
    qed
    have "v = of_nat (prefix_const j + ?d)"
      using v num' i j by (simp add: prefixDecodeTable_def)
    then show ?thesis using encode_of_offset [OF j(2) d(1) fits] by (simp only: d(2) j(1))
  qed
  with spelled n raw(4) ds(2) show ?thesis by auto
qed

theorem varint_decode_canonical_witness:
  "decode_bytes (map lower_ascii) ''G1X'' = Inr (17, 2) \<and>
   map lower_ascii (take 2 ''G1X'') = encode_bytes 17 \<and> 2 = length (encode_bytes 17) \<and>
   2 \<le> length ''G1X''"
proof -
  have idx: "symbol_index (CHR ''G'') = Some 16" "symbol_index (CHR ''1'') = Some 1"
    by (simp_all add: symbol_index_def encodeTable_def upperTable_def upt_rec)
  have "decode_bytes (map lower_ascii) ''G1X'' = Inr (17, 2)"
    by (simp add: decode_bytes_def lengthTable_def idx length_maxValue(1) valueTable_def
        prefixDecodeTable_def prefix_const_values Let_def)
  from this varint_decode_canonical [OF lowers_ascii_map this] show ?thesis by simp
qed

text \<open>
  C39. Comparing two encodings byte by byte, whatever follows each of them, orders them as
  the unsigned values: sorting identifiers as text sorts them as numbers, and no encoding is
  a prefix of another, so a concatenation of encodings splits in one way only.
\<close>

theorem varint_order_embedding:
  "bytes_compare (encode_bytes v @ x) (encode_bytes w @ y) =
     (if v < w then - 1 else if w < v then 1 else bytes_compare x y) \<and>
   (encode_bytes v @ x = encode_bytes w @ y \<longleftrightarrow> v = w \<and> x = y)"
proof -
  have anti: "bytes_compare a b = - 1 \<Longrightarrow> bytes_compare b a = 1" for a b
    by (induction a b rule: bytes_compare.induct) (auto split: if_splits)
  have "bytes_compare (encode_bytes v @ x) (encode_bytes w @ y) =
      (if v < w then - 1 else if w < v then 1 else bytes_compare x y)"
  proof -
    consider "v < w" | "w < v" | "v = w" by (metis linorder_less_linear)
    then show ?thesis
    proof cases
      case 1
      then show ?thesis by (simp add: encode_order)
    next
      case 2
      from anti [OF encode_order [OF 2, of y x]] 2 show ?thesis by auto
    next
      case 3
      then show ?thesis by (simp add: bytes_compare_same_prefix)
    qed
  qed
  moreover have "encode_bytes v @ x = encode_bytes w @ y \<longleftrightarrow> v = w \<and> x = y"
    using encode_prefix_free by blast
  ultimately show ?thesis by blast
qed

end
