(* ===== verification/Status.thy ===== *)
theory Status
  imports Prelude
begin

section \<open>The error type (be/status/errors.go)\<close>

text \<open>
  Every failing operation of the back end returns a \<open>status.S\<close>: a gRPC code, a message, an
  optional cause and a list of suppressed errors. The stack trace is left out, and a
  message is the literal text of the call that built it: the values the source formats into
  a message are not modelled, and no code of the repository reads them back.

  A Go \<open>error\<close> that is not a \<open>status.S\<close> is one of the four foreign kinds below: an SQL
  error wrapped by be/schema/db/sql.go (with the reason the driver gives, which the adapters'
  \<open>RetryableErr\<close> inspects), a cancelled or expired context, and any other library error.
\<close>

subsection \<open>Codes and errors\<close>

datatype code =
    CodeCanceled | CodeUnknown | CodeInvalidArgument | CodeDeadlineExceeded | CodeNotFound
  | CodeAlreadyExists | CodePermissionDenied | CodeResourceExhausted | CodeFailedPrecondition
  | CodeAborted | CodeOutOfRange | CodeUnimplemented | CodeInternal | CodeUnavailable
  | CodeDataLoss | CodeUnauthenticated

datatype sqlreason = SerializationFailure | DeadlockDetected | UniqueViolation | SqlTxDone | SqlOther

datatype gerr =
    EStatus sts
  | ESql sqlreason
  | ECtxCanceled
  | ECtxDeadlineExceeded
  | EOther string
and sts = Sts code string "gerr option" "gerr list"

fun sts_code :: "sts \<Rightarrow> code" where
  "sts_code (Sts c m ca su) = c"

fun sts_message :: "sts \<Rightarrow> string" where
  "sts_message (Sts c m ca su) = m"

fun sts_cause :: "sts \<Rightarrow> gerr option" where
  "sts_cause (Sts c m ca su) = ca"

fun sts_suppressed :: "sts \<Rightarrow> gerr list" where
  "sts_suppressed (Sts c m ca su) = su"

text \<open>The name of a code, as package codes of gRPC prints it, and \<open>Error()\<close>.\<close>

fun code_name :: "code \<Rightarrow> string" where
  "code_name CodeCanceled = ''Canceled''"
| "code_name CodeUnknown = ''Unknown''"
| "code_name CodeInvalidArgument = ''InvalidArgument''"
| "code_name CodeDeadlineExceeded = ''DeadlineExceeded''"
| "code_name CodeNotFound = ''NotFound''"
| "code_name CodeAlreadyExists = ''AlreadyExists''"
| "code_name CodePermissionDenied = ''PermissionDenied''"
| "code_name CodeResourceExhausted = ''ResourceExhausted''"
| "code_name CodeFailedPrecondition = ''FailedPrecondition''"
| "code_name CodeAborted = ''Aborted''"
| "code_name CodeOutOfRange = ''OutOfRange''"
| "code_name CodeUnimplemented = ''Unimplemented''"
| "code_name CodeInternal = ''Internal''"
| "code_name CodeUnavailable = ''Unavailable''"
| "code_name CodeDataLoss = ''DataLoss''"
| "code_name CodeUnauthenticated = ''Unauthenticated''"

fun writeSelf :: "sts \<Rightarrow> string" where
  "writeSelf (Sts c m ca su) = code_name c @ '': '' @ m"

text \<open>\<open>err.Error()\<close>.\<close>

fun err_text :: "gerr \<Rightarrow> string" where
  "err_text (EStatus s) = writeSelf s"
| "err_text (ESql r) = ''sql error''"
| "err_text ECtxCanceled = ''context canceled''"
| "err_text ECtxDeadlineExceeded = ''context deadline exceeded''"
| "err_text (EOther m) = m"

subsection \<open>Building and combining errors\<close>

fun From :: "gerr \<Rightarrow> sts" where
  "From (EStatus s) = s"
| "From ECtxCanceled = Sts CodeCanceled (err_text ECtxCanceled) (Some ECtxCanceled) []"
| "From ECtxDeadlineExceeded =
     Sts CodeDeadlineExceeded (err_text ECtxDeadlineExceeded) (Some ECtxDeadlineExceeded) []"
| "From e = Sts CodeUnknown (err_text e) (Some e) []"

fun WithSuppressed :: "sts \<Rightarrow> gerr list \<Rightarrow> sts" where
  "WithSuppressed (Sts c m ca su) more = Sts c m ca (su @ more)"

text \<open>
  \<open>ReplaceOrSuppress\<close> stores an error in a result that may already hold one. The source
  panics on a nil argument, which the type of the second argument rules out here.
\<close>

fun ReplaceOrSuppress :: "sts option \<Rightarrow> sts \<Rightarrow> sts option" where
  "ReplaceOrSuppress None e = Some e"
| "ReplaceOrSuppress (Some s) e = Some (WithSuppressed s [EStatus e])"

definition Canceled :: "gerr option \<Rightarrow> string \<Rightarrow> sts" where
  "Canceled e m = Sts CodeCanceled m e []"

definition Unknown :: "gerr option \<Rightarrow> string \<Rightarrow> sts" where
  "Unknown e m = Sts CodeUnknown m e []"

definition InvalidArgument :: "gerr option \<Rightarrow> string \<Rightarrow> sts" where
  "InvalidArgument e m = Sts CodeInvalidArgument m e []"

definition DeadlineExceeded :: "gerr option \<Rightarrow> string \<Rightarrow> sts" where
  "DeadlineExceeded e m = Sts CodeDeadlineExceeded m e []"

definition NotFound :: "gerr option \<Rightarrow> string \<Rightarrow> sts" where
  "NotFound e m = Sts CodeNotFound m e []"

definition AlreadyExists :: "gerr option \<Rightarrow> string \<Rightarrow> sts" where
  "AlreadyExists e m = Sts CodeAlreadyExists m e []"

definition PermissionDenied :: "gerr option \<Rightarrow> string \<Rightarrow> sts" where
  "PermissionDenied e m = Sts CodePermissionDenied m e []"

definition ResourceExhausted :: "gerr option \<Rightarrow> string \<Rightarrow> sts" where
  "ResourceExhausted e m = Sts CodeResourceExhausted m e []"

definition FailedPrecondition :: "gerr option \<Rightarrow> string \<Rightarrow> sts" where
  "FailedPrecondition e m = Sts CodeFailedPrecondition m e []"

definition OutOfRange :: "gerr option \<Rightarrow> string \<Rightarrow> sts" where
  "OutOfRange e m = Sts CodeOutOfRange m e []"

definition Unimplemented :: "gerr option \<Rightarrow> string \<Rightarrow> sts" where
  "Unimplemented e m = Sts CodeUnimplemented m e []"

definition Unavailable :: "gerr option \<Rightarrow> string \<Rightarrow> sts" where
  "Unavailable e m = Sts CodeUnavailable m e []"

definition Aborted :: "gerr option \<Rightarrow> string \<Rightarrow> sts" where
  "Aborted e m = Sts CodeAborted m e []"

definition Internal :: "gerr option \<Rightarrow> string \<Rightarrow> sts" where
  "Internal e m = Sts CodeInternal m e []"

definition DataLoss :: "gerr option \<Rightarrow> string \<Rightarrow> sts" where
  "DataLoss e m = Sts CodeDataLoss m e []"

definition Unauthenticated :: "gerr option \<Rightarrow> string \<Rightarrow> sts" where
  "Unauthenticated e m = Sts CodeUnauthenticated m e []"

lemmas status_defs = Canceled_def Unknown_def InvalidArgument_def DeadlineExceeded_def
  NotFound_def AlreadyExists_def PermissionDenied_def Aborted_def Internal_def DataLoss_def
  Unauthenticated_def

lemma code_of_constructors [simp]:
  "sts_code (Canceled e m) = CodeCanceled"
  "sts_code (Unknown e m) = CodeUnknown"
  "sts_code (InvalidArgument e m) = CodeInvalidArgument"
  "sts_code (DeadlineExceeded e m) = CodeDeadlineExceeded"
  "sts_code (NotFound e m) = CodeNotFound"
  "sts_code (AlreadyExists e m) = CodeAlreadyExists"
  "sts_code (PermissionDenied e m) = CodePermissionDenied"
  "sts_code (Aborted e m) = CodeAborted"
  "sts_code (Internal e m) = CodeInternal"
  "sts_code (DataLoss e m) = CodeDataLoss"
  "sts_code (Unauthenticated e m) = CodeUnauthenticated"
  by (simp_all add: status_defs)

lemma cause_of_constructors [simp]:
  "sts_cause (Unknown e m) = e"
  "sts_cause (InvalidArgument e m) = e"
  "sts_cause (Internal e m) = e"
  by (simp_all add: status_defs)

subsection \<open>Laws of suppression\<close>

lemma WithSuppressed_Nil [simp]: "WithSuppressed s [] = s"
  by (cases s) simp

lemma WithSuppressed_append: "WithSuppressed (WithSuppressed s a) b = WithSuppressed s (a @ b)"
  by (cases s) simp

lemma WithSuppressed_fields [simp]:
  "sts_code (WithSuppressed s a) = sts_code s"
  "sts_message (WithSuppressed s a) = sts_message s"
  "sts_cause (WithSuppressed s a) = sts_cause s"
  "sts_suppressed (WithSuppressed s a) = sts_suppressed s @ a"
  by (cases s; simp)+

text \<open>A run of deferred failures keeps the first error and lists the others in order.\<close>

lemma ReplaceOrSuppress_fold:
  "foldl ReplaceOrSuppress (Some s) es = Some (WithSuppressed s (map EStatus es))"
  by (induction es arbitrary: s) (simp_all add: WithSuppressed_append)

lemma ReplaceOrSuppress_never_None: "ReplaceOrSuppress x e \<noteq> None"
  by (cases x) simp_all

end
