(* ===== verification/CapSets.thy ===== *)
theory CapSets
  imports Status
begin

section \<open>Capability sets (be/schema/user.go)\<close>

text \<open>
  A \<open>CapSet\<close> keeps the capabilities 0 to 63 as bits of one word and any other number in a
  sorted slice without repetitions. Every permission check of the back end compares the
  capabilities a user has with those an operation wants through this type.

  A capability is a protobuf enum value, an \<open>int\<close>; \<open>sort.Search\<close>, \<open>bits.OnesCount64\<close> and
  \<open>bits.TrailingZeros64\<close> are written out below.
\<close>

unbundle bit_operations_syntax

subsection \<open>Library routines\<close>

text \<open>\<open>sort.Search(n, f)\<close>: binary search for the least index at which \<open>f\<close> holds.\<close>

function search_between :: "nat \<Rightarrow> nat \<Rightarrow> (nat \<Rightarrow> bool) \<Rightarrow> nat" where
  "search_between i j f =
     (if i < j then
        (let h = (i + j) div 2
         in if \<not> f h then search_between (h + 1) j f else search_between i h f)
      else i)"
  by pat_completeness auto
termination
  by (relation "measure (\<lambda>(i, j, f). j - i)") auto

declare search_between.simps [simp del]

definition sort_search :: "nat \<Rightarrow> (nat \<Rightarrow> bool) \<Rightarrow> nat" where
  "sort_search n f = search_between 0 n f"

definition ones_count64 :: "64 word \<Rightarrow> nat" where
  "ones_count64 c = length (filter (bit c) [0..<64])"

definition trailing_zeros64 :: "64 word \<Rightarrow> nat" where
  "trailing_zeros64 c = length (takeWhile (\<lambda>i. \<not> bit c i) [0..<64])"

subsection \<open>The type and its operations\<close>

record capset =
  cs_c :: "64 word"
  cs_extra :: "int list"

definition new_capset :: capset where
  "new_capset = \<lparr>cs_c = 0, cs_extra = []\<rparr>"

definition in_word :: "int \<Rightarrow> bool" where
  "in_word c \<longleftrightarrow> c \<ge> 0 \<and> c < 64"

definition cs_has :: "capset \<Rightarrow> int \<Rightarrow> bool" where
  "cs_has cs c =
     (if in_word c then (cs_c cs AND push_bit (nat c) 1) > 0
      else list_ex (\<lambda>ec. ec = c) (cs_extra cs))"

definition cs_add :: "capset \<Rightarrow> int \<Rightarrow> capset" where
  "cs_add cs c =
     (if in_word c then cs\<lparr>cs_c := cs_c cs OR push_bit (nat c) 1\<rparr>
      else
        (let n = length (cs_extra cs);
             i = sort_search n (\<lambda>k. cs_extra cs ! k \<ge> c)
         in if i < n \<and> cs_extra cs ! i = c then cs
            else cs\<lparr>cs_extra := take i (cs_extra cs) @ c # drop i (cs_extra cs)\<rparr>))"

definition CapSetOf :: "int list \<Rightarrow> capset" where
  "CapSetOf caps = foldl cs_add new_capset caps"

definition cs_size :: "capset \<Rightarrow> nat" where
  "cs_size cs = ones_count64 (cs_c cs) + length (cs_extra cs)"

lemma clear_lowest_decreases:
  assumes "trailing_zeros64 c \<noteq> 64"
  shows "ones_count64 (c AND NOT (push_bit (trailing_zeros64 c) 1)) < ones_count64 c"
proof -
  let ?t = "trailing_zeros64 c"
  have "?t < 64"
    using assms length_takeWhile_le [of "\<lambda>i. \<not> bit c i" "[0..<64]"]
    by (simp add: trailing_zeros64_def)
  then have t: "bit c ?t" "?t \<in> set [0..<64]"
    using nth_length_takeWhile [of "\<lambda>i. \<not> bit c i" "[0..<64]"] by (simp_all add: trailing_zeros64_def)
  have bits: "bit (c AND NOT (push_bit ?t 1)) i \<longleftrightarrow> bit c i \<and> i \<noteq> ?t" for i
    by (auto simp: bit_simps dest: bit_imp_le_length)
  have "ones_count64 d = card {i. i < 64 \<and> bit d i}" for d
    unfolding ones_count64_def
    by (subst distinct_card [symmetric]) (auto intro!: arg_cong [where f = card])
  moreover have "{i. i < 64 \<and> bit c i \<and> i \<noteq> ?t} \<subset> {i. i < 64 \<and> bit c i}"
    using t by auto
  ultimately show ?thesis by (simp only: bits) (simp add: psubset_card_mono)
qed

text \<open>The loop of \<open>Slice\<close> over the set bits, lowest first.\<close>

function slice_bits :: "64 word \<Rightarrow> int list" where
  "slice_bits c =
     (let trail = trailing_zeros64 c
      in if trail = 64 then []
         else int trail # slice_bits (c AND NOT (push_bit trail 1)))"
  by pat_completeness auto
termination
  by (relation "measure ones_count64")
    (simp_all only: in_measure clear_lowest_decreases wf_measure not_False_eq_True)

declare slice_bits.simps [simp del]

definition cs_slice :: "capset \<Rightarrow> int list" where
  "cs_slice cs = slice_bits (cs_c cs) @ cs_extra cs"

text \<open>The merge loop of \<open>CapIntersect\<close> over the two sorted slices.\<close>

fun merge_extra :: "int list \<Rightarrow> int list \<Rightarrow> int list \<times> int list \<times> int list" where
  "merge_extra (lv # ls) (rv # rs) =
     (if lv = rv then (case merge_extra ls rs of (b, l, r) \<Rightarrow> (lv # b, l, r))
      else if lv < rv then (case merge_extra ls (rv # rs) of (b, l, r) \<Rightarrow> (b, lv # l, r))
      else (case merge_extra (lv # ls) rs of (b, l, r) \<Rightarrow> (b, l, rv # r)))"
| "merge_extra ls rs = ([], ls, rs)"

definition CapIntersect :: "capset \<Rightarrow> capset \<Rightarrow> capset \<times> capset \<times> capset" where
  "CapIntersect left right =
     (let both = cs_c left AND cs_c right;
          (b, l, r) = merge_extra (cs_extra left) (cs_extra right)
      in (\<lparr>cs_c = both, cs_extra = b\<rparr>,
          \<lparr>cs_c = cs_c left AND NOT both, cs_extra = l\<rparr>,
          \<lparr>cs_c = cs_c right AND NOT both, cs_extra = r\<rparr>))"

definition VerifyCapSubset :: "capset \<Rightarrow> capset \<Rightarrow> sts option" where
  "VerifyCapSubset have_caps want_caps =
     (case CapIntersect have_caps want_caps of (_, _, right) \<Rightarrow>
        (if cs_size right \<noteq> 0 then Some (PermissionDenied None ''missing cap'') else None))"

definition cs_inv :: "capset \<Rightarrow> bool" where
  "cs_inv cs \<longleftrightarrow> sorted_wrt (<) (cs_extra cs) \<and> (\<forall>c \<in> set (cs_extra cs). \<not> in_word c)"

subsection \<open>The interface the rest of the back end uses\<close>

text \<open>
  A collection that starts empty and is filled by insertion. Building it from a list gives
  a collection of the list's elements; that is all \<open>CapSetOf\<close> is relied on for.
\<close>

locale insert_collection =
  fixes empty :: 's
    and insert_one :: "'s \<Rightarrow> 'e \<Rightarrow> 's"
    and mem :: "'s \<Rightarrow> 'e \<Rightarrow> bool"
    and inv :: "'s \<Rightarrow> bool"
  assumes inv_empty: "inv empty"
    and mem_empty: "\<not> mem empty x"
    and inv_insert: "inv s \<Longrightarrow> inv (insert_one s x)"
    and mem_insert: "inv s \<Longrightarrow> mem (insert_one s x) y \<longleftrightarrow> y = x \<or> mem s y"
begin

lemma fold_insert: "inv s \<Longrightarrow> inv (foldl insert_one s xs) \<and>
    (mem (foldl insert_one s xs) y \<longleftrightarrow> y \<in> set xs \<or> mem s y)"
  by (induction xs arbitrary: s) (auto simp: inv_insert mem_insert)

lemma inv_of_list: "inv (foldl insert_one empty xs)"
  and mem_of_list: "mem (foldl insert_one empty xs) y \<longleftrightarrow> y \<in> set xs"
  using fold_insert [of empty xs y] inv_empty mem_empty by auto

end

subsection \<open>The operations implement it\<close>

lemma search_between_least:
  assumes "\<forall>a b. i \<le> a \<longrightarrow> a \<le> b \<longrightarrow> b < j \<longrightarrow> f a \<longrightarrow> f b" "i \<le> j"
  shows "i \<le> search_between i j f \<and> search_between i j f \<le> j \<and>
    (\<forall>k. i \<le> k \<longrightarrow> k < search_between i j f \<longrightarrow> \<not> f k) \<and>
    (search_between i j f < j \<longrightarrow> f (search_between i j f))"
  using assms
proof (induction i j f rule: search_between.induct)
  case (1 i j f)
  show ?case
  proof (cases "i < j")
    case False
    then have "search_between i j f = i" by (simp add: search_between.simps [of i j f])
    with "1.prems"(2) False show ?thesis by simp
  next
    case True
    let ?h = "(i + j) div 2"
    have h: "i \<le> ?h" "?h < j" using True by auto
    show ?thesis
    proof (cases "f ?h")
      case f: True
      have eq: "search_between i j f = search_between i ?h f"
        using True f by (simp add: search_between.simps [of i j f])
      have mono: "\<forall>a b. i \<le> a \<longrightarrow> a \<le> b \<longrightarrow> b < ?h \<longrightarrow> f a \<longrightarrow> f b"
        using "1.prems"(1) h(2) by (meson order.strict_trans)
      have "\<not> \<not> f ?h" using f by simp
      note IH = "1.IH"(2) [OF True refl this mono h(1)]
      moreover have "f (search_between i ?h f)"
        using IH f by (cases "search_between i ?h f < ?h") auto
      ultimately show ?thesis using h unfolding eq by auto
    next
      case f: False
      have eq: "search_between i j f = search_between (?h + 1) j f"
        using True f by (simp add: search_between.simps [of i j f])
      have mono: "\<forall>a b. ?h + 1 \<le> a \<longrightarrow> a \<le> b \<longrightarrow> b < j \<longrightarrow> f a \<longrightarrow> f b"
        using "1.prems"(1) h(1) by (meson add_leD1 order_trans)
      have "?h + 1 \<le> j" using h(2) by simp
      note IH = "1.IH"(1) [OF True refl f mono this]
      have "\<not> f k" if "i \<le> k" "k < search_between (?h + 1) j f" for k
      proof (cases "k \<le> ?h")
        case True
        then show ?thesis using "1.prems"(1) that f h by blast
      next
        case False
        then show ?thesis using IH that by auto
      qed
      then show ?thesis using IH h unfolding eq by auto
    qed
  qed
qed

lemma sort_search_le_sorted:
  assumes "sorted_wrt (<) (xs :: int list)" and i_def: "i = sort_search (length xs) (\<lambda>k. xs ! k \<ge> c)"
  shows "i \<le> length xs \<and> (\<forall>x \<in> set (take i xs). x < c) \<and> (\<forall>x \<in> set (drop i xs). c \<le> x)"
proof -
  have mono: "xs ! a \<ge> c \<longrightarrow> xs ! b \<ge> c" if "a \<le> b" "b < length xs" for a b
    using sorted_wrt_nth_less [OF assms(1), of a b] that by (cases "a = b") auto
  have least: "i \<le> length xs" "\<forall>k < i. \<not> xs ! k \<ge> c" "i < length xs \<longrightarrow> xs ! i \<ge> c"
    using search_between_least [of 0 "length xs" "\<lambda>k. xs ! k \<ge> c"] mono
    by (auto simp: i_def sort_search_def)
  have "x < c" if "x \<in> set (take i xs)" for x
    using that least(1,2) by (auto simp: in_set_conv_nth)
  moreover have "c \<le> x" if "x \<in> set (drop i xs)" for x
  proof -
    from that obtain k where "k < length (drop i xs)" "x = drop i xs ! k"
      by (metis in_set_conv_nth)
    then have k: "i + k < length xs" "x = xs ! (i + k)" by auto
    then have "xs ! i \<ge> c" using least(3) by simp
    then show ?thesis using mono [of i "i + k"] k by simp
  qed
  ultimately show ?thesis using least(1) by blast
qed

lemma cs_has_word: "in_word c \<Longrightarrow> cs_has cs c \<longleftrightarrow> bit (cs_c cs) (nat c)"
proof -
  assume c: "in_word c"
  have "bit (cs_c cs AND push_bit (nat c) 1) i \<longleftrightarrow> bit (cs_c cs) i \<and> i = nat c" for i
    using c by (auto simp: bit_simps in_word_def dest: bit_imp_le_length)
  then have "cs_c cs AND push_bit (nat c) 1 = 0 \<longleftrightarrow> \<not> bit (cs_c cs) (nat c)"
    by (metis bit_eqI bit_0_eq bot2E bot_apply)
  then show ?thesis using c by (simp add: cs_has_def word_gt_0)
qed

lemma cs_has_extra: "\<not> in_word c \<Longrightarrow> cs_has cs c \<longleftrightarrow> c \<in> set (cs_extra cs)"
  by (auto simp: cs_has_def list_ex_iff)

lemma cs_has_iff:
  "cs_has cs c \<longleftrightarrow> (if in_word c then bit (cs_c cs) (nat c) else c \<in> set (cs_extra cs))"
  by (simp add: cs_has_word cs_has_extra)

lemma cs_add_word: "in_word c \<Longrightarrow> cs_has (cs_add cs c) y \<longleftrightarrow> y = c \<or> cs_has cs y"
  by (cases "in_word y")
    (auto simp: cs_has_iff cs_add_def bit_simps in_word_def dest: bit_imp_le_length)

lemma cs_add_extra_sorted:
  assumes "sorted_wrt (<) (cs_extra cs)" "\<not> in_word c"
  shows "sorted_wrt (<) (cs_extra (cs_add cs c)) \<and>
    set (cs_extra (cs_add cs c)) = insert c (set (cs_extra cs))"
proof -
  let ?xs = "cs_extra cs"
  define i where "i = sort_search (length ?xs) (\<lambda>k. ?xs ! k \<ge> c)"
  have split: "i \<le> length ?xs" "\<forall>x \<in> set (take i ?xs). x < c" "\<forall>x \<in> set (drop i ?xs). c \<le> x"
    using sort_search_le_sorted [OF assms(1) i_def] by auto
  show ?thesis
  proof (cases "i < length ?xs \<and> ?xs ! i = c")
    case True
    then have "cs_add cs c = cs" using assms(2) by (simp add: cs_add_def i_def Let_def)
    then show ?thesis using True assms(1) by auto
  next
    case False
    have "cs_add cs c = (if i < length ?xs \<and> ?xs ! i = c then cs
        else cs\<lparr>cs_extra := take i ?xs @ c # drop i ?xs\<rparr>)"
      using assms(2) by (simp only: cs_add_def i_def Let_def if_False)
    then have eq: "cs_extra (cs_add cs c) = take i ?xs @ c # drop i ?xs"
      by (simp only: if_not_P [OF False]) simp
    have sorted: "sorted_wrt (<) (take i ?xs @ drop i ?xs)" using assms(1) by simp
    have "c \<notin> set (drop i ?xs)"
    proof
      assume c: "c \<in> set (drop i ?xs)"
      then obtain y ys where ys: "drop i ?xs = y # ys" by (cases "drop i ?xs") auto
      then have "i < length ?xs" "y = ?xs ! i"
        by (metis drop_eq_Nil linorder_not_le list.distinct(1), metis hd_drop_conv_nth drop_eq_Nil
            linorder_not_le list.distinct(1) list.sel(1))
      with False have "y \<noteq> c" by simp
      with c ys have "c \<in> set ys" by simp
      moreover have "y < c" using sorted ys \<open>c \<in> set ys\<close> by (auto simp: sorted_wrt_append)
      moreover have "c \<le> y" using split(3) ys by simp
      ultimately show False by simp
    qed
    with split(3) have "\<forall>x \<in> set (drop i ?xs). c < x" by (metis order_le_imp_less_or_eq)
    with sorted split(2) have "sorted_wrt (<) (take i ?xs @ c # drop i ?xs)"
      unfolding sorted_wrt_append by auto
    moreover have "set (take i ?xs @ c # drop i ?xs) = insert c (set ?xs)"
    proof -
      have "set ?xs = set (take i ?xs) \<union> set (drop i ?xs)"
        by (metis append_take_drop_id set_append)
      then show ?thesis by simp
    qed
    ultimately show ?thesis by (simp only: eq)
  qed
qed

lemma cs_add_keeps_inv: "cs_inv cs \<Longrightarrow> cs_inv (cs_add cs c)"
proof (cases "in_word c")
  case False
  assume "cs_inv cs"
  then show ?thesis using cs_add_extra_sorted [of cs c] False by (auto simp: cs_inv_def)
qed (simp add: cs_inv_def cs_add_def)

lemma cs_add_has: "cs_inv cs \<Longrightarrow> cs_has (cs_add cs c) y \<longleftrightarrow> y = c \<or> cs_has cs y"
proof (cases "in_word c")
  case False
  assume inv: "cs_inv cs"
  have "cs_c (cs_add cs c) = cs_c cs" using False by (simp add: cs_add_def Let_def)
  then show ?thesis using cs_add_extra_sorted [of cs c] inv False
    by (auto simp: cs_has_iff cs_inv_def)
qed (simp add: cs_add_word)

interpretation caps: insert_collection new_capset cs_add cs_has cs_inv
proof
  show "cs_inv new_capset" by (simp add: cs_inv_def new_capset_def)
  show "\<not> cs_has new_capset x" for x by (simp add: cs_has_iff new_capset_def)
qed (simp_all add: cs_add_keeps_inv cs_add_has)

lemma CapSetOf_inv: "cs_inv (CapSetOf xs)"
  unfolding CapSetOf_def by (rule caps.inv_of_list)

lemma CapSetOf_has [simp]: "cs_has (CapSetOf xs) y \<longleftrightarrow> y \<in> set xs"
  unfolding CapSetOf_def by (rule caps.mem_of_list)

subsection \<open>Listing and comparing\<close>

lemma ones_count64_card: "ones_count64 d = card {i. i < 64 \<and> bit d i}"
  unfolding ones_count64_def
  by (subst distinct_card [symmetric]) (auto intro!: arg_cong [where f = card])

lemma trailing_zeros64_least:
  assumes "trailing_zeros64 c \<noteq> 64"
  shows "trailing_zeros64 c < 64" "bit c (trailing_zeros64 c)"
    "i < trailing_zeros64 c \<Longrightarrow> \<not> bit c i"
proof -
  have len: "trailing_zeros64 c \<le> 64"
    using length_takeWhile_le [of "\<lambda>i. \<not> bit c i" "[0..<64]"] by (simp add: trailing_zeros64_def)
  then show lt: "trailing_zeros64 c < 64" using assms by simp
  show "bit c (trailing_zeros64 c)"
    using lt nth_length_takeWhile [of "\<lambda>i. \<not> bit c i" "[0..<64]"]
    by (simp add: trailing_zeros64_def)
  assume i: "i < trailing_zeros64 c"
  then have "takeWhile (\<lambda>i. \<not> bit c i) [0..<64] ! i = [0..<64] ! i"
    unfolding trailing_zeros64_def by (rule takeWhile_nth)
  then have "i \<in> set (takeWhile (\<lambda>i. \<not> bit c i) [0..<64])"
    using i lt by (metis trailing_zeros64_def nth_mem nth_upt add_0 order.strict_trans)
  then show "\<not> bit c i" by (auto dest: set_takeWhileD)
qed

lemma trailing_zeros64_zero: "trailing_zeros64 c = 64 \<longleftrightarrow> c = 0"
proof
  assume t: "trailing_zeros64 c = 64"
  have "takeWhile (\<lambda>i. \<not> bit c i) [0..<64] = [0..<64]"
    using t takeWhile_eq_take [of "\<lambda>i. \<not> bit c i" "[0..<64]"] by (simp add: trailing_zeros64_def)
  then have "\<not> bit c i" if "i < 64" for i
    using that by (auto simp: takeWhile_eq_all_conv)
  then show "c = 0" by (intro bit_word_eqI) auto
next
  assume c: "c = 0"
  have "takeWhile (\<lambda>i. \<not> bit c i) [0..<64] = [0..<64]"
    by (rule takeWhile_eq_all_conv [THEN iffD2]) (simp add: c)
  then show "trailing_zeros64 c = 64" unfolding trailing_zeros64_def by (simp only: length_upt)
qed

lemma slice_bits_props:
  "sorted_wrt (<) (slice_bits c) \<and> set (slice_bits c) = {x. in_word x \<and> bit c (nat x)} \<and>
   length (slice_bits c) = ones_count64 c"
proof (induction c rule: slice_bits.induct)
  case (1 c)
  show ?case
  proof (cases "trailing_zeros64 c = 64")
    case True
    then have c: "c = 0" by (simp add: trailing_zeros64_zero)
    have "slice_bits c = []" using True by (simp add: slice_bits.simps [of c])
    then show ?thesis using c by (simp add: ones_count64_def)
  next
    case False
    let ?t = "trailing_zeros64 c"
    let ?d = "c AND NOT (push_bit ?t 1)"
    note t = trailing_zeros64_least [OF False]
    have eq: "slice_bits c = int ?t # slice_bits ?d"
      using False by (simp add: slice_bits.simps [of c] Let_def)
    have bits: "bit ?d i \<longleftrightarrow> bit c i \<and> i \<noteq> ?t" for i
      by (auto simp: bit_simps dest: bit_imp_le_length)
    note IH = "1.IH" [OF refl False]
    have set_d: "set (slice_bits ?d) = {x. in_word x \<and> bit c (nat x) \<and> nat x \<noteq> ?t}"
      using IH by (simp only: bits)
    have "{i. i < 64 \<and> bit c i} = insert ?t {i. i < 64 \<and> bit c i \<and> i \<noteq> ?t}"
      using t by auto
    then have "ones_count64 c = Suc (ones_count64 ?d)"
      by (simp only: ones_count64_card bits) simp
    moreover have "set (slice_bits c) = {x. in_word x \<and> bit c (nat x)}"
      unfolding eq list.set set_d using t(1,2) by (auto simp: in_word_def)
    moreover have "int ?t < x" if "x \<in> set (slice_bits ?d)" for x
      using that t(3) [of "nat x"] unfolding set_d by (force simp: in_word_def)
    ultimately show ?thesis using IH by (simp add: eq)
  qed
qed

lemma cs_slice_props:
  assumes "cs_inv cs"
  shows "distinct (cs_slice cs)" "set (cs_slice cs) = {x. cs_has cs x}"
    "length (cs_slice cs) = cs_size cs"
  using assms slice_bits_props [of "cs_c cs"]
  by (auto simp: cs_slice_def cs_size_def cs_inv_def cs_has_iff strict_sorted_iff)

lemma merge_extra_sorted:
  assumes "sorted_wrt (<) ls" "sorted_wrt (<) rs"
  shows "merge_extra ls rs =
    (filter (\<lambda>x. x \<in> set rs) ls, filter (\<lambda>x. x \<notin> set rs) ls, filter (\<lambda>x. x \<notin> set ls) rs)"
  using assms
proof (induction ls rs rule: merge_extra.induct)
  case (1 lv ls rv rs)
  have l: "\<forall>x \<in> set ls. lv < x" and r: "\<forall>x \<in> set rs. rv < x" using "1.prems" by auto
  consider "lv = rv" | "lv < rv" | "rv < lv" by linarith
  then show ?case
  proof cases
    case 1
    have "filter (\<lambda>x. x = rv \<or> x \<in> set rs) ls = filter (\<lambda>x. x \<in> set rs) ls"
      "filter (\<lambda>x. x \<noteq> rv \<and> x \<notin> set rs) ls = filter (\<lambda>x. x \<notin> set rs) ls"
      "filter (\<lambda>x. x \<noteq> rv \<and> x \<notin> set ls) rs = filter (\<lambda>x. x \<notin> set ls) rs"
      using l r 1 by (auto intro!: filter_cong)
    then show ?thesis using "1.IH"(1) "1.prems" 1 by simp
  next
    case 2
    have "filter (\<lambda>x. x \<noteq> lv \<and> x \<notin> set ls) (rv # rs) = filter (\<lambda>x. x \<notin> set ls) (rv # rs)"
      using r 2 by (auto intro!: filter_cong)
    moreover have "lv \<notin> set rs" using r 2 by auto
    ultimately show ?thesis using "1.IH"(2) "1.prems" 2 by simp
  next
    case 3
    have "filter (\<lambda>x. x = rv \<or> x \<in> set rs) (lv # ls) = filter (\<lambda>x. x \<in> set rs) (lv # ls)"
      "filter (\<lambda>x. x \<noteq> rv \<and> x \<notin> set rs) (lv # ls) = filter (\<lambda>x. x \<notin> set rs) (lv # ls)"
      using l 3 by (auto intro!: filter_cong)
    moreover have "rv \<notin> set ls" using l 3 by auto
    ultimately show ?thesis using "1.IH"(3) "1.prems" 3 by simp
  qed
qed simp_all

lemma CapIntersect_parts:
  assumes "cs_inv left" "cs_inv right" "CapIntersect left right = (b, l, r)"
  shows "cs_inv b" "cs_inv l" "cs_inv r"
    "cs_has b x \<longleftrightarrow> cs_has left x \<and> cs_has right x"
    "cs_has l x \<longleftrightarrow> cs_has left x \<and> \<not> cs_has right x"
    "cs_has r x \<longleftrightarrow> cs_has right x \<and> \<not> cs_has left x"
  using assms
  by (auto simp: CapIntersect_def cs_inv_def merge_extra_sorted Let_def cs_has_iff bit_simps
      in_word_def sorted_wrt_filter dest: bit_imp_le_length)

lemma cs_size_zero: "cs_inv cs \<Longrightarrow> cs_size cs = 0 \<longleftrightarrow> (\<forall>x. \<not> cs_has cs x)"
  using cs_slice_props [of cs] by (metis (mono_tags) empty_Collect_eq length_0_conv set_empty)

subsection \<open>What callers rely on\<close>

text \<open>A set built from any list of capabilities (negative and large ones included, in any
  order, with repetitions) contains exactly the list's elements, lists each of them once, and
  reports their number.\<close>

theorem CapSetOf_contents:
  "(cs_has (CapSetOf xs) y \<longleftrightarrow> y \<in> set xs) \<and> distinct (cs_slice (CapSetOf xs)) \<and>
   set (cs_slice (CapSetOf xs)) = set xs \<and> cs_size (CapSetOf xs) = card (set xs)"
proof -
  note props = cs_slice_props [OF CapSetOf_inv [of xs]]
  have "set (cs_slice (CapSetOf xs)) = set xs" using props(2) by simp
  moreover from this have "cs_size (CapSetOf xs) = card (set xs)"
    using props(1,3) distinct_card by metis
  ultimately show ?thesis using props(1) by simp
qed

text \<open>\<open>CapIntersect\<close> splits two sets into what both have, what only the left has and
  what only the right has.\<close>

theorem CapIntersect_partition:
  "case CapIntersect (CapSetOf xs) (CapSetOf ys) of (b, l, r) \<Rightarrow>
     (cs_has b x \<longleftrightarrow> x \<in> set xs \<and> x \<in> set ys) \<and>
     (cs_has l x \<longleftrightarrow> x \<in> set xs \<and> x \<notin> set ys) \<and>
     (cs_has r x \<longleftrightarrow> x \<in> set ys \<and> x \<notin> set xs)"
  by (cases "CapIntersect (CapSetOf xs) (CapSetOf ys)")
    (simp add: CapIntersect_parts [OF CapSetOf_inv CapSetOf_inv])

lemma VerifyCapSubset_None:
  assumes "cs_inv have_caps" "cs_inv want"
  shows "VerifyCapSubset have_caps want = None \<longleftrightarrow> (\<forall>x. cs_has want x \<longrightarrow> cs_has have_caps x)"
proof -
  obtain b l r where run: "CapIntersect have_caps want = (b, l, r)"
    by (cases "CapIntersect have_caps want")
  note parts = CapIntersect_parts [OF assms run]
  show ?thesis using cs_size_zero [OF parts(3)] parts(6)
    by (auto simp: VerifyCapSubset_def run)
qed

text \<open>C25. The permission check succeeds exactly when every capability wanted is held; when it
  fails the error is \<open>PermissionDenied\<close>.\<close>

theorem VerifyCapSubset_iff:
  "VerifyCapSubset (CapSetOf have_caps) (CapSetOf want) =
     (if set want \<subseteq> set have_caps then None
      else Some (PermissionDenied None ''missing cap''))"
proof -
  have "VerifyCapSubset (CapSetOf have_caps) (CapSetOf want) = None \<longleftrightarrow> set want \<subseteq> set have_caps"
    using VerifyCapSubset_None [OF CapSetOf_inv CapSetOf_inv] by auto
  then show ?thesis by (auto simp: VerifyCapSubset_def split: prod.splits if_splits)
qed

end
