(* ===== verification/Effects.thy ===== *)
theory Effects
  imports Status
begin

section \<open>Go functions with state, errors and panics\<close>

text \<open>
  A Go function of the back end reads and writes state, returns a value or a \<open>status.S\<close>,
  and may panic. It is modelled as a function from the state to an outcome and the new
  state. \<open>bind\<close> runs the rest only after a normal return, which is the source's
  \<open>if sts != nil { return sts }\<close>; \<open>deferred\<close> is Go's \<open>defer\<close> of a call that reports into
  the named result \<open>stscap\<close>, and runs after an error and after a panic alike.
\<close>

subsection \<open>Outcomes and sequencing\<close>

datatype 'a res = Ok 'a | Err sts | Panic string

text \<open>Composition of pure functions with such a result.\<close>

fun res_map :: "('a \<Rightarrow> 'b) \<Rightarrow> 'a res \<Rightarrow> 'b res" where
  "res_map f (Ok x) = Ok (f x)"
| "res_map f (Err e) = Err e"
| "res_map f (Panic p) = Panic p"

fun res_bind :: "'a res \<Rightarrow> ('a \<Rightarrow> 'b res) \<Rightarrow> 'b res" where
  "res_bind (Ok x) f = f x"
| "res_bind (Err e) f = Err e"
| "res_bind (Panic p) f = Panic p"

type_synonym ('w, 'a) prog = "'w \<Rightarrow> 'a res \<times> 'w"

definition ret :: "'a \<Rightarrow> ('w, 'a) prog" where
  "ret x w = (Ok x, w)"

definition fail :: "sts \<Rightarrow> ('w, 'a) prog" where
  "fail e w = (Err e, w)"

definition panic :: "string \<Rightarrow> ('w, 'a) prog" where
  "panic m w = (Panic m, w)"

definition bind :: "('w, 'a) prog \<Rightarrow> ('a \<Rightarrow> ('w, 'b) prog) \<Rightarrow> ('w, 'b) prog" where
  "bind m f w =
     (case m w of
        (Ok x, w') \<Rightarrow> f x w'
      | (Err e, w') \<Rightarrow> (Err e, w')
      | (Panic p, w') \<Rightarrow> (Panic p, w'))"

text \<open>
  \<open>x, err := m; if err != nil { return status.C(err, msg) }\<close>: the error becomes the cause
  of a new status of the given kind.
\<close>

definition wrap_err :: "(gerr option \<Rightarrow> sts) \<Rightarrow> ('w, 'a) prog \<Rightarrow> ('w, 'a) prog" where
  "wrap_err mk m w =
     (case m w of
        (Ok x, w') \<Rightarrow> (Ok x, w')
      | (Err e, w') \<Rightarrow> (Err (mk (Some (EStatus e))), w')
      | (Panic p, w') \<Rightarrow> (Panic p, w'))"

text \<open>\<open>if !c { return e }\<close>.\<close>

definition check :: "bool \<Rightarrow> sts \<Rightarrow> ('w, unit) prog" where
  "check c e = (if c then ret () else fail e)"

definition get_state :: "('w \<Rightarrow> 'a) \<Rightarrow> ('w, 'a) prog" where
  "get_state f w = (Ok (f w), w)"

definition modify :: "('w \<Rightarrow> 'w) \<Rightarrow> ('w, unit) prog" where
  "modify f w = (Ok (), f w)"

text \<open>A pure function with an error result, called in the middle of an effectful one.\<close>

definition lift_res :: "'a res \<Rightarrow> ('w, 'a) prog" where
  "lift_res r w = (r, w)"

fun suppress_into :: "'a res \<Rightarrow> sts \<Rightarrow> 'a res" where
  "suppress_into (Ok x) e = Err e"
| "suppress_into (Err s) e = Err (WithSuppressed s [EStatus e])"
| "suppress_into (Panic p) e = Panic p"

definition deferred :: "('w, 'a) prog \<Rightarrow> ('w, unit) prog \<Rightarrow> ('w, 'a) prog" where
  "deferred m d w =
     (case m w of (r, w') \<Rightarrow>
        (case d w' of
           (Ok u, w'') \<Rightarrow> (r, w'')
         | (Err e, w'') \<Rightarrow> (suppress_into r e, w'')
         | (Panic p, w'') \<Rightarrow> (Panic p, w'')))"

text \<open>A deferred call guarded by a flag that a normal return has cleared.\<close>

definition on_failure :: "('w, 'a) prog \<Rightarrow> ('w, unit) prog \<Rightarrow> ('w, 'a) prog" where
  "on_failure m d w =
     (case m w of (Ok x, w') \<Rightarrow> (Ok x, w') | _ \<Rightarrow> deferred m d w)"

text \<open>A loop that runs its body on each element and stops at the first failure.\<close>

fun each :: "('a \<Rightarrow> ('w, 'b) prog) \<Rightarrow> 'a list \<Rightarrow> ('w, 'b list) prog" where
  "each f [] = ret []"
| "each f (x # xs) = bind (f x) (\<lambda>y. bind (each f xs) (\<lambda>ys. ret (y # ys)))"

subsection \<open>Execution\<close>

lemmas effect_defs = ret_def fail_def panic_def check_def get_state_def modify_def lift_res_def

lemma run_ret [run_simps]: "ret x w = (Ok x, w)"
  and run_fail [run_simps]: "fail e w = (Err e, w)"
  and run_panic [run_simps]: "panic m w = (Panic m, w)"
  and run_get_state [run_simps]: "get_state f w = (Ok (f w), w)"
  and run_modify [run_simps]: "modify g w = (Ok (), g w)"
  and run_lift_res [run_simps]: "lift_res r w = (r, w)"
  and run_check [run_simps]: "check c e w = (if c then (Ok (), w) else (Err e, w))"
  by (simp_all add: effect_defs)

lemma bind_Ok: "m w = (Ok x, w') \<Longrightarrow> bind m f w = f x w'"
  and bind_Err: "m w = (Err e, w') \<Longrightarrow> bind m f w = (Err e, w')"
  and bind_Panic: "m w = (Panic p, w') \<Longrightarrow> bind m f w = (Panic p, w')"
  by (simp_all add: bind_def)

lemma bind_ret [simp]: "bind (ret x) f = f x"
  by (rule ext) (simp add: bind_def ret_def)

lemma bind_assoc: "bind (bind m f) g = bind m (\<lambda>x. bind (f x) g)"
  by (rule ext) (simp add: bind_def split: prod.splits res.splits)

text \<open>What a normal return of a sequence says about its parts.\<close>

lemma bind_OkE:
  assumes "bind m f w = (Ok y, w')"
  obtains x w1 where "m w = (Ok x, w1)" and "f x w1 = (Ok y, w')"
  using assms by (auto simp: bind_def split: prod.splits res.splits)

lemma wrap_err_Ok [simp]: "wrap_err mk m w = (Ok x, w') \<longleftrightarrow> m w = (Ok x, w')"
  by (auto simp: wrap_err_def split: prod.splits res.splits)

lemma check_Ok [simp]: "check c e w = (Ok u, w') \<longleftrightarrow> c \<and> w' = w"
  by (auto simp: run_simps)

lemma lift_res_Ok [simp]: "lift_res r w = (Ok x, w') \<longleftrightarrow> r = Ok x \<and> w' = w"
  by (auto simp: run_simps)

lemma ret_Ok [simp]: "ret x w = (Ok y, w') \<longleftrightarrow> y = x \<and> w' = w"
  by (auto simp: run_simps)

lemma fail_Ok [simp]: "fail e w = (Ok y, w') \<longleftrightarrow> False"
  and panic_Ok [simp]: "panic p w = (Ok y, w') \<longleftrightarrow> False"
  by (auto simp: run_simps)

lemma modify_Ok [simp]: "modify g w = (Ok u, w') \<longleftrightarrow> w' = g w"
  and get_state_Ok [simp]: "get_state h w = (Ok x, w') \<longleftrightarrow> x = h w \<and> w' = w"
  by (auto simp: run_simps)

lemma deferred_OkE:
  assumes "deferred m d w = (Ok x, w')"
  obtains w1 where "m w = (Ok x, w1)" and "d w1 = (Ok (), w')"
proof -
  obtain r w1 where m: "m w = (r, w1)" by fastforce
  obtain rd w2 where d: "d w1 = (rd, w2)" by fastforce
  from assms m d have "rd = Ok () \<and> r = Ok x \<and> w2 = w'"
    by (cases rd; cases r) (auto simp: deferred_def)
  with m d show thesis by (intro that) auto
qed

lemma on_failure_Ok [simp]: "on_failure m d w = (Ok x, w') \<longleftrightarrow> m w = (Ok x, w')"
  by (auto simp: on_failure_def deferred_def split: prod.splits res.splits)

subsection \<open>Frame conditions\<close>

text \<open>
  \<open>keeps I m\<close>: the relation \<open>I\<close> between the states before and after holds however \<open>m\<close>
  ends. Proved once for the combinators, a frame condition of a whole task follows from
  those of the operations it calls.
\<close>

definition keeps :: "('w \<Rightarrow> 'w \<Rightarrow> bool) \<Rightarrow> ('w, 'a) prog \<Rightarrow> bool" where
  "keeps I m \<longleftrightarrow> (\<forall>w. I w (snd (m w)))"

lemma keepsD: "keeps I m \<Longrightarrow> m w = (r, w') \<Longrightarrow> I w w'"
  by (metis keeps_def snd_conv)

lemma keepsI: "(\<And>w r w'. m w = (r, w') \<Longrightarrow> I w w') \<Longrightarrow> keeps I m"
  by (simp add: keeps_def) (metis prod.collapse)

locale frame =
  fixes I :: "'w \<Rightarrow> 'w \<Rightarrow> bool"
  assumes refl: "I w w"
    and trans: "I a b \<Longrightarrow> I b c \<Longrightarrow> I a c"
begin

lemma keeps_ret: "keeps I (ret x)"
  and keeps_fail: "keeps I (fail e)"
  and keeps_panic: "keeps I (panic p)"
  and keeps_check: "keeps I (check c e)"
  and keeps_get_state: "keeps I (get_state f)"
  and keeps_lift_res: "keeps I (lift_res r)"
  by (simp_all add: keeps_def run_simps refl)

lemma keeps_bind:
  assumes "keeps I m" and "\<And>x. keeps I (f x)"
  shows "keeps I (bind m f)"
proof (rule keepsI)
  fix w r w'
  assume run: "bind m f w = (r, w')"
  obtain r1 w1 where m: "m w = (r1, w1)" by fastforce
  from keepsD [OF assms(1) m] have "I w w1" .
  moreover have "I w1 w'"
    using run m keepsD [OF assms(2)] by (cases r1) (auto simp: bind_def refl)
  ultimately show "I w w'" by (rule trans)
qed

lemma keeps_wrap_err: "keeps I m \<Longrightarrow> keeps I (wrap_err mk m)"
  by (auto simp: keeps_def wrap_err_def split: prod.splits res.splits)
    (metis snd_conv)+

lemma keeps_deferred:
  assumes "keeps I m" and "keeps I d"
  shows "keeps I (deferred m d)"
proof (rule keepsI)
  fix w r w'
  assume run: "deferred m d w = (r, w')"
  obtain r1 w1 where m: "m w = (r1, w1)" by fastforce
  obtain r2 w2 where d: "d w1 = (r2, w2)" by fastforce
  have "w' = w2" using run m d by (cases r2) (auto simp: deferred_def)
  with keepsD [OF assms(1) m] keepsD [OF assms(2) d] show "I w w'" by (auto intro: trans)
qed

lemma keeps_on_failure:
  assumes "keeps I m" and "keeps I d"
  shows "keeps I (on_failure m d)"
proof (rule keepsI)
  fix w r w'
  assume run: "on_failure m d w = (r, w')"
  obtain r1 w1 where m: "m w = (r1, w1)" by fastforce
  show "I w w'"
  proof (cases r1)
    case (Ok x)
    then show ?thesis using run m keepsD [OF assms(1) m] by (simp add: on_failure_def)
  qed (use run m keepsD [OF keeps_deferred [OF assms]] in \<open>auto simp: on_failure_def\<close>)
qed

lemma keeps_each: "(\<And>x. keeps I (f x)) \<Longrightarrow> keeps I (each f xs)"
  by (induction xs) (auto intro!: keeps_bind keeps_ret)

lemma keeps_if: "(c \<Longrightarrow> keeps I m) \<Longrightarrow> (\<not> c \<Longrightarrow> keeps I n) \<Longrightarrow> keeps I (if c then m else n)"
  by simp

lemmas keeps_intros = keeps_ret keeps_fail keeps_panic keeps_check keeps_get_state
  keeps_lift_res keeps_bind keeps_wrap_err keeps_deferred keeps_on_failure keeps_each keeps_if

end

end
