(* ===== verification/SqlStmt.thy ===== *)
theory SqlStmt
  imports Effects "HOL-Library.List_Lexorder" "HOL-Library.Product_Lexorder"
begin

section \<open>SQL statements (be/schema/db/db.go and the adapters)\<close>

text \<open>
  The package db writes SQL text for four database adapters. The theory has the builders
  as the code has them, text and argument list, and beside them the statement the text
  means: a condition, an order and a limit (\<open>plan\<close>). The theorems of SqlFacts connect the
  two and say what the range conditions select.

  A column value is \<open>SInt\<close> for the integer types and \<open>SBytes\<close> for strings and blobs.
\<close>

subsection \<open>Values\<close>

datatype sqlval = SInt int | SBytes string

fun sqlkey :: "sqlval \<Rightarrow> int \<times> int \<times> nat list" where
  "sqlkey (SInt n) = (0, n, [])"
| "sqlkey (SBytes s) = (1, 0, map (\<lambda>c. of_char c) s)"

lemma sqlkey_inj: "sqlkey a = sqlkey b \<Longrightarrow> a = b"
proof (cases a; cases b)
  fix s t
  assume "sqlkey a = sqlkey b" "a = SBytes s" "b = SBytes t"
  then have "map (of_char :: char \<Rightarrow> nat) s = map of_char t" by simp
  then have "s = t" by (rule map_injective) (simp add: inj_of_char)
  with \<open>a = SBytes s\<close> \<open>b = SBytes t\<close> show "a = b" by simp
qed auto

instantiation sqlval :: linorder
begin

definition less_eq_sqlval :: "sqlval \<Rightarrow> sqlval \<Rightarrow> bool" where
  "less_eq_sqlval a b \<longleftrightarrow> sqlkey a \<le> sqlkey b"

definition less_sqlval :: "sqlval \<Rightarrow> sqlval \<Rightarrow> bool" where
  "less_sqlval a b \<longleftrightarrow> sqlkey a < sqlkey b"

instance
  by standard (auto simp: less_eq_sqlval_def less_sqlval_def intro: sqlkey_inj)

end

lemma SInt_le [simp]: "SInt a \<le> SInt b \<longleftrightarrow> a \<le> b" "SInt a < SInt b \<longleftrightarrow> a < b"
  by (auto simp: less_eq_sqlval_def less_sqlval_def less_eq_prod_def less_prod_def)

subsection \<open>Indexes\<close>

text \<open>
  An index value of package tables is a struct with one pointer per column. It is the list
  of its columns in order, each with its value if the pointer is set. \<open>Cols\<close> and \<open>Vals\<close> are
  the two methods the generator writes for each of them; \<open>Vals\<close> panics on a value after a gap.
\<close>

type_synonym idx = "(string \<times> sqlval option) list"

definition Cols :: "idx \<Rightarrow> string list" where
  "Cols i = map fst i"

fun vals_loop :: "idx \<Rightarrow> bool \<Rightarrow> sqlval list \<Rightarrow> sqlval list res" where
  "vals_loop [] done vals = Ok vals"
| "vals_loop ((c, Some v) # rest) done vals =
     (if done then Panic (''Extra value '' @ c) else vals_loop rest done (vals @ [v]))"
| "vals_loop ((c, None) # rest) done vals = vals_loop rest True vals"

definition Vals :: "idx \<Rightarrow> sqlval list res" where
  "Vals i = vals_loop i False []"

datatype lock = LockNone | LockRead | LockWrite

record opts =
  o_prefix :: "idx option"
  o_start_inc :: "idx option"
  o_start_ex :: "idx option"
  o_stop_inc :: "idx option"
  o_stop_ex :: "idx option"
  o_lock :: lock
  o_reverse :: bool
  o_limit :: int

text \<open>\<open>db.Opts{}\<close>; the zero \<open>Lock\<close> is \<open>LockRead\<close>.\<close>

definition no_opts :: opts where
  "no_opts = \<lparr>o_prefix = None, o_start_inc = None, o_start_ex = None, o_stop_inc = None,
     o_stop_ex = None, o_lock = LockRead, o_reverse = False, o_limit = 0\<rparr>"

subsection \<open>Adapters\<close>

record adapter =
  a_name :: string
  a_quote :: "string \<Rightarrow> string res"
  a_lock :: "lock \<Rightarrow> string"
  a_retryable :: "sqlreason \<Rightarrow> bool"
  a_rewrite :: "string \<Rightarrow> string"

definition quote_with :: "string \<Rightarrow> string \<Rightarrow> string \<Rightarrow> string res" where
  "quote_with bad q ident =
     (if list_ex (\<lambda>c. c \<in> set bad) ident then Panic ''Invalid identifier''
      else Ok (q @ ident @ q))"

definition dquote :: char where "dquote = CHR 0x22"
definition nul :: char where "nul = CHR 0x00"
definition backquote :: char where "backquote = CHR 0x60"

fun decimal :: "nat \<Rightarrow> string" where
  "decimal n =
     (if n < 10 then [char_of (48 + n)] else decimal (n div 10) @ [char_of (48 + n mod 10)])"

declare decimal.simps [simp del]

text \<open>\<open>fixLibPqQuery\<close>: the \<open>i\<close>-th question mark of a query becomes \<open>$i\<close>.\<close>

fun number_args :: "nat \<Rightarrow> string \<Rightarrow> string" where
  "number_args i [] = []"
| "number_args i (c # cs) =
     (if c = CHR ''?'' then CHR ''$'' # decimal i @ number_args (i + 1) cs
      else c # number_args i cs)"

definition fixLibPqQuery :: "string \<Rightarrow> string" where
  "fixLibPqQuery query = number_args 1 query"

definition pq_retryable :: "sqlreason \<Rightarrow> bool" where
  "pq_retryable r \<longleftrightarrow> r = SerializationFailure \<or> r = DeadlockDetected \<or> r = UniqueViolation"

definition postgres :: adapter where
  "postgres = \<lparr>a_name = ''postgres'', a_quote = quote_with [dquote, nul] [dquote],
     a_lock = (\<lambda>l. case l of LockNone \<Rightarrow> '''' | LockRead \<Rightarrow> '' FOR SHARE''
                  | LockWrite \<Rightarrow> '' FOR UPDATE''),
     a_retryable = pq_retryable, a_rewrite = fixLibPqQuery\<rparr>"

definition cockroach :: adapter where
  "cockroach = \<lparr>a_name = ''cockroach'', a_quote = quote_with [dquote, nul] [dquote],
     a_lock = (\<lambda>l. ''''), a_retryable = pq_retryable, a_rewrite = fixLibPqQuery\<rparr>"

text \<open>MySQL numbers a deadlock 1213; it retries nothing else.\<close>

definition mysql :: adapter where
  "mysql = \<lparr>a_name = ''mysql'', a_quote = quote_with [dquote, nul, backquote] [backquote],
     a_lock = (\<lambda>l. case l of LockNone \<Rightarrow> '''' | LockRead \<Rightarrow> '' LOCK IN SHARE MODE''
                  | LockWrite \<Rightarrow> '' FOR UPDATE''),
     a_retryable = (\<lambda>r. r = DeadlockDetected), a_rewrite = (\<lambda>q. q)\<rparr>"

definition sqlite3 :: adapter where
  "sqlite3 = \<lparr>a_name = ''sqlite3'', a_quote = quote_with [dquote, nul, backquote] [dquote],
     a_lock = (\<lambda>l. ''''), a_retryable = (\<lambda>r. r = UniqueViolation), a_rewrite = (\<lambda>q. q)\<rparr>"

subsection \<open>Text builders\<close>

fun join :: "string \<Rightarrow> string list \<Rightarrow> string" where
  "join sep [] = []"
| "join sep [x] = x"
| "join sep (x # y # xs) = x @ sep @ join sep (y # xs)"

fun res_all :: "'a res list \<Rightarrow> 'a list res" where
  "res_all [] = Ok []"
| "res_all (r # rs) = res_bind r (\<lambda>x. res_bind (res_all rs) (\<lambda>xs. Ok (x # xs)))"

text \<open>
  \<open>buildRange\<close>: disjunct \<open>i\<close> fixes the first \<open>i\<close> columns and compares column \<open>i\<close>, the last
  one with \<open>lastop\<close> and the others with \<open>midop\<close>.
\<close>

definition range_ands :: "adapter \<Rightarrow> string list \<Rightarrow> string \<Rightarrow> nat \<Rightarrow> string res" where
  "range_ands ad cols ops i =
     res_bind (res_all (map (\<lambda>k. res_map (\<lambda>q. q @ '' = ?'') (a_quote ad (cols ! k))) [0..<i]))
       (\<lambda>eqs. res_bind (a_quote ad (cols ! i))
         (\<lambda>q. Ok (''('' @ join '' AND '' (eqs @ [q @ '' '' @ ops @ '' ?'']) @ '')'')))"

definition buildRange ::
    "string list \<Rightarrow> sqlval list \<Rightarrow> string \<Rightarrow> string \<Rightarrow> adapter \<Rightarrow> (string \<times> sqlval list) res" where
  "buildRange cols vals midop lastop ad =
     (if length vals > length cols then Err (Internal None ''more vals than cols'')
      else res_bind
        (res_all (map (\<lambda>i. range_ands ad cols
            (if i = length vals - 1 then lastop else midop) i) [0..<length vals]))
        (\<lambda>ors. Ok (''('' @ join '' OR '' ors @ '')'',
            concat (map (\<lambda>i. take i vals @ [vals ! i]) [0..<length vals]))))"

definition appendOrder :: "adapter \<Rightarrow> bool \<Rightarrow> string list \<Rightarrow> string res" where
  "appendOrder ad reverse cols =
     res_bind (res_all (map (\<lambda>c. res_map (\<lambda>q. q @ (if reverse then '' DESC'' else '' ASC''))
         (a_quote ad c)) cols))
       (\<lambda>parts. Ok ('' ORDER BY '' @ join '', '' parts))"

definition appendPrefix :: "adapter \<Rightarrow> bool \<Rightarrow> idx \<Rightarrow> (string \<times> sqlval list) res" where
  "appendPrefix ad reverse prefix =
     res_bind (Vals prefix) (\<lambda>vals.
       let cols = Cols prefix in
       res_bind
         (if vals = [] then Ok []
          else res_map (\<lambda>parts. '' WHERE '' @ join '' AND '' parts)
            (res_all (map (\<lambda>i. res_map (\<lambda>q. q @ '' = ?'') (a_quote ad (cols ! i)))
               [0..<length vals])))
         (\<lambda>whr.
           let sortCols = drop (length vals) cols in
           res_bind (if sortCols = [] then Ok [] else appendOrder ad reverse sortCols)
             (\<lambda>ord. Ok (whr @ ord, vals))))"

text \<open>
  One end of a range: its columns and values and whether the bound itself is included;
  setting both kinds is an error, setting neither gives no columns and no values.
\<close>

definition range_end :: "idx option \<Rightarrow> idx option \<Rightarrow> string \<Rightarrow> (string list \<times> sqlval list \<times> bool) res" where
  "range_end inc ex msg =
     (case (inc, ex) of
        (None, None) \<Rightarrow> Ok ([], [], False)
      | (Some i, None) \<Rightarrow> res_map (\<lambda>vs. (Cols i, vs, True)) (Vals i)
      | (None, Some i) \<Rightarrow> res_map (\<lambda>vs. (Cols i, vs, False)) (Vals i)
      | (Some _, Some _) \<Rightarrow> Err (Internal None msg))"

definition appendRange :: "adapter \<Rightarrow> opts \<Rightarrow> (string \<times> sqlval list) res" where
  "appendRange ad opt =
     res_bind (range_end (o_start_inc opt) (o_start_ex opt) ''can't set StartInc and StartEx'')
      (\<lambda>(startCols, startVals, startInc).
     res_bind (range_end (o_stop_inc opt) (o_stop_ex opt) ''can't set StopInc and StopEx'')
      (\<lambda>(stopCols, stopVals, stopInc).
     res_bind (if startVals = [] then Ok ('''', [])
               else buildRange startCols startVals ''>'' (if startInc then ''>='' else ''>'') ad)
      (\<lambda>(startStmt, startArgs).
     res_bind (if stopVals = [] then Ok ('''', [])
               else buildRange stopCols stopVals ''<'' (if stopInc then ''<='' else ''<'') ad)
      (\<lambda>(stopStmt, stopArgs).
     res_bind (appendOrder ad (o_reverse opt) (if startCols \<noteq> [] then startCols else stopCols))
      (\<lambda>ord. Ok ((if startVals \<noteq> [] \<or> stopVals \<noteq> [] then '' WHERE '' else '''') @ startStmt @
          (if startVals \<noteq> [] \<and> stopVals \<noteq> [] then '' AND '' else '''') @ stopStmt @ ord,
        startArgs @ stopArgs))))))"

definition has_range :: "opts \<Rightarrow> bool" where
  "has_range opt \<longleftrightarrow> o_start_inc opt \<noteq> None \<or> o_start_ex opt \<noteq> None \<or>
     o_stop_inc opt \<noteq> None \<or> o_stop_ex opt \<noteq> None"

definition buildScan :: "adapter \<Rightarrow> string \<Rightarrow> opts \<Rightarrow> (string \<times> sqlval list) res" where
  "buildScan ad name opt =
     res_bind (a_quote ad ''data'') (\<lambda>qdata.
     res_bind (a_quote ad name) (\<lambda>qname.
     res_bind
       (case o_prefix opt of
          Some prefix \<Rightarrow>
            (if o_start_inc opt \<noteq> None \<or> o_start_ex opt \<noteq> None
               then Err (Internal None ''can't specify Start with Prefix'')
             else if o_stop_inc opt \<noteq> None \<or> o_stop_ex opt \<noteq> None
               then Err (Internal None ''can't specify Stop with Prefix'')
             else appendPrefix ad (o_reverse opt) prefix)
        | None \<Rightarrow> (if has_range opt then appendRange ad opt else Ok ('''', [])))
     (\<lambda>(body, args).
       if o_limit opt < 0 then Err (Internal None ''can't use negative limit'')
       else Ok (''SELECT '' @ qdata @ '' FROM '' @ qname @ body @
          (if o_limit opt > 0 then '' LIMIT '' @ decimal (nat (o_limit opt)) else '''') @
          a_lock ad (o_lock opt) @ '';'', args))))"

definition errColsValsMismatch :: string where
  "errColsValsMismatch = ''db: number of columns and values don't match.''"

definition errNoCols :: string where
  "errNoCols = ''db: no columns provided''"

definition check_cols :: "string list \<Rightarrow> sqlval list \<Rightarrow> unit res" where
  "check_cols cols vals =
     (if length cols \<noteq> length vals then Err (InvalidArgument None errColsValsMismatch)
      else if cols = [] then Err (InvalidArgument None errNoCols) else Ok ())"

definition insert_text ::
    "adapter \<Rightarrow> string \<Rightarrow> string list \<Rightarrow> sqlval list \<Rightarrow> (string \<times> sqlval list) res" where
  "insert_text ad name cols vals =
     res_bind (check_cols cols vals) (\<lambda>_.
     res_bind (res_all (map (a_quote ad) cols)) (\<lambda>qs.
     res_bind (a_quote ad name) (\<lambda>qname.
       Ok (''INSERT INTO '' @ qname @ '' ('' @ join '', '' qs @ '') VALUES ('' @
           concat (replicate (length vals - 1) ''?, '') @ ''?'' @ '');'', vals))))"

definition equalities :: "adapter \<Rightarrow> string list \<Rightarrow> string list res" where
  "equalities ad cols = res_all (map (\<lambda>c. res_map (\<lambda>q. q @ '' = ?'') (a_quote ad c)) cols)"

definition delete_text :: "adapter \<Rightarrow> string \<Rightarrow> idx \<Rightarrow> (string \<times> sqlval list) res" where
  "delete_text ad name key =
     res_bind (Vals key) (\<lambda>vals.
     res_bind (check_cols (Cols key) vals) (\<lambda>_.
     res_bind (equalities ad (Cols key)) (\<lambda>eqs.
     res_bind (a_quote ad name) (\<lambda>qname.
       Ok (''DELETE FROM '' @ qname @ '' WHERE '' @ join '' AND '' eqs @ '';'', vals)))))"

definition update_text ::
    "adapter \<Rightarrow> string \<Rightarrow> string list \<Rightarrow> sqlval list \<Rightarrow> idx \<Rightarrow> (string \<times> sqlval list) res" where
  "update_text ad name cols vals key =
     res_bind (check_cols cols vals) (\<lambda>_.
     res_bind (Vals key) (\<lambda>idxVals.
     res_bind (check_cols (Cols key) idxVals) (\<lambda>_.
     res_bind (equalities ad cols) (\<lambda>sets.
     res_bind (equalities ad (Cols key)) (\<lambda>eqs.
     res_bind (a_quote ad name) (\<lambda>qname.
       Ok (''UPDATE '' @ qname @ '' SET '' @ join '', '' sets @ '' WHERE '' @
           join '' AND '' eqs @ '';'', vals @ idxVals)))))))"

end
