(* ===== verification/SqlFacts.thy ===== *)
theory SqlFacts
  imports SqlPlan
begin

section \<open>Facts about the statements\<close>

text \<open>
  The texts that \<open>buildScan\<close> and its companions print are those of the plan, and the plan selects the
  rows between the bounds in the order of the columns.
\<close>

subsection \<open>Index values\<close>

lemma vals_loop_done: "vals_loop i True acc = Ok vs \<Longrightarrow> vs = acc \<and> list_all (\<lambda>(c, v). v = None) i"
  by (induction i "True" acc rule: vals_loop.induct) (auto split: if_splits)

lemma vals_loop_Ok: "vals_loop i False acc = Ok vs \<Longrightarrow>
    \<exists>ys n. vs = acc @ ys \<and> length ys \<le> length i \<and> map snd i = map Some ys @ replicate n None"
proof (induction i arbitrary: acc)
  case Nil
  then show ?case by simp
next
  case (Cons a i)
  obtain c v where a: "a = (c, v)" by (cases a)
  show ?case
  proof (cases v)
    case None
    then have *: "vs = acc \<and> list_all (\<lambda>(c, v). v = None) i"
      using Cons.prems a vals_loop_done by simp
    then have "map snd i = replicate (length i) None"
      by (induction i) auto
    then have "vs = acc @ [] \<and> length ([] :: sqlval list) \<le> length (a # i) \<and>
        map snd (a # i) = map Some [] @ replicate (Suc (length i)) None"
      using * a None by simp
    then show ?thesis by blast
  next
    case (Some x)
    then obtain ys n where "vs = (acc @ [x]) @ ys" "length ys \<le> length i"
      "map snd i = map Some ys @ replicate n None"
      using Cons.IH [of "acc @ [x]"] Cons.prems a by auto
    then have "vs = acc @ (x # ys) \<and> length (x # ys) \<le> length (a # i) \<and>
        map snd (a # i) = map Some (x # ys) @ replicate n None"
      using a Some by simp
    then show ?thesis by blast
  qed
qed

lemma Vals_length: "Vals i = Ok vs \<Longrightarrow> length vs \<le> length (Cols i)"
  using vals_loop_Ok [of i "[]" vs] by (auto simp: Vals_def Cols_def)

lemma vals_loop_Some: "vals_loop (map (\<lambda>(c, v). (c, Some v)) cvs) False acc = Ok (acc @ map snd cvs)"
  by (induction cvs arbitrary: acc) auto

lemma Vals_full [simp]: "Vals (map (\<lambda>(c, v). (c, Some v)) cvs) = Ok (map snd cvs)"
  by (simp add: Vals_def vals_loop_Some)

subsection \<open>Text of a plan\<close>

lemma res_all_Ok: "\<forall>x \<in> set xs. f x = Ok (g x) \<Longrightarrow> res_all (map f xs) = Ok (map g xs)"
  by (induction xs) auto

lemma res_map_Ok [simp]: "res_map f r = Ok y \<longleftrightarrow> (\<exists>x. r = Ok x \<and> y = f x)"
  by (cases r) auto

lemma res_bind_Ok: "res_bind r f = Ok y \<longleftrightarrow> (\<exists>x. r = Ok x \<and> f x = Ok y)"
  by (cases r) auto

lemma join_append: "xs \<noteq> [] \<Longrightarrow> ys \<noteq> [] \<Longrightarrow> join sep (xs @ ys) = join sep xs @ sep @ join sep ys"
proof (induction xs)
  case (Cons x xs)
  then show ?case by (cases xs; cases ys) auto
qed simp

lemma join_two: "join sep [x, y] = x @ sep @ y"
  by simp

definition opts_cols :: "opts \<Rightarrow> string list" where
  "opts_cols opt = concat (map (\<lambda>i. case i of Some x \<Rightarrow> Cols x | None \<Rightarrow> [])
     [o_prefix opt, o_start_inc opt, o_start_ex opt, o_stop_inc opt, o_stop_ex opt])"

locale quoting =
  fixes ad :: adapter
    and q :: "string \<Rightarrow> string"
    and names :: "string set"
  assumes quotes: "s \<in> names \<Longrightarrow> a_quote ad s = Ok (q s)"
begin

lemma range_ands_text:
  assumes "set cols \<subseteq> names" "i < length cols"
  shows "range_ands ad cols (cmp_text op) i =
    Ok (''('' @ join '' AND '' (map (atom_text q)
      (map (\<lambda>k. (cols ! k, CEq, vals ! k)) [0..<i] @ [(cols ! i, op, vals ! i)])) @ '')'')"
proof -
  have qk: "a_quote ad (cols ! k) = Ok (q (cols ! k))" if "k \<le> i" for k
    using assms that by (intro quotes) (auto intro!: subsetD [OF assms(1)])
  have "res_all (map (\<lambda>k. res_map (\<lambda>q. q @ '' = ?'') (a_quote ad (cols ! k))) [0..<i]) =
      Ok (map (\<lambda>k. q (cols ! k) @ '' = ?'') [0..<i])"
    by (rule res_all_Ok) (simp add: qk)
  then show ?thesis using qk [of i] by (simp add: range_ands_def comp_def)
qed

lemma buildRange_text:
  assumes "set cols \<subseteq> names" "length vals \<le> length cols"
  shows "buildRange cols vals (cmp_text midop) (cmp_text lastop) ad =
    Ok (dnf_text q (range_dnf cols vals midop lastop),
        map (\<lambda>(c, op, v). v) (concat (range_dnf cols vals midop lastop)))"
proof -
  let ?op = "\<lambda>i. if i = length vals - 1 then lastop else midop"
  have op: "(if i = length vals - 1 then cmp_text lastop else cmp_text midop) = cmp_text (?op i)"
    for i by simp
  have "res_all (map (\<lambda>i. range_ands ad cols (cmp_text (?op i)) i) [0..<length vals]) =
      Ok (map (\<lambda>i. ''('' @ join '' AND '' (map (atom_text q)
        (map (\<lambda>k. (cols ! k, CEq, vals ! k)) [0..<i] @ [(cols ! i, ?op i, vals ! i)])) @ '')'')
        [0..<length vals])"
    by (rule res_all_Ok) (use assms range_ands_text in auto)
  moreover have "concat (map (\<lambda>i. take i vals @ [vals ! i]) [0..<length vals]) =
      map (\<lambda>(c, op, v). v) (concat (range_dnf cols vals midop lastop))"
  proof -
    have "map (\<lambda>i. take i vals @ [vals ! i]) [0..<length vals] =
        map (map (\<lambda>(c, op, v). v)) (range_dnf cols vals midop lastop)"
      by (simp add: range_dnf_def comp_def) (auto intro!: nth_equalityI)
    then show ?thesis by (simp add: map_concat)
  qed
  ultimately show ?thesis using assms(2)
    unfolding buildRange_def op by (simp add: dnf_text_def range_dnf_def comp_def)
qed

lemma appendOrder_text:
  "set cols \<subseteq> names \<Longrightarrow> appendOrder ad reverse cols =
    Ok ('' ORDER BY '' @ join '', '' (map (\<lambda>c. q c @ (if reverse then '' DESC'' else '' ASC'')) cols))"
proof -
  assume cols: "set cols \<subseteq> names"
  let ?ord = "\<lambda>c. q c @ (if reverse then '' DESC'' else '' ASC'')"
  have "res_all (map (\<lambda>c. res_map (\<lambda>q. q @ (if reverse then '' DESC'' else '' ASC''))
      (a_quote ad c)) cols) = Ok (map ?ord cols)"
    by (rule res_all_Ok) (use cols quotes in auto)
  then show ?thesis by (simp only: appendOrder_def res_bind.simps)
qed

lemma appendPrefix_text:
  assumes "set (Cols prefix) \<subseteq> names"
  shows "appendPrefix ad reverse prefix =
    res_map (\<lambda>pl. (where_text q pl @ (if pl_order pl \<noteq> [] then order_text q pl else []),
      plan_args pl)) (prefix_plan reverse prefix)"
proof (cases "Vals prefix")
  case (Ok vals)
  let ?cols = "Cols prefix"
  have len: "length vals \<le> length ?cols" using Vals_length [OF Ok] .
  have eqs: "res_all (map (\<lambda>i. res_map (\<lambda>q. q @ '' = ?'') (a_quote ad (?cols ! i)))
      [0..<length vals]) = Ok (map (\<lambda>i. q (?cols ! i) @ '' = ?'') [0..<length vals])"
    by (rule res_all_Ok) (use len quotes [OF subsetD [OF assms nth_mem]] in auto)
  have ord: "appendOrder ad reverse (drop (length vals) ?cols) =
      Ok ('' ORDER BY '' @ join '', '' (map (\<lambda>c. q c @ (if reverse then '' DESC'' else '' ASC''))
        (drop (length vals) ?cols)))"
    using assms set_drop_subset [of "length vals" ?cols] by (intro appendOrder_text) blast
  have args: "map ((!) vals) [0..<length vals] = vals" by (rule map_nth)
  show ?thesis
    using args appendOrder_text [OF assms, of reverse]
    by (auto simp: Ok appendPrefix_def prefix_plan_def eqs ord where_text_def
        order_text_def plan_args_def comp_def Let_def)
qed (simp_all add: appendPrefix_def prefix_plan_def)

lemma appendRange_text:
  assumes "set (opts_cols opt) \<subseteq> names" "o_prefix opt = None"
  shows "appendRange ad opt =
    res_map (\<lambda>pl. (where_text q pl @ order_text q pl, plan_args pl)) (range_plan opt)"
proof -
  let ?st = "range_end (o_start_inc opt) (o_start_ex opt) ''can't set StartInc and StartEx''"
  let ?sp = "range_end (o_stop_inc opt) (o_stop_ex opt) ''can't set StopInc and StopEx''"
  have len: "length vals \<le> length cols" if "range_end a b m = Ok (cols, vals, inc)"
    for a b m cols vals inc
    using that Vals_length by (auto simp: range_end_def res_map_Ok split: option.splits)
  show ?thesis
  proof (cases ?st)
    case st: (Ok s)
    obtain sc sv si where s: "s = (sc, sv, si)" by (cases s)
    show ?thesis
    proof (cases ?sp)
      case sp: (Ok p)
      obtain pc pv pi where p: "p = (pc, pv, pi)" by (cases p)
      have sub: "set sc \<subseteq> names" "set pc \<subseteq> names"
        using assms st sp s p
        by (auto simp: opts_cols_def range_end_def res_map_Ok split: option.splits)
      have l: "length sv \<le> length sc" "length pv \<le> length pc"
        using len st sp s p by auto
      have R1: "buildRange sc sv ''>'' (if si then ''>='' else ''>'') ad =
          Ok (dnf_text q (range_dnf sc sv CGt (if si then CGe else CGt)),
            map (\<lambda>(c, op, v). v) (concat (range_dnf sc sv CGt (if si then CGe else CGt))))"
        using buildRange_text [OF sub(1) l(1), of CGt "if si then CGe else CGt"]
        by (cases si) simp_all
      have R2: "buildRange pc pv ''<'' (if pi then ''<='' else ''<'') ad =
          Ok (dnf_text q (range_dnf pc pv CLt (if pi then CLe else CLt)),
            map (\<lambda>(c, op, v). v) (concat (range_dnf pc pv CLt (if pi then CLe else CLt))))"
        using buildRange_text [OF sub(2) l(2), of CLt "if pi then CLe else CLt"]
        by (cases pi) simp_all
      let ?cols = "if sc \<noteq> [] then sc else pc"
      obtain ot where ord: "appendOrder ad (o_reverse opt) ?cols = Ok ot"
        and ot: "order_text q \<lparr>pl_eqs = e, pl_ranges = r, pl_order = ?cols,
          pl_desc = o_reverse opt, pl_limit = 0\<rparr> = ot" for e r
        using sub appendOrder_text [of ?cols "o_reverse opt"] by (auto simp: order_text_def)
      show ?thesis
        unfolding appendRange_def range_plan_def st sp s p res_bind.simps prod.case fst_conv ord R1 R2
        by (cases "sv = []"; cases "pv = []")
          (simp_all add: ot where_text_def plan_args_def one_range_def Let_def split del: if_split)
    qed (simp_all add: appendRange_def range_plan_def st s)
  qed (simp_all add: appendRange_def range_plan_def)
qed

lemma buildScan_text:
  assumes "set (opts_cols opt) \<subseteq> names" "name \<in> names" "''data'' \<in> names"
  shows "buildScan ad name opt =
    res_map (\<lambda>pl. (render q (a_lock ad (o_lock opt)) name (writes_order opt pl) pl, plan_args pl))
      (scan_plan opt)"
proof (cases "o_prefix opt")
  case (Some prefix)
  have "set (Cols prefix) \<subseteq> names" using assms(1) Some by (auto simp: opts_cols_def)
  note prefix_text = appendPrefix_text [OF this]
  show ?thesis
    using quotes [OF assms(2)] quotes [OF assms(3)]
    by (cases "prefix_plan (o_reverse opt) prefix")
      (auto simp: buildScan_def scan_plan_def Some prefix_text render_def writes_order_def where_text_def
        order_text_def plan_args_def)
next
  case None
  show ?thesis
    using quotes [OF assms(2)] quotes [OF assms(3)] appendRange_text [OF assms(1) None]
    by (cases "range_plan opt")
      (auto simp: buildScan_def scan_plan_def None render_def writes_order_def where_text_def
        order_text_def plan_args_def)
qed

end

interpretation pg: quoting postgres "\<lambda>s. [dquote] @ s @ [dquote]"
    "{s. list_all (\<lambda>c. c \<notin> {dquote, nul}) s}"
  by unfold_locales (auto simp: postgres_def quote_with_def list_all_iff list_ex_iff)

interpretation my: quoting mysql "\<lambda>s. [backquote] @ s @ [backquote]"
    "{s. list_all (\<lambda>c. c \<notin> {dquote, nul, backquote}) s}"
  by unfold_locales (auto simp: mysql_def quote_with_def list_all_iff list_ex_iff)

subsection \<open>Ranges compare tuples\<close>

lemma range_dnf_Cons: "range_dnf (c # cs) (v # vs) midop lastop =
    (if vs = [] then [[(c, lastop, v)]]
     else [(c, midop, v)] # map ((#) (c, CEq, v)) (range_dnf cs vs midop lastop))"
proof (cases vs)
  case (Cons w ws)
  have up: "[0..<length (v # vs)] = 0 # map Suc [0..<length vs]"
    by (simp add: upt_conv_Cons map_Suc_upt del: upt_Suc)
  have "[0..<Suc i] = 0 # map Suc [0..<i]" for i
    by (simp add: upt_conv_Cons map_Suc_upt del: upt_Suc)
  then show ?thesis using Cons
    unfolding range_dnf_def up by (simp add: comp_def del: upt_Suc)
qed (simp add: range_dnf_def)

lemma dnf_holds_Cons:
  "dnf_holds f ([(c, op, v)] # map ((#) (c, CEq, v)) d) \<longleftrightarrow>
     cmp_holds op (f c) v \<or> (f c = v \<and> dnf_holds f d)"
  by (auto simp: dnf_holds_def list_ex_iff list_all_iff)

lemma range_dnf_lex:
  assumes "vals \<noteq> []" "length vals \<le> length cols"
  defines "row \<equiv> \<lambda>f. map f (take (length vals) cols)"
  shows "dnf_holds f (range_dnf cols vals CGt CGe) \<longleftrightarrow> vals \<le> row f"
    and "dnf_holds f (range_dnf cols vals CGt CGt) \<longleftrightarrow> vals < row f"
    and "dnf_holds f (range_dnf cols vals CLt CLe) \<longleftrightarrow> row f \<le> vals"
    and "dnf_holds f (range_dnf cols vals CLt CLt) \<longleftrightarrow> row f < vals"
proof -
  have one: "dnf_holds f [[(c, op, v)]] \<longleftrightarrow> cmp_holds op (f c) v" for c op v
    by (simp add: dnf_holds_def)
  have "(dnf_holds f (range_dnf cols vals CGt CGe) \<longleftrightarrow> vals \<le> map f (take (length vals) cols)) \<and>
    (dnf_holds f (range_dnf cols vals CGt CGt) \<longleftrightarrow> vals < map f (take (length vals) cols)) \<and>
    (dnf_holds f (range_dnf cols vals CLt CLe) \<longleftrightarrow> map f (take (length vals) cols) \<le> vals) \<and>
    (dnf_holds f (range_dnf cols vals CLt CLt) \<longleftrightarrow> map f (take (length vals) cols) < vals)"
    using assms(1,2)
  proof (induction vals arbitrary: cols)
    case (Cons v vs)
    then obtain c cs where cols: "cols = c # cs" by (cases cols) auto
    show ?case
    proof (cases "vs = []")
      case True
      then show ?thesis by (auto simp: cols range_dnf_Cons one)
    next
      case False
      with Cons.IH [of cs] Cons.prems cols show ?thesis
        by (auto simp: range_dnf_Cons dnf_holds_Cons)
    qed
  qed simp
  then show "dnf_holds f (range_dnf cols vals CGt CGe) \<longleftrightarrow> vals \<le> row f"
    "dnf_holds f (range_dnf cols vals CGt CGt) \<longleftrightarrow> vals < row f"
    "dnf_holds f (range_dnf cols vals CLt CLe) \<longleftrightarrow> row f \<le> vals"
    "dnf_holds f (range_dnf cols vals CLt CLt) \<longleftrightarrow> row f < vals"
    unfolding row_def by blast+
qed

lemma prefix_eqs_iff:
  assumes "length vals \<le> length cols"
  shows "list_all (atom_holds f) (map (\<lambda>i. (cols ! i, CEq, vals ! i)) [0..<length vals]) \<longleftrightarrow>
    map f (take (length vals) cols) = vals"
proof -
  have "map f (take (length vals) cols) = vals \<longleftrightarrow> (\<forall>i < length vals. f (cols ! i) = vals ! i)"
    using assms by (auto simp: list_eq_iff_nth_eq)
  then show ?thesis by (auto simp: list_all_iff)
qed

lemma range_end_selects:
  assumes "range_end inc ex m = Ok e"
  shows "list_all (dnf_holds f) (one_range e CGt CGe) \<longleftrightarrow>
      (\<forall>i vs. inc = Some i \<longrightarrow> Vals i = Ok vs \<longrightarrow> vs \<le> map f (take (length vs) (Cols i))) \<and>
      (\<forall>i vs. ex = Some i \<longrightarrow> Vals i = Ok vs \<longrightarrow> vs = [] \<or> vs < map f (take (length vs) (Cols i)))"
    and "list_all (dnf_holds f) (one_range e CLt CLe) \<longleftrightarrow>
      (\<forall>i vs. inc = Some i \<longrightarrow> Vals i = Ok vs \<longrightarrow> map f (take (length vs) (Cols i)) \<le> vs) \<and>
      (\<forall>i vs. ex = Some i \<longrightarrow> Vals i = Ok vs \<longrightarrow> vs = [] \<or> map f (take (length vs) (Cols i)) < vs)"
  using assms Vals_length
  by (auto simp: range_end_def one_range_def range_dnf_lex split: option.splits if_splits)

subsection \<open>What callers rely on\<close>

text \<open>C18. Whatever the adapter, as long as it can quote the table and column names, \<open>buildScan\<close>
  fails or writes the spelling of the plan, with one argument per question mark, in order.\<close>

theorem buildScan_renders_plan:
  assumes "\<forall>s \<in> set (name # ''data'' # opts_cols opt). a_quote ad s = Ok (q s)"
  shows "buildScan ad name opt =
    res_map (\<lambda>pl. (render q (a_lock ad (o_lock opt)) name (writes_order opt pl) pl, plan_args pl))
      (scan_plan opt)"
proof -
  have "quoting ad q (set (name # ''data'' # opts_cols opt))"
    using assms by unfold_locales blast
  then show ?thesis by (rule quoting.buildScan_text) auto
qed

definition example_opts :: opts where
  "example_opts = no_opts\<lparr>o_start_ex := Some [(''created_ts'', Some (SInt 7)), (''index'', Some (SInt 2))],
     o_lock := LockNone, o_limit := 10\<rparr>"

theorem buildScan_renders_plan_witness:
  "buildScan mysql ''UserEvents'' example_opts =
     res_map (\<lambda>pl. (render (\<lambda>s. [backquote] @ s @ [backquote]) [] ''UserEvents''
        (writes_order example_opts pl) pl, plan_args pl)) (scan_plan example_opts)"
proof -
  have "\<forall>s \<in> set (''UserEvents'' # ''data'' # opts_cols example_opts).
      a_quote mysql s = Ok ([backquote] @ s @ [backquote])"
    by (simp add: mysql_def quote_with_def opts_cols_def example_opts_def no_opts_def Cols_def
        backquote_def dquote_def nul_def)
  from buildScan_renders_plan [OF this] show ?thesis
    by (simp add: mysql_def example_opts_def)
qed

text \<open>C17. A scan selects exactly the rows whose index columns extend the prefix and, for a range,
  lie between the bounds in the order of tuples: the disjunctive normal form is a
  lexicographic comparison, inclusive or exclusive as asked.\<close>

theorem scan_plan_selects:
  assumes "scan_plan opt = Ok pl"
  shows "selects pl f \<longleftrightarrow>
    (\<forall>i vs. o_prefix opt = Some i \<longrightarrow> Vals i = Ok vs \<longrightarrow> map f (take (length vs) (Cols i)) = vs) \<and>
    (\<forall>i vs. o_start_inc opt = Some i \<longrightarrow> Vals i = Ok vs \<longrightarrow> vs \<le> map f (take (length vs) (Cols i))) \<and>
    (\<forall>i vs. o_start_ex opt = Some i \<longrightarrow> Vals i = Ok vs \<longrightarrow>
       vs = [] \<or> vs < map f (take (length vs) (Cols i))) \<and>
    (\<forall>i vs. o_stop_inc opt = Some i \<longrightarrow> Vals i = Ok vs \<longrightarrow> map f (take (length vs) (Cols i)) \<le> vs) \<and>
    (\<forall>i vs. o_stop_ex opt = Some i \<longrightarrow> Vals i = Ok vs \<longrightarrow>
       vs = [] \<or> map f (take (length vs) (Cols i)) < vs)"
proof (cases "o_prefix opt")
  case (Some p)
  then obtain vs where vs: "Vals p = Ok vs"
    and eqs: "pl_eqs pl = map (\<lambda>i. (Cols p ! i, CEq, vs ! i)) [0..<length vs]"
    and "pl_ranges pl = []" "o_start_inc opt = None" "o_start_ex opt = None"
      "o_stop_inc opt = None" "o_stop_ex opt = None"
    using assms by (cases "Vals p") (auto simp: scan_plan_def prefix_plan_def split: if_splits)
  then show ?thesis using prefix_eqs_iff [OF Vals_length [OF vs]] Some
    by (simp add: selects_def)
next
  case None
  show ?thesis
  proof (cases "has_range opt")
    case True
    obtain s p where ends:
      "range_end (o_start_inc opt) (o_start_ex opt) ''can't set StartInc and StartEx'' = Ok s"
      "range_end (o_stop_inc opt) (o_stop_ex opt) ''can't set StopInc and StopEx'' = Ok p"
      and pl: "pl_eqs pl = []" "pl_ranges pl = one_range s CGt CGe @ one_range p CLt CLe"
      using assms None True
      by (cases "range_end (o_start_inc opt) (o_start_ex opt) ''can't set StartInc and StartEx''";
          cases "range_end (o_stop_inc opt) (o_stop_ex opt) ''can't set StopInc and StopEx''")
        (auto simp: scan_plan_def range_plan_def split: if_splits)
    show ?thesis
      using range_end_selects(1) [OF ends(1), of f] range_end_selects(2) [OF ends(2), of f] None
      by (simp add: selects_def pl)
  next
    case False
    then have "pl_eqs pl = []" "pl_ranges pl = []"
      using assms None by (auto simp: scan_plan_def split: if_splits)
    with False None show ?thesis by (auto simp: selects_def has_range_def)
  qed
qed

theorem scan_plan_selects_witness:
  "\<exists>pl. scan_plan example_opts = Ok pl \<and>
     (\<forall>f. selects pl f \<longleftrightarrow> [SInt 7, SInt 2] < [f ''created_ts'', f ''index''])"
proof -
  obtain pl where pl: "scan_plan example_opts = Ok pl"
    by (simp add: scan_plan_def example_opts_def no_opts_def has_range_def range_plan_def
        range_end_def Vals_def)
  have "selects pl f \<longleftrightarrow> [SInt 7, SInt 2] < [f ''created_ts'', f ''index'']" for f
    using scan_plan_selects [OF pl, of f]
    by (simp add: example_opts_def no_opts_def Vals_def Cols_def)
  with pl show ?thesis by blast
qed

end
