(* ===== verification/TextValid.thy ===== *)
theory TextValid
  imports Effects
begin

section \<open>Text validation and normalization (be/text/text.go)\<close>

text \<open>
  Every text a client sends goes through these functions before it is stored. Strings are
  byte sequences; the UTF-8 decoding that Go's \<open>range\<close> and package utf8 do is written out.
  The Unicode classes the package rejects are stable sets and written out too. The
  normal forms and case folding of golang.org/x/text are the parameter \<open>textlib\<close>.

  A validator returns an error or nothing; a normalizer returns the new text or an error. A
  message is the format string of the call that builds it, so the field name and the
  offending text do not show in it.
\<close>

record textlib =
  tl_nfc :: "string \<Rightarrow> string"
  tl_nfd :: "string \<Rightarrow> string"
  tl_nfkd :: "string \<Rightarrow> string"
  tl_nfkc :: "string \<Rightarrow> string"
  tl_fold :: "string \<Rightarrow> string"

type_synonym validator = "string \<Rightarrow> string \<Rightarrow> sts option"
type_synonym normalizer = "string \<Rightarrow> string \<Rightarrow> string res"

subsection \<open>UTF-8 (package unicode/utf8)\<close>

definition RuneError :: nat where
  "RuneError = 0xFFFD"

definition cont :: "char \<Rightarrow> bool" where
  "cont c \<longleftrightarrow> 0x80 \<le> (of_char c :: nat) \<and> (of_char c :: nat) \<le> 0xBF"

text \<open>\<open>DecodeRuneInString\<close>: the first rune and its width; a bad sequence is
  \<open>RuneError\<close> of width 1, which the three-byte encoding of U+FFFD is not.\<close>

definition decode_rune :: "string \<Rightarrow> nat \<times> nat" where
  "decode_rune s =
     (case s of
        [] \<Rightarrow> (RuneError, 0)
      | c0 # t \<Rightarrow>
          (let b0 = of_char c0 :: nat; d = (\<lambda>c. of_char c mod 64 :: nat) in
           if b0 < 0x80 then (b0, 1)
           else if 0xC2 \<le> b0 \<and> b0 \<le> 0xDF then
             (case t of
                c1 # _ \<Rightarrow> (if cont c1 then ((b0 mod 32) * 64 + d c1, 2) else (RuneError, 1))
              | _ \<Rightarrow> (RuneError, 1))
           else if 0xE0 \<le> b0 \<and> b0 \<le> 0xEF then
             (case t of
                c1 # c2 # _ \<Rightarrow>
                  (if cont c1 \<and> cont c2 \<and> (b0 = 0xE0 \<longrightarrow> 0xA0 \<le> (of_char c1 :: nat)) \<and>
                      (b0 = 0xED \<longrightarrow> (of_char c1 :: nat) \<le> 0x9F)
                   then ((b0 mod 16) * 4096 + d c1 * 64 + d c2, 3) else (RuneError, 1))
              | _ \<Rightarrow> (RuneError, 1))
           else if 0xF0 \<le> b0 \<and> b0 \<le> 0xF4 then
             (case t of
                c1 # c2 # c3 # _ \<Rightarrow>
                  (if cont c1 \<and> cont c2 \<and> cont c3 \<and> (b0 = 0xF0 \<longrightarrow> 0x90 \<le> (of_char c1 :: nat)) \<and>
                      (b0 = 0xF4 \<longrightarrow> (of_char c1 :: nat) \<le> 0x8F)
                   then ((b0 mod 8) * 262144 + d c1 * 4096 + d c2 * 64 + d c3, 4)
                   else (RuneError, 1))
              | _ \<Rightarrow> (RuneError, 1))
           else (RuneError, 1)))"

text \<open>The runes of a string with their bytes, as \<open>range\<close> visits them.\<close>

function runes :: "string \<Rightarrow> (nat \<times> string) list" where
  "runes s =
     (if s = [] then []
      else let n = max 1 (snd (decode_rune s))
           in (fst (decode_rune s), take n s) # runes (drop n s))"
  by pat_completeness auto
termination
  by (relation "measure length") auto

declare runes.simps [simp del]

definition bad_rune :: "nat \<times> string \<Rightarrow> bool" where
  "bad_rune r \<longleftrightarrow> fst r = RuneError \<and> length (snd r) \<le> 1"

definition valid_string :: "string \<Rightarrow> bool" where
  "valid_string s \<longleftrightarrow> list_all (\<lambda>r. \<not> bad_rune r) (runes s)"

subsection \<open>Rejected code points\<close>

text \<open>\<open>buildCc\<close> without tab, line feed and carriage return; Co; Cs; noncharacters.\<close>

definition notallowed_cc :: "nat \<Rightarrow> bool" where
  "notallowed_cc r \<longleftrightarrow> r \<le> 0x08 \<or> (0x0b \<le> r \<and> r \<le> 0x0c) \<or> (0x0e \<le> r \<and> r \<le> 0x1f) \<or>
     (0x7f \<le> r \<and> r \<le> 0x9f)"

definition private_use :: "nat \<Rightarrow> bool" where
  "private_use r \<longleftrightarrow> (0xE000 \<le> r \<and> r \<le> 0xF8FF) \<or> (0xF0000 \<le> r \<and> r \<le> 0xFFFFD) \<or>
     (0x100000 \<le> r \<and> r \<le> 0x10FFFD)"

definition surrogate :: "nat \<Rightarrow> bool" where
  "surrogate r \<longleftrightarrow> 0xD800 \<le> r \<and> r \<le> 0xDFFF"

definition noncharacter :: "nat \<Rightarrow> bool" where
  "noncharacter r \<longleftrightarrow> (0xFDD0 \<le> r \<and> r \<le> 0xFDEF) \<or> (r \<le> 0x10FFFF \<and> r mod 0x10000 \<ge> 0xFFFE)"

definition notAllowedRange :: "nat \<Rightarrow> bool" where
  "notAllowedRange r \<longleftrightarrow> notallowed_cc r \<or> private_use r \<or> surrogate r \<or> noncharacter r"

definition noNewlineRange :: "nat \<Rightarrow> bool" where
  "noNewlineRange r \<longleftrightarrow> r = 0x0a \<or> r = 0x0d \<or> r = 0x2028 \<or> r = 0x2029"

subsection \<open>Validators\<close>

definition validateEncoding :: validator where
  "validateEncoding txt field =
     (if \<not> valid_string txt then Some (InvalidArgument None ''invalid %s utf8 text: %s'')
      else None)"

definition validateCodepointUnsafe :: "nat \<Rightarrow> sts option" where
  "validateCodepointUnsafe r =
     (if notAllowedRange r then Some (InvalidArgument None ''unsupported char %U in %s at pos %d'')
      else None)"

fun codepoints_loop :: "(nat \<times> string) list \<Rightarrow> sts option" where
  "codepoints_loop [] = None"
| "codepoints_loop (r # rs) =
     (if bad_rune r then Some (Internal None ''invalid %s utf8 text at pos %d'')
      else (case validateCodepointUnsafe (fst r) of
              Some e \<Rightarrow> Some e
            | None \<Rightarrow> codepoints_loop rs))"

definition validateCodepoints :: validator where
  "validateCodepoints txt field = codepoints_loop (runes txt)"

definition validateMaxBytes :: "string \<Rightarrow> string \<Rightarrow> int \<Rightarrow> int \<Rightarrow> sts option" where
  "validateMaxBytes txt field mn mx =
     (let ln = int (length txt)
      in if ln < mn then Some (InvalidArgument None ''%s too short (%d < %d)'')
         else if ln > mx then Some (InvalidArgument None ''%s too long (%d > %d)'')
         else None)"

definition MaxBytesValidator :: "int \<Rightarrow> int \<Rightarrow> validator" where
  "MaxBytesValidator mn mx = (\<lambda>txt field. validateMaxBytes txt field mn mx)"

fun newlines_loop :: "(nat \<times> string) list \<Rightarrow> sts option" where
  "newlines_loop [] = None"
| "newlines_loop (r # rs) =
     (if noNewlineRange (fst r)
      then Some (InvalidArgument None ''unsupported newline %U in %s at pos %d'')
      else newlines_loop rs)"

definition validateNoNewlinesUnsafe :: validator where
  "validateNoNewlinesUnsafe txt field = newlines_loop (runes txt)"

definition validateNoNewlines :: validator where
  "validateNoNewlines txt field =
     (case validateEncoding txt field of
        Some e \<Rightarrow> Some e
      | None \<Rightarrow> (case validateCodepoints txt field of
                  Some e \<Rightarrow> Some e
                | None \<Rightarrow> validateNoNewlinesUnsafe txt field))"

fun validate :: "string \<Rightarrow> string \<Rightarrow> validator list \<Rightarrow> sts option" where
  "validate txt field [] = None"
| "validate txt field (v # vs) =
     (case v txt field of Some e \<Rightarrow> Some (From (EStatus e)) | None \<Rightarrow> validate txt field vs)"

subsection \<open>Normalizers\<close>

text \<open>What the checked normalizers do first.\<close>

definition prevalidated :: "(string \<Rightarrow> string res) \<Rightarrow> normalizer" where
  "prevalidated f txt field =
     (case validateEncoding txt field of
        Some e \<Rightarrow> Err e
      | None \<Rightarrow> (case validateCodepoints txt field of Some e \<Rightarrow> Err e | None \<Rightarrow> f txt))"

definition toNFCUnsafe :: "textlib \<Rightarrow> string \<Rightarrow> string" where
  "toNFCUnsafe tlib txt = tl_nfc tlib txt"

definition ToNFCUnsafe :: "textlib \<Rightarrow> normalizer" where
  "ToNFCUnsafe tlib = (\<lambda>txt field. Ok (toNFCUnsafe tlib txt))"

definition ToNFC :: "textlib \<Rightarrow> normalizer" where
  "ToNFC tlib = prevalidated (\<lambda>txt. Ok (toNFCUnsafe tlib txt))"

text \<open>\<open>unicode.IsSpace\<close> and \<open>strings.TrimSpace\<close>.\<close>

definition is_space :: "nat \<Rightarrow> bool" where
  "is_space r \<longleftrightarrow> (0x09 \<le> r \<and> r \<le> 0x0d) \<or> r = 0x20 \<or> r = 0x85 \<or> r = 0xA0 \<or> r = 0x1680 \<or>
     (0x2000 \<le> r \<and> r \<le> 0x200a) \<or> r = 0x2028 \<or> r = 0x2029 \<or> r = 0x202f \<or> r = 0x205f \<or> r = 0x3000"

definition strings_TrimSpace :: "string \<Rightarrow> string" where
  "strings_TrimSpace s =
     concat (map snd (rev (dropWhile (is_space \<circ> fst) (rev (dropWhile (is_space \<circ> fst) (runes s))))))"

definition trimSpace :: normalizer where
  "trimSpace = prevalidated (\<lambda>txt. Ok (strings_TrimSpace txt))"

text \<open>The exported \<open>TrimSpaceUnsafe\<close> calls the validating function.\<close>

definition TrimSpaceUnsafe :: normalizer where
  "TrimSpaceUnsafe = trimSpace"

definition toCaselessNFKCUnsafe :: "textlib \<Rightarrow> string \<Rightarrow> string" where
  "toCaselessNFKCUnsafe tlib txt =
     tl_nfkc tlib (tl_fold tlib (tl_nfkd tlib (tl_fold tlib (tl_nfd tlib txt))))"

definition toCaselessNFKC :: "textlib \<Rightarrow> normalizer" where
  "toCaselessNFKC tlib = prevalidated (\<lambda>txt. Ok (toCaselessNFKCUnsafe tlib txt))"

fun normalize :: "string \<Rightarrow> string \<Rightarrow> normalizer list \<Rightarrow> string res" where
  "normalize txt field [] = Ok txt"
| "normalize txt field (n # ns) =
     (case n txt field of
        Ok t \<Rightarrow> normalize t field ns
      | Err e \<Rightarrow> Err (From (EStatus e))
      | Panic p \<Rightarrow> Panic p)"

subsection \<open>The entry points\<close>

definition validateAndNormalize ::
    "string \<Rightarrow> string \<Rightarrow> normalizer list \<Rightarrow> validator list \<Rightarrow> validator list \<Rightarrow> string res" where
  "validateAndNormalize txt field ns prevalid postvalid =
     (case validate txt field prevalid of
        Some e \<Rightarrow> Err e
      | None \<Rightarrow> res_bind (normalize txt field ns) (\<lambda>newtext.
          (case validate newtext field postvalid of Some e \<Rightarrow> Err e | None \<Rightarrow> Ok newtext)))"

definition defaultValidators :: "int \<Rightarrow> int \<Rightarrow> validator list \<times> validator list" where
  "defaultValidators mn mx =
     (let post = [MaxBytesValidator mn mx]
      in (post @ [validateEncoding, validateCodepoints], post))"

definition defaultValidate :: "string \<Rightarrow> string \<Rightarrow> int \<Rightarrow> int \<Rightarrow> sts option" where
  "defaultValidate txt field mn mx = validate txt field (fst (defaultValidators mn mx))"

definition DefaultValidator :: "int \<Rightarrow> int \<Rightarrow> validator" where
  "DefaultValidator mn mx = (\<lambda>txt field. defaultValidate txt field mn mx)"

definition defaultValidateAndNormalize :: "textlib \<Rightarrow> string \<Rightarrow> string \<Rightarrow> int \<Rightarrow> int \<Rightarrow>
    validator list \<Rightarrow> validator list \<Rightarrow> string res" where
  "defaultValidateAndNormalize tlib txt field mn mx unsafePre extra =
     (let (pre, post) = defaultValidators mn mx
      in validateAndNormalize txt field [ToNFCUnsafe tlib]
           ((pre @ unsafePre) @ extra) (post @ extra))"

definition DefaultValidateAndNormalize ::
    "textlib \<Rightarrow> string \<Rightarrow> string \<Rightarrow> int \<Rightarrow> int \<Rightarrow> validator list \<Rightarrow> string res" where
  "DefaultValidateAndNormalize tlib txt field mn mx extra =
     defaultValidateAndNormalize tlib txt field mn mx [] extra"

definition DefaultValidateNoNewlineAndNormalize ::
    "textlib \<Rightarrow> string \<Rightarrow> string \<Rightarrow> int \<Rightarrow> int \<Rightarrow> validator list \<Rightarrow> string res" where
  "DefaultValidateNoNewlineAndNormalize tlib txt field mn mx extra =
     defaultValidateAndNormalize tlib txt field mn mx [validateNoNewlinesUnsafe] extra"

text \<open>\<open>TagUniqueName\<close> and \<open>UserUniqueIdent\<close> of package schema: the key under which a tag
  name or an identity is unique. They panic where the normalizer fails.\<close>

definition unique_key :: "textlib \<Rightarrow> string \<Rightarrow> string \<Rightarrow> string res" where
  "unique_key tlib field s =
     (case toCaselessNFKC tlib s field of
        Ok u \<Rightarrow> Ok u
      | Err e \<Rightarrow> Panic (sts_message e)
      | Panic p \<Rightarrow> Panic p)"

definition TagUniqueName :: "textlib \<Rightarrow> string \<Rightarrow> string res" where
  "TagUniqueName tlib s = unique_key tlib ''tag'' s"

definition UserUniqueIdent :: "textlib \<Rightarrow> string \<Rightarrow> string res" where
  "UserUniqueIdent tlib s = unique_key tlib ''ident'' s"

subsection \<open>Facts\<close>

lemma decode_rune_width: "s \<noteq> [] \<Longrightarrow> snd (decode_rune s) \<ge> 1 \<and> snd (decode_rune s) \<le> length s"
  by (auto simp: decode_rune_def Let_def split: list.splits)

lemma runes_Nil [simp]: "runes [] = []"
  by (simp add: runes.simps)

text \<open>Decoding loses no byte.\<close>

lemma concat_runes: "concat (map snd (runes s)) = s"
proof (induction s rule: runes.induct)
  case (1 s)
  then show ?case
    by (cases "s = []") (simp_all add: runes.simps [of s] Let_def)
qed

lemma codepoints_loop_None:
  "codepoints_loop rs = None \<longleftrightarrow> (\<forall>r \<in> set rs. \<not> bad_rune r \<and> \<not> notAllowedRange (fst r))"
  by (induction rs) (auto simp: validateCodepointUnsafe_def)

lemma newlines_loop_None: "newlines_loop rs = None \<longleftrightarrow> (\<forall>r \<in> set rs. \<not> noNewlineRange (fst r))"
  by (induction rs) auto

lemma validateMaxBytes_None:
  "validateMaxBytes txt field mn mx = None \<longleftrightarrow> mn \<le> int (length txt) \<and> int (length txt) \<le> mx"
  by (auto simp: validateMaxBytes_def Let_def)

lemma validate_None: "validate txt field vs = None \<longleftrightarrow> (\<forall>v \<in> set vs. v txt field = None)"
  by (induction vs) (auto split: option.splits)

lemma validate_append:
  "validate txt field (vs @ ws) =
    (case validate txt field vs of Some e \<Rightarrow> Some e | None \<Rightarrow> validate txt field ws)"
  by (induction vs) (auto split: option.splits)

text \<open>What it takes for a text to be acceptable: its length in bytes, its encoding and its runes.\<close>

definition acceptable :: "int \<Rightarrow> int \<Rightarrow> string \<Rightarrow> bool" where
  "acceptable mn mx txt \<longleftrightarrow> mn \<le> int (length txt) \<and> int (length txt) \<le> mx \<and>
     (\<forall>r \<in> set (runes txt). \<not> bad_rune r \<and> \<not> notAllowedRange (fst r))"

lemma defaults_None:
  "validate txt field (fst (defaultValidators mn mx)) = None \<longleftrightarrow> acceptable mn mx txt"
  by (auto simp: defaultValidators_def validate_None MaxBytesValidator_def validateMaxBytes_None
      validateEncoding_def valid_string_def list_all_iff validateCodepoints_def
      codepoints_loop_None acceptable_def simp del: validate.simps)

lemma default_normalize:
  assumes "\<forall>v \<in> set pre. v txt field = None \<longleftrightarrow> P v"
  shows "defaultValidateAndNormalize tlib txt field mn mx pre [] = Ok r \<longleftrightarrow>
    acceptable mn mx txt \<and> (\<forall>v \<in> set pre. P v) \<and> r = tl_nfc tlib txt \<and>
    mn \<le> int (length r) \<and> int (length r) \<le> mx"
proof -
  have post: "validate t field (snd (defaultValidators mn mx)) = None \<longleftrightarrow>
      mn \<le> int (length t) \<and> int (length t) \<le> mx" for t
    by (auto simp: defaultValidators_def validate_None MaxBytesValidator_def validateMaxBytes_None
        simp del: validate.simps)
  have pre_ok: "validate txt field (fst (defaultValidators mn mx) @ pre) = None \<longleftrightarrow>
      acceptable mn mx txt \<and> (\<forall>v \<in> set pre. P v)"
  proof -
    have "validate txt field pre = None \<longleftrightarrow> (\<forall>v \<in> set pre. P v)"
      unfolding validate_None using assms by simp
    then show ?thesis using defaults_None [of "txt" field mn mx]
      by (cases "validate txt field (fst (defaultValidators mn mx))") (simp_all add: validate_append)
  qed
  show ?thesis
    unfolding defaultValidateAndNormalize_def validateAndNormalize_def case_prod_beta append_Nil2
    using pre_ok post [of "tl_nfc tlib txt"]
    by (cases "validate txt field (fst (defaultValidators mn mx) @ pre)";
        cases "validate (tl_nfc tlib txt) field (snd (defaultValidators mn mx))")
      (auto simp: ToNFCUnsafe_def toNFCUnsafe_def)
qed

subsection \<open>What callers rely on\<close>

text \<open>A one-line text is stored exactly when its bytes are within the bounds before and after
  normalization, it is well-formed UTF-8 without rejected code points and line breaks; what
  is stored is its canonical composition.\<close>

theorem DefaultValidateNoNewlineAndNormalize_Ok:
  "DefaultValidateNoNewlineAndNormalize tlib txt field mn mx [] = Ok r \<longleftrightarrow>
     acceptable mn mx txt \<and> list_all (\<lambda>x. \<not> noNewlineRange (fst x)) (runes txt) \<and>
     r = tl_nfc tlib txt \<and> mn \<le> int (length r) \<and> int (length r) \<le> mx"
  unfolding DefaultValidateNoNewlineAndNormalize_def list_all_iff
  by (subst default_normalize [where P = "\<lambda>v. \<forall>x \<in> set (runes txt). \<not> noNewlineRange (fst x)"])
    (auto simp: validateNoNewlinesUnsafe_def newlines_loop_None)

lemma DefaultValidateAndNormalize_Ok:
  "DefaultValidateAndNormalize tlib txt field mn mx [] = Ok r \<longleftrightarrow>
     acceptable mn mx txt \<and> r = tl_nfc tlib txt \<and> mn \<le> int (length r) \<and> int (length r) \<le> mx"
  unfolding DefaultValidateAndNormalize_def
  by (subst default_normalize [where P = "\<lambda>v. True"]) auto

lemma validate_From: "validate txt field vs = Some e \<Longrightarrow> \<exists>v \<in> set vs. v txt field = Some e"
  by (induction vs) (auto split: option.splits)

text \<open>\<open>TrimSpaceUnsafe\<close> fails on every text that is not prevalidated, so that it is
  not the function its documentation describes.\<close>

theorem TrimSpaceUnsafe_validates:
  "(\<exists>e. TrimSpaceUnsafe txt field = Err e) \<longleftrightarrow>
     (\<exists>r \<in> set (runes txt). bad_rune r \<or> notAllowedRange (fst r))"
  using codepoints_loop_None [of "runes txt"]
  by (auto simp: TrimSpaceUnsafe_def trimSpace_def prevalidated_def validateEncoding_def
      validateCodepoints_def valid_string_def list_all_iff split: option.splits)

end
