(* ===== verification/Schema.thy ===== *)
theory Schema
  imports Effects VarintCode
begin

section \<open>The data model (be/schema)\<close>

text \<open>
  The messages of be/schema/pixur.proto as records, with the hand-written methods of
  be/schema/*.go. A message pointer that the code tests for nil, or dereferences, is an
  \<open>option\<close>. Enums are \<open>int\<close>, since a proto3 enum may hold a number its declaration does
  not name. A Go \<open>time.Time\<close> is the number of nanoseconds since the epoch.

  The operations here panic on a bad timestamp, so they are values of \<open>res\<close>.
\<close>

subsection \<open>Timestamps (schema.go)\<close>

record tspb =
  ts_seconds :: int
  ts_nanos :: int

text \<open>The range of a protobuf \<open>Timestamp\<close>: from 0001-01-01 to 9999-12-31.\<close>

definition valid_ts :: "tspb \<Rightarrow> bool" where
  "valid_ts t \<longleftrightarrow> - 62135596800 \<le> ts_seconds t \<and> ts_seconds t < 253402300800 \<and>
     0 \<le> ts_nanos t \<and> ts_nanos t < 1000000000"

definition ptypes_Timestamp :: "tspb option \<Rightarrow> gerr + int" where
  "ptypes_Timestamp ts =
     (case ts of
        None \<Rightarrow> Inl (EOther ''timestamp: nil Timestamp'')
      | Some t \<Rightarrow> (if valid_ts t then Inr (ts_seconds t * 1000000000 + ts_nanos t)
                 else Inl (EOther ''timestamp: invalid'')))"

definition ptypes_TimestampProto :: "int \<Rightarrow> gerr + tspb" where
  "ptypes_TimestampProto t =
     (let ts = \<lparr>ts_seconds = t div 1000000000, ts_nanos = t mod 1000000000\<rparr>
      in if valid_ts ts then Inr ts else Inl (EOther ''timestamp: invalid''))"

definition ToTime :: "tspb option \<Rightarrow> int res" where
  "ToTime ts = (case ptypes_Timestamp ts of Inl e \<Rightarrow> Panic (err_text e) | Inr t \<Rightarrow> Ok t)"

definition ToTspb :: "int \<Rightarrow> tspb res" where
  "ToTspb t = (case ptypes_TimestampProto t of Inl e \<Rightarrow> Panic (err_text e) | Inr ts \<Rightarrow> Ok ts)"

definition UnixNano :: "int \<Rightarrow> int" where
  "UnixNano t = wrap64 t"

text \<open>\<open>Version()\<close> of every message: its modification time as a 64-bit number of nanoseconds.\<close>

definition version_of :: "tspb option \<Rightarrow> int res" where
  "version_of ts = res_map UnixNano (ToTime ts)"

subsection \<open>Messages\<close>

type_synonym extmap = "(string \<times> (string \<times> string)) list"

record animation = anim_duration :: "int option"

record pic_file =
  pf_index :: int
  pf_size :: int
  pf_mime :: int
  pf_width :: int
  pf_height :: int
  pf_created :: "tspb option"
  pf_modified :: "tspb option"
  pf_anim :: "animation option"

record file_source =
  fs_url :: string
  fs_referrer :: string
  fs_created :: "tspb option"
  fs_user :: int
  fs_name :: string

record deletion_status =
  ds_marked :: "tspb option"
  ds_pending :: "tspb option"
  ds_actual :: "tspb option"
  ds_details :: string
  ds_reason :: int
  ds_temporary :: bool

record pic =
  p_id :: int
  p_file :: "pic_file option"
  p_created :: "tspb option"
  p_modified :: "tspb option"
  p_del :: "deletion_status option"
  p_views :: int
  p_source :: "file_source list"
  p_up :: int
  p_down :: int
  p_ext :: extmap
  p_thumb :: "pic_file list"
  p_derived :: "pic_file list"

record pic_ident =
  pi_pic :: int
  pi_type :: int
  pi_value :: string
  pi_dct :: "int list"

record tag =
  t_id :: int
  t_name :: string
  t_usage :: int
  t_created :: "tspb option"
  t_modified :: "tspb option"
  t_ext :: extmap

record pic_tag =
  pt_pic :: int
  pt_tag :: int
  pt_name :: string
  pt_user :: int
  pt_created :: "tspb option"
  pt_modified :: "tspb option"
  pt_ext :: extmap

record pic_comment =
  pc_pic :: int
  pc_id :: int
  pc_parent :: int
  pc_user :: int
  pc_text :: string
  pc_up :: int
  pc_down :: int
  pc_created :: "tspb option"
  pc_modified :: "tspb option"
  pc_ext :: extmap

record pic_vote =
  pv_pic :: int
  pv_user :: int
  pv_index :: int
  pv_vote :: int
  pv_created :: "tspb option"
  pv_modified :: "tspb option"
  pv_ext :: extmap

record pic_comment_vote =
  pcv_pic :: int
  pcv_comment :: int
  pcv_user :: int
  pcv_index :: int
  pcv_vote :: int
  pcv_created :: "tspb option"
  pcv_modified :: "tspb option"
  pcv_ext :: extmap

text \<open>The \<open>oneof evt\<close> of a user event; \<open>NoEvt\<close> is the unset one.\<close>

datatype evt =
    NoEvt
  | OutgoingUpsertPicVote int
  | IncomingUpsertPicVote int int
  | OutgoingPicComment int int
  | IncomingPicComment int int
  | UpsertPicEvt int

record user_event =
  ue_user :: int
  ue_index :: int
  ue_created :: "tspb option"
  ue_modified :: "tspb option"
  ue_evt :: evt

record user_token =
  ut_id :: int
  ut_created :: "tspb option"
  ut_last_seen :: "tspb option"

record user =
  u_id :: int
  u_secret :: string
  u_ident :: string
  u_created :: "tspb option"
  u_modified :: "tspb option"
  u_last_seen :: "tspb option"
  u_caps :: "int list"
  u_next_token :: int
  u_tokens :: "user_token list"
  u_ext :: extmap

record custom_data =
  cd_type :: int
  cd_key1 :: int
  cd_key2 :: int
  cd_key3 :: int
  cd_key4 :: int
  cd_key5 :: int
  cd_created :: "tspb option"
  cd_modified :: "tspb option"
  cd_data :: "(string \<times> string) option"

subsection \<open>Numbers of the enums\<close>

definition Vote_UP :: int where "Vote_UP = 1"
definition Vote_DOWN :: int where "Vote_DOWN = 2"
definition Vote_NEUTRAL :: int where "Vote_NEUTRAL = 3"

definition Reason_UNKNOWN :: int where "Reason_UNKNOWN = 0"
definition Reason_NONE :: int where "Reason_NONE = 1"

abbreviation (input) "PIC_CREATE \<equiv> (1 :: int)"
abbreviation (input) "PIC_READ \<equiv> (2 :: int)"
abbreviation (input) "PIC_INDEX \<equiv> (3 :: int)"
abbreviation (input) "USER_CREATE \<equiv> (4 :: int)"
abbreviation (input) "PIC_SOFT_DELETE \<equiv> (5 :: int)"
abbreviation (input) "PIC_HARD_DELETE \<equiv> (6 :: int)"
abbreviation (input) "PIC_PURGE \<equiv> (7 :: int)"
abbreviation (input) "PIC_UPDATE_VIEW_COUNTER \<equiv> (8 :: int)"
abbreviation (input) "PIC_TAG_CREATE \<equiv> (9 :: int)"
abbreviation (input) "PIC_COMMENT_CREATE \<equiv> (10 :: int)"
abbreviation (input) "PIC_VOTE_CREATE \<equiv> (11 :: int)"
abbreviation (input) "USER_UPDATE_CAPABILITY \<equiv> (12 :: int)"
abbreviation (input) "USER_READ_SELF \<equiv> (13 :: int)"
abbreviation (input) "USER_READ_ALL \<equiv> (14 :: int)"
abbreviation (input) "PIC_EXTENSION_CREATE \<equiv> (15 :: int)"
abbreviation (input) "PIC_EXTENSION_READ \<equiv> (16 :: int)"
abbreviation (input) "PIC_COMMENT_EXTENSION_CREATE \<equiv> (17 :: int)"
abbreviation (input) "PIC_COMMENT_EXTENSION_READ \<equiv> (18 :: int)"
abbreviation (input) "PIC_TAG_EXTENSION_CREATE \<equiv> (19 :: int)"
abbreviation (input) "PIC_TAG_EXTENSION_READ \<equiv> (20 :: int)"
abbreviation (input) "PIC_VOTE_EXTENSION_CREATE \<equiv> (21 :: int)"
abbreviation (input) "PIC_VOTE_EXTENSION_READ \<equiv> (22 :: int)"
abbreviation (input) "USER_READ_PUBLIC \<equiv> (23 :: int)"
abbreviation (input) "USER_READ_PICS \<equiv> (24 :: int)"
abbreviation (input) "USER_READ_PIC_TAG \<equiv> (25 :: int)"
abbreviation (input) "USER_READ_PIC_COMMENT \<equiv> (26 :: int)"
abbreviation (input) "USER_READ_PIC_VOTE \<equiv> (27 :: int)"
abbreviation (input) "PIC_COMMENT_VOTE_CREATE \<equiv> (28 :: int)"
abbreviation (input) "PIC_COMMENT_VOTE_EXTENSION_CREATE \<equiv> (29 :: int)"

text \<open>\<open>User_Capability_name\<close>: the numbers the enum declares, 0 to 29.\<close>

definition known_capability :: "int \<Rightarrow> bool" where
  "known_capability c \<longleftrightarrow> 0 \<le> c \<and> c \<le> 29"

definition AnonymousUserId :: int where
  "AnonymousUserId = 0"

subsection \<open>Deletion, order and scores (pic.go)\<close>

definition HardDeleted :: "pic \<Rightarrow> bool" where
  "HardDeleted p \<longleftrightarrow>
     (case p_del p of None \<Rightarrow> False | Some ds \<Rightarrow> ds_actual ds \<noteq> None)"

definition SoftDeleted :: "pic \<Rightarrow> bool" where
  "SoftDeleted p \<longleftrightarrow>
     (case p_del p of None \<Rightarrow> False | Some ds \<Rightarrow> ds_marked ds \<noteq> None) \<and> \<not> HardDeleted p"

definition isHidden :: "pic \<Rightarrow> bool" where
  "isHidden p = HardDeleted p"

definition NonHiddenIndexOrder :: "pic \<Rightarrow> int res" where
  "NonHiddenIndexOrder p = res_map UnixNano (ToTime (p_created p))"

definition IndexOrder :: "pic \<Rightarrow> int res" where
  "IndexOrder p = (if isHidden p then Ok (- 1) else NonHiddenIndexOrder p)"

text \<open>
  The score columns come from a floating-point Wilson interval, which is the argument
  \<open>wilson\<close> of the model (votes up and down to the two bounds as 30-bit fractions). The cases
  the source decides before it computes the interval are kept: a hard-deleted picture has
  the bounds 0 and 0, and one without votes has 0.025 and 0.975.
\<close>

definition ScoreBounds :: "(int \<Rightarrow> int \<Rightarrow> int \<times> int) \<Rightarrow> pic \<Rightarrow> int \<times> int" where
  "ScoreBounds wilson p =
     (if HardDeleted p then (0, 0)
      else if wrap64 (p_down p + p_up p) = 0 then (26843545, 1046898278)
      else wilson (p_up p) (p_down p))"

definition LowerScoreBound :: "(int \<Rightarrow> int \<Rightarrow> int \<times> int) \<Rightarrow> pic \<Rightarrow> int" where
  "LowerScoreBound wilson p = fst (ScoreBounds wilson p)"

definition UpperScoreBound :: "(int \<Rightarrow> int \<Rightarrow> int \<times> int) \<Rightarrow> pic \<Rightarrow> int" where
  "UpperScoreBound wilson p = snd (ScoreBounds wilson p)"

definition UserEventCreatedTsCol :: "tspb option \<Rightarrow> int res" where
  "UserEventCreatedTsCol ts = res_map UnixNano (ToTime ts)"

subsection \<open>Facts about time\<close>

lemma ToTspb_Ok: "ToTspb t = Ok ts \<longleftrightarrow>
    ts = \<lparr>ts_seconds = t div 1000000000, ts_nanos = t mod 1000000000\<rparr> \<and> valid_ts ts"
proof -
  let ?r = "\<lparr>ts_seconds = t div 1000000000, ts_nanos = t mod 1000000000\<rparr>"
  have "ToTspb t = (if valid_ts ?r then Ok ?r else Panic ''timestamp: invalid'')"
    by (simp add: ToTspb_def ptypes_TimestampProto_def Let_def)
  then show ?thesis by (cases "valid_ts ?r") auto
qed

lemma ToTspb_not_Err [simp]: "ToTspb t \<noteq> Err e"
  by (auto simp: ToTspb_def ptypes_TimestampProto_def Let_def)

lemma ToTime_not_Err [simp]: "ToTime ts \<noteq> Err e"
  by (auto simp: ToTime_def ptypes_Timestamp_def split: option.splits)

text \<open>Storing a time and reading it back loses nothing.\<close>

lemma ToTime_ToTspb: "ToTspb t = Ok ts \<Longrightarrow> ToTime (Some ts) = Ok t"
proof -
  assume "ToTspb t = Ok ts"
  then have ts: "ts = \<lparr>ts_seconds = t div 1000000000, ts_nanos = t mod 1000000000\<rparr>"
    and valid: "valid_ts ts"
    unfolding ToTspb_Ok by blast+
  have "ts_seconds ts * 1000000000 + ts_nanos ts = t" by (simp add: ts)
  with valid show ?thesis by (simp add: ToTime_def ptypes_Timestamp_def)
qed

lemma valid_ts_range: "valid_ts ts \<Longrightarrow>
    - 62135596800000000000 \<le> ts_seconds ts * 1000000000 + ts_nanos ts \<and>
    ts_seconds ts * 1000000000 + ts_nanos ts < 253402300800000000000"
  by (auto simp: valid_ts_def)

end
