(* ===== verification/Config.thy ===== *)
theory Config
  imports Schema
begin

section \<open>Site configuration (be/schema/configuration.go)\<close>

text \<open>
  Every field of a \<open>Configuration\<close> is a message pointer, so that a configuration may leave any
  of them unset; \<open>MergeConfiguration\<close> lays one over another field by field.
\<close>

record configuration =
  c_min_comment :: "int option"
  c_max_comment :: "int option"
  c_min_ident :: "int option"
  c_max_ident :: "int option"
  c_min_file_name :: "int option"
  c_max_file_name :: "int option"
  c_min_url :: "int option"
  c_max_url :: "int option"
  c_min_tag :: "int option"
  c_max_tag :: "int option"
  c_anonymous :: "int list option"
  c_new_user :: "int list option"
  c_default_find_index :: "int option"
  c_max_find_index :: "int option"
  c_max_video :: "int option"
  c_self_reply :: "bool option"
  c_sibling_reply :: "bool option"
  c_default_find_events :: "int option"
  c_max_find_events :: "int option"

definition empty_configuration :: configuration where
  "empty_configuration = \<lparr>c_min_comment = None, c_max_comment = None, c_min_ident = None,
     c_max_ident = None, c_min_file_name = None, c_max_file_name = None, c_min_url = None,
     c_max_url = None, c_min_tag = None, c_max_tag = None, c_anonymous = None,
     c_new_user = None, c_default_find_index = None, c_max_find_index = None,
     c_max_video = None, c_self_reply = None, c_sibling_reply = None,
     c_default_find_events = None, c_max_find_events = None\<rparr>"

definition defaultConfiguration :: configuration where
  "defaultConfiguration = \<lparr>
     c_min_comment = Some 1, c_max_comment = Some 16384,
     c_min_ident = Some 1, c_max_ident = Some 128,
     c_min_file_name = Some (int (length ''a.a'')), c_max_file_name = Some 255,
     c_min_url = Some (int (length ''http://a/'')), c_max_url = Some 2000,
     c_min_tag = Some 1, c_max_tag = Some 64,
     c_anonymous = Some [PIC_READ, PIC_INDEX, PIC_UPDATE_VIEW_COUNTER, USER_CREATE,
       USER_READ_PUBLIC],
     c_new_user = Some [PIC_READ, PIC_INDEX, PIC_UPDATE_VIEW_COUNTER, PIC_TAG_CREATE,
       PIC_COMMENT_CREATE, PIC_VOTE_CREATE, USER_READ_SELF, USER_READ_PUBLIC, USER_READ_PICS,
       USER_READ_PIC_COMMENT],
     c_default_find_index = Some 12, c_max_find_index = Some 100,
     c_max_video = Some ((10 * 60 + 1) * 1000000000),
     c_self_reply = Some True, c_sibling_reply = Some False,
     c_default_find_events = Some 10, c_max_find_events = Some 100\<rparr>"

definition GetDefaultConfiguration :: configuration where
  "GetDefaultConfiguration = defaultConfiguration"

fun over :: "'a option \<Rightarrow> 'a option \<Rightarrow> 'a option" where
  "over dst None = dst"
| "over dst (Some x) = Some x"

text \<open>The loop over the fields of the struct, with the nil source that leaves the destination.\<close>

definition MergeConfiguration :: "configuration \<Rightarrow> configuration option \<Rightarrow> configuration" where
  "MergeConfiguration dst src =
     (case src of None \<Rightarrow> dst | Some s \<Rightarrow> \<lparr>
        c_min_comment = over (c_min_comment dst) (c_min_comment s),
        c_max_comment = over (c_max_comment dst) (c_max_comment s),
        c_min_ident = over (c_min_ident dst) (c_min_ident s),
        c_max_ident = over (c_max_ident dst) (c_max_ident s),
        c_min_file_name = over (c_min_file_name dst) (c_min_file_name s),
        c_max_file_name = over (c_max_file_name dst) (c_max_file_name s),
        c_min_url = over (c_min_url dst) (c_min_url s),
        c_max_url = over (c_max_url dst) (c_max_url s),
        c_min_tag = over (c_min_tag dst) (c_min_tag s),
        c_max_tag = over (c_max_tag dst) (c_max_tag s),
        c_anonymous = over (c_anonymous dst) (c_anonymous s),
        c_new_user = over (c_new_user dst) (c_new_user s),
        c_default_find_index = over (c_default_find_index dst) (c_default_find_index s),
        c_max_find_index = over (c_max_find_index dst) (c_max_find_index s),
        c_max_video = over (c_max_video dst) (c_max_video s),
        c_self_reply = over (c_self_reply dst) (c_self_reply s),
        c_sibling_reply = over (c_sibling_reply dst) (c_sibling_reply s),
        c_default_find_events = over (c_default_find_events dst) (c_default_find_events s),
        c_max_find_events = over (c_max_find_events dst) (c_max_find_events s)\<rparr>)"

definition complete :: "configuration \<Rightarrow> bool" where
  "complete c \<longleftrightarrow> c_min_comment c \<noteq> None \<and> c_max_comment c \<noteq> None \<and> c_min_ident c \<noteq> None \<and>
     c_max_ident c \<noteq> None \<and> c_min_file_name c \<noteq> None \<and> c_max_file_name c \<noteq> None \<and>
     c_min_url c \<noteq> None \<and> c_max_url c \<noteq> None \<and> c_min_tag c \<noteq> None \<and> c_max_tag c \<noteq> None \<and>
     c_anonymous c \<noteq> None \<and> c_new_user c \<noteq> None \<and> c_default_find_index c \<noteq> None \<and>
     c_max_find_index c \<noteq> None \<and> c_max_video c \<noteq> None \<and> c_self_reply c \<noteq> None \<and>
     c_sibling_reply c \<noteq> None \<and> c_default_find_events c \<noteq> None \<and> c_max_find_events c \<noteq> None"

subsection \<open>Facts\<close>

lemma over_assoc: "over a (over b c) = over (over a b) c"
  by (cases c) simp_all

lemma over_not_None: "over a b = None \<longleftrightarrow> a = None \<and> b = None"
  by (cases b) simp_all

lemma over_None_left [simp]: "over None b = b"
  by (cases b) simp_all

lemma merge_empty: "MergeConfiguration empty_configuration (Some c) = c"
  by (simp add: MergeConfiguration_def empty_configuration_def)

lemma merge_assoc:
  "MergeConfiguration (MergeConfiguration a (Some b)) (Some c) =
   MergeConfiguration a (Some (MergeConfiguration b (Some c)))"
  by (simp add: MergeConfiguration_def over_assoc)

lemma merge_complete: "complete dst \<Longrightarrow> complete (MergeConfiguration dst src)"
  by (cases src) (simp_all add: MergeConfiguration_def complete_def over_not_None)

lemma default_complete: "complete defaultConfiguration"
  by (simp add: complete_def defaultConfiguration_def)

end
