(* ===== verification/Store.thy ===== *)
theory Store
  imports SqlPlan Config TextValid "HOL-Library.Multiset"
begin

section \<open>The database and transactions (be/schema/db/sql.go, tables.tab.go)\<close>

text \<open>
  The state of the back end: the committed database, the transaction in progress, the id
  allocator and the files. A transaction works on its own copy, as a serializable one does,
  and a commit installs the copy.

  What the SQL engine is free to do is in the environment, so that a theorem about an
  operation covers all of it: any call may fail for any reason (\<open>e_fault\<close>), a failed commit
  may have taken effect (\<open>e_commit_applies\<close>), and rows that no ORDER BY separates come in any
  order (\<open>e_rank\<close>). A lost race with another transaction is such a failure, with the reason
  \<open>SerializationFailure\<close>.
\<close>

subsection \<open>State\<close>

record 'r trow =
  tr_vals :: "sqlval list"
  tr_data :: 'r

record database =
  db_pics :: "pic trow list"
  db_tags :: "tag trow list"
  db_pictags :: "pic_tag trow list"
  db_idents :: "pic_ident trow list"
  db_comments :: "pic_comment trow list"
  db_votes :: "pic_vote trow list"
  db_cvotes :: "pic_comment_vote trow list"
  db_users :: "user trow list"
  db_events :: "user_event trow list"
  db_custom :: "custom_data trow list"
  db_seq :: "int list"

text \<open>
  A transaction: its copy, whether it is read-only, whether the engine still has it open
  (\<open>tx_live\<close>), and the \<open>done\<close> flags of \<open>txWrapper\<close> and of the \<open>Job\<close> around it.
\<close>

record txh =
  tx_db :: database
  tx_ro :: bool
  tx_live :: bool
  tx_done :: bool
  tx_jobdone :: bool

record idalloc =
  al_ranges :: "(int \<times> int) list"
  al_total :: int
  al_water :: "(int \<times> int) option"

record env =
  e_text :: textlib
  e_wilson :: "int \<Rightarrow> int \<Rightarrow> int \<times> int"
  e_adapter :: adapter
  e_fault :: "nat \<Rightarrow> sqlreason option"
  e_commit_applies :: "nat \<Rightarrow> bool"
  e_rank :: "nat \<Rightarrow> nat \<Rightarrow> nat"
  e_io :: "nat \<Rightarrow> string option"

record world =
  w_env :: env
  w_db :: database
  w_tx :: "txh option"
  w_open :: int
  w_calls :: nat
  w_alloc :: idalloc
  w_files :: "(string \<times> string) list"
  w_ios :: nat
  w_site :: "configuration option"

type_synonym 'a io = "(world, 'a) prog"

subsection \<open>Engine calls\<close>

definition sql_error :: "sqlreason \<Rightarrow> string \<Rightarrow> sts" where
  "sql_error r msg = Unknown (Some (ESql r)) msg"

definition engine_call :: "string \<Rightarrow> unit io" where
  "engine_call msg w =
     (let w' = w\<lparr>w_calls := Suc (w_calls w)\<rparr>
      in case e_fault (w_env w) (w_calls w) of
           Some r \<Rightarrow> (Err (sql_error r msg), w')
         | None \<Rightarrow> (Ok (), w'))"

definition open_tx :: "string \<Rightarrow> txh io" where
  "open_tx msg w =
     (case w_tx w of
        Some tx \<Rightarrow> (if tx_live tx then (Ok tx, w) else (Err (sql_error SqlTxDone msg), w))
      | None \<Rightarrow> (Err (sql_error SqlTxDone msg), w))"

definition begin_tx :: "bool \<Rightarrow> unit io" where
  "begin_tx readonly =
     bind (engine_call ''failed to begin query'') (\<lambda>_.
       modify (\<lambda>w. w\<lparr>w_tx := Some \<lparr>tx_db = w_db w, tx_ro = readonly, tx_live = True,
           tx_done = False, tx_jobdone = False\<rparr>, w_open := w_open w + 1\<rparr>))"

text \<open>A failed commit ends the transaction at the engine; whether it took effect is open.\<close>

definition tx_commit :: "unit io" where
  "tx_commit =
     bind (open_tx ''can't commit'') (\<lambda>tx w.
       let n = w_calls w;
           ended = w\<lparr>w_calls := Suc n, w_open := w_open w - 1\<rparr>
       in case e_fault (w_env w) n of
            Some r \<Rightarrow> (Err (sql_error r ''can't commit''),
              ended\<lparr>w_tx := Some (tx\<lparr>tx_live := False\<rparr>),
                w_db := (if e_commit_applies (w_env w) n then tx_db tx else w_db w)\<rparr>)
          | None \<Rightarrow> (Ok (),
              ended\<lparr>w_tx := Some (tx\<lparr>tx_live := False, tx_done := True\<rparr>), w_db := tx_db tx\<rparr>))"

definition tx_rollback :: "unit io" where
  "tx_rollback w =
     (case w_tx w of
        None \<Rightarrow> (Ok (), w)
      | Some tx \<Rightarrow>
          (if tx_done tx then (Ok (), w)
           else if \<not> tx_live tx then
             (Err (sql_error SqlTxDone ''can't rollback''), w\<lparr>w_tx := Some (tx\<lparr>tx_done := True\<rparr>)\<rparr>)
           else
             (let w' = w\<lparr>w_tx := Some (tx\<lparr>tx_done := True, tx_live := False\<rparr>),
                 w_open := w_open w - 1, w_calls := Suc (w_calls w)\<rparr>
              in case e_fault (w_env w) (w_calls w) of
                   Some r \<Rightarrow> (Err (sql_error r ''can't rollback''), w')
                 | None \<Rightarrow> (Ok (), w'))))"

text \<open>\<open>Job.Commit\<close> and \<open>Job.Rollback\<close>.\<close>

definition job_done :: "unit io" where
  "job_done = modify (\<lambda>w. w\<lparr>w_tx := map_option (\<lambda>tx. tx\<lparr>tx_jobdone := True\<rparr>) (w_tx w)\<rparr>)"

definition Commit :: "unit io" where
  "Commit = bind tx_commit (\<lambda>_. job_done)"

definition Rollback :: "unit io" where
  "Rollback w =
     (case w_tx w of
        None \<Rightarrow> (Ok (), w)
      | Some tx \<Rightarrow> (if tx_jobdone tx then (Ok (), w) else bind job_done (\<lambda>_. tx_rollback) w))"

text \<open>\<open>revert\<close> of be/tasks/task.go is \<open>deferred _ Rollback\<close>.\<close>

subsection \<open>Statements on a table\<close>

record 'r tabl =
  tb_name :: string
  tb_cols :: "string list"
  tb_vals :: "env \<Rightarrow> 'r \<Rightarrow> sqlval list res"
  tb_get :: "database \<Rightarrow> 'r trow list"
  tb_put :: "'r trow list \<Rightarrow> database \<Rightarrow> database"
  tb_unique :: "string list list"

definition col_of :: "string list \<Rightarrow> 'r trow \<Rightarrow> string \<Rightarrow> sqlval" where
  "col_of cols row c = (case map_of (zip cols (tr_vals row)) c of Some v \<Rightarrow> v | None \<Rightarrow> SInt 0)"

text \<open>The order in which the engine happens to visit a list of rows.\<close>

definition engine_order :: "(nat \<Rightarrow> nat) \<Rightarrow> 'r list \<Rightarrow> 'r list" where
  "engine_order rank rows = map ((!) rows) (sort_key rank [0..<length rows])"

definition query_plan :: "'r tabl \<Rightarrow> plan \<Rightarrow> 'r list io" where
  "query_plan T pl =
     bind (open_tx ''can't query'') (\<lambda>tx.
     bind (get_state w_calls) (\<lambda>n.
     bind (engine_call ''can't query'') (\<lambda>_.
     get_state (\<lambda>w. map tr_data (select_rows pl (col_of (tb_cols T))
       (engine_order (e_rank (w_env w) n) (tb_get T (tx_db tx))))))))"

definition find_rows :: "'r tabl \<Rightarrow> opts \<Rightarrow> 'r list io" where
  "find_rows T opt = bind (lift_res (scan_plan opt)) (query_plan T)"

text \<open>A write: refused in a read-only transaction, otherwise applied to the copy.\<close>

definition exec_write :: "(database \<Rightarrow> database res) \<Rightarrow> unit io" where
  "exec_write f =
     bind (open_tx ''can't exec'') (\<lambda>tx.
     bind (engine_call ''can't exec'') (\<lambda>_.
     bind (check (\<not> tx_ro tx) (sql_error SqlOther ''can't exec'')) (\<lambda>_.
     bind (lift_res (f (tx_db tx))) (\<lambda>d.
       modify (\<lambda>w. w\<lparr>w_tx := Some (tx\<lparr>tx_db := d\<rparr>)\<rparr>)))))"

definition same_cols :: "string list \<Rightarrow> string list \<Rightarrow> 'r trow \<Rightarrow> 'r trow \<Rightarrow> bool" where
  "same_cols cols key r s \<longleftrightarrow> list_all (\<lambda>c. col_of cols r c = col_of cols s c) key"

definition violates :: "'r tabl \<Rightarrow> 'r trow \<Rightarrow> 'r trow list \<Rightarrow> bool" where
  "violates T row rows \<longleftrightarrow>
     list_ex (\<lambda>key. list_ex (same_cols (tb_cols T) key row) rows) (tb_unique T)"

definition insert_row :: "'r tabl \<Rightarrow> 'r \<Rightarrow> unit io" where
  "insert_row T r =
     bind (get_state w_env) (\<lambda>ev.
     bind (lift_res (tb_vals T ev r)) (\<lambda>vals.
     bind (lift_res (check_cols (tb_cols T) vals)) (\<lambda>_.
     exec_write (\<lambda>d.
       let row = \<lparr>tr_vals = vals, tr_data = r\<rparr>
       in if violates T row (tb_get T d) then Err (sql_error UniqueViolation ''can't exec'')
          else Ok (tb_put T (tb_get T d @ [row]) d)))))"

definition matches_key :: "string list \<Rightarrow> string list \<Rightarrow> sqlval list \<Rightarrow> 'r trow \<Rightarrow> bool" where
  "matches_key cols key vals row \<longleftrightarrow> map (col_of cols row) key = vals"

definition update_row :: "'r tabl \<Rightarrow> idx \<Rightarrow> 'r \<Rightarrow> unit io" where
  "update_row T key r =
     bind (get_state w_env) (\<lambda>ev.
     bind (lift_res (tb_vals T ev r)) (\<lambda>vals.
     bind (lift_res (check_cols (tb_cols T) vals)) (\<lambda>_.
     bind (lift_res (Vals key)) (\<lambda>kvals.
     bind (lift_res (check_cols (Cols key) kvals)) (\<lambda>_.
     exec_write (\<lambda>d.
       let row = \<lparr>tr_vals = vals, tr_data = r\<rparr>;
           hit = matches_key (tb_cols T) (Cols key) kvals;
           rows = tb_get T d
       in if list_ex hit rows \<and> violates T row (filter (\<lambda>x. \<not> hit x) rows)
          then Err (sql_error UniqueViolation ''can't exec'')
          else Ok (tb_put T (map (\<lambda>x. if hit x then row else x) rows) d)))))))"

definition delete_row :: "'r tabl \<Rightarrow> idx \<Rightarrow> unit io" where
  "delete_row T key =
     bind (lift_res (Vals key)) (\<lambda>kvals.
     bind (lift_res (check_cols (Cols key) kvals)) (\<lambda>_.
     exec_write (\<lambda>d.
       Ok (tb_put T (filter (\<lambda>x. \<not> matches_key (tb_cols T) (Cols key) kvals x) (tb_get T d)) d))))"

subsection \<open>Facts about the engine\<close>

lemma mset_engine_order [simp]: "mset (engine_order rank rows) = mset rows"
proof -
  have "mset (engine_order rank rows) = image_mset ((!) rows) (mset [0..<length rows])"
    by (simp add: engine_order_def)
  also have "\<dots> = mset (map ((!) rows) [0..<length rows])" by simp
  finally show ?thesis by (simp only: map_nth)
qed

lemma set_engine_order [simp]: "set (engine_order rank rows) = set rows"
  by (metis mset_engine_order set_mset_mset)

lemma select_rows_all:
  assumes "pl_limit pl = 0"
  shows "mset (select_rows pl f rows) = mset (filter (\<lambda>r. selects pl (f r)) rows)"
  using assms by (simp add: select_rows_def Let_def)

lemma set_select_rows: "set (select_rows pl f rows) \<subseteq> {r \<in> set rows. selects pl (f r)}"
proof -
  let ?key = "\<lambda>r. map (f r) (pl_order pl)"
  have "set (take n (rev (sort_key ?key (filter (\<lambda>r. selects pl (f r)) rows)))) \<subseteq>
      {r \<in> set rows. selects pl (f r)}" for n
    using set_take_subset [of n "rev (sort_key ?key (filter (\<lambda>r. selects pl (f r)) rows))"] by auto
  moreover have "set (take n (sort_key ?key (filter (\<lambda>r. selects pl (f r)) rows))) \<subseteq>
      {r \<in> set rows. selects pl (f r)}" for n
    using set_take_subset [of n "sort_key ?key (filter (\<lambda>r. selects pl (f r)) rows)"] by auto
  ultimately show ?thesis by (auto simp: select_rows_def Let_def)
qed

lemma length_select_rows: "pl_limit pl > 0 \<Longrightarrow> length (select_rows pl f rows) \<le> pl_limit pl"
  by (simp add: select_rows_def Let_def)

subsection \<open>A concrete environment\<close>

text \<open>An engine that never fails, a text library that changes nothing, and an empty database as
  \<open>SqlInitTables\<close> leaves it. The witnesses of the development start from it.\<close>

definition plain_textlib :: textlib where
  "plain_textlib = \<lparr>tl_nfc = (\<lambda>s. s), tl_nfd = (\<lambda>s. s), tl_nfkd = (\<lambda>s. s), tl_nfkc = (\<lambda>s. s),
     tl_fold = (\<lambda>s. s)\<rparr>"

definition calm_env :: env where
  "calm_env = \<lparr>e_text = plain_textlib, e_wilson = (\<lambda>u d. (0, 0)), e_adapter = postgres,
     e_fault = (\<lambda>n. None), e_commit_applies = (\<lambda>n. False), e_rank = (\<lambda>n i. i), e_io = (\<lambda>n. None)\<rparr>"

definition empty_db :: database where
  "empty_db = \<lparr>db_pics = [], db_tags = [], db_pictags = [], db_idents = [], db_comments = [],
     db_votes = [], db_cvotes = [], db_users = [], db_events = [], db_custom = [], db_seq = [1]\<rparr>"

definition new_alloc :: idalloc where
  "new_alloc = \<lparr>al_ranges = [], al_total = 0, al_water = None\<rparr>"

definition calm_world :: "database \<Rightarrow> world" where
  "calm_world d = \<lparr>w_env = calm_env, w_db = d, w_tx = None, w_open = 0, w_calls = 0,
     w_alloc = new_alloc, w_files = [], w_ios = 0, w_site = None\<rparr>"

end
