(* ===== verification/IdAlloc.thy ===== *)
theory IdAlloc
  imports Store
begin

section \<open>Identifier allocation (be/schema/db/idalloc.go)\<close>

text \<open>
  New rows get their ids from one counter, the only row of \<open>_SequenceTable\<close>. A server
  reserves a block of ids in a transaction of its own and hands them out from memory; when
  the block is empty it reserves a single id in the transaction that needs it. The lock of
  the source makes each operation atomic, so that it needs no counterpart here.
\<close>

definition DefaultIdLowWaterMark :: int where
  "DefaultIdLowWaterMark = 1"

definition DefaultIdHighWaterMark :: int where
  "DefaultIdHighWaterMark = 10"

definition getWatermark :: "idalloc \<Rightarrow> int \<times> int" where
  "getWatermark al =
     (case al_water al of
        None \<Rightarrow> (DefaultIdLowWaterMark, DefaultIdHighWaterMark)
      | Some lh \<Rightarrow> lh)"

definition SetWatermark :: "int \<Rightarrow> int \<Rightarrow> unit io" where
  "SetWatermark newlo newhi =
     (if newlo > newhi then panic ''bad watermarks''
      else modify (\<lambda>w. w\<lparr>w_alloc := (w_alloc w)\<lparr>al_water := Some (newlo, newhi)\<rparr>\<rparr>))"

definition reserveIds :: "int \<Rightarrow> int io" where
  "reserveIds grab =
     (if grab < 1 then fail (Internal None ''grab too low'')
      else bind (open_tx ''can't query'') (\<lambda>tx.
        bind (engine_call ''can't query'') (\<lambda>_.
        (case db_seq (tx_db tx) of
           [] \<Rightarrow> fail (Internal None ''Too few rows on sequence table'')
         | [num] \<Rightarrow>
             (if grab > wrap64 (max_int64 - num)
              then fail (Internal None ''id allocation overflow %d+%d'')
              else bind (exec_write (\<lambda>d. Ok (d\<lparr>db_seq := map (\<lambda>_. wrap64 (num + grab)) (db_seq d)\<rparr>)))
                (\<lambda>_. ret num))
         | _ \<Rightarrow> fail (Internal None ''Too many rows on sequence table'')))))"

definition preallocateIds :: "unit io" where
  "preallocateIds =
     bind (get_state w_alloc) (\<lambda>al.
       if al_total al \<ge> fst (getWatermark al) then ret ()
       else bind (begin_tx False) (\<lambda>_.
         deferred
           (bind (get_state w_alloc) (\<lambda>al.
              let (lowat, hiwat) = getWatermark al; available = al_total al
              in if available \<ge> lowat then ret ()
                 else
                   (let grab = wrap64 (hiwat - available)
                    in bind (reserveIds grab) (\<lambda>next.
                       bind tx_commit (\<lambda>_.
                       modify (\<lambda>w. w\<lparr>w_alloc := (w_alloc w)\<lparr>
                         al_ranges := al_ranges (w_alloc w) @ [(next, grab)],
                         al_total := al_total (w_alloc w) + grab\<rparr>\<rparr>))))))
           tx_rollback))"

text \<open>The loop over the ranges: the first id of the first range that is not empty, and the
  ranges from there on.\<close>

fun take_id :: "(int \<times> int) list \<Rightarrow> (int \<times> (int \<times> int) list) option" where
  "take_id [] = None"
| "take_id ((nxt, avail) # rs) =
     (if avail > 0 then Some (nxt, (nxt + 1, avail - 1) # rs) else take_id rs)"

definition allocIdJob :: "int io" where
  "allocIdJob =
     bind (get_state w_alloc) (\<lambda>al.
       if al_total al > 0 then
         (case take_id (al_ranges al) of
            None \<Rightarrow> panic ''unreachable''
          | Some (i, rs) \<Rightarrow>
              bind (modify (\<lambda>w. w\<lparr>w_alloc := al\<lparr>al_ranges := rs, al_total := al_total al - 1\<rparr>\<rparr>))
                (\<lambda>_. ret i))
       else reserveIds 1)"

definition allocId :: "int io" where
  "allocId =
     bind preallocateIds (\<lambda>_.
     bind (begin_tx False) (\<lambda>_.
     deferred (bind allocIdJob (\<lambda>i. bind tx_commit (\<lambda>_. ret i))) tx_rollback))"

text \<open>\<open>newJob\<close> of tables.tab.go, which every task starts with.\<close>

definition newJob :: "bool \<Rightarrow> unit io" where
  "newJob readonly = bind preallocateIds (\<lambda>_. begin_tx readonly)"

definition NewJob :: "unit io" where
  "NewJob = newJob False"

definition NewReadonlyJob :: "unit io" where
  "NewReadonlyJob = newJob True"

definition AllocId :: "int io" where
  "AllocId = allocIdJob"

subsection \<open>The allocator as a state machine\<close>

text \<open>
  A state has the world, the ids of committed transactions and the ids handed out in the
  transaction in progress. The steps are what a server does to the counter and its cache,
  with any outcome the engine chooses, and a reservation by another server between two of our
  transactions.
\<close>

definition live_tx :: "world \<Rightarrow> bool" where
  "live_tx w \<longleftrightarrow> (case w_tx w of None \<Rightarrow> False | Some tx \<Rightarrow> tx_live tx)"

definition tx_seq :: "world \<Rightarrow> int list" where
  "tx_seq w = (case w_tx w of Some tx \<Rightarrow> (if tx_live tx then db_seq (tx_db tx) else db_seq (w_db w))
     | None \<Rightarrow> db_seq (w_db w))"

inductive id_step :: "world \<times> int set \<times> int set \<Rightarrow> world \<times> int set \<times> int set \<Rightarrow> bool" where
  job: "\<not> live_tx w \<Longrightarrow> newJob ro w = (r, w') \<Longrightarrow> id_step (w, U, P) (w', U, {})"
| alloc: "allocIdJob w = (Ok i, w') \<Longrightarrow> id_step (w, U, P) (w', U, insert i P)"
| alloc_failed: "allocIdJob w = (r, w') \<Longrightarrow> (\<forall>i. r \<noteq> Ok i) \<Longrightarrow> id_step (w, U, P) (w', U, P)"
| other: "w_alloc w' = w_alloc w \<Longrightarrow> live_tx w' = live_tx w \<Longrightarrow> tx_seq w' = tx_seq w \<Longrightarrow>
    db_seq (w_db w') = db_seq (w_db w) \<Longrightarrow> id_step (w, U, P) (w', U, P)"
| committed: "Commit w = (Ok (), w') \<Longrightarrow> id_step (w, U, P) (w', U \<union> P, {})"
| commit_lost: "Commit w = (Err e, w') \<Longrightarrow> w_db w' = w_db w \<Longrightarrow> id_step (w, U, P) (w', U, {})"
| commit_applied: "Commit w = (Err e, w') \<Longrightarrow> w_db w' \<noteq> w_db w \<Longrightarrow> id_step (w, U, P) (w', U \<union> P, {})"
| rolled_back: "Rollback w = (r, w') \<Longrightarrow> \<not> live_tx w' \<Longrightarrow> id_step (w, U, P) (w', U, {})"
| elsewhere: "\<not> live_tx w \<Longrightarrow> db_seq (w_db w) = [s] \<Longrightarrow> s \<le> s' \<Longrightarrow> int64 s' \<Longrightarrow>
    id_step (w, U, P) (w\<lparr>w_db := (w_db w)\<lparr>db_seq := [s']\<rparr>\<rparr>, U \<union> {s..<s'}, P)"

inductive id_reachable :: "world \<Rightarrow> world \<times> int set \<times> int set \<Rightarrow> bool" for w0 where
  start: "id_reachable w0 (w0, {}, {})"
| step: "id_reachable w0 s \<Longrightarrow> id_step s t \<Longrightarrow> id_reachable w0 t"

text \<open>A server that has just started on an initialized database.\<close>

definition fresh_server :: "world \<Rightarrow> bool" where
  "fresh_server w \<longleftrightarrow> \<not> live_tx w \<and> (\<exists>s. db_seq (w_db w) = [s] \<and> 0 \<le> s \<and> int64 s) \<and>
     al_ranges (w_alloc w) = [] \<and> al_total (w_alloc w) = 0 \<and>
     (case al_water (w_alloc w) of None \<Rightarrow> True | Some (lo, hi) \<Rightarrow> lo \<le> hi \<and> hi \<le> max_int64)"

end
