(* ===== verification/IdFacts.thy ===== *)
theory IdFacts
  imports IdAlloc
begin

section \<open>No id is handed out twice\<close>

text \<open>
  The invariant of the allocator: the cached ranges lie below the committed counter, are
  disjoint from each other and from every id handed out, and the counter of the open
  transaction is not below the committed one.
\<close>

fun range_ids :: "(int \<times> int) list \<Rightarrow> int set" where
  "range_ids [] = {}"
| "range_ids ((n, a) # rs) = {n..<n + a} \<union> range_ids rs"

fun disjoint_ranges :: "(int \<times> int) list \<Rightarrow> bool" where
  "disjoint_ranges [] = True"
| "disjoint_ranges ((n, a) # rs) \<longleftrightarrow> {n..<n + a} \<inter> range_ids rs = {} \<and> disjoint_ranges rs"

definition cache_ok :: "idalloc \<Rightarrow> int \<Rightarrow> bool" where
  "cache_ok al s \<longleftrightarrow> disjoint_ranges (al_ranges al) \<and> range_ids (al_ranges al) \<subseteq> {..<s} \<and>
     (\<forall>(n, a) \<in> set (al_ranges al). 0 \<le> a) \<and> al_total al = sum_list (map snd (al_ranges al)) \<and>
     (case al_water al of None \<Rightarrow> True | Some (lo, hi) \<Rightarrow> lo \<le> hi \<and> hi \<le> max_int64)"

definition counters_ok :: "world \<Rightarrow> int \<Rightarrow> int \<Rightarrow> bool" where
  "counters_ok w s t \<longleftrightarrow> db_seq (w_db w) = [s] \<and> tx_seq w = [t] \<and> 0 \<le> s \<and> s \<le> t \<and> t \<le> max_int64 \<and>
     cache_ok (w_alloc w) s"

fun id_inv :: "world \<times> int set \<times> int set \<Rightarrow> bool" where
  "id_inv (w, U, P) \<longleftrightarrow> (\<exists>s t. counters_ok w s t \<and> U \<subseteq> {..<s} \<and> P \<subseteq> {..<t} \<and>
     (U \<union> P) \<inter> range_ids (al_ranges (w_alloc w)) = {})"

subsection \<open>The cache\<close>

lemma range_ids_append: "range_ids (xs @ ys) = range_ids xs \<union> range_ids ys"
  by (induction xs) auto

lemma disjoint_ranges_snoc: "disjoint_ranges (xs @ [(n, a)]) \<longleftrightarrow>
    disjoint_ranges xs \<and> {n..<n + a} \<inter> range_ids xs = {}"
proof (induction xs)
  case (Cons p xs)
  obtain m b where p: "p = (m, b)" by (cases p)
  have "{m..<m + b} \<inter> (range_ids xs \<union> {n..<n + a}) = {} \<longleftrightarrow>
      {m..<m + b} \<inter> range_ids xs = {} \<and> {n..<n + a} \<inter> {m..<m + b} = {}"
    by blast
  then show ?case using Cons p
    by (simp only: append_Cons disjoint_ranges.simps range_ids_append range_ids.simps Un_empty_right)
      blast
qed simp

lemma sum_list_nonneg_zero:
  "\<forall>(n, a) \<in> set rs. 0 \<le> (a::int) \<Longrightarrow> sum_list (map snd rs) \<le> 0 \<Longrightarrow> \<forall>(n, a) \<in> set rs. a = 0"
proof (induction rs)
  case (Cons p rs)
  have "0 \<le> sum_list (map snd rs)" using Cons.prems(1) by (intro sum_list_nonneg) auto
  with Cons.prems have "snd p = 0" "sum_list (map snd rs) \<le> 0" by (cases p; simp)+
  with Cons show ?case by (cases p) simp
qed simp

lemma range_ids_zero: "\<forall>(n, a) \<in> set rs. a = 0 \<Longrightarrow> range_ids rs = {}"
  by (induction rs) auto

lemma take_id_None: "\<forall>(n, a) \<in> set rs. 0 \<le> (a::int) \<Longrightarrow> take_id rs = None \<Longrightarrow> sum_list (map snd rs) = 0"
  by (induction rs rule: take_id.induct) (auto split: if_splits)

lemma take_id_Some:
  assumes "take_id rs = Some (i, rs')" "disjoint_ranges rs" "\<forall>(n, a) \<in> set rs. 0 \<le> (a::int)"
  shows "i \<in> range_ids rs" "range_ids rs' = range_ids rs - {i}" "disjoint_ranges rs'"
    "\<forall>(n, a) \<in> set rs'. 0 \<le> (a::int)" "sum_list (map snd rs') = sum_list (map snd rs) - 1"
proof -
  have "i \<in> range_ids rs \<and> range_ids rs' = range_ids rs - {i} \<and> disjoint_ranges rs' \<and>
    (\<forall>(n, a) \<in> set rs'. 0 \<le> (a::int)) \<and> sum_list (map snd rs') = sum_list (map snd rs) - 1"
    using assms
  proof (induction rs rule: take_id.induct)
    case (2 n a rs)
    show ?case
    proof (cases "a > 0")
      case True
      with "2.prems" have eq: "i = n" "rs' = (n + 1, a - 1) # rs" by auto
      have n: "n \<in> {n..<n + a}" using True by simp
      have sub: "{n + 1..<n + 1 + (a - 1)} = {n..<n + a} - {n}" by auto
      have apart: "{n..<n + a} \<inter> range_ids rs = {}" "disjoint_ranges rs" using "2.prems"(2) by simp_all
      have "range_ids rs' = range_ids ((n, a) # rs) - {i}"
        unfolding eq range_ids.simps sub using n apart by blast
      moreover have "disjoint_ranges rs'"
        unfolding eq disjoint_ranges.simps sub using apart by blast
      ultimately show ?thesis using "2.prems"(3) True n unfolding eq by simp
    next
      case False
      then have "a = 0" using "2.prems"(3) by auto
      with "2.IH" "2.prems" False show ?thesis by auto
    qed
  qed simp
  then show "i \<in> range_ids rs" "range_ids rs' = range_ids rs - {i}" "disjoint_ranges rs'"
    "\<forall>(n, a) \<in> set rs'. 0 \<le> (a::int)" "sum_list (map snd rs') = sum_list (map snd rs) - 1"
    by blast+
qed

subsection \<open>The operations\<close>

lemma live_txD: "live_tx w \<Longrightarrow> \<exists>tx. w_tx w = Some tx \<and> tx_live tx"
  by (auto simp: live_tx_def split: option.splits)

lemma not_live_seq: "\<not> live_tx w \<Longrightarrow> tx_seq w = db_seq (w_db w)"
  by (auto simp: live_tx_def tx_seq_def split: option.splits)

text \<open>A reservation takes the counter's value and advances it, or leaves everything alone.\<close>

lemma reserveIds_cases:
  assumes "reserveIds grab w = (r, w')" "tx_seq w = [t]" "0 \<le> t" "t \<le> max_int64"
  obtains (reserved) tx k where "r = Ok t" "1 \<le> grab" "t + grab \<le> max_int64"
      "w_tx w = Some tx" "tx_live tx"
      "w' = w\<lparr>w_calls := k, w_tx := Some (tx\<lparr>tx_db := (tx_db tx)\<lparr>db_seq := [t + grab]\<rparr>\<rparr>)\<rparr>"
    | (failed) k where "\<forall>i. r \<noteq> Ok i" "w' = w\<lparr>w_calls := k\<rparr>"
proof (cases "w_tx w")
  case None
  then have "\<forall>i. r \<noteq> Ok i" "w' = w\<lparr>w_calls := w_calls w\<rparr>"
    using assms(1) by (auto simp: reserveIds_def bind_def open_tx_def run_simps split: if_splits)
  then show ?thesis by (rule failed)
next
  case (Some tx)
  show ?thesis
  proof (cases "tx_live tx")
    case False
    then have "\<forall>i. r \<noteq> Ok i" "w' = w\<lparr>w_calls := w_calls w\<rparr>"
      using assms(1) Some by (auto simp: reserveIds_def bind_def open_tx_def run_simps split: if_splits)
    then show ?thesis by (rule failed)
  next
    case live: True
    have seq: "db_seq (tx_db tx) = [t]" using assms(2) Some live by (simp add: tx_seq_def)
    have room: "wrap64 (max_int64 - t) = max_int64 - t" using assms(3,4) by (simp add: int64_def)
    show ?thesis
    proof (cases "1 \<le> grab \<and> grab \<le> max_int64 - t \<and> e_fault (w_env w) (w_calls w) = None \<and>
        e_fault (w_env w) (Suc (w_calls w)) = None \<and> \<not> tx_ro tx")
      case ok: True
      have sum: "wrap64 (t + grab) = t + grab" using assms(3) ok by (simp add: int64_def)
      from ok have "\<not> grab < 1" "\<not> grab > max_int64 - t" by auto
      then have "(r, w') = (Ok t, w\<lparr>w_calls := Suc (Suc (w_calls w)),
          w_tx := Some (tx\<lparr>tx_db := (tx_db tx)\<lparr>db_seq := [t + grab]\<rparr>\<rparr>)\<rparr>)"
        unfolding assms(1) [symmetric] using ok Some live seq room sum
        by (simp add: reserveIds_def bind_def open_tx_def engine_call_def exec_write_def run_simps
            Let_def del: wrap64_id)
      with ok Some live show ?thesis by (intro reserved) auto
    next
      case bad: False
      have "(\<forall>i. r \<noteq> Ok i) \<and> (\<exists>k. w' = w\<lparr>w_calls := k\<rparr>)"
      proof (cases "grab < 1 \<or> e_fault (w_env w) (w_calls w) \<noteq> None \<or> grab > max_int64 - t")
        case True
        then have "\<exists>e k. (r, w') = (Err e, w\<lparr>w_calls := k\<rparr>)"
          unfolding assms(1) [symmetric] using Some live seq room
          by (auto simp: reserveIds_def bind_def open_tx_def engine_call_def run_simps Let_def
              split: option.splits intro: exI [of _ "w_calls w"])
        then show ?thesis by auto
      next
        case False
        then have "\<exists>e k. (r, w') = (Err e, w\<lparr>w_calls := k\<rparr>)"
          unfolding assms(1) [symmetric] using Some live seq room bad
          by (auto simp: reserveIds_def bind_def open_tx_def engine_call_def exec_write_def run_simps
              Let_def split: option.splits)
        then show ?thesis by auto
      qed
      then show ?thesis using failed by blast
    qed
  qed
qed

text \<open>
  \<open>advances\<close>: the counters stay in order, the committed one does not go back, and the cache
  gains only ids above the old committed counter.
\<close>

definition advances :: "world \<Rightarrow> world \<Rightarrow> bool" where
  "advances w w' \<longleftrightarrow> (\<forall>s t. counters_ok w s t \<longrightarrow> (\<exists>s' t'. counters_ok w' s' t' \<and> s \<le> s' \<and>
     range_ids (al_ranges (w_alloc w')) \<subseteq> range_ids (al_ranges (w_alloc w)) \<union> {s..}))"

interpretation ids: frame advances
proof
  show "advances w w" for w unfolding advances_def by blast
next
  fix a b c
  assume ab: "advances a b" and bc: "advances b c"
  show "advances a c"
    unfolding advances_def
  proof (intro allI impI)
    fix s t
    assume "counters_ok a s t"
    with ab obtain s1 t1 where b: "counters_ok b s1 t1" "s \<le> s1"
      "range_ids (al_ranges (w_alloc b)) \<subseteq> range_ids (al_ranges (w_alloc a)) \<union> {s..}"
      unfolding advances_def by blast
    with bc obtain s2 t2 where c: "counters_ok c s2 t2" "s1 \<le> s2"
      "range_ids (al_ranges (w_alloc c)) \<subseteq> range_ids (al_ranges (w_alloc b)) \<union> {s1..}"
      unfolding advances_def by blast
    have "range_ids (al_ranges (w_alloc c)) \<subseteq> range_ids (al_ranges (w_alloc a)) \<union> {s..}"
      using b(2,3) c(3) by fastforce
    with b(2) c(1,2) show "\<exists>s' t'. counters_ok c s' t' \<and> s \<le> s' \<and>
        range_ids (al_ranges (w_alloc c)) \<subseteq> range_ids (al_ranges (w_alloc a)) \<union> {s..}"
      by (meson order_trans)
  qed
qed

lemma advancesI:
  assumes "w_alloc w' = w_alloc w"
    and "\<And>s t. counters_ok w s t \<Longrightarrow> \<exists>s' t'. s \<le> s' \<and> db_seq (w_db w') = [s'] \<and>
      tx_seq w' = [t'] \<and> s' \<le> t' \<and> t' \<le> max_int64"
  shows "advances w w'"
  unfolding advances_def
proof (intro allI impI)
  fix s t
  assume w: "counters_ok w s t"
  then obtain s' t' where "s \<le> s'" "db_seq (w_db w') = [s']" "tx_seq w' = [t']" "s' \<le> t'" "t' \<le> max_int64"
    using assms(2) by blast
  with w assms(1) have "counters_ok w' s' t'"
    by (auto simp: counters_ok_def cache_ok_def)
  with \<open>s \<le> s'\<close> assms(1) show "\<exists>s' t'. counters_ok w' s' t' \<and> s \<le> s' \<and>
      range_ids (al_ranges (w_alloc w')) \<subseteq> range_ids (al_ranges (w_alloc w)) \<union> {s..}"
    by auto
qed

text \<open>What the transaction operations do to the counters.\<close>

lemma begin_tx_cases:
  assumes "begin_tx ro w = (r, w')"
  shows "w_db w' = w_db w \<and> w_alloc w' = w_alloc w \<and>
    (tx_seq w' = tx_seq w \<or> tx_seq w' = db_seq (w_db w))"
  using assms
  by (auto simp: begin_tx_def bind_def engine_call_def run_simps Let_def tx_seq_def
      split: option.splits if_splits)

lemma tx_commit_cases:
  assumes "tx_commit w = (r, w')"
  obtains (commit) tx where "w_tx w = Some tx" "tx_live tx" "w_alloc w' = w_alloc w" "\<not> live_tx w'"
      "w_db w' = tx_db tx"
    | (lost) "r \<noteq> Ok ()" "w_alloc w' = w_alloc w" "w_db w' = w_db w" "\<not> live_tx w'"
proof (cases "w_tx w")
  case None
  then show ?thesis using assms lost
    by (auto simp: tx_commit_def bind_def open_tx_def live_tx_def)
next
  case (Some tx)
  show ?thesis
  proof (cases "tx_live tx")
    case True
    then show ?thesis using assms Some lost commit
      by (auto simp: tx_commit_def bind_def open_tx_def live_tx_def Let_def split: option.splits if_splits)
  next
    case False
    then show ?thesis using assms Some lost
      by (auto simp: tx_commit_def bind_def open_tx_def live_tx_def)
  qed
qed

lemma keeps_begin_tx: "keeps advances (begin_tx ro)"
proof (rule keepsI, rule advancesI)
  fix w r w' s t
  assume run: "begin_tx ro w = (r, w')"
  show "w_alloc w' = w_alloc w" using begin_tx_cases [OF run] by simp
  assume "counters_ok w s t"
  then show "\<exists>s' t'. s \<le> s' \<and> db_seq (w_db w') = [s'] \<and> tx_seq w' = [t'] \<and> s' \<le> t' \<and> t' \<le> max_int64"
    using begin_tx_cases [OF run] by (auto simp: counters_ok_def)
qed

lemma keeps_tx_commit: "keeps advances tx_commit"
proof (rule keepsI)
  fix w r w'
  assume run: "tx_commit w = (r, w')"
  from run show "advances w w'"
  proof (cases rule: tx_commit_cases)
    case (commit tx)
    then show ?thesis
      by (intro advancesI) (auto simp: counters_ok_def not_live_seq, auto simp: tx_seq_def)
  next
    case lost
    then show ?thesis by (intro advancesI) (auto simp: counters_ok_def not_live_seq)
  qed
qed

lemma tx_rollback_cases:
  assumes "tx_rollback w = (r, w')"
  shows "w_alloc w' = w_alloc w \<and> w_db w' = w_db w \<and> (\<not> live_tx w' \<or> tx_seq w' = tx_seq w)"
  using assms
  by (auto simp: tx_rollback_def Let_def live_tx_def tx_seq_def split: option.splits if_splits)

lemma keeps_tx_rollback: "keeps advances tx_rollback"
proof (rule keepsI, rule advancesI)
  fix w r w' s t
  assume run: "tx_rollback w = (r, w')"
  show "w_alloc w' = w_alloc w" using tx_rollback_cases [OF run] by simp
  assume "counters_ok w s t"
  then show "\<exists>s' t'. s \<le> s' \<and> db_seq (w_db w') = [s'] \<and> tx_seq w' = [t'] \<and> s' \<le> t' \<and> t' \<le> max_int64"
    using tx_rollback_cases [OF run] not_live_seq [of w'] by (auto simp: counters_ok_def)
qed

lemma tx_seq_calls [simp]: "tx_seq (w\<lparr>w_calls := k\<rparr>) = tx_seq w"
  by (cases "w_tx w") (simp_all add: tx_seq_def)

lemma keeps_reserveIds: "keeps advances (reserveIds grab)"
proof (rule keepsI)
  fix w r w'
  assume run: "reserveIds grab w = (r, w')"
  show "advances w w'"
    unfolding advances_def
  proof (intro allI impI)
    fix s t
    assume w: "counters_ok w s t"
    then have t: "tx_seq w = [t]" "0 \<le> t" "t \<le> max_int64" by (auto simp: counters_ok_def)
    from run t show "\<exists>s' t'. counters_ok w' s' t' \<and> s \<le> s' \<and>
      range_ids (al_ranges (w_alloc w')) \<subseteq> range_ids (al_ranges (w_alloc w)) \<union> {s..}"
    proof (cases rule: reserveIds_cases)
      case (reserved tx k)
      then have "counters_ok w' s (t + grab)" using w by (auto simp: counters_ok_def tx_seq_def)
      then show ?thesis using reserved by auto
    next
      case (failed k)
      then have "counters_ok w' s t" using w by (auto simp: counters_ok_def)
      then show ?thesis using failed by auto
    qed
  qed
qed

text \<open>The block reservation: only the committed block enters the cache.\<close>

definition cache_block :: "int \<Rightarrow> int \<Rightarrow> unit io" where
  "cache_block nxt grab = modify (\<lambda>w. w\<lparr>w_alloc := (w_alloc w)\<lparr>
     al_ranges := al_ranges (w_alloc w) @ [(nxt, grab)],
     al_total := al_total (w_alloc w) + grab\<rparr>\<rparr>)"

lemma cache_ok_block:
  assumes "cache_ok al s" "s \<le> t" "1 \<le> grab"
  shows "cache_ok (al\<lparr>al_ranges := al_ranges al @ [(t, grab)], al_total := al_total al + grab\<rparr>) (t + grab)"
proof -
  have "{t..<t + grab} \<inter> range_ids (al_ranges al) = {}"
    using assms(1,2) by (auto simp: cache_ok_def)
  moreover have "range_ids (al_ranges al) \<subseteq> {..<t + grab}"
    using assms by (auto simp: cache_ok_def)
  ultimately show ?thesis using assms
    by (simp add: cache_ok_def disjoint_ranges_snoc range_ids_append) auto
qed

lemma keeps_block:
  "keeps advances (bind (reserveIds grab) (\<lambda>nxt. bind tx_commit (\<lambda>_. cache_block nxt grab)))"
proof (rule keepsI)
  fix w r w'
  assume run: "bind (reserveIds grab) (\<lambda>nxt. bind tx_commit (\<lambda>_. cache_block nxt grab)) w = (r, w')"
  obtain r1 w1 where res: "reserveIds grab w = (r1, w1)" by fastforce
  obtain r2 w2 where com: "tx_commit w1 = (r2, w2)" by fastforce
  have a1: "advances w w1" using keepsD [OF keeps_reserveIds res] .
  have a2: "advances w1 w2" using keepsD [OF keeps_tx_commit com] .
  show "advances w w'"
  proof (cases "\<exists>i. r1 = Ok i \<and> r2 = Ok ()")
    case False
    then have "w' = w1 \<or> w' = w2"
      using run res com by (cases r1; cases r2) (auto simp: bind_def)
    with a1 ids.trans [OF a1 a2] show ?thesis by auto
  next
    case True
    then obtain nxt where ok: "r1 = Ok nxt" "r2 = Ok ()" by auto
    then have w': "w' = w2\<lparr>w_alloc := (w_alloc w2)\<lparr>al_ranges := al_ranges (w_alloc w2) @ [(nxt, grab)],
        al_total := al_total (w_alloc w2) + grab\<rparr>\<rparr>"
      using run res com by (simp add: bind_def cache_block_def run_simps)
    show ?thesis
      unfolding advances_def
    proof (intro allI impI)
      fix s t
      assume w: "counters_ok w s t"
      then have t: "tx_seq w = [t]" "0 \<le> t" "t \<le> max_int64" by (auto simp: counters_ok_def)
      from res t obtain tx k where r: "nxt = t" "1 \<le> grab" "t + grab \<le> max_int64" "w_tx w = Some tx"
        "w1 = w\<lparr>w_calls := k, w_tx := Some (tx\<lparr>tx_db := (tx_db tx)\<lparr>db_seq := [t + grab]\<rparr>\<rparr>)\<rparr>"
        by (cases rule: reserveIds_cases) (use ok in auto)
      from com have "w_alloc w2 = w_alloc w1 \<and> \<not> live_tx w2 \<and> db_seq (w_db w2) = [t + grab]"
        by (cases rule: tx_commit_cases) (use ok r in auto)
      then have c: "w_alloc w2 = w_alloc w1" "\<not> live_tx w2" "db_seq (w_db w2) = [t + grab]" by auto
      have al: "w_alloc w2 = w_alloc w" using c(1) r(5) by simp
      have "tx_seq w' = tx_seq w2" by (cases "w_tx w2") (simp_all add: tx_seq_def w')
      then have "tx_seq w' = [t + grab]" using c(2,3) by (simp add: not_live_seq)
      moreover have "cache_ok (w_alloc w') (t + grab)"
        using cache_ok_block [of "w_alloc w" s t grab] w r(1,2) by (simp add: w' al counters_ok_def)
      ultimately have "counters_ok w' (t + grab) (t + grab)"
        using w r c(3) by (simp add: counters_ok_def w')
      moreover have "range_ids (al_ranges (w_alloc w')) \<subseteq> range_ids (al_ranges (w_alloc w)) \<union> {s..}"
        using w r(1) by (auto simp: w' al range_ids_append counters_ok_def)
      moreover have "s \<le> t + grab" using w r(2) by (simp add: counters_ok_def)
      ultimately show "\<exists>s' t'. counters_ok w' s' t' \<and> s \<le> s' \<and>
          range_ids (al_ranges (w_alloc w')) \<subseteq> range_ids (al_ranges (w_alloc w)) \<union> {s..}"
        by blast
    qed
  qed
qed

lemma keeps_preallocateIds: "keeps advances preallocateIds"
  unfolding preallocateIds_def Let_def case_prod_beta cache_block_def [symmetric]
  by (intro ids.keeps_intros keeps_begin_tx keeps_tx_rollback keeps_block)

lemma keeps_newJob: "keeps advances (newJob ro)"
  unfolding newJob_def by (intro ids.keeps_intros keeps_preallocateIds keeps_begin_tx)

lemma keeps_job_done: "keeps advances job_done"
proof (rule keepsI, rule advancesI)
  fix w r w' s t
  assume run: "job_done w = (r, w')"
  then show "w_alloc w' = w_alloc w" by (auto simp: job_done_def run_simps)
  assume "counters_ok w s t"
  then show "\<exists>s' t'. s \<le> s' \<and> db_seq (w_db w') = [s'] \<and> tx_seq w' = [t'] \<and> s' \<le> t' \<and> t' \<le> max_int64"
    using run by (cases "w_tx w") (auto simp: job_done_def run_simps counters_ok_def tx_seq_def)
qed

lemma keeps_Commit: "keeps advances Commit"
  unfolding Commit_def by (intro ids.keeps_intros keeps_tx_commit keeps_job_done)

lemma keeps_Rollback: "keeps advances Rollback"
proof -
  have "keeps advances (bind job_done (\<lambda>_. tx_rollback))"
    by (intro ids.keeps_intros keeps_job_done keeps_tx_rollback)
  then show ?thesis
    by (auto simp: keeps_def Rollback_def ids.refl split: option.splits)
qed

subsection \<open>The theorem\<close>

lemma id_invI: "counters_ok w s t \<Longrightarrow> U \<subseteq> {..<s} \<Longrightarrow> P \<subseteq> {..<t} \<Longrightarrow>
    (U \<union> P) \<inter> range_ids (al_ranges (w_alloc w)) = {} \<Longrightarrow> id_inv (w, U, P)"
  by auto

lemma id_invE:
  assumes "id_inv (w, U, P)"
  obtains s t where "counters_ok w s t" "U \<subseteq> {..<s}" "P \<subseteq> {..<t}"
    "(U \<union> P) \<inter> range_ids (al_ranges (w_alloc w)) = {}"
  using assms by auto

lemma id_inv_advance:
  assumes "id_inv (w, U, P)" "advances w w'"
  shows "id_inv (w', U, {})"
proof -
  from assms(1) obtain s t where w: "counters_ok w s t" "U \<subseteq> {..<s}"
    and "(U \<union> P) \<inter> range_ids (al_ranges (w_alloc w)) = {}" by (rule id_invE)
  then have apart: "U \<inter> range_ids (al_ranges (w_alloc w)) = {}" by blast
  from w assms(2) obtain s' t' where "counters_ok w' s' t'" "s \<le> s'"
    "range_ids (al_ranges (w_alloc w')) \<subseteq> range_ids (al_ranges (w_alloc w)) \<union> {s..}"
    unfolding advances_def by blast
  moreover from this w(2) apart have "U \<inter> range_ids (al_ranges (w_alloc w')) = {}" by fastforce
  moreover have "U \<subseteq> {..<s'}" using w(2) \<open>s \<le> s'\<close> by auto
  ultimately show ?thesis by (intro id_invI [of w' s' t']) auto
qed

text \<open>One allocation: a new id, and the invariant with it.\<close>

lemma allocIdJob_Ok:
  assumes "id_inv (w, U, P)" "allocIdJob w = (Ok i, w')"
  shows "i \<notin> U \<union> P \<and> id_inv (w', U, insert i P)"
proof -
  from assms(1) obtain s t where w: "counters_ok w s t" and U: "U \<subseteq> {..<s}" and P: "P \<subseteq> {..<t}"
    and apart: "(U \<union> P) \<inter> range_ids (al_ranges (w_alloc w)) = {}" by auto
  let ?al = "w_alloc w"
  have cache: "disjoint_ranges (al_ranges ?al)" "range_ids (al_ranges ?al) \<subseteq> {..<s}"
    "\<forall>(n, a) \<in> set (al_ranges ?al). 0 \<le> a" "al_total ?al = sum_list (map snd (al_ranges ?al))"
    using w by (auto simp: counters_ok_def cache_ok_def)
  show ?thesis
  proof (cases "al_total ?al > 0")
    case True
    obtain rs where take: "take_id (al_ranges ?al) = Some (i, rs)"
      and w': "w' = w\<lparr>w_alloc := ?al\<lparr>al_ranges := rs, al_total := al_total ?al - 1\<rparr>\<rparr>"
      using assms(2) True by (auto simp: allocIdJob_def bind_def run_simps split: option.splits prod.splits)
    note t = take_id_Some [OF take cache(1,3)]
    have "cache_ok (w_alloc w') s"
      using w t cache by (auto simp: w' counters_ok_def cache_ok_def)
    moreover have "tx_seq w' = tx_seq w" by (cases "w_tx w") (simp_all add: w' tx_seq_def)
    ultimately have "counters_ok w' s t" using w by (auto simp: w' counters_ok_def)
    moreover have "i < s" "i \<notin> U \<union> P" using t(1) cache(2) apart by auto
    moreover have "insert i P \<subseteq> {..<t}" using P \<open>i < s\<close> w by (auto simp: counters_ok_def)
    moreover have "(U \<union> insert i P) \<inter> range_ids (al_ranges (w_alloc w')) = {}"
      using t(2) apart by (auto simp: w')
    ultimately show ?thesis using U by (intro conjI id_invI [of w' s t]) auto
  next
    case False
    then have empty: "range_ids (al_ranges ?al) = {}"
      using sum_list_nonneg_zero [OF cache(3)] cache(4) range_ids_zero by simp
    have run: "reserveIds 1 w = (Ok i, w')"
      using assms(2) False by (simp add: allocIdJob_def bind_def run_simps)
    have t: "tx_seq w = [t]" "0 \<le> t" "t \<le> max_int64" using w by (auto simp: counters_ok_def)
    from run t have r: "i = t \<and> t + 1 \<le> max_int64 \<and> tx_seq w' = [t + 1] \<and> w_db w' = w_db w \<and>
        w_alloc w' = w_alloc w"
      by (cases rule: reserveIds_cases) (auto simp: tx_seq_def)
    then have "counters_ok w' s (t + 1)" using w by (auto simp: counters_ok_def)
    moreover have "i \<notin> U \<union> P" using U P r w by (auto simp: counters_ok_def)
    moreover have "insert i P \<subseteq> {..<t + 1}" using P r by auto
    ultimately show ?thesis using U r empty by (intro conjI id_invI [of w' s "t + 1"]) auto
  qed
qed

lemma allocIdJob_failed:
  assumes "id_inv (w, U, P)" "allocIdJob w = (r, w')" "\<forall>i. r \<noteq> Ok i"
  shows "\<exists>k. w' = w\<lparr>w_calls := k\<rparr>"
proof (cases "al_total (w_alloc w) > 0")
  case True
  then have "w' = w\<lparr>w_calls := w_calls w\<rparr>"
    using assms(2,3) by (auto simp: allocIdJob_def bind_def run_simps split: option.splits prod.splits)
  then show ?thesis by blast
next
  case False
  then have run: "reserveIds 1 w = (r, w')"
    using assms(2) by (simp add: allocIdJob_def bind_def run_simps)
  from assms(1) obtain s t where "tx_seq w = [t]" "0 \<le> t" "t \<le> max_int64"
    by (auto simp: counters_ok_def)
  with run show ?thesis by (cases rule: reserveIds_cases) (use assms(3) in auto)
qed

lemma Commit_installs:
  assumes "Commit w = (r, w')" "r = Ok () \<or> w_db w' \<noteq> w_db w"
  shows "\<exists>tx. w_tx w = Some tx \<and> tx_live tx \<and> w_alloc w' = w_alloc w \<and> \<not> live_tx w' \<and> w_db w' = tx_db tx"
proof -
  obtain r1 w1 where com: "tx_commit w = (r1, w1)" by fastforce
  then have w': "w_db w' = w_db w1 \<and> w_alloc w' = w_alloc w1 \<and> live_tx w' = live_tx w1 \<and>
      (r = Ok () \<longrightarrow> r1 = Ok ())"
    using assms(1) by (cases r1; cases "w_tx w1")
      (auto simp: Commit_def bind_def job_done_def run_simps live_tx_def)
  from com show ?thesis
    by (cases rule: tx_commit_cases) (use w' assms(2) in auto)
qed

lemma id_inv_commit:
  assumes "id_inv (w, U, P)" "Commit w = (r, w')" "r = Ok () \<or> w_db w' \<noteq> w_db w"
  shows "id_inv (w', U \<union> P, {})"
proof -
  obtain tx where c: "w_tx w = Some tx" "tx_live tx" "w_alloc w' = w_alloc w" "\<not> live_tx w'"
    "w_db w' = tx_db tx" using Commit_installs [OF assms(2,3)] by blast
  from assms(1) obtain s t where w: "counters_ok w s t" "U \<subseteq> {..<s}" "P \<subseteq> {..<t}"
    "(U \<union> P) \<inter> range_ids (al_ranges (w_alloc w)) = {}" by auto
  have "tx_seq w = db_seq (tx_db tx)" using c(1,2) by (simp add: tx_seq_def)
  then have "counters_ok w' t t"
    using w(1) c by (auto simp: counters_ok_def not_live_seq cache_ok_def)
  moreover have "U \<union> P \<subseteq> {..<t}" using w by (auto simp: counters_ok_def)
  ultimately show ?thesis using w(4) c(3) by (intro id_invI [of w' t t]) auto
qed

lemma id_step_inv: "id_step x y \<Longrightarrow> id_inv x \<Longrightarrow> id_inv y"
proof (induction rule: id_step.induct)
  case (job w ro w' r U P)
  then show ?case using id_inv_advance keepsD [OF keeps_newJob] by blast
next
  case (alloc w i w' U P)
  then show ?case using allocIdJob_Ok by blast
next
  case (alloc_failed w r w' U P)
  then obtain k where "w' = w\<lparr>w_calls := k\<rparr>" using allocIdJob_failed by blast
  with alloc_failed.prems show ?case by (auto simp: counters_ok_def)
next
  case (other w' w U P)
  then show ?case by (auto simp: counters_ok_def)
next
  case (committed w w' U P)
  then show ?case using id_inv_commit by blast
next
  case (commit_lost w e w' U P)
  then show ?case using id_inv_advance keepsD [OF keeps_Commit] by blast
next
  case (commit_applied w e w' U P)
  then show ?case using id_inv_commit by blast
next
  case (rolled_back w r w' U P)
  then show ?case using id_inv_advance keepsD [OF keeps_Rollback] by blast
next
  case (elsewhere w s s' U P)
  let ?w' = "w\<lparr>w_db := (w_db w)\<lparr>db_seq := [s']\<rparr>\<rparr>"
  from elsewhere.prems obtain s0 t where inv: "counters_ok w s0 t" "U \<subseteq> {..<s0}" "P \<subseteq> {..<t}"
    "(U \<union> P) \<inter> range_ids (al_ranges (w_alloc w)) = {}" by (rule id_invE)
  with elsewhere.hyps have "s0 = s" "t = s" by (auto simp: counters_ok_def not_live_seq)
  with inv have w: "counters_ok w s s" "U \<subseteq> {..<s}" "P \<subseteq> {..<s}"
    "(U \<union> P) \<inter> range_ids (al_ranges (w_alloc w)) = {}" by auto
  have "\<not> live_tx ?w'" using elsewhere.hyps(1) by (simp add: live_tx_def)
  then have "counters_ok ?w' s' s'"
    using w(1) elsewhere.hyps by (auto simp: counters_ok_def not_live_seq cache_ok_def int64_def)
  moreover have "{s..<s'} \<inter> range_ids (al_ranges (w_alloc w)) = {}"
    using w(1) by (auto simp: counters_ok_def cache_ok_def)
  moreover have "U \<union> {s..<s'} \<subseteq> {..<s'}" "P \<subseteq> {..<s'}" using w elsewhere.hyps by auto
  ultimately show ?case using w(4) by (intro id_invI [of ?w' s' s']) auto
qed

lemma id_reachable_inv: "id_reachable w0 x \<Longrightarrow> fresh_server w0 \<Longrightarrow> id_inv x"
proof (induction rule: id_reachable.induct)
  case start
  then obtain s where "db_seq (w_db w0) = [s]" "0 \<le> s" "int64 s" by (auto simp: fresh_server_def)
  with start have "counters_ok w0 s s"
    by (auto simp: fresh_server_def counters_ok_def cache_ok_def not_live_seq int64_def
        split: option.splits)
  with start show ?case by (auto simp: fresh_server_def)
next
  case (step x y)
  then show ?case using id_step_inv by blast
qed

text \<open>C11. Along every run of a server, whatever calls fail and whatever commits turn out to have
  taken effect, an id that is allocated was not handed out in an earlier transaction that may
  have committed, by this or another server, nor before in the same transaction.\<close>

theorem allocated_id_is_new:
  assumes "fresh_server w0" "id_reachable w0 (w, U, P)" "AllocId w = (Ok i, w')"
  shows "i \<notin> U \<union> P"
  using allocIdJob_Ok id_reachable_inv assms unfolding AllocId_def by blast

text \<open>Twice from the cache: the second id differs from the first.\<close>

theorem allocated_id_is_new_witness:
  "\<exists>w w' U P. id_reachable (calm_world empty_db) (w, U, P) \<and> 1 \<in> P \<and> AllocId w = (Ok 2, w') \<and>
     2 \<notin> U \<union> P"
proof -
  let ?w0 = "calm_world empty_db"
  have fresh: "fresh_server ?w0"
    by (simp add: fresh_server_def calm_world_def empty_db_def new_alloc_def live_tx_def int64_def)
  obtain r w1 where job: "newJob False ?w0 = (r, w1)" by fastforce
  have w1: "al_ranges (w_alloc w1) = [(1, 10)] \<and> al_total (w_alloc w1) = 10"
    using job
    by (auto simp: newJob_def preallocateIds_def bind_def calm_world_def empty_db_def new_alloc_def
        calm_env_def getWatermark_def DefaultIdLowWaterMark_def DefaultIdHighWaterMark_def
        begin_tx_def engine_call_def deferred_def reserveIds_def open_tx_def exec_write_def
        tx_commit_def tx_rollback_def run_simps Let_def wrap64_def)
  obtain w2 where a1: "AllocId w1 = (Ok 1, w2)" and w2: "w_alloc w2 = (w_alloc w1)\<lparr>
      al_ranges := [(2, 9)], al_total := 9\<rparr>"
    using w1 by (auto simp: AllocId_def allocIdJob_def bind_def run_simps)
  obtain w3 where a2: "AllocId w2 = (Ok 2, w3)"
    using w2 by (auto simp: AllocId_def allocIdJob_def bind_def run_simps)
  have "id_reachable ?w0 (w1, {}, {})"
    by (rule id_reachable.step [OF id_reachable.start])
      (rule id_step.job [OF _ job], simp add: calm_world_def live_tx_def)
  then have reach: "id_reachable ?w0 (w2, {}, {1})"
    by (rule id_reachable.step) (rule id_step.alloc [OF a1 [unfolded AllocId_def]])
  from allocated_id_is_new [OF fresh reach a2] reach a2 show ?thesis by blast
qed

end
