(* ===== verification/Tables.thy ===== *)
theory Tables
  imports IdAlloc
begin

section \<open>Tables and jobs (be/schema/tables/tables.tab.go)\<close>

text \<open>
  The ten tables, each with its columns, its unique keys and the functions of the message
  that fill the columns, and the operations of \<open>Job\<close> on them. A row keeps the column values it
  was stored with and the message; the blob that holds the message in the program is the
  message itself here. An index type is the function that builds its value from
  optional column values, in the order of the fields of the generated struct.
\<close>

abbreviation int_col :: "int option \<Rightarrow> sqlval option" where
  "int_col \<equiv> map_option SInt"

abbreviation bytes_col :: "string option \<Rightarrow> sqlval option" where
  "bytes_col \<equiv> map_option SBytes"

subsection \<open>Pics\<close>

definition PicsPrimary :: "int option \<Rightarrow> idx" where
  "PicsPrimary i =
     [(''id'', int_col i)]"

definition PicsIndexOrder :: "int option \<Rightarrow> int option \<Rightarrow> idx" where
  "PicsIndexOrder ord i =
     [(''index_order'', int_col ord), (''id'', int_col i)]"

definition PicsScoreOrder :: "int option \<Rightarrow> int option \<Rightarrow> idx" where
  "PicsScoreOrder ord i =
     [(''score_order'', int_col ord), (''id'', int_col i)]"

definition PicsSchedOrder :: "int option \<Rightarrow> int option \<Rightarrow> idx" where
  "PicsSchedOrder ord i =
     [(''sched_order'', int_col ord), (''id'', int_col i)]"

definition pic_cols :: "env \<Rightarrow> pic \<Rightarrow> sqlval list res" where
  "pic_cols ev p =
     res_bind (IndexOrder p) (\<lambda>io. Ok [SInt (p_id p), SInt io,
       SInt (LowerScoreBound (e_wilson ev) p), SInt (UpperScoreBound (e_wilson ev) p)])"

definition pics_table :: "pic tabl" where
  "pics_table = \<lparr>tb_name = ''Pics'', tb_cols = [''id'', ''index_order'', ''score_order'', ''sched_order''],
     tb_vals = pic_cols,
     tb_get = db_pics, tb_put = (\<lambda>x d. d\<lparr>db_pics := x\<rparr>),
     tb_unique = [[''id'']]\<rparr>"

definition KeyForPic :: "pic \<Rightarrow> idx" where
  "KeyForPic p = PicsPrimary (Some (p_id p))"

definition FindPics :: "opts \<Rightarrow> pic list io" where
  "FindPics opt = find_rows pics_table opt"

definition InsertPic :: "pic \<Rightarrow> unit io" where
  "InsertPic p = insert_row pics_table p"

definition UpdatePic :: "pic \<Rightarrow> unit io" where
  "UpdatePic p = update_row pics_table (KeyForPic p) p"

definition DeletePic :: "idx \<Rightarrow> unit io" where
  "DeletePic key = delete_row pics_table key"

subsection \<open>Tags\<close>

definition TagsPrimary :: "int option \<Rightarrow> idx" where
  "TagsPrimary i =
     [(''id'', int_col i)]"

definition TagsName :: "string option \<Rightarrow> idx" where
  "TagsName name =
     [(''name'', bytes_col name)]"

definition tags_table :: "tag tabl" where
  "tags_table = \<lparr>tb_name = ''Tags'', tb_cols = [''id'', ''name''],
     tb_vals = (\<lambda>ev t. res_map (\<lambda>u. [SInt (t_id t), SBytes u]) (TagUniqueName (e_text ev) (t_name t))),
     tb_get = db_tags, tb_put = (\<lambda>x d. d\<lparr>db_tags := x\<rparr>),
     tb_unique = [[''name''], [''id'']]\<rparr>"

definition KeyForTag :: "tag \<Rightarrow> idx" where
  "KeyForTag t = TagsPrimary (Some (t_id t))"

definition FindTags :: "opts \<Rightarrow> tag list io" where
  "FindTags opt = find_rows tags_table opt"

definition InsertTag :: "tag \<Rightarrow> unit io" where
  "InsertTag t = insert_row tags_table t"

definition UpdateTag :: "tag \<Rightarrow> unit io" where
  "UpdateTag t = update_row tags_table (KeyForTag t) t"

definition DeleteTag :: "idx \<Rightarrow> unit io" where
  "DeleteTag key = delete_row tags_table key"

subsection \<open>PicTags\<close>

definition PicTagsPrimary :: "int option \<Rightarrow> int option \<Rightarrow> idx" where
  "PicTagsPrimary pic tag =
     [(''pic_id'', int_col pic), (''tag_id'', int_col tag)]"

definition pictags_table :: "pic_tag tabl" where
  "pictags_table = \<lparr>tb_name = ''PicTags'', tb_cols = [''pic_id'', ''tag_id''],
     tb_vals = (\<lambda>ev t. Ok [SInt (pt_pic t), SInt (pt_tag t)]),
     tb_get = db_pictags, tb_put = (\<lambda>x d. d\<lparr>db_pictags := x\<rparr>),
     tb_unique = [[''pic_id'', ''tag_id'']]\<rparr>"

definition KeyForPicTag :: "pic_tag \<Rightarrow> idx" where
  "KeyForPicTag t = PicTagsPrimary (Some (pt_pic t)) (Some (pt_tag t))"

definition FindPicTags :: "opts \<Rightarrow> pic_tag list io" where
  "FindPicTags opt = find_rows pictags_table opt"

definition InsertPicTag :: "pic_tag \<Rightarrow> unit io" where
  "InsertPicTag t = insert_row pictags_table t"

definition UpdatePicTag :: "pic_tag \<Rightarrow> unit io" where
  "UpdatePicTag t = update_row pictags_table (KeyForPicTag t) t"

definition DeletePicTag :: "idx \<Rightarrow> unit io" where
  "DeletePicTag key = delete_row pictags_table key"

subsection \<open>PicIdents\<close>

definition PicIdentsPrimary :: "int option \<Rightarrow> int option \<Rightarrow> string option \<Rightarrow> idx" where
  "PicIdentsPrimary pic typ val =
     [(''pic_id'', int_col pic), (''type'', int_col typ), (''value'', bytes_col val)]"

definition PicIdentsIdent :: "int option \<Rightarrow> string option \<Rightarrow> idx" where
  "PicIdentsIdent typ val =
     [(''type'', int_col typ), (''value'', bytes_col val)]"

definition idents_table :: "pic_ident tabl" where
  "idents_table = \<lparr>tb_name = ''PicIdents'', tb_cols = [''pic_id'', ''type'', ''value''],
     tb_vals = (\<lambda>ev i. Ok [SInt (pi_pic i), SInt (pi_type i), SBytes (pi_value i)]),
     tb_get = db_idents, tb_put = (\<lambda>x d. d\<lparr>db_idents := x\<rparr>),
     tb_unique = [[''pic_id'', ''type'', ''value'']]\<rparr>"

definition KeyForPicIdent :: "pic_ident \<Rightarrow> idx" where
  "KeyForPicIdent i = PicIdentsPrimary (Some (pi_pic i)) (Some (pi_type i)) (Some (pi_value i))"

definition FindPicIdents :: "opts \<Rightarrow> pic_ident list io" where
  "FindPicIdents opt = find_rows idents_table opt"

definition InsertPicIdent :: "pic_ident \<Rightarrow> unit io" where
  "InsertPicIdent i = insert_row idents_table i"

definition UpdatePicIdent :: "pic_ident \<Rightarrow> unit io" where
  "UpdatePicIdent i = update_row idents_table (KeyForPicIdent i) i"

definition DeletePicIdent :: "idx \<Rightarrow> unit io" where
  "DeletePicIdent key = delete_row idents_table key"

subsection \<open>PicComments\<close>

definition PicCommentsPrimary :: "int option \<Rightarrow> int option \<Rightarrow> idx" where
  "PicCommentsPrimary pic comment =
     [(''pic_id'', int_col pic), (''comment_id'', int_col comment)]"

definition PicCommentsCommentId :: "int option \<Rightarrow> idx" where
  "PicCommentsCommentId comment =
     [(''comment_id'', int_col comment)]"

definition comments_table :: "pic_comment tabl" where
  "comments_table = \<lparr>tb_name = ''PicComments'', tb_cols = [''pic_id'', ''comment_id''],
     tb_vals = (\<lambda>ev c. Ok [SInt (pc_pic c), SInt (pc_id c)]),
     tb_get = db_comments, tb_put = (\<lambda>x d. d\<lparr>db_comments := x\<rparr>),
     tb_unique = [[''comment_id''], [''pic_id'', ''comment_id'']]\<rparr>"

definition KeyForPicComment :: "pic_comment \<Rightarrow> idx" where
  "KeyForPicComment c = PicCommentsPrimary (Some (pc_pic c)) (Some (pc_id c))"

definition FindPicComments :: "opts \<Rightarrow> pic_comment list io" where
  "FindPicComments opt = find_rows comments_table opt"

definition InsertPicComment :: "pic_comment \<Rightarrow> unit io" where
  "InsertPicComment c = insert_row comments_table c"

definition UpdatePicComment :: "pic_comment \<Rightarrow> unit io" where
  "UpdatePicComment c = update_row comments_table (KeyForPicComment c) c"

definition DeletePicComment :: "idx \<Rightarrow> unit io" where
  "DeletePicComment key = delete_row comments_table key"

subsection \<open>PicVotes\<close>

definition PicVotesPrimary :: "int option \<Rightarrow> int option \<Rightarrow> int option \<Rightarrow> idx" where
  "PicVotesPrimary pic usr i =
     [(''pic_id'', int_col pic), (''user_id'', int_col usr), (''index'', int_col i)]"

definition PicVotesUserId :: "int option \<Rightarrow> int option \<Rightarrow> int option \<Rightarrow> idx" where
  "PicVotesUserId usr pic i =
     [(''user_id'', int_col usr), (''pic_id'', int_col pic), (''index'', int_col i)]"

definition votes_table :: "pic_vote tabl" where
  "votes_table = \<lparr>tb_name = ''PicVotes'', tb_cols = [''pic_id'', ''user_id'', ''index''],
     tb_vals = (\<lambda>ev v. Ok [SInt (pv_pic v), SInt (pv_user v), SInt (pv_index v)]),
     tb_get = db_votes, tb_put = (\<lambda>x d. d\<lparr>db_votes := x\<rparr>),
     tb_unique = [[''user_id'', ''pic_id'', ''index''], [''pic_id'', ''user_id'', ''index'']]\<rparr>"

definition KeyForPicVote :: "pic_vote \<Rightarrow> idx" where
  "KeyForPicVote v = PicVotesPrimary (Some (pv_pic v)) (Some (pv_user v)) (Some (pv_index v))"

definition FindPicVotes :: "opts \<Rightarrow> pic_vote list io" where
  "FindPicVotes opt = find_rows votes_table opt"

definition InsertPicVote :: "pic_vote \<Rightarrow> unit io" where
  "InsertPicVote v = insert_row votes_table v"

definition UpdatePicVote :: "pic_vote \<Rightarrow> unit io" where
  "UpdatePicVote v = update_row votes_table (KeyForPicVote v) v"

definition DeletePicVote :: "idx \<Rightarrow> unit io" where
  "DeletePicVote key = delete_row votes_table key"

subsection \<open>PicCommentVotes\<close>

definition PicCommentVotesPrimary :: "int option \<Rightarrow> int option \<Rightarrow> int option \<Rightarrow> int option \<Rightarrow> idx" where
  "PicCommentVotesPrimary pic comment usr i =
     [(''pic_id'', int_col pic), (''comment_id'', int_col comment), (''user_id'', int_col usr), (''index'', int_col i)]"

definition cvotes_table :: "pic_comment_vote tabl" where
  "cvotes_table = \<lparr>tb_name = ''PicCommentVotes'', tb_cols = [''pic_id'', ''comment_id'', ''user_id'', ''index''],
     tb_vals = (\<lambda>ev v. Ok [SInt (pcv_pic v), SInt (pcv_comment v), SInt (pcv_user v), SInt (pcv_index v)]),
     tb_get = db_cvotes, tb_put = (\<lambda>x d. d\<lparr>db_cvotes := x\<rparr>),
     tb_unique = [[''pic_id'', ''comment_id'', ''user_id'', ''index'']]\<rparr>"

definition KeyForPicCommentVote :: "pic_comment_vote \<Rightarrow> idx" where
  "KeyForPicCommentVote v = PicCommentVotesPrimary (Some (pcv_pic v)) (Some (pcv_comment v)) (Some (pcv_user v)) (Some (pcv_index v))"

definition FindPicCommentVotes :: "opts \<Rightarrow> pic_comment_vote list io" where
  "FindPicCommentVotes opt = find_rows cvotes_table opt"

definition InsertPicCommentVote :: "pic_comment_vote \<Rightarrow> unit io" where
  "InsertPicCommentVote v = insert_row cvotes_table v"

definition UpdatePicCommentVote :: "pic_comment_vote \<Rightarrow> unit io" where
  "UpdatePicCommentVote v = update_row cvotes_table (KeyForPicCommentVote v) v"

definition DeletePicCommentVote :: "idx \<Rightarrow> unit io" where
  "DeletePicCommentVote key = delete_row cvotes_table key"

subsection \<open>Users\<close>

definition UsersPrimary :: "int option \<Rightarrow> idx" where
  "UsersPrimary i =
     [(''id'', int_col i)]"

definition UsersIdent :: "string option \<Rightarrow> idx" where
  "UsersIdent ident =
     [(''ident'', bytes_col ident)]"

definition users_table :: "user tabl" where
  "users_table = \<lparr>tb_name = ''Users'', tb_cols = [''id'', ''ident''],
     tb_vals = (\<lambda>ev u. res_map (\<lambda>k. [SInt (u_id u), SBytes k]) (UserUniqueIdent (e_text ev) (u_ident u))),
     tb_get = db_users, tb_put = (\<lambda>x d. d\<lparr>db_users := x\<rparr>),
     tb_unique = [[''ident''], [''id'']]\<rparr>"

definition KeyForUser :: "user \<Rightarrow> idx" where
  "KeyForUser u = UsersPrimary (Some (u_id u))"

definition FindUsers :: "opts \<Rightarrow> user list io" where
  "FindUsers opt = find_rows users_table opt"

definition InsertUser :: "user \<Rightarrow> unit io" where
  "InsertUser u = insert_row users_table u"

definition UpdateUser :: "user \<Rightarrow> unit io" where
  "UpdateUser u = update_row users_table (KeyForUser u) u"

definition DeleteUser :: "idx \<Rightarrow> unit io" where
  "DeleteUser key = delete_row users_table key"

subsection \<open>UserEvents\<close>

definition UserEventsPrimary :: "int option \<Rightarrow> int option \<Rightarrow> int option \<Rightarrow> idx" where
  "UserEventsPrimary usr created i =
     [(''user_id'', int_col usr), (''created_ts'', int_col created), (''index'', int_col i)]"

definition events_table :: "user_event tabl" where
  "events_table = \<lparr>tb_name = ''UserEvents'', tb_cols = [''user_id'', ''created_ts'', ''index''],
     tb_vals = (\<lambda>ev e. res_map (\<lambda>ts. [SInt (ue_user e), SInt ts, SInt (ue_index e)])
       (UserEventCreatedTsCol (ue_created e))),
     tb_get = db_events, tb_put = (\<lambda>x d. d\<lparr>db_events := x\<rparr>),
     tb_unique = [[''user_id'', ''created_ts'', ''index'']]\<rparr>"

text \<open>\<open>KeyForUserEvent\<close> converts the creation time, so that it can panic.\<close>

definition KeyForUserEvent :: "user_event \<Rightarrow> idx res" where
  "KeyForUserEvent e =
     res_map (\<lambda>ts. UserEventsPrimary (Some (ue_user e)) (Some ts) (Some (ue_index e)))
       (UserEventCreatedTsCol (ue_created e))"

definition FindUserEvents :: "opts \<Rightarrow> user_event list io" where
  "FindUserEvents opt = find_rows events_table opt"

definition InsertUserEvent :: "user_event \<Rightarrow> unit io" where
  "InsertUserEvent e = insert_row events_table e"

definition UpdateUserEvent :: "user_event \<Rightarrow> unit io" where
  "UpdateUserEvent e = bind (lift_res (KeyForUserEvent e)) (\<lambda>key. update_row events_table key e)"

definition DeleteUserEvent :: "idx \<Rightarrow> unit io" where
  "DeleteUserEvent key = delete_row events_table key"

subsection \<open>CustomData\<close>

definition CustomDataPrimary :: "int option \<Rightarrow> int option \<Rightarrow> int option \<Rightarrow> int option \<Rightarrow> int option \<Rightarrow> int option \<Rightarrow> idx" where
  "CustomDataPrimary typ k1 k2 k3 k4 k5 =
     [(''key_type'', int_col typ), (''key1'', int_col k1), (''key2'', int_col k2), (''key3'', int_col k3), (''key4'', int_col k4), (''key5'', int_col k5)]"

definition custom_table :: "custom_data tabl" where
  "custom_table = \<lparr>tb_name = ''CustomData'', tb_cols = [''key_type'', ''key1'', ''key2'', ''key3'', ''key4'', ''key5''],
     tb_vals = (\<lambda>ev c. Ok [SInt (cd_type c), SInt (cd_key1 c), SInt (cd_key2 c), SInt (cd_key3 c),
       SInt (cd_key4 c), SInt (cd_key5 c)]),
     tb_get = db_custom, tb_put = (\<lambda>x d. d\<lparr>db_custom := x\<rparr>),
     tb_unique = [[''key_type'', ''key1'', ''key2'', ''key3'', ''key4'', ''key5'']]\<rparr>"

definition KeyForCustomData :: "custom_data \<Rightarrow> idx" where
  "KeyForCustomData c = CustomDataPrimary (Some (cd_type c)) (Some (cd_key1 c)) (Some (cd_key2 c))
     (Some (cd_key3 c)) (Some (cd_key4 c)) (Some (cd_key5 c))"

definition FindCustomData :: "opts \<Rightarrow> custom_data list io" where
  "FindCustomData opt = find_rows custom_table opt"

definition InsertCustomData :: "custom_data \<Rightarrow> unit io" where
  "InsertCustomData c = insert_row custom_table c"

definition UpdateCustomData :: "custom_data \<Rightarrow> unit io" where
  "UpdateCustomData c = update_row custom_table (KeyForCustomData c) c"

definition DeleteCustomData :: "idx \<Rightarrow> unit io" where
  "DeleteCustomData key = delete_row custom_table key"

lemmas table_defs = pics_table_def tags_table_def pictags_table_def idents_table_def
  comments_table_def votes_table_def cvotes_table_def users_table_def events_table_def
  custom_table_def

lemmas index_defs = PicsPrimary_def PicsIndexOrder_def PicsScoreOrder_def PicsSchedOrder_def
  TagsPrimary_def TagsName_def PicTagsPrimary_def PicIdentsPrimary_def PicIdentsIdent_def
  PicCommentsPrimary_def PicCommentsCommentId_def PicVotesPrimary_def PicVotesUserId_def
  PicCommentVotesPrimary_def UsersPrimary_def UsersIdent_def UserEventsPrimary_def
  CustomDataPrimary_def

lemmas find_defs = FindPics_def FindTags_def FindPicTags_def FindPicIdents_def FindPicComments_def
  FindPicVotes_def FindPicCommentVotes_def FindUsers_def FindUserEvents_def FindCustomData_def

lemmas insert_defs = InsertPic_def InsertTag_def InsertPicTag_def InsertPicIdent_def
  InsertPicComment_def InsertPicVote_def InsertPicCommentVote_def InsertUser_def
  InsertUserEvent_def InsertCustomData_def

lemmas update_defs = UpdatePic_def UpdateTag_def UpdatePicTag_def UpdatePicIdent_def
  UpdatePicComment_def UpdatePicVote_def UpdatePicCommentVote_def UpdateUser_def
  UpdateUserEvent_def UpdateCustomData_def

lemmas delete_defs = DeletePic_def DeleteTag_def DeletePicTag_def DeletePicIdent_def
  DeletePicComment_def DeletePicVote_def DeletePicCommentVote_def DeleteUser_def
  DeleteUserEvent_def DeleteCustomData_def

lemmas key_defs = KeyForPic_def KeyForTag_def KeyForPicTag_def KeyForPicIdent_def
  KeyForPicComment_def KeyForPicVote_def KeyForPicCommentVote_def KeyForUser_def
  KeyForUserEvent_def KeyForCustomData_def

end
