(* ===== verification/JobFacts.thy ===== *)
theory JobFacts
  imports Tables SqlFacts
begin

section \<open>Facts about jobs\<close>

text \<open>
  What a task relies on when it works on the tables: what a find returns, what a write does
  to the rows, that everything but a commit leaves the committed database alone, and that
  every operation keeps the integrity of the tables: the columns of a row are those of
  its message, and no two rows agree on a unique key.
\<close>

subsection \<open>Integrity\<close>

definition rows_fit :: "'r tabl \<Rightarrow> env \<Rightarrow> 'r trow list \<Rightarrow> bool" where
  "rows_fit T ev rows \<longleftrightarrow> (\<forall>r \<in> set rows. tb_vals T ev (tr_data r) = Ok (tr_vals r)) \<and>
     (\<forall>key \<in> set (tb_unique T). distinct (map (\<lambda>r. map (col_of (tb_cols T) r) key) rows))"

definition db_fits :: "env \<Rightarrow> database \<Rightarrow> bool" where
  "db_fits ev d \<longleftrightarrow> rows_fit pics_table ev (db_pics d) \<and> rows_fit tags_table ev (db_tags d) \<and>
     rows_fit pictags_table ev (db_pictags d) \<and> rows_fit idents_table ev (db_idents d) \<and>
     rows_fit comments_table ev (db_comments d) \<and> rows_fit votes_table ev (db_votes d) \<and>
     rows_fit cvotes_table ev (db_cvotes d) \<and> rows_fit users_table ev (db_users d) \<and>
     rows_fit events_table ev (db_events d) \<and> rows_fit custom_table ev (db_custom d)"

definition fits :: "world \<Rightarrow> bool" where
  "fits w \<longleftrightarrow> db_fits (w_env w) (w_db w) \<and>
     (case w_tx w of None \<Rightarrow> True | Some tx \<Rightarrow> db_fits (w_env w) (tx_db tx))"

definition keeps_fit :: "world \<Rightarrow> world \<Rightarrow> bool" where
  "keeps_fit w w' \<longleftrightarrow> w_env w' = w_env w \<and> (fits w \<longrightarrow> fits w')"

interpretation fit: frame keeps_fit
  by unfold_locales (auto simp: keeps_fit_def)

lemma violates_iff: "violates T row rows \<longleftrightarrow>
    (\<exists>key \<in> set (tb_unique T). map (col_of (tb_cols T) row) key \<in>
      set (map (\<lambda>r. map (col_of (tb_cols T) r) key) rows))"
proof -
  have "same_cols (tb_cols T) key row r \<longleftrightarrow>
      map (col_of (tb_cols T) row) key = map (col_of (tb_cols T) r) key" for key r
    by (auto simp: same_cols_def list_all_iff)
  then show ?thesis by (auto simp: violates_def list_ex_iff image_iff)
qed

lemma exec_write_fits:
  assumes "\<forall>d d'. db_fits (w_env w) d \<longrightarrow> f d = Ok d' \<longrightarrow> db_fits (w_env w) d'"
    and "exec_write f w = (r, w')"
  shows "keeps_fit w w'"
  using assms
  by (auto simp: exec_write_def bind_def open_tx_def engine_call_def run_simps Let_def keeps_fit_def
      fits_def split: option.splits if_splits res.splits)

text \<open>
  A table the jobs work on: its rows are read and written in one field of the database, and
  the integrity of the database is that of its tables.
\<close>

locale keyed_table =
  fixes T :: "'r tabl"
  assumes get_put: "tb_get T (tb_put T x d) = x"
    and fits_get: "db_fits ev d \<Longrightarrow> rows_fit T ev (tb_get T d)"
    and fits_put: "db_fits ev d \<Longrightarrow> rows_fit T ev x \<Longrightarrow> db_fits ev (tb_put T x d)"
begin

lemma insert_fits:
  assumes "rows_fit T ev rows" "tb_vals T ev r = Ok vals" "\<not> violates T \<lparr>tr_vals = vals, tr_data = r\<rparr> rows"
  shows "rows_fit T ev (rows @ [\<lparr>tr_vals = vals, tr_data = r\<rparr>])"
  using assms by (auto simp: rows_fit_def violates_iff)

lemma delete_fits: "rows_fit T ev rows \<Longrightarrow> rows_fit T ev (filter P rows)"
  by (auto simp: rows_fit_def distinct_map_filter)

lemma replace_one:
  assumes "distinct (map f xs)" "\<forall>x \<in> set xs. hit x \<longrightarrow> f x = v" "\<forall>x \<in> set xs. f x = v \<longrightarrow> hit x"
    "list_ex hit xs"
  shows "\<exists>as b bs. xs = as @ b # bs \<and> map (\<lambda>x. if hit x then y else x) xs = as @ y # bs \<and>
    filter (\<lambda>x. \<not> hit x) xs = as @ bs"
proof -
  from assms(4) obtain b where "b \<in> set xs" "hit b" by (auto simp: list_ex_iff)
  then obtain as bs where xs: "xs = as @ b # bs" by (meson split_list)
  have "\<not> hit x" if "x \<in> set (as @ bs)" for x
  proof
    assume "hit x"
    then have "f x = f b" using assms(2) xs that \<open>hit b\<close> by auto
    with assms(1) that show False unfolding xs by (auto simp: image_iff)
  qed
  then have "map (\<lambda>x. if hit x then y else x) as = as" "map (\<lambda>x. if hit x then y else x) bs = bs"
    "filter (\<lambda>x. \<not> hit x) as = as" "filter (\<lambda>x. \<not> hit x) bs = bs"
    by (auto intro!: map_idI filter_True)
  with xs \<open>hit b\<close> show ?thesis by auto
qed

lemma update_fits:
  assumes "rows_fit T ev rows" "tb_vals T ev r = Ok vals" "key \<in> set (tb_unique T)"
  defines "row \<equiv> \<lparr>tr_vals = vals, tr_data = r\<rparr>"
  fixes kvals
  defines "hit \<equiv> matches_key (tb_cols T) key kvals"
  assumes "\<not> (list_ex hit rows \<and> violates T row (filter (\<lambda>x. \<not> hit x) rows))"
  shows "rows_fit T ev (map (\<lambda>x. if hit x then row else x) rows)"
proof (cases "list_ex hit rows")
  case False
  then have "map (\<lambda>x. if hit x then row else x) rows = rows"
    by (intro map_idI) (auto simp: list_ex_iff)
  then show ?thesis using assms(1) by simp
next
  case True
  have "distinct (map (\<lambda>r. map (col_of (tb_cols T) r) key) rows)"
    using assms(1,3) by (simp add: rows_fit_def)
  then obtain as b bs where split: "rows = as @ b # bs"
    "map (\<lambda>x. if hit x then row else x) rows = as @ row # bs" "filter (\<lambda>x. \<not> hit x) rows = as @ bs"
    using replace_one [of "\<lambda>r. map (col_of (tb_cols T) r) key" rows hit kvals row] True
    by (auto simp: hit_def matches_key_def)
  have "\<not> violates T row (as @ bs)" using assms(6) True split(3) by simp
  then show ?thesis
    using assms(1,2) unfolding split(2) unfolding split(1)
    by (auto simp: rows_fit_def violates_iff row_def)
qed

lemma keeps_fit_insert: "keeps keeps_fit (insert_row T r)"
proof (rule keepsI)
  fix w res w'
  assume run: "insert_row T r w = (res, w')"
  show "keeps_fit w w'"
  proof (cases "tb_vals T (w_env w) r")
    case (Ok vals)
    let ?f = "\<lambda>d. let row = \<lparr>tr_vals = vals, tr_data = r\<rparr>
       in if violates T row (tb_get T d) then Err (sql_error UniqueViolation ''can't exec'')
          else Ok (tb_put T (tb_get T d @ [row]) d)"
    have "w' = w \<or> exec_write ?f w = (res, w')"
      using run Ok by (cases "check_cols (tb_cols T) vals") (auto simp: insert_row_def bind_def run_simps)
    moreover have "db_fits (w_env w) d'" if "db_fits (w_env w) d" "?f d = Ok d'" for d d'
      using that Ok insert_fits fits_get fits_put by (auto simp: Let_def split: if_splits)
    then have "keeps_fit w w'" if "exec_write ?f w = (res, w')"
      by (intro exec_write_fits [OF _ that]) blast
    ultimately show ?thesis by (elim disjE) (simp_all add: fit.refl)
  qed (use run in \<open>auto simp: insert_row_def bind_def run_simps fit.refl\<close>)
qed

lemma keeps_fit_update:
  assumes "Cols key \<in> set (tb_unique T)"
  shows "keeps keeps_fit (update_row T key r)"
proof (rule keepsI)
  fix w res w'
  assume run: "update_row T key r w = (res, w')"
  show "keeps_fit w w'"
  proof (cases "tb_vals T (w_env w) r")
    case (Ok vals)
    let ?f = "\<lambda>kvals d. let row = \<lparr>tr_vals = vals, tr_data = r\<rparr>;
           hit = matches_key (tb_cols T) (Cols key) kvals;
           rows = tb_get T d
       in if list_ex hit rows \<and> violates T row (filter (\<lambda>x. \<not> hit x) rows)
          then Err (sql_error UniqueViolation ''can't exec'')
          else Ok (tb_put T (map (\<lambda>x. if hit x then row else x) rows) d)"
    have "w' = w \<or> (\<exists>kvals. exec_write (?f kvals) w = (res, w'))"
      using run Ok
      by (cases "check_cols (tb_cols T) vals"; cases "Vals key";
          cases "check_cols (Cols key) (case Vals key of Ok v \<Rightarrow> v | _ \<Rightarrow> [])")
        (auto simp: update_row_def bind_def run_simps)
    moreover have "db_fits (w_env w) d'" if "db_fits (w_env w) d" "?f kvals d = Ok d'" for kvals d d'
    proof -
      let ?hit = "matches_key (tb_cols T) (Cols key) kvals"
      have "d' = tb_put T (map (\<lambda>x. if ?hit x then \<lparr>tr_vals = vals, tr_data = r\<rparr> else x) (tb_get T d)) d"
        and "\<not> (list_ex ?hit (tb_get T d) \<and> violates T \<lparr>tr_vals = vals, tr_data = r\<rparr>
          (filter (\<lambda>x. \<not> ?hit x) (tb_get T d)))"
        using that(2) by (auto simp: Let_def split: if_splits)
      then show ?thesis
        using update_fits [OF fits_get [OF that(1)] Ok assms] fits_put [OF that(1)] by simp
    qed
    then have "keeps_fit w w'" if "exec_write (?f kvals) w = (res, w')" for kvals
      by (intro exec_write_fits [OF _ that]) blast
    ultimately show ?thesis by (elim disjE exE) (simp_all add: fit.refl)
  qed (use run in \<open>auto simp: update_row_def bind_def run_simps fit.refl\<close>)
qed

lemma keeps_fit_delete: "keeps keeps_fit (delete_row T key)"
proof (rule keepsI)
  fix w res w'
  assume run: "delete_row T key w = (res, w')"
  let ?f = "\<lambda>kvals d. Ok (tb_put T (filter (\<lambda>x. \<not> matches_key (tb_cols T) (Cols key) kvals x)
      (tb_get T d)) d)"
  have "w' = w \<or> (\<exists>kvals. exec_write (?f kvals) w = (res, w'))"
    using run
    by (cases "Vals key"; cases "check_cols (Cols key) (case Vals key of Ok v \<Rightarrow> v | _ \<Rightarrow> [])")
      (auto simp: delete_row_def bind_def run_simps)
  moreover have "db_fits (w_env w) d'" if "db_fits (w_env w) d" "?f kvals d = Ok d'" for kvals d d'
    using that delete_fits fits_get fits_put by auto
  then have "keeps_fit w w'" if "exec_write (?f kvals) w = (res, w')" for kvals
    by (intro exec_write_fits [OF _ that]) blast
  ultimately show "keeps_fit w w'" by (elim disjE exE) (simp_all add: fit.refl)
qed

end

interpretation pics: keyed_table pics_table
  by unfold_locales (simp_all add: pics_table_def db_fits_def)

interpretation tags: keyed_table tags_table
  by unfold_locales (simp_all add: tags_table_def db_fits_def)

interpretation pictags: keyed_table pictags_table
  by unfold_locales (simp_all add: pictags_table_def db_fits_def)

interpretation idents: keyed_table idents_table
  by unfold_locales (simp_all add: idents_table_def db_fits_def)

interpretation comments: keyed_table comments_table
  by unfold_locales (simp_all add: comments_table_def db_fits_def)

interpretation votes: keyed_table votes_table
  by unfold_locales (simp_all add: votes_table_def db_fits_def)

interpretation cvotes: keyed_table cvotes_table
  by unfold_locales (simp_all add: cvotes_table_def db_fits_def)

interpretation users: keyed_table users_table
  by unfold_locales (simp_all add: users_table_def db_fits_def)

interpretation events: keyed_table events_table
  by unfold_locales (simp_all add: events_table_def db_fits_def)

interpretation custom: keyed_table custom_table
  by unfold_locales (simp_all add: custom_table_def db_fits_def)

subsection \<open>Transactions\<close>

lemma keeps_fit_engine_call: "keeps keeps_fit (engine_call m)"
  by (rule keepsI)
    (auto simp: engine_call_def Let_def keeps_fit_def fits_def split: option.splits)

lemma keeps_fit_open_tx: "keeps keeps_fit (open_tx m)"
  by (rule keepsI) (auto simp: open_tx_def keeps_fit_def split: option.splits if_splits)

lemma keeps_fit_begin: "keeps keeps_fit (begin_tx ro)"
  by (rule keepsI)
    (auto simp: begin_tx_def bind_def engine_call_def run_simps Let_def keeps_fit_def fits_def
      split: option.splits)

lemma keeps_fit_tx_commit: "keeps keeps_fit tx_commit"
  by (rule keepsI)
    (auto simp: tx_commit_def bind_def open_tx_def Let_def keeps_fit_def fits_def
      split: option.splits if_splits)

lemma keeps_fit_tx_rollback: "keeps keeps_fit tx_rollback"
  by (rule keepsI)
    (auto simp: tx_rollback_def Let_def keeps_fit_def fits_def split: option.splits if_splits)

lemma keeps_fit_job_done: "keeps keeps_fit job_done"
  by (rule keepsI) (auto simp: job_done_def run_simps keeps_fit_def fits_def split: option.splits)

lemma keeps_fit_Commit: "keeps keeps_fit Commit"
  unfolding Commit_def by (intro fit.keeps_intros keeps_fit_tx_commit keeps_fit_job_done)

lemma keeps_fit_Rollback: "keeps keeps_fit Rollback"
proof -
  have "keeps keeps_fit (bind job_done (\<lambda>_. tx_rollback))"
    by (intro fit.keeps_intros keeps_fit_job_done keeps_fit_tx_rollback)
  then show ?thesis by (auto simp: keeps_def Rollback_def fit.refl split: option.splits)
qed

lemma keeps_fit_find: "keeps keeps_fit (find_rows T opt)"
  unfolding find_rows_def query_plan_def
  by (intro fit.keeps_intros keeps_fit_open_tx keeps_fit_engine_call)

lemma keeps_fit_seq: "keeps keeps_fit (exec_write (\<lambda>d. Ok (d\<lparr>db_seq := f d\<rparr>)))"
  by (rule keepsI, rule exec_write_fits) (auto simp: db_fits_def)

lemma keeps_fit_alloc: "keeps keeps_fit (modify (\<lambda>w. w\<lparr>w_alloc := f w\<rparr>))"
  by (rule keepsI) (auto simp: run_simps keeps_fit_def fits_def split: option.splits)

lemma keeps_fit_reserveIds: "keeps keeps_fit (reserveIds grab)"
  unfolding reserveIds_def
  by (intro fit.keeps_intros keeps_fit_open_tx keeps_fit_engine_call)
    (auto split: list.splits intro!: fit.keeps_intros keeps_fit_seq)

lemma keeps_fit_preallocateIds: "keeps keeps_fit preallocateIds"
  unfolding preallocateIds_def Let_def case_prod_beta
  by (intro fit.keeps_intros keeps_fit_begin keeps_fit_tx_rollback keeps_fit_reserveIds
      keeps_fit_tx_commit keeps_fit_alloc)

lemma keeps_fit_newJob: "keeps keeps_fit (newJob ro)"
  unfolding newJob_def by (intro fit.keeps_intros keeps_fit_preallocateIds keeps_fit_begin)

lemma keeps_fit_AllocId: "keeps keeps_fit AllocId"
  unfolding AllocId_def allocIdJob_def
  by (intro fit.keeps_intros keeps_fit_reserveIds)
    (auto split: option.splits intro!: fit.keeps_intros keeps_fit_alloc)

lemmas fit_rules = fit.keeps_intros keeps_fit_Commit keeps_fit_Rollback keeps_fit_newJob
  keeps_fit_AllocId keeps_fit_find

lemma keeps_fit_finds: "keeps keeps_fit (FindPics o1)" "keeps keeps_fit (FindTags o1)"
  "keeps keeps_fit (FindPicTags o1)" "keeps keeps_fit (FindPicIdents o1)"
  "keeps keeps_fit (FindPicComments o1)" "keeps keeps_fit (FindPicVotes o1)"
  "keeps keeps_fit (FindPicCommentVotes o1)" "keeps keeps_fit (FindUsers o1)"
  "keeps keeps_fit (FindUserEvents o1)" "keeps keeps_fit (FindCustomData o1)"
  by (simp_all add: find_defs keeps_fit_find)

lemma keeps_fit_inserts: "keeps keeps_fit (InsertPic x1)" "keeps keeps_fit (InsertTag x2)"
  "keeps keeps_fit (InsertPicTag x3)" "keeps keeps_fit (InsertPicIdent x4)"
  "keeps keeps_fit (InsertPicComment x5)" "keeps keeps_fit (InsertPicVote x6)"
  "keeps keeps_fit (InsertPicCommentVote x7)" "keeps keeps_fit (InsertUser x8)"
  "keeps keeps_fit (InsertUserEvent x9)" "keeps keeps_fit (InsertCustomData x10)"
  by (simp_all add: insert_defs pics.keeps_fit_insert tags.keeps_fit_insert
      pictags.keeps_fit_insert idents.keeps_fit_insert comments.keeps_fit_insert
      votes.keeps_fit_insert cvotes.keeps_fit_insert users.keeps_fit_insert
      events.keeps_fit_insert custom.keeps_fit_insert)

lemma keeps_fit_update_event: "keeps keeps_fit (UpdateUserEvent e)"
  unfolding UpdateUserEvent_def
proof (rule keepsI)
  fix w r w'
  assume run: "bind (lift_res (KeyForUserEvent e)) (\<lambda>key. update_row events_table key e) w = (r, w')"
  show "keeps_fit w w'"
  proof (cases "KeyForUserEvent e")
    case (Ok key)
    then have "Cols key \<in> set (tb_unique events_table)"
      by (cases "UserEventCreatedTsCol (ue_created e)")
        (auto simp: KeyForUserEvent_def UserEventsPrimary_def Cols_def events_table_def)
    then show ?thesis using run Ok keepsD [OF events.keeps_fit_update]
      by (auto simp: bind_def run_simps)
  qed (use run in \<open>auto simp: bind_def run_simps fit.refl\<close>)
qed

lemma keeps_fit_updates: "keeps keeps_fit (UpdatePic x1)" "keeps keeps_fit (UpdateTag x2)"
  "keeps keeps_fit (UpdatePicTag x3)" "keeps keeps_fit (UpdatePicIdent x4)"
  "keeps keeps_fit (UpdatePicComment x5)" "keeps keeps_fit (UpdatePicVote x6)"
  "keeps keeps_fit (UpdatePicCommentVote x7)" "keeps keeps_fit (UpdateUser x8)"
  "keeps keeps_fit (UpdateCustomData x10)"
  unfolding update_defs
  by (rule pics.keeps_fit_update tags.keeps_fit_update pictags.keeps_fit_update
      idents.keeps_fit_update comments.keeps_fit_update votes.keeps_fit_update
      cvotes.keeps_fit_update users.keeps_fit_update custom.keeps_fit_update,
      simp add: key_defs index_defs table_defs Cols_def)+

lemma keeps_fit_deletes: "keeps keeps_fit (DeletePic k)" "keeps keeps_fit (DeleteTag k)"
  "keeps keeps_fit (DeletePicTag k)" "keeps keeps_fit (DeletePicIdent k)"
  "keeps keeps_fit (DeletePicComment k)" "keeps keeps_fit (DeletePicVote k)"
  "keeps keeps_fit (DeletePicCommentVote k)" "keeps keeps_fit (DeleteUser k)"
  "keeps keeps_fit (DeleteUserEvent k)" "keeps keeps_fit (DeleteCustomData k)"
  by (simp_all add: delete_defs pics.keeps_fit_delete tags.keeps_fit_delete
      pictags.keeps_fit_delete idents.keeps_fit_delete comments.keeps_fit_delete
      votes.keeps_fit_delete cvotes.keeps_fit_delete users.keeps_fit_delete
      events.keeps_fit_delete custom.keeps_fit_delete)

lemmas fit_ops = fit_rules keeps_fit_finds keeps_fit_inserts keeps_fit_updates
  keeps_fit_update_event keeps_fit_deletes

subsection \<open>Only a commit changes the database\<close>

definition keeps_base :: "world \<Rightarrow> world \<Rightarrow> bool" where
  "keeps_base w w' \<longleftrightarrow> w_db w' = w_db w \<and> w_env w' = w_env w \<and> w_site w' = w_site w"

interpretation base: frame keeps_base
  by unfold_locales (auto simp: keeps_base_def)

lemma keeps_base_exec_write: "keeps keeps_base (exec_write f)"
  by (rule keepsI)
    (auto simp: exec_write_def bind_def open_tx_def engine_call_def run_simps Let_def keeps_base_def
      split: option.splits if_splits res.splits)

lemma keeps_base_engine_call: "keeps keeps_base (engine_call m)"
  by (rule keepsI) (auto simp: engine_call_def Let_def keeps_base_def split: option.splits)

lemma keeps_base_open_tx: "keeps keeps_base (open_tx m)"
  by (rule keepsI) (auto simp: open_tx_def keeps_base_def split: option.splits if_splits)

lemma keeps_base_begin: "keeps keeps_base (begin_tx ro)"
  by (rule keepsI)
    (auto simp: begin_tx_def bind_def engine_call_def run_simps Let_def keeps_base_def
      split: option.splits)

lemma keeps_base_tx_rollback: "keeps keeps_base tx_rollback"
  by (rule keepsI)
    (auto simp: tx_rollback_def Let_def keeps_base_def split: option.splits if_splits)

lemma keeps_base_job_done: "keeps keeps_base job_done"
  by (rule keepsI) (auto simp: job_done_def run_simps keeps_base_def)

lemma keeps_base_Rollback: "keeps keeps_base Rollback"
proof -
  have "keeps keeps_base (bind job_done (\<lambda>_. tx_rollback))"
    by (intro base.keeps_intros keeps_base_job_done keeps_base_tx_rollback)
  then show ?thesis by (auto simp: keeps_def Rollback_def base.refl split: option.splits)
qed

lemma keeps_base_find: "keeps keeps_base (find_rows T opt)"
  unfolding find_rows_def query_plan_def
  by (intro base.keeps_intros keeps_base_open_tx keeps_base_engine_call)

lemma keeps_base_insert: "keeps keeps_base (insert_row T r)"
  unfolding insert_row_def by (intro base.keeps_intros keeps_base_exec_write)

lemma keeps_base_update: "keeps keeps_base (update_row T key r)"
  unfolding update_row_def by (intro base.keeps_intros keeps_base_exec_write)

lemma keeps_base_delete: "keeps keeps_base (delete_row T key)"
  unfolding delete_row_def by (intro base.keeps_intros keeps_base_exec_write)

lemma keeps_base_reserveIds: "keeps keeps_base (reserveIds grab)"
  unfolding reserveIds_def
  by (intro base.keeps_intros keeps_base_open_tx keeps_base_engine_call)
    (auto split: list.splits intro!: base.keeps_intros keeps_base_exec_write)

lemma keeps_base_AllocId: "keeps keeps_base AllocId"
proof -
  have "keeps keeps_base (modify (\<lambda>w. w\<lparr>w_alloc := f w\<rparr>))" for f
    by (rule keepsI) (auto simp: run_simps keeps_base_def)
  then show ?thesis
    unfolding AllocId_def allocIdJob_def
    by (intro base.keeps_intros keeps_base_reserveIds)
      (auto split: option.splits intro!: base.keeps_intros)
qed

lemma keeps_base_events: "keeps keeps_base (UpdateUserEvent e)"
  unfolding UpdateUserEvent_def by (intro base.keeps_intros keeps_base_update)

lemma keeps_base_tables:
  "keeps keeps_base (FindPics o1)" "keeps keeps_base (FindTags o1)"
  "keeps keeps_base (FindPicTags o1)" "keeps keeps_base (FindPicIdents o1)"
  "keeps keeps_base (FindPicComments o1)" "keeps keeps_base (FindPicVotes o1)"
  "keeps keeps_base (FindPicCommentVotes o1)" "keeps keeps_base (FindUsers o1)"
  "keeps keeps_base (FindUserEvents o1)" "keeps keeps_base (FindCustomData o1)"
  "keeps keeps_base (InsertPic x1)" "keeps keeps_base (InsertTag x2)"
  "keeps keeps_base (InsertPicTag x3)" "keeps keeps_base (InsertPicIdent x4)"
  "keeps keeps_base (InsertPicComment x5)" "keeps keeps_base (InsertPicVote x6)"
  "keeps keeps_base (InsertPicCommentVote x7)" "keeps keeps_base (InsertUser x8)"
  "keeps keeps_base (InsertUserEvent x9)" "keeps keeps_base (InsertCustomData x10)"
  "keeps keeps_base (UpdatePic x1)" "keeps keeps_base (UpdateTag x2)"
  "keeps keeps_base (UpdatePicTag x3)" "keeps keeps_base (UpdatePicIdent x4)"
  "keeps keeps_base (UpdatePicComment x5)" "keeps keeps_base (UpdatePicVote x6)"
  "keeps keeps_base (UpdatePicCommentVote x7)" "keeps keeps_base (UpdateUser x8)"
  "keeps keeps_base (UpdateCustomData x10)"
  "keeps keeps_base (DeletePic k)" "keeps keeps_base (DeleteTag k)"
  "keeps keeps_base (DeletePicTag k)" "keeps keeps_base (DeletePicIdent k)"
  "keeps keeps_base (DeletePicComment k)" "keeps keeps_base (DeletePicVote k)"
  "keeps keeps_base (DeletePicCommentVote k)" "keeps keeps_base (DeleteUser k)"
  "keeps keeps_base (DeleteUserEvent k)" "keeps keeps_base (DeleteCustomData k)"
  by (simp_all add: find_defs insert_defs update_defs(1-8,10) delete_defs keeps_base_find
      keeps_base_insert keeps_base_update keeps_base_delete)

lemmas base_ops = base.keeps_intros keeps_base_tables keeps_base_events keeps_base_AllocId
  keeps_base_Rollback

subsection \<open>Transactions are closed\<close>

text \<open>\<open>w_open\<close> counts the transactions the engine has open: one while a job is live, none
  otherwise; a job or wrapper that is done has none.\<close>

definition accounted :: "world \<Rightarrow> bool" where
  "accounted w \<longleftrightarrow> w_open w = (if live_tx w then 1 else 0) \<and>
     (case w_tx w of None \<Rightarrow> True | Some tx \<Rightarrow> (tx_done tx \<or> tx_jobdone tx) \<longrightarrow> \<not> tx_live tx)"

definition keeps_acct :: "world \<Rightarrow> world \<Rightarrow> bool" where
  "keeps_acct w w' \<longleftrightarrow> (accounted w \<longrightarrow> accounted w')"

interpretation acct: frame keeps_acct
  by unfold_locales (auto simp: keeps_acct_def)

definition idle :: "world \<Rightarrow> bool" where
  "idle w \<longleftrightarrow> accounted w \<and> \<not> live_tx w"

lemmas acct_defs = keeps_acct_def accounted_def live_tx_def

lemma keeps_acct_exec_write: "keeps keeps_acct (exec_write f)"
  by (rule keepsI)
    (auto simp: exec_write_def bind_def open_tx_def engine_call_def run_simps Let_def acct_defs
      split: option.splits if_splits res.splits)

lemma keeps_acct_engine_call: "keeps keeps_acct (engine_call m)"
  by (rule keepsI) (auto simp: engine_call_def Let_def acct_defs split: option.splits)

lemma keeps_acct_open_tx: "keeps keeps_acct (open_tx m)"
  by (rule keepsI) (auto simp: open_tx_def acct_defs split: option.splits if_splits)

lemma keeps_acct_Commit: "keeps keeps_acct Commit"
  by (rule keepsI)
    (auto simp: Commit_def tx_commit_def job_done_def bind_def open_tx_def run_simps Let_def acct_defs
      split: option.splits if_splits)

lemma Rollback_idle:
  assumes "accounted w" "Rollback w = (r, w')"
  shows "idle w'"
  using assms
  by (auto simp: Rollback_def job_done_def tx_rollback_def bind_def run_simps Let_def acct_defs idle_def
      split: option.splits if_splits)

lemma keeps_acct_Rollback: "keeps keeps_acct Rollback"
  by (rule keepsI) (use Rollback_idle in \<open>auto simp: keeps_acct_def idle_def\<close>)

lemma keeps_acct_find: "keeps keeps_acct (find_rows T opt)"
  unfolding find_rows_def query_plan_def
  by (intro acct.keeps_intros keeps_acct_open_tx keeps_acct_engine_call)

lemma keeps_acct_insert: "keeps keeps_acct (insert_row T r)"
  unfolding insert_row_def by (intro acct.keeps_intros keeps_acct_exec_write)

lemma keeps_acct_update: "keeps keeps_acct (update_row T key r)"
  unfolding update_row_def by (intro acct.keeps_intros keeps_acct_exec_write)

lemma keeps_acct_delete: "keeps keeps_acct (delete_row T key)"
  unfolding delete_row_def by (intro acct.keeps_intros keeps_acct_exec_write)

lemma keeps_acct_reserveIds: "keeps keeps_acct (reserveIds grab)"
  unfolding reserveIds_def
  by (intro acct.keeps_intros keeps_acct_open_tx keeps_acct_engine_call)
    (auto split: list.splits intro!: acct.keeps_intros keeps_acct_exec_write)

lemma keeps_acct_alloc: "keeps keeps_acct (modify (\<lambda>w. w\<lparr>w_alloc := f w\<rparr>))"
  by (rule keepsI) (auto simp: run_simps acct_defs split: option.splits)

lemma keeps_acct_AllocId: "keeps keeps_acct AllocId"
  unfolding AllocId_def allocIdJob_def
  by (intro acct.keeps_intros keeps_acct_reserveIds)
    (auto split: option.splits intro!: acct.keeps_intros keeps_acct_alloc)

lemma keeps_acct_events: "keeps keeps_acct (UpdateUserEvent e)"
  unfolding UpdateUserEvent_def by (intro acct.keeps_intros keeps_acct_update)

lemma keeps_acct_tables:
  "keeps keeps_acct (FindPics o1)" "keeps keeps_acct (FindTags o1)"
  "keeps keeps_acct (FindPicTags o1)" "keeps keeps_acct (FindPicIdents o1)"
  "keeps keeps_acct (FindPicComments o1)" "keeps keeps_acct (FindPicVotes o1)"
  "keeps keeps_acct (FindPicCommentVotes o1)" "keeps keeps_acct (FindUsers o1)"
  "keeps keeps_acct (FindUserEvents o1)" "keeps keeps_acct (FindCustomData o1)"
  "keeps keeps_acct (InsertPic x1)" "keeps keeps_acct (InsertTag x2)"
  "keeps keeps_acct (InsertPicTag x3)" "keeps keeps_acct (InsertPicIdent x4)"
  "keeps keeps_acct (InsertPicComment x5)" "keeps keeps_acct (InsertPicVote x6)"
  "keeps keeps_acct (InsertPicCommentVote x7)" "keeps keeps_acct (InsertUser x8)"
  "keeps keeps_acct (InsertUserEvent x9)" "keeps keeps_acct (InsertCustomData x10)"
  "keeps keeps_acct (UpdatePic x1)" "keeps keeps_acct (UpdateTag x2)"
  "keeps keeps_acct (UpdatePicTag x3)" "keeps keeps_acct (UpdatePicIdent x4)"
  "keeps keeps_acct (UpdatePicComment x5)" "keeps keeps_acct (UpdatePicVote x6)"
  "keeps keeps_acct (UpdatePicCommentVote x7)" "keeps keeps_acct (UpdateUser x8)"
  "keeps keeps_acct (UpdateCustomData x10)"
  "keeps keeps_acct (DeletePic k)" "keeps keeps_acct (DeleteTag k)"
  "keeps keeps_acct (DeletePicTag k)" "keeps keeps_acct (DeletePicIdent k)"
  "keeps keeps_acct (DeletePicComment k)" "keeps keeps_acct (DeletePicVote k)"
  "keeps keeps_acct (DeletePicCommentVote k)" "keeps keeps_acct (DeleteUser k)"
  "keeps keeps_acct (DeleteUserEvent k)" "keeps keeps_acct (DeleteCustomData k)"
  by (simp_all add: find_defs insert_defs update_defs(1-8,10) delete_defs keeps_acct_find
      keeps_acct_insert keeps_acct_update keeps_acct_delete)

lemmas acct_ops = acct.keeps_intros keeps_acct_tables keeps_acct_events keeps_acct_AllocId
  keeps_acct_Commit keeps_acct_Rollback

lemma begin_acct:
  assumes "idle w" "begin_tx ro w = (r, w')"
  shows "accounted w' \<and> (live_tx w' \<longleftrightarrow> r = Ok ())"
  using assms
  by (auto simp: begin_tx_def bind_def engine_call_def run_simps Let_def acct_defs idle_def
      split: option.splits)

lemma tx_rollback_idle: "accounted w \<Longrightarrow> tx_rollback w = (r, w') \<Longrightarrow> idle w'"
  by (auto simp: tx_rollback_def Let_def acct_defs idle_def split: option.splits if_splits)

lemma keeps_acct_tx_commit: "keeps keeps_acct tx_commit"
  by (rule keepsI)
    (auto simp: tx_commit_def bind_def open_tx_def Let_def acct_defs split: option.splits if_splits)

lemma preallocateIds_idle:
  assumes "idle w" "preallocateIds w = (r, w')"
  shows "idle w'"
proof (cases "al_total (w_alloc w) \<ge> fst (getWatermark (w_alloc w))")
  case True
  then show ?thesis using assms by (simp add: preallocateIds_def bind_def run_simps)
next
  case False
  let ?body = "bind (get_state w_alloc) (\<lambda>al.
      let (lowat, hiwat) = getWatermark al; available = al_total al
      in if available \<ge> lowat then ret ()
         else (let grab = wrap64 (hiwat - available)
               in bind (reserveIds grab) (\<lambda>next. bind tx_commit (\<lambda>_.
                  modify (\<lambda>w. w\<lparr>w_alloc := (w_alloc w)\<lparr>
                    al_ranges := al_ranges (w_alloc w) @ [(next, grab)],
                    al_total := al_total (w_alloc w) + grab\<rparr>\<rparr>)))))"
  have run: "bind (begin_tx False) (\<lambda>_. deferred ?body tx_rollback) w = (r, w')"
    using assms(2) False by (simp add: preallocateIds_def bind_def run_simps Let_def)
  have body: "keeps keeps_acct ?body"
    unfolding Let_def case_prod_beta
    by (intro acct.keeps_intros keeps_acct_reserveIds keeps_acct_tx_commit keeps_acct_alloc)
  obtain r1 w1 where b: "begin_tx False w = (r1, w1)" by fastforce
  note w1 = begin_acct [OF assms(1) b]
  show ?thesis
  proof (cases r1)
    case (Ok u)
    obtain r2 w2 where m: "?body w1 = (r2, w2)" by fastforce
    have "accounted w2" using keepsD [OF body m] w1 by (simp add: keeps_acct_def)
    moreover obtain r3 w3 where d: "tx_rollback w2 = (r3, w3)" by fastforce
    moreover have "w' = w3" using run b Ok m d by (cases r3) (auto simp: bind_def deferred_def)
    ultimately show ?thesis using tx_rollback_idle by blast
  qed (use run b w1 in \<open>auto simp: bind_def idle_def\<close>)
qed

lemma newJob_acct:
  assumes "idle w" "newJob ro w = (r, w')"
  shows "accounted w' \<and> (live_tx w' \<longleftrightarrow> r = Ok ())"
proof -
  obtain r1 w1 where p: "preallocateIds w = (r1, w1)" by fastforce
  have w1: "idle w1" using preallocateIds_idle [OF assms(1) p] .
  show ?thesis
  proof (cases r1)
    case (Ok u)
    then show ?thesis using assms(2) p begin_acct [OF w1] by (auto simp: newJob_def bind_def)
  qed (use assms(2) p w1 in \<open>auto simp: newJob_def bind_def idle_def\<close>)
qed

text \<open>\<open>defer revert(j, &stscap)\<close>: however the body ends, nothing stays open.\<close>

lemma deferred_Rollback_idle:
  assumes "accounted w" "keeps keeps_acct m" "deferred m Rollback w = (r, w')"
  shows "idle w'"
proof -
  obtain r1 w1 where m: "m w = (r1, w1)" by fastforce
  obtain r2 w2 where d: "Rollback w1 = (r2, w2)" by fastforce
  have "accounted w1" using keepsD [OF assms(2) m] assms(1) by (simp add: keeps_acct_def)
  moreover have "w' = w2" using assms(3) m d by (cases r2) (auto simp: deferred_def)
  ultimately show ?thesis using Rollback_idle d by blast
qed

end
