(* ===== verification/RowFacts.thy ===== *)
theory RowFacts
  imports JobFacts
begin

section \<open>What successful statements do\<close>

text \<open>
  \<open>tx_at w d\<close>: a transaction is open and its copy is \<open>d\<close>. The lemmas follow the copy through
  the statements of a task: a find with a prefix returns the matching messages, an insert
  adds one, an update replaces those with the same key, and a commit installs the copy.
\<close>

definition tx_at :: "world \<Rightarrow> database \<Rightarrow> bool" where
  "tx_at w d \<longleftrightarrow> (\<exists>tx. w_tx w = Some tx \<and> tx_live tx \<and> tx_db tx = d)"

definition msgs :: "'r trow list \<Rightarrow> 'r list" where
  "msgs rows = map tr_data rows"

subsection \<open>Finds\<close>

text \<open>The messages that satisfy \<open>P\<close>, in some order, cut at a limit if there is one.\<close>

definition found :: "('r \<Rightarrow> bool) \<Rightarrow> int \<Rightarrow> 'r list \<Rightarrow> 'r list \<Rightarrow> bool" where
  "found P n all rs \<longleftrightarrow>
     (\<exists>hs. mset hs = mset (filter P all) \<and> rs = (if n > 0 then take (nat n) hs else hs))"

lemma found_set: "found P n all rs \<Longrightarrow> set rs \<subseteq> {x \<in> set all. P x}"
proof -
  assume "found P n all rs"
  then obtain hs where hs: "mset hs = mset (filter P all)" "rs = (if n > 0 then take (nat n) hs else hs)"
    by (auto simp: found_def)
  from hs(1) have "set hs = {x \<in> set all. P x}" by (metis set_filter set_mset_mset)
  with hs(2) show ?thesis by (auto split: if_splits dest: in_set_takeD)
qed

lemma found_all: "found P 0 all rs \<Longrightarrow> mset rs = mset (filter P all)"
  by (auto simp: found_def)

lemma found_all_set: "found P 0 all rs \<Longrightarrow> set rs = {x \<in> set all. P x}"
  by (metis found_all set_filter set_mset_mset)

lemma found_one: "found P 0 all [x] \<Longrightarrow> filter P all = [x]"
  by (drule found_all) (simp del: mset_filter)

lemma found_none: "found P 0 all [] \<Longrightarrow> filter P all = []"
  by (drule found_all) (simp del: mset_filter)

lemma find_prefix:
  assumes run: "find_rows T opt w = (Ok rs, w')" and tx: "tx_at w d"
    and opt: "o_prefix opt = Some i" "Vals i = Ok vs"
    and cols: "\<And>r. r \<in> set (tb_get T d) \<Longrightarrow>
      map (col_of (tb_cols T) r) (take (length vs) (Cols i)) = vs \<longleftrightarrow> P (tr_data r)"
  shows "tx_at w' d \<and> found P (o_limit opt) (msgs (tb_get T d)) rs"
proof -
  obtain pl where pl: "scan_plan opt = Ok pl" and q: "query_plan T pl w = (Ok rs, w')"
    using run by (auto simp: find_rows_def elim!: bind_OkE)
  have plan: "pl_eqs pl = map (\<lambda>k. (Cols i ! k, CEq, vs ! k)) [0..<length vs]" "pl_ranges pl = []"
    "pl_limit pl = nat (o_limit opt)" "o_limit opt \<ge> 0"
    using pl opt by (auto simp: scan_plan_def prefix_plan_def split: if_splits)
  have sel: "selects pl (col_of (tb_cols T) r) \<longleftrightarrow> P (tr_data r)" if "r \<in> set (tb_get T d)" for r
    using prefix_eqs_iff [OF Vals_length [OF opt(2)], of "col_of (tb_cols T) r"] cols [OF that]
    by (simp add: selects_def plan)
  let ?rows = "engine_order (e_rank (w_env w) (w_calls w)) (tb_get T d)"
  have w': "rs = map tr_data (select_rows pl (col_of (tb_cols T)) ?rows)" "tx_at w' d"
    using q tx
    by (auto simp: query_plan_def bind_def open_tx_def engine_call_def run_simps Let_def tx_at_def
        split: option.splits if_splits)
  let ?hits = "filter (\<lambda>r. selects pl (col_of (tb_cols T) r)) ?rows"
  let ?key = "\<lambda>r. map (col_of (tb_cols T) r) (pl_order pl)"
  let ?ord = "if pl_desc pl then rev (sort_key ?key ?hits) else sort_key ?key ?hits"
  have "mset ?ord = filter_mset (\<lambda>r. selects pl (col_of (tb_cols T) r)) (mset (tb_get T d))" by simp
  also have "\<dots> = filter_mset (\<lambda>r. P (tr_data r)) (mset (tb_get T d))"
    by (intro filter_mset_cong) (auto simp: sel)
  finally have "mset (map tr_data ?ord) = mset (filter P (msgs (tb_get T d)))"
    by (simp add: msgs_def filter_map comp_def flip: mset_filter)
  moreover have "rs = (if o_limit opt > 0 then take (nat (o_limit opt)) (map tr_data ?ord)
      else map tr_data ?ord)"
    using w'(1) plan(3,4) by (auto simp: select_rows_def Let_def take_map)
  ultimately show ?thesis using w'(2) unfolding found_def by blast
qed

subsection \<open>Writes\<close>

lemma exec_write_Ok:
  assumes "exec_write f w = (Ok u, w')" "tx_at w d"
  obtains d' where "f d = Ok d'" "tx_at w' d'"
  using assms
  by (auto simp: exec_write_def bind_def open_tx_def engine_call_def run_simps Let_def tx_at_def
      split: option.splits if_splits res.splits)

lemma insert_Ok:
  assumes "insert_row T r w = (Ok u, w')" "tx_at w d"
  obtains vals where "tb_vals T (w_env w) r = Ok vals"
    "\<not> violates T \<lparr>tr_vals = vals, tr_data = r\<rparr> (tb_get T d)"
    "tx_at w' (tb_put T (tb_get T d @ [\<lparr>tr_vals = vals, tr_data = r\<rparr>]) d)"
proof -
  from assms(1) obtain vals where vals: "tb_vals T (w_env w) r = Ok vals" and
    ex: "exec_write (\<lambda>d. let row = \<lparr>tr_vals = vals, tr_data = r\<rparr>
       in if violates T row (tb_get T d) then Err (sql_error UniqueViolation ''can't exec'')
          else Ok (tb_put T (tb_get T d @ [row]) d)) w = (Ok u, w')"
    by (auto simp: insert_row_def elim!: bind_OkE)
  from ex assms(2) obtain d' where "tx_at w' d'"
    "(let row = \<lparr>tr_vals = vals, tr_data = r\<rparr>
       in if violates T row (tb_get T d) then Err (sql_error UniqueViolation ''can't exec'')
          else Ok (tb_put T (tb_get T d @ [row]) d)) = Ok d'"
    by (rule exec_write_Ok)
  then show thesis using that vals by (auto simp: Let_def split: if_splits)
qed

lemma update_Ok:
  assumes "update_row T key r w = (Ok u, w')" "tx_at w d" "Vals key = Ok kvals"
  obtains vals where "tb_vals T (w_env w) r = Ok vals"
    "tx_at w' (tb_put T (map (\<lambda>x. if matches_key (tb_cols T) (Cols key) kvals x
       then \<lparr>tr_vals = vals, tr_data = r\<rparr> else x) (tb_get T d)) d)"
proof -
  from assms(1,3) obtain vals where vals: "tb_vals T (w_env w) r = Ok vals" and
    ex: "exec_write (\<lambda>d. let row = \<lparr>tr_vals = vals, tr_data = r\<rparr>;
           hit = matches_key (tb_cols T) (Cols key) kvals;
           rows = tb_get T d
       in if list_ex hit rows \<and> violates T row (filter (\<lambda>x. \<not> hit x) rows)
          then Err (sql_error UniqueViolation ''can't exec'')
          else Ok (tb_put T (map (\<lambda>x. if hit x then row else x) rows) d)) w = (Ok u, w')"
    by (auto simp: update_row_def elim!: bind_OkE)
  from ex assms(2) obtain d' where "tx_at w' d'"
    "(let row = \<lparr>tr_vals = vals, tr_data = r\<rparr>;
           hit = matches_key (tb_cols T) (Cols key) kvals;
           rows = tb_get T d
       in if list_ex hit rows \<and> violates T row (filter (\<lambda>x. \<not> hit x) rows)
          then Err (sql_error UniqueViolation ''can't exec'')
          else Ok (tb_put T (map (\<lambda>x. if hit x then row else x) rows) d)) = Ok d'"
    by (rule exec_write_Ok)
  then show thesis using that vals by (auto simp: Let_def split: if_splits)
qed

lemma delete_Ok:
  assumes "delete_row T key w = (Ok u, w')" "tx_at w d" "Vals key = Ok kvals"
  shows "tx_at w' (tb_put T (filter (\<lambda>x. \<not> matches_key (tb_cols T) (Cols key) kvals x) (tb_get T d)) d)"
proof -
  from assms(1,3) have ex: "exec_write (\<lambda>d. Ok (tb_put T (filter (\<lambda>x. \<not> matches_key (tb_cols T)
      (Cols key) kvals x) (tb_get T d)) d)) w = (Ok u, w')"
    by (auto simp: delete_row_def elim!: bind_OkE)
  show ?thesis by (rule exec_write_Ok [OF ex assms(2)]) simp
qed

lemma Commit_Ok:
  assumes "Commit w = (Ok u, w')" "tx_at w d"
  shows "w_db w' = d \<and> w_env w' = w_env w"
  using assms
  by (auto simp: Commit_def tx_commit_def job_done_def bind_def open_tx_def run_simps Let_def tx_at_def
      split: option.splits if_splits)

lemma AllocId_tx:
  assumes "AllocId w = (Ok i, w')" "tx_at w d"
  obtains s where "tx_at w' (d\<lparr>db_seq := s\<rparr>)"
proof (cases "al_total (w_alloc w) > 0")
  case True
  then have "tx_at w' (d\<lparr>db_seq := db_seq d\<rparr>)"
    using assms by (auto simp: AllocId_def allocIdJob_def bind_def run_simps tx_at_def
        split: option.splits prod.splits)
  then show thesis by (rule that)
next
  case False
  then have "reserveIds 1 w = (Ok i, w')" using assms(1) by (simp add: AllocId_def allocIdJob_def bind_def run_simps)
  then have "\<exists>s. tx_at w' (d\<lparr>db_seq := s\<rparr>)"
    using assms(2)
    by (auto simp: reserveIds_def bind_def open_tx_def engine_call_def exec_write_def run_simps Let_def
        tx_at_def split: option.splits if_splits list.splits res.splits)
  then show thesis using that by blast
qed

text \<open>The database a new job starts from: the committed one, whose counter may have moved.\<close>

definition same_rows :: "database \<Rightarrow> database \<Rightarrow> bool" where
  "same_rows d d' \<longleftrightarrow> db_pics d' = db_pics d \<and> db_tags d' = db_tags d \<and>
    db_pictags d' = db_pictags d \<and> db_idents d' = db_idents d \<and>
    db_comments d' = db_comments d \<and> db_votes d' = db_votes d \<and>
    db_cvotes d' = db_cvotes d \<and> db_users d' = db_users d \<and>
    db_events d' = db_events d \<and> db_custom d' = db_custom d"

lemma same_rows_refl [simp]: "same_rows d d"
  by (simp add: same_rows_def)

lemma same_rows_trans: "same_rows a b \<Longrightarrow> same_rows b c \<Longrightarrow> same_rows a c"
  by (simp add: same_rows_def)

lemma same_rows_seq [simp]: "same_rows d (d1\<lparr>db_seq := s\<rparr>) = same_rows d d1"
  by (simp add: same_rows_def)

text \<open>
  A property of databases that does not look at the counter holds of the committed database
  and of the open copy after everything a job does between two writes of rows.
\<close>

definition near :: "(database \<Rightarrow> bool) \<Rightarrow> world \<Rightarrow> bool" where
  "near Q w \<longleftrightarrow> Q (w_db w) \<and>
     (case w_tx w of None \<Rightarrow> True | Some tx \<Rightarrow> tx_live tx \<longrightarrow> Q (tx_db tx))"

definition keeps_near :: "(database \<Rightarrow> bool) \<Rightarrow> world \<Rightarrow> world \<Rightarrow> bool" where
  "keeps_near Q w w' \<longleftrightarrow> w_env w' = w_env w \<and> w_site w' = w_site w \<and> (near Q w \<longrightarrow> near Q w')"

interpretation near: frame "keeps_near Q" for Q
  by unfold_locales (auto simp: keeps_near_def)

lemmas near_defs = keeps_near_def near_def

locale db_property =
  fixes Q :: "database \<Rightarrow> bool"
  assumes seq: "Q d \<Longrightarrow> Q (d\<lparr>db_seq := s\<rparr>)"
begin

lemma begin_tx: "keeps (keeps_near Q) (begin_tx ro)"
  by (rule keepsI)
    (auto simp: begin_tx_def bind_def engine_call_def run_simps Let_def near_defs split: option.splits)

lemma tx_commit: "keeps (keeps_near Q) tx_commit"
  by (rule keepsI)
    (auto simp: tx_commit_def bind_def open_tx_def Let_def near_defs split: option.splits if_splits)

lemma tx_rollback: "keeps (keeps_near Q) tx_rollback"
  by (rule keepsI)
    (auto simp: tx_rollback_def Let_def near_defs split: option.splits if_splits)

lemma job_done: "keeps (keeps_near Q) job_done"
  by (rule keepsI) (auto simp: job_done_def run_simps near_defs split: option.splits)

lemma open_tx: "keeps (keeps_near Q) (open_tx m)"
  by (rule keepsI) (auto simp: open_tx_def near_defs split: option.splits if_splits)

lemma engine_call: "keeps (keeps_near Q) (engine_call m)"
  by (rule keepsI) (auto simp: engine_call_def Let_def near_defs split: option.splits)

lemma alloc: "keeps (keeps_near Q) (modify (\<lambda>w. w\<lparr>w_alloc := f w\<rparr>))"
  by (rule keepsI) (auto simp: run_simps near_defs split: option.splits)

lemma row_write:
  assumes "\<And>d d'. Q d \<Longrightarrow> f d = Ok d' \<Longrightarrow> Q d'"
  shows "keeps (keeps_near Q) (exec_write f)"
  using assms
  by (intro keepsI)
    (auto simp: exec_write_def bind_def open_tx_def engine_call_def run_simps Let_def near_defs
      split: option.splits if_splits res.splits)

lemma reserveIds: "keeps (keeps_near Q) (reserveIds grab)"
proof -
  have "keeps (keeps_near Q) (exec_write (\<lambda>d. Ok (d\<lparr>db_seq := g d\<rparr>)))" for g
    by (intro row_write) (auto intro: seq)
  then show ?thesis
    unfolding reserveIds_def
    by (intro near.keeps_intros open_tx engine_call) (auto split: list.splits intro!: near.keeps_intros)
qed

lemma preallocateIds: "keeps (keeps_near Q) preallocateIds"
  unfolding preallocateIds_def Let_def case_prod_beta
  by (intro near.keeps_intros begin_tx tx_rollback reserveIds tx_commit alloc)

lemma newJob: "keeps (keeps_near Q) (newJob ro)"
  unfolding newJob_def by (intro near.keeps_intros preallocateIds begin_tx)

lemma Commit: "keeps (keeps_near Q) Commit"
  unfolding Commit_def by (intro near.keeps_intros tx_commit job_done)

lemma Rollback: "keeps (keeps_near Q) Rollback"
proof -
  have "keeps (keeps_near Q) (bind job_done (\<lambda>_. tx_rollback))"
    by (intro near.keeps_intros job_done tx_rollback)
  then show ?thesis by (auto simp: keeps_def Rollback_def near.refl split: option.splits)
qed

lemma find_rows: "keeps (keeps_near Q) (find_rows T opt)"
  unfolding find_rows_def query_plan_def by (intro near.keeps_intros open_tx engine_call)

lemma AllocId: "keeps (keeps_near Q) AllocId"
  unfolding AllocId_def allocIdJob_def
  by (intro near.keeps_intros reserveIds) (auto split: option.splits intro!: near.keeps_intros alloc)

end

interpretation same: db_property "same_rows d" for d
  by unfold_locales simp

lemma newJob_Ok:
  assumes "newJob ro w = (Ok u, w')" "\<not> live_tx w"
  shows "tx_at w' (w_db w') \<and> same_rows (w_db w) (w_db w') \<and> w_env w' = w_env w \<and> w_site w' = w_site w"
proof -
  obtain w1 where p: "preallocateIds w = (Ok (), w1)" and b: "begin_tx ro w1 = (Ok u, w')"
    using assms(1) by (auto simp: newJob_def elim!: bind_OkE)
  have "keeps_near (same_rows (w_db w)) w w1" using keepsD [OF same.preallocateIds p] .
  moreover have "near (same_rows (w_db w)) w"
    using assms(2) by (auto simp: near_def live_tx_def split: option.splits)
  ultimately have "near (same_rows (w_db w)) w1" "w_env w1 = w_env w" "w_site w1 = w_site w"
    by (auto simp: keeps_near_def)
  then have "same_rows (w_db w) (w_db w1)" "w_env w1 = w_env w" "w_site w1 = w_site w"
    by (simp_all add: near_def)
  then show ?thesis
    using b by (auto simp: begin_tx_def bind_def engine_call_def run_simps Let_def tx_at_def
        split: option.splits)
qed

lemma Rollback_keeps: "Rollback w = (r, w') \<Longrightarrow> w_db w' = w_db w \<and> w_env w' = w_env w \<and> w_site w' = w_site w"
  using keepsD [OF keeps_base_Rollback] by (auto simp: keeps_base_def)

lemma base_tx: "keeps keeps_base m \<Longrightarrow> m w = (r, w') \<Longrightarrow> w_db w' = w_db w \<and> w_env w' = w_env w"
  using keepsD by (fastforce simp: keeps_base_def)

subsection \<open>The columns of each table\<close>

lemma pics_cols: "db_fits ev d \<Longrightarrow> r \<in> set (db_pics d) \<Longrightarrow> \<exists>io. IndexOrder (tr_data r) = Ok io \<and>
    tr_vals r = [SInt (p_id (tr_data r)), SInt io, SInt (LowerScoreBound (e_wilson ev) (tr_data r)),
      SInt (UpperScoreBound (e_wilson ev) (tr_data r))]"
  by (cases "IndexOrder (tr_data r)")
    (auto simp: db_fits_def rows_fit_def pics_table_def pic_cols_def)

lemma tags_cols: "db_fits ev d \<Longrightarrow> r \<in> set (db_tags d) \<Longrightarrow>
    \<exists>k. TagUniqueName (e_text ev) (t_name (tr_data r)) = Ok k \<and>
      tr_vals r = [SInt (t_id (tr_data r)), SBytes k]"
  by (auto simp: db_fits_def rows_fit_def tags_table_def)

lemma pictags_cols: "db_fits ev d \<Longrightarrow> r \<in> set (db_pictags d) \<Longrightarrow>
    tr_vals r = [SInt (pt_pic (tr_data r)), SInt (pt_tag (tr_data r))]"
  by (auto simp: db_fits_def rows_fit_def pictags_table_def)

lemma idents_cols: "db_fits ev d \<Longrightarrow> r \<in> set (db_idents d) \<Longrightarrow>
    tr_vals r = [SInt (pi_pic (tr_data r)), SInt (pi_type (tr_data r)), SBytes (pi_value (tr_data r))]"
  by (auto simp: db_fits_def rows_fit_def idents_table_def)

lemma comments_cols: "db_fits ev d \<Longrightarrow> r \<in> set (db_comments d) \<Longrightarrow>
    tr_vals r = [SInt (pc_pic (tr_data r)), SInt (pc_id (tr_data r))]"
  by (auto simp: db_fits_def rows_fit_def comments_table_def)

lemma votes_cols: "db_fits ev d \<Longrightarrow> r \<in> set (db_votes d) \<Longrightarrow>
    tr_vals r = [SInt (pv_pic (tr_data r)), SInt (pv_user (tr_data r)), SInt (pv_index (tr_data r))]"
  by (auto simp: db_fits_def rows_fit_def votes_table_def)

lemma cvotes_cols: "db_fits ev d \<Longrightarrow> r \<in> set (db_cvotes d) \<Longrightarrow>
    tr_vals r = [SInt (pcv_pic (tr_data r)), SInt (pcv_comment (tr_data r)),
      SInt (pcv_user (tr_data r)), SInt (pcv_index (tr_data r))]"
  by (auto simp: db_fits_def rows_fit_def cvotes_table_def)

lemma users_cols: "db_fits ev d \<Longrightarrow> r \<in> set (db_users d) \<Longrightarrow>
    \<exists>k. UserUniqueIdent (e_text ev) (u_ident (tr_data r)) = Ok k \<and>
      tr_vals r = [SInt (u_id (tr_data r)), SBytes k]"
  by (auto simp: db_fits_def rows_fit_def users_table_def)

lemma events_cols: "db_fits ev d \<Longrightarrow> r \<in> set (db_events d) \<Longrightarrow>
    \<exists>ts. UserEventCreatedTsCol (ue_created (tr_data r)) = Ok ts \<and>
      tr_vals r = [SInt (ue_user (tr_data r)), SInt ts, SInt (ue_index (tr_data r))]"
  by (auto simp: db_fits_def rows_fit_def events_table_def)

lemma Vals_Cons [simp]: "Vals ((c, Some v) # i) = res_map ((#) v) (Vals i)"
proof -
  have acc: "vals_loop i b (xs @ ys) = res_map ((@) xs) (vals_loop i b ys)" for i b xs ys
    by (induction i b ys arbitrary: xs rule: vals_loop.induct) auto
  show ?thesis using acc [of i False "[v]" "[]"] by (cases "vals_loop i False []") (simp_all add: Vals_def)
qed

lemma vals_loop_None [simp]: "vals_loop (map (\<lambda>c. (c, None)) cs) b acc = Ok acc"
  by (induction cs arbitrary: b) auto

lemma Vals_None [simp]: "Vals [] = Ok []" "Vals [(c1, None)] = Ok []"
  "Vals [(c1, None), (c2, None)] = Ok []" "Vals [(c1, None), (c2, None), (c3, None)] = Ok []"
  by (simp_all add: Vals_def)

subsection \<open>Finds by key\<close>

lemmas find_unfold = find_defs table_defs index_defs Cols_def col_of_def

lemma find_pics_id:
  assumes "FindPics opt w = (Ok rs, w')" "tx_at w d" "db_fits ev d"
    and "o_prefix opt = Some (PicsPrimary (Some i))"
  shows "tx_at w' d \<and> found (\<lambda>p. p_id p = i) (o_limit opt) (msgs (db_pics d)) rs"
proof -
  have "tx_at w' d \<and> found (\<lambda>p. p_id p = i) (o_limit opt) (msgs (tb_get pics_table d)) rs"
    by (rule find_prefix [OF assms(1) [unfolded FindPics_def] assms(2,4), where vs = "[SInt i]"])
      (auto simp: find_unfold dest!: pics_cols [OF assms(3)])
  then show ?thesis by (simp add: pics_table_def)
qed

lemma find_tags_id:
  assumes "FindTags opt w = (Ok rs, w')" "tx_at w d" "db_fits ev d"
    and "o_prefix opt = Some (TagsPrimary (Some i))"
  shows "tx_at w' d \<and> found (\<lambda>t. t_id t = i) (o_limit opt) (msgs (db_tags d)) rs"
proof -
  have "tx_at w' d \<and> found (\<lambda>t. t_id t = i) (o_limit opt) (msgs (tb_get tags_table d)) rs"
    by (rule find_prefix [OF assms(1) [unfolded FindTags_def] assms(2,4), where vs = "[SInt i]"])
      (auto simp: find_unfold dest!: tags_cols [OF assms(3)])
  then show ?thesis by (simp add: tags_table_def)
qed

lemma find_tags_name:
  assumes "FindTags opt w = (Ok rs, w')" "tx_at w d" "db_fits ev d"
    and "o_prefix opt = Some (TagsName (Some k))"
  shows "tx_at w' d \<and> found (\<lambda>t. TagUniqueName (e_text ev) (t_name t) = Ok k) (o_limit opt)
    (msgs (db_tags d)) rs"
proof -
  have "tx_at w' d \<and> found (\<lambda>t. TagUniqueName (e_text ev) (t_name t) = Ok k) (o_limit opt)
      (msgs (tb_get tags_table d)) rs"
    by (rule find_prefix [OF assms(1) [unfolded FindTags_def] assms(2,4), where vs = "[SBytes k]"])
      (auto simp: find_unfold dest!: tags_cols [OF assms(3)])
  then show ?thesis by (simp add: tags_table_def)
qed

lemma find_pictags_pic:
  assumes "FindPicTags opt w = (Ok rs, w')" "tx_at w d" "db_fits ev d"
    and "o_prefix opt = Some (PicTagsPrimary (Some p) None)"
  shows "tx_at w' d \<and> found (\<lambda>t. pt_pic t = p) (o_limit opt) (msgs (db_pictags d)) rs"
proof -
  have "tx_at w' d \<and> found (\<lambda>t. pt_pic t = p) (o_limit opt) (msgs (tb_get pictags_table d)) rs"
    by (rule find_prefix [OF assms(1) [unfolded FindPicTags_def] assms(2,4), where vs = "[SInt p]"])
      (auto simp: find_unfold dest!: pictags_cols [OF assms(3)])
  then show ?thesis by (simp add: pictags_table_def)
qed

lemma find_pictags_key:
  assumes "FindPicTags opt w = (Ok rs, w')" "tx_at w d" "db_fits ev d"
    and "o_prefix opt = Some (PicTagsPrimary (Some p) (Some i))"
  shows "tx_at w' d \<and> found (\<lambda>t. pt_pic t = p \<and> pt_tag t = i) (o_limit opt) (msgs (db_pictags d)) rs"
proof -
  have "tx_at w' d \<and>
      found (\<lambda>t. pt_pic t = p \<and> pt_tag t = i) (o_limit opt) (msgs (tb_get pictags_table d)) rs"
    by (rule find_prefix [OF assms(1) [unfolded FindPicTags_def] assms(2,4), where vs = "[SInt p, SInt i]"])
      (auto simp: find_unfold dest!: pictags_cols [OF assms(3)])
  then show ?thesis by (simp add: pictags_table_def)
qed

lemma find_idents_pic:
  assumes "FindPicIdents opt w = (Ok rs, w')" "tx_at w d" "db_fits ev d"
    and "o_prefix opt = Some (PicIdentsPrimary (Some p) None None)"
  shows "tx_at w' d \<and> found (\<lambda>i. pi_pic i = p) (o_limit opt) (msgs (db_idents d)) rs"
proof -
  have "tx_at w' d \<and> found (\<lambda>i. pi_pic i = p) (o_limit opt) (msgs (tb_get idents_table d)) rs"
    by (rule find_prefix [OF assms(1) [unfolded FindPicIdents_def] assms(2,4), where vs = "[SInt p]"])
      (auto simp: find_unfold dest!: idents_cols [OF assms(3)])
  then show ?thesis by (simp add: idents_table_def)
qed

lemma find_idents_value:
  assumes "FindPicIdents opt w = (Ok rs, w')" "tx_at w d" "db_fits ev d"
    and "o_prefix opt = Some (PicIdentsIdent (Some ty) (Some v))"
  shows "tx_at w' d \<and>
    found (\<lambda>i. pi_type i = ty \<and> pi_value i = v) (o_limit opt) (msgs (db_idents d)) rs"
proof -
  have "tx_at w' d \<and>
      found (\<lambda>i. pi_type i = ty \<and> pi_value i = v) (o_limit opt) (msgs (tb_get idents_table d)) rs"
    by (rule find_prefix [OF assms(1) [unfolded FindPicIdents_def] assms(2,4), where vs = "[SInt ty, SBytes v]"])
      (auto simp: find_unfold dest!: idents_cols [OF assms(3)])
  then show ?thesis by (simp add: idents_table_def)
qed

lemma find_comments_pic:
  assumes "FindPicComments opt w = (Ok rs, w')" "tx_at w d" "db_fits ev d"
    and "o_prefix opt = Some (PicCommentsPrimary (Some p) None)"
  shows "tx_at w' d \<and> found (\<lambda>c. pc_pic c = p) (o_limit opt) (msgs (db_comments d)) rs"
proof -
  have "tx_at w' d \<and> found (\<lambda>c. pc_pic c = p) (o_limit opt) (msgs (tb_get comments_table d)) rs"
    by (rule find_prefix [OF assms(1) [unfolded FindPicComments_def] assms(2,4), where vs = "[SInt p]"])
      (auto simp: find_unfold dest!: comments_cols [OF assms(3)])
  then show ?thesis by (simp add: comments_table_def)
qed

lemma find_comments_key:
  assumes "FindPicComments opt w = (Ok rs, w')" "tx_at w d" "db_fits ev d"
    and "o_prefix opt = Some (PicCommentsPrimary (Some p) (Some i))"
  shows "tx_at w' d \<and> found (\<lambda>c. pc_pic c = p \<and> pc_id c = i) (o_limit opt) (msgs (db_comments d)) rs"
proof -
  have "tx_at w' d \<and>
      found (\<lambda>c. pc_pic c = p \<and> pc_id c = i) (o_limit opt) (msgs (tb_get comments_table d)) rs"
    by (rule find_prefix [OF assms(1) [unfolded FindPicComments_def] assms(2,4), where vs = "[SInt p, SInt i]"])
      (auto simp: find_unfold dest!: comments_cols [OF assms(3)])
  then show ?thesis by (simp add: comments_table_def)
qed

lemma find_votes_pic:
  assumes "FindPicVotes opt w = (Ok rs, w')" "tx_at w d" "db_fits ev d"
    and "o_prefix opt = Some (PicVotesPrimary (Some p) None None)"
  shows "tx_at w' d \<and> found (\<lambda>v. pv_pic v = p) (o_limit opt) (msgs (db_votes d)) rs"
proof -
  have "tx_at w' d \<and> found (\<lambda>v. pv_pic v = p) (o_limit opt) (msgs (tb_get votes_table d)) rs"
    by (rule find_prefix [OF assms(1) [unfolded FindPicVotes_def] assms(2,4), where vs = "[SInt p]"])
      (auto simp: find_unfold dest!: votes_cols [OF assms(3)])
  then show ?thesis by (simp add: votes_table_def)
qed

lemma find_votes_user:
  assumes "FindPicVotes opt w = (Ok rs, w')" "tx_at w d" "db_fits ev d"
    and "o_prefix opt = Some (PicVotesPrimary (Some p) (Some u) None)"
  shows "tx_at w' d \<and> found (\<lambda>v. pv_pic v = p \<and> pv_user v = u) (o_limit opt) (msgs (db_votes d)) rs"
proof -
  have "tx_at w' d \<and>
      found (\<lambda>v. pv_pic v = p \<and> pv_user v = u) (o_limit opt) (msgs (tb_get votes_table d)) rs"
    by (rule find_prefix [OF assms(1) [unfolded FindPicVotes_def] assms(2,4), where vs = "[SInt p, SInt u]"])
      (auto simp: find_unfold dest!: votes_cols [OF assms(3)])
  then show ?thesis by (simp add: votes_table_def)
qed

lemma find_cvotes_user:
  assumes "FindPicCommentVotes opt w = (Ok rs, w')" "tx_at w d" "db_fits ev d"
    and "o_prefix opt = Some (PicCommentVotesPrimary (Some p) (Some c) (Some u) None)"
  shows "tx_at w' d \<and> found (\<lambda>v. pcv_pic v = p \<and> pcv_comment v = c \<and> pcv_user v = u) (o_limit opt)
    (msgs (db_cvotes d)) rs"
proof -
  have "tx_at w' d \<and> found (\<lambda>v. pcv_pic v = p \<and> pcv_comment v = c \<and> pcv_user v = u) (o_limit opt)
      (msgs (tb_get cvotes_table d)) rs"
    by (rule find_prefix [OF assms(1) [unfolded FindPicCommentVotes_def] assms(2,4),
          where vs = "[SInt p, SInt c, SInt u]"])
      (auto simp: find_unfold dest!: cvotes_cols [OF assms(3)])
  then show ?thesis by (simp add: cvotes_table_def)
qed

lemma find_users_id:
  assumes "FindUsers opt w = (Ok rs, w')" "tx_at w d" "db_fits ev d"
    and "o_prefix opt = Some (UsersPrimary (Some i))"
  shows "tx_at w' d \<and> found (\<lambda>u. u_id u = i) (o_limit opt) (msgs (db_users d)) rs"
proof -
  have "tx_at w' d \<and> found (\<lambda>u. u_id u = i) (o_limit opt) (msgs (tb_get users_table d)) rs"
    by (rule find_prefix [OF assms(1) [unfolded FindUsers_def] assms(2,4), where vs = "[SInt i]"])
      (auto simp: find_unfold dest!: users_cols [OF assms(3)])
  then show ?thesis by (simp add: users_table_def)
qed

lemma find_users_ident:
  assumes "FindUsers opt w = (Ok rs, w')" "tx_at w d" "db_fits ev d"
    and "o_prefix opt = Some (UsersIdent (Some k))"
  shows "tx_at w' d \<and> found (\<lambda>u. UserUniqueIdent (e_text ev) (u_ident u) = Ok k) (o_limit opt)
    (msgs (db_users d)) rs"
proof -
  have "tx_at w' d \<and> found (\<lambda>u. UserUniqueIdent (e_text ev) (u_ident u) = Ok k) (o_limit opt)
      (msgs (tb_get users_table d)) rs"
    by (rule find_prefix [OF assms(1) [unfolded FindUsers_def] assms(2,4), where vs = "[SBytes k]"])
      (auto simp: find_unfold dest!: users_cols [OF assms(3)])
  then show ?thesis by (simp add: users_table_def)
qed

lemma find_events_time:
  assumes "FindUserEvents opt w = (Ok rs, w')" "tx_at w d" "db_fits ev d"
    and "o_prefix opt = Some (UserEventsPrimary (Some u) (Some ts) None)"
  shows "tx_at w' d \<and> found (\<lambda>e. ue_user e = u \<and> UserEventCreatedTsCol (ue_created e) = Ok ts)
    (o_limit opt) (msgs (db_events d)) rs"
proof -
  have "tx_at w' d \<and> found (\<lambda>e. ue_user e = u \<and> UserEventCreatedTsCol (ue_created e) = Ok ts)
      (o_limit opt) (msgs (tb_get events_table d)) rs"
    by (rule find_prefix [OF assms(1) [unfolded FindUserEvents_def] assms(2,4),
          where vs = "[SInt u, SInt ts]"])
      (auto simp: find_unfold dest!: events_cols [OF assms(3)])
  then show ?thesis by (simp add: events_table_def)
qed

end
