(* ===== verification/JobSteps.thy ===== *)
theory JobSteps
  imports RowFacts
begin

section \<open>A task's statements, step by step\<close>

text \<open>
  \<open>job_at ev d0 d w\<close>: the world \<open>w\<close> has the environment \<open>ev\<close>, the committed database \<open>d0\<close> and
  an open job on the copy \<open>d\<close>, both with their integrity. Each lemma takes a successful
  statement from one such state to the next and says what it found or changed.
\<close>

definition job_at :: "env \<Rightarrow> database \<Rightarrow> database \<Rightarrow> world \<Rightarrow> bool" where
  "job_at ev d0 d w \<longleftrightarrow> w_env w = ev \<and> w_db w = d0 \<and> tx_at w d \<and> db_fits ev d0 \<and> db_fits ev d"

lemma job_atI:
  assumes "keeps keeps_base m" "keeps keeps_fit m" "m w = (r, w')" "job_at ev d0 d w" "tx_at w' d'"
  shows "job_at ev d0 d' w'"
proof -
  have "w_db w' = w_db w" "w_env w' = w_env w" using base_tx [OF assms(1,3)] by auto
  moreover have "fits w"
    using assms(4) by (auto simp: job_at_def fits_def tx_at_def split: option.splits)
  then have "fits w'" using keepsD [OF assms(2,3)] by (simp add: keeps_fit_def)
  ultimately show ?thesis
    using assms(4,5) by (auto simp: job_at_def fits_def tx_at_def)
qed

lemma job_at_fits: "job_at ev d0 d w \<Longrightarrow> fits w"
  by (auto simp: job_at_def fits_def tx_at_def split: option.splits)

lemma job_at_D: "job_at ev d0 d w \<Longrightarrow> tx_at w d" "job_at ev d0 d w \<Longrightarrow> db_fits ev d"
  "job_at ev d0 d w \<Longrightarrow> w_env w = ev" "job_at ev d0 d w \<Longrightarrow> w_db w = d0"
  by (simp_all add: job_at_def)

lemma msgs_simps [simp]: "msgs [] = []" "msgs (r # rs) = tr_data r # msgs rs"
  "msgs (xs @ ys) = msgs xs @ msgs ys"
  by (simp_all add: msgs_def)

lemma Commit_job: "Commit w = (Ok u, w') \<Longrightarrow> job_at ev d0 d w \<Longrightarrow> w_db w' = d \<and> w_env w' = ev \<and> db_fits ev d"
  using Commit_Ok by (fastforce simp: job_at_def)

subsection \<open>Finds\<close>

lemma job_find_pics_id:
  assumes "FindPics opt w = (Ok rs, w')" "job_at ev d0 d w" "o_prefix opt = Some (PicsPrimary (Some i))"
  shows "job_at ev d0 d w'" "found (\<lambda>p. p_id p = i) (o_limit opt) (msgs (db_pics d)) rs"
  using find_pics_id [OF assms(1) job_at_D(1) [OF assms(2)] job_at_D(2) [OF assms(2)] assms(3)]
    job_atI [OF keeps_base_tables(1) keeps_fit_finds(1) assms(1,2)] by blast+

lemma job_find_tags_id:
  assumes "FindTags opt w = (Ok rs, w')" "job_at ev d0 d w" "o_prefix opt = Some (TagsPrimary (Some i))"
  shows "job_at ev d0 d w'" "found (\<lambda>t. t_id t = i) (o_limit opt) (msgs (db_tags d)) rs"
  using find_tags_id [OF assms(1) job_at_D(1) [OF assms(2)] job_at_D(2) [OF assms(2)] assms(3)]
    job_atI [OF keeps_base_tables(2) keeps_fit_finds(2) assms(1,2)] by blast+

lemma job_find_tags_name:
  assumes "FindTags opt w = (Ok rs, w')" "job_at ev d0 d w" "o_prefix opt = Some (TagsName (Some k))"
  shows "job_at ev d0 d w'" "found (\<lambda>t. TagUniqueName (e_text ev) (t_name t) = Ok k) (o_limit opt) (msgs (db_tags d)) rs"
  using find_tags_name [OF assms(1) job_at_D(1) [OF assms(2)] job_at_D(2) [OF assms(2)] assms(3)]
    job_atI [OF keeps_base_tables(2) keeps_fit_finds(2) assms(1,2)] by blast+

lemma job_find_pictags_pic:
  assumes "FindPicTags opt w = (Ok rs, w')" "job_at ev d0 d w" "o_prefix opt = Some (PicTagsPrimary (Some p) None)"
  shows "job_at ev d0 d w'" "found (\<lambda>t. pt_pic t = p) (o_limit opt) (msgs (db_pictags d)) rs"
  using find_pictags_pic [OF assms(1) job_at_D(1) [OF assms(2)] job_at_D(2) [OF assms(2)] assms(3)]
    job_atI [OF keeps_base_tables(3) keeps_fit_finds(3) assms(1,2)] by blast+

lemma job_find_pictags_key:
  assumes "FindPicTags opt w = (Ok rs, w')" "job_at ev d0 d w" "o_prefix opt = Some (PicTagsPrimary (Some p) (Some i))"
  shows "job_at ev d0 d w'" "found (\<lambda>t. pt_pic t = p \<and> pt_tag t = i) (o_limit opt) (msgs (db_pictags d)) rs"
  using find_pictags_key [OF assms(1) job_at_D(1) [OF assms(2)] job_at_D(2) [OF assms(2)] assms(3)]
    job_atI [OF keeps_base_tables(3) keeps_fit_finds(3) assms(1,2)] by blast+

lemma job_find_idents_pic:
  assumes "FindPicIdents opt w = (Ok rs, w')" "job_at ev d0 d w" "o_prefix opt = Some (PicIdentsPrimary (Some p) None None)"
  shows "job_at ev d0 d w'" "found (\<lambda>i. pi_pic i = p) (o_limit opt) (msgs (db_idents d)) rs"
  using find_idents_pic [OF assms(1) job_at_D(1) [OF assms(2)] job_at_D(2) [OF assms(2)] assms(3)]
    job_atI [OF keeps_base_tables(4) keeps_fit_finds(4) assms(1,2)] by blast+

lemma job_find_idents_value:
  assumes "FindPicIdents opt w = (Ok rs, w')" "job_at ev d0 d w" "o_prefix opt = Some (PicIdentsIdent (Some ty) (Some v))"
  shows "job_at ev d0 d w'" "found (\<lambda>i. pi_type i = ty \<and> pi_value i = v) (o_limit opt) (msgs (db_idents d)) rs"
  using find_idents_value [OF assms(1) job_at_D(1) [OF assms(2)] job_at_D(2) [OF assms(2)] assms(3)]
    job_atI [OF keeps_base_tables(4) keeps_fit_finds(4) assms(1,2)] by blast+

lemma job_find_comments_pic:
  assumes "FindPicComments opt w = (Ok rs, w')" "job_at ev d0 d w" "o_prefix opt = Some (PicCommentsPrimary (Some p) None)"
  shows "job_at ev d0 d w'" "found (\<lambda>c. pc_pic c = p) (o_limit opt) (msgs (db_comments d)) rs"
  using find_comments_pic [OF assms(1) job_at_D(1) [OF assms(2)] job_at_D(2) [OF assms(2)] assms(3)]
    job_atI [OF keeps_base_tables(5) keeps_fit_finds(5) assms(1,2)] by blast+

lemma job_find_comments_key:
  assumes "FindPicComments opt w = (Ok rs, w')" "job_at ev d0 d w" "o_prefix opt = Some (PicCommentsPrimary (Some p) (Some i))"
  shows "job_at ev d0 d w'" "found (\<lambda>c. pc_pic c = p \<and> pc_id c = i) (o_limit opt) (msgs (db_comments d)) rs"
  using find_comments_key [OF assms(1) job_at_D(1) [OF assms(2)] job_at_D(2) [OF assms(2)] assms(3)]
    job_atI [OF keeps_base_tables(5) keeps_fit_finds(5) assms(1,2)] by blast+

lemma job_find_votes_pic:
  assumes "FindPicVotes opt w = (Ok rs, w')" "job_at ev d0 d w" "o_prefix opt = Some (PicVotesPrimary (Some p) None None)"
  shows "job_at ev d0 d w'" "found (\<lambda>v. pv_pic v = p) (o_limit opt) (msgs (db_votes d)) rs"
  using find_votes_pic [OF assms(1) job_at_D(1) [OF assms(2)] job_at_D(2) [OF assms(2)] assms(3)]
    job_atI [OF keeps_base_tables(6) keeps_fit_finds(6) assms(1,2)] by blast+

lemma job_find_votes_user:
  assumes "FindPicVotes opt w = (Ok rs, w')" "job_at ev d0 d w" "o_prefix opt = Some (PicVotesPrimary (Some p) (Some u) None)"
  shows "job_at ev d0 d w'" "found (\<lambda>v. pv_pic v = p \<and> pv_user v = u) (o_limit opt) (msgs (db_votes d)) rs"
  using find_votes_user [OF assms(1) job_at_D(1) [OF assms(2)] job_at_D(2) [OF assms(2)] assms(3)]
    job_atI [OF keeps_base_tables(6) keeps_fit_finds(6) assms(1,2)] by blast+

lemma job_find_cvotes_user:
  assumes "FindPicCommentVotes opt w = (Ok rs, w')" "job_at ev d0 d w" "o_prefix opt = Some (PicCommentVotesPrimary (Some p) (Some c) (Some u) None)"
  shows "job_at ev d0 d w'" "found (\<lambda>v. pcv_pic v = p \<and> pcv_comment v = c \<and> pcv_user v = u) (o_limit opt) (msgs (db_cvotes d)) rs"
  using find_cvotes_user [OF assms(1) job_at_D(1) [OF assms(2)] job_at_D(2) [OF assms(2)] assms(3)]
    job_atI [OF keeps_base_tables(7) keeps_fit_finds(7) assms(1,2)] by blast+

lemma job_find_users_id:
  assumes "FindUsers opt w = (Ok rs, w')" "job_at ev d0 d w" "o_prefix opt = Some (UsersPrimary (Some i))"
  shows "job_at ev d0 d w'" "found (\<lambda>u. u_id u = i) (o_limit opt) (msgs (db_users d)) rs"
  using find_users_id [OF assms(1) job_at_D(1) [OF assms(2)] job_at_D(2) [OF assms(2)] assms(3)]
    job_atI [OF keeps_base_tables(8) keeps_fit_finds(8) assms(1,2)] by blast+

lemma job_find_users_ident:
  assumes "FindUsers opt w = (Ok rs, w')" "job_at ev d0 d w" "o_prefix opt = Some (UsersIdent (Some k))"
  shows "job_at ev d0 d w'" "found (\<lambda>u. UserUniqueIdent (e_text ev) (u_ident u) = Ok k) (o_limit opt) (msgs (db_users d)) rs"
  using find_users_ident [OF assms(1) job_at_D(1) [OF assms(2)] job_at_D(2) [OF assms(2)] assms(3)]
    job_atI [OF keeps_base_tables(8) keeps_fit_finds(8) assms(1,2)] by blast+

lemma job_find_events_time:
  assumes "FindUserEvents opt w = (Ok rs, w')" "job_at ev d0 d w" "o_prefix opt = Some (UserEventsPrimary (Some u) (Some ts) None)"
  shows "job_at ev d0 d w'" "found (\<lambda>e. ue_user e = u \<and> UserEventCreatedTsCol (ue_created e) = Ok ts) (o_limit opt) (msgs (db_events d)) rs"
  using find_events_time [OF assms(1) job_at_D(1) [OF assms(2)] job_at_D(2) [OF assms(2)] assms(3)]
    job_atI [OF keeps_base_tables(9) keeps_fit_finds(9) assms(1,2)] by blast+

subsection \<open>Inserts\<close>

lemma job_insert_pics:
  assumes "InsertPic x w = (Ok u, w')" "job_at ev d0 d w"
  obtains rows where "job_at ev d0 (d\<lparr>db_pics := rows\<rparr>) w'" "msgs rows = msgs (db_pics d) @ [x]"
proof -
  obtain vals where "tx_at w' (tb_put pics_table (tb_get pics_table d @ [\<lparr>tr_vals = vals, tr_data = x\<rparr>]) d)"
    using insert_Ok [OF assms(1) [unfolded InsertPic_def] job_at_D(1) [OF assms(2)]] by blast
  then have tx: "tx_at w' (d\<lparr>db_pics := db_pics d @ [\<lparr>tr_vals = vals, tr_data = x\<rparr>]\<rparr>)"
    by (simp add: pics_table_def)
  have "job_at ev d0 (d\<lparr>db_pics := db_pics d @ [\<lparr>tr_vals = vals, tr_data = x\<rparr>]\<rparr>) w'"
    by (rule job_atI [OF keeps_base_tables(11) keeps_fit_inserts(1) assms tx])
  then show thesis by (rule that) simp
qed

lemma job_insert_tags:
  assumes "InsertTag x w = (Ok u, w')" "job_at ev d0 d w"
  obtains rows where "job_at ev d0 (d\<lparr>db_tags := rows\<rparr>) w'" "msgs rows = msgs (db_tags d) @ [x]"
proof -
  obtain vals where "tx_at w' (tb_put tags_table (tb_get tags_table d @ [\<lparr>tr_vals = vals, tr_data = x\<rparr>]) d)"
    using insert_Ok [OF assms(1) [unfolded InsertTag_def] job_at_D(1) [OF assms(2)]] by blast
  then have tx: "tx_at w' (d\<lparr>db_tags := db_tags d @ [\<lparr>tr_vals = vals, tr_data = x\<rparr>]\<rparr>)"
    by (simp add: tags_table_def)
  have "job_at ev d0 (d\<lparr>db_tags := db_tags d @ [\<lparr>tr_vals = vals, tr_data = x\<rparr>]\<rparr>) w'"
    by (rule job_atI [OF keeps_base_tables(12) keeps_fit_inserts(2) assms tx])
  then show thesis by (rule that) simp
qed

lemma job_insert_pictags:
  assumes "InsertPicTag x w = (Ok u, w')" "job_at ev d0 d w"
  obtains rows where "job_at ev d0 (d\<lparr>db_pictags := rows\<rparr>) w'" "msgs rows = msgs (db_pictags d) @ [x]"
proof -
  obtain vals where "tx_at w' (tb_put pictags_table (tb_get pictags_table d @ [\<lparr>tr_vals = vals, tr_data = x\<rparr>]) d)"
    using insert_Ok [OF assms(1) [unfolded InsertPicTag_def] job_at_D(1) [OF assms(2)]] by blast
  then have tx: "tx_at w' (d\<lparr>db_pictags := db_pictags d @ [\<lparr>tr_vals = vals, tr_data = x\<rparr>]\<rparr>)"
    by (simp add: pictags_table_def)
  have "job_at ev d0 (d\<lparr>db_pictags := db_pictags d @ [\<lparr>tr_vals = vals, tr_data = x\<rparr>]\<rparr>) w'"
    by (rule job_atI [OF keeps_base_tables(13) keeps_fit_inserts(3) assms tx])
  then show thesis by (rule that) simp
qed

lemma job_insert_idents:
  assumes "InsertPicIdent x w = (Ok u, w')" "job_at ev d0 d w"
  obtains rows where "job_at ev d0 (d\<lparr>db_idents := rows\<rparr>) w'" "msgs rows = msgs (db_idents d) @ [x]"
proof -
  obtain vals where "tx_at w' (tb_put idents_table (tb_get idents_table d @ [\<lparr>tr_vals = vals, tr_data = x\<rparr>]) d)"
    using insert_Ok [OF assms(1) [unfolded InsertPicIdent_def] job_at_D(1) [OF assms(2)]] by blast
  then have tx: "tx_at w' (d\<lparr>db_idents := db_idents d @ [\<lparr>tr_vals = vals, tr_data = x\<rparr>]\<rparr>)"
    by (simp add: idents_table_def)
  have "job_at ev d0 (d\<lparr>db_idents := db_idents d @ [\<lparr>tr_vals = vals, tr_data = x\<rparr>]\<rparr>) w'"
    by (rule job_atI [OF keeps_base_tables(14) keeps_fit_inserts(4) assms tx])
  then show thesis by (rule that) simp
qed

lemma job_insert_comments:
  assumes "InsertPicComment x w = (Ok u, w')" "job_at ev d0 d w"
  obtains rows where "job_at ev d0 (d\<lparr>db_comments := rows\<rparr>) w'" "msgs rows = msgs (db_comments d) @ [x]"
proof -
  obtain vals where "tx_at w' (tb_put comments_table (tb_get comments_table d @ [\<lparr>tr_vals = vals, tr_data = x\<rparr>]) d)"
    using insert_Ok [OF assms(1) [unfolded InsertPicComment_def] job_at_D(1) [OF assms(2)]] by blast
  then have tx: "tx_at w' (d\<lparr>db_comments := db_comments d @ [\<lparr>tr_vals = vals, tr_data = x\<rparr>]\<rparr>)"
    by (simp add: comments_table_def)
  have "job_at ev d0 (d\<lparr>db_comments := db_comments d @ [\<lparr>tr_vals = vals, tr_data = x\<rparr>]\<rparr>) w'"
    by (rule job_atI [OF keeps_base_tables(15) keeps_fit_inserts(5) assms tx])
  then show thesis by (rule that) simp
qed

lemma job_insert_votes:
  assumes "InsertPicVote x w = (Ok u, w')" "job_at ev d0 d w"
  obtains rows where "job_at ev d0 (d\<lparr>db_votes := rows\<rparr>) w'" "msgs rows = msgs (db_votes d) @ [x]"
proof -
  obtain vals where "tx_at w' (tb_put votes_table (tb_get votes_table d @ [\<lparr>tr_vals = vals, tr_data = x\<rparr>]) d)"
    using insert_Ok [OF assms(1) [unfolded InsertPicVote_def] job_at_D(1) [OF assms(2)]] by blast
  then have tx: "tx_at w' (d\<lparr>db_votes := db_votes d @ [\<lparr>tr_vals = vals, tr_data = x\<rparr>]\<rparr>)"
    by (simp add: votes_table_def)
  have "job_at ev d0 (d\<lparr>db_votes := db_votes d @ [\<lparr>tr_vals = vals, tr_data = x\<rparr>]\<rparr>) w'"
    by (rule job_atI [OF keeps_base_tables(16) keeps_fit_inserts(6) assms tx])
  then show thesis by (rule that) simp
qed

lemma job_insert_cvotes:
  assumes "InsertPicCommentVote x w = (Ok u, w')" "job_at ev d0 d w"
  obtains rows where "job_at ev d0 (d\<lparr>db_cvotes := rows\<rparr>) w'" "msgs rows = msgs (db_cvotes d) @ [x]"
proof -
  obtain vals where "tx_at w' (tb_put cvotes_table (tb_get cvotes_table d @ [\<lparr>tr_vals = vals, tr_data = x\<rparr>]) d)"
    using insert_Ok [OF assms(1) [unfolded InsertPicCommentVote_def] job_at_D(1) [OF assms(2)]] by blast
  then have tx: "tx_at w' (d\<lparr>db_cvotes := db_cvotes d @ [\<lparr>tr_vals = vals, tr_data = x\<rparr>]\<rparr>)"
    by (simp add: cvotes_table_def)
  have "job_at ev d0 (d\<lparr>db_cvotes := db_cvotes d @ [\<lparr>tr_vals = vals, tr_data = x\<rparr>]\<rparr>) w'"
    by (rule job_atI [OF keeps_base_tables(17) keeps_fit_inserts(7) assms tx])
  then show thesis by (rule that) simp
qed

lemma job_insert_users:
  assumes "InsertUser x w = (Ok u, w')" "job_at ev d0 d w"
  obtains rows where "job_at ev d0 (d\<lparr>db_users := rows\<rparr>) w'" "msgs rows = msgs (db_users d) @ [x]"
proof -
  obtain vals where "tx_at w' (tb_put users_table (tb_get users_table d @ [\<lparr>tr_vals = vals, tr_data = x\<rparr>]) d)"
    using insert_Ok [OF assms(1) [unfolded InsertUser_def] job_at_D(1) [OF assms(2)]] by blast
  then have tx: "tx_at w' (d\<lparr>db_users := db_users d @ [\<lparr>tr_vals = vals, tr_data = x\<rparr>]\<rparr>)"
    by (simp add: users_table_def)
  have "job_at ev d0 (d\<lparr>db_users := db_users d @ [\<lparr>tr_vals = vals, tr_data = x\<rparr>]\<rparr>) w'"
    by (rule job_atI [OF keeps_base_tables(18) keeps_fit_inserts(8) assms tx])
  then show thesis by (rule that) simp
qed

lemma job_insert_events:
  assumes "InsertUserEvent x w = (Ok u, w')" "job_at ev d0 d w"
  obtains rows where "job_at ev d0 (d\<lparr>db_events := rows\<rparr>) w'" "msgs rows = msgs (db_events d) @ [x]"
proof -
  obtain vals where "tx_at w' (tb_put events_table (tb_get events_table d @ [\<lparr>tr_vals = vals, tr_data = x\<rparr>]) d)"
    using insert_Ok [OF assms(1) [unfolded InsertUserEvent_def] job_at_D(1) [OF assms(2)]] by blast
  then have tx: "tx_at w' (d\<lparr>db_events := db_events d @ [\<lparr>tr_vals = vals, tr_data = x\<rparr>]\<rparr>)"
    by (simp add: events_table_def)
  have "job_at ev d0 (d\<lparr>db_events := db_events d @ [\<lparr>tr_vals = vals, tr_data = x\<rparr>]\<rparr>) w'"
    by (rule job_atI [OF keeps_base_tables(19) keeps_fit_inserts(9) assms tx])
  then show thesis by (rule that) simp
qed

subsection \<open>Updates and deletes\<close>

lemma job_update_pics:
  assumes "UpdatePic x w = (Ok u, w')" "job_at ev d0 d w"
  obtains rows where "job_at ev d0 (d\<lparr>db_pics := rows\<rparr>) w'"
    "msgs rows = map (\<lambda>q. if p_id q = p_id x then x else q) (msgs (db_pics d))"
proof -
  have key: "Vals (KeyForPic x) = Ok [SInt (p_id x)]"
    by (simp add: key_defs index_defs)
  obtain vals where "tx_at w' (tb_put pics_table (map (\<lambda>r. if matches_key (tb_cols pics_table)
      (Cols (KeyForPic x)) [SInt (p_id x)] r then \<lparr>tr_vals = vals, tr_data = x\<rparr> else r)
      (tb_get pics_table d)) d)"
    using update_Ok [OF assms(1) [unfolded UpdatePic_def] job_at_D(1) [OF assms(2)] key] by blast
  then have tx: "tx_at w' (d\<lparr>db_pics := map (\<lambda>r. if matches_key (tb_cols pics_table)
      (Cols (KeyForPic x)) [SInt (p_id x)] r then \<lparr>tr_vals = vals, tr_data = x\<rparr> else r) (db_pics d)\<rparr>)"
    by (simp add: pics_table_def)
  have "matches_key (tb_cols pics_table) (Cols (KeyForPic x)) [SInt (p_id x)] r \<longleftrightarrow>
      (\<lambda>q. p_id q = p_id x) (tr_data r)" if "r \<in> set (db_pics d)" for r
    using pics_cols [OF job_at_D(2) [OF assms(2)] that]
    by (auto simp: matches_key_def key_defs find_unfold)
  then have "msgs (map (\<lambda>r. if matches_key (tb_cols pics_table) (Cols (KeyForPic x)) [SInt (p_id x)] r
      then \<lparr>tr_vals = vals, tr_data = x\<rparr> else r) (db_pics d)) =
      map (\<lambda>q. if p_id q = p_id x then x else q) (msgs (db_pics d))"
    by (auto simp: msgs_def)
  then show thesis
    using that job_atI [OF keeps_base_tables(21) keeps_fit_updates(1) assms tx] by blast
qed

lemma job_delete_pics:
  assumes "DeletePic (PicsPrimary (Some i)) w = (Ok u, w')" "job_at ev d0 d w"
  obtains rows where "job_at ev d0 (d\<lparr>db_pics := rows\<rparr>) w'"
    "msgs rows = filter (\<lambda>q. \<not> (p_id q = i)) (msgs (db_pics d))"
proof -
  have key: "Vals (PicsPrimary (Some i)) = Ok [SInt i]" by (simp add: index_defs)
  have tx: "tx_at w' (d\<lparr>db_pics := filter (\<lambda>r. \<not> matches_key (tb_cols pics_table)
      (Cols (PicsPrimary (Some i))) [SInt i] r) (db_pics d)\<rparr>)"
    using delete_Ok [OF assms(1) [unfolded DeletePic_def] job_at_D(1) [OF assms(2)] key]
    by (simp add: pics_table_def)
  have "matches_key (tb_cols pics_table) (Cols (PicsPrimary (Some i))) [SInt i] r \<longleftrightarrow> (\<lambda>q. p_id q = i) (tr_data r)"
    if "r \<in> set (db_pics d)" for r
    using pics_cols [OF job_at_D(2) [OF assms(2)] that]
    by (auto simp: matches_key_def find_unfold)
  then have "msgs (filter (\<lambda>r. \<not> matches_key (tb_cols pics_table) (Cols (PicsPrimary (Some i))) [SInt i] r) (db_pics d)) =
      filter (\<lambda>q. \<not> (p_id q = i)) (msgs (db_pics d))"
    by (simp add: msgs_def filter_map comp_def cong: filter_cong)
  then show thesis
    using that job_atI [OF keeps_base_tables(30) keeps_fit_deletes(1) assms tx] by blast
qed

lemma job_update_tags:
  assumes "UpdateTag x w = (Ok u, w')" "job_at ev d0 d w"
  obtains rows where "job_at ev d0 (d\<lparr>db_tags := rows\<rparr>) w'"
    "msgs rows = map (\<lambda>q. if t_id q = t_id x then x else q) (msgs (db_tags d))"
proof -
  have key: "Vals (KeyForTag x) = Ok [SInt (t_id x)]"
    by (simp add: key_defs index_defs)
  obtain vals where "tx_at w' (tb_put tags_table (map (\<lambda>r. if matches_key (tb_cols tags_table)
      (Cols (KeyForTag x)) [SInt (t_id x)] r then \<lparr>tr_vals = vals, tr_data = x\<rparr> else r)
      (tb_get tags_table d)) d)"
    using update_Ok [OF assms(1) [unfolded UpdateTag_def] job_at_D(1) [OF assms(2)] key] by blast
  then have tx: "tx_at w' (d\<lparr>db_tags := map (\<lambda>r. if matches_key (tb_cols tags_table)
      (Cols (KeyForTag x)) [SInt (t_id x)] r then \<lparr>tr_vals = vals, tr_data = x\<rparr> else r) (db_tags d)\<rparr>)"
    by (simp add: tags_table_def)
  have "matches_key (tb_cols tags_table) (Cols (KeyForTag x)) [SInt (t_id x)] r \<longleftrightarrow>
      (\<lambda>q. t_id q = t_id x) (tr_data r)" if "r \<in> set (db_tags d)" for r
    using tags_cols [OF job_at_D(2) [OF assms(2)] that]
    by (auto simp: matches_key_def key_defs find_unfold)
  then have "msgs (map (\<lambda>r. if matches_key (tb_cols tags_table) (Cols (KeyForTag x)) [SInt (t_id x)] r
      then \<lparr>tr_vals = vals, tr_data = x\<rparr> else r) (db_tags d)) =
      map (\<lambda>q. if t_id q = t_id x then x else q) (msgs (db_tags d))"
    by (auto simp: msgs_def)
  then show thesis
    using that job_atI [OF keeps_base_tables(22) keeps_fit_updates(2) assms tx] by blast
qed

lemma job_delete_tags:
  assumes "DeleteTag (TagsPrimary (Some i)) w = (Ok u, w')" "job_at ev d0 d w"
  obtains rows where "job_at ev d0 (d\<lparr>db_tags := rows\<rparr>) w'"
    "msgs rows = filter (\<lambda>q. \<not> (t_id q = i)) (msgs (db_tags d))"
proof -
  have key: "Vals (TagsPrimary (Some i)) = Ok [SInt i]" by (simp add: index_defs)
  have tx: "tx_at w' (d\<lparr>db_tags := filter (\<lambda>r. \<not> matches_key (tb_cols tags_table)
      (Cols (TagsPrimary (Some i))) [SInt i] r) (db_tags d)\<rparr>)"
    using delete_Ok [OF assms(1) [unfolded DeleteTag_def] job_at_D(1) [OF assms(2)] key]
    by (simp add: tags_table_def)
  have "matches_key (tb_cols tags_table) (Cols (TagsPrimary (Some i))) [SInt i] r \<longleftrightarrow> (\<lambda>q. t_id q = i) (tr_data r)"
    if "r \<in> set (db_tags d)" for r
    using tags_cols [OF job_at_D(2) [OF assms(2)] that]
    by (auto simp: matches_key_def find_unfold)
  then have "msgs (filter (\<lambda>r. \<not> matches_key (tb_cols tags_table) (Cols (TagsPrimary (Some i))) [SInt i] r) (db_tags d)) =
      filter (\<lambda>q. \<not> (t_id q = i)) (msgs (db_tags d))"
    by (simp add: msgs_def filter_map comp_def cong: filter_cong)
  then show thesis
    using that job_atI [OF keeps_base_tables(31) keeps_fit_deletes(2) assms tx] by blast
qed

lemma job_update_pictags:
  assumes "UpdatePicTag x w = (Ok u, w')" "job_at ev d0 d w"
  obtains rows where "job_at ev d0 (d\<lparr>db_pictags := rows\<rparr>) w'"
    "msgs rows = map (\<lambda>q. if pt_pic q = pt_pic x \<and> pt_tag q = pt_tag x then x else q) (msgs (db_pictags d))"
proof -
  have key: "Vals (KeyForPicTag x) = Ok [SInt (pt_pic x), SInt (pt_tag x)]"
    by (simp add: key_defs index_defs)
  obtain vals where "tx_at w' (tb_put pictags_table (map (\<lambda>r. if matches_key (tb_cols pictags_table)
      (Cols (KeyForPicTag x)) [SInt (pt_pic x), SInt (pt_tag x)] r then \<lparr>tr_vals = vals, tr_data = x\<rparr> else r)
      (tb_get pictags_table d)) d)"
    using update_Ok [OF assms(1) [unfolded UpdatePicTag_def] job_at_D(1) [OF assms(2)] key] by blast
  then have tx: "tx_at w' (d\<lparr>db_pictags := map (\<lambda>r. if matches_key (tb_cols pictags_table)
      (Cols (KeyForPicTag x)) [SInt (pt_pic x), SInt (pt_tag x)] r then \<lparr>tr_vals = vals, tr_data = x\<rparr> else r) (db_pictags d)\<rparr>)"
    by (simp add: pictags_table_def)
  have "matches_key (tb_cols pictags_table) (Cols (KeyForPicTag x)) [SInt (pt_pic x), SInt (pt_tag x)] r \<longleftrightarrow>
      (\<lambda>q. pt_pic q = pt_pic x \<and> pt_tag q = pt_tag x) (tr_data r)" if "r \<in> set (db_pictags d)" for r
    using pictags_cols [OF job_at_D(2) [OF assms(2)] that]
    by (auto simp: matches_key_def key_defs find_unfold)
  then have "msgs (map (\<lambda>r. if matches_key (tb_cols pictags_table) (Cols (KeyForPicTag x)) [SInt (pt_pic x), SInt (pt_tag x)] r
      then \<lparr>tr_vals = vals, tr_data = x\<rparr> else r) (db_pictags d)) =
      map (\<lambda>q. if pt_pic q = pt_pic x \<and> pt_tag q = pt_tag x then x else q) (msgs (db_pictags d))"
    by (auto simp: msgs_def)
  then show thesis
    using that job_atI [OF keeps_base_tables(23) keeps_fit_updates(3) assms tx] by blast
qed

lemma job_delete_pictags:
  assumes "DeletePicTag (PicTagsPrimary (Some i) (Some j)) w = (Ok u, w')" "job_at ev d0 d w"
  obtains rows where "job_at ev d0 (d\<lparr>db_pictags := rows\<rparr>) w'"
    "msgs rows = filter (\<lambda>q. \<not> (pt_pic q = i \<and> pt_tag q = j)) (msgs (db_pictags d))"
proof -
  have key: "Vals (PicTagsPrimary (Some i) (Some j)) = Ok [SInt i, SInt j]" by (simp add: index_defs)
  have tx: "tx_at w' (d\<lparr>db_pictags := filter (\<lambda>r. \<not> matches_key (tb_cols pictags_table)
      (Cols (PicTagsPrimary (Some i) (Some j))) [SInt i, SInt j] r) (db_pictags d)\<rparr>)"
    using delete_Ok [OF assms(1) [unfolded DeletePicTag_def] job_at_D(1) [OF assms(2)] key]
    by (simp add: pictags_table_def)
  have "matches_key (tb_cols pictags_table) (Cols (PicTagsPrimary (Some i) (Some j))) [SInt i, SInt j] r \<longleftrightarrow> (\<lambda>q. pt_pic q = i \<and> pt_tag q = j) (tr_data r)"
    if "r \<in> set (db_pictags d)" for r
    using pictags_cols [OF job_at_D(2) [OF assms(2)] that]
    by (auto simp: matches_key_def find_unfold)
  then have "msgs (filter (\<lambda>r. \<not> matches_key (tb_cols pictags_table) (Cols (PicTagsPrimary (Some i) (Some j))) [SInt i, SInt j] r) (db_pictags d)) =
      filter (\<lambda>q. \<not> (pt_pic q = i \<and> pt_tag q = j)) (msgs (db_pictags d))"
    by (simp add: msgs_def filter_map comp_def cong: filter_cong)
  then show thesis
    using that job_atI [OF keeps_base_tables(32) keeps_fit_deletes(3) assms tx] by blast
qed

lemma job_update_comments:
  assumes "UpdatePicComment x w = (Ok u, w')" "job_at ev d0 d w"
  obtains rows where "job_at ev d0 (d\<lparr>db_comments := rows\<rparr>) w'"
    "msgs rows = map (\<lambda>q. if pc_pic q = pc_pic x \<and> pc_id q = pc_id x then x else q) (msgs (db_comments d))"
proof -
  have key: "Vals (KeyForPicComment x) = Ok [SInt (pc_pic x), SInt (pc_id x)]"
    by (simp add: key_defs index_defs)
  obtain vals where "tx_at w' (tb_put comments_table (map (\<lambda>r. if matches_key (tb_cols comments_table)
      (Cols (KeyForPicComment x)) [SInt (pc_pic x), SInt (pc_id x)] r then \<lparr>tr_vals = vals, tr_data = x\<rparr> else r)
      (tb_get comments_table d)) d)"
    using update_Ok [OF assms(1) [unfolded UpdatePicComment_def] job_at_D(1) [OF assms(2)] key] by blast
  then have tx: "tx_at w' (d\<lparr>db_comments := map (\<lambda>r. if matches_key (tb_cols comments_table)
      (Cols (KeyForPicComment x)) [SInt (pc_pic x), SInt (pc_id x)] r then \<lparr>tr_vals = vals, tr_data = x\<rparr> else r) (db_comments d)\<rparr>)"
    by (simp add: comments_table_def)
  have "matches_key (tb_cols comments_table) (Cols (KeyForPicComment x)) [SInt (pc_pic x), SInt (pc_id x)] r \<longleftrightarrow>
      (\<lambda>q. pc_pic q = pc_pic x \<and> pc_id q = pc_id x) (tr_data r)" if "r \<in> set (db_comments d)" for r
    using comments_cols [OF job_at_D(2) [OF assms(2)] that]
    by (auto simp: matches_key_def key_defs find_unfold)
  then have "msgs (map (\<lambda>r. if matches_key (tb_cols comments_table) (Cols (KeyForPicComment x)) [SInt (pc_pic x), SInt (pc_id x)] r
      then \<lparr>tr_vals = vals, tr_data = x\<rparr> else r) (db_comments d)) =
      map (\<lambda>q. if pc_pic q = pc_pic x \<and> pc_id q = pc_id x then x else q) (msgs (db_comments d))"
    by (auto simp: msgs_def)
  then show thesis
    using that job_atI [OF keeps_base_tables(25) keeps_fit_updates(5) assms tx] by blast
qed

lemma job_delete_comments:
  assumes "DeletePicComment (PicCommentsPrimary (Some i) (Some j)) w = (Ok u, w')" "job_at ev d0 d w"
  obtains rows where "job_at ev d0 (d\<lparr>db_comments := rows\<rparr>) w'"
    "msgs rows = filter (\<lambda>q. \<not> (pc_pic q = i \<and> pc_id q = j)) (msgs (db_comments d))"
proof -
  have key: "Vals (PicCommentsPrimary (Some i) (Some j)) = Ok [SInt i, SInt j]" by (simp add: index_defs)
  have tx: "tx_at w' (d\<lparr>db_comments := filter (\<lambda>r. \<not> matches_key (tb_cols comments_table)
      (Cols (PicCommentsPrimary (Some i) (Some j))) [SInt i, SInt j] r) (db_comments d)\<rparr>)"
    using delete_Ok [OF assms(1) [unfolded DeletePicComment_def] job_at_D(1) [OF assms(2)] key]
    by (simp add: comments_table_def)
  have "matches_key (tb_cols comments_table) (Cols (PicCommentsPrimary (Some i) (Some j))) [SInt i, SInt j] r \<longleftrightarrow> (\<lambda>q. pc_pic q = i \<and> pc_id q = j) (tr_data r)"
    if "r \<in> set (db_comments d)" for r
    using comments_cols [OF job_at_D(2) [OF assms(2)] that]
    by (auto simp: matches_key_def find_unfold)
  then have "msgs (filter (\<lambda>r. \<not> matches_key (tb_cols comments_table) (Cols (PicCommentsPrimary (Some i) (Some j))) [SInt i, SInt j] r) (db_comments d)) =
      filter (\<lambda>q. \<not> (pc_pic q = i \<and> pc_id q = j)) (msgs (db_comments d))"
    by (simp add: msgs_def filter_map comp_def cong: filter_cong)
  then show thesis
    using that job_atI [OF keeps_base_tables(34) keeps_fit_deletes(5) assms tx] by blast
qed

lemma job_update_users:
  assumes "UpdateUser x w = (Ok u, w')" "job_at ev d0 d w"
  obtains rows where "job_at ev d0 (d\<lparr>db_users := rows\<rparr>) w'"
    "msgs rows = map (\<lambda>q. if u_id q = u_id x then x else q) (msgs (db_users d))"
proof -
  have key: "Vals (KeyForUser x) = Ok [SInt (u_id x)]"
    by (simp add: key_defs index_defs)
  obtain vals where "tx_at w' (tb_put users_table (map (\<lambda>r. if matches_key (tb_cols users_table)
      (Cols (KeyForUser x)) [SInt (u_id x)] r then \<lparr>tr_vals = vals, tr_data = x\<rparr> else r)
      (tb_get users_table d)) d)"
    using update_Ok [OF assms(1) [unfolded UpdateUser_def] job_at_D(1) [OF assms(2)] key] by blast
  then have tx: "tx_at w' (d\<lparr>db_users := map (\<lambda>r. if matches_key (tb_cols users_table)
      (Cols (KeyForUser x)) [SInt (u_id x)] r then \<lparr>tr_vals = vals, tr_data = x\<rparr> else r) (db_users d)\<rparr>)"
    by (simp add: users_table_def)
  have "matches_key (tb_cols users_table) (Cols (KeyForUser x)) [SInt (u_id x)] r \<longleftrightarrow>
      (\<lambda>q. u_id q = u_id x) (tr_data r)" if "r \<in> set (db_users d)" for r
    using users_cols [OF job_at_D(2) [OF assms(2)] that]
    by (auto simp: matches_key_def key_defs find_unfold)
  then have "msgs (map (\<lambda>r. if matches_key (tb_cols users_table) (Cols (KeyForUser x)) [SInt (u_id x)] r
      then \<lparr>tr_vals = vals, tr_data = x\<rparr> else r) (db_users d)) =
      map (\<lambda>q. if u_id q = u_id x then x else q) (msgs (db_users d))"
    by (auto simp: msgs_def)
  then show thesis
    using that job_atI [OF keeps_base_tables(28) keeps_fit_updates(8) assms tx] by blast
qed

lemma job_delete_users:
  assumes "DeleteUser (UsersPrimary (Some i)) w = (Ok u, w')" "job_at ev d0 d w"
  obtains rows where "job_at ev d0 (d\<lparr>db_users := rows\<rparr>) w'"
    "msgs rows = filter (\<lambda>q. \<not> (u_id q = i)) (msgs (db_users d))"
proof -
  have key: "Vals (UsersPrimary (Some i)) = Ok [SInt i]" by (simp add: index_defs)
  have tx: "tx_at w' (d\<lparr>db_users := filter (\<lambda>r. \<not> matches_key (tb_cols users_table)
      (Cols (UsersPrimary (Some i))) [SInt i] r) (db_users d)\<rparr>)"
    using delete_Ok [OF assms(1) [unfolded DeleteUser_def] job_at_D(1) [OF assms(2)] key]
    by (simp add: users_table_def)
  have "matches_key (tb_cols users_table) (Cols (UsersPrimary (Some i))) [SInt i] r \<longleftrightarrow> (\<lambda>q. u_id q = i) (tr_data r)"
    if "r \<in> set (db_users d)" for r
    using users_cols [OF job_at_D(2) [OF assms(2)] that]
    by (auto simp: matches_key_def find_unfold)
  then have "msgs (filter (\<lambda>r. \<not> matches_key (tb_cols users_table) (Cols (UsersPrimary (Some i))) [SInt i] r) (db_users d)) =
      filter (\<lambda>q. \<not> (u_id q = i)) (msgs (db_users d))"
    by (simp add: msgs_def filter_map comp_def cong: filter_cong)
  then show thesis
    using that job_atI [OF keeps_base_tables(37) keeps_fit_deletes(8) assms tx] by blast
qed

lemma job_update_idents:
  assumes "UpdatePicIdent x w = (Ok u, w')" "job_at ev d0 d w"
  obtains rows where "job_at ev d0 (d\<lparr>db_idents := rows\<rparr>) w'"
    "msgs rows = map (\<lambda>q. if pi_pic q = pi_pic x \<and> pi_type q = pi_type x \<and> pi_value q = pi_value x then x else q) (msgs (db_idents d))"
proof -
  have key: "Vals (KeyForPicIdent x) = Ok [SInt (pi_pic x), SInt (pi_type x), SBytes (pi_value x)]"
    by (simp add: key_defs index_defs)
  obtain vals where "tx_at w' (tb_put idents_table (map (\<lambda>r. if matches_key (tb_cols idents_table)
      (Cols (KeyForPicIdent x)) [SInt (pi_pic x), SInt (pi_type x), SBytes (pi_value x)] r then \<lparr>tr_vals = vals, tr_data = x\<rparr> else r)
      (tb_get idents_table d)) d)"
    using update_Ok [OF assms(1) [unfolded UpdatePicIdent_def] job_at_D(1) [OF assms(2)] key] by blast
  then have tx: "tx_at w' (d\<lparr>db_idents := map (\<lambda>r. if matches_key (tb_cols idents_table)
      (Cols (KeyForPicIdent x)) [SInt (pi_pic x), SInt (pi_type x), SBytes (pi_value x)] r then \<lparr>tr_vals = vals, tr_data = x\<rparr> else r) (db_idents d)\<rparr>)"
    by (simp add: idents_table_def)
  have "matches_key (tb_cols idents_table) (Cols (KeyForPicIdent x)) [SInt (pi_pic x), SInt (pi_type x), SBytes (pi_value x)] r \<longleftrightarrow>
      (\<lambda>q. pi_pic q = pi_pic x \<and> pi_type q = pi_type x \<and> pi_value q = pi_value x) (tr_data r)" if "r \<in> set (db_idents d)" for r
    using idents_cols [OF job_at_D(2) [OF assms(2)] that]
    by (auto simp: matches_key_def key_defs find_unfold)
  then have "msgs (map (\<lambda>r. if matches_key (tb_cols idents_table) (Cols (KeyForPicIdent x)) [SInt (pi_pic x), SInt (pi_type x), SBytes (pi_value x)] r
      then \<lparr>tr_vals = vals, tr_data = x\<rparr> else r) (db_idents d)) =
      map (\<lambda>q. if pi_pic q = pi_pic x \<and> pi_type q = pi_type x \<and> pi_value q = pi_value x then x else q) (msgs (db_idents d))"
    by (auto simp: msgs_def)
  then show thesis
    using that job_atI [OF keeps_base_tables(24) keeps_fit_updates(4) assms tx] by blast
qed

lemma job_delete_idents:
  assumes "DeletePicIdent (PicIdentsPrimary (Some i) (Some j) (Some v)) w = (Ok u, w')" "job_at ev d0 d w"
  obtains rows where "job_at ev d0 (d\<lparr>db_idents := rows\<rparr>) w'"
    "msgs rows = filter (\<lambda>q. \<not> (pi_pic q = i \<and> pi_type q = j \<and> pi_value q = v)) (msgs (db_idents d))"
proof -
  have key: "Vals (PicIdentsPrimary (Some i) (Some j) (Some v)) = Ok [SInt i, SInt j, SBytes v]" by (simp add: index_defs)
  have tx: "tx_at w' (d\<lparr>db_idents := filter (\<lambda>r. \<not> matches_key (tb_cols idents_table)
      (Cols (PicIdentsPrimary (Some i) (Some j) (Some v))) [SInt i, SInt j, SBytes v] r) (db_idents d)\<rparr>)"
    using delete_Ok [OF assms(1) [unfolded DeletePicIdent_def] job_at_D(1) [OF assms(2)] key]
    by (simp add: idents_table_def)
  have "matches_key (tb_cols idents_table) (Cols (PicIdentsPrimary (Some i) (Some j) (Some v))) [SInt i, SInt j, SBytes v] r \<longleftrightarrow> (\<lambda>q. pi_pic q = i \<and> pi_type q = j \<and> pi_value q = v) (tr_data r)"
    if "r \<in> set (db_idents d)" for r
    using idents_cols [OF job_at_D(2) [OF assms(2)] that]
    by (auto simp: matches_key_def find_unfold)
  then have "msgs (filter (\<lambda>r. \<not> matches_key (tb_cols idents_table) (Cols (PicIdentsPrimary (Some i) (Some j) (Some v))) [SInt i, SInt j, SBytes v] r) (db_idents d)) =
      filter (\<lambda>q. \<not> (pi_pic q = i \<and> pi_type q = j \<and> pi_value q = v)) (msgs (db_idents d))"
    by (simp add: msgs_def filter_map comp_def cong: filter_cong)
  then show thesis
    using that job_atI [OF keeps_base_tables(33) keeps_fit_deletes(4) assms tx] by blast
qed

lemma job_update_votes:
  assumes "UpdatePicVote x w = (Ok u, w')" "job_at ev d0 d w"
  obtains rows where "job_at ev d0 (d\<lparr>db_votes := rows\<rparr>) w'"
    "msgs rows = map (\<lambda>q. if pv_pic q = pv_pic x \<and> pv_user q = pv_user x \<and> pv_index q = pv_index x then x else q) (msgs (db_votes d))"
proof -
  have key: "Vals (KeyForPicVote x) = Ok [SInt (pv_pic x), SInt (pv_user x), SInt (pv_index x)]"
    by (simp add: key_defs index_defs)
  obtain vals where "tx_at w' (tb_put votes_table (map (\<lambda>r. if matches_key (tb_cols votes_table)
      (Cols (KeyForPicVote x)) [SInt (pv_pic x), SInt (pv_user x), SInt (pv_index x)] r then \<lparr>tr_vals = vals, tr_data = x\<rparr> else r)
      (tb_get votes_table d)) d)"
    using update_Ok [OF assms(1) [unfolded UpdatePicVote_def] job_at_D(1) [OF assms(2)] key] by blast
  then have tx: "tx_at w' (d\<lparr>db_votes := map (\<lambda>r. if matches_key (tb_cols votes_table)
      (Cols (KeyForPicVote x)) [SInt (pv_pic x), SInt (pv_user x), SInt (pv_index x)] r then \<lparr>tr_vals = vals, tr_data = x\<rparr> else r) (db_votes d)\<rparr>)"
    by (simp add: votes_table_def)
  have "matches_key (tb_cols votes_table) (Cols (KeyForPicVote x)) [SInt (pv_pic x), SInt (pv_user x), SInt (pv_index x)] r \<longleftrightarrow>
      (\<lambda>q. pv_pic q = pv_pic x \<and> pv_user q = pv_user x \<and> pv_index q = pv_index x) (tr_data r)" if "r \<in> set (db_votes d)" for r
    using votes_cols [OF job_at_D(2) [OF assms(2)] that]
    by (auto simp: matches_key_def key_defs find_unfold)
  then have "msgs (map (\<lambda>r. if matches_key (tb_cols votes_table) (Cols (KeyForPicVote x)) [SInt (pv_pic x), SInt (pv_user x), SInt (pv_index x)] r
      then \<lparr>tr_vals = vals, tr_data = x\<rparr> else r) (db_votes d)) =
      map (\<lambda>q. if pv_pic q = pv_pic x \<and> pv_user q = pv_user x \<and> pv_index q = pv_index x then x else q) (msgs (db_votes d))"
    by (auto simp: msgs_def)
  then show thesis
    using that job_atI [OF keeps_base_tables(26) keeps_fit_updates(6) assms tx] by blast
qed

lemma job_delete_votes:
  assumes "DeletePicVote (PicVotesPrimary (Some i) (Some j) (Some k)) w = (Ok u, w')" "job_at ev d0 d w"
  obtains rows where "job_at ev d0 (d\<lparr>db_votes := rows\<rparr>) w'"
    "msgs rows = filter (\<lambda>q. \<not> (pv_pic q = i \<and> pv_user q = j \<and> pv_index q = k)) (msgs (db_votes d))"
proof -
  have key: "Vals (PicVotesPrimary (Some i) (Some j) (Some k)) = Ok [SInt i, SInt j, SInt k]" by (simp add: index_defs)
  have tx: "tx_at w' (d\<lparr>db_votes := filter (\<lambda>r. \<not> matches_key (tb_cols votes_table)
      (Cols (PicVotesPrimary (Some i) (Some j) (Some k))) [SInt i, SInt j, SInt k] r) (db_votes d)\<rparr>)"
    using delete_Ok [OF assms(1) [unfolded DeletePicVote_def] job_at_D(1) [OF assms(2)] key]
    by (simp add: votes_table_def)
  have "matches_key (tb_cols votes_table) (Cols (PicVotesPrimary (Some i) (Some j) (Some k))) [SInt i, SInt j, SInt k] r \<longleftrightarrow> (\<lambda>q. pv_pic q = i \<and> pv_user q = j \<and> pv_index q = k) (tr_data r)"
    if "r \<in> set (db_votes d)" for r
    using votes_cols [OF job_at_D(2) [OF assms(2)] that]
    by (auto simp: matches_key_def find_unfold)
  then have "msgs (filter (\<lambda>r. \<not> matches_key (tb_cols votes_table) (Cols (PicVotesPrimary (Some i) (Some j) (Some k))) [SInt i, SInt j, SInt k] r) (db_votes d)) =
      filter (\<lambda>q. \<not> (pv_pic q = i \<and> pv_user q = j \<and> pv_index q = k)) (msgs (db_votes d))"
    by (simp add: msgs_def filter_map comp_def cong: filter_cong)
  then show thesis
    using that job_atI [OF keeps_base_tables(35) keeps_fit_deletes(6) assms tx] by blast
qed

lemma job_AllocId:
  assumes "AllocId w = (Ok i, w')" "job_at ev d0 d w"
  obtains s where "job_at ev d0 (d\<lparr>db_seq := s\<rparr>) w'"
  using AllocId_tx [OF assms(1) job_at_D(1) [OF assms(2)]]
    job_atI [OF keeps_base_AllocId keeps_fit_AllocId assms] by blast

end
