(* ===== verification/Auth.thy ===== *)
theory Auth
  imports JobSteps CapSets
begin

section \<open>Configuration and authentication (be/tasks/configuration.go, auth.go, authctx.go)\<close>

text \<open>
  Every task starts with \<open>authedJob\<close>: it opens a job, looks up the user of the request's
  token, and, if the user or the token was last seen more than a day ago, records the visit in
  a transaction of its own before it starts over. The permission checks compare the user's
  capabilities, or those of the anonymous user in the configuration, with the wanted ones.
\<close>

subsection \<open>Context and configuration\<close>

text \<open>
  What a request carries: the token of the user, a configuration that tests set, and the
  error its context reports once it is done waiting for a configuration that nobody loads.
\<close>

record ctx =
  cx_token :: "(int \<times> int) option"
  cx_conf :: "configuration option"
  cx_err :: gerr

definition UserTokenFromCtx :: "ctx \<Rightarrow> (int \<times> int) option" where
  "UserTokenFromCtx cx = cx_token cx"

definition CtxFromUserToken :: "ctx \<Rightarrow> int \<Rightarrow> int \<Rightarrow> ctx" where
  "CtxFromUserToken cx uid tid = cx\<lparr>cx_token := Some (uid, tid)\<rparr>"

definition LoadConfigurationTask :: "configuration option \<Rightarrow> unit io" where
  "LoadConfigurationTask conf =
     modify (\<lambda>w. w\<lparr>w_site := Some (MergeConfiguration GetDefaultConfiguration conf)\<rparr>)"

definition GetConfiguration :: "ctx \<Rightarrow> configuration io" where
  "GetConfiguration cx =
     (case cx_conf cx of
        Some conf \<Rightarrow> ret conf
      | None \<Rightarrow> bind (get_state w_site) (\<lambda>site.
          (case site of Some conf \<Rightarrow> ret conf | None \<Rightarrow> fail (From (cx_err cx)))))"

subsection \<open>Capabilities\<close>

definition validateCapSet :: "user option \<Rightarrow> configuration \<Rightarrow> capset \<Rightarrow> unit res" where
  "validateCapSet u conf want =
     (case u of
        Some usr \<Rightarrow> (case VerifyCapSubset (CapSetOf (u_caps usr)) want of None \<Rightarrow> Ok () | Some e \<Rightarrow> Err e)
      | None \<Rightarrow>
          (case c_anonymous conf of
             None \<Rightarrow> Panic ''nil pointer dereference''
           | Some caps \<Rightarrow> (case VerifyCapSubset (CapSetOf caps) want of None \<Rightarrow> Ok () | Some e \<Rightarrow> Err e)))"

definition validateCapability :: "user option \<Rightarrow> configuration \<Rightarrow> int list \<Rightarrow> unit res" where
  "validateCapability u conf caps = validateCapSet u conf (CapSetOf caps)"

text \<open>\<open>userCred\<close> of add_pic_comment_task.go: who asks, and what they may see.\<close>

record user_cred =
  uc_subject :: int
  uc_caps :: capset

definition userCredOf :: "user option \<Rightarrow> configuration \<Rightarrow> user_cred res" where
  "userCredOf su conf =
     (case su of
        Some u \<Rightarrow> Ok \<lparr>uc_subject = u_id u, uc_caps = CapSetOf (u_caps u)\<rparr>
      | None \<Rightarrow>
          (case c_anonymous conf of
             None \<Rightarrow> Panic ''nil pointer dereference''
           | Some caps \<Rightarrow> Ok \<lparr>uc_subject = AnonymousUserId, uc_caps = CapSetOf caps\<rparr>))"

subsection \<open>Looking up the user\<close>

definition lastSeenUpdateThreshold :: int where
  "lastSeenUpdateThreshold = 24 * 3600 * 1000000000"

definition stale :: "int \<Rightarrow> int \<Rightarrow> bool" where
  "stale now last_seen \<longleftrightarrow> now - lastSeenUpdateThreshold > last_seen"

definition seen_stale :: "int \<Rightarrow> tspb option \<Rightarrow> string \<Rightarrow> bool res" where
  "seen_stale now seen msg =
     (case seen of
        None \<Rightarrow> Ok False
      | Some ts \<Rightarrow> (case ptypes_Timestamp (Some ts) of
                     Inl e \<Rightarrow> Err (Internal (Some e) msg)
                   | Inr t \<Rightarrow> Ok (stale now t)))"

fun token_index :: "int \<Rightarrow> user_token list \<Rightarrow> nat option" where
  "token_index tid [] = None"
| "token_index tid (ut # uts) =
     (if ut_id ut = tid then Some 0 else map_option Suc (token_index tid uts))"

definition refresh_seen :: "int \<Rightarrow> nat \<Rightarrow> user \<Rightarrow> (user \<times> bool) res" where
  "refresh_seen now k u =
     (case ptypes_TimestampProto now of
        Inl e \<Rightarrow> Err (Internal (Some e) ''can't get now ts'')
      | Inr nowts \<Rightarrow>
          (let ut = u_tokens u ! k in
           res_bind (seen_stale now (ut_last_seen ut) ''can't get token ts'') (\<lambda>t_stale.
           res_bind (seen_stale now (u_last_seen u) ''can't get user ts'') (\<lambda>u_stale.
             let u1 = (if t_stale
                       then u\<lparr>u_tokens := (u_tokens u)[k := ut\<lparr>ut_last_seen := Some nowts\<rparr>]\<rparr> else u);
                 u2 = (if u_stale then u1\<lparr>u_last_seen := Some nowts\<rparr> else u1);
                 updated = (t_stale \<or> u_stale)
             in Ok (if updated then u2\<lparr>u_modified := Some nowts\<rparr> else u2, updated)))))"

definition validateAndUpdateUserAndToken :: "int \<Rightarrow> int \<Rightarrow> lock \<Rightarrow> int \<Rightarrow> (user \<times> bool) io" where
  "validateAndUpdateUserAndToken userId tokenId lk now =
     bind (wrap_err (\<lambda>e. Internal e ''can't find users'')
       (FindUsers (no_opts\<lparr>o_prefix := Some (UsersPrimary (Some userId)), o_lock := lk\<rparr>))) (\<lambda>us.
     (case us of
        [u] \<Rightarrow> (case token_index tokenId (u_tokens u) of
                 None \<Rightarrow> fail (Unauthenticated None ''token id has been deleted'')
               | Some k \<Rightarrow> lift_res (refresh_seen now k u))
      | _ \<Rightarrow> fail (Unauthenticated None ''can't lookup user'')))"

subsection \<open>The authenticated job\<close>

text \<open>
  The loop of \<open>authedJobInternal\<close>, with fuel; two rounds are enough
  (\<open>authedJob_terminates\<close>), and running out of it is the panic \<open>out_of_fuel\<close>.
\<close>

definition out_of_fuel :: string where
  "out_of_fuel = ''authedJob: out of fuel''"

text \<open>The second half of a round: write the visit down, in a job that may write.\<close>

definition record_visit :: "bool \<Rightarrow> int \<Rightarrow> int \<Rightarrow> int \<Rightarrow> unit io" where
  "record_visit readonly userId tokenId now =
     bind (if readonly
           then bind (wrap_err (\<lambda>e. Internal e ''can't rollback'') Rollback) (\<lambda>_.
                  wrap_err (\<lambda>e. Internal e ''can't create job'') NewJob)
           else ret ()) (\<lambda>_.
     on_failure
       (bind (validateAndUpdateUserAndToken userId tokenId LockWrite now) (\<lambda>(u, updated).
          if \<not> updated then fail (Internal None ''unexpected non snapshot read during update'')
          else bind (wrap_err (\<lambda>e. Internal e ''can't update user'') (UpdateUser u)) (\<lambda>_.
               wrap_err (\<lambda>e. Internal e ''can't commit'') Commit)))
       Rollback)"

fun authed_loop :: "nat \<Rightarrow> ctx \<Rightarrow> int \<Rightarrow> bool \<Rightarrow> user option io" where
  "authed_loop 0 cx now readonly = panic out_of_fuel"
| "authed_loop (Suc n) cx now readonly =
     bind (wrap_err (\<lambda>e. Internal e ''can't create job'') (newJob readonly)) (\<lambda>_.
     (case UserTokenFromCtx cx of
        None \<Rightarrow> ret None
      | Some (userId, tokenId) \<Rightarrow>
          bind (on_failure (validateAndUpdateUserAndToken userId tokenId LockNone now) Rollback)
            (\<lambda>(u, updated).
              if \<not> updated then ret (Some u)
              else bind (record_visit readonly userId tokenId now)
                     (\<lambda>_. authed_loop n cx now readonly))))"

definition authedJobInternal :: "ctx \<Rightarrow> int \<Rightarrow> bool \<Rightarrow> user option io" where
  "authedJobInternal cx now readonly = authed_loop 2 cx now readonly"

definition authedJob :: "ctx \<Rightarrow> int \<Rightarrow> user option io" where
  "authedJob cx now = authedJobInternal cx now False"

definition authedReadonlyJob :: "ctx \<Rightarrow> int \<Rightarrow> user option io" where
  "authedReadonlyJob cx now = authedJobInternal cx now True"

definition deriveObjectUserId :: "int \<Rightarrow> user option \<Rightarrow> int res" where
  "deriveObjectUserId objectUserId subjectUser =
     (if objectUserId \<noteq> AnonymousUserId then Ok objectUserId
      else case subjectUser of
             Some u \<Rightarrow> Ok (u_id u)
           | None \<Rightarrow> Err (InvalidArgument None ''no user specified''))"

definition lookupObjectUser :: "lock \<Rightarrow> int \<Rightarrow> user option \<Rightarrow> user io" where
  "lookupObjectUser lk objectUserId subjectUser =
     bind (lift_res (deriveObjectUserId objectUserId subjectUser)) (\<lambda>oid.
       if (case subjectUser of Some u \<Rightarrow> u_id u = oid | None \<Rightarrow> False) then ret (the subjectUser)
       else
         bind (wrap_err (\<lambda>e. Internal e ''can't lookup user'')
           (FindUsers (no_opts\<lparr>o_prefix := Some (UsersPrimary (Some oid)), o_lock := lk\<rparr>))) (\<lambda>us.
         (case us of [x] \<Rightarrow> ret x | _ \<Rightarrow> fail (NotFound None ''can't lookup user''))))"

end
