(* ===== verification/Examples.thy ===== *)
theory Examples
  imports JobSteps
begin

section \<open>A small database for the witnesses\<close>

text \<open>
  One user with every capability and a token, a second user, a picture the second user uploaded,
  a comment on it and a tag on it, and the file of the picture. The witnesses of the properties run the
  model's operations on this database.
\<close>

definition ts0 :: tspb where
  "ts0 = \<lparr>ts_seconds = 1000, ts_nanos = 0\<rparr>"

definition now0 :: int where
  "now0 = 2000000000000"

definition alice :: user where
  "alice = \<lparr>u_id = 7, u_secret = ''hash'', u_ident = ''a'', u_created = Some ts0,
     u_modified = Some ts0, u_last_seen = Some ts0, u_caps = map int [1..<30], u_next_token = 1,
     u_tokens = [\<lparr>ut_id = 1, ut_created = Some ts0, ut_last_seen = Some ts0\<rparr>], u_ext = []\<rparr>"

definition bob :: user where
  "bob = \<lparr>u_id = 9, u_secret = ''hash'', u_ident = ''b'', u_created = Some ts0,
     u_modified = Some ts0, u_last_seen = None, u_caps = [PIC_READ], u_next_token = 0,
     u_tokens = [], u_ext = []\<rparr>"

definition cat_pic :: pic where
  "cat_pic = \<lparr>p_id = 3, p_file = Some \<lparr>pf_index = 0, pf_size = 10, pf_mime = 1, pf_width = 5,
       pf_height = 5, pf_created = Some ts0, pf_modified = Some ts0, pf_anim = None\<rparr>,
     p_created = Some ts0, p_modified = Some ts0, p_del = None, p_views = 0,
     p_source = [\<lparr>fs_url = [], fs_referrer = [], fs_created = Some ts0, fs_user = 9, fs_name = []\<rparr>],
     p_up = 0, p_down = 0, p_ext = [], p_thumb = [], p_derived = []\<rparr>"

definition bob_comment :: pic_comment where
  "bob_comment = \<lparr>pc_pic = 3, pc_id = 4, pc_parent = 0, pc_user = 9, pc_text = ''hi'', pc_up = 0,
     pc_down = 0, pc_created = Some ts0, pc_modified = Some ts0, pc_ext = []\<rparr>"

definition cat_tag :: tag where
  "cat_tag = \<lparr>t_id = 5, t_name = ''c'', t_usage = 1, t_created = Some ts0, t_modified = Some ts0,
     t_ext = []\<rparr>"

definition cat_pic_tag :: pic_tag where
  "cat_pic_tag = \<lparr>pt_pic = 3, pt_tag = 5, pt_name = ''c'', pt_user = 9, pt_created = Some ts0,
     pt_modified = Some ts0, pt_ext = []\<rparr>"

definition row :: "sqlval list \<Rightarrow> 'r \<Rightarrow> 'r trow" where
  "row vals x = \<lparr>tr_vals = vals, tr_data = x\<rparr>"

definition demo_db :: database where
  "demo_db = empty_db\<lparr>
     db_pics := [row [SInt 3, SInt 1000000000000, SInt 26843545, SInt 1046898278] cat_pic],
     db_tags := [row [SInt 5, SBytes ''c''] cat_tag],
     db_pictags := [row [SInt 3, SInt 5] cat_pic_tag],
     db_comments := [row [SInt 3, SInt 4] bob_comment],
     db_users := [row [SInt 7, SBytes ''a''] alice, row [SInt 9, SBytes ''b''] bob],
     db_seq := [100]\<rparr>"

definition demo :: world where
  "demo = (calm_world demo_db)\<lparr>w_files := [(''/p/3.jpg'', ''cat'')]\<rparr>"

lemma letter_runes: "runes ''a'' = [(97, ''a'')]" "runes ''b'' = [(98, ''b'')]"
  "runes ''c'' = [(99, ''c'')]"
  by (simp_all add: runes.simps decode_rune_def)

lemma letter_ok: "\<not> bad_rune (97, ''a'')" "\<not> bad_rune (98, ''b'')" "\<not> bad_rune (99, ''c'')"
  "validateCodepointUnsafe 97 = None" "validateCodepointUnsafe 98 = None"
  "validateCodepointUnsafe 99 = None"
  by (simp_all add: bad_rune_def RuneError_def validateCodepointUnsafe_def notAllowedRange_def
      notallowed_cc_def private_use_def surrogate_def noncharacter_def)

lemma unique_key_letter:
  "UserUniqueIdent plain_textlib ''a'' = Ok ''a''" "UserUniqueIdent plain_textlib ''b'' = Ok ''b''"
  "TagUniqueName plain_textlib ''c'' = Ok ''c''"
  by (simp_all add: UserUniqueIdent_def TagUniqueName_def unique_key_def toCaselessNFKC_def
      prevalidated_def validateEncoding_def valid_string_def validateCodepoints_def letter_runes
      toCaselessNFKCUnsafe_def plain_textlib_def letter_ok)

lemma cat_order: "IndexOrder cat_pic = Ok 1000000000000"
  by (simp add: IndexOrder_def isHidden_def HardDeleted_def NonHiddenIndexOrder_def cat_pic_def
      ToTime_def ptypes_Timestamp_def ts0_def valid_ts_def UnixNano_def int64_def)

lemma cat_scores: "ScoreBounds f cat_pic = (26843545, 1046898278)"
  by (simp add: ScoreBounds_def HardDeleted_def cat_pic_def int64_def)

lemma demo_fits: "fits demo"
proof -
  have "rows_fit pics_table calm_env (db_pics demo_db)"
    by (simp add: rows_fit_def demo_db_def row_def pics_table_def pic_cols_def cat_order
        LowerScoreBound_def UpperScoreBound_def cat_scores) (simp add: cat_pic_def)
  moreover have "rows_fit users_table calm_env (db_users demo_db)"
    by (simp add: rows_fit_def demo_db_def row_def users_table_def alice_def bob_def calm_env_def
        unique_key_letter col_of_def)
  moreover have "rows_fit tags_table calm_env (db_tags demo_db)"
    by (simp add: rows_fit_def demo_db_def row_def tags_table_def cat_tag_def calm_env_def
        unique_key_letter)
  ultimately show ?thesis
    by (simp add: fits_def demo_def calm_world_def db_fits_def)
      (simp add: rows_fit_def demo_db_def row_def empty_db_def pictags_table_def idents_table_def
        comments_table_def cat_pic_tag_def bob_comment_def)
qed

lemma demo_idle: "idle demo"
  by (simp add: demo_def calm_world_def idle_def accounted_def live_tx_def)

lemma calm_fits: "fits (calm_world empty_db)"
  by (simp add: fits_def calm_world_def db_fits_def empty_db_def rows_fit_def)

end
