(* ===== verification/AuthExamples.thy ===== *)
theory AuthExamples
  imports Auth Examples
begin

section \<open>Jobs on the small database\<close>

text \<open>
  The requests of the witnesses, with and without a user, and the state \<open>authedJob\<close> leaves
  on the small database: ids reserved, an open transaction on a copy of the database.
\<close>

definition as_alice :: ctx where
  "as_alice = \<lparr>cx_token = Some (7, 1), cx_conf = Some defaultConfiguration, cx_err = ECtxCanceled\<rparr>"

definition as_nobody :: ctx where
  "as_nobody = \<lparr>cx_token = None, cx_conf = Some defaultConfiguration, cx_err = ECtxCanceled\<rparr>"

definition demo_job :: "bool \<Rightarrow> nat \<Rightarrow> world" where
  "demo_job ro n = demo\<lparr>
     w_db := demo_db\<lparr>db_seq := [110]\<rparr>,
     w_tx := Some \<lparr>tx_db = demo_db\<lparr>db_seq := [110]\<rparr>, tx_ro = ro, tx_live = True, tx_done = False,
       tx_jobdone = False\<rparr>,
     w_open := 1, w_calls := n,
     w_alloc := \<lparr>al_ranges = [(100, 10)], al_total = 10, al_water = None\<rparr>\<rparr>"

lemma alice_sels:
  "u_id alice = 7" "u_last_seen alice = Some ts0" "u_caps alice = map int [1..<30]"
  "u_tokens alice = [\<lparr>ut_id = 1, ut_created = Some ts0, ut_last_seen = Some ts0\<rparr>]"
  by (simp_all add: alice_def)

lemmas job_eval = bind_def deferred_def wrap_err_def on_failure_def run_simps Let_def
  engine_call_def open_tx_def begin_tx_def exec_write_def tx_commit_def tx_rollback_def
  query_plan_def find_rows_def scan_plan_def no_opts_def prefix_plan_def select_rows_def
  selects_def col_of_def engine_order_def Cols_def row_def calm_env_def

lemmas newJob_eval = newJob_def preallocateIds_def reserveIds_def getWatermark_def
  DefaultIdLowWaterMark_def DefaultIdHighWaterMark_def wrap64_def

lemma new_demo_job: "newJob ro demo = (Ok (), demo_job ro 5)"
  by (simp add: newJob_eval job_eval demo_job_def demo_def calm_world_def empty_db_def
      new_alloc_def demo_db_def)

lemma alice_fresh: "refresh_seen now0 0 alice = Ok (alice, False)"
  by (simp add: refresh_seen_def alice_sels ptypes_TimestampProto_def valid_ts_def now0_def
      seen_stale_def ptypes_Timestamp_def ts0_def stale_def lastSeenUpdateThreshold_def)

lemma find_alice:
  "FindUsers (no_opts\<lparr>o_prefix := Some (UsersPrimary (Some 7)), o_lock := lk\<rparr>) (demo_job ro n) =
     (Ok [alice], demo_job ro (Suc n))"
  by (simp add: FindUsers_def users_table_def UsersPrimary_def job_eval demo_job_def demo_def
      calm_world_def demo_db_def empty_db_def)

lemma alice_job:
  "authedJobInternal as_alice now0 ro demo = (Ok (Some alice), demo_job ro 6)"
  by (simp add: authedJobInternal_def numeral_2_eq_2 bind_def wrap_err_def new_demo_job
      UserTokenFromCtx_def as_alice_def on_failure_def validateAndUpdateUserAndToken_def find_alice
      alice_sels alice_fresh run_simps)

lemma nobody_job:
  "authedJobInternal as_nobody now0 ro demo = (Ok None, demo_job ro 5)"
  by (simp add: authedJobInternal_def numeral_2_eq_2 bind_def wrap_err_def new_demo_job
      UserTokenFromCtx_def as_nobody_def run_simps)

end
