(* ===== verification/AuthFacts.thy ===== *)
theory AuthFacts
  imports AuthExamples
begin

section \<open>Facts about authentication\<close>

text \<open>
  What a successful call of \<open>authedJobInternal\<close> leaves behind, which records may differ after it
  (\<open>visit_only\<close>), which user a token stands for (\<open>token_user\<close>), and the properties of authentication.
\<close>

subsection \<open>Frame conditions\<close>

lemma keeps_fit_validate: "keeps keeps_fit (validateAndUpdateUserAndToken i t l now)"
  unfolding validateAndUpdateUserAndToken_def
  by (intro fit_ops) (auto split: list.splits option.splits intro!: fit_ops)

lemma keeps_base_validate: "keeps keeps_base (validateAndUpdateUserAndToken i t l now)"
  unfolding validateAndUpdateUserAndToken_def
  by (intro base_ops) (auto split: list.splits option.splits intro!: base_ops)

lemma keeps_acct_validate: "keeps keeps_acct (validateAndUpdateUserAndToken i t l now)"
  unfolding validateAndUpdateUserAndToken_def
  by (intro acct_ops) (auto split: list.splits option.splits intro!: acct_ops)

lemma keeps_fit_record_visit: "keeps keeps_fit (record_visit ro i t now)"
  unfolding record_visit_def NewJob_def
  by (intro fit_ops keeps_fit_validate) (auto split: prod.splits intro!: fit_ops)

lemma keeps_fit_authed_loop: "keeps keeps_fit (authed_loop n cx now ro)"
  by (induction n)
    (auto split: option.splits prod.splits
      intro!: fit_ops keeps_fit_validate keeps_fit_record_visit)

lemma keeps_fit_lookup: "keeps keeps_fit (lookupObjectUser l i su)"
  unfolding lookupObjectUser_def
  by (intro fit_ops) (auto split: list.splits intro!: fit_ops)

lemma keeps_base_lookup: "keeps keeps_base (lookupObjectUser l i su)"
  unfolding lookupObjectUser_def
  by (intro base_ops) (auto split: list.splits intro!: base_ops)

lemma keeps_acct_lookup: "keeps keeps_acct (lookupObjectUser l i su)"
  unfolding lookupObjectUser_def
  by (intro acct_ops) (auto split: list.splits intro!: acct_ops)

lemma keeps_fit_conf: "keeps keeps_fit (GetConfiguration cx)"
  unfolding GetConfiguration_def by (auto split: option.splits intro!: fit_ops)

lemma keeps_base_conf: "keeps keeps_base (GetConfiguration cx)"
  unfolding GetConfiguration_def by (auto split: option.splits intro!: base_ops)

lemma keeps_acct_conf: "keeps keeps_acct (GetConfiguration cx)"
  unfolding GetConfiguration_def by (auto split: option.splits intro!: acct_ops)

lemma GetConfiguration_Ok: "GetConfiguration cx w = (Ok conf, w') \<Longrightarrow> w' = w"
  by (auto simp: GetConfiguration_def bind_def run_simps split: option.splits)

subsection \<open>A visit\<close>

text \<open>A user without the times of the last visit.\<close>

definition erase_seen :: "user \<Rightarrow> user" where
  "erase_seen u = u\<lparr>u_tokens := map (\<lambda>t. t\<lparr>ut_last_seen := None\<rparr>) (u_tokens u),
     u_last_seen := None, u_modified := None\<rparr>"

lemma erase_seen_fields:
  assumes "erase_seen a = erase_seen b"
  shows "u_id a = u_id b" "u_ident a = u_ident b" "u_caps a = u_caps b" "u_secret a = u_secret b"
    "map ut_id (u_tokens a) = map ut_id (u_tokens b)"
proof -
  have "f (erase_seen a) = f (erase_seen b)" for f :: "user \<Rightarrow> 'x" using assms by simp
  note eq = this
  show "u_id a = u_id b" using eq [of u_id] by (simp add: erase_seen_def)
  show "u_ident a = u_ident b" using arg_cong [OF assms, of u_ident] by (simp add: erase_seen_def)
  show "u_caps a = u_caps b" using arg_cong [OF assms, of u_caps] by (simp add: erase_seen_def)
  show "u_secret a = u_secret b" using arg_cong [OF assms, of u_secret] by (simp add: erase_seen_def)
  show "map ut_id (u_tokens a) = map ut_id (u_tokens b)"
    using arg_cong [OF assms, of "\<lambda>u. map ut_id (u_tokens u)"] by (simp add: erase_seen_def comp_def)
qed

lemma refresh_seen_erase: "refresh_seen now k u = Ok (u', upd) \<Longrightarrow> k < length (u_tokens u) \<Longrightarrow>
    erase_seen u' = erase_seen u \<and> (\<not> upd \<longrightarrow> u' = u)"
proof -
  assume run: "refresh_seen now k u = Ok (u', upd)" and k: "k < length (u_tokens u)"
  obtain nowts where ts: "ptypes_TimestampProto now = Inr nowts"
    using run by (cases "ptypes_TimestampProto now") (simp_all add: refresh_seen_def)
  obtain b1 b2 where b: "seen_stale now (ut_last_seen (u_tokens u ! k)) ''can't get token ts'' = Ok b1"
    "seen_stale now (u_last_seen u) ''can't get user ts'' = Ok b2"
    using run ts
    by (cases "seen_stale now (ut_last_seen (u_tokens u ! k)) ''can't get token ts''";
        cases "seen_stale now (u_last_seen u) ''can't get user ts''")
      (simp_all add: refresh_seen_def Let_def)
  have tok: "map (\<lambda>t. t\<lparr>ut_last_seen := None\<rparr>)
      ((u_tokens u)[k := (u_tokens u ! k)\<lparr>ut_last_seen := Some nowts\<rparr>]) =
      map (\<lambda>t. t\<lparr>ut_last_seen := None\<rparr>) (u_tokens u)"
    using k by (intro nth_equalityI) (auto simp: nth_list_update)
  show ?thesis using run ts b tok
    by (cases b1; cases b2) (auto simp: refresh_seen_def Let_def erase_seen_def)
qed

lemma token_index_Some: "token_index tid uts = Some k \<Longrightarrow> k < length uts \<and> ut_id (uts ! k) = tid"
  by (induction uts arbitrary: k) (auto split: if_splits)

lemma token_index_None: "token_index tid uts = None \<longleftrightarrow> tid \<notin> ut_id ` set uts"
  by (induction uts) auto

lemma token_index_ids: "map ut_id a = map ut_id b \<Longrightarrow> token_index tid a = token_index tid b"
proof (induction a arbitrary: b)
  case (Cons x xs)
  then show ?case by (cases b) auto
qed simp

text \<open>What a successful validation has found.\<close>

lemma validate_job:
  assumes "validateAndUpdateUserAndToken uid tid l now w = (Ok (u', upd), w')" "job_at ev d0 d w"
  obtains u k where "job_at ev d0 d w'" "filter (\<lambda>x. u_id x = uid) (msgs (db_users d)) = [u]"
    "token_index tid (u_tokens u) = Some k" "refresh_seen now k u = Ok (u', upd)"
proof -
  let ?opt = "no_opts\<lparr>o_prefix := Some (UsersPrimary (Some uid)), o_lock := l\<rparr>"
  obtain us w1 where f: "FindUsers ?opt w = (Ok us, w1)" and
    rest: "(case us of [u] \<Rightarrow> (case token_index tid (u_tokens u) of
        None \<Rightarrow> fail (Unauthenticated None ''token id has been deleted'')
      | Some k \<Rightarrow> lift_res (refresh_seen now k u))
      | _ \<Rightarrow> fail (Unauthenticated None ''can't lookup user'')) w1 = (Ok (u', upd), w')"
    using assms(1) by (auto simp: validateAndUpdateUserAndToken_def elim!: bind_OkE)
  have job: "job_at ev d0 d w1"
    by (rule job_find_users_id(1) [OF f assms(2)]) (simp add: no_opts_def)
  have found: "found (\<lambda>u. u_id u = uid) 0 (msgs (db_users d)) us"
    using job_find_users_id(2) [OF f assms(2)] by (simp add: no_opts_def)
  from rest obtain u k where u: "us = [u]" "token_index tid (u_tokens u) = Some k"
    "refresh_seen now k u = Ok (u', upd)" "w' = w1"
    by (auto split: list.splits option.splits)
  have "filter (\<lambda>x. u_id x = uid) (msgs (db_users d)) = [u]"
    using found_one found u(1) by simp
  with that job u show thesis by simp
qed

text \<open>Two databases that differ in the counter and in the times of visits only.\<close>

definition visit_only :: "database \<Rightarrow> database \<Rightarrow> bool" where
  "visit_only d d' \<longleftrightarrow> same_rows (d\<lparr>db_users := []\<rparr>) (d'\<lparr>db_users := []\<rparr>) \<and>
     map erase_seen (msgs (db_users d')) = map erase_seen (msgs (db_users d))"

lemma visit_only_refl [simp]: "visit_only d d"
  by (simp add: visit_only_def)

lemma visit_only_trans: "visit_only a b \<Longrightarrow> visit_only b c \<Longrightarrow> visit_only a c"
  by (auto simp: visit_only_def intro: same_rows_trans)

lemma same_rows_visit: "same_rows d d' \<Longrightarrow> visit_only d d'"
  by (simp add: visit_only_def same_rows_def)

interpretation visit: db_property "visit_only d" for d
  by unfold_locales (simp add: visit_only_def same_rows_def)

lemma visit_update:
  assumes "filter (\<lambda>x. u_id x = uid) (msgs (db_users d)) = [u]" "erase_seen u' = erase_seen u"
    "msgs rows = map (\<lambda>q. if u_id q = u_id u' then u' else q) (msgs (db_users d))"
  shows "visit_only d (d\<lparr>db_users := rows\<rparr>)"
proof -
  have uid: "u_id u' = uid"
    using erase_seen_fields(1) [OF assms(2)] assms(1)
    by (metis (mono_tags, lifting) filter_eq_Cons_iff)
  have "q = u" if "q \<in> set (msgs (db_users d))" "u_id q = uid" for q
  proof -
    have "q \<in> set (filter (\<lambda>x. u_id x = uid) (msgs (db_users d)))" using that by simp
    then show ?thesis unfolding assms(1) by simp
  qed
  then have "map erase_seen (msgs rows) = map erase_seen (msgs (db_users d))"
    using assms(2) by (auto simp: assms(3) uid)
  then show ?thesis by (simp add: visit_only_def same_rows_def)
qed

subsection \<open>The authenticated job\<close>

lemma newJob_fit:
  assumes "newJob ro w = (Ok u, w')" "fits w" "idle w"
  shows "job_at (w_env w) (w_db w') (w_db w') w'" "same_rows (w_db w) (w_db w')" "accounted w'"
    "w_site w' = w_site w"
proof -
  have n: "tx_at w' (w_db w')" "same_rows (w_db w) (w_db w')" "w_env w' = w_env w" "w_site w' = w_site w"
    using newJob_Ok [OF assms(1)] assms(3) by (auto simp: idle_def)
  have "fits w'" using keepsD [OF keeps_fit_newJob assms(1)] assms(2) by (simp add: keeps_fit_def)
  with n show "job_at (w_env w) (w_db w') (w_db w') w'" by (simp add: job_at_def fits_def)
  show "same_rows (w_db w) (w_db w')" "accounted w'" "w_site w' = w_site w"
    using n newJob_acct [OF assms(3,1)] by auto
qed

text \<open>Recording a visit, when it succeeds: the token's user is stored with the new times.\<close>

lemma record_visit_Ok:
  assumes "record_visit ro uid tid now w = (Ok (), w')" "job_at ev d0 d0 w" "accounted w"
  obtains u u' k rows d1 where "filter (\<lambda>x. u_id x = uid) (msgs (db_users d1)) = [u]"
    "token_index tid (u_tokens u) = Some k" "refresh_seen now k u = Ok (u', True)"
    "same_rows d0 d1" "w_db w' = d1\<lparr>db_users := rows\<rparr>" "w_env w' = ev"
    "msgs rows = map (\<lambda>q. if u_id q = u_id u' then u' else q) (msgs (db_users d1))"
    "db_fits ev (w_db w')" "idle w'"
proof -
  let ?pre = "if ro
           then bind (wrap_err (\<lambda>e. Internal e ''can't rollback'') Rollback) (\<lambda>_.
                  wrap_err (\<lambda>e. Internal e ''can't create job'') NewJob)
           else ret ()"
  let ?body = "bind (validateAndUpdateUserAndToken uid tid LockWrite now) (\<lambda>(u, updated).
          if \<not> updated then fail (Internal None ''unexpected non snapshot read during update'')
          else bind (wrap_err (\<lambda>e. Internal e ''can't update user'') (UpdateUser u)) (\<lambda>_.
               wrap_err (\<lambda>e. Internal e ''can't commit'') Commit))"
  obtain w1 where pre: "?pre w = (Ok (), w1)" and body: "?body w1 = (Ok (), w')"
    using assms(1) by (auto simp: record_visit_def elim!: bind_OkE)
  have "\<exists>d1. job_at ev d1 d1 w1 \<and> same_rows d0 d1 \<and> accounted w1"
  proof (cases ro)
    case True
    then obtain w0 where rb: "Rollback w = (Ok (), w0)" and nj: "NewJob w0 = (Ok (), w1)"
      using pre by (auto elim!: bind_OkE)
    have idle: "idle w0" using Rollback_idle [OF assms(3) rb] .
    have base: "w_db w0 = d0" "w_env w0 = ev"
      using Rollback_keeps [OF rb] assms(2) by (auto simp: job_at_def)
    have "newJob False w0 = (Ok (), w1)" using nj by (simp add: NewJob_def)
    moreover have "fits w0" using keepsD [OF keeps_fit_Rollback rb] job_at_fits [OF assms(2)]
      by (simp add: keeps_fit_def)
    ultimately have n: "job_at ev (w_db w1) (w_db w1) w1" "same_rows d0 (w_db w1)" "accounted w1"
      using newJob_fit [OF _ _ idle] base by blast+
    with n show ?thesis by blast
  next
    case False
    then show ?thesis using pre assms by auto
  qed
  then obtain d1 where j1: "job_at ev d1 d1 w1" "same_rows d0 d1" "accounted w1" by blast
  from body obtain uu w2 where v0: "validateAndUpdateUserAndToken uid tid LockWrite now w1 = (Ok uu, w2)"
    and rest: "(case uu of (u, updated) \<Rightarrow>
          if \<not> updated then fail (Internal None ''unexpected non snapshot read during update'')
          else bind (wrap_err (\<lambda>e. Internal e ''can't update user'') (UpdateUser u)) (\<lambda>_.
               wrap_err (\<lambda>e. Internal e ''can't commit'') Commit)) w2 = (Ok (), w')"
    by (rule bind_OkE)
  obtain u' upd where uu: "uu = (u', upd)" by (cases uu)
  have upd: "upd" using rest uu by (cases upd) simp_all
  obtain w3 where up: "UpdateUser u' w2 = (Ok (), w3)" and co: "Commit w3 = (Ok (), w')"
    using rest uu upd by (auto elim: bind_OkE)
  have v: "validateAndUpdateUserAndToken uid tid LockWrite now w1 = (Ok (u', True), w2)"
    using v0 uu upd by simp
  obtain u k where u: "job_at ev d1 d1 w2" "filter (\<lambda>x. u_id x = uid) (msgs (db_users d1)) = [u]"
    "token_index tid (u_tokens u) = Some k" "refresh_seen now k u = Ok (u', True)"
    using validate_job [OF v j1(1)] by blast
  obtain rows where r: "job_at ev d1 (d1\<lparr>db_users := rows\<rparr>) w3"
    "msgs rows = map (\<lambda>q. if u_id q = u_id u' then u' else q) (msgs (db_users d1))"
    using job_update_users [OF up u(1)] by blast
  note c = Commit_job [OF co r(1)]
  have a2: "accounted w2" using keepsD [OF keeps_acct_validate v] j1(3) by (simp add: keeps_acct_def)
  have a3: "accounted w3" using keepsD [OF keeps_acct_tables(28) up] a2 by (simp add: keeps_acct_def)
  have "accounted w'" using keepsD [OF keeps_acct_Commit co] a3 by (simp add: keeps_acct_def)
  moreover have "\<not> live_tx w'"
    using co by (auto simp: Commit_def tx_commit_def job_done_def bind_def open_tx_def run_simps Let_def
        live_tx_def split: option.splits if_splits)
  ultimately have "idle w'" by (simp add: idle_def)
  then show thesis using that [of d1 u k u' rows] u j1 c r(2) by auto
qed

lemma seen_stale_now:
  "ptypes_TimestampProto now = Inr nowts \<Longrightarrow> seen_stale now (Some nowts) m = Ok False"
proof -
  assume "ptypes_TimestampProto now = Inr nowts"
  then have "nowts = \<lparr>ts_seconds = now div 1000000000, ts_nanos = now mod 1000000000\<rparr>" "valid_ts nowts"
    by (auto simp: ptypes_TimestampProto_def Let_def split: if_splits)
  then have "ptypes_Timestamp (Some nowts) = Inr now" by (simp add: ptypes_Timestamp_def)
  then show ?thesis by (simp add: seen_stale_def stale_def lastSeenUpdateThreshold_def)
qed

text \<open>Once recorded, the visit is not stale any more.\<close>

lemma refresh_seen_twice:
  assumes "refresh_seen now k u = Ok (u', upd)" "k < length (u_tokens u)"
  shows "refresh_seen now k u' = Ok (u', False)"
proof -
  obtain nowts where ts: "ptypes_TimestampProto now = Inr nowts"
    using assms(1) by (cases "ptypes_TimestampProto now") (simp_all add: refresh_seen_def)
  obtain b1 b2 where b: "seen_stale now (ut_last_seen (u_tokens u ! k)) ''can't get token ts'' = Ok b1"
    "seen_stale now (u_last_seen u) ''can't get user ts'' = Ok b2"
    using assms(1) ts
    by (cases "seen_stale now (ut_last_seen (u_tokens u ! k)) ''can't get token ts''";
        cases "seen_stale now (u_last_seen u) ''can't get user ts''")
      (simp_all add: refresh_seen_def Let_def)
  note now = seen_stale_now [OF ts]
  show ?thesis using assms ts b now
    by (cases b1; cases b2) (auto simp: refresh_seen_def Let_def)
qed

text \<open>After a recorded visit, a new job sees the user and has nothing to record.\<close>

lemma second_round:
  assumes visit: "record_visit ro uid tid now w = (Ok (), w1)" "job_at ev d0 d0 w" "accounted w"
    and job: "newJob ro w1 = (Ok (), w2)"
    and val: "validateAndUpdateUserAndToken uid tid l now w2 = (Ok (u2, upd), w3)"
  shows "\<not> upd"
proof -
  obtain u u' k rows d1 where v: "filter (\<lambda>x. u_id x = uid) (msgs (db_users d1)) = [u]"
    "token_index tid (u_tokens u) = Some k" "refresh_seen now k u = Ok (u', True)"
    "same_rows d0 d1" "w_db w1 = d1\<lparr>db_users := rows\<rparr>" "w_env w1 = ev"
    "msgs rows = map (\<lambda>q. if u_id q = u_id u' then u' else q) (msgs (db_users d1))"
    "db_fits ev (w_db w1)" "idle w1"
    by (rule record_visit_Ok [OF visit])
  have k: "k < length (u_tokens u)" using token_index_Some [OF v(2)] by simp
  have er: "erase_seen u' = erase_seen u" using refresh_seen_erase [OF v(3) k] by simp
  have u': "u_id u' = uid" "token_index tid (u_tokens u') = Some k"
    using erase_seen_fields [OF er] v(1,2) token_index_ids
    by (metis (mono_tags, lifting) filter_eq_Cons_iff, metis)
  have "fits w1" using keepsD [OF keeps_fit_record_visit visit(1)] job_at_fits [OF visit(2)]
    by (simp add: keeps_fit_def)
  then have j2: "job_at ev (w_db w2) (w_db w2) w2" "same_rows (w_db w1) (w_db w2)"
    using newJob_fit [OF job] v(6,9) by auto
  have "db_users (w_db w2) = rows" using j2(2) v(5) by (simp add: same_rows_def)
  moreover have "filter (\<lambda>x. u_id x = uid) (msgs rows) = [u']"
  proof -
    have "filter (\<lambda>x. u_id x = uid) (map (\<lambda>q. if u_id q = uid then u' else q) xs) =
        map (\<lambda>q. u') (filter (\<lambda>x. u_id x = uid) xs)" for xs
      using u'(1) by (induction xs) auto
    then show ?thesis using v(1,7) u'(1) by simp
  qed
  ultimately obtain k2 where "token_index tid (u_tokens u') = Some k2" "refresh_seen now k2 u' = Ok (u2, upd)"
    using validate_job [OF val j2(1)] by (metis list.inject)
  with u'(2) refresh_seen_twice [OF v(3) k] show ?thesis by simp
qed

declare authed_loop.simps [simp del]

text \<open>One round, unfolded: either it ends the loop or it records a visit.\<close>

lemma authed_loop_Suc:
  assumes "newJob ro w = (Ok (), w1)" "cx_token cx = Some (uid, tid)"
    "validateAndUpdateUserAndToken uid tid LockNone now w1 = (Ok (u, upd), w2)"
  shows "authed_loop (Suc n) cx now ro w =
    (if upd then bind (record_visit ro uid tid now) (\<lambda>_. authed_loop n cx now ro) w2
     else (Ok (Some u), w2))"
  using assms
  by (simp add: authed_loop.simps(2) bind_def wrap_err_def on_failure_def UserTokenFromCtx_def run_simps)

lemma authed_loop_stops:
  assumes "\<forall>w1 u w2 uid tid. newJob ro w = (Ok (), w1) \<longrightarrow> cx_token cx = Some (uid, tid) \<longrightarrow>
    validateAndUpdateUserAndToken uid tid LockNone now w1 \<noteq> (Ok (u, True), w2)"
  shows "authed_loop (Suc n) cx now ro w = authed_loop (Suc m) cx now ro w"
proof -
  obtain r1 w1 where nj: "newJob ro w = (r1, w1)" by fastforce
  show ?thesis
  proof (cases "r1 = Ok () \<and> cx_token cx \<noteq> None")
    case False
    then show ?thesis using nj
      by (cases r1; cases "cx_token cx")
        (auto simp: authed_loop.simps(2) bind_def wrap_err_def UserTokenFromCtx_def)
  next
    case True
    then obtain uid tid where tok: "cx_token cx = Some (uid, tid)" by auto
    obtain r2 w2 where v: "validateAndUpdateUserAndToken uid tid LockNone now w1 = (r2, w2)" by fastforce
    show ?thesis
    proof (cases r2)
      case (Ok uu)
      then obtain u upd where r2: "r2 = Ok (u, upd)" by (cases uu) auto
      have nj': "newJob ro w = (Ok (), w1)" using nj True by simp
      have v': "validateAndUpdateUserAndToken uid tid LockNone now w1 = (Ok (u, upd), w2)"
        using v r2 by simp
      have "\<not> upd" using assms nj' tok v' by (cases upd) auto
      then show ?thesis by (simp only: authed_loop_Suc [OF nj' tok v'] if_False)
    qed (use nj True tok v in \<open>simp_all add: authed_loop.simps(2) bind_def wrap_err_def on_failure_def
        deferred_def UserTokenFromCtx_def split: prod.splits res.splits\<close>)
  qed
qed

lemma authed_two_rounds:
  assumes "fits w" "idle w"
  shows "authed_loop (Suc (Suc n)) cx now ro w = authed_loop (Suc (Suc m)) cx now ro w"
proof (cases "\<exists>w1 u w2 uid tid. newJob ro w = (Ok (), w1) \<and> cx_token cx = Some (uid, tid) \<and>
    validateAndUpdateUserAndToken uid tid LockNone now w1 = (Ok (u, True), w2)")
  case False
  then show ?thesis by (intro authed_loop_stops) blast
next
  case True
  then obtain w1 u w2 uid tid where nj: "newJob ro w = (Ok (), w1)"
    and tok: "cx_token cx = Some (uid, tid)"
    and v: "validateAndUpdateUserAndToken uid tid LockNone now w1 = (Ok (u, True), w2)" by blast
  note j1 = newJob_fit [OF nj assms]
  have j2: "job_at (w_env w) (w_db w1) (w_db w1) w2" using validate_job [OF v j1(1)] by blast
  have a2: "accounted w2" using keepsD [OF keeps_acct_validate v] j1(3) by (simp add: keeps_acct_def)
  have "bind (record_visit ro uid tid now) (\<lambda>_. authed_loop (Suc n) cx now ro) w2 =
      bind (record_visit ro uid tid now) (\<lambda>_. authed_loop (Suc m) cx now ro) w2"
  proof -
    obtain r3 w3 where rv: "record_visit ro uid tid now w2 = (r3, w3)" by fastforce
    show ?thesis
    proof (cases r3)
      case (Ok x)
      have "authed_loop (Suc n) cx now ro w3 = authed_loop (Suc m) cx now ro w3"
      proof (rule authed_loop_stops, intro allI impI)
        fix w4 u' w5 uid' tid'
        assume nj2: "newJob ro w3 = (Ok (), w4)" and "cx_token cx = Some (uid', tid')"
        with tok have same: "uid' = uid" "tid' = tid" by auto
        have rv': "record_visit ro uid tid now w2 = (Ok (), w3)" using rv Ok by simp
        show "validateAndUpdateUserAndToken uid' tid' LockNone now w4 \<noteq> (Ok (u', True), w5)"
          using second_round [OF rv' j2 a2 nj2] unfolding same by blast
      qed
      with rv Ok show ?thesis by (simp add: bind_def)
    qed (use rv in \<open>simp_all add: bind_def\<close>)
  qed
  then show ?thesis by (simp only: authed_loop_Suc [OF nj tok v] if_True)
qed

subsection \<open>What a visit changes\<close>

lemma update_failed:
  assumes "update_row T key x w = (r, w')" "\<forall>u. r \<noteq> Ok u"
  shows "w_tx w' = w_tx w \<and> w_db w' = w_db w \<and> w_env w' = w_env w"
proof -
  have ex: "w_tx w' = w_tx w" if "exec_write f w = (r, w')" for f
    using that assms(2)
    by (auto simp: exec_write_def bind_def open_tx_def engine_call_def run_simps Let_def
        split: option.splits if_splits res.splits)
  have lift: "bind (lift_res y) f w = (case y of Ok v \<Rightarrow> f v w | Err e \<Rightarrow> (Err e, w) | Panic p \<Rightarrow> (Panic p, w))"
    for y :: "'c res" and f :: "'c \<Rightarrow> unit io"
    by (cases y) (simp_all add: bind_def run_simps)
  have envw: "bind (get_state w_env) f w = f (w_env w) w" for f :: "env \<Rightarrow> unit io"
    by (simp add: bind_def run_simps)
  have "w' = w \<or> (\<exists>f. exec_write f w = (r, w'))"
    using assms(1) unfolding update_row_def envw lift by (auto split: res.splits)
  then have "w_tx w' = w_tx w" using ex by blast
  then show ?thesis using base_tx [OF keeps_base_update assms(1)] by simp
qed

lemma near_validate: "keeps (keeps_near (visit_only d)) (validateAndUpdateUserAndToken i t l now)"
  unfolding validateAndUpdateUserAndToken_def FindUsers_def
  by (intro near.keeps_intros visit.find_rows)
    (auto split: list.splits option.splits intro!: near.keeps_intros)

lemma near_on_failure:
  assumes "m w = (r1, w1)" "near Q w1" "keeps (keeps_near Q) dfr" "on_failure m dfr w = (r, w')"
  shows "near Q w'"
proof -
  obtain r2 w2 where d: "dfr w1 = (r2, w2)" by fastforce
  have "near Q w2" using keepsD [OF assms(3) d] assms(2) by (simp add: keeps_near_def)
  moreover have "w' = w1 \<or> w' = w2"
    using assms(1,4) d by (cases r1; cases r2) (auto simp: on_failure_def deferred_def)
  ultimately show ?thesis using assms(2) by auto
qed

lemma near_record_visit:
  assumes "record_visit ro uid tid now w = (r, w')" "job_at ev d0 d0 w" "accounted w" "visit_only d d0"
  shows "near (visit_only d) w'"
proof -
  let ?Q = "visit_only d"
  let ?pre = "if ro
           then bind (wrap_err (\<lambda>e. Internal e ''can't rollback'') Rollback) (\<lambda>_.
                  wrap_err (\<lambda>e. Internal e ''can't create job'') NewJob)
           else ret ()"
  let ?body = "bind (validateAndUpdateUserAndToken uid tid LockWrite now) (\<lambda>(u, updated).
          if \<not> updated then fail (Internal None ''unexpected non snapshot read during update'')
          else bind (wrap_err (\<lambda>e. Internal e ''can't update user'') (UpdateUser u)) (\<lambda>_.
               wrap_err (\<lambda>e. Internal e ''can't commit'') Commit))"
  have near0: "near ?Q w" using assms(2,4) by (auto simp: near_def job_at_def tx_at_def split: option.splits)
  have kpre: "keeps (keeps_near ?Q) ?pre"
    unfolding NewJob_def by (intro near.keeps_intros visit.Rollback visit.newJob)
  obtain r1 w1 where pre: "?pre w = (r1, w1)" by fastforce
  have near1: "near ?Q w1" using keepsD [OF kpre pre] near0 by (simp add: keeps_near_def)
  show ?thesis
  proof (cases r1)
    case (Ok x)
    then have run: "on_failure ?body Rollback w1 = (r, w')"
      using assms(1) pre by (simp add: record_visit_def bind_def)
    obtain rb wb where body: "?body w1 = (rb, wb)" by fastforce
    have "near ?Q wb"
    proof -
      obtain r2 w2 where v: "validateAndUpdateUserAndToken uid tid LockWrite now w1 = (r2, w2)" by fastforce
      have near2: "near ?Q w2" using keepsD [OF near_validate v] near1 by (simp add: keeps_near_def)
      show ?thesis
      proof (cases "\<exists>u'. r2 = Ok (u', True)")
        case False
        then have "wb = w2" using body v by (cases r2) (auto simp: bind_def run_simps split: prod.splits)
        with near2 show ?thesis by simp
      next
        case True
        then obtain u' where r2: "r2 = Ok (u', True)" by blast
        obtain r3 w3 where up: "UpdateUser u' w2 = (r3, w3)" by fastforce
        have "\<exists>d1. job_at ev d1 d1 w1"
        proof (cases ro)
          case True
          then obtain w0 where rb: "Rollback w = (Ok (), w0)" and nj: "NewJob w0 = (Ok (), w1)"
            using pre Ok by (auto elim!: bind_OkE)
          have "idle w0" "w_env w0 = ev" "fits w0"
            using Rollback_idle [OF assms(3) rb] Rollback_keeps [OF rb] assms(2)
              keepsD [OF keeps_fit_Rollback rb] job_at_fits [OF assms(2)]
            by (auto simp: job_at_def keeps_fit_def)
          then show ?thesis using newJob_fit(1) [of False w0 "()" w1] nj by (auto simp: NewJob_def)
        next
          case False
          then show ?thesis using pre Ok assms(2) by auto
        qed
        then obtain d1 where j1: "job_at ev d1 d1 w1" by blast
        obtain u k where u: "job_at ev d1 d1 w2" "filter (\<lambda>x. u_id x = uid) (msgs (db_users d1)) = [u]"
          "token_index tid (u_tokens u) = Some k" "refresh_seen now k u = Ok (u', True)"
          using validate_job [OF v [unfolded r2] j1] by blast
        have near3: "near ?Q w3"
        proof (cases r3)
          case (Ok y)
          obtain rows where rr: "job_at ev d1 (d1\<lparr>db_users := rows\<rparr>) w3"
            "msgs rows = map (\<lambda>q. if u_id q = u_id u' then u' else q) (msgs (db_users d1))"
            using job_update_users [OF up [unfolded Ok] u(1)] by blast
          have k: "k < length (u_tokens u)" using token_index_Some [OF u(3)] by simp
          have "visit_only d1 (d1\<lparr>db_users := rows\<rparr>)"
            using visit_update [OF u(2) _ rr(2)] refresh_seen_erase [OF u(4) k] by blast
          moreover have "visit_only d d1" using near1 j1 by (auto simp: near_def job_at_def)
          ultimately show ?thesis using rr(1)
            by (auto simp: near_def job_at_def tx_at_def intro: visit_only_trans split: option.splits)
        qed (use update_failed [OF up [unfolded UpdateUser_def]] near2 in \<open>auto simp: near_def\<close>)
        show ?thesis
        proof (cases r3)
          case (Ok y)
          obtain r4 w4 where co: "Commit w3 = (r4, w4)" by fastforce
          have "near ?Q w4" using keepsD [OF visit.Commit co] near3 by (simp add: keeps_near_def)
          moreover have "wb = w4"
            using body v r2 up Ok co by (cases r4) (auto simp: bind_def wrap_err_def)
          ultimately show ?thesis by simp
        next
          case (Err e)
          then have "wb = w3" using body v r2 up by (auto simp: bind_def wrap_err_def)
          with near3 show ?thesis by simp
        next
          case (Panic e)
          then have "wb = w3" using body v r2 up by (auto simp: bind_def wrap_err_def)
          with near3 show ?thesis by simp
        qed
      qed
    qed
    then show ?thesis using near_on_failure [OF body _ visit.Rollback run] by blast
  qed (use assms(1) pre near1 in \<open>simp_all add: record_visit_def bind_def\<close>)
qed

text \<open>A visit that cannot be recorded leaves nothing open.\<close>

lemma record_visit_idle:
  assumes "record_visit ro uid tid now w = (r, w')" "accounted w" "r \<noteq> Ok ()"
  shows "idle w' \<and> w_env w' = w_env w"
proof -
  let ?pre = "if ro
           then bind (wrap_err (\<lambda>e. Internal e ''can't rollback'') Rollback) (\<lambda>_.
                  wrap_err (\<lambda>e. Internal e ''can't create job'') NewJob)
           else ret ()"
  let ?body = "bind (validateAndUpdateUserAndToken uid tid LockWrite now) (\<lambda>(u, updated).
          if \<not> updated then fail (Internal None ''unexpected non snapshot read during update'')
          else bind (wrap_err (\<lambda>e. Internal e ''can't update user'') (UpdateUser u)) (\<lambda>_.
               wrap_err (\<lambda>e. Internal e ''can't commit'') Commit))"
  have env: "w_env w' = w_env w"
    using keepsD [OF keeps_fit_record_visit assms(1)] by (simp add: keeps_fit_def)
  have kbody: "keeps keeps_acct ?body"
    unfolding case_prod_beta by (intro acct_ops keeps_acct_validate)
  obtain r1 w1 where pre: "?pre w = (r1, w1)" by fastforce
  show ?thesis
  proof (cases "r1 = Ok ()")
    case True
    have "accounted w1"
    proof (cases ro)
      case True
      then obtain w0 where "Rollback w = (Ok (), w0)" and "NewJob w0 = (Ok (), w1)"
        using pre \<open>r1 = Ok ()\<close> by (auto elim!: bind_OkE)
      then show ?thesis using Rollback_idle [OF assms(2)] newJob_acct by (metis NewJob_def)
    qed (use pre assms(2) in \<open>auto simp: run_simps\<close>)
    moreover have run: "on_failure ?body Rollback w1 = (r, w')"
      using assms(1) pre True by (simp add: record_visit_def bind_def)
    then have "deferred ?body Rollback w1 = (r, w')"
      using assms(3) by (cases "?body w1") (auto simp: on_failure_def split: res.splits)
    ultimately show ?thesis using deferred_Rollback_idle [OF _ kbody] env by blast
  next
    case False
    then have eq: "w' = w1 \<and> ro" using assms(1) pre
      by (cases ro; cases r1) (auto simp: record_visit_def bind_def run_simps)
    obtain r0 w0 where rb: "Rollback w = (r0, w0)" by fastforce
    have idle: "idle w0" using Rollback_idle [OF assms(2) rb] .
    obtain r2 w2 where nj: "NewJob w0 = (r2, w2)" by fastforce
    have "idle w1"
    proof (cases "r0 = Ok ()")
      case True
      then have "w1 = w2 \<and> r2 \<noteq> Ok ()" using pre eq rb nj False
        by (cases r2) (auto simp: bind_def wrap_err_def)
      then show ?thesis using newJob_acct [OF idle nj [unfolded NewJob_def]] by (simp add: idle_def)
    next
      case False
      then have "w1 = w0" using pre eq rb by (cases r0) (auto simp: bind_def wrap_err_def)
      with idle show ?thesis by simp
    qed
    with eq env show ?thesis by simp
  qed
qed

text \<open>Everything that is known once the loop has ended, by induction on the rounds.\<close>

definition token_user :: "ctx \<Rightarrow> database \<Rightarrow> user option \<Rightarrow> bool" where
  "token_user cx d su \<longleftrightarrow>
     (case cx_token cx of
        None \<Rightarrow> su = None
      | Some (uid, tid) \<Rightarrow> (\<exists>u. su = Some u \<and> u \<in> set (msgs (db_users d)) \<and> u_id u = uid \<and>
          tid \<in> ut_id ` set (u_tokens u)))"

lemma authed_loop_result:
  assumes "authed_loop n cx now ro w = (r, w')" "fits w" "idle w"
  shows "visit_only (w_db w) (w_db w') \<and> w_env w' = w_env w \<and> accounted w' \<and>
    (\<forall>su. r = Ok su \<longrightarrow> job_at (w_env w) (w_db w') (w_db w') w' \<and> token_user cx (w_db w') su) \<and>
    ((\<forall>su. r \<noteq> Ok su) \<longrightarrow> idle w')"
  using assms
proof (induction n arbitrary: w)
  case 0
  then show ?case by (auto simp: authed_loop.simps run_simps idle_def)
next
  case (Suc n)
  obtain r1 w1 where nj: "newJob ro w = (r1, w1)" by fastforce
  note acct1 = newJob_acct [OF Suc.prems(3) nj]
  have env1: "w_env w1 = w_env w" using keepsD [OF keeps_fit_newJob nj] by (simp add: keeps_fit_def)
  show ?case
  proof (cases "r1 = Ok ()")
    case False
    have "near (visit_only (w_db w)) w"
      using Suc.prems(3) by (auto simp: near_def idle_def live_tx_def split: option.splits)
    then have "visit_only (w_db w) (w_db w1)"
      using keepsD [OF visit.newJob nj] by (simp add: keeps_near_def near_def)
    moreover have "w' = w1 \<and> (\<forall>su. r \<noteq> Ok su)"
      using Suc.prems(1) nj False
      by (cases r1) (auto simp: authed_loop.simps bind_def wrap_err_def)
    ultimately show ?thesis using acct1 False env1 by (auto simp: idle_def)
  next
    case True
    have nj': "newJob ro w = (Ok (), w1)" using nj True by simp
    note j1 = newJob_fit [OF nj' Suc.prems(2,3)]
    have vis1: "visit_only (w_db w) (w_db w1)" using j1(2) by (rule same_rows_visit)
    show ?thesis
    proof (cases "cx_token cx")
      case None
      then have "r = Ok None" "w' = w1"
        using Suc.prems(1) nj True by (auto simp: authed_loop.simps bind_def wrap_err_def UserTokenFromCtx_def run_simps)
      then show ?thesis using vis1 j1 env1 None by (simp add: token_user_def)
    next
      case (Some ut)
      then obtain uid tid where tok: "cx_token cx = Some (uid, tid)" by (cases ut) auto
      obtain r2 w2 where v: "validateAndUpdateUserAndToken uid tid LockNone now w1 = (r2, w2)" by fastforce
      have base2: "w_db w2 = w_db w1" "w_env w2 = w_env w1" using base_tx [OF keeps_base_validate v] by auto
      have acct2: "accounted w2" using keepsD [OF keeps_acct_validate v] j1(3) by (simp add: keeps_acct_def)
      show ?thesis
      proof (cases "\<exists>u upd. r2 = Ok (u, upd)")
        case False
        then have run: "on_failure (validateAndUpdateUserAndToken uid tid LockNone now) Rollback w1 =
            deferred (validateAndUpdateUserAndToken uid tid LockNone now) Rollback w1"
          using v by (cases r2) (auto simp: on_failure_def)
        obtain r3 w3 where d: "deferred (validateAndUpdateUserAndToken uid tid LockNone now) Rollback w1 = (r3, w3)"
          by fastforce
        have "idle w3" using deferred_Rollback_idle [OF j1(3) keeps_acct_validate d] .
        moreover have "w_db w3 = w_db w1 \<and> w_env w3 = w_env w1"
          by (rule base_tx [OF base.keeps_deferred [OF keeps_base_validate keeps_base_Rollback] d])
        moreover have no: "\<forall>x. r3 \<noteq> Ok x"
        proof (intro allI notI)
          fix x
          assume "r3 = Ok x"
          then obtain w4 where "validateAndUpdateUserAndToken uid tid LockNone now w1 = (Ok x, w4)"
            using d by (auto elim: deferred_OkE)
          with v have "r2 = Ok (fst x, snd x)" by simp
          with False show False by blast
        qed
        moreover from no have "w' = w3 \<and> (\<forall>su. r \<noteq> Ok su)"
          using Suc.prems(1) nj True tok run d
          by (cases r3) (auto simp: authed_loop.simps bind_def wrap_err_def UserTokenFromCtx_def)
        ultimately show ?thesis using vis1 env1 by (auto simp: idle_def)
      next
        case True
        then obtain u upd where v': "validateAndUpdateUserAndToken uid tid LockNone now w1 = (Ok (u, upd), w2)"
          using v by auto
        obtain u0 k where u: "job_at (w_env w) (w_db w1) (w_db w1) w2"
          "filter (\<lambda>x. u_id x = uid) (msgs (db_users (w_db w1))) = [u0]"
          "token_index tid (u_tokens u0) = Some k" "refresh_seen now k u0 = Ok (u, upd)"
          using validate_job [OF v' j1(1)] by blast
        have k: "k < length (u_tokens u0)" "ut_id (u_tokens u0 ! k) = tid"
          using token_index_Some [OF u(3)] by auto
        note step = authed_loop_Suc [OF nj' tok v', of n]
        show ?thesis
        proof (cases upd)
          case False
          have "u = u0" using refresh_seen_erase [OF u(4) k(1)] False by simp
          moreover have "u0 \<in> set (filter (\<lambda>x. u_id x = uid) (msgs (db_users (w_db w1))))"
            using u(2) by simp
          ultimately have "token_user cx (w_db w1) (Some u)" using tok k by (auto simp: token_user_def)
          moreover have "r = Ok (Some u)" "w' = w2" using Suc.prems(1) step False by auto
          ultimately show ?thesis using u(1) base2 vis1 env1 acct2 by simp
        next
          case upd: True
          obtain r3 w3 where rv: "record_visit ro uid tid now w2 = (r3, w3)" by fastforce
          have near3: "visit_only (w_db w) (w_db w3)"
            using near_record_visit [OF rv u(1) acct2 vis1] by (simp add: near_def)
          show ?thesis
          proof (cases r3)
            case (Ok x)
            then have rv': "record_visit ro uid tid now w2 = (Ok (), w3)" using rv by simp
            obtain d3 where w3: "idle w3" "w_env w3 = w_env w"
              by (rule record_visit_Ok [OF rv' u(1) acct2])
            have "fits w3" using keepsD [OF keeps_fit_record_visit rv] job_at_fits [OF u(1)]
              by (simp add: keeps_fit_def)
            have "authed_loop n cx now ro w3 = (r, w')"
              using Suc.prems(1) step upd rv' by (simp add: bind_def)
            from Suc.IH [OF this \<open>fits w3\<close> w3(1)] show ?thesis
              using near3 w3(2) visit_only_trans by auto
          next
            case (Err e)
            then have "w' = w3 \<and> r = Err e" using Suc.prems(1) step upd rv by (simp add: bind_def)
            moreover have "idle w3 \<and> w_env w3 = w_env w"
              using record_visit_idle [OF rv acct2] u(1) Err by (simp add: job_at_def)
            ultimately show ?thesis using near3 by (auto simp: idle_def)
          next
            case (Panic e)
            then have "w' = w3 \<and> r = Panic e" using Suc.prems(1) step upd rv by (simp add: bind_def)
            moreover have "idle w3 \<and> w_env w3 = w_env w"
              using record_visit_idle [OF rv acct2] u(1) Panic by (simp add: job_at_def)
            ultimately show ?thesis using near3 by (auto simp: idle_def)
          qed
        qed
      qed
    qed
  qed
qed

subsection \<open>What callers rely on\<close>

text \<open>C23. The retry loop of the authentication ends: after a recorded visit the next round has
  nothing to record, so that any fuel from two rounds on gives the same result.\<close>

theorem authedJob_terminates:
  assumes "fits w" "idle w"
  shows "authed_loop (n + 2) cx now ro w = authedJobInternal cx now ro w"
  using authed_two_rounds [OF assms, of n cx now ro 0] by (simp add: authedJobInternal_def numeral_2_eq_2)

lemma authedJob_terminates_witness:
  "authed_loop 5 as_alice now0 False demo = authedJobInternal as_alice now0 False demo"
  using authedJob_terminates [OF demo_fits demo_idle, of 3 as_alice now0 False] by simp

text \<open>C8. A job is handed out for the user the token belongs to and who still has that token, or
  for nobody when the request carries none; the job is open on the committed database.\<close>

theorem authedJob_authenticates:
  assumes "fits w" "idle w" "authedJobInternal cx now ro w = (Ok su, w')"
  shows "token_user cx (w_db w') su \<and> tx_at w' (w_db w')"
  using authed_loop_result [OF assms(3) [unfolded authedJobInternal_def] assms(1,2)]
  by (simp add: job_at_def)

lemma authedJob_authenticates_witness:
  "\<exists>w'. authedJobInternal as_alice now0 False demo = (Ok (Some alice), w') \<and>
     token_user as_alice (w_db w') (Some alice) \<and> tx_at w' (w_db w')"
  using authedJob_authenticates [OF demo_fits demo_idle alice_job [of False]] alice_job by blast

text \<open>C24. However authentication ends, with the engine failing at any call, nothing is left open
  unless a job is handed out, and the committed database is unchanged but for the counter of
  ids and the times of visits.\<close>

theorem authedJob_changes_visits_only:
  assumes "fits w" "idle w" "authedJobInternal cx now ro w = (r, w')"
  shows "visit_only (w_db w) (w_db w') \<and> ((\<forall>su. r \<noteq> Ok su) \<longrightarrow> w_open w' = 0)"
  using authed_loop_result [OF assms(3) [unfolded authedJobInternal_def] assms(1,2)]
  by (auto simp: idle_def accounted_def)

lemma authedJob_changes_visits_only_witness:
  "visit_only (w_db demo) (w_db (snd (authedJobInternal as_alice now0 True demo)))"
  using authedJob_changes_visits_only [OF demo_fits demo_idle alice_job [of True]]
  by (simp add: alice_job)

end
