(* ===== verification/Disk.thy ===== *)
theory Disk
  imports AuthFacts
begin

section \<open>The database never touches the files\<close>

text \<open>
  Every statement and every transaction leaves the files of the world as they are. Tasks that work on
  files use this to follow the files through their database steps.
\<close>

definition keeps_disk :: "world \<Rightarrow> world \<Rightarrow> bool" where
  "keeps_disk w w' \<longleftrightarrow> w_files w' = w_files w"

interpretation disk: frame keeps_disk
  by unfold_locales (auto simp: keeps_disk_def)

lemma disk_modify: "(\<And>w. w_files (f w) = w_files w) \<Longrightarrow> keeps keeps_disk (modify f)"
  by (auto intro!: keepsI simp: run_simps keeps_disk_def)

lemma disk_engine: "keeps keeps_disk (engine_call m)" "keeps keeps_disk (open_tx m)"
  "keeps keeps_disk tx_rollback" "keeps keeps_disk tx_commit" "keeps keeps_disk job_done"
  by (auto intro!: keepsI simp: engine_call_def open_tx_def tx_rollback_def tx_commit_def job_done_def
      bind_def run_simps Let_def keeps_disk_def split: option.splits if_splits res.splits prod.splits)

lemma disk_calls: "keeps keeps_disk (begin_tx ro)" "keeps keeps_disk (exec_write f)"
  "keeps keeps_disk (query_plan T pl)"
  unfolding begin_tx_def exec_write_def query_plan_def
  by (intro disk.keeps_intros disk_engine disk_modify; simp)+

lemma disk_rows:
  "keeps keeps_disk (find_rows T opt)" "keeps keeps_disk (insert_row T r)" "keeps keeps_disk (update_row T key r)"
  "keeps keeps_disk (delete_row T key)" "keeps keeps_disk (reserveIds grab)"
  unfolding find_rows_def insert_row_def update_row_def delete_row_def reserveIds_def
  by (intro disk.keeps_intros disk_calls disk_engine; auto split: list.splits intro!: disk.keeps_intros disk_calls disk_engine)+

lemma disk_ends: "keeps keeps_disk Rollback" "keeps keeps_disk Commit"
proof -
  have "keeps keeps_disk (bind job_done (\<lambda>_. tx_rollback))" by (intro disk.keeps_intros disk_engine)
  then show "keeps keeps_disk Rollback" by (auto simp: keeps_def Rollback_def disk.refl split: option.splits)
  have "keeps keeps_disk (bind tx_commit (\<lambda>_. job_done))" by (intro disk.keeps_intros disk_engine)
  then show "keeps keeps_disk Commit" by (auto simp: keeps_def Commit_def disk.refl split: option.splits)
qed

lemma disk_newJob: "keeps keeps_disk (newJob ro)"
  unfolding newJob_def preallocateIds_def Let_def case_prod_beta
  by (intro disk.keeps_intros disk_calls disk_engine disk_rows disk_modify) 
    (auto intro!: disk.keeps_intros disk_calls disk_engine disk_rows disk_modify)

lemma disk_validate: "keeps keeps_disk (validateAndUpdateUserAndToken i t lk now)"
  unfolding validateAndUpdateUserAndToken_def FindUsers_def
  by (intro disk.keeps_intros disk_rows) (auto split: list.splits option.splits intro!: disk.keeps_intros)

lemmas disk_ops = disk.keeps_intros disk_newJob disk_ends disk_validate

lemma keeps_disk_authed_loop: "keeps keeps_disk (authed_loop n cx now ro)"
proof -
  have visit: "keeps keeps_disk (record_visit ro i t now)" for i t
    unfolding record_visit_def NewJob_def UpdateUser_def
    by (intro disk_ops) (auto split: prod.splits intro!: disk_ops disk_rows)
  show ?thesis
    by (induction n) (auto simp: authed_loop.simps split: option.splits prod.splits intro!: disk_ops visit)
qed

lemma authed_files: "authedJobInternal cx now ro w = (r, w') \<Longrightarrow> w_files w' = w_files w"
  using keepsD [OF keeps_disk_authed_loop] by (auto simp: authedJobInternal_def keeps_disk_def)

text \<open>The statements of an upload.\<close>

lemma disk_alloc: "keeps keeps_disk AllocId"
  unfolding AllocId_def allocIdJob_def
  by (intro disk.keeps_intros disk_rows)
    (auto split: option.splits prod.splits intro!: disk.keeps_intros disk_rows disk_modify)

lemma disk_finds: "keeps keeps_disk (FindPics opt)" "keeps keeps_disk (FindPicIdents opt)"
  "keeps keeps_disk (FindUserEvents opt)"
  by (simp_all add: FindPics_def FindPicIdents_def FindUserEvents_def disk_rows)

lemma disk_writes: "keeps keeps_disk (InsertPic p)" "keeps keeps_disk (InsertPicIdent i)"
  "keeps keeps_disk (InsertUserEvent e)" "keeps keeps_disk (UpdatePic p)"
  by (simp_all add: InsertPic_def InsertPicIdent_def InsertUserEvent_def UpdatePic_def disk_rows)

end
