(* ===== verification/PicPath.thy ===== *)
theory PicPath
  imports Schema VarintFacts
begin

section \<open>File names of pictures (be/schema/pic.go, be/schema/picfile.go)\<close>

text \<open>
  A picture's file lies in a directory whose names are the symbols of the picture's id but the
  last, under the name of the whole id and an extension; a thumbnail or another derived file
  appends its own index. \<open>filepath.Join\<close> and \<open>filepath.Clean\<close> of the standard library are
  written out for Unix. The property is that no two files share a path.
\<close>

subsection \<open>Package path/filepath\<close>

fun split_slash :: "string \<Rightarrow> string list" where
  "split_slash [] = [[]]"
| "split_slash (c # cs) =
     (if c = CHR ''/'' then [] # split_slash cs
      else (c # hd (split_slash cs)) # tl (split_slash cs))"

fun join_slash :: "string list \<Rightarrow> string" where
  "join_slash [] = []"
| "join_slash [p] = p"
| "join_slash (p # q # ps) = p @ CHR ''/'' # join_slash (q # ps)"

text \<open>The loop of \<open>Clean\<close> over the elements of a path, with the elements kept so far, the
  last one first.\<close>

fun clean_parts :: "bool \<Rightarrow> string list \<Rightarrow> string list \<Rightarrow> string list" where
  "clean_parts rooted acc [] = acc"
| "clean_parts rooted acc (p # ps) =
     (if p = [] \<or> p = ''.'' then clean_parts rooted acc ps
      else if p = ''..'' then
        (if acc \<noteq> [] \<and> hd acc \<noteq> ''..'' then clean_parts rooted (tl acc) ps
         else if \<not> rooted then clean_parts rooted (''..'' # acc) ps
         else clean_parts rooted acc ps)
      else clean_parts rooted (p # acc) ps)"

definition filepath_Clean :: "string \<Rightarrow> string" where
  "filepath_Clean path =
     (if path = [] then ''.''
      else let rooted = (hd path = CHR ''/'');
               out = join_slash (rev (clean_parts rooted [] (split_slash path)))
           in if rooted then CHR ''/'' # out else if out = [] then ''.'' else out)"

definition filepath_Join :: "string list \<Rightarrow> string" where
  "filepath_Join elems =
     (case dropWhile (\<lambda>e. e = []) elems of
        [] \<Rightarrow> []
      | es \<Rightarrow> filepath_Clean (join_slash es))"

subsection \<open>Paths of the program\<close>

definition EncodeVarint :: "int \<Rightarrow> string" where
  "EncodeVarint v = encode_bytes (word_of_int v)"

definition GetVarPicId :: "pic \<Rightarrow> string" where
  "GetVarPicId p = EncodeVarint (p_id p)"

definition PicBaseDir :: "string \<Rightarrow> int \<Rightarrow> string" where
  "PicBaseDir pixPath i =
     (let vid = EncodeVarint i
      in filepath_Join (pixPath # map (\<lambda>k. [vid ! k]) [0..<length vid - 1]))"

definition picFileMimeExt :: "int \<Rightarrow> string option" where
  "picFileMimeExt mime =
     (if mime = 1 then Some ''.jpg'' else if mime = 2 then Some ''.gif''
      else if mime = 3 then Some ''.png'' else if mime = 4 then Some ''.webm''
      else if mime = 5 then Some ''.mp4'' else None)"

definition PicFilePath :: "string \<Rightarrow> int \<Rightarrow> int \<Rightarrow> string res" where
  "PicFilePath pixPath picId mime =
     (case picFileMimeExt mime of
        None \<Rightarrow> Err (InvalidArgument None ''unknown mime'')
      | Some ext \<Rightarrow> Ok (filepath_Join [PicBaseDir pixPath picId, EncodeVarint picId @ ext]))"

definition PicFileDerivedPath :: "string \<Rightarrow> int \<Rightarrow> int \<Rightarrow> int \<Rightarrow> string res" where
  "PicFileDerivedPath pixPath picId index mime =
     (case picFileMimeExt mime of
        None \<Rightarrow> Err (InvalidArgument None ''unknown mime'')
      | Some ext \<Rightarrow> Ok (filepath_Join
          [PicBaseDir pixPath picId, EncodeVarint picId @ EncodeVarint index @ ext]))"

subsection \<open>The last element of a path\<close>

lemma split_slash_neq_Nil [simp]: "split_slash s \<noteq> []"
  by (cases s) auto

lemma split_slash_append: "split_slash (a @ CHR ''/'' # b) = split_slash a @ split_slash b"
  by (induction a) (auto simp: hd_append)

lemma split_slash_plain: "CHR ''/'' \<notin> set p \<Longrightarrow> split_slash p = [p]"
  by (induction p) auto

lemma split_join_last: "CHR ''/'' \<notin> set p \<Longrightarrow> last (split_slash (join_slash (ps @ [p]))) = p"
proof (induction ps rule: join_slash.induct)
  case (2 q)
  then show ?case by (simp add: split_slash_append split_slash_plain)
next
  case (3 q r rs)
  then show ?case by (simp add: split_slash_append)
qed (simp add: split_slash_plain)

definition plain_name :: "string \<Rightarrow> bool" where
  "plain_name p \<longleftrightarrow> p \<noteq> [] \<and> p \<noteq> ''.'' \<and> p \<noteq> ''..'' \<and> CHR ''/'' \<notin> set p"

lemma clean_parts_append:
  "clean_parts rooted acc (ps @ qs) = clean_parts rooted (clean_parts rooted acc ps) qs"
  by (induction rooted acc ps rule: clean_parts.induct) auto

lemma clean_last:
  assumes "plain_name p"
  shows "last (split_slash (filepath_Clean (a @ CHR ''/'' # p))) = p"
    "last (split_slash (filepath_Clean p)) = p"
proof -
  have step: "clean_parts r acc [p] = p # acc" for r acc
    using assms by (simp add: plain_name_def)
  have parts: "\<exists>ps. rev (clean_parts r [] (split_slash (a @ CHR ''/'' # p))) = ps @ [p]" for r
    using assms by (simp only: split_slash_append clean_parts_append)
      (simp add: plain_name_def split_slash_plain)
  have last: "last (split_slash (CHR ''/'' # s)) = last (split_slash s)" for s by simp
  have ne: "join_slash (ps @ [p]) \<noteq> []" for ps
    using assms by (induction ps rule: join_slash.induct) (auto simp: plain_name_def)
  show "last (split_slash (filepath_Clean (a @ CHR ''/'' # p))) = p"
    using parts [of "hd (a @ CHR ''/'' # p) = CHR ''/''"] split_join_last [of p] ne assms
    by (auto simp: filepath_Clean_def Let_def plain_name_def)
  show "last (split_slash (filepath_Clean p)) = p"
    using assms split_join_last [of p "[]"]
    by (cases p) (auto simp: filepath_Clean_def Let_def plain_name_def split_slash_plain)
qed

lemma Join_last:
  assumes "plain_name p"
  shows "last (split_slash (filepath_Join [d, p])) = p"
  using clean_last [OF assms] assms by (simp add: filepath_Join_def plain_name_def)

subsection \<open>Names do not collide\<close>

lemma encode_symbols: "set (encode_bytes v) \<subseteq> set encodeTable \<and> encode_bytes v \<noteq> []"
proof -
  have len: "length encodeTable = 32" by (simp add: encodeTable_def)
  have sym: "sym k \<in> set encodeTable" if "k < 32" for k
    using that len by (metis nth_mem)
  show ?thesis
  proof (cases "unat v < 16")
    case True
    then show ?thesis using sym [of "unat v"] by (simp add: encode_small)
  next
    case False
    then obtain j where "j \<le> 12"
      "encode_bytes v = sym (16 + j) # map sym (digs (Suc j) (unat v - prefix_const j))"
      using encode_large [of v] by auto
    with digs_less sym show ?thesis by (auto simp del: digs.simps)
  qed
qed

lemma encode_no_dot: "c \<in> set (EncodeVarint v) \<Longrightarrow> c \<noteq> CHR ''.'' \<and> c \<noteq> CHR ''/''"
proof -
  have "CHR ''.'' \<notin> set encodeTable \<and> CHR ''/'' \<notin> set encodeTable" by (simp add: encodeTable_def)
  then show "c \<in> set (EncodeVarint v) \<Longrightarrow> ?thesis" using encode_symbols by (auto simp: EncodeVarint_def)
qed

lemma ext_form: "picFileMimeExt m = Some e \<Longrightarrow> \<exists>r. e = CHR ''.'' # r \<and> CHR ''/'' \<notin> set e"
  by (auto simp: picFileMimeExt_def split: if_splits)

lemma ext_inj: "picFileMimeExt m = Some e \<Longrightarrow> picFileMimeExt m' = Some e \<Longrightarrow> m = m'"
  by (auto simp: picFileMimeExt_def split: if_splits)

lemma plain_encoded:
  assumes "picFileMimeExt m = Some e" "CHR ''/'' \<notin> set s"
  shows "plain_name (EncodeVarint v @ s @ e)"
proof -
  obtain c cs where "EncodeVarint v = c # cs"
    using encode_symbols [of "word_of_int v"] by (cases "EncodeVarint v") (auto simp: EncodeVarint_def)
  with encode_no_dot [of _ v] ext_form [OF assms(1)] assms(2) show ?thesis
    by (auto simp: plain_name_def)
qed

lemma EncodeVarint_prefix_free:
  assumes "EncodeVarint v @ a = EncodeVarint w @ b" "int64 v" "int64 w"
  shows "v = w \<and> a = b"
proof -
  have sint: "sint (word_of_int x :: u64) = x" if "int64 x" for x
    using that by (simp add: int_word_sint int64_def)
  have "(word_of_int v :: u64) = word_of_int w \<and> a = b"
    using encode_prefix_free assms(1) by (auto simp: EncodeVarint_def)
  then show ?thesis using sint [OF assms(2)] sint [OF assms(3)] by metis
qed

text \<open>The name a path ends in.\<close>

lemma PicFilePath_name:
  assumes "PicFilePath root p m = Ok f"
  obtains e where "picFileMimeExt m = Some e" "last (split_slash f) = EncodeVarint p @ e"
proof -
  obtain e where e: "picFileMimeExt m = Some e"
    "f = filepath_Join [PicBaseDir root p, EncodeVarint p @ e]"
    using assms by (auto simp: PicFilePath_def split: option.splits)
  have "last (split_slash f) = EncodeVarint p @ e"
    unfolding e(2) using plain_encoded [OF e(1), of "[]"] by (intro Join_last) simp
  with e(1) show thesis by (rule that)
qed

lemma PicFileDerivedPath_name:
  assumes "PicFileDerivedPath root p i m = Ok f"
  obtains e where "picFileMimeExt m = Some e"
    "last (split_slash f) = EncodeVarint p @ EncodeVarint i @ e"
proof -
  obtain e where e: "picFileMimeExt m = Some e"
    "f = filepath_Join [PicBaseDir root p, EncodeVarint p @ EncodeVarint i @ e]"
    using assms by (auto simp: PicFileDerivedPath_def split: option.splits)
  have "last (split_slash f) = EncodeVarint p @ EncodeVarint i @ e"
    unfolding e(2) using plain_encoded [OF e(1), of "EncodeVarint i"] encode_no_dot [of _ i]
    by (intro Join_last) auto
  with e(1) show thesis by (rule that)
qed

text \<open>C37. No two files of pictures share a path: the path of a picture's file determines its id
  and format, the path of a derived file its id, index and format, and no derived file takes
  the place of a picture, whatever the directory.\<close>

theorem pic_paths_never_collide:
  assumes "int64 p" "int64 q" "int64 i" "int64 j"
  shows "(PicFilePath root p m = Ok f \<longrightarrow> PicFilePath root q n = Ok f \<longrightarrow> p = q \<and> m = n) \<and>
    (PicFileDerivedPath root p i m = Ok f \<longrightarrow> PicFileDerivedPath root q j n = Ok f \<longrightarrow>
      p = q \<and> i = j \<and> m = n) \<and>
    (PicFilePath root p m = Ok f \<longrightarrow> PicFileDerivedPath root q j n \<noteq> Ok f)"
proof (intro conjI impI)
  assume *: "PicFilePath root p m = Ok f" "PicFilePath root q n = Ok f"
  obtain e where e: "picFileMimeExt m = Some e" "last (split_slash f) = EncodeVarint p @ e"
    using PicFilePath_name [OF *(1)] .
  obtain e' where e': "picFileMimeExt n = Some e'" "last (split_slash f) = EncodeVarint q @ e'"
    using PicFilePath_name [OF *(2)] .
  show "p = q" "m = n"
    using EncodeVarint_prefix_free [of p e q e'] assms e e' ext_inj by auto
next
  assume *: "PicFileDerivedPath root p i m = Ok f" "PicFileDerivedPath root q j n = Ok f"
  obtain e where e: "picFileMimeExt m = Some e"
    "last (split_slash f) = EncodeVarint p @ EncodeVarint i @ e"
    using PicFileDerivedPath_name [OF *(1)] .
  obtain e' where e': "picFileMimeExt n = Some e'"
    "last (split_slash f) = EncodeVarint q @ EncodeVarint j @ e'"
    using PicFileDerivedPath_name [OF *(2)] .
  have pq: "p = q" and rest: "EncodeVarint i @ e = EncodeVarint j @ e'"
    using EncodeVarint_prefix_free [of p "EncodeVarint i @ e" q "EncodeVarint j @ e'"] assms e e'
    by simp_all
  show "p = q" by (rule pq)
  show "i = j" "m = n"
    using EncodeVarint_prefix_free [OF rest] assms e e' ext_inj by auto
next
  assume 1: "PicFilePath root p m = Ok f"
  show "PicFileDerivedPath root q j n \<noteq> Ok f"
  proof
    assume 2: "PicFileDerivedPath root q j n = Ok f"
    obtain e where e: "picFileMimeExt m = Some e" "last (split_slash f) = EncodeVarint p @ e"
      using PicFilePath_name [OF 1] .
    obtain e' where e': "picFileMimeExt n = Some e'"
      "last (split_slash f) = EncodeVarint q @ EncodeVarint j @ e'"
      using PicFileDerivedPath_name [OF 2] .
    have "e = EncodeVarint j @ e'"
      using EncodeVarint_prefix_free [of p e q "EncodeVarint j @ e'"] assms e e' by auto
    moreover obtain r where "e = CHR ''.'' # r" using ext_form [OF e(1)] by blast
    moreover obtain c cs where "EncodeVarint j = c # cs"
      using encode_symbols [of "word_of_int j"] by (cases "EncodeVarint j") (auto simp: EncodeVarint_def)
    ultimately show False using encode_no_dot [of _ j] by auto
  qed
qed

lemma pic_paths_never_collide_witness:
  "PicFilePath ''/p'' 5 1 = Ok ''/p/5.jpg'' \<and> PicFilePath ''/p'' 5 2 \<noteq> Ok ''/p/5.jpg''"
proof -
  have "EncodeVarint 5 = ''5''" by (simp add: EncodeVarint_def encode_small encodeTable_def)
  then have f: "PicFilePath ''/p'' 5 1 = Ok ''/p/5.jpg''"
    by (simp add: PicFilePath_def picFileMimeExt_def PicBaseDir_def filepath_Join_def
        filepath_Clean_def)
  moreover have "PicFilePath ''/p'' 5 2 \<noteq> Ok ''/p/5.jpg''"
    using pic_paths_never_collide [of 5 5 0 0 "''/p''" 1 "''/p/5.jpg''" 2] f
    by (auto simp: int64_def)
  ultimately show ?thesis ..
qed

end
