(* ===== verification/Task.thy ===== *)
theory Task
  imports Disk PicPath
begin

section \<open>What tasks share (be/tasks/task.go)\<close>

text \<open>
  A task authenticates the request, works in the job it gets and, whatever happens, rolls the
  job back at the end, which does nothing after a commit. The locale \<open>task_body\<close> states what
  the part between the two must keep, and gives for the whole task that it keeps the integrity
  of the database and leaves no transaction open; \<open>atomic_task\<close> adds that the part commits
  last, and gives that a task that fails has changed nothing.
\<close>

definition revert :: "'a io \<Rightarrow> 'a io" where
  "revert m = deferred m Rollback"

subsection \<open>Removing files\<close>

text \<open>
  \<open>os.Remove\<close>, the \<open>Remove\<close> of the tasks that delete pictures: it may fail for any reason
  (\<open>e_io\<close>), and fails on a file that does not exist.
\<close>

definition remove_file :: "string \<Rightarrow> gerr option io" where
  "remove_file name w =
     (let w' = w\<lparr>w_ios := Suc (w_ios w)\<rparr>
      in case e_io (w_env w) (w_ios w) of
           Some m \<Rightarrow> (Ok (Some (EOther m)), w')
         | None \<Rightarrow>
             (if name \<notin> fst ` set (w_files w) then (Ok (Some (EOther ''no such file'')), w')
              else (Ok None, w'\<lparr>w_files := filter (\<lambda>f. fst f \<noteq> name) (w_files w)\<rparr>)))"

text \<open>One file given up after the commit: the error to report, if any.\<close>

fun release :: "string res \<Rightarrow> sts option io" where
  "release (Ok path) =
     bind (remove_file path) (\<lambda>e. ret (case e of None \<Rightarrow> None
       | Some err \<Rightarrow> Some (DataLoss (Some err) ''unable to delete pic data'')))"
| "release (Err e) = ret (Some e)"
| "release (Panic p) = panic p"

lemma remove_file_frames:
  "keeps keeps_fit (remove_file n)" "keeps keeps_base (remove_file n)"
  "keeps keeps_acct (remove_file n)"
  by (auto intro!: keepsI simp: remove_file_def Let_def keeps_fit_def fits_def keeps_base_def acct_defs
      split: option.splits if_splits)

lemma release_frames:
  "keeps keeps_fit (release r)" "keeps keeps_base (release r)" "keeps keeps_acct (release r)"
  by (cases r; auto intro!: fit_ops base_ops acct_ops remove_file_frames)+

text \<open>
  The end of \<open>HardDeletePicTask\<close> and \<open>PurgePicTask\<close>. Each failure is reported by a deferred
  call, and deferred calls run last in, first out: the last failure becomes the result and
  the others are suppressed in it.
\<close>

definition release_files :: "string \<Rightarrow> pic \<Rightarrow> pic_file list \<Rightarrow> unit io" where
  "release_files pixPath p thumbs =
     (case p_file p of
        None \<Rightarrow> panic ''nil pointer dereference''
      | Some f \<Rightarrow>
          bind (release (PicFilePath pixPath (p_id p) (pf_mime f))) (\<lambda>e.
          bind (each (\<lambda>th. release (PicFileDerivedPath pixPath (p_id p) (pf_index th) (pf_mime th)))
            thumbs) (\<lambda>es.
          (case foldl ReplaceOrSuppress None (rev (map the (filter (\<lambda>x. x \<noteq> None) (e # es)))) of
             None \<Rightarrow> ret ()
           | Some err \<Rightarrow> fail err))))"

lemma release_files_frames:
  "keeps keeps_fit (release_files r p ths)" "keeps keeps_base (release_files r p ths)"
  "keeps keeps_acct (release_files r p ths)"
  unfolding release_files_def
  by (auto split: option.splits intro!: fit_ops base_ops acct_ops release_frames)

subsection \<open>Configuration\<close>

definition conf_of :: "ctx \<Rightarrow> world \<Rightarrow> configuration option" where
  "conf_of cx w = (case cx_conf cx of Some c \<Rightarrow> Some c | None \<Rightarrow> w_site w)"

lemma GetConfiguration_iff: "GetConfiguration cx w = (Ok conf, w') \<longleftrightarrow> conf_of cx w = Some conf \<and> w' = w"
  by (auto simp: GetConfiguration_def conf_of_def bind_def run_simps split: option.splits)

lemmas conf_ops = keeps_fit_conf keeps_base_conf keeps_acct_conf

subsection \<open>A failed task changes nothing\<close>

text \<open>A run that has not touched the database, or has not failed and is done with its job.\<close>

definition settled :: "world \<Rightarrow> 'a res \<Rightarrow> world \<Rightarrow> bool" where
  "settled w r w' \<longleftrightarrow> w_db w' = w_db w \<or>
     (\<forall>e. r \<noteq> Err e) \<and> (\<exists>tx. w_tx w' = Some tx \<and> tx_jobdone tx)"

definition sure_commit :: "env \<Rightarrow> bool" where
  "sure_commit ev \<longleftrightarrow> (\<forall>n. \<not> e_commit_applies ev n)"

definition commits_last :: "'a io \<Rightarrow> bool" where
  "commits_last m \<longleftrightarrow> (\<forall>w r w'. m w = (r, w') \<longrightarrow> sure_commit (w_env w) \<longrightarrow> settled w r w')"

text \<open>What may follow the commit: no error and no statement.\<close>

definition quiet :: "'a io \<Rightarrow> bool" where
  "quiet m \<longleftrightarrow> (\<forall>w. (\<forall>e. fst (m w) \<noteq> Err e) \<and> w_tx (snd (m w)) = w_tx w)"

lemma quiet_ret [simp]: "quiet (ret x)"
  by (simp add: quiet_def run_simps)

lemma quiet_lift_res: "(\<And>e. r \<noteq> Err e) \<Longrightarrow> quiet (lift_res r)"
  by (simp add: quiet_def run_simps)

lemma quiet_bind: "quiet m \<Longrightarrow> (\<And>x. quiet (f x)) \<Longrightarrow> quiet (bind m f)"
  by (auto simp: quiet_def bind_def split: prod.splits res.splits) (metis fst_conv snd_conv)+

lemma commits_last_base: "keeps keeps_base m \<Longrightarrow> commits_last m"
  by (auto simp: commits_last_def settled_def keeps_base_def dest: keepsD)

lemma commits_last_bind:
  assumes "keeps keeps_base p" "\<And>x. commits_last (q x)"
  shows "commits_last (bind p q)"
  unfolding commits_last_def
proof (intro allI impI)
  fix w r w'
  assume run: "bind p q w = (r, w')" and sure: "sure_commit (w_env w)"
  obtain r1 w1 where p: "p w = (r1, w1)" by fastforce
  have base: "w_db w1 = w_db w" "w_env w1 = w_env w" using base_tx [OF assms(1) p] by auto
  show "settled w r w'"
  proof (cases r1)
    case (Ok x)
    then have "q x w1 = (r, w')" using run p by (simp add: bind_def)
    then have "settled w1 r w'" using assms(2) sure base by (simp add: commits_last_def)
    then show ?thesis using base by (simp add: settled_def)
  qed (use run p base in \<open>auto simp: bind_def settled_def\<close>)
qed

lemma Commit_done: "Commit w = (Ok u, w') \<Longrightarrow> \<exists>tx. w_tx w' = Some tx \<and> tx_jobdone tx"
  by (auto simp: Commit_def tx_commit_def job_done_def bind_def open_tx_def run_simps Let_def
      split: option.splits if_splits)

lemma Commit_fails:
  assumes "Commit w = (r, w')" "sure_commit (w_env w)" "r \<noteq> Ok ()"
  shows "w_db w' = w_db w"
  using assms
  by (auto simp: Commit_def tx_commit_def job_done_def bind_def open_tx_def run_simps Let_def
      sure_commit_def split: option.splits if_splits)

lemma commits_last_Commit:
  assumes "\<And>x. quiet (q x)"
  shows "commits_last (bind (wrap_err f Commit) q)"
  unfolding commits_last_def
proof (intro allI impI)
  fix w r w'
  assume run: "bind (wrap_err f Commit) q w = (r, w')" and sure: "sure_commit (w_env w)"
  obtain r1 w1 where c: "Commit w = (r1, w1)" by fastforce
  show "settled w r w'"
  proof (cases "r1 = Ok ()")
    case True
    have q: "q () w1 = (r, w')" using run c True by (simp add: bind_def wrap_err_def)
    have "(\<forall>e. fst (q () w1) \<noteq> Err e) \<and> w_tx (snd (q () w1)) = w_tx w1"
      using assms [of "()"] by (simp add: quiet_def)
    then show ?thesis using q Commit_done [of w "()" w1] c True by (simp add: settled_def)
  next
    case False
    then show ?thesis using run c Commit_fails [OF c sure]
      by (cases r1) (auto simp: bind_def wrap_err_def settled_def)
  qed
qed

text \<open>The deferred rollback does nothing once the job is done.\<close>

lemma revert_settled:
  assumes "settled w r w1" "Rollback w1 = (r2, w2)" "revert m w = (Err e, w')" "m w = (r, w1)"
  shows "w_db w' = w_db w"
proof -
  have w': "w' = w2" using assms(2-4) by (cases r2) (auto simp: revert_def deferred_def)
  have db: "w_db w2 = w_db w1" using Rollback_keeps [OF assms(2)] by blast
  show ?thesis
  proof (cases "w_db w1 = w_db w")
    case False
    then obtain tx where tx: "\<forall>e. r \<noteq> Err e" "w_tx w1 = Some tx" "tx_jobdone tx"
      using assms(1) by (auto simp: settled_def)
    then have "r2 = Ok ()" using assms(2) by (simp add: Rollback_def)
    then show ?thesis using assms(2-4) tx(1) by (cases r) (auto simp: revert_def deferred_def)
  qed (simp add: w' db)
qed

text \<open>Nothing but the loading task changes the site's configuration.\<close>

definition keeps_site :: "world \<Rightarrow> world \<Rightarrow> bool" where
  "keeps_site w w' \<longleftrightarrow> w_site w' = w_site w"

interpretation site: frame keeps_site
  by unfold_locales (auto simp: keeps_site_def)

interpretation any: db_property "\<lambda>d. True"
  by unfold_locales simp

lemma site_base: "keeps keeps_base m \<Longrightarrow> keeps keeps_site m"
  and site_near: "keeps (keeps_near Q) m \<Longrightarrow> keeps keeps_site m"
  by (auto simp: keeps_def keeps_base_def keeps_near_def keeps_site_def)

lemmas site_ops = site.keeps_intros site_near [OF any.newJob] site_near [OF any.Commit]
  site_base [OF keeps_base_Rollback] site_base [OF keeps_base_validate]
  site_base [OF keeps_base_tables(28)]

lemma keeps_site_authed_loop: "keeps keeps_site (authed_loop n cx now ro)"
proof -
  have visit: "keeps keeps_site (record_visit ro i t now)" for i t
    unfolding record_visit_def NewJob_def
    by (intro site_ops) (auto split: prod.splits intro!: site_ops)
  show ?thesis
    by (induction n) (auto simp: authed_loop.simps split: option.splits prod.splits intro!: site_ops visit)
qed

lemma Rollback_files: "Rollback w = (r, w') \<Longrightarrow> w_files w' = w_files w"
  by (auto simp: Rollback_def job_done_def tx_rollback_def bind_def run_simps Let_def
      split: option.splits if_splits)

subsection \<open>The contract of a task's body\<close>

locale task_body =
  fixes body :: "user option \<Rightarrow> 'a io"
  assumes fit: "keeps keeps_fit (body u)"
    and acct: "keeps keeps_acct (body u)"
begin

lemma keeps_fit_task: "keeps keeps_fit (bind (authedJobInternal cx now ro) (\<lambda>u. revert (body u)))"
  unfolding revert_def authedJobInternal_def by (intro fit_ops keeps_fit_authed_loop fit)

text \<open>Whatever happens, the integrity of the database is kept and nothing is left open.\<close>

lemma closes:
  assumes "bind (authedJobInternal cx now ro) (\<lambda>u. revert (body u)) w = (r, w')" "fits w" "idle w"
  shows "fits w' \<and> idle w' \<and> w_env w' = w_env w"
proof -
  have fit: "fits w' \<and> w_env w' = w_env w"
    using keepsD [OF keeps_fit_task assms(1)] assms(2) by (simp add: keeps_fit_def)
  obtain r1 w1 where a: "authedJobInternal cx now ro w = (r1, w1)" by fastforce
  note res = authed_loop_result [OF a [unfolded authedJobInternal_def] assms(2,3)]
  have "idle w'"
  proof (cases r1)
    case (Ok su)
    then have "revert (body su) w1 = (r, w')" using assms(1) a by (simp add: bind_def)
    then show ?thesis using deferred_Rollback_idle [OF _ acct] res by (auto simp: revert_def)
  qed (use assms(1) a res in \<open>auto simp: bind_def\<close>)
  with fit show ?thesis by simp
qed

text \<open>What a normal return went through.\<close>

lemma succeeds:
  assumes "bind (authedJobInternal cx now ro) (\<lambda>u. revert (body u)) w = (Ok x, w')" "fits w" "idle w"
  obtains su w1 w2 where "job_at (w_env w) (w_db w1) (w_db w1) w1" "visit_only (w_db w) (w_db w1)"
    "token_user cx (w_db w1) su" "body su w1 = (Ok x, w2)" "w_db w' = w_db w2" "w_site w1 = w_site w"
    "w_files w' = w_files w2" "w_files w1 = w_files w"
proof -
  obtain su w1 where a: "authedJobInternal cx now ro w = (Ok su, w1)"
    and b: "revert (body su) w1 = (Ok x, w')" using assms(1) by (auto elim: bind_OkE)
  obtain w2 where c: "body su w1 = (Ok x, w2)" "Rollback w2 = (Ok (), w')"
    using b by (auto simp: revert_def elim: deferred_OkE)
  note res = authed_loop_result [OF a [unfolded authedJobInternal_def] assms(2,3)]
  have "w_site w1 = w_site w"
    using keepsD [OF keeps_site_authed_loop a [unfolded authedJobInternal_def]]
    by (simp add: keeps_site_def)
  with that res c Rollback_keeps [OF c(2)] Rollback_files [OF c(2)] authed_files [OF a]
  show thesis by auto
qed

end

locale atomic_task = task_body +
  assumes once: "commits_last (body u)"
begin

text \<open>Whenever the task reports an error, only visits have been written down.\<close>

lemma all_or_nothing:
  assumes "bind (authedJobInternal cx now ro) (\<lambda>u. revert (body u)) w = (Err e, w')"
    "fits w" "idle w" "sure_commit (w_env w)"
  shows "visit_only (w_db w) (w_db w')"
proof -
  obtain r1 w1 where a: "authedJobInternal cx now ro w = (r1, w1)" by fastforce
  note res = authed_loop_result [OF a [unfolded authedJobInternal_def] assms(2,3)]
  show ?thesis
  proof (cases r1)
    case (Ok su)
    then have b: "revert (body su) w1 = (Err e, w')" using assms(1) a by (simp add: bind_def)
    obtain r2 w2 where c: "body su w1 = (r2, w2)" by fastforce
    obtain r3 w3 where d: "Rollback w2 = (r3, w3)" by fastforce
    have "settled w1 r2 w2" using once [of su] c assms(4) res by (simp add: commits_last_def)
    from revert_settled [OF this d b c] show ?thesis using res by simp
  qed (use assms(1) a res in \<open>auto simp: bind_def\<close>)
qed

end

subsection \<open>The contract of a task that only reads\<close>

locale read_task = task_body +
  assumes base: "keeps keeps_base (body u)"
begin

text \<open>Whatever it reports, and also when it panics, it has written nothing but visits.\<close>

lemma only_reads:
  assumes "bind (authedJobInternal cx now ro) (\<lambda>u. revert (body u)) w = (r, w')" "fits w" "idle w"
  shows "visit_only (w_db w) (w_db w') \<and> fits w' \<and> idle w'"
proof -
  obtain r1 w1 where a: "authedJobInternal cx now ro w = (r1, w1)" by fastforce
  note res = authed_loop_result [OF a [unfolded authedJobInternal_def] assms(2,3)]
  have "visit_only (w_db w) (w_db w')"
  proof (cases r1)
    case (Ok su)
    then have b: "revert (body su) w1 = (r, w')" using assms(1) a by (simp add: bind_def)
    have k: "keeps keeps_base (revert (body su))" unfolding revert_def by (intro base_ops base)
    show ?thesis using base_tx [OF k b] res by auto
  qed (use assms(1) a res in \<open>auto simp: bind_def\<close>)
  with closes [OF assms] show ?thesis by blast
qed

end

end
