(* ===== verification/PicTasks.thy ===== *)
theory PicTasks
  imports Task
begin

section \<open>Deleting and viewing pictures\<close>

text \<open>
  \<open>SoftDeletePicTask\<close>, \<open>HardDeletePicTask\<close>, \<open>PurgePicTask\<close> and \<open>IncrementViewCountTask\<close>. A
  picture goes from live to soft-deleted (marked, with a time after which it may go for good)
  and to hard-deleted (its file is gone, its row stays so that the picture can be recognised);
  purging removes it and everything that refers to it.
\<close>

subsection \<open>The tasks\<close>

definition pic_opts :: "int \<Rightarrow> opts" where
  "pic_opts picId = no_opts\<lparr>o_prefix := Some (PicsPrimary (Some picId)), o_lock := LockWrite, o_limit := 1\<rparr>"

definition writable_pic :: "int \<Rightarrow> pic io" where
  "writable_pic picId =
     bind (wrap_err (\<lambda>e. Internal e ''can't find pics'') (FindPics (pic_opts picId))) (\<lambda>pics.
     (case pics of [p] \<Rightarrow> ret p | _ \<Rightarrow> fail (NotFound None ''can't lookup pic'')))"

definition no_deletion :: deletion_status where
  "no_deletion = \<lparr>ds_marked = None, ds_pending = None, ds_actual = None, ds_details = [],
     ds_reason = Reason_UNKNOWN, ds_temporary = False\<rparr>"

definition opt_tspb :: "int option \<Rightarrow> tspb option res" where
  "opt_tspb t = (case t of None \<Rightarrow> Ok None | Some x \<Rightarrow> res_map Some (ToTspb x))"

text \<open>What \<open>SoftDeletePicTask\<close> makes of the picture.\<close>

definition soft_mark :: "int \<Rightarrow> int option \<Rightarrow> int \<Rightarrow> string \<Rightarrow> bool \<Rightarrow> pic \<Rightarrow> pic res" where
  "soft_mark now pending reason details temporary p =
     res_bind
       (case p_del p of
          Some ds \<Rightarrow> (if HardDeleted p then Err (InvalidArgument None ''pic already hard deleted'')
                     else Ok ds)
        | None \<Rightarrow> Ok no_deletion) (\<lambda>ds.
     res_bind (opt_tspb pending) (\<lambda>pend.
     res_bind (case ds_marked ds of None \<Rightarrow> res_map Some (ToTspb now) | Some m \<Rightarrow> Ok (Some m)) (\<lambda>marked.
     res_bind (ToTspb now) (\<lambda>nowts.
       Ok (p\<lparr>p_del := Some (ds\<lparr>ds_reason := reason, ds_details := details,
           ds_temporary := temporary, ds_pending := pend, ds_marked := marked\<rparr>),
         p_modified := Some nowts\<rparr>)))))"

definition soft_delete_body ::
    "ctx \<Rightarrow> int \<Rightarrow> int \<Rightarrow> int option \<Rightarrow> int \<Rightarrow> string \<Rightarrow> bool \<Rightarrow> user option \<Rightarrow> unit io" where
  "soft_delete_body cx now picId pending reason details temporary u =
     bind (GetConfiguration cx) (\<lambda>conf.
     bind (lift_res (validateCapability u conf [PIC_SOFT_DELETE])) (\<lambda>_.
     bind (writable_pic picId) (\<lambda>p.
     bind (lift_res (soft_mark now pending reason details temporary p)) (\<lambda>p'.
     bind (wrap_err (\<lambda>e. Internal e ''can't update pic'') (UpdatePic p')) (\<lambda>_.
     bind (wrap_err (\<lambda>e. Internal e ''can't commit job'') Commit) (\<lambda>_. ret ()))))))"

definition SoftDeletePicTask ::
    "ctx \<Rightarrow> int \<Rightarrow> int \<Rightarrow> int option \<Rightarrow> int \<Rightarrow> string \<Rightarrow> bool \<Rightarrow> unit io" where
  "SoftDeletePicTask cx now picId pending reason details temporary =
     (if reason = Reason_UNKNOWN then fail (Internal None ''Invalid deletion reason'')
      else bind (authedJob cx now) (\<lambda>u.
        revert (soft_delete_body cx now picId pending reason details temporary u)))"

text \<open>What \<open>HardDeletePicTask\<close> makes of the picture.\<close>

definition hard_mark :: "int \<Rightarrow> pic \<Rightarrow> pic res" where
  "hard_mark now p =
     res_bind (ToTspb now) (\<lambda>nowts.
       let p1 = (case p_del p of
                   None \<Rightarrow> p\<lparr>p_del := Some (no_deletion\<lparr>ds_marked := Some nowts,
                     ds_pending := Some nowts, ds_reason := Reason_NONE\<rparr>)\<rparr>
                 | Some ds \<Rightarrow> p)
       in if HardDeleted p1 then Err (InvalidArgument None ''pic already hard deleted'')
          else Ok (p1\<lparr>p_del := map_option (\<lambda>ds. ds\<lparr>ds_actual := Some nowts\<rparr>) (p_del p1),
            p_thumb := [], p_modified := Some nowts\<rparr>))"

definition hard_delete_body :: "ctx \<Rightarrow> int \<Rightarrow> string \<Rightarrow> int \<Rightarrow> user option \<Rightarrow> unit io" where
  "hard_delete_body cx now pixPath picId u =
     bind (GetConfiguration cx) (\<lambda>conf.
     bind (lift_res (validateCapability u conf [PIC_HARD_DELETE])) (\<lambda>_.
     bind (writable_pic picId) (\<lambda>p.
     bind (lift_res (hard_mark now p)) (\<lambda>p'.
     bind (wrap_err (\<lambda>e. Internal e ''can't update pic'') (UpdatePic p')) (\<lambda>_.
     bind (wrap_err (\<lambda>e. Internal e ''can't commit job'') Commit) (\<lambda>_.
       release_files pixPath p' (p_thumb p)))))))"

definition HardDeletePicTask :: "ctx \<Rightarrow> int \<Rightarrow> string \<Rightarrow> int \<Rightarrow> unit io" where
  "HardDeletePicTask cx now pixPath picId =
     bind (authedJob cx now) (\<lambda>u. revert (hard_delete_body cx now pixPath picId u))"

definition count_view :: "int \<Rightarrow> pic \<Rightarrow> pic res" where
  "count_view now p =
     (if HardDeleted p then Err (InvalidArgument None ''can't update view count of deleted pic'')
      else res_bind (ToTspb now) (\<lambda>nowts.
        Ok (p\<lparr>p_views := wrap64 (p_views p + 1), p_modified := Some nowts\<rparr>)))"

definition increment_body :: "ctx \<Rightarrow> int \<Rightarrow> int \<Rightarrow> user option \<Rightarrow> unit io" where
  "increment_body cx now picId u =
     bind (GetConfiguration cx) (\<lambda>conf.
     bind (lift_res (validateCapability u conf [PIC_UPDATE_VIEW_COUNTER])) (\<lambda>_.
     bind (writable_pic picId) (\<lambda>p.
     bind (lift_res (count_view now p)) (\<lambda>p'.
     bind (wrap_err (\<lambda>e. Internal e ''can't update pic'') (UpdatePic p')) (\<lambda>_.
     bind (wrap_err (\<lambda>e. Internal e ''can't commit job'') Commit) (\<lambda>_. ret ()))))))"

definition IncrementViewCountTask :: "ctx \<Rightarrow> int \<Rightarrow> int \<Rightarrow> unit io" where
  "IncrementViewCountTask cx now picId =
     bind (authedJob cx now) (\<lambda>u. revert (increment_body cx now picId u))"

subsection \<open>Purging\<close>

text \<open>The tags of the purged picture: one use less, or gone with the last use.\<close>

definition purge_tag :: "int \<Rightarrow> tag \<Rightarrow> unit io" where
  "purge_tag now t =
     (if t_usage t > 1 then
        bind (lift_res (ToTspb now)) (\<lambda>nowts.
          wrap_err (\<lambda>e. Internal e ''can't update tag'')
            (UpdateTag (t\<lparr>t_usage := t_usage t - 1, t_modified := Some nowts\<rparr>)))
      else wrap_err (\<lambda>e. Internal e ''can't delete tag'') (DeleteTag (KeyForTag t)))"

definition lookup_tag :: "pic_tag \<Rightarrow> tag io" where
  "lookup_tag pt =
     bind (wrap_err (\<lambda>e. Internal e ''can't find tag'')
       (FindTags (no_opts\<lparr>o_prefix := Some (TagsPrimary (Some (pt_tag pt))), o_lock := LockWrite,
         o_limit := 1\<rparr>))) (\<lambda>tags.
     (case tags of [t] \<Rightarrow> ret t | _ \<Rightarrow> fail (Internal None ''can't lookup tag'')))"

definition purge_rows :: "int \<Rightarrow> int \<Rightarrow> unit io" where
  "purge_rows now picId =
     bind (wrap_err (\<lambda>e. Internal e ''can't find pic idents'')
       (FindPicIdents (no_opts\<lparr>o_prefix := Some (PicIdentsPrimary (Some picId) None None),
         o_lock := LockWrite\<rparr>))) (\<lambda>pis.
     bind (each (\<lambda>pi. wrap_err (\<lambda>e. Internal e ''can't delete pic ident'')
       (DeletePicIdent (KeyForPicIdent pi))) pis) (\<lambda>_.
     bind (wrap_err (\<lambda>e. Internal e ''can't find pic tags'')
       (FindPicTags (no_opts\<lparr>o_prefix := Some (PicTagsPrimary (Some picId) None),
         o_lock := LockWrite\<rparr>))) (\<lambda>pts.
     bind (each (\<lambda>pt. wrap_err (\<lambda>e. Internal e ''can't delete pic tag'')
       (DeletePicTag (KeyForPicTag pt))) pts) (\<lambda>_.
     bind (each lookup_tag pts) (\<lambda>ts.
     bind (each (purge_tag now) ts) (\<lambda>_.
     bind (wrap_err (\<lambda>e. Internal e ''can't find pic comments'')
       (FindPicComments (no_opts\<lparr>o_prefix := Some (PicCommentsPrimary (Some picId) None),
         o_lock := LockWrite\<rparr>))) (\<lambda>pcs.
     bind (each (\<lambda>pc. wrap_err (\<lambda>e. Internal e ''can't delete pic comment'')
       (DeletePicComment (KeyForPicComment pc))) pcs) (\<lambda>_.
     bind (wrap_err (\<lambda>e. Internal e ''can't find pic votes'')
       (FindPicVotes (no_opts\<lparr>o_prefix := Some (PicVotesPrimary (Some picId) None None),
         o_lock := LockWrite\<rparr>))) (\<lambda>pvs.
     bind (each (\<lambda>pv. wrap_err (\<lambda>e. Internal e ''can't delete pic vote'')
       (DeletePicVote (KeyForPicVote pv))) pvs) (\<lambda>_. ret ()))))))))))"

definition purge_body :: "ctx \<Rightarrow> int \<Rightarrow> string \<Rightarrow> int \<Rightarrow> user option \<Rightarrow> unit io" where
  "purge_body cx now pixPath picId u =
     bind (GetConfiguration cx) (\<lambda>conf.
     bind (lift_res (validateCapability u conf [PIC_PURGE])) (\<lambda>_.
     bind (writable_pic picId) (\<lambda>p.
     bind (wrap_err (\<lambda>e. Internal e ''can't delete pic'') (DeletePic (KeyForPic p))) (\<lambda>_.
     bind (purge_rows now picId) (\<lambda>_.
     bind (wrap_err (\<lambda>e. Internal e ''Unable to Commit'') Commit) (\<lambda>_.
       release_files pixPath p (p_thumb p)))))))"

definition PurgePicTask :: "ctx \<Rightarrow> int \<Rightarrow> string \<Rightarrow> int \<Rightarrow> unit io" where
  "PurgePicTask cx now pixPath picId =
     bind (authedJob cx now) (\<lambda>u. revert (purge_body cx now pixPath picId u))"

subsection \<open>Frames\<close>

lemmas task_frames = fit_ops base_ops acct_ops conf_ops release_files_frames

lemma writable_pic_frames: "keeps keeps_fit (writable_pic i)" "keeps keeps_base (writable_pic i)"
  "keeps keeps_acct (writable_pic i)"
  unfolding writable_pic_def
  by (intro fit_ops base_ops acct_ops; auto split: list.splits intro!: fit_ops base_ops acct_ops)+

lemma purge_tag_frames: "keeps keeps_fit (purge_tag n t)" "keeps keeps_base (purge_tag n t)"
  "keeps keeps_acct (purge_tag n t)"
  unfolding purge_tag_def by (auto intro!: fit_ops base_ops acct_ops)

lemma lookup_tag_frames: "keeps keeps_fit (lookup_tag t)" "keeps keeps_base (lookup_tag t)"
  "keeps keeps_acct (lookup_tag t)"
  unfolding lookup_tag_def
  by (intro fit_ops base_ops acct_ops; auto split: list.splits intro!: fit_ops base_ops acct_ops)+

lemma purge_rows_frames: "keeps keeps_fit (purge_rows n i)" "keeps keeps_base (purge_rows n i)"
  "keeps keeps_acct (purge_rows n i)"
  unfolding purge_rows_def
  by (intro fit_ops base_ops acct_ops purge_tag_frames lookup_tag_frames)+

interpretation soft_delete: atomic_task "soft_delete_body cx now picId pending reason details temporary"
  for cx now picId pending reason details temporary
  unfolding soft_delete_body_def
  by unfold_locales (intro task_frames writable_pic_frames commits_last_bind commits_last_Commit quiet_ret)+

interpretation increment: atomic_task "increment_body cx now picId" for cx now picId
  unfolding increment_body_def
  by unfold_locales (intro task_frames writable_pic_frames commits_last_bind commits_last_Commit quiet_ret)+

interpretation hard_delete: task_body "hard_delete_body cx now pixPath picId" for cx now pixPath picId
  unfolding hard_delete_body_def
  by unfold_locales (intro task_frames writable_pic_frames)+

interpretation purge: task_body "purge_body cx now pixPath picId" for cx now pixPath picId
  unfolding purge_body_def
  by unfold_locales (intro task_frames writable_pic_frames purge_rows_frames)+

end
