(* ===== verification/Keys.thy ===== *)
theory Keys
  imports JobSteps
begin

section \<open>Keys of the messages\<close>

text \<open>
  The unique keys of the tables, stated for the messages: no two pictures have one id, no two
  votes one picture, user and index, and so on. They turn a find that stops at the first row
  into the only row there is.
\<close>

lemma key_distinct:
  assumes "rows_fit T ev rows" "key \<in> set (tb_unique T)"
    and cols: "\<And>r. r \<in> set rows \<Longrightarrow> map (col_of (tb_cols T) r) key = g (f (tr_data r))"
  shows "distinct (map f (msgs rows))"
proof -
  have "distinct (map (\<lambda>r. map (col_of (tb_cols T) r) key) rows)"
    using assms(1,2) by (simp add: rows_fit_def)
  also have "map (\<lambda>r. map (col_of (tb_cols T) r) key) rows = map g (map f (msgs rows))"
    using cols by (simp add: msgs_def)
  finally show ?thesis by (auto simp: distinct_map dest: inj_on_imageI2)
qed

lemma pics_distinct: "db_fits ev d \<Longrightarrow> distinct (map p_id (msgs (db_pics d)))"
proof (rule key_distinct [where ev = ev and T = pics_table and key = "[''id'']" and g = "\<lambda>k. [SInt k]"])
  fix r
  assume "db_fits ev d" "r \<in> set (db_pics d)"
  then show "map (col_of (tb_cols pics_table) r) [''id''] = (\<lambda>k. [SInt k]) (p_id (tr_data r))"
    using pics_cols [of ev d r] by (auto simp: col_of_def pics_table_def)
qed (simp_all add: db_fits_def, simp add: pics_table_def)

lemma tags_distinct: "db_fits ev d \<Longrightarrow> distinct (map t_id (msgs (db_tags d)))"
proof (rule key_distinct [where ev = ev and T = tags_table and key = "[''id'']" and g = "\<lambda>k. [SInt k]"])
  fix r
  assume "db_fits ev d" "r \<in> set (db_tags d)"
  then show "map (col_of (tb_cols tags_table) r) [''id''] = (\<lambda>k. [SInt k]) (t_id (tr_data r))"
    using tags_cols [of ev d r] by (auto simp: col_of_def tags_table_def)
qed (simp_all add: db_fits_def, simp add: tags_table_def)

lemma pictags_distinct: "db_fits ev d \<Longrightarrow> distinct (map (\<lambda>t. (pt_pic t, pt_tag t)) (msgs (db_pictags d)))"
proof (rule key_distinct [where ev = ev and T = pictags_table and key = "[''pic_id'', ''tag_id'']" and g = "\<lambda>(p, t). [SInt p, SInt t]"])
  fix r
  assume "db_fits ev d" "r \<in> set (db_pictags d)"
  then show "map (col_of (tb_cols pictags_table) r) [''pic_id'', ''tag_id''] = (\<lambda>(p, t). [SInt p, SInt t]) ((\<lambda>t. (pt_pic t, pt_tag t)) (tr_data r))"
    using pictags_cols [of ev d r] by (auto simp: col_of_def pictags_table_def)
qed (simp_all add: db_fits_def, simp add: pictags_table_def)

lemma comments_distinct: "db_fits ev d \<Longrightarrow> distinct (map pc_id (msgs (db_comments d)))"
proof (rule key_distinct [where ev = ev and T = comments_table and key = "[''comment_id'']" and g = "\<lambda>k. [SInt k]"])
  fix r
  assume "db_fits ev d" "r \<in> set (db_comments d)"
  then show "map (col_of (tb_cols comments_table) r) [''comment_id''] = (\<lambda>k. [SInt k]) (pc_id (tr_data r))"
    using comments_cols [of ev d r] by (auto simp: col_of_def comments_table_def)
qed (simp_all add: db_fits_def, simp add: comments_table_def)

lemma votes_distinct: "db_fits ev d \<Longrightarrow> distinct (map (\<lambda>v. (pv_pic v, pv_user v, pv_index v)) (msgs (db_votes d)))"
proof (rule key_distinct [where ev = ev and T = votes_table and key = "[''pic_id'', ''user_id'', ''index'']" and g = "\<lambda>(p, u, i). [SInt p, SInt u, SInt i]"])
  fix r
  assume "db_fits ev d" "r \<in> set (db_votes d)"
  then show "map (col_of (tb_cols votes_table) r) [''pic_id'', ''user_id'', ''index''] = (\<lambda>(p, u, i). [SInt p, SInt u, SInt i]) ((\<lambda>v. (pv_pic v, pv_user v, pv_index v)) (tr_data r))"
    using votes_cols [of ev d r] by (auto simp: col_of_def votes_table_def)
qed (simp_all add: db_fits_def, simp add: votes_table_def)

lemma users_distinct: "db_fits ev d \<Longrightarrow> distinct (map u_id (msgs (db_users d)))"
proof (rule key_distinct [where ev = ev and T = users_table and key = "[''id'']" and g = "\<lambda>k. [SInt k]"])
  fix r
  assume "db_fits ev d" "r \<in> set (db_users d)"
  then show "map (col_of (tb_cols users_table) r) [''id''] = (\<lambda>k. [SInt k]) (u_id (tr_data r))"
    using users_cols [of ev d r] by (auto simp: col_of_def users_table_def)
qed (simp_all add: db_fits_def, simp add: users_table_def)

lemma filter_key:
  assumes "distinct (map f xs)" "x \<in> set xs"
  shows "filter (\<lambda>q. f q = f x) xs = [x]"
  using assms by (induction xs) (auto simp: filter_empty_conv, metis image_eqI)

text \<open>A find by key with \<open>Limit: 1\<close> that returns a row has found the only one.\<close>

lemma found_key:
  assumes "found (\<lambda>q. f q = k) n xs [x]" "distinct (map f xs)"
  shows "filter (\<lambda>q. f q = k) xs = [x]"
  using found_set [OF assms(1)] filter_key [OF assms(2), of x] by auto

end
