(* ===== verification/PicFacts.thy ===== *)
theory PicFacts
  imports PicTasks Keys
begin

section \<open>What deleting and viewing a picture does\<close>

subsection \<open>Steps of the tasks\<close>

text \<open>The request's user, on the database the task works on, holds the capabilities.\<close>

definition allowed :: "ctx \<Rightarrow> world \<Rightarrow> database \<Rightarrow> int list \<Rightarrow> bool" where
  "allowed cx w d caps \<longleftrightarrow> (\<exists>su conf. token_user cx d su \<and> conf_of cx w = Some conf \<and>
     validateCapability su conf caps = Ok ())"

text \<open>Only the row of one picture differs.\<close>

definition pic_changed :: "database \<Rightarrow> database \<Rightarrow> pic \<Rightarrow> bool" where
  "pic_changed d d' p \<longleftrightarrow> d' = d\<lparr>db_pics := db_pics d'\<rparr> \<and>
     msgs (db_pics d') = map (\<lambda>q. if p_id q = p_id p then p else q) (msgs (db_pics d))"

definition the_pic :: "database \<Rightarrow> int \<Rightarrow> pic \<Rightarrow> bool" where
  "the_pic d i p \<longleftrightarrow> filter (\<lambda>q. p_id q = i) (msgs (db_pics d)) = [p]"

lemma the_pic_id: "the_pic d i p \<Longrightarrow> p_id p = i \<and> p \<in> set (msgs (db_pics d))"
proof -
  assume "the_pic d i p"
  then have "p \<in> set (filter (\<lambda>q. p_id q = i) (msgs (db_pics d)))" by (simp add: the_pic_def)
  then show ?thesis by simp
qed

lemma writable_pic_job:
  assumes "writable_pic i w = (Ok p, w')" "job_at ev d0 d w"
  shows "job_at ev d0 d w'" "the_pic d i p"
proof -
  obtain ps w1 where f: "FindPics (pic_opts i) w = (Ok ps, w1)"
    and rest: "(case ps of [p] \<Rightarrow> ret p | _ \<Rightarrow> fail (NotFound None ''can't lookup pic'')) w1 = (Ok p, w')"
    using assms(1) by (auto simp: writable_pic_def elim!: bind_OkE)
  from rest have ps: "ps = [p]" "w' = w1" by (auto split: list.splits)
  have opt: "o_prefix (pic_opts i) = Some (PicsPrimary (Some i))" by (simp add: pic_opts_def)
  note job = job_find_pics_id [OF f assms(2) opt]
  show "job_at ev d0 d w'" using job(1) ps by simp
  have "found (\<lambda>q. p_id q = i) (o_limit (pic_opts i)) (msgs (db_pics d)) [p]" using job(2) ps by simp
  from found_key [OF this pics_distinct [OF job_at_D(2) [OF assms(2)]]]
  show "the_pic d i p" by (simp add: the_pic_def)
qed

lemma allowedI: "token_user cx d su \<Longrightarrow> conf_of cx w1 = Some conf \<Longrightarrow> w_site w1 = w_site w \<Longrightarrow>
    validateCapability su conf caps = Ok () \<Longrightarrow> allowed cx w d caps"
  by (metis allowed_def conf_of_def)

text \<open>The opening and the update the tasks on one picture share.\<close>

lemma update_task_steps:
  assumes "bind (GetConfiguration cx) (\<lambda>conf.
      bind (lift_res (validateCapability u conf caps)) (\<lambda>_.
      bind (writable_pic i) (\<lambda>p.
      bind (lift_res (f p)) (\<lambda>p'.
      bind (wrap_err g (UpdatePic p')) (\<lambda>_.
      bind (wrap_err h Commit) (\<lambda>_. rest p p')))))) w = (Ok x, w')"
    and "job_at ev d0 d w" "\<And>p p'. keeps keeps_base (rest p p')"
    and same_id: "\<And>p p'. f p = Ok p' \<Longrightarrow> p_id p' = p_id p"
  obtains conf p p' w1 where "conf_of cx w = Some conf" "validateCapability u conf caps = Ok ()"
    "the_pic d i p" "f p = Ok p'" "pic_changed d (w_db w') p'" "rest p p' w1 = (Ok x, w')"
proof -
  obtain conf p p' w1 w2 w3 where steps: "conf_of cx w = Some conf" "validateCapability u conf caps = Ok ()"
    "writable_pic i w = (Ok p, w1)" "f p = Ok p'" "UpdatePic p' w1 = (Ok (), w2)"
    "Commit w2 = (Ok (), w3)" "rest p p' w3 = (Ok x, w')"
    using assms(1) by (auto simp: GetConfiguration_iff elim!: bind_OkE)
  note pic = writable_pic_job [OF steps(3) assms(2)]
  obtain rows where upd: "job_at ev d0 (d\<lparr>db_pics := rows\<rparr>) w2"
    "msgs rows = map (\<lambda>q. if p_id q = p_id p' then p' else q) (msgs (db_pics d))"
    using job_update_pics [OF steps(5) pic(1)] by blast
  have "w_db w' = w_db w3" using base_tx [OF assms(3) steps(7)] by simp
  also have "\<dots> = d\<lparr>db_pics := rows\<rparr>" using Commit_job [OF steps(6) upd(1)] by simp
  finally have "pic_changed d (w_db w') p'" using upd(2) by (simp add: pic_changed_def)
  with that steps pic show thesis by blast
qed

subsection \<open>Soft deletion\<close>

lemma soft_mark_Ok:
  assumes "soft_mark now pending reason details temporary p = Ok p'"
  shows "\<not> HardDeleted p \<and> SoftDeleted p' \<and> p_id p' = p_id p \<and>
    p' = p\<lparr>p_del := p_del p', p_modified := p_modified p'\<rparr> \<and> IndexOrder p' = IndexOrder p \<and>
    (\<exists>ds. p_del p' = Some ds \<and> ds_reason ds = reason \<and> ds_details ds = details \<and>
      ds_temporary ds = temporary \<and> opt_tspb pending = Ok (ds_pending ds) \<and>
      (SoftDeleted p \<longrightarrow> map_option ds_marked (p_del p) = Some (ds_marked ds)))"
proof -
  obtain ds pend marked nowts where s:
    "(case p_del p of Some ds \<Rightarrow> (if HardDeleted p then Err (InvalidArgument None ''pic already hard deleted'')
        else Ok ds) | None \<Rightarrow> Ok no_deletion) = Ok ds" "opt_tspb pending = Ok pend"
    "(case ds_marked ds of None \<Rightarrow> res_map Some (ToTspb now) | Some m \<Rightarrow> Ok (Some m)) = Ok marked"
    "ToTspb now = Ok nowts"
    "p' = p\<lparr>p_del := Some (ds\<lparr>ds_reason := reason, ds_details := details,
       ds_temporary := temporary, ds_pending := pend, ds_marked := marked\<rparr>), p_modified := Some nowts\<rparr>"
    using assms unfolding soft_mark_def
    by (cases "case p_del p of Some ds \<Rightarrow> (if HardDeleted p
          then Err (InvalidArgument None ''pic already hard deleted'') else Ok ds) | None \<Rightarrow> Ok no_deletion";
        cases "opt_tspb pending"; cases "ToTspb now") (auto split: option.splits)
  have live: "\<not> HardDeleted p" "ds_actual ds = None"
    using s(1) by (auto simp: HardDeleted_def no_deletion_def split: option.splits if_splits)
  have marked: "marked \<noteq> None" "ds_marked ds \<noteq> None \<Longrightarrow> marked = ds_marked ds"
    using s(3,4) by (cases "ds_marked ds"; auto)+
  show ?thesis using live marked s
    by (auto simp: HardDeleted_def SoftDeleted_def IndexOrder_def isHidden_def NonHiddenIndexOrder_def
        split: option.splits if_splits)
qed

lemma SoftDeletePicTask_effect:
  assumes "fits w" "idle w"
    "SoftDeletePicTask cx now i pending reason details temporary w = (Ok (), w')"
  shows "\<exists>d p p'. visit_only (w_db w) d \<and> allowed cx w d [PIC_SOFT_DELETE] \<and> reason \<noteq> Reason_UNKNOWN \<and>
    the_pic d i p \<and> \<not> HardDeleted p \<and> pic_changed d (w_db w') p' \<and> p_id p' = i \<and> SoftDeleted p' \<and>
    p' = p\<lparr>p_del := p_del p', p_modified := p_modified p'\<rparr> \<and> IndexOrder p' = IndexOrder p \<and>
    (SoftDeleted p \<longrightarrow> map_option ds_marked (p_del p') = map_option ds_marked (p_del p))"
proof -
  have reason: "reason \<noteq> Reason_UNKNOWN" using assms(3) by (auto simp: SoftDeletePicTask_def split: if_splits)
  then have run: "bind (authedJobInternal cx now False) (\<lambda>u. revert
      (soft_delete_body cx now i pending reason details temporary u)) w = (Ok (), w')"
    using assms(3) by (simp add: SoftDeletePicTask_def authedJob_def)
  obtain su w1 w2 where start: "job_at (w_env w) (w_db w1) (w_db w1) w1" "visit_only (w_db w) (w_db w1)"
    "token_user cx (w_db w1) su"
    "soft_delete_body cx now i pending reason details temporary su w1 = (Ok (), w2)"
    "w_db w' = w_db w2" "w_site w1 = w_site w"
    using soft_delete.succeeds [OF run assms(1,2)] by blast
  obtain conf p p' where s: "conf_of cx w1 = Some conf"
    "validateCapability su conf [PIC_SOFT_DELETE] = Ok ()" "the_pic (w_db w1) i p"
    "soft_mark now pending reason details temporary p = Ok p'" "pic_changed (w_db w1) (w_db w2) p'"
    using start(4) unfolding soft_delete_body_def
    by (rule update_task_steps [OF _ start(1)]) (auto dest: soft_mark_Ok intro: base_ops)
  have "allowed cx w (w_db w1) [PIC_SOFT_DELETE]"
    by (rule allowedI [OF start(3) s(1) start(6) s(2)])
  with soft_mark_Ok [OF s(4)] start s reason the_pic_id [OF s(3)] show ?thesis by fastforce
qed

text \<open>A soft deletion succeeds only for a user who may do it, with a reason, on a picture that
  is not hard-deleted; it marks that picture, with the time of the first mark if it was marked
  before, keeps everything else of it and its place in the index, and changes no other row.\<close>

theorem SoftDeletePicTask_marks:
  assumes "fits w" "idle w"
    "SoftDeletePicTask cx now i pending reason details temporary w = (Ok (), w')"
  shows "\<exists>d p p'. visit_only (w_db w) d \<and> allowed cx w d [PIC_SOFT_DELETE] \<and> reason \<noteq> Reason_UNKNOWN \<and>
    the_pic d i p \<and> \<not> HardDeleted p \<and> pic_changed d (w_db w') p' \<and> p_id p' = i \<and> SoftDeleted p' \<and>
    p' = p\<lparr>p_del := p_del p', p_modified := p_modified p'\<rparr> \<and> IndexOrder p' = IndexOrder p \<and>
    (SoftDeleted p \<longrightarrow> map_option ds_marked (p_del p') = map_option ds_marked (p_del p))"
  by (rule SoftDeletePicTask_effect [OF assms])

subsection \<open>View counts\<close>

lemma count_view_Ok: "count_view now p = Ok p' \<Longrightarrow> \<not> HardDeleted p \<and> p_id p' = p_id p \<and>
    (\<exists>nowts. ToTspb now = Ok nowts \<and>
      p' = p\<lparr>p_views := wrap64 (p_views p + 1), p_modified := Some nowts\<rparr>)"
  by (cases "ToTspb now") (auto simp: count_view_def split: if_splits)

lemma IncrementViewCountTask_effect:
  assumes "fits w" "idle w" "IncrementViewCountTask cx now i w = (Ok (), w')"
  shows "\<exists>d p nowts. visit_only (w_db w) d \<and> allowed cx w d [PIC_UPDATE_VIEW_COUNTER] \<and>
    the_pic d i p \<and> \<not> HardDeleted p \<and> ToTspb now = Ok nowts \<and>
    pic_changed d (w_db w') (p\<lparr>p_views := wrap64 (p_views p + 1), p_modified := Some nowts\<rparr>)"
proof -
  have run: "bind (authedJobInternal cx now False) (\<lambda>u. revert (increment_body cx now i u)) w = (Ok (), w')"
    using assms(3) by (simp add: IncrementViewCountTask_def authedJob_def)
  obtain su w1 w2 where start: "job_at (w_env w) (w_db w1) (w_db w1) w1" "visit_only (w_db w) (w_db w1)"
    "token_user cx (w_db w1) su" "increment_body cx now i su w1 = (Ok (), w2)"
    "w_db w' = w_db w2" "w_site w1 = w_site w"
    using increment.succeeds [OF run assms(1,2)] by blast
  obtain conf p p' where s: "conf_of cx w1 = Some conf"
    "validateCapability su conf [PIC_UPDATE_VIEW_COUNTER] = Ok ()" "the_pic (w_db w1) i p"
    "count_view now p = Ok p'" "pic_changed (w_db w1) (w_db w2) p'"
    using start(4) unfolding increment_body_def
    by (rule update_task_steps [OF _ start(1)]) (auto dest: count_view_Ok intro: base_ops)
  have "allowed cx w (w_db w1) [PIC_UPDATE_VIEW_COUNTER]"
    by (rule allowedI [OF start(3) s(1) start(6) s(2)])
  with count_view_Ok [OF s(4)] start s show ?thesis by auto
qed

text \<open>A view is counted once, on a picture that is not hard-deleted, and nothing but the count
  and the time of the change differs afterwards.\<close>

theorem IncrementViewCountTask_counts:
  assumes "fits w" "idle w" "IncrementViewCountTask cx now i w = (Ok (), w')"
  shows "\<exists>d p nowts. visit_only (w_db w) d \<and> allowed cx w d [PIC_UPDATE_VIEW_COUNTER] \<and>
    the_pic d i p \<and> \<not> HardDeleted p \<and> ToTspb now = Ok nowts \<and>
    pic_changed d (w_db w') (p\<lparr>p_views := wrap64 (p_views p + 1), p_modified := Some nowts\<rparr>)"
  by (rule IncrementViewCountTask_effect [OF assms])

subsection \<open>Hard deletion\<close>

lemma hard_mark_Ok:
  assumes "hard_mark now p = Ok p'"
  shows "\<not> HardDeleted p \<and> HardDeleted p' \<and> p_id p' = p_id p \<and> p_file p' = p_file p \<and>
    p' = p\<lparr>p_del := p_del p', p_modified := p_modified p', p_thumb := []\<rparr> \<and> IndexOrder p' = Ok (- 1)"
proof -
  obtain nowts where ts: "ToTspb now = Ok nowts" using assms by (cases "ToTspb now") (auto simp: hard_mark_def)
  show ?thesis using assms ts
    by (auto simp: hard_mark_def Let_def HardDeleted_def IndexOrder_def isHidden_def no_deletion_def
        split: option.splits if_splits)
qed

text \<open>Releasing a file removes it, unless an error is reported.\<close>

definition no_file :: "string \<Rightarrow> world \<Rightarrow> bool" where
  "no_file name w \<longleftrightarrow> name \<notin> fst ` set (w_files w)"

definition keeps_gone :: "string \<Rightarrow> world \<Rightarrow> world \<Rightarrow> bool" where
  "keeps_gone f w w' \<longleftrightarrow> (no_file f w \<longrightarrow> no_file f w')"

interpretation gone: frame "keeps_gone f" for f
  by unfold_locales (auto simp: keeps_gone_def)

lemma remove_file_gone: "keeps (keeps_gone f) (remove_file name)"
  by (auto intro!: keepsI simp: keeps_gone_def remove_file_def Let_def no_file_def
      split: option.splits if_splits)

lemma release_gone: "keeps (keeps_gone f) (release r)"
  by (cases r) (auto intro!: gone.keeps_intros remove_file_gone)

lemma release_Ok:
  assumes "release r w = (Ok None, w')"
  obtains path where "r = Ok path" "no_file path w'"
proof -
  obtain path where path: "r = Ok path" using assms by (cases r) (auto simp: run_simps)
  with assms have "remove_file path w = (Ok None, w')"
    by (auto elim!: bind_OkE split: option.splits)
  then have "no_file path w'"
    by (auto simp: remove_file_def Let_def no_file_def split: option.splits if_splits)
  with path that show thesis by blast
qed

lemma each_release:
  assumes "each (\<lambda>x. release (g x)) xs w = (Ok es, w')" "list_all (\<lambda>e. e = None) es" "x \<in> set xs"
  obtains path where "g x = Ok path" "no_file path w'"
  using assms
proof (induction xs arbitrary: w es thesis)
  case (Cons y ys)
  obtain e w1 es' where s: "release (g y) w = (Ok e, w1)"
    "each (\<lambda>x. release (g x)) ys w1 = (Ok es', w')" "es = e # es'"
    using Cons.prems(2) by (auto elim!: bind_OkE)
  show ?case
  proof (cases "x = y")
    case True
    obtain path where "g y = Ok path" "no_file path w1"
      using release_Ok [of "g y" w w1] s(1,3) Cons.prems(3) by auto
    then show ?thesis
      using Cons.prems(1) True keepsD [OF gone.keeps_each [OF release_gone] s(2)]
      by (auto simp: keeps_gone_def)
  next
    case False
    then show ?thesis using Cons.IH [OF Cons.prems(1) s(2)] s(3) Cons.prems(3,4) by auto
  qed
qed simp

lemma ReplaceOrSuppress_None: "foldl ReplaceOrSuppress x es = None \<longleftrightarrow> x = None \<and> es = []"
  by (induction es arbitrary: x) (auto simp: ReplaceOrSuppress_never_None)

text \<open>All files of a picture are gone when \<open>release_files\<close> reports nothing.\<close>

definition files_gone :: "string \<Rightarrow> pic \<Rightarrow> world \<Rightarrow> bool" where
  "files_gone root p w \<longleftrightarrow>
     (\<exists>f path. p_file p = Some f \<and> PicFilePath root (p_id p) (pf_mime f) = Ok path \<and> no_file path w) \<and>
     (\<forall>th \<in> set (p_thumb p). \<exists>path. PicFileDerivedPath root (p_id p) (pf_index th) (pf_mime th) = Ok path \<and>
        no_file path w)"

lemma release_files_Ok:
  assumes "release_files root p' (p_thumb p) w = (Ok x, w')" "p_file p' = p_file p" "p_id p' = p_id p"
  shows "files_gone root p w'"
proof -
  let ?g = "\<lambda>th. PicFileDerivedPath root (p_id p) (pf_index th) (pf_mime th)"
  obtain f where f: "p_file p = Some f"
    using assms(1,2) by (auto simp: release_files_def split: option.splits)
  obtain e w1 es where s: "release (PicFilePath root (p_id p) (pf_mime f)) w = (Ok e, w1)"
    "each (\<lambda>th. release (?g th)) (p_thumb p) w1 = (Ok es, w')"
    "foldl ReplaceOrSuppress None (rev (map the (filter (\<lambda>x. x \<noteq> None) (e # es)))) = None"
    using assms f by (auto simp: release_files_def elim!: bind_OkE split: option.splits)
  then have none: "e = None" "list_all (\<lambda>e. e = None) es"
    by (auto simp: ReplaceOrSuppress_None list_all_iff filter_empty_conv split: if_splits)
  obtain path where path: "PicFilePath root (p_id p) (pf_mime f) = Ok path" "no_file path w1"
    using release_Ok s(1) none(1) by blast
  have "no_file path w'"
    using keepsD [OF gone.keeps_each [OF release_gone] s(2)] path(2) by (simp add: keeps_gone_def)
  moreover have "\<exists>path. ?g th = Ok path \<and> no_file path w'" if "th \<in> set (p_thumb p)" for th
    using each_release [OF s(2) none(2) that] by blast
  ultimately show ?thesis using f path(1) by (auto simp: files_gone_def)
qed

lemma files_gone_Rollback: "files_gone root p w \<Longrightarrow> w_files w' = w_files w \<Longrightarrow> files_gone root p w'"
  by (simp add: files_gone_def no_file_def)

lemma HardDeletePicTask_effect:
  assumes "fits w" "idle w" "HardDeletePicTask cx now root i w = (Ok (), w')"
  shows "\<exists>d p p'. visit_only (w_db w) d \<and> allowed cx w d [PIC_HARD_DELETE] \<and>
    the_pic d i p \<and> \<not> HardDeleted p \<and> pic_changed d (w_db w') p' \<and> p_id p' = i \<and> HardDeleted p' \<and>
    p' = p\<lparr>p_del := p_del p', p_modified := p_modified p', p_thumb := []\<rparr> \<and> IndexOrder p' = Ok (- 1) \<and> files_gone root p w'"
proof -
  have run: "bind (authedJobInternal cx now False) (\<lambda>u. revert (hard_delete_body cx now root i u)) w = (Ok (), w')"
    using assms(3) by (simp add: HardDeletePicTask_def authedJob_def)
  obtain su w1 w2 where start: "job_at (w_env w) (w_db w1) (w_db w1) w1" "visit_only (w_db w) (w_db w1)"
    "token_user cx (w_db w1) su" "hard_delete_body cx now root i su w1 = (Ok (), w2)"
    "w_db w' = w_db w2" "w_site w1 = w_site w" "w_files w' = w_files w2"
    using hard_delete.succeeds [OF run assms(1,2)] by blast
  obtain conf p p' w3 where s: "conf_of cx w1 = Some conf"
    "validateCapability su conf [PIC_HARD_DELETE] = Ok ()" "the_pic (w_db w1) i p"
    "hard_mark now p = Ok p'" "pic_changed (w_db w1) (w_db w2) p'"
    "release_files root p' (p_thumb p) w3 = (Ok (), w2)"
    using start(4) unfolding hard_delete_body_def
    by (rule update_task_steps [OF _ start(1)]) (auto dest: hard_mark_Ok intro: release_files_frames)
  have "allowed cx w (w_db w1) [PIC_HARD_DELETE]"
    by (rule allowedI [OF start(3) s(1) start(6) s(2)])
  moreover have "files_gone root p w'"
    using release_files_Ok [OF s(6)] hard_mark_Ok [OF s(4)] files_gone_Rollback start(7) by blast
  ultimately show ?thesis using hard_mark_Ok [OF s(4)] start s the_pic_id [OF s(3)] by fastforce
qed

text \<open>A hard deletion that reports success has marked a picture that was not hard-deleted,
  moved it out of the index, dropped its thumbnails, and removed the file and every thumbnail
  from the disk; it happens once, and changes no other row.\<close>

theorem HardDeletePicTask_deletes:
  assumes "fits w" "idle w" "HardDeletePicTask cx now root i w = (Ok (), w')"
  shows "\<exists>d p p'. visit_only (w_db w) d \<and> allowed cx w d [PIC_HARD_DELETE] \<and>
    the_pic d i p \<and> \<not> HardDeleted p \<and> pic_changed d (w_db w') p' \<and> p_id p' = i \<and> HardDeleted p' \<and>
    p' = p\<lparr>p_del := p_del p', p_modified := p_modified p', p_thumb := []\<rparr> \<and> IndexOrder p' = Ok (- 1) \<and> files_gone root p w'"
  by (rule HardDeletePicTask_effect [OF assms])

end
