(* ===== verification/PurgeFacts.thy ===== *)
theory PurgeFacts
  imports PicFacts
begin

section \<open>What purging a picture does\<close>

subsection \<open>Loops of statements\<close>

text \<open>A loop of deletions leaves the rows that none of them names.\<close>

lemma each_filter:
  assumes step: "\<And>x w w' u d. del x w = (Ok u, w') \<Longrightarrow> job_at ev d0 d w \<Longrightarrow>
      \<exists>rows. job_at ev d0 (put rows d) w' \<and> msgs rows = filter (\<lambda>q. \<not> K x q) (msgs (get d))"
    and laws: "\<And>r d. get (put r d) = r" "\<And>a b d. put a (put b d) = put a d" "\<And>d. put (get d) d = d"
    and run: "each del xs w = (Ok us, w')" "job_at ev d0 d w"
  shows "\<exists>rows. job_at ev d0 (put rows d) w' \<and>
      msgs rows = filter (\<lambda>q. \<not> list_ex (\<lambda>x. K x q) xs) (msgs (get d))"
  using run
proof (induction xs arbitrary: w d us)
  case Nil
  then show ?case using laws(3) [of d] by (intro exI [of _ "get d"]) (auto simp: run_simps)
next
  case (Cons x xs)
  then obtain u w1 us' where s: "del x w = (Ok u, w1)" "each del xs w1 = (Ok us', w')"
    by (auto elim!: bind_OkE)
  obtain rows where r: "job_at ev d0 (put rows d) w1" "msgs rows = filter (\<lambda>q. \<not> K x q) (msgs (get d))"
    using step [OF s(1) Cons.prems(2)] by blast
  obtain rows' where "job_at ev d0 (put rows' (put rows d)) w'"
    "msgs rows' = filter (\<lambda>q. \<not> list_ex (\<lambda>x. K x q) xs) (msgs (get (put rows d)))"
    using Cons.IH [OF s(2) r(1)] by blast
  then show ?case using r(2) laws(1,2)
    by (intro exI [of _ rows']) (auto intro!: filter_cong)
qed

lemma purge_idents:
  assumes "each (\<lambda>pi. wrap_err e (DeletePicIdent (KeyForPicIdent pi))) pis w = (Ok us, w')"
    "job_at ev d0 d w" "set pis = {x \<in> set (msgs (db_idents d)). pi_pic x = i}"
  obtains rows where "job_at ev d0 (d\<lparr>db_idents := rows\<rparr>) w'"
    "msgs rows = filter (\<lambda>q. pi_pic q \<noteq> i) (msgs (db_idents d))"
proof -
  let ?K = "\<lambda>x q. pi_pic q = pi_pic x \<and> pi_type q = pi_type x \<and> pi_value q = pi_value x"
  have step: "\<exists>rows. job_at ev d0 (d\<lparr>db_idents := rows\<rparr>) w' \<and>
      msgs rows = filter (\<lambda>q. \<not> ?K x q) (msgs (db_idents d))"
    if "wrap_err e (DeletePicIdent (KeyForPicIdent x)) w = (Ok u, w')" "job_at ev d0 d w" for x w w' u d
    using that(1) unfolding wrap_err_Ok KeyForPicIdent_def
    by (rule job_delete_idents [OF _ that(2)]) blast
  have "\<exists>rows. job_at ev d0 (d\<lparr>db_idents := rows\<rparr>) w' \<and>
      msgs rows = filter (\<lambda>q. \<not> list_ex (\<lambda>x. ?K x q) pis) (msgs (db_idents d))"
    by (rule each_filter [where put = "\<lambda>r d. d\<lparr>db_idents := r\<rparr>" and get = db_idents and K = ?K, OF _ _ _ _ assms(1,2)])
      (erule (1) step, simp_all)
  then obtain rows where rows: "job_at ev d0 (d\<lparr>db_idents := rows\<rparr>) w'"
    "msgs rows = filter (\<lambda>q. \<not> list_ex (\<lambda>x. ?K x q) pis) (msgs (db_idents d))" by blast
  have "list_ex (\<lambda>x. ?K x q) pis \<longleftrightarrow> pi_pic q = i" if "q \<in> set (msgs (db_idents d))" for q
    using that assms(3) by (auto simp: list_ex_iff)
  then have "msgs rows = filter (\<lambda>q. pi_pic q \<noteq> i) (msgs (db_idents d))"
    unfolding rows(2) by (intro filter_cong) auto
  with rows(1) that show thesis by blast
qed

lemma purge_pictags:
  assumes "each (\<lambda>pt. wrap_err e (DeletePicTag (KeyForPicTag pt))) pts w = (Ok us, w')"
    "job_at ev d0 d w" "set pts = {x \<in> set (msgs (db_pictags d)). pt_pic x = i}"
  obtains rows where "job_at ev d0 (d\<lparr>db_pictags := rows\<rparr>) w'"
    "msgs rows = filter (\<lambda>q. pt_pic q \<noteq> i) (msgs (db_pictags d))"
proof -
  let ?K = "\<lambda>x q. pt_pic q = pt_pic x \<and> pt_tag q = pt_tag x"
  have step: "\<exists>rows. job_at ev d0 (d\<lparr>db_pictags := rows\<rparr>) w' \<and>
      msgs rows = filter (\<lambda>q. \<not> ?K x q) (msgs (db_pictags d))"
    if "wrap_err e (DeletePicTag (KeyForPicTag x)) w = (Ok u, w')" "job_at ev d0 d w" for x w w' u d
    using that(1) unfolding wrap_err_Ok KeyForPicTag_def
    by (rule job_delete_pictags [OF _ that(2)]) blast
  have "\<exists>rows. job_at ev d0 (d\<lparr>db_pictags := rows\<rparr>) w' \<and>
      msgs rows = filter (\<lambda>q. \<not> list_ex (\<lambda>x. ?K x q) pts) (msgs (db_pictags d))"
    by (rule each_filter [where put = "\<lambda>r d. d\<lparr>db_pictags := r\<rparr>" and get = db_pictags and K = ?K, OF _ _ _ _ assms(1,2)])
      (erule (1) step, simp_all)
  then obtain rows where rows: "job_at ev d0 (d\<lparr>db_pictags := rows\<rparr>) w'"
    "msgs rows = filter (\<lambda>q. \<not> list_ex (\<lambda>x. ?K x q) pts) (msgs (db_pictags d))" by blast
  have "list_ex (\<lambda>x. ?K x q) pts \<longleftrightarrow> pt_pic q = i" if "q \<in> set (msgs (db_pictags d))" for q
    using that assms(3) by (auto simp: list_ex_iff)
  then have "msgs rows = filter (\<lambda>q. pt_pic q \<noteq> i) (msgs (db_pictags d))"
    unfolding rows(2) by (intro filter_cong) auto
  with rows(1) that show thesis by blast
qed

lemma purge_comments:
  assumes "each (\<lambda>pc. wrap_err e (DeletePicComment (KeyForPicComment pc))) pcs w = (Ok us, w')"
    "job_at ev d0 d w" "set pcs = {x \<in> set (msgs (db_comments d)). pc_pic x = i}"
  obtains rows where "job_at ev d0 (d\<lparr>db_comments := rows\<rparr>) w'"
    "msgs rows = filter (\<lambda>q. pc_pic q \<noteq> i) (msgs (db_comments d))"
proof -
  let ?K = "\<lambda>x q. pc_pic q = pc_pic x \<and> pc_id q = pc_id x"
  have step: "\<exists>rows. job_at ev d0 (d\<lparr>db_comments := rows\<rparr>) w' \<and>
      msgs rows = filter (\<lambda>q. \<not> ?K x q) (msgs (db_comments d))"
    if "wrap_err e (DeletePicComment (KeyForPicComment x)) w = (Ok u, w')" "job_at ev d0 d w" for x w w' u d
    using that(1) unfolding wrap_err_Ok KeyForPicComment_def
    by (rule job_delete_comments [OF _ that(2)]) blast
  have "\<exists>rows. job_at ev d0 (d\<lparr>db_comments := rows\<rparr>) w' \<and>
      msgs rows = filter (\<lambda>q. \<not> list_ex (\<lambda>x. ?K x q) pcs) (msgs (db_comments d))"
    by (rule each_filter [where put = "\<lambda>r d. d\<lparr>db_comments := r\<rparr>" and get = db_comments and K = ?K, OF _ _ _ _ assms(1,2)])
      (erule (1) step, simp_all)
  then obtain rows where rows: "job_at ev d0 (d\<lparr>db_comments := rows\<rparr>) w'"
    "msgs rows = filter (\<lambda>q. \<not> list_ex (\<lambda>x. ?K x q) pcs) (msgs (db_comments d))" by blast
  have "list_ex (\<lambda>x. ?K x q) pcs \<longleftrightarrow> pc_pic q = i" if "q \<in> set (msgs (db_comments d))" for q
    using that assms(3) by (auto simp: list_ex_iff)
  then have "msgs rows = filter (\<lambda>q. pc_pic q \<noteq> i) (msgs (db_comments d))"
    unfolding rows(2) by (intro filter_cong) auto
  with rows(1) that show thesis by blast
qed

lemma purge_votes:
  assumes "each (\<lambda>pv. wrap_err e (DeletePicVote (KeyForPicVote pv))) pvs w = (Ok us, w')"
    "job_at ev d0 d w" "set pvs = {x \<in> set (msgs (db_votes d)). pv_pic x = i}"
  obtains rows where "job_at ev d0 (d\<lparr>db_votes := rows\<rparr>) w'"
    "msgs rows = filter (\<lambda>q. pv_pic q \<noteq> i) (msgs (db_votes d))"
proof -
  let ?K = "\<lambda>x q. pv_pic q = pv_pic x \<and> pv_user q = pv_user x \<and> pv_index q = pv_index x"
  have step: "\<exists>rows. job_at ev d0 (d\<lparr>db_votes := rows\<rparr>) w' \<and>
      msgs rows = filter (\<lambda>q. \<not> ?K x q) (msgs (db_votes d))"
    if "wrap_err e (DeletePicVote (KeyForPicVote x)) w = (Ok u, w')" "job_at ev d0 d w" for x w w' u d
    using that(1) unfolding wrap_err_Ok KeyForPicVote_def
    by (rule job_delete_votes [OF _ that(2)]) blast
  have "\<exists>rows. job_at ev d0 (d\<lparr>db_votes := rows\<rparr>) w' \<and>
      msgs rows = filter (\<lambda>q. \<not> list_ex (\<lambda>x. ?K x q) pvs) (msgs (db_votes d))"
    by (rule each_filter [where put = "\<lambda>r d. d\<lparr>db_votes := r\<rparr>" and get = db_votes and K = ?K, OF _ _ _ _ assms(1,2)])
      (erule (1) step, simp_all)
  then obtain rows where rows: "job_at ev d0 (d\<lparr>db_votes := rows\<rparr>) w'"
    "msgs rows = filter (\<lambda>q. \<not> list_ex (\<lambda>x. ?K x q) pvs) (msgs (db_votes d))" by blast
  have "list_ex (\<lambda>x. ?K x q) pvs \<longleftrightarrow> pv_pic q = i" if "q \<in> set (msgs (db_votes d))" for q
    using that assms(3) by (auto simp: list_ex_iff)
  then have "msgs rows = filter (\<lambda>q. pv_pic q \<noteq> i) (msgs (db_votes d))"
    unfolding rows(2) by (intro filter_cong) auto
  with rows(1) that show thesis by blast
qed

subsection \<open>The tags of the picture\<close>

text \<open>A tag with one use less: gone if it was the last one.\<close>

definition less_used :: "int \<Rightarrow> tag \<Rightarrow> tag list" where
  "less_used now t = (if t_usage t > 1
     then [t\<lparr>t_usage := t_usage t - 1,
       t_modified := (case ToTspb now of Ok ts \<Rightarrow> Some ts | _ \<Rightarrow> None)\<rparr>] else [])"

lemma each_lookup_tag:
  assumes "each lookup_tag pts w = (Ok ts, w')" "job_at ev d0 d w"
  shows "job_at ev d0 d w' \<and> map t_id ts = map pt_tag pts \<and> set ts \<subseteq> set (msgs (db_tags d))"
  using assms
proof (induction pts arbitrary: w ts)
  case (Cons pt pts)
  let ?opt = "no_opts\<lparr>o_prefix := Some (TagsPrimary (Some (pt_tag pt))), o_lock := LockWrite, o_limit := 1\<rparr>"
  obtain t w1 ts' where s: "lookup_tag pt w = (Ok t, w1)" "each lookup_tag pts w1 = (Ok ts', w')" "ts = t # ts'"
    using Cons.prems(1) by (auto elim!: bind_OkE)
  have f: "FindTags ?opt w = (Ok [t], w1)"
    using s(1) by (auto simp: lookup_tag_def elim!: bind_OkE split: list.splits)
  note job = job_find_tags_id [OF f Cons.prems(2), of "pt_tag pt"]
  have "t_id t = pt_tag pt" "t \<in> set (msgs (db_tags d))"
    using found_set [OF job(2)] by auto
  with Cons.IH [OF s(2)] job(1) s(3) show ?case by simp
qed (auto simp: run_simps)

lemma purge_tag_step:
  assumes "purge_tag now t w = (Ok u, w')" "job_at ev d0 d w" "t \<in> set (msgs (db_tags d))"
  obtains rows where "job_at ev d0 (d\<lparr>db_tags := rows\<rparr>) w'"
    "msgs rows = concat (map (\<lambda>q. if t_id q = t_id t then less_used now q else [q]) (msgs (db_tags d)))"
proof -
  have same: "q = t" if "q \<in> set (msgs (db_tags d))" "t_id q = t_id t" for q
    using tags_distinct [OF job_at_D(2) [OF assms(2)]] that assms(3) by (auto simp: distinct_map inj_on_def)
  show thesis
  proof (cases "t_usage t > 1")
    case True
    then obtain nowts where ts: "ToTspb now = Ok nowts" and
      up: "UpdateTag (t\<lparr>t_usage := t_usage t - 1, t_modified := Some nowts\<rparr>) w = (Ok u, w')"
      using assms(1) by (auto simp: purge_tag_def elim!: bind_OkE)
    let ?t = "t\<lparr>t_usage := t_usage t - 1, t_modified := Some nowts\<rparr>"
    obtain rows where "job_at ev d0 (d\<lparr>db_tags := rows\<rparr>) w'"
      "msgs rows = map (\<lambda>q. if t_id q = t_id ?t then ?t else q) (msgs (db_tags d))"
      using job_update_tags [OF up assms(2)] by blast
    moreover have "map (\<lambda>q. if t_id q = t_id ?t then ?t else q) (msgs (db_tags d)) =
        concat (map (\<lambda>q. if t_id q = t_id t then less_used now q else [q]) (msgs (db_tags d)))"
    proof -
      have "map (\<lambda>q. if t_id q = t_id ?t then ?t else q) xs =
          concat (map (\<lambda>q. if t_id q = t_id t then less_used now q else [q]) xs)"
        if "set xs \<subseteq> set (msgs (db_tags d))" for xs
        using that same True ts by (induction xs) (auto simp: less_used_def)
      then show ?thesis by simp
    qed
    ultimately show thesis using that by simp
  next
    case False
    then have del: "DeleteTag (TagsPrimary (Some (t_id t))) w = (Ok u, w')"
      using assms(1) by (simp add: purge_tag_def KeyForTag_def)
    obtain rows where "job_at ev d0 (d\<lparr>db_tags := rows\<rparr>) w'"
      "msgs rows = filter (\<lambda>q. t_id q \<noteq> t_id t) (msgs (db_tags d))"
      using job_delete_tags [OF del assms(2)] by blast
    moreover have "filter (\<lambda>q. t_id q \<noteq> t_id t) (msgs (db_tags d)) =
        concat (map (\<lambda>q. if t_id q = t_id t then less_used now q else [q]) (msgs (db_tags d)))"
    proof -
      have "filter (\<lambda>q. t_id q \<noteq> t_id t) xs = concat (map (\<lambda>q. if t_id q = t_id t then less_used now q else [q]) xs)"
        if "set xs \<subseteq> set (msgs (db_tags d))" for xs
        using that same False by (induction xs) (auto simp: less_used_def)
      then show ?thesis by simp
    qed
    ultimately show thesis using that by simp
  qed
qed

lemma less_used_id: "x \<in> set (less_used now q) \<Longrightarrow> t_id x = t_id q"
  by (auto simp: less_used_def split: if_splits)

lemma each_purge_tag:
  assumes "each (purge_tag now) ts w = (Ok us, w')" "job_at ev d0 d w"
    "distinct (map t_id ts)" "set ts \<subseteq> set (msgs (db_tags d))"
  shows "\<exists>rows. job_at ev d0 (d\<lparr>db_tags := rows\<rparr>) w' \<and> msgs rows =
    concat (map (\<lambda>q. if t_id q \<in> t_id ` set ts then less_used now q else [q]) (msgs (db_tags d)))"
  using assms
proof (induction ts arbitrary: w d us)
  case Nil
  then show ?case by (intro exI [of _ "db_tags d"]) (auto simp: run_simps)
next
  case (Cons t ts)
  obtain u w1 us' where s: "purge_tag now t w = (Ok u, w1)" "each (purge_tag now) ts w1 = (Ok us', w')"
    using Cons.prems(1) by (auto elim!: bind_OkE)
  obtain rows where r: "job_at ev d0 (d\<lparr>db_tags := rows\<rparr>) w1"
    "msgs rows = concat (map (\<lambda>q. if t_id q = t_id t then less_used now q else [q]) (msgs (db_tags d)))"
    using purge_tag_step [OF s(1) Cons.prems(2)] Cons.prems(4) by auto
  have "set ts \<subseteq> set (msgs (db_tags (d\<lparr>db_tags := rows\<rparr>)))"
  proof
    fix x
    assume x: "x \<in> set ts"
    then have "t_id x \<noteq> t_id t" using Cons.prems(3) by (auto simp: image_iff)
    with x show "x \<in> set (msgs (db_tags (d\<lparr>db_tags := rows\<rparr>)))"
      using Cons.prems(4) r(2) by (auto intro!: bexI [of _ x])
  qed
  from Cons.IH [OF s(2) r(1) _ this] Cons.prems(3) obtain rows' where r':
    "job_at ev d0 (d\<lparr>db_tags := rows'\<rparr>) w'"
    "msgs rows' = concat (map (\<lambda>q. if t_id q \<in> t_id ` set ts then less_used now q else [q]) (msgs rows))"
    by auto
  let ?f = "\<lambda>S q. if t_id q \<in> S then less_used now q else [q]"
  have step: "concat (map (?f (t_id ` set ts)) (concat (map (?f {t_id t}) xs))) =
      concat (map (?f (t_id ` set (t # ts))) xs)" for xs
  proof (induction xs)
    case (Cons q xs)
    have "concat (map (?f (t_id ` set ts)) (less_used now q)) = less_used now q" if "t_id q = t_id t"
    proof -
      have "t_id x \<notin> t_id ` set ts" if "x \<in> set (less_used now q)" for x
        using less_used_id [OF that] \<open>t_id q = t_id t\<close> \<open>distinct (map t_id (t # ts))\<close> by auto
      then show ?thesis by (auto simp: less_used_def)
    qed
    with Cons.IH show ?case by auto
  qed simp
  show ?case using r'(1) r'(2) r(2) step [of "msgs (db_tags d)"] by auto
qed

subsection \<open>The task\<close>

text \<open>The database without a picture and the rows that name it; a tag of the picture has one
  use less and is gone with the last. Votes for its comments are not among what goes.\<close>

definition purged :: "int \<Rightarrow> int \<Rightarrow> database \<Rightarrow> database \<Rightarrow> bool" where
  "purged now i d d' \<longleftrightarrow>
     d' = d\<lparr>db_pics := db_pics d', db_idents := db_idents d', db_pictags := db_pictags d',
       db_tags := db_tags d', db_comments := db_comments d', db_votes := db_votes d'\<rparr> \<and>
     msgs (db_pics d') = filter (\<lambda>q. p_id q \<noteq> i) (msgs (db_pics d)) \<and>
     msgs (db_idents d') = filter (\<lambda>q. pi_pic q \<noteq> i) (msgs (db_idents d)) \<and>
     msgs (db_pictags d') = filter (\<lambda>q. pt_pic q \<noteq> i) (msgs (db_pictags d)) \<and>
     msgs (db_comments d') = filter (\<lambda>q. pc_pic q \<noteq> i) (msgs (db_comments d)) \<and>
     msgs (db_votes d') = filter (\<lambda>q. pv_pic q \<noteq> i) (msgs (db_votes d)) \<and>
     msgs (db_tags d') = concat (map (\<lambda>t. if list_ex (\<lambda>pt. pt_pic pt = i \<and> pt_tag pt = t_id t)
         (msgs (db_pictags d)) then less_used now t else [t]) (msgs (db_tags d)))"

lemma purge_rows_job:
  assumes "purge_rows now i w = (Ok u, w')" "job_at ev d0 d w"
  obtains ri rt rg rc rv where
    "job_at ev d0 (d\<lparr>db_idents := ri, db_pictags := rt, db_tags := rg, db_comments := rc, db_votes := rv\<rparr>) w'"
    "msgs ri = filter (\<lambda>q. pi_pic q \<noteq> i) (msgs (db_idents d))"
    "msgs rt = filter (\<lambda>q. pt_pic q \<noteq> i) (msgs (db_pictags d))"
    "msgs rg = concat (map (\<lambda>t. if list_ex (\<lambda>pt. pt_pic pt = i \<and> pt_tag pt = t_id t)
         (msgs (db_pictags d)) then less_used now t else [t]) (msgs (db_tags d)))"
    "msgs rc = filter (\<lambda>q. pc_pic q \<noteq> i) (msgs (db_comments d))"
    "msgs rv = filter (\<lambda>q. pv_pic q \<noteq> i) (msgs (db_votes d))"
proof -
  obtain pis pts ts pcs pvs u1 u2 u3 u4 u5 w1 w2 w3 w4 w5 w6 w7 w8 w9 where s:
    "FindPicIdents (no_opts\<lparr>o_prefix := Some (PicIdentsPrimary (Some i) None None), o_lock := LockWrite\<rparr>) w = (Ok pis, w1)"
    "each (\<lambda>pi. wrap_err (\<lambda>e. Internal e ''can't delete pic ident'') (DeletePicIdent (KeyForPicIdent pi))) pis w1 = (Ok u1, w2)"
    "FindPicTags (no_opts\<lparr>o_prefix := Some (PicTagsPrimary (Some i) None), o_lock := LockWrite\<rparr>) w2 = (Ok pts, w3)"
    "each (\<lambda>pt. wrap_err (\<lambda>e. Internal e ''can't delete pic tag'') (DeletePicTag (KeyForPicTag pt))) pts w3 = (Ok u2, w4)"
    "each lookup_tag pts w4 = (Ok ts, w5)"
    "each (purge_tag now) ts w5 = (Ok u3, w6)"
    "FindPicComments (no_opts\<lparr>o_prefix := Some (PicCommentsPrimary (Some i) None), o_lock := LockWrite\<rparr>) w6 = (Ok pcs, w7)"
    "each (\<lambda>pc. wrap_err (\<lambda>e. Internal e ''can't delete pic comment'') (DeletePicComment (KeyForPicComment pc))) pcs w7 = (Ok u4, w8)"
    "FindPicVotes (no_opts\<lparr>o_prefix := Some (PicVotesPrimary (Some i) None None), o_lock := LockWrite\<rparr>) w8 = (Ok pvs, w9)"
    "each (\<lambda>pv. wrap_err (\<lambda>e. Internal e ''can't delete pic vote'') (DeletePicVote (KeyForPicVote pv))) pvs w9 = (Ok u5, w')"
    using assms(1) unfolding purge_rows_def by (auto elim!: bind_OkE)
  have f1: "job_at ev d0 d w1" "set pis = {x \<in> set (msgs (db_idents d)). pi_pic x = i}"
    using job_find_idents_pic [OF s(1) assms(2), of i] by (auto simp: no_opts_def dest: found_all_set)
  obtain ri where ri: "job_at ev d0 (d\<lparr>db_idents := ri\<rparr>) w2"
    "msgs ri = filter (\<lambda>q. pi_pic q \<noteq> i) (msgs (db_idents d))"
    using purge_idents [OF s(2) f1] by blast
  have f2: "job_at ev d0 (d\<lparr>db_idents := ri\<rparr>) w3"
    and fnd: "found (\<lambda>t. pt_pic t = i) 0 (msgs (db_pictags d)) pts"
    using job_find_pictags_pic [OF s(3) ri(1), of i] by (auto simp: no_opts_def)
  have pts: "set pts = {x \<in> set (msgs (db_pictags d)). pt_pic x = i}" using found_all_set [OF fnd] .
  obtain rt where rt: "job_at ev d0 (d\<lparr>db_idents := ri, db_pictags := rt\<rparr>) w4"
    "msgs rt = filter (\<lambda>q. pt_pic q \<noteq> i) (msgs (db_pictags d))"
    using purge_pictags [OF s(4) f2] pts by auto
  have l: "job_at ev d0 (d\<lparr>db_idents := ri, db_pictags := rt\<rparr>) w5" "map t_id ts = map pt_tag pts"
    "set ts \<subseteq> set (msgs (db_tags d))"
    using each_lookup_tag [OF s(5) rt(1)] by auto
  have "distinct (map pt_tag (filter (\<lambda>t. pt_pic t = i) xs))"
    if "distinct (map (\<lambda>t. (pt_pic t, pt_tag t)) xs)" for xs
    using that by (induction xs) (auto simp: image_iff)
  then have "distinct (map pt_tag (filter (\<lambda>t. pt_pic t = i) (msgs (db_pictags d))))"
    using pictags_distinct [OF job_at_D(2) [OF assms(2)]] .
  moreover have "mset (map pt_tag pts) = mset (map pt_tag (filter (\<lambda>t. pt_pic t = i) (msgs (db_pictags d))))"
    unfolding mset_map found_all [OF fnd] ..
  ultimately have "distinct (map pt_tag pts)" by (metis mset_eq_imp_distinct_iff)
  then obtain rg where rg: "job_at ev d0 (d\<lparr>db_idents := ri, db_pictags := rt, db_tags := rg\<rparr>) w6"
    "msgs rg = concat (map (\<lambda>q. if t_id q \<in> t_id ` set ts then less_used now q else [q]) (msgs (db_tags d)))"
    using each_purge_tag [OF s(6) l(1)] l(2,3) by auto
  have ids: "t_id ` set ts = pt_tag ` set pts" using l(2) by (metis set_map)
  have "(if t_id q \<in> t_id ` set ts then less_used now q else [q]) =
      (if list_ex (\<lambda>pt. pt_pic pt = i \<and> pt_tag pt = t_id q) (msgs (db_pictags d))
       then less_used now q else [q])" for q
    unfolding ids pts by (auto simp: list_ex_iff image_iff)
  then have rg': "msgs rg = concat (map (\<lambda>t. if list_ex (\<lambda>pt. pt_pic pt = i \<and> pt_tag pt = t_id t)
         (msgs (db_pictags d)) then less_used now t else [t]) (msgs (db_tags d)))"
    unfolding rg(2) by simp
  have f3: "job_at ev d0 (d\<lparr>db_idents := ri, db_pictags := rt, db_tags := rg\<rparr>) w7"
    "set pcs = {x \<in> set (msgs (db_comments d)). pc_pic x = i}"
    using job_find_comments_pic [OF s(7) rg(1), of i] by (auto simp: no_opts_def dest: found_all_set)
  obtain rc where rc: "job_at ev d0 (d\<lparr>db_idents := ri, db_pictags := rt, db_tags := rg, db_comments := rc\<rparr>) w8"
    "msgs rc = filter (\<lambda>q. pc_pic q \<noteq> i) (msgs (db_comments d))"
    using purge_comments [OF s(8) f3(1)] f3(2) by auto
  have f4: "job_at ev d0 (d\<lparr>db_idents := ri, db_pictags := rt, db_tags := rg, db_comments := rc\<rparr>) w9"
    "set pvs = {x \<in> set (msgs (db_votes d)). pv_pic x = i}"
    using job_find_votes_pic [OF s(9) rc(1), of i] by (auto simp: no_opts_def dest: found_all_set)
  obtain rv where "job_at ev d0 (d\<lparr>db_idents := ri, db_pictags := rt, db_tags := rg, db_comments := rc, db_votes := rv\<rparr>) w'"
    "msgs rv = filter (\<lambda>q. pv_pic q \<noteq> i) (msgs (db_votes d))"
    using purge_votes [OF s(10) f4(1)] f4(2) by auto
  with that ri(2) rt(2) rg' rc(2) show thesis by blast
qed

lemma PurgePicTask_effect:
  assumes "fits w" "idle w" "PurgePicTask cx now root i w = (Ok (), w')"
  shows "\<exists>d p. visit_only (w_db w) d \<and> allowed cx w d [PIC_PURGE] \<and> the_pic d i p \<and>
    purged now i d (w_db w') \<and> files_gone root p w'"
proof -
  have run: "bind (authedJobInternal cx now False) (\<lambda>u. revert (purge_body cx now root i u)) w = (Ok (), w')"
    using assms(3) by (simp add: PurgePicTask_def authedJob_def)
  obtain su w1 w2 where start: "job_at (w_env w) (w_db w1) (w_db w1) w1" "visit_only (w_db w) (w_db w1)"
    "token_user cx (w_db w1) su" "purge_body cx now root i su w1 = (Ok (), w2)"
    "w_db w' = w_db w2" "w_site w1 = w_site w" "w_files w' = w_files w2"
    using purge.succeeds [OF run assms(1,2)] by blast
  obtain conf p w3 w4 w5 w6 where s: "conf_of cx w1 = Some conf"
    "validateCapability su conf [PIC_PURGE] = Ok ()" "writable_pic i w1 = (Ok p, w3)"
    "DeletePic (KeyForPic p) w3 = (Ok (), w4)" "purge_rows now i w4 = (Ok (), w5)"
    "Commit w5 = (Ok (), w6)" "release_files root p (p_thumb p) w6 = (Ok (), w2)"
    using start(4) by (auto simp: purge_body_def GetConfiguration_iff elim!: bind_OkE)
  note pic = writable_pic_job [OF s(3) start(1)]
  have id: "p_id p = i" using the_pic_id [OF pic(2)] by simp
  obtain rp where rp: "job_at (w_env w) (w_db w1) ((w_db w1)\<lparr>db_pics := rp\<rparr>) w4"
    "msgs rp = filter (\<lambda>q. p_id q \<noteq> i) (msgs (db_pics (w_db w1)))"
    using job_delete_pics [OF s(4) [unfolded KeyForPic_def id] pic(1)] by auto
  obtain ri rt rg rc rv where r: "job_at (w_env w) (w_db w1) ((w_db w1)\<lparr>db_pics := rp, db_idents := ri,
      db_pictags := rt, db_tags := rg, db_comments := rc, db_votes := rv\<rparr>) w5"
    "msgs ri = filter (\<lambda>q. pi_pic q \<noteq> i) (msgs (db_idents (w_db w1)))"
    "msgs rt = filter (\<lambda>q. pt_pic q \<noteq> i) (msgs (db_pictags (w_db w1)))"
    "msgs rg = concat (map (\<lambda>t. if list_ex (\<lambda>pt. pt_pic pt = i \<and> pt_tag pt = t_id t)
         (msgs (db_pictags (w_db w1))) then less_used now t else [t]) (msgs (db_tags (w_db w1))))"
    "msgs rc = filter (\<lambda>q. pc_pic q \<noteq> i) (msgs (db_comments (w_db w1)))"
    "msgs rv = filter (\<lambda>q. pv_pic q \<noteq> i) (msgs (db_votes (w_db w1)))"
    by (rule purge_rows_job [OF s(5) rp(1)]) auto
  have "w_db w' = w_db w6" using base_tx [OF release_files_frames(2) s(7)] start(5) by simp
  also have "\<dots> = (w_db w1)\<lparr>db_pics := rp, db_idents := ri, db_pictags := rt, db_tags := rg,
      db_comments := rc, db_votes := rv\<rparr>"
    using Commit_job [OF s(6) r(1)] by simp
  finally have "purged now i (w_db w1) (w_db w')" using r(2-6) rp(2) by (simp add: purged_def)
  moreover have "allowed cx w (w_db w1) [PIC_PURGE]"
    by (rule allowedI [OF start(3) s(1) start(6) s(2)])
  moreover have "files_gone root p w'"
    using release_files_Ok [OF s(7)] files_gone_Rollback start(7) by blast
  ultimately show ?thesis using start(2) pic(2) by blast
qed


end
