(* ===== verification/Runs.thy ===== *)
theory Runs
  imports Task
begin

section \<open>Running statements on the small database\<close>

text \<open>
  The state of a job on the small database: the transaction's copy, the number of calls made and
  the ids left. The lemmas run a statement from one such state to the next; the witnesses of the
  tasks are chains of them.
\<close>

definition work :: "bool \<Rightarrow> database \<Rightarrow> nat \<Rightarrow> idalloc \<Rightarrow> world" where
  "work ro d n al = demo\<lparr>w_db := demo_db\<lparr>db_seq := [110]\<rparr>,
     w_tx := Some \<lparr>tx_db = d, tx_ro = ro, tx_live = True, tx_done = False, tx_jobdone = False\<rparr>,
     w_open := 1, w_calls := n, w_alloc := al\<rparr>"

definition committed :: "database \<Rightarrow> nat \<Rightarrow> idalloc \<Rightarrow> world" where
  "committed d n al = demo\<lparr>w_db := d,
     w_tx := Some \<lparr>tx_db = d, tx_ro = False, tx_live = False, tx_done = True, tx_jobdone = True\<rparr>,
     w_open := 0, w_calls := n, w_alloc := al\<rparr>"

definition ids0 :: idalloc where
  "ids0 = \<lparr>al_ranges = [(100, 10)], al_total = 10, al_water = None\<rparr>"

definition start_db :: database where
  "start_db = demo_db\<lparr>db_seq := [110]\<rparr>"

lemma demo_job_work: "demo_job ro n = work ro start_db n ids0"
  by (simp add: demo_job_def work_def start_db_def ids0_def)

lemma start_db_sels:
  "db_pics start_db = [row [SInt 3, SInt 1000000000000, SInt 26843545, SInt 1046898278] cat_pic]"
  "db_tags start_db = [row [SInt 5, SBytes ''c''] cat_tag]"
  "db_pictags start_db = [row [SInt 3, SInt 5] cat_pic_tag]"
  "db_comments start_db = [row [SInt 3, SInt 4] bob_comment]"
  "db_users start_db = [row [SInt 7, SBytes ''a''] alice, row [SInt 9, SBytes ''b''] bob]"
  "db_idents start_db = []" "db_votes start_db = []" "db_cvotes start_db = []"
  "db_events start_db = []" "db_custom start_db = []"
  by (simp_all add: start_db_def demo_db_def empty_db_def)

lemma row_sels [simp]: "tr_vals (row v x) = v" "tr_data (row v x) = x"
  by (simp_all add: row_def)

lemma demo_sels: "w_env demo = calm_env" "e_fault calm_env = (\<lambda>n. None)" "e_rank calm_env = (\<lambda>n i. i)"
  "e_text calm_env = plain_textlib" "e_wilson calm_env = (\<lambda>u d. (0, 0))" "w_site demo = None"
  "e_io calm_env = (\<lambda>n. None)" "w_files demo = [(''/p/3.jpg'', ''cat'')]" "w_ios demo = 0"
  by (simp_all add: demo_def calm_world_def calm_env_def)

lemma engine_order_id: "engine_order (\<lambda>i. i) rows = rows"
proof -
  have "sort_key (\<lambda>i. i) [0..<length rows] = [0..<length rows]" by (simp add: sorted_sort_id)
  then show ?thesis by (simp add: engine_order_def map_nth)
qed

lemma work_env [simp]: "w_env (work ro d n al) = calm_env" "w_alloc (work ro d n al) = al"
  "w_site (work ro d n al) = None" "w_calls (work ro d n al) = n"
  by (simp_all add: work_def demo_sels)

lemma work_find:
  assumes "scan_plan opt = Ok pl"
  shows "find_rows T opt (work ro d n al) =
    (Ok (map tr_data (select_rows pl (col_of (tb_cols T)) (tb_get T d))), work ro d (Suc n) al)"
  using assms
  by (simp add: find_rows_def query_plan_def bind_def run_simps open_tx_def engine_call_def work_def
      demo_sels engine_order_id Let_def)

lemma work_exec: "exec_write f (work False d n al) =
    (case f d of Ok d' \<Rightarrow> (Ok (), work False d' (Suc n) al)
     | Err e \<Rightarrow> (Err e, work False d (Suc n) al) | Panic p \<Rightarrow> (Panic p, work False d (Suc n) al))"
  by (simp add: exec_write_def bind_def run_simps open_tx_def engine_call_def work_def
      demo_sels Let_def split: res.splits)

lemma work_insert:
  assumes "tb_vals T calm_env r = Ok vals" "length (tb_cols T) = length vals" "tb_cols T \<noteq> []"
    "\<not> violates T \<lparr>tr_vals = vals, tr_data = r\<rparr> (tb_get T d)"
  shows "insert_row T r (work False d n al) =
    (Ok (), work False (tb_put T (tb_get T d @ [row vals r]) d) (Suc n) al)"
  using assms by (simp add: insert_row_def bind_def run_simps check_cols_def work_exec row_def Let_def)

lemma work_update:
  assumes "tb_vals T calm_env r = Ok vals" "length (tb_cols T) = length vals" "tb_cols T \<noteq> []"
    "Vals key = Ok kvals" "length (Cols key) = length kvals" "Cols key \<noteq> []"
    "\<not> violates T \<lparr>tr_vals = vals, tr_data = r\<rparr>
      (filter (\<lambda>x. \<not> matches_key (tb_cols T) (Cols key) kvals x) (tb_get T d))"
  shows "update_row T key r (work False d n al) =
    (Ok (), work False (tb_put T (map (\<lambda>x. if matches_key (tb_cols T) (Cols key) kvals x
      then row vals r else x) (tb_get T d)) d) (Suc n) al)"
  using assms unfolding row_def
  by (simp add: update_row_def bind_def run_simps check_cols_def work_exec Let_def)

lemma work_delete:
  assumes "Vals key = Ok kvals" "length (Cols key) = length kvals" "Cols key \<noteq> []"
  shows "delete_row T key (work False d n al) =
    (Ok (), work False (tb_put T (filter (\<lambda>x. \<not> matches_key (tb_cols T) (Cols key) kvals x) (tb_get T d)) d)
      (Suc n) al)"
  using assms by (simp add: delete_row_def bind_def run_simps check_cols_def work_exec)

lemma work_Commit: "Commit (work False d n al) = (Ok (), committed d (Suc n) al)"
  by (simp add: Commit_def tx_commit_def bind_def open_tx_def work_def demo_sels Let_def job_done_def
      run_simps committed_def)

lemma committed_Rollback: "Rollback (committed d n al) = (Ok (), committed d n al)"
  by (simp add: Rollback_def committed_def)

lemma work_AllocId: "AllocId (work ro d n ids0) =
    (Ok 100, work ro d n \<lparr>al_ranges = [(101, 9)], al_total = 9, al_water = None\<rparr>)"
  by (simp add: AllocId_def allocIdJob_def bind_def run_simps ids0_def work_def)

lemma work_Rollback: "Rollback (work ro d n al) =
    (Ok (), (work ro d n al)\<lparr>w_tx := Some \<lparr>tx_db = d, tx_ro = ro, tx_live = False, tx_done = True,
      tx_jobdone = True\<rparr>, w_open := 0, w_calls := Suc n\<rparr>)"
  by (simp add: Rollback_def job_done_def tx_rollback_def bind_def run_simps work_def demo_sels Let_def)

lemma alice_may: "list_all (\<lambda>c. 1 \<le> c \<and> c < 30) caps \<Longrightarrow> validateCapability (Some alice) conf caps = Ok ()"
proof -
  assume caps: "list_all (\<lambda>c. 1 \<le> c \<and> c < 30) caps"
  have "c \<in> int ` {1..<30}" if "1 \<le> c" "c < 30" for c :: int
    using that by (intro image_eqI [of _ _ "nat c"]) auto
  then have "VerifyCapSubset (CapSetOf (u_caps alice)) (CapSetOf caps) = None"
    using caps unfolding VerifyCapSubset_None [OF CapSetOf_inv CapSetOf_inv]
    by (auto simp: alice_sels list_all_iff)
  then show ?thesis by (simp add: validateCapability_def validateCapSet_def)
qed

lemma alice_conf: "GetConfiguration as_alice w = (Ok defaultConfiguration, w)"
  by (simp add: GetConfiguration_def as_alice_def run_simps)

lemma run_alice: "authedJob as_alice now0 demo = (Ok (Some alice), work False start_db 6 ids0)"
  by (simp add: authedJob_def alice_job demo_job_work)

lemma now0_ts [simp]: "ToTspb now0 = Ok \<lparr>ts_seconds = 2000, ts_nanos = 0\<rparr>"
  by (simp add: ToTspb_def ptypes_TimestampProto_def valid_ts_def now0_def)

lemma tables_cols:
  "tb_cols pics_table = [''id'', ''index_order'', ''score_order'', ''sched_order'']"
  "tb_cols tags_table = [''id'', ''name'']"
  "tb_cols pictags_table = [''pic_id'', ''tag_id'']"
  "tb_cols idents_table = [''pic_id'', ''type'', ''value'']"
  "tb_cols comments_table = [''pic_id'', ''comment_id'']"
  "tb_cols votes_table = [''pic_id'', ''user_id'', ''index'']"
  "tb_cols cvotes_table = [''pic_id'', ''comment_id'', ''user_id'', ''index'']"
  "tb_cols users_table = [''id'', ''ident'']"
  "tb_cols events_table = [''user_id'', ''created_ts'', ''index'']"
  "tb_cols custom_table = [''key_type'', ''key1'', ''key2'', ''key3'', ''key4'', ''key5'']"
  by (simp_all add: table_defs)

lemma tables_unique:
  "tb_unique pics_table = [[''id'']]"
  "tb_unique tags_table = [[''name''], [''id'']]"
  "tb_unique pictags_table = [[''pic_id'', ''tag_id'']]"
  "tb_unique idents_table = [[''pic_id'', ''type'', ''value'']]"
  "tb_unique comments_table = [[''comment_id''], [''pic_id'', ''comment_id'']]"
  "tb_unique votes_table = [[''user_id'', ''pic_id'', ''index''], [''pic_id'', ''user_id'', ''index'']]"
  "tb_unique cvotes_table = [[''pic_id'', ''comment_id'', ''user_id'', ''index'']]"
  "tb_unique users_table = [[''ident''], [''id'']]"
  "tb_unique events_table = [[''user_id'', ''created_ts'', ''index'']]"
  "tb_unique custom_table = [[''key_type'', ''key1'', ''key2'', ''key3'', ''key4'', ''key5'']]"
  by (simp_all add: table_defs)

lemma tables_get:
  "tb_get pics_table = db_pics"
  "tb_get tags_table = db_tags"
  "tb_get pictags_table = db_pictags"
  "tb_get idents_table = db_idents"
  "tb_get comments_table = db_comments"
  "tb_get votes_table = db_votes"
  "tb_get cvotes_table = db_cvotes"
  "tb_get users_table = db_users"
  "tb_get events_table = db_events"
  "tb_get custom_table = db_custom"
  by (simp_all add: table_defs)

lemma tables_put:
  "tb_put pics_table = (\<lambda>x d. d\<lparr>db_pics := x\<rparr>)"
  "tb_put tags_table = (\<lambda>x d. d\<lparr>db_tags := x\<rparr>)"
  "tb_put pictags_table = (\<lambda>x d. d\<lparr>db_pictags := x\<rparr>)"
  "tb_put idents_table = (\<lambda>x d. d\<lparr>db_idents := x\<rparr>)"
  "tb_put comments_table = (\<lambda>x d. d\<lparr>db_comments := x\<rparr>)"
  "tb_put votes_table = (\<lambda>x d. d\<lparr>db_votes := x\<rparr>)"
  "tb_put cvotes_table = (\<lambda>x d. d\<lparr>db_cvotes := x\<rparr>)"
  "tb_put users_table = (\<lambda>x d. d\<lparr>db_users := x\<rparr>)"
  "tb_put events_table = (\<lambda>x d. d\<lparr>db_events := x\<rparr>)"
  "tb_put custom_table = (\<lambda>x d. d\<lparr>db_custom := x\<rparr>)"
  by (simp_all add: table_defs)

lemma tables_vals:
  "tb_vals pics_table = pic_cols"
  "tb_vals tags_table ev t = res_map (\<lambda>u. [SInt (t_id t), SBytes u]) (TagUniqueName (e_text ev) (t_name t))"
  "tb_vals pictags_table ev pt = Ok [SInt (pt_pic pt), SInt (pt_tag pt)]"
  "tb_vals idents_table ev i = Ok [SInt (pi_pic i), SInt (pi_type i), SBytes (pi_value i)]"
  "tb_vals comments_table ev c = Ok [SInt (pc_pic c), SInt (pc_id c)]"
  "tb_vals votes_table ev v = Ok [SInt (pv_pic v), SInt (pv_user v), SInt (pv_index v)]"
  "tb_vals cvotes_table ev cv = Ok [SInt (pcv_pic cv), SInt (pcv_comment cv), SInt (pcv_user cv), SInt (pcv_index cv)]"
  "tb_vals users_table ev u = res_map (\<lambda>k. [SInt (u_id u), SBytes k]) (UserUniqueIdent (e_text ev) (u_ident u))"
  "tb_vals events_table ev e = res_map (\<lambda>ts. [SInt (ue_user e), SInt ts, SInt (ue_index e)])
     (UserEventCreatedTsCol (ue_created e))"
  by (simp_all add: table_defs)

lemmas table_sels = tables_cols tables_unique tables_get tables_put tables_vals

lemmas bind_run = bind_def wrap_err_def run_simps

lemmas order_run = pic_cols_def IndexOrder_def isHidden_def HardDeleted_def NonHiddenIndexOrder_def
  LowerScoreBound_def UpperScoreBound_def ScoreBounds_def ToTime_def ptypes_Timestamp_def valid_ts_def
  UnixNano_def int64_def

lemmas find_run = table_sels find_defs scan_plan_def no_opts_def prefix_plan_def select_rows_def
  selects_def col_of_def index_defs Cols_def

lemmas write_run = table_sels insert_defs update_defs delete_defs key_defs index_defs Cols_def
  matches_key_def col_of_def violates_def same_cols_def

end
