(* ===== verification/PicRuns.thy ===== *)
theory PicRuns
  imports PurgeFacts Runs
begin

section \<open>The tasks on one picture, run on the small database\<close>

text \<open>
  Each task on a picture is run once, on the picture of the small database, for the user who
  may do everything; the properties of the tasks are applied to these runs.
\<close>

lemma find_cat: "writable_pic 3 (work False start_db n al) = (Ok cat_pic, work False start_db (Suc n) al)"
  by (simp add: writable_pic_def pic_opts_def bind_run find_run work_find start_db_sels)
lemma update_cat_in:
  assumes "p_id p = 3" "IndexOrder p = Ok v" "db_pics d = db_pics start_db"
  shows "\<exists>rows. \<forall>n al. UpdatePic p (work False d n al) =
    (Ok (), work False (d\<lparr>db_pics := rows\<rparr>) (Suc n) al)"
proof -
  have vals: "tb_vals pics_table calm_env p = Ok [SInt 3, SInt v, SInt (LowerScoreBound (e_wilson calm_env) p),
      SInt (UpperScoreBound (e_wilson calm_env) p)]"
    using assms by (simp add: tables_vals pic_cols_def)
  show ?thesis using assms unfolding UpdatePic_def
    by (subst work_update [OF vals]) (simp_all add: write_run start_db_sels, blast)
qed

lemmas update_cat = update_cat_in [OF _ _ refl]

lemma cat_unmarked: "p_del cat_pic = None" by (simp add: cat_pic_def)

lemma cat_id: "p_id cat_pic = 3" by (simp add: cat_pic_def)

lemma cat_path: "PicFilePath ''/p'' 3 1 = Ok ''/p/3.jpg''"
  by (simp add: PicFilePath_def PicBaseDir_def EncodeVarint_def) code_simp

lemma release_cat:
  assumes "p_file p = p_file cat_pic" "p_id p = 3"
  shows "release_files ''/p'' p (p_thumb cat_pic) (committed d n al) =
    (Ok (), (committed d n al)\<lparr>w_files := [], w_ios := Suc 0\<rparr>)"
  "Rollback ((committed d n al)\<lparr>w_files := [], w_ios := Suc 0\<rparr>) = (Ok (), (committed d n al)\<lparr>w_files := [], w_ios := Suc 0\<rparr>)"
  using assms
  by (simp_all add: release_files_def cat_pic_def cat_path bind_run remove_file_def committed_def
      demo_sels Let_def Rollback_def)

lemma soft_delete_demo: "\<exists>w'. SoftDeletePicTask as_alice now0 3 None Reason_NONE [] False demo = (Ok (), w')"
proof -
  obtain p where p: "soft_mark now0 None Reason_NONE [] False cat_pic = Ok p"
    by (auto simp: soft_mark_def cat_unmarked opt_tspb_def no_deletion_def)
  then have "p_id p = 3" "IndexOrder p = Ok 1000000000000"
    using soft_mark_Ok [OF p] cat_order by (simp_all add: cat_pic_def)
  from update_cat [OF this] p show ?thesis
    by (auto simp: SoftDeletePicTask_def Reason_NONE_def Reason_UNKNOWN_def run_alice bind_run revert_def
        deferred_def soft_delete_body_def alice_conf alice_may find_cat work_Commit committed_Rollback)
qed
lemma increment_demo: "\<exists>w'. IncrementViewCountTask as_alice now0 3 demo = (Ok (), w')"
proof -
  obtain p where p: "count_view now0 cat_pic = Ok p" "p_id p = 3" "IndexOrder p = Ok 1000000000000"
    using cat_order by (auto simp: count_view_def cat_unmarked HardDeleted_def cat_pic_def IndexOrder_def
      isHidden_def NonHiddenIndexOrder_def)
  from update_cat [OF this(2,3)] p show ?thesis
    by (auto simp: IncrementViewCountTask_def run_alice bind_run revert_def
        deferred_def increment_body_def alice_conf alice_may find_cat work_Commit committed_Rollback)
qed
lemma hard_delete_demo: "\<exists>w'. HardDeletePicTask as_alice now0 ''/p'' 3 demo = (Ok (), w')"
proof -
  obtain p where p: "hard_mark now0 cat_pic = Ok p"
    by (auto simp: hard_mark_def cat_unmarked no_deletion_def HardDeleted_def Let_def)
  then have p3: "p_id p = 3" "IndexOrder p = Ok (-1)" "p_file p = p_file cat_pic"
    using hard_mark_Ok [OF p] by (simp_all add: cat_pic_def)
  from update_cat [OF this(1,2)] p show ?thesis
    by (auto simp: HardDeletePicTask_def run_alice bind_run revert_def deferred_def hard_delete_body_def
        alice_conf alice_may find_cat work_Commit release_cat [OF p3(3,1)])
qed

lemma lookup_cat_tag: "lookup_tag cat_pic_tag (work False (start_db\<lparr>db_pics := a, db_pictags := c\<rparr>) n al) = (Ok cat_tag, work False (start_db\<lparr>db_pics := a, db_pictags := c\<rparr>) (Suc n) al)"
  by (simp add: lookup_tag_def bind_run find_run work_find start_db_sels cat_pic_tag_def)

lemma purge_cat_rows: "purge_rows now0 3 (work False (start_db\<lparr>db_pics := []\<rparr>) n al) = (Ok (),
    work False (start_db\<lparr>db_pics := [], db_pictags := [], db_tags := [], db_comments := []\<rparr>) (n + 8) al)"
proof -
  have t: "t_usage cat_tag = 1" "t_id cat_tag = 5" "pt_pic cat_pic_tag = 3" "pt_tag cat_pic_tag = 5"
    "pc_pic bob_comment = 3" "pc_id bob_comment = 4"
    by (simp_all add: cat_tag_def cat_pic_tag_def bob_comment_def)
  show ?thesis
    by (simp add: purge_rows_def bind_run find_run work_find start_db_sels t lookup_cat_tag write_run
        work_delete purge_tag_def eval_nat_numeral)
qed

lemma delete_cat: "DeletePic (KeyForPic cat_pic) (work False start_db n al) =
    (Ok (), work False (start_db\<lparr>db_pics := []\<rparr>) (Suc n) al)"
  by (simp add: write_run work_delete start_db_sels cat_pic_def)

lemma purge_demo: "\<exists>w'. PurgePicTask as_alice now0 ''/p'' 3 demo = (Ok (), w')"
  by (simp add: PurgePicTask_def run_alice bind_run revert_def deferred_def purge_body_def alice_conf
      alice_may find_cat delete_cat purge_cat_rows work_Commit release_cat [OF refl cat_id])

subsection \<open>The properties at these runs\<close>

theorem SoftDeletePicTask_marks_witness:
  "\<exists>w' d p p'. SoftDeletePicTask as_alice now0 3 None Reason_NONE [] False demo = (Ok (), w') \<and>
     the_pic d 3 p \<and> pic_changed d (w_db w') p' \<and> SoftDeleted p'"
proof -
  obtain w' where run: "SoftDeletePicTask as_alice now0 3 None Reason_NONE [] False demo = (Ok (), w')"
    using soft_delete_demo by blast
  from SoftDeletePicTask_marks [OF demo_fits demo_idle run] run show ?thesis by blast
qed

theorem IncrementViewCountTask_counts_witness:
  "\<exists>w' d p p'. IncrementViewCountTask as_alice now0 3 demo = (Ok (), w') \<and>
     the_pic d 3 p \<and> pic_changed d (w_db w') p' \<and> p_views p' = wrap64 (p_views p + 1)"
proof -
  obtain w' where run: "IncrementViewCountTask as_alice now0 3 demo = (Ok (), w')"
    using increment_demo by blast
  obtain d p nowts where "the_pic d 3 p"
    "pic_changed d (w_db w') (p\<lparr>p_views := wrap64 (p_views p + 1), p_modified := Some nowts\<rparr>)"
    using IncrementViewCountTask_counts [OF demo_fits demo_idle run] by blast
  moreover have "p_views (p\<lparr>p_views := wrap64 (p_views p + 1), p_modified := Some nowts\<rparr>) =
      wrap64 (p_views p + 1)" by simp
  ultimately show ?thesis using run by blast
qed

theorem HardDeletePicTask_deletes_witness:
  "\<exists>w' d p p'. HardDeletePicTask as_alice now0 ''/p'' 3 demo = (Ok (), w') \<and>
     the_pic d 3 p \<and> pic_changed d (w_db w') p' \<and> HardDeleted p' \<and> files_gone ''/p'' p w'"
proof -
  obtain w' where run: "HardDeletePicTask as_alice now0 ''/p'' 3 demo = (Ok (), w')"
    using hard_delete_demo by blast
  from HardDeletePicTask_deletes [OF demo_fits demo_idle run] run show ?thesis by blast
qed


end
