(* ===== verification/Notify.thy ===== *)
theory Notify
  imports Task Keys
begin

section \<open>User events (be/tasks/add_pic_comment_task.go, add_pic_vote.go)\<close>

text \<open>
  Votes and comments leave an event for the user who acts and one for each user concerned, once
  per user and never for the anonymous user. Events of one user made at one time are numbered,
  and so are votes of the anonymous user: the next number is one more than the largest used.
\<close>

subsection \<open>Numbering\<close>

definition next_index :: "string \<Rightarrow> int list \<Rightarrow> int res" where
  "next_index msg used =
     (let biggest = scan_max (- 1) used
      in if biggest = max_int64 then Err (Internal None msg) else Ok (biggest + 1))"

definition nextUserEventIndex :: "int \<Rightarrow> int \<Rightarrow> int io" where
  "nextUserEventIndex userId createdTs =
     bind (wrap_err (\<lambda>e. Internal e ''can't lookup user events'')
       (FindUserEvents (no_opts\<lparr>o_prefix := Some (UserEventsPrimary (Some userId) (Some createdTs) None),
         o_lock := LockWrite\<rparr>))) (\<lambda>ues.
     lift_res (next_index ''overflow of user event index'' (map ue_index ues)))"

subsection \<open>Collecting and storing the events\<close>

text \<open>The users to tell, each once: those not told yet and not anonymous.\<close>

fun incoming :: "(int \<Rightarrow> int \<Rightarrow> user_event) \<Rightarrow> int \<Rightarrow> int list \<Rightarrow> int list \<Rightarrow> user_event list io" where
  "incoming mk createdTs told [] = ret []"
| "incoming mk createdTs told (uid # uids) =
     (if uid \<noteq> AnonymousUserId \<and> uid \<notin> set told then
        bind (nextUserEventIndex uid createdTs) (\<lambda>idx.
        bind (incoming mk createdTs (uid # told) uids) (\<lambda>es. ret (mk uid idx # es)))
      else incoming mk createdTs told uids)"

text \<open>The event of the acting user, if any, and the events of the others.\<close>

definition collect_events ::
    "tspb option \<Rightarrow> tspb option \<Rightarrow> int \<Rightarrow> evt \<Rightarrow> evt \<Rightarrow> int list \<Rightarrow> (user_event option \<times> user_event list) io" where
  "collect_events created modified userId outgoing ingoing targets =
     (let mk = (\<lambda>e uid idx. \<lparr>ue_user = uid, ue_index = idx, ue_created = created,
                   ue_modified = modified, ue_evt = e\<rparr>)
      in bind (lift_res (UserEventCreatedTsCol created)) (\<lambda>createdTs.
         bind (if userId \<noteq> AnonymousUserId
               then bind (nextUserEventIndex userId createdTs) (\<lambda>idx. ret (Some (mk outgoing userId idx)))
               else ret None) (\<lambda>oue.
         bind (incoming (mk ingoing) createdTs (if userId \<noteq> AnonymousUserId then [userId] else []) targets)
           (\<lambda>iues. ret (oue, iues)))))"

definition store_events :: "user_event option \<times> user_event list \<Rightarrow> unit io" where
  "store_events es =
     bind (case fst es of None \<Rightarrow> ret ()
           | Some oue \<Rightarrow> wrap_err (\<lambda>e. Internal e ''can't create outgoing user event'') (InsertUserEvent oue)) (\<lambda>_.
     bind (each (\<lambda>iue. wrap_err (\<lambda>e. Internal e ''can't create incoming user event'')
       (InsertUserEvent iue)) (snd es)) (\<lambda>_. ret ()))"

subsection \<open>Frames\<close>

lemma nextUserEventIndex_frames: "keeps keeps_fit (nextUserEventIndex u ts)"
  "keeps keeps_base (nextUserEventIndex u ts)" "keeps keeps_acct (nextUserEventIndex u ts)"
  unfolding nextUserEventIndex_def by (intro fit_ops base_ops acct_ops)+

lemma incoming_frames: "keeps keeps_fit (incoming mk ts told us)"
  "keeps keeps_base (incoming mk ts told us)" "keeps keeps_acct (incoming mk ts told us)"
  by (induction mk ts told us rule: incoming.induct)
    (auto intro!: fit_ops base_ops acct_ops nextUserEventIndex_frames)

lemma collect_events_frames: "keeps keeps_fit (collect_events c m u out inc ts)"
  "keeps keeps_base (collect_events c m u out inc ts)" "keeps keeps_acct (collect_events c m u out inc ts)"
  unfolding collect_events_def Let_def
  by (auto intro!: fit_ops base_ops acct_ops nextUserEventIndex_frames incoming_frames)

lemma store_events_frames: "keeps keeps_fit (store_events es)" "keeps keeps_base (store_events es)"
  "keeps keeps_acct (store_events es)"
  unfolding store_events_def by (auto intro!: fit_ops base_ops acct_ops split: option.splits)

lemmas event_frames = nextUserEventIndex_frames incoming_frames collect_events_frames store_events_frames

subsection \<open>What they do\<close>

lemma next_index_Ok: "next_index msg used = Ok k \<Longrightarrow> k \<notin> set used \<and> 0 \<le> k \<and> (\<forall>i \<in> set used. i < k)"
proof -
  assume "next_index msg used = Ok k"
  then have k: "k = scan_max (- 1) used + 1" by (auto simp: next_index_def Let_def split: if_splits)
  have "i < k" if "i \<in> set used" for i using scan_max_upper [OF that, of "- 1"] k by simp
  moreover have "0 \<le> k" using scan_max_ge [of "- 1" used] k by simp
  ultimately show ?thesis by auto
qed

text \<open>The number is larger than those of the user's other events of that time.\<close>

definition later_index :: "database \<Rightarrow> int \<Rightarrow> user_event \<Rightarrow> bool" where
  "later_index d ts e \<longleftrightarrow> (\<forall>e' \<in> set (msgs (db_events d)).
     ue_user e' = ue_user e \<longrightarrow> UserEventCreatedTsCol (ue_created e') = Ok ts \<longrightarrow> ue_index e' < ue_index e)"

lemma next_event_job:
  assumes "nextUserEventIndex u ts w = (Ok k, w')" "job_at ev d0 d w"
  shows "job_at ev d0 d w'" "ue_user e = u \<Longrightarrow> ue_index e = k \<Longrightarrow> later_index d ts e"
proof -
  let ?opt = "no_opts\<lparr>o_prefix := Some (UserEventsPrimary (Some u) (Some ts) None), o_lock := LockWrite\<rparr>"
  obtain ues where f: "FindUserEvents ?opt w = (Ok ues, w')"
    and k: "next_index ''overflow of user event index'' (map ue_index ues) = Ok k"
    using assms(1) by (auto simp: nextUserEventIndex_def run_simps elim!: bind_OkE)
  note job = job_find_events_time [OF f assms(2), of u ts]
  show "job_at ev d0 d w'" using job(1) by simp
  have "found (\<lambda>e. ue_user e = u \<and> UserEventCreatedTsCol (ue_created e) = Ok ts) 0 (msgs (db_events d)) ues"
    using job(2) by (simp add: no_opts_def)
  from found_all_set [OF this] next_index_Ok [OF k]
  show "ue_user e = u \<Longrightarrow> ue_index e = k \<Longrightarrow> later_index d ts e" by (auto simp: later_index_def)
qed

fun to_tell :: "int list \<Rightarrow> int list \<Rightarrow> int list" where
  "to_tell told [] = []"
| "to_tell told (u # us) = (if u \<noteq> AnonymousUserId \<and> u \<notin> set told then u # to_tell (u # told) us
     else to_tell told us)"

lemma to_tell_set: "set (to_tell told us) = set us - {AnonymousUserId} - set told"
  by (induction us arbitrary: told) auto

lemma to_tell_distinct: "distinct (to_tell told us)"
  by (induction us arbitrary: told) (auto simp: to_tell_set)

lemma incoming_job:
  assumes "incoming mk ts told us w = (Ok es, w')" "job_at ev d0 d w"
    and mk: "\<And>u i. ue_user (mk u i) = u \<and> ue_index (mk u i) = i"
  shows "job_at ev d0 d w' \<and> map ue_user es = to_tell told us \<and> list_all (later_index d ts) es \<and>
    set es \<subseteq> {mk u i | u i. True}"
  using assms(1,2)
proof (induction us arbitrary: told w es)
  case (Cons u us)
  show ?case
  proof (cases "u \<noteq> AnonymousUserId \<and> u \<notin> set told")
    case True
    then obtain k w1 es' where s: "nextUserEventIndex u ts w = (Ok k, w1)"
      "incoming mk ts (u # told) us w1 = (Ok es', w')" "es = mk u k # es'"
      using Cons.prems(1) by (auto elim!: bind_OkE)
    note n = next_event_job [OF s(1) Cons.prems(2)]
    from Cons.IH [OF s(2) n(1)] n(2) [of "mk u k"] s(3) True mk show ?thesis by auto
  next
    case False
    then show ?thesis using Cons.IH [of told w es] Cons.prems by auto
  qed
qed (auto simp: run_simps)

text \<open>The events of an action: whom they are for and what they say.\<close>

definition events_of :: "database \<Rightarrow> tspb option \<Rightarrow> int \<Rightarrow> evt \<Rightarrow> evt \<Rightarrow> int list \<Rightarrow> user_event list \<Rightarrow> bool" where
  "events_of d created userId outgoing ingoing targets es \<longleftrightarrow>
     (\<exists>ts. UserEventCreatedTsCol created = Ok ts \<and> list_all (later_index d ts) es) \<and>
     list_all (\<lambda>e. ue_created e = created) es \<and>
     map (\<lambda>e. (ue_user e, ue_evt e)) es =
       (if userId = AnonymousUserId then [] else [(userId, outgoing)]) @
       map (\<lambda>u. (u, ingoing)) (to_tell [userId] targets)"

lemma events_of_cong: "db_events d = db_events d' \<Longrightarrow>
    events_of d cr u out ing ts es = events_of d' cr u out ing ts es"
proof -
  assume "db_events d = db_events d'"
  then have "later_index d = later_index d'" by (simp add: fun_eq_iff later_index_def)
  then show ?thesis by (simp add: events_of_def)
qed

lemma to_tell_cong: "set a = set b \<Longrightarrow> to_tell a us = to_tell b us"
proof (induction us arbitrary: a b)
  case (Cons u us)
  have "to_tell (u # a) us = to_tell (u # b) us" by (rule Cons.IH) (simp only: list.set Cons.prems)
  moreover have "to_tell a us = to_tell b us" by (rule Cons.IH [OF Cons.prems])
  ultimately show ?case by (simp only: to_tell.simps Cons.prems)
qed simp

lemma to_tell_anonymous: "to_tell (AnonymousUserId # told) us = to_tell told us"
proof (induction us arbitrary: told)
  case (Cons u us)
  have "to_tell (u # AnonymousUserId # told) us = to_tell (AnonymousUserId # u # told) us"
    by (rule to_tell_cong) auto
  with Cons show ?case by auto
qed simp

lemma collect_events_job:
  assumes "collect_events created modified userId outgoing ingoing targets w = (Ok es, w')" "job_at ev d0 d w"
  shows "job_at ev d0 d w'"
    "events_of d created userId outgoing ingoing targets (case_option [] (\<lambda>e. [e]) (fst es) @ snd es)"
proof -
  let ?mk = "\<lambda>e uid idx. \<lparr>ue_user = uid, ue_index = idx, ue_created = created,
                   ue_modified = modified, ue_evt = e\<rparr>"
  obtain ts oue w1 iues where s: "UserEventCreatedTsCol created = Ok ts"
    "(if userId \<noteq> AnonymousUserId
      then bind (nextUserEventIndex userId ts) (\<lambda>idx. ret (Some (?mk outgoing userId idx)))
      else ret None) w = (Ok oue, w1)"
    "incoming (?mk ingoing) ts (if userId \<noteq> AnonymousUserId then [userId] else []) targets w1 = (Ok iues, w')"
    "es = (oue, iues)"
    using assms(1) by (auto simp: collect_events_def Let_def elim!: bind_OkE)
  have o: "job_at ev d0 d w1 \<and> list_all (later_index d ts) (case_option [] (\<lambda>e. [e]) oue) \<and>
      list_all (\<lambda>e. ue_created e = created) (case_option [] (\<lambda>e. [e]) oue) \<and>
      map (\<lambda>e. (ue_user e, ue_evt e)) (case_option [] (\<lambda>e. [e]) oue) =
        (if userId = AnonymousUserId then [] else [(userId, outgoing)])"
    using s(2) assms(2) next_event_job [of userId ts w _ w1 ev d0 d]
    by (auto elim!: bind_OkE split: if_splits simp: run_simps)
  have told: "to_tell (if userId \<noteq> AnonymousUserId then [userId] else []) targets = to_tell [userId] targets"
    using to_tell_anonymous [of "[]"] by simp
  have i: "job_at ev d0 d w' \<and> map ue_user iues = to_tell [userId] targets \<and> list_all (later_index d ts) iues \<and>
      set iues \<subseteq> {?mk ingoing u i | u i. True}"
    using incoming_job [OF s(3), of ev d0 d] o told by simp
  then have "list_all (\<lambda>e. ue_created e = created) iues" by (auto simp: list_all_iff)
  moreover have "map (\<lambda>e. (ue_user e, ue_evt e)) iues = map (\<lambda>u. (u, ingoing)) (map ue_user iues)"
    unfolding map_map using i by (intro map_cong) auto
  ultimately have "list_all (\<lambda>e. ue_created e = created) iues"
    "map (\<lambda>e. (ue_user e, ue_evt e)) iues = map (\<lambda>u. (u, ingoing)) (map ue_user iues)" by blast+
  with o i s(1,4) show "job_at ev d0 d w'"
    "events_of d created userId outgoing ingoing targets (case_option [] (\<lambda>e. [e]) (fst es) @ snd es)"
    by (auto simp: events_of_def)
qed

lemma each_insert_event:
  assumes "each (\<lambda>iue. wrap_err f (InsertUserEvent iue)) es w = (Ok us, w')" "job_at ev d0 d w"
  shows "\<exists>rows. job_at ev d0 (d\<lparr>db_events := rows\<rparr>) w' \<and> msgs rows = msgs (db_events d) @ es"
  using assms
proof (induction es arbitrary: w d us)
  case Nil
  then show ?case by (intro exI [of _ "db_events d"]) (simp add: run_simps)
next
  case (Cons e es)
  obtain w1 us' where s: "InsertUserEvent e w = (Ok (), w1)"
    "each (\<lambda>iue. wrap_err f (InsertUserEvent iue)) es w1 = (Ok us', w')"
    using Cons.prems(1) by (auto elim!: bind_OkE)
  obtain rows where r: "job_at ev d0 (d\<lparr>db_events := rows\<rparr>) w1" "msgs rows = msgs (db_events d) @ [e]"
    using job_insert_events [OF s(1) Cons.prems(2)] by blast
  from Cons.IH [OF s(2) r(1)] r(2) show ?case by auto
qed

lemma store_events_job:
  assumes "store_events es w = (Ok u, w')" "job_at ev d0 d w"
  obtains rows where "job_at ev d0 (d\<lparr>db_events := rows\<rparr>) w'"
    "msgs rows = msgs (db_events d) @ case_option [] (\<lambda>e. [e]) (fst es) @ snd es"
proof -
  obtain w1 us where s: "(case fst es of None \<Rightarrow> ret ()
      | Some oue \<Rightarrow> wrap_err (\<lambda>e. Internal e ''can't create outgoing user event'') (InsertUserEvent oue)) w = (Ok (), w1)"
    "each (\<lambda>iue. wrap_err (\<lambda>e. Internal e ''can't create incoming user event'') (InsertUserEvent iue)) (snd es) w1 =
      (Ok us, w')"
    using assms(1) by (auto simp: store_events_def elim!: bind_OkE)
  have "\<exists>rows. job_at ev d0 (d\<lparr>db_events := rows\<rparr>) w1 \<and>
      msgs rows = msgs (db_events d) @ case_option [] (\<lambda>e. [e]) (fst es)"
  proof (cases "fst es")
    case None
    then show ?thesis using s(1) assms(2) by (intro exI [of _ "db_events d"]) (auto simp: run_simps)
  next
    case (Some oue)
    then have "InsertUserEvent oue w = (Ok (), w1)" using s(1) by simp
    from job_insert_events [OF this assms(2)] Some show ?thesis by auto
  qed
  then obtain rows where r: "job_at ev d0 (d\<lparr>db_events := rows\<rparr>) w1"
    "msgs rows = msgs (db_events d) @ case_option [] (\<lambda>e. [e]) (fst es)" by blast
  from each_insert_event [OF s(2) r(1)] r(2) that show thesis by auto
qed

end
