(* ===== verification/Votes.thy ===== *)
theory Votes
  imports Notify PicTasks
begin

section \<open>Votes and comments (be/tasks/add_pic_vote.go, add_pic_comment_task.go, add_pic_comment_vote_task.go)\<close>

text \<open>
  The three tasks by which users react to a picture. A named user votes once, the anonymous user
  any number of times under running numbers; the picture and the comment carry the sums of the
  votes. What a task returns is filtered by what the requesting user may see.
\<close>

definition subject_id :: "user option \<Rightarrow> int" where
  "subject_id u = (case u of Some x \<Rightarrow> u_id x | None \<Rightarrow> AnonymousUserId)"

definition may_extend :: "user option \<Rightarrow> configuration \<Rightarrow> int \<Rightarrow> extmap \<Rightarrow> unit res" where
  "may_extend u conf cap ext = (if ext \<noteq> [] then validateCapability u conf [cap] else Ok ())"

definition pic_to :: "string \<Rightarrow> lock \<Rightarrow> int \<Rightarrow> pic io" where
  "pic_to msg lk picId =
     bind (wrap_err (\<lambda>e. Internal e ''can't lookup pic'')
       (FindPics (no_opts\<lparr>o_prefix := Some (PicsPrimary (Some picId)), o_lock := lk\<rparr>))) (\<lambda>pics.
     (case pics of
        [p] \<Rightarrow> bind (check (\<not> HardDeleted p) (InvalidArgument None msg)) (\<lambda>_. ret p)
      | _ \<Rightarrow> fail (NotFound None ''can't find pic'')))"

text \<open>The index of a new vote, from those of the same user for the same object.\<close>

definition vote_index :: "string \<Rightarrow> int \<Rightarrow> int list \<Rightarrow> int res" where
  "vote_index msg userId used =
     (if userId \<noteq> AnonymousUserId
      then (if used \<noteq> [] then Err (AlreadyExists None ''can't double vote'') else Ok 0)
      else next_index msg used)"

definition known_vote :: "int \<Rightarrow> bool" where
  "known_vote v \<longleftrightarrow> v = Vote_UP \<or> v = Vote_DOWN \<or> v = Vote_NEUTRAL"

definition counted_vote :: "int \<Rightarrow> bool" where
  "counted_vote v \<longleftrightarrow> v = Vote_UP \<or> v = Vote_DOWN"

subsection \<open>Filters\<close>

definition shows_user :: "user_cred \<Rightarrow> int \<Rightarrow> int \<Rightarrow> bool" where
  "shows_user uc cap userId \<longleftrightarrow>
     cs_has (uc_caps uc) USER_READ_ALL \<or>
     (cs_has (uc_caps uc) USER_READ_PUBLIC \<and> cs_has (uc_caps uc) cap) \<or>
     (uc_subject uc = userId \<and> cs_has (uc_caps uc) USER_READ_SELF)"

definition filterPicVoteInternal :: "pic_vote \<Rightarrow> user_cred \<Rightarrow> pic_vote \<times> bool" where
  "filterPicVoteInternal pv uc =
     (let dpv = (if cs_has (uc_caps uc) PIC_VOTE_EXTENSION_READ then pv else pv\<lparr>pv_ext := []\<rparr>)
      in if shows_user uc USER_READ_PIC_VOTE (pv_user dpv) then (dpv, False)
         else (dpv\<lparr>pv_user := AnonymousUserId\<rparr>, True))"

definition filterPicVote :: "pic_vote \<Rightarrow> user option \<Rightarrow> configuration \<Rightarrow> pic_vote res" where
  "filterPicVote pv su conf = res_map (\<lambda>uc. fst (filterPicVoteInternal pv uc)) (userCredOf su conf)"

definition filterPicVotes :: "pic_vote list \<Rightarrow> user option \<Rightarrow> configuration \<Rightarrow> pic_vote list res" where
  "filterPicVotes pvs su conf =
     res_map (\<lambda>uc. map fst (filter (\<lambda>x. \<not> snd x) (map (\<lambda>pv. filterPicVoteInternal pv uc) pvs)))
       (userCredOf su conf)"

definition filterPicCommentInternal :: "pic_comment \<Rightarrow> user_cred \<Rightarrow> pic_comment" where
  "filterPicCommentInternal pc uc =
     (let dpc = (if cs_has (uc_caps uc) PIC_COMMENT_EXTENSION_READ then pc else pc\<lparr>pc_ext := []\<rparr>)
      in if shows_user uc USER_READ_PIC_COMMENT (pc_user dpc) then dpc
         else dpc\<lparr>pc_user := AnonymousUserId\<rparr>)"

definition filterPicComment :: "pic_comment \<Rightarrow> user option \<Rightarrow> configuration \<Rightarrow> pic_comment res" where
  "filterPicComment pc su conf = res_map (filterPicCommentInternal pc) (userCredOf su conf)"

definition filterPicComments :: "pic_comment list \<Rightarrow> user option \<Rightarrow> configuration \<Rightarrow> pic_comment list res" where
  "filterPicComments pcs su conf =
     res_map (\<lambda>uc. map (\<lambda>pc. filterPicCommentInternal pc uc) pcs) (userCredOf su conf)"

subsection \<open>Voting for a picture\<close>

definition count_vote :: "int \<Rightarrow> tspb \<Rightarrow> pic \<Rightarrow> pic" where
  "count_vote vote nowts p =
     (if vote = Vote_UP then p\<lparr>p_up := wrap64 (p_up p + 1), p_modified := Some nowts\<rparr>
      else if vote = Vote_DOWN then p\<lparr>p_down := wrap64 (p_down p + 1), p_modified := Some nowts\<rparr>
      else p)"

definition vote_body ::
    "ctx \<Rightarrow> int \<Rightarrow> int \<Rightarrow> int \<Rightarrow> extmap \<Rightarrow> user option \<Rightarrow> (pic_vote \<times> pic_vote) io" where
  "vote_body cx now picId vote ext u =
     bind (GetConfiguration cx) (\<lambda>conf.
     bind (lift_res (validateCapability u conf [PIC_VOTE_CREATE])) (\<lambda>_.
     bind (lift_res (may_extend u conf PIC_VOTE_EXTENSION_CREATE ext)) (\<lambda>_.
     bind (pic_to ''can't vote on deleted pic'' LockWrite picId) (\<lambda>p.
     bind (wrap_err (\<lambda>e. Internal e ''can't find pic votes'')
       (FindPicVotes (no_opts\<lparr>o_prefix := Some (PicVotesPrimary (Some picId) (Some (subject_id u)) None),
         o_lock := LockWrite\<rparr>))) (\<lambda>pvs.
     bind (lift_res (vote_index ''overflow of pic vote index'' (subject_id u) (map pv_index pvs))) (\<lambda>index.
     bind (lift_res (ToTspb now)) (\<lambda>nowts.
     let pv = \<lparr>pv_pic = p_id p, pv_user = subject_id u, pv_index = index, pv_vote = vote,
                pv_created = Some nowts, pv_modified = Some nowts, pv_ext = ext\<rparr> in
     bind (wrap_err (\<lambda>e. Internal e ''can't insert vote'') (InsertPicVote pv)) (\<lambda>_.
     bind (if counted_vote vote
           then wrap_err (\<lambda>e. Internal e ''can't update pic'') (UpdatePic (count_vote vote nowts p))
           else ret ()) (\<lambda>_.
     bind (if counted_vote vote
           then bind (collect_events (Some nowts) (Some nowts) (subject_id u)
                  (OutgoingUpsertPicVote (p_id p)) (IncomingUpsertPicVote (p_id p) (subject_id u))
                  (map fs_user (p_source p))) store_events
           else ret ()) (\<lambda>_.
     bind (wrap_err (\<lambda>e. Internal e ''can't commit job'') Commit) (\<lambda>_.
     bind (lift_res (filterPicVote pv u conf)) (\<lambda>fpv. ret (pv, fpv)))))))))))))"

definition AddPicVoteTask :: "ctx \<Rightarrow> int \<Rightarrow> int \<Rightarrow> int \<Rightarrow> extmap \<Rightarrow> (pic_vote \<times> pic_vote) io" where
  "AddPicVoteTask cx now picId vote ext =
     (if \<not> known_vote vote then fail (InvalidArgument None ''bad vote dir'')
      else bind (authedJob cx now) (\<lambda>u. revert (vote_body cx now picId vote ext u)))"

subsection \<open>Commenting\<close>

definition bound_or :: "int \<Rightarrow> int option \<Rightarrow> int" where
  "bound_or d b = (case b of Some v \<Rightarrow> v | None \<Rightarrow> d)"

text \<open>The comment replied to, if any.\<close>

definition parent_comment :: "configuration \<Rightarrow> int \<Rightarrow> int \<Rightarrow> int \<Rightarrow> pic_comment option io" where
  "parent_comment conf userId picId parentId =
     (if parentId = 0 then ret None
      else bind (wrap_err (\<lambda>e. Internal e ''can't lookup comment'')
             (FindPicComments (no_opts\<lparr>o_prefix := Some (PicCommentsPrimary (Some picId) (Some parentId))\<rparr>)))
           (\<lambda>comments.
         (case comments of
            [c] \<Rightarrow>
              bind (check (\<not> (c_self_reply conf = Some False \<and> userId = pc_user c \<and>
                  userId \<noteq> AnonymousUserId)) (InvalidArgument None ''can't self reply'')) (\<lambda>_.
              ret (Some c))
          | _ \<Rightarrow> fail (NotFound None ''can't find comment''))))"

definition sibling_check :: "configuration \<Rightarrow> int \<Rightarrow> int \<Rightarrow> int \<Rightarrow> unit io" where
  "sibling_check conf userId picId parentId =
     (if c_sibling_reply conf = Some False \<and> userId \<noteq> AnonymousUserId then
        bind (wrap_err (\<lambda>e. Internal e ''can't lookup comments'')
          (FindPicComments (no_opts\<lparr>o_prefix := Some (PicCommentsPrimary (Some picId) None)\<rparr>))) (\<lambda>comments.
        check (\<not> list_ex (\<lambda>c. pc_parent c = parentId \<and> pc_user c = userId) comments)
          (InvalidArgument None ''can't double reply''))
      else ret ())"

definition comment_body ::
    "ctx \<Rightarrow> int \<Rightarrow> int \<Rightarrow> int \<Rightarrow> string \<Rightarrow> extmap \<Rightarrow> user option \<Rightarrow> (pic_comment \<times> pic_comment) io" where
  "comment_body cx now picId parentId txt ext u =
     bind (GetConfiguration cx) (\<lambda>conf.
     bind (get_state (\<lambda>w. e_text (w_env w))) (\<lambda>tlib.
     bind (wrap_err (\<lambda>e. From (the e)) (lift_res (DefaultValidateAndNormalize tlib txt ''comment''
       (bound_or min_int64 (c_min_comment conf)) (bound_or max_int64 (c_max_comment conf)) []))) (\<lambda>txt'.
     bind (lift_res (validateCapability u conf [PIC_COMMENT_CREATE])) (\<lambda>_.
     bind (lift_res (may_extend u conf PIC_COMMENT_EXTENSION_CREATE ext)) (\<lambda>_.
     bind (pic_to ''can't comment on deleted pic'' LockNone picId) (\<lambda>p.
     bind (parent_comment conf (subject_id u) picId parentId) (\<lambda>parent.
     bind (sibling_check conf (subject_id u) picId parentId) (\<lambda>_.
     bind (wrap_err (\<lambda>e. Internal e ''can't allocate id'') AllocId) (\<lambda>commentId.
     bind (lift_res (ToTspb now)) (\<lambda>nowts.
     let pc = \<lparr>pc_pic = p_id p, pc_id = commentId, pc_parent = parentId, pc_user = subject_id u,
                pc_text = txt', pc_up = 0, pc_down = 0, pc_created = Some nowts,
                pc_modified = Some nowts, pc_ext = ext\<rparr> in
     bind (wrap_err (\<lambda>e. Internal e ''can't insert comment'') (InsertPicComment pc)) (\<lambda>_.
     bind (collect_events (Some nowts) (Some nowts) (subject_id u)
       (OutgoingPicComment (p_id p) commentId) (IncomingPicComment (p_id p) commentId)
       (case parent of Some c \<Rightarrow> [pc_user c] | None \<Rightarrow> map fs_user (p_source p))) (\<lambda>es.
     bind (store_events es) (\<lambda>_.
     bind (wrap_err (\<lambda>e. Internal e ''can't commit job'') Commit) (\<lambda>_.
     bind (lift_res (filterPicComment pc u conf)) (\<lambda>fpc. ret (pc, fpc))))))))))))))))"

definition AddPicCommentTask ::
    "ctx \<Rightarrow> int \<Rightarrow> int \<Rightarrow> int \<Rightarrow> string \<Rightarrow> extmap \<Rightarrow> (pic_comment \<times> pic_comment) io" where
  "AddPicCommentTask cx now picId parentId txt ext =
     bind (authedJob cx now) (\<lambda>u. revert (comment_body cx now picId parentId txt ext u))"

subsection \<open>Voting for a comment\<close>

definition count_comment_vote :: "int \<Rightarrow> tspb \<Rightarrow> pic_comment \<Rightarrow> pic_comment" where
  "count_comment_vote vote nowts c =
     (if vote = Vote_UP then c\<lparr>pc_up := wrap64 (pc_up c + 1), pc_modified := Some nowts\<rparr>
      else if vote = Vote_DOWN then c\<lparr>pc_down := wrap64 (pc_down c + 1), pc_modified := Some nowts\<rparr>
      else c)"

definition comment_vote_body ::
    "ctx \<Rightarrow> int \<Rightarrow> int \<Rightarrow> int \<Rightarrow> int \<Rightarrow> extmap \<Rightarrow> user option \<Rightarrow> pic_comment_vote io" where
  "comment_vote_body cx now picId commentId vote ext u =
     bind (check (known_vote vote) (InvalidArgument None ''bad vote dir'')) (\<lambda>_.
     bind (GetConfiguration cx) (\<lambda>conf.
     bind (lift_res (validateCapability u conf [PIC_COMMENT_VOTE_CREATE])) (\<lambda>_.
     bind (lift_res (may_extend u conf PIC_COMMENT_VOTE_EXTENSION_CREATE ext)) (\<lambda>_.
     bind (pic_to ''can't vote on deleted pic'' LockNone picId) (\<lambda>p.
     bind (wrap_err (\<lambda>e. Internal e ''can't lookup comment'')
       (FindPicComments (no_opts\<lparr>o_prefix := Some (PicCommentsPrimary (Some picId) (Some commentId)),
         o_lock := LockWrite\<rparr>))) (\<lambda>cs.
     bind (case cs of [c] \<Rightarrow> ret c | _ \<Rightarrow> fail (NotFound None ''can't find comment'')) (\<lambda>c.
     bind (wrap_err (\<lambda>e. Internal e ''can't find pic comment votes'')
       (FindPicCommentVotes (no_opts\<lparr>o_prefix := Some (PicCommentVotesPrimary (Some picId)
         (Some commentId) (Some (subject_id u)) None), o_lock := LockWrite\<rparr>))) (\<lambda>pcvs.
     bind (lift_res (vote_index ''overflow of pic comment vote index'' (subject_id u)
       (map pcv_index pcvs))) (\<lambda>index.
     bind (lift_res (ToTspb now)) (\<lambda>nowts.
     let pcv = \<lparr>pcv_pic = p_id p, pcv_comment = pc_id c, pcv_user = subject_id u, pcv_index = index,
                 pcv_vote = vote, pcv_created = Some nowts, pcv_modified = Some nowts, pcv_ext = ext\<rparr> in
     bind (wrap_err (\<lambda>e. Internal e ''can't insert vote'') (InsertPicCommentVote pcv)) (\<lambda>_.
     bind (if counted_vote vote
           then wrap_err (\<lambda>e. Internal e ''can't update comment'')
             (UpdatePicComment (count_comment_vote vote nowts c))
           else ret ()) (\<lambda>_.
     bind (wrap_err (\<lambda>e. Internal e ''can't commit job'') Commit) (\<lambda>_. ret pcv)))))))))))))"

definition AddPicCommentVoteTask ::
    "ctx \<Rightarrow> int \<Rightarrow> int \<Rightarrow> int \<Rightarrow> int \<Rightarrow> extmap \<Rightarrow> pic_comment_vote io" where
  "AddPicCommentVoteTask cx now picId commentId vote ext =
     bind (authedJob cx now) (\<lambda>u. revert (comment_vote_body cx now picId commentId vote ext u))"

subsection \<open>Frames\<close>

lemma keeps_check_frames: "keeps keeps_fit (check b e)" "keeps keeps_base (check b e)"
  "keeps keeps_acct (check b e)"
  by (auto simp: check_def intro!: task_frames)

lemma pic_to_frames: "keeps keeps_fit (pic_to m lk i)" "keeps keeps_base (pic_to m lk i)"
  "keeps keeps_acct (pic_to m lk i)"
  unfolding pic_to_def
  by (auto intro!: task_frames keeps_check_frames split: list.splits)

lemma parent_comment_frames: "keeps keeps_fit (parent_comment conf u i p)"
  "keeps keeps_base (parent_comment conf u i p)" "keeps keeps_acct (parent_comment conf u i p)"
  unfolding parent_comment_def
  by (auto intro!: task_frames keeps_check_frames split: list.splits)

lemma sibling_check_frames: "keeps keeps_fit (sibling_check conf u i p)"
  "keeps keeps_base (sibling_check conf u i p)" "keeps keeps_acct (sibling_check conf u i p)"
  unfolding sibling_check_def
  by (auto intro!: task_frames keeps_check_frames)

lemma filter_not_Err: "filterPicVote pv u conf \<noteq> Err e" "filterPicComment pc u conf \<noteq> Err e"
  by (auto simp: filterPicVote_def filterPicComment_def userCredOf_def split: option.splits)

lemmas vote_frames = pic_to_frames parent_comment_frames sibling_check_frames keeps_check_frames event_frames

interpretation add_pic_vote: atomic_task "vote_body cx now picId vote ext" for cx now picId vote ext
  unfolding vote_body_def Let_def
  by unfold_locales
    (auto intro!: task_frames vote_frames commits_last_bind commits_last_Commit quiet_bind quiet_ret
      quiet_lift_res simp: filter_not_Err)

interpretation add_pic_comment: atomic_task "comment_body cx now picId parentId txt ext"
  for cx now picId parentId txt ext
  unfolding comment_body_def Let_def
  by unfold_locales
    (auto intro!: task_frames vote_frames commits_last_bind commits_last_Commit quiet_bind quiet_ret
      quiet_lift_res simp: filter_not_Err)

interpretation add_comment_vote: atomic_task "comment_vote_body cx now picId commentId vote ext"
  for cx now picId commentId vote ext
  unfolding comment_vote_body_def Let_def
  by unfold_locales
    (auto intro!: task_frames vote_frames commits_last_bind commits_last_Commit split: list.splits)

end
