(* ===== verification/VoteFacts.thy ===== *)
theory VoteFacts
  imports Votes PicFacts
begin

section \<open>What votes and comments do\<close>

text \<open>
  The steps of the three tasks on an open job, and what each changes when it succeeds.
\<close>

subsection \<open>Steps\<close>

lemma conf_of_site: "w_site w1 = w_site w \<Longrightarrow> conf_of cx w1 = conf_of cx w"
  by (simp add: conf_of_def split: option.split)

lemma filter_pic_key: "db_fits ev d \<Longrightarrow> found (\<lambda>q. p_id q = i) 0 (msgs (db_pics d)) [p] \<Longrightarrow> the_pic d i p"
  using found_one by (auto simp: the_pic_def)

lemma the_pic_unique: "the_pic d i p \<Longrightarrow> q \<in> set (msgs (db_pics d)) \<Longrightarrow> p_id q = i \<Longrightarrow> q = p"
proof -
  assume "the_pic d i p" "q \<in> set (msgs (db_pics d))" "p_id q = i"
  then have "q \<in> set (filter (\<lambda>q. p_id q = i) (msgs (db_pics d)))" by simp
  also have "set (filter (\<lambda>q. p_id q = i) (msgs (db_pics d))) = {p}"
    using \<open>the_pic d i p\<close> unfolding the_pic_def by (simp only: list.set)
  finally show "q = p" by simp
qed

lemma pic_to_job:
  assumes "pic_to m lk i w = (Ok p, w')" "job_at ev d0 d w"
  shows "job_at ev d0 d w'" "the_pic d i p" "\<not> HardDeleted p" "p_id p = i"
proof -
  let ?opt = "no_opts\<lparr>o_prefix := Some (PicsPrimary (Some i)), o_lock := lk\<rparr>"
  obtain ps w1 where f: "FindPics ?opt w = (Ok ps, w1)"
    and rest: "(case ps of [p] \<Rightarrow> bind (check (\<not> HardDeleted p) (InvalidArgument None m)) (\<lambda>_. ret p)
      | _ \<Rightarrow> fail (NotFound None ''can't find pic'')) w1 = (Ok p, w')"
    using assms(1) by (auto simp: pic_to_def elim!: bind_OkE)
  have ps: "ps = [p]" "w' = w1" "\<not> HardDeleted p"
    using rest by (auto split: list.splits if_splits simp: check_def run_simps elim!: bind_OkE)
  note job = job_find_pics_id [OF f assms(2), of i]
  show "job_at ev d0 d w'" "\<not> HardDeleted p" using job(1) ps by simp_all
  show pic: "the_pic d i p"
    using job(2) ps filter_pic_key [OF job_at_D(2) [OF assms(2)]] by (simp add: no_opts_def)
  then show "p_id p = i" using the_pic_id by simp
qed

text \<open>The number of a new vote: nobody but the anonymous user votes twice.\<close>

definition new_number :: "int \<Rightarrow> int list \<Rightarrow> int \<Rightarrow> bool" where
  "new_number userId used k \<longleftrightarrow>
     (if userId = AnonymousUserId then 0 \<le> k \<and> (\<forall>i \<in> set used. i < k) else k = 0 \<and> used = [])"

lemma vote_index_Ok: "vote_index m u used = Ok k \<Longrightarrow> mset used = mset used' \<Longrightarrow> new_number u used' k"
  using next_index_Ok [of m used k]
  by (auto simp: vote_index_def new_number_def split: if_splits dest: mset_eq_setD)

lemma optional_events_job:
  assumes "(if c then bind (collect_events cr md u out ing ts) store_events else ret ()) w = (Ok x, w')"
    "job_at ev d0 d w"
  obtains rows es where "job_at ev d0 (d\<lparr>db_events := rows\<rparr>) w'" "msgs rows = msgs (db_events d) @ es"
    "if c then events_of d cr u out ing ts es else es = []"
proof (cases c)
  case True
  then obtain es w1 where s: "collect_events cr md u out ing ts w = (Ok es, w1)" "store_events es w1 = (Ok x, w')"
    using assms(1) by (auto elim!: bind_OkE)
  note c = collect_events_job [OF s(1) assms(2)]
  show thesis using store_events_job [OF s(2) c(1)] c(2) True that by auto
next
  case False
  then show thesis using assms that [of "db_events d" "[]"] by (simp add: run_simps)
qed

subsection \<open>Voting for a picture\<close>

definition voted :: "int \<Rightarrow> int \<Rightarrow> int \<Rightarrow> int \<Rightarrow> extmap \<Rightarrow> database \<Rightarrow> database \<Rightarrow> pic_vote \<Rightarrow> bool" where
  "voted now userId i vote ext d d' pv \<longleftrightarrow>
     (\<exists>p nowts k es. the_pic d i p \<and> \<not> HardDeleted p \<and> ToTspb now = Ok nowts \<and>
       pv = \<lparr>pv_pic = i, pv_user = userId, pv_index = k, pv_vote = vote, pv_created = Some nowts,
         pv_modified = Some nowts, pv_ext = ext\<rparr> \<and>
       new_number userId (map pv_index (filter (\<lambda>v. pv_pic v = i \<and> pv_user v = userId) (msgs (db_votes d)))) k \<and>
       d' = d\<lparr>db_pics := db_pics d', db_votes := db_votes d', db_events := db_events d'\<rparr> \<and>
       msgs (db_votes d') = msgs (db_votes d) @ [pv] \<and>
       msgs (db_pics d') = map (\<lambda>q. if p_id q = i then count_vote vote nowts q else q) (msgs (db_pics d)) \<and>
       msgs (db_events d') = msgs (db_events d) @ es \<and>
       (if counted_vote vote
        then events_of d (Some nowts) userId (OutgoingUpsertPicVote i) (IncomingUpsertPicVote i userId)
          (map fs_user (p_source p)) es
        else es = []))"

lemma count_vote_id: "p_id (count_vote vote ts p) = p_id p"
  by (simp add: count_vote_def)

lemma vote_update_job:
  assumes "(if counted_vote vote then wrap_err f (UpdatePic (count_vote vote ts p)) else ret ()) w = (Ok x, w')"
    "job_at ev d0 d w" "the_pic d i p"
  obtains rows where "job_at ev d0 (d\<lparr>db_pics := rows\<rparr>) w'"
    "msgs rows = map (\<lambda>q. if p_id q = i then count_vote vote ts q else q) (msgs (db_pics d))"
proof -
  note same = the_pic_unique [OF assms(3)]
  show thesis
  proof (cases "counted_vote vote")
    case True
    then have up: "UpdatePic (count_vote vote ts p) w = (Ok (), w')" using assms(1) by simp
    obtain rows where r: "job_at ev d0 (d\<lparr>db_pics := rows\<rparr>) w'"
      "msgs rows = map (\<lambda>q. if p_id q = p_id (count_vote vote ts p) then count_vote vote ts p else q)
         (msgs (db_pics d))"
      by (rule job_update_pics [OF up assms(2)])
    have "msgs rows = map (\<lambda>q. if p_id q = i then count_vote vote ts q else q) (msgs (db_pics d))"
      unfolding r(2) count_vote_id
    proof (rule map_cong [OF refl])
      fix q
      assume "q \<in> set (msgs (db_pics d))"
      then have "p_id q = i \<Longrightarrow> q = p" by (rule same)
      moreover have "p_id p = i" using the_pic_id [OF assms(3)] by blast
      ultimately show "(if p_id q = p_id p then count_vote vote ts p else q) =
          (if p_id q = i then count_vote vote ts q else q)"
        by (cases "p_id q = i") simp_all
    qed
    with r(1) that show thesis by blast
  next
    case False
    then have none: "count_vote vote ts q = q" for q by (simp add: count_vote_def counted_vote_def)
    have "msgs (db_pics d) = map (\<lambda>q. if p_id q = i then count_vote vote ts q else q) (msgs (db_pics d))"
      unfolding none by (simp only: if_cancel list.map_ident)
    then show thesis using that [of "db_pics d"] False assms(1,2) by (simp add: run_simps)
  qed
qed

lemma AddPicVoteTask_effect:
  assumes "fits w" "idle w" "AddPicVoteTask cx now i vote ext w = (Ok (pv, fpv), w')"
  shows "\<exists>d su conf. visit_only (w_db w) d \<and> token_user cx d su \<and> conf_of cx w = Some conf \<and>
    validateCapability su conf [PIC_VOTE_CREATE] = Ok () \<and>
    may_extend su conf PIC_VOTE_EXTENSION_CREATE ext = Ok () \<and> known_vote vote \<and>
    voted now (subject_id su) i vote ext d (w_db w') pv \<and> filterPicVote pv su conf = Ok fpv"
proof -
  have known: "known_vote vote" using assms(3) by (auto simp: AddPicVoteTask_def run_simps split: if_splits)
  then have run: "bind (authedJobInternal cx now False) (\<lambda>u. revert (vote_body cx now i vote ext u)) w =
      (Ok (pv, fpv), w')"
    using assms(3) by (simp add: AddPicVoteTask_def authedJob_def)
  obtain su w1 w2 where start: "job_at (w_env w) (w_db w1) (w_db w1) w1" "visit_only (w_db w) (w_db w1)"
    "token_user cx (w_db w1) su" "vote_body cx now i vote ext su w1 = (Ok (pv, fpv), w2)"
    "w_db w' = w_db w2" "w_site w1 = w_site w"
    using add_pic_vote.succeeds [OF run assms(1,2)] by blast
  let ?d = "w_db w1"
  let ?opt = "no_opts\<lparr>o_prefix := Some (PicVotesPrimary (Some i) (Some (subject_id su)) None), o_lock := LockWrite\<rparr>"
  obtain conf p w3 pvs w4 k nowts w5 w6 w7 w8 where s: "conf_of cx w1 = Some conf"
    "validateCapability su conf [PIC_VOTE_CREATE] = Ok ()"
    "may_extend su conf PIC_VOTE_EXTENSION_CREATE ext = Ok ()"
    "pic_to ''can't vote on deleted pic'' LockWrite i w1 = (Ok p, w3)"
    "FindPicVotes ?opt w3 = (Ok pvs, w4)"
    "vote_index ''overflow of pic vote index'' (subject_id su) (map pv_index pvs) = Ok k"
    "ToTspb now = Ok nowts"
    "InsertPicVote \<lparr>pv_pic = p_id p, pv_user = subject_id su, pv_index = k, pv_vote = vote,
       pv_created = Some nowts, pv_modified = Some nowts, pv_ext = ext\<rparr> w4 = (Ok (), w5)"
    "(if counted_vote vote then wrap_err (\<lambda>e. Internal e ''can't update pic'')
        (UpdatePic (count_vote vote nowts p)) else ret ()) w5 = (Ok (), w6)"
    "(if counted_vote vote then bind (collect_events (Some nowts) (Some nowts) (subject_id su)
        (OutgoingUpsertPicVote (p_id p)) (IncomingUpsertPicVote (p_id p) (subject_id su))
        (map fs_user (p_source p))) store_events else ret ()) w6 = (Ok (), w7)"
    "Commit w7 = (Ok (), w8)" "filterPicVote pv su conf = Ok fpv" "w2 = w8"
    "pv = \<lparr>pv_pic = p_id p, pv_user = subject_id su, pv_index = k, pv_vote = vote,
       pv_created = Some nowts, pv_modified = Some nowts, pv_ext = ext\<rparr>"
    using start(4) unfolding vote_body_def Let_def
    by (auto simp: GetConfiguration_iff elim!: bind_OkE)
  note pic = pic_to_job [OF s(4) start(1)]
  note votes = job_find_votes_user [OF s(5) pic(1), of i "subject_id su"]
  have "found (\<lambda>v. pv_pic v = i \<and> pv_user v = subject_id su) 0 (msgs (db_votes ?d)) pvs"
    using votes(2) by (simp add: no_opts_def)
  then have "mset (map pv_index pvs) =
      mset (map pv_index (filter (\<lambda>v. pv_pic v = i \<and> pv_user v = subject_id su) (msgs (db_votes ?d))))"
    unfolding mset_map by (simp only: found_all)
  note number = vote_index_Ok [OF s(6) this]
  have job4: "job_at (w_env w) ?d ?d w4" using votes(1) by simp
  obtain rv where rv: "job_at (w_env w) ?d (?d\<lparr>db_votes := rv\<rparr>) w5" "msgs rv = msgs (db_votes ?d) @ [pv]"
    using job_insert_votes [OF s(8) job4] s(14) by metis
  have "the_pic (?d\<lparr>db_votes := rv\<rparr>) i p" using pic(2) by (simp add: the_pic_def)
  then obtain rp where rp: "job_at (w_env w) ?d (?d\<lparr>db_votes := rv, db_pics := rp\<rparr>) w6"
    "msgs rp = map (\<lambda>q. if p_id q = i then count_vote vote nowts q else q) (msgs (db_pics ?d))"
    using vote_update_job [OF s(9) rv(1)] by auto
  obtain re es where re: "job_at (w_env w) ?d (?d\<lparr>db_votes := rv, db_pics := rp, db_events := re\<rparr>) w7"
    "msgs re = msgs (db_events ?d) @ es"
    "if counted_vote vote then events_of (?d\<lparr>db_votes := rv, db_pics := rp\<rparr>) (Some nowts) (subject_id su)
       (OutgoingUpsertPicVote i) (IncomingUpsertPicVote i (subject_id su)) (map fs_user (p_source p)) es
     else es = []"
    using optional_events_job [OF s(10) rp(1)] pic(4) by auto
  have "w_db w' = ?d\<lparr>db_votes := rv, db_pics := rp, db_events := re\<rparr>"
    using Commit_job [OF s(11) re(1)] start(5) s(13) by simp
  then have "voted now (subject_id su) i vote ext ?d (w_db w') pv"
    unfolding voted_def using pic s(7,14) number rv(2) rp(2) re(2,3)
    by (intro exI [of _ p] exI [of _ nowts] exI [of _ k] exI [of _ es])
      (auto simp: events_of_cong [of "?d\<lparr>db_votes := rv, db_pics := rp\<rparr>" ?d])
  moreover have "conf_of cx w = Some conf" using s(1) conf_of_site [OF start(6)] by simp
  ultimately show ?thesis using start(2,3) s(2,3,12) known by blast
qed


subsection \<open>Commenting\<close>

text \<open>What a reply may be to: the comment it names, and, where the configuration forbids it, not
  one's own comment nor one the user has replied to already.\<close>

definition may_reply :: "configuration \<Rightarrow> database \<Rightarrow> int \<Rightarrow> int \<Rightarrow> int \<Rightarrow> pic_comment option \<Rightarrow> bool" where
  "may_reply conf d userId i parentId parent \<longleftrightarrow>
     (if parentId = 0 then parent = None
      else \<exists>c. parent = Some c \<and> filter (\<lambda>c. pc_pic c = i \<and> pc_id c = parentId) (msgs (db_comments d)) = [c] \<and>
        \<not> (c_self_reply conf = Some False \<and> userId \<noteq> AnonymousUserId \<and> pc_user c = userId)) \<and>
     (c_sibling_reply conf = Some False \<longrightarrow> userId \<noteq> AnonymousUserId \<longrightarrow>
       filter (\<lambda>c. pc_pic c = i \<and> pc_parent c = parentId \<and> pc_user c = userId) (msgs (db_comments d)) = [])"

definition commented :: "textlib \<Rightarrow> configuration \<Rightarrow> int \<Rightarrow> int \<Rightarrow> int \<Rightarrow> int \<Rightarrow> string \<Rightarrow> extmap \<Rightarrow>
    database \<Rightarrow> database \<Rightarrow> pic_comment \<Rightarrow> bool" where
  "commented tlib conf now userId i parentId txt ext d d' pc \<longleftrightarrow>
     (\<exists>p nowts commentId parent es. the_pic d i p \<and> \<not> HardDeleted p \<and> ToTspb now = Ok nowts \<and>
       acceptable (bound_or min_int64 (c_min_comment conf)) (bound_or max_int64 (c_max_comment conf)) txt \<and>
       may_reply conf d userId i parentId parent \<and>
       commentId \<notin> set (map pc_id (msgs (db_comments d))) \<and>
       pc = \<lparr>pc_pic = i, pc_id = commentId, pc_parent = parentId, pc_user = userId,
         pc_text = tl_nfc tlib txt, pc_up = 0, pc_down = 0, pc_created = Some nowts,
         pc_modified = Some nowts, pc_ext = ext\<rparr> \<and>
       d' = d\<lparr>db_seq := db_seq d', db_comments := db_comments d', db_events := db_events d'\<rparr> \<and>
       msgs (db_comments d') = msgs (db_comments d) @ [pc] \<and>
       msgs (db_events d') = msgs (db_events d) @ es \<and>
       events_of d (Some nowts) userId (OutgoingPicComment i commentId) (IncomingPicComment i commentId)
         (case parent of Some c \<Rightarrow> [pc_user c] | None \<Rightarrow> map fs_user (p_source p)) es)"

lemma parent_comment_job:
  assumes "parent_comment conf u i parentId w = (Ok parent, w')" "job_at ev d0 d w"
  shows "job_at ev d0 d w'"
    "if parentId = 0 then parent = None
      else \<exists>c. parent = Some c \<and> filter (\<lambda>c. pc_pic c = i \<and> pc_id c = parentId) (msgs (db_comments d)) = [c] \<and>
        \<not> (c_self_reply conf = Some False \<and> u \<noteq> AnonymousUserId \<and> pc_user c = u)"
proof -
  have "job_at ev d0 d w' \<and> (if parentId = 0 then parent = None
      else \<exists>c. parent = Some c \<and> filter (\<lambda>c. pc_pic c = i \<and> pc_id c = parentId) (msgs (db_comments d)) = [c] \<and>
        \<not> (c_self_reply conf = Some False \<and> u \<noteq> AnonymousUserId \<and> pc_user c = u))"
  proof (cases "parentId = 0")
    case False
    let ?opt = "no_opts\<lparr>o_prefix := Some (PicCommentsPrimary (Some i) (Some parentId))\<rparr>"
    obtain c where f: "FindPicComments ?opt w = (Ok [c], w')" and c: "parent = Some c"
      "\<not> (c_self_reply conf = Some False \<and> u = pc_user c \<and> u \<noteq> AnonymousUserId)"
      using assms(1) False
      by (auto simp: parent_comment_def check_def run_simps elim!: bind_OkE split: list.splits if_splits)
    have "found (\<lambda>c. pc_pic c = i \<and> pc_id c = parentId) 0 (msgs (db_comments d)) [c]"
      using job_find_comments_key [OF f assms(2), of i parentId] by (simp add: no_opts_def)
    from found_one [OF this] c False job_find_comments_key(1) [OF f assms(2), of i parentId]
    show ?thesis by auto
  qed (use assms in \<open>simp add: parent_comment_def run_simps\<close>)
  then show "job_at ev d0 d w'"
    "if parentId = 0 then parent = None
      else \<exists>c. parent = Some c \<and> filter (\<lambda>c. pc_pic c = i \<and> pc_id c = parentId) (msgs (db_comments d)) = [c] \<and>
        \<not> (c_self_reply conf = Some False \<and> u \<noteq> AnonymousUserId \<and> pc_user c = u)" by blast+
qed

lemma sibling_check_job:
  assumes "sibling_check conf u i parentId w = (Ok x, w')" "job_at ev d0 d w"
  shows "job_at ev d0 d w'"
    "c_sibling_reply conf = Some False \<longrightarrow> u \<noteq> AnonymousUserId \<longrightarrow>
       filter (\<lambda>c. pc_pic c = i \<and> pc_parent c = parentId \<and> pc_user c = u) (msgs (db_comments d)) = []"
proof -
  have "job_at ev d0 d w' \<and> (c_sibling_reply conf = Some False \<longrightarrow> u \<noteq> AnonymousUserId \<longrightarrow>
       filter (\<lambda>c. pc_pic c = i \<and> pc_parent c = parentId \<and> pc_user c = u) (msgs (db_comments d)) = [])"
  proof (cases "c_sibling_reply conf = Some False \<and> u \<noteq> AnonymousUserId")
    case True
    let ?opt = "no_opts\<lparr>o_prefix := Some (PicCommentsPrimary (Some i) None)\<rparr>"
    obtain cs where f: "FindPicComments ?opt w = (Ok cs, w')"
      and none: "\<not> list_ex (\<lambda>c. pc_parent c = parentId \<and> pc_user c = u) cs"
      using assms(1) True
      by (auto simp: sibling_check_def check_def run_simps elim!: bind_OkE split: if_splits)
    have "found (\<lambda>c. pc_pic c = i) 0 (msgs (db_comments d)) cs"
      using job_find_comments_pic [OF f assms(2), of i] by (simp add: no_opts_def)
    from found_all_set [OF this] none job_find_comments_pic(1) [OF f assms(2), of i]
    show ?thesis by (auto simp: list_ex_iff filter_empty_conv)
  qed (use assms in \<open>auto simp: sibling_check_def run_simps\<close>)
  then show "job_at ev d0 d w'"
    "c_sibling_reply conf = Some False \<longrightarrow> u \<noteq> AnonymousUserId \<longrightarrow>
       filter (\<lambda>c. pc_pic c = i \<and> pc_parent c = parentId \<and> pc_user c = u) (msgs (db_comments d)) = []"
    by blast+
qed

lemma AddPicCommentTask_effect:
  assumes "fits w" "idle w" "AddPicCommentTask cx now i parentId txt ext w = (Ok (pc, fpc), w')"
  shows "\<exists>d su conf. visit_only (w_db w) d \<and> token_user cx d su \<and> conf_of cx w = Some conf \<and>
    validateCapability su conf [PIC_COMMENT_CREATE] = Ok () \<and>
    may_extend su conf PIC_COMMENT_EXTENSION_CREATE ext = Ok () \<and>
    commented (e_text (w_env w)) conf now (subject_id su) i parentId txt ext d (w_db w') pc \<and>
    filterPicComment pc su conf = Ok fpc"
proof -
  have run: "bind (authedJobInternal cx now False) (\<lambda>u. revert (comment_body cx now i parentId txt ext u)) w =
      (Ok (pc, fpc), w')"
    using assms(3) by (simp add: AddPicCommentTask_def authedJob_def)
  obtain su w1 w2 where start: "job_at (w_env w) (w_db w1) (w_db w1) w1" "visit_only (w_db w) (w_db w1)"
    "token_user cx (w_db w1) su" "comment_body cx now i parentId txt ext su w1 = (Ok (pc, fpc), w2)"
    "w_db w' = w_db w2" "w_site w1 = w_site w"
    using add_pic_comment.succeeds [OF run assms(1,2)] by blast
  let ?d = "w_db w1"
  obtain conf txt' p w3 parent w4 w5 k w6 nowts w7 es w8 w9 where s: "conf_of cx w1 = Some conf"
    "DefaultValidateAndNormalize (e_text (w_env w1)) txt ''comment''
       (bound_or min_int64 (c_min_comment conf)) (bound_or max_int64 (c_max_comment conf)) [] = Ok txt'"
    "validateCapability su conf [PIC_COMMENT_CREATE] = Ok ()"
    "may_extend su conf PIC_COMMENT_EXTENSION_CREATE ext = Ok ()"
    "pic_to ''can't comment on deleted pic'' LockNone i w1 = (Ok p, w3)"
    "parent_comment conf (subject_id su) i parentId w3 = (Ok parent, w4)"
    "sibling_check conf (subject_id su) i parentId w4 = (Ok (), w5)"
    "AllocId w5 = (Ok k, w6)" "ToTspb now = Ok nowts" "InsertPicComment pc w6 = (Ok (), w7)"
    "collect_events (Some nowts) (Some nowts) (subject_id su) (OutgoingPicComment (p_id p) k)
       (IncomingPicComment (p_id p) k)
       (case parent of Some c \<Rightarrow> [pc_user c] | None \<Rightarrow> map fs_user (p_source p)) w7 = (Ok es, w8)"
    "store_events es w8 = (Ok (), w9)" "Commit w9 = (Ok (), w2)" "filterPicComment pc su conf = Ok fpc"
    "pc = \<lparr>pc_pic = p_id p, pc_id = k, pc_parent = parentId, pc_user = subject_id su,
       pc_text = txt', pc_up = 0, pc_down = 0, pc_created = Some nowts,
       pc_modified = Some nowts, pc_ext = ext\<rparr>"
    using start(4) unfolding comment_body_def Let_def
    by (auto simp: GetConfiguration_iff run_simps elim!: bind_OkE)
  note pic = pic_to_job [OF s(5) start(1)]
  note par = parent_comment_job [OF s(6) pic(1)]
  note sib = sibling_check_job [OF s(7) par(1)]
  have text_ok: "acceptable (bound_or min_int64 (c_min_comment conf)) (bound_or max_int64 (c_max_comment conf)) txt"
    "txt' = tl_nfc (e_text (w_env w)) txt"
    using s(2) job_at_D(3) [OF start(1)] by (simp_all add: DefaultValidateAndNormalize_Ok)
  obtain sq where sq: "job_at (w_env w) ?d (?d\<lparr>db_seq := sq\<rparr>) w6" using job_AllocId [OF s(8) sib(1)] by blast
  obtain rc where rc: "job_at (w_env w) ?d (?d\<lparr>db_seq := sq, db_comments := rc\<rparr>) w7"
    "msgs rc = msgs (db_comments ?d) @ [pc]"
    using job_insert_comments [OF s(10) sq] by auto
  have "distinct (map pc_id (msgs rc))" using comments_distinct [OF job_at_D(2) [OF rc(1)]] by simp
  then have new: "k \<notin> set (map pc_id (msgs (db_comments ?d)))" using s(15) unfolding rc(2) by simp
  note ev = collect_events_job [OF s(11) rc(1)]
  obtain re where re: "job_at (w_env w) ?d (?d\<lparr>db_seq := sq, db_comments := rc, db_events := re\<rparr>) w9"
    "msgs re = msgs (db_events ?d) @ case_option [] (\<lambda>e. [e]) (fst es) @ snd es"
    using store_events_job [OF s(12) ev(1)] by auto
  have "w_db w' = ?d\<lparr>db_seq := sq, db_comments := rc, db_events := re\<rparr>"
    using Commit_job [OF s(13) re(1)] start(5) by simp
  then have "commented (e_text (w_env w)) conf now (subject_id su) i parentId txt ext ?d (w_db w') pc"
    unfolding commented_def may_reply_def
    using pic s(9,15) text_ok new par(2) sib(2) rc(2) re(2) ev(2)
      events_of_cong [of "?d\<lparr>db_seq := sq, db_comments := rc\<rparr>" ?d]
    by (intro exI [of _ p] exI [of _ nowts] exI [of _ k] exI [of _ parent]
        exI [of _ "case_option [] (\<lambda>e. [e]) (fst es) @ snd es"]) simp
  moreover have "conf_of cx w = Some conf" using s(1) conf_of_site [OF start(6)] by simp
  ultimately show ?thesis using start(2,3) s(3,4,14) by blast
qed

text \<open>C31. A comment that is accepted has a text within the bounds of the configuration, answers a
  comment of the same picture or none, keeps the rules on answering oneself and on answering
  twice, and carries an id no other comment has. It is stored as it was checked; its author
  and the author of the answered comment, or else each uploader, are told exactly once; no
  other row changes.\<close>

theorem AddPicCommentTask_comments:
  assumes "fits w" "idle w" "AddPicCommentTask cx now i parentId txt ext w = (Ok (pc, fpc), w')"
  shows "\<exists>d su conf. visit_only (w_db w) d \<and> token_user cx d su \<and> conf_of cx w = Some conf \<and>
    validateCapability su conf [PIC_COMMENT_CREATE] = Ok () \<and>
    may_extend su conf PIC_COMMENT_EXTENSION_CREATE ext = Ok () \<and>
    commented (e_text (w_env w)) conf now (subject_id su) i parentId txt ext d (w_db w') pc \<and>
    filterPicComment pc su conf = Ok fpc"
  by (rule AddPicCommentTask_effect [OF assms])

subsection \<open>Voting for a comment\<close>

definition comment_voted :: "int \<Rightarrow> int \<Rightarrow> int \<Rightarrow> int \<Rightarrow> int \<Rightarrow> extmap \<Rightarrow> database \<Rightarrow> database \<Rightarrow>
    pic_comment_vote \<Rightarrow> bool" where
  "comment_voted now userId i j vote ext d d' pcv \<longleftrightarrow>
     (\<exists>p nowts k. the_pic d i p \<and> \<not> HardDeleted p \<and> ToTspb now = Ok nowts \<and>
       length (filter (\<lambda>c. pc_pic c = i \<and> pc_id c = j) (msgs (db_comments d))) = 1 \<and>
       pcv = \<lparr>pcv_pic = i, pcv_comment = j, pcv_user = userId, pcv_index = k, pcv_vote = vote,
         pcv_created = Some nowts, pcv_modified = Some nowts, pcv_ext = ext\<rparr> \<and>
       new_number userId (map pcv_index (filter (\<lambda>v. pcv_pic v = i \<and> pcv_comment v = j \<and>
         pcv_user v = userId) (msgs (db_cvotes d)))) k \<and>
       d' = d\<lparr>db_comments := db_comments d', db_cvotes := db_cvotes d'\<rparr> \<and>
       msgs (db_cvotes d') = msgs (db_cvotes d) @ [pcv] \<and>
       msgs (db_comments d') = map (\<lambda>q. if pc_pic q = i \<and> pc_id q = j
         then count_comment_vote vote nowts q else q) (msgs (db_comments d)))"

lemma comment_vote_update_job:
  assumes "(if counted_vote vote then wrap_err f (UpdatePicComment (count_comment_vote vote ts c))
      else ret ()) w = (Ok x, w')"
    "job_at ev d0 d w" "filter (\<lambda>c. pc_pic c = i \<and> pc_id c = j) (msgs (db_comments d)) = [c]"
  obtains rows where "job_at ev d0 (d\<lparr>db_comments := rows\<rparr>) w'"
    "msgs rows = map (\<lambda>q. if pc_pic q = i \<and> pc_id q = j then count_comment_vote vote ts q else q)
       (msgs (db_comments d))"
proof -
  let ?K = "\<lambda>q. pc_pic q = i \<and> pc_id q = j"
  have "set (filter ?K (msgs (db_comments d))) = {c}" unfolding assms(3) by simp
  then have same: "q = c" if "q \<in> set (msgs (db_comments d))" "?K q" for q using that by auto
  have "c \<in> set (filter ?K (msgs (db_comments d)))" unfolding assms(3) by simp
  then have key: "?K c" by simp
  have ids: "pc_pic (count_comment_vote vote ts c) = i" "pc_id (count_comment_vote vote ts c) = j"
    using key by (simp_all add: count_comment_vote_def)
  show thesis
  proof (cases "counted_vote vote")
    case True
    then have up: "UpdatePicComment (count_comment_vote vote ts c) w = (Ok (), w')" using assms(1) by simp
    obtain rows where r: "job_at ev d0 (d\<lparr>db_comments := rows\<rparr>) w'"
      "msgs rows = map (\<lambda>q. if pc_pic q = i \<and> pc_id q = j then count_comment_vote vote ts c else q)
         (msgs (db_comments d))"
      using job_update_comments [OF up assms(2)] unfolding ids by blast
    have "msgs rows = map (\<lambda>q. if ?K q then count_comment_vote vote ts q else q) (msgs (db_comments d))"
      unfolding r(2)
    proof (rule map_cong [OF refl])
      fix q
      assume "q \<in> set (msgs (db_comments d))"
      then have "?K q \<Longrightarrow> q = c" by (rule same)
      then show "(if ?K q then count_comment_vote vote ts c else q) =
          (if ?K q then count_comment_vote vote ts q else q)"
        by (cases "?K q") (simp_all only: if_True if_not_P if_False simp_thms)
    qed
    with r(1) that show thesis by blast
  next
    case False
    then have none: "count_comment_vote vote ts q = q" for q by (simp add: count_comment_vote_def counted_vote_def)
    have "msgs (db_comments d) = map (\<lambda>q. if ?K q then count_comment_vote vote ts q else q) (msgs (db_comments d))"
      unfolding none by (simp only: if_cancel list.map_ident)
    then show thesis using that [of "db_comments d"] False assms(1,2) by (simp add: run_simps)
  qed
qed

lemma AddPicCommentVoteTask_effect:
  assumes "fits w" "idle w" "AddPicCommentVoteTask cx now i j vote ext w = (Ok pcv, w')"
  shows "\<exists>d su conf. visit_only (w_db w) d \<and> token_user cx d su \<and> conf_of cx w = Some conf \<and>
    validateCapability su conf [PIC_COMMENT_VOTE_CREATE] = Ok () \<and>
    may_extend su conf PIC_COMMENT_VOTE_EXTENSION_CREATE ext = Ok () \<and> known_vote vote \<and>
    comment_voted now (subject_id su) i j vote ext d (w_db w') pcv"
proof -
  have run: "bind (authedJobInternal cx now False) (\<lambda>u. revert (comment_vote_body cx now i j vote ext u)) w =
      (Ok pcv, w')"
    using assms(3) by (simp add: AddPicCommentVoteTask_def authedJob_def)
  obtain su w1 w2 where start: "job_at (w_env w) (w_db w1) (w_db w1) w1" "visit_only (w_db w) (w_db w1)"
    "token_user cx (w_db w1) su" "comment_vote_body cx now i j vote ext su w1 = (Ok pcv, w2)"
    "w_db w' = w_db w2" "w_site w1 = w_site w"
    using add_comment_vote.succeeds [OF run assms(1,2)] by blast
  let ?d = "w_db w1"
  let ?copt = "no_opts\<lparr>o_prefix := Some (PicCommentsPrimary (Some i) (Some j)), o_lock := LockWrite\<rparr>"
  let ?vopt = "no_opts\<lparr>o_prefix := Some (PicCommentVotesPrimary (Some i) (Some j)
    (Some (subject_id su)) None), o_lock := LockWrite\<rparr>"
  obtain conf p w3 c w4 pcvs w5 k nowts w6 w7 where s: "known_vote vote" "conf_of cx w1 = Some conf"
    "validateCapability su conf [PIC_COMMENT_VOTE_CREATE] = Ok ()"
    "may_extend su conf PIC_COMMENT_VOTE_EXTENSION_CREATE ext = Ok ()"
    "pic_to ''can't vote on deleted pic'' LockNone i w1 = (Ok p, w3)"
    "FindPicComments ?copt w3 = (Ok [c], w4)" "FindPicCommentVotes ?vopt w4 = (Ok pcvs, w5)"
    "vote_index ''overflow of pic comment vote index'' (subject_id su) (map pcv_index pcvs) = Ok k"
    "ToTspb now = Ok nowts" "InsertPicCommentVote pcv w5 = (Ok (), w6)"
    "(if counted_vote vote then wrap_err (\<lambda>e. Internal e ''can't update comment'')
        (UpdatePicComment (count_comment_vote vote nowts c)) else ret ()) w6 = (Ok (), w7)"
    "Commit w7 = (Ok (), w2)"
    "pcv = \<lparr>pcv_pic = p_id p, pcv_comment = pc_id c, pcv_user = subject_id su, pcv_index = k,
       pcv_vote = vote, pcv_created = Some nowts, pcv_modified = Some nowts, pcv_ext = ext\<rparr>"
    using start(4) unfolding comment_vote_body_def Let_def
    by (auto simp: GetConfiguration_iff check_def run_simps elim!: bind_OkE split: list.splits if_splits)
  note pic = pic_to_job [OF s(5) start(1)]
  note com = job_find_comments_key [OF s(6) pic(1), of i j]
  have "found (\<lambda>c. pc_pic c = i \<and> pc_id c = j) 0 (msgs (db_comments ?d)) [c]"
    using com(2) by (simp add: no_opts_def)
  note one = found_one [OF this]
  have job4: "job_at (w_env w) ?d ?d w4" using com(1) by simp
  note vs = job_find_cvotes_user [OF s(7) job4, of i j "subject_id su"]
  have "found (\<lambda>v. pcv_pic v = i \<and> pcv_comment v = j \<and> pcv_user v = subject_id su) 0 (msgs (db_cvotes ?d)) pcvs"
    using vs(2) by (simp add: no_opts_def)
  then have "mset (map pcv_index pcvs) = mset (map pcv_index (filter (\<lambda>v. pcv_pic v = i \<and>
      pcv_comment v = j \<and> pcv_user v = subject_id su) (msgs (db_cvotes ?d))))"
    unfolding mset_map by (simp only: found_all)
  note number = vote_index_Ok [OF s(8) this]
  have job5: "job_at (w_env w) ?d ?d w5" using vs(1) by simp
  obtain rv where rv: "job_at (w_env w) ?d (?d\<lparr>db_cvotes := rv\<rparr>) w6" "msgs rv = msgs (db_cvotes ?d) @ [pcv]"
    using job_insert_cvotes [OF s(10) job5] by blast
  obtain rc where rc: "job_at (w_env w) ?d (?d\<lparr>db_cvotes := rv, db_comments := rc\<rparr>) w7"
    "msgs rc = map (\<lambda>q. if pc_pic q = i \<and> pc_id q = j then count_comment_vote vote nowts q else q)
       (msgs (db_comments ?d))"
    using comment_vote_update_job [OF s(11) rv(1), of i j] one by auto
  have "w_db w' = ?d\<lparr>db_cvotes := rv, db_comments := rc\<rparr>"
    using Commit_job [OF s(12) rc(1)] start(5) by simp
  moreover have "c \<in> set (filter (\<lambda>c. pc_pic c = i \<and> pc_id c = j) (msgs (db_comments ?d)))"
    unfolding one by simp
  then have "pc_id c = j" by simp
  ultimately have "comment_voted now (subject_id su) i j vote ext ?d (w_db w') pcv"
    unfolding comment_voted_def using pic s(9,13) number rv(2) rc(2) one
    by (intro exI [of _ p] exI [of _ nowts] exI [of _ k]) simp
  moreover have "conf_of cx w = Some conf" using s(2) conf_of_site [OF start(6)] by simp
  ultimately show ?thesis using start(2,3) s(1,3,4) by blast
qed

text \<open>A vote for a comment that is accepted comes from a user who may vote, for a comment that
  is there, on a picture that is there and not hard-deleted; it is stored once under the number
  a new vote of that user gets, the counts of the comment follow it, and no other row changes.\<close>

theorem AddPicCommentVoteTask_votes:
  assumes "fits w" "idle w" "AddPicCommentVoteTask cx now i j vote ext w = (Ok pcv, w')"
  shows "\<exists>d su conf. visit_only (w_db w) d \<and> token_user cx d su \<and> conf_of cx w = Some conf \<and>
    validateCapability su conf [PIC_COMMENT_VOTE_CREATE] = Ok () \<and>
    may_extend su conf PIC_COMMENT_VOTE_EXTENSION_CREATE ext = Ok () \<and> known_vote vote \<and>
    comment_voted now (subject_id su) i j vote ext d (w_db w') pcv"
  by (rule AddPicCommentVoteTask_effect [OF assms])

end
