(* ===== verification/Tally.thy ===== *)
theory Tally
  imports VoteFacts PurgeFacts
begin

section \<open>The counts of a picture are the sums of its votes\<close>

text \<open>
  pixur.proto calls \<open>vote_up\<close> and \<open>vote_down\<close> the denormalized sums of the votes. The tasks on
  pictures keep them so, whatever the order they run in: a step relation collects the
  successful runs of the tasks, and the sums are invariant along it.
\<close>

definition votes_for :: "database \<Rightarrow> int \<Rightarrow> int \<Rightarrow> int" where
  "votes_for d i vote = int (length (filter (\<lambda>v. pv_pic v = i \<and> pv_vote v = vote) (msgs (db_votes d))))"

definition tally :: "database \<Rightarrow> bool" where
  "tally d \<longleftrightarrow> (\<forall>p \<in> set (msgs (db_pics d)).
       p_up p = wrap64 (votes_for d (p_id p) Vote_UP) \<and> p_down p = wrap64 (votes_for d (p_id p) Vote_DOWN)) \<and>
     (\<forall>v \<in> set (msgs (db_votes d)). pv_pic v \<in> p_id ` set (msgs (db_pics d)))"

text \<open>A task on pictures has run and reported success.\<close>

inductive pic_step :: "world \<Rightarrow> world \<Rightarrow> bool" where
  vote: "AddPicVoteTask cx now i v ext w = (Ok x, w') \<Longrightarrow> pic_step w w'"
| comment: "AddPicCommentTask cx now i j t ext w = (Ok y, w') \<Longrightarrow> pic_step w w'"
| comment_vote: "AddPicCommentVoteTask cx now i j v ext w = (Ok z, w') \<Longrightarrow> pic_step w w'"
| view: "IncrementViewCountTask cx now i w = (Ok (), w') \<Longrightarrow> pic_step w w'"
| soft: "SoftDeletePicTask cx now i pend reason details tmp w = (Ok (), w') \<Longrightarrow> pic_step w w'"
| hard: "HardDeletePicTask cx now root i w = (Ok (), w') \<Longrightarrow> pic_step w w'"
| purge: "PurgePicTask cx now root i w = (Ok (), w') \<Longrightarrow> pic_step w w'"

subsection \<open>Each task keeps the sums\<close>

lemma wrap64_Suc: "wrap64 (wrap64 a + 1) = wrap64 (a + 1)"
proof -
  have "(wrap64 a + 1 + 9223372036854775808) mod 18446744073709551616 =
      (a + 1 + 9223372036854775808) mod 18446744073709551616"
    unfolding wrap64_def by (simp add: mod_simps algebra_simps)
  then show ?thesis by (simp add: wrap64_def)
qed

lemma tally_same:
  assumes "tally d" "msgs (db_votes d') = msgs (db_votes d)"
    "map (\<lambda>p. (p_id p, p_up p, p_down p)) (msgs (db_pics d')) =
     map (\<lambda>p. (p_id p, p_up p, p_down p)) (msgs (db_pics d))"
  shows "tally d'"
proof -
  let ?f = "\<lambda>p. (p_id p, p_up p, p_down p)"
  have img: "?f ` set (msgs (db_pics d')) = ?f ` set (msgs (db_pics d))"
    using arg_cong [where f = set, OF assms(3)] by (simp only: set_map)
  have votes: "votes_for d' = votes_for d" using assms(2) by (simp add: votes_for_def fun_eq_iff)
  have pics: "p_up p = wrap64 (votes_for d' (p_id p) Vote_UP) \<and> p_down p = wrap64 (votes_for d' (p_id p) Vote_DOWN)"
    if "p \<in> set (msgs (db_pics d'))" for p
  proof -
    have "?f p \<in> ?f ` set (msgs (db_pics d))" unfolding img [symmetric] using that by blast
    then obtain q where "q \<in> set (msgs (db_pics d))" "?f q = ?f p" by auto
    then show ?thesis using assms(1) unfolding votes by (auto simp: tally_def)
  qed
  have "p_id ` set (msgs (db_pics d')) = fst ` (?f ` set (msgs (db_pics d')))" by (simp add: image_comp comp_def)
  also have "\<dots> = p_id ` set (msgs (db_pics d))" unfolding img by (simp add: image_comp comp_def)
  finally show ?thesis using pics assms(1,2) by (simp add: tally_def)
qed

lemma tally_visits: "visit_only d d' \<Longrightarrow> tally d \<Longrightarrow> tally d'"
  by (rule tally_same) (auto simp: visit_only_def same_rows_def)

lemma tally_pic_changed:
  assumes "tally d" "pic_changed d d' p'" "the_pic d i p" "p_id p' = i" "p_up p' = p_up p" "p_down p' = p_down p"
  shows "tally d'"
proof (rule tally_same [OF assms(1)])
  have frame: "d' = d\<lparr>db_pics := db_pics d'\<rparr>" using assms(2) by (simp add: pic_changed_def)
  show "msgs (db_votes d') = msgs (db_votes d)" by (subst frame) simp
  have pics: "msgs (db_pics d') = map (\<lambda>q. if p_id q = p_id p' then p' else q) (msgs (db_pics d))"
    using assms(2) by (simp add: pic_changed_def)
  show "map (\<lambda>p. (p_id p, p_up p, p_down p)) (msgs (db_pics d')) =
      map (\<lambda>p. (p_id p, p_up p, p_down p)) (msgs (db_pics d))"
    unfolding pics map_map
  proof (rule map_cong [OF refl])
    fix q
    assume "q \<in> set (msgs (db_pics d))"
    then have "p_id q = i \<Longrightarrow> q = p" by (rule the_pic_unique [OF assms(3)])
    then show "((\<lambda>p. (p_id p, p_up p, p_down p)) \<circ> (\<lambda>q. if p_id q = p_id p' then p' else q)) q =
        (p_id q, p_up q, p_down q)"
      using assms(4-6) by (cases "p_id q = i") simp_all
  qed
qed

lemma tally_voted:
  assumes "tally d" "voted now u i vote ext d d' pv"
  shows "tally d'"
proof -
  obtain p nowts k where w: "the_pic d i p" "pv = \<lparr>pv_pic = i, pv_user = u, pv_index = k, pv_vote = vote,
       pv_created = Some nowts, pv_modified = Some nowts, pv_ext = ext\<rparr>"
    "msgs (db_votes d') = msgs (db_votes d) @ [pv]"
    "msgs (db_pics d') = map (\<lambda>q. if p_id q = i then count_vote vote nowts q else q) (msgs (db_pics d))"
    using assms(2) unfolding voted_def by blast
  have v: "the_pic d i p" "pv_pic pv = i" "pv_vote pv = vote"
    "msgs (db_votes d') = msgs (db_votes d) @ [pv]"
    "msgs (db_pics d') = map (\<lambda>q. if p_id q = i then count_vote vote nowts q else q) (msgs (db_pics d))"
    using w(1,3,4) by (simp_all add: w(2))
  have sums: "votes_for d' j x = votes_for d j x + (if j = i \<and> x = vote then 1 else 0)" for j x
    using v(2-4) by (auto simp: votes_for_def)
  have ids: "p_id ` set (msgs (db_pics d')) = p_id ` set (msgs (db_pics d))"
    unfolding v(5) set_map image_image by (rule image_cong) (simp_all add: count_vote_id)
  have "i \<in> p_id ` set (msgs (db_pics d))" using the_pic_id [OF v(1)] by auto
  then have known: "pv_pic x \<in> p_id ` set (msgs (db_pics d'))" if "x \<in> set (msgs (db_votes d'))" for x
    using that assms(1) v(2,4) unfolding ids by (auto simp: tally_def)
  have "p_up r = wrap64 (votes_for d' (p_id r) Vote_UP) \<and> p_down r = wrap64 (votes_for d' (p_id r) Vote_DOWN)"
    if r: "r \<in> set (msgs (db_pics d'))" for r
  proof -
    obtain q where q: "q \<in> set (msgs (db_pics d))" "r = (if p_id q = i then count_vote vote nowts q else q)"
      using r unfolding v(5) by auto
    then have "p_up q = wrap64 (votes_for d (p_id q) Vote_UP)" "p_down q = wrap64 (votes_for d (p_id q) Vote_DOWN)"
      using assms(1) by (simp_all add: tally_def)
    then show ?thesis
      using q(2) by (auto simp: sums count_vote_def wrap64_Suc Vote_UP_def Vote_DOWN_def)
  qed
  with known show ?thesis unfolding tally_def by blast
qed

lemma tally_purged:
  assumes "tally d" "purged now i d d'"
  shows "tally d'"
proof -
  have p: "msgs (db_pics d') = filter (\<lambda>q. p_id q \<noteq> i) (msgs (db_pics d))"
    and v: "msgs (db_votes d') = filter (\<lambda>q. pv_pic q \<noteq> i) (msgs (db_votes d))"
    using assms(2) by (simp_all add: purged_def)
  have "votes_for d' j x = votes_for d j x" if "j \<noteq> i" for j x
    using that unfolding votes_for_def v filter_filter by (metis (mono_tags, lifting))
  then show ?thesis using assms(1) by (auto simp: tally_def p v)
qed

lemma pic_step_tally:
  assumes "pic_step w w'" "fits w" "idle w" "tally (w_db w)"
  shows "tally (w_db w')"
  using assms(1)
proof cases
  case (vote cx now i v ext x)
  obtain pv fpv where x: "x = (pv, fpv)" by fastforce
  obtain d su where "visit_only (w_db w) d" "voted now (subject_id su) i v ext d (w_db w') pv"
    using AddPicVoteTask_effect [OF assms(2,3) vote [unfolded x]] by blast
  then show ?thesis using tally_voted tally_visits assms(4) by blast
next
  case (comment cx now i j t ext y)
  obtain pc fpc where y: "y = (pc, fpc)" by fastforce
  obtain d su conf where d: "visit_only (w_db w) d"
    "commented (e_text (w_env w)) conf now (subject_id su) i j t ext d (w_db w') pc"
    using AddPicCommentTask_effect [OF assms(2,3) comment [unfolded y]] by blast
  have "w_db w' = d\<lparr>db_seq := db_seq (w_db w'), db_comments := db_comments (w_db w'),
      db_events := db_events (w_db w')\<rparr>"
    using d(2) unfolding commented_def by (elim exE conjE)
  note frame = arg_cong [where f = db_votes, OF this] arg_cong [where f = db_pics, OF this]
  have "db_votes (w_db w') = db_votes d" "db_pics (w_db w') = db_pics d" using frame by simp_all
  then show ?thesis using tally_same [of d] tally_visits [OF d(1) assms(4)] by simp
next
  case (comment_vote cx now i j v ext z)
  obtain d su where d: "visit_only (w_db w) d" "comment_voted now (subject_id su) i j v ext d (w_db w') z"
    using AddPicCommentVoteTask_effect [OF assms(2,3) comment_vote] by blast
  have "w_db w' = d\<lparr>db_comments := db_comments (w_db w'), db_cvotes := db_cvotes (w_db w')\<rparr>"
    using d(2) unfolding comment_voted_def by (elim exE conjE)
  note frame = arg_cong [where f = db_votes, OF this] arg_cong [where f = db_pics, OF this]
  have "db_votes (w_db w') = db_votes d" "db_pics (w_db w') = db_pics d" using frame by simp_all
  then show ?thesis using tally_same [of d] tally_visits [OF d(1) assms(4)] by simp
next
  case (view cx now i)
  obtain d p nowts where d: "visit_only (w_db w) d" "the_pic d i p"
    "pic_changed d (w_db w') (p\<lparr>p_views := wrap64 (p_views p + 1), p_modified := Some nowts\<rparr>)"
    using IncrementViewCountTask_effect [OF assms(2,3) view] by blast
  show ?thesis
    using tally_pic_changed [OF tally_visits [OF d(1) assms(4)] d(3,2)] the_pic_id [OF d(2)] by simp
next
  case (soft cx now i pend reason details tmp)
  obtain d p p' where d: "visit_only (w_db w) d" "the_pic d i p" "pic_changed d (w_db w') p'" "p_id p' = i"
    "p' = p\<lparr>p_del := p_del p', p_modified := p_modified p'\<rparr>"
    using SoftDeletePicTask_effect [OF assms(2,3) soft] by blast
  have "p_up p' = p_up p" "p_down p' = p_down p" by (subst d(5); simp)+
  then show ?thesis by (rule tally_pic_changed [OF tally_visits [OF d(1) assms(4)] d(3,2,4)])
next
  case (hard cx now root i)
  obtain d p p' where d: "visit_only (w_db w) d" "the_pic d i p" "pic_changed d (w_db w') p'" "p_id p' = i"
    "p' = p\<lparr>p_del := p_del p', p_modified := p_modified p', p_thumb := []\<rparr>"
    using HardDeletePicTask_effect [OF assms(2,3) hard] by blast
  have "p_up p' = p_up p" "p_down p' = p_down p" by (subst d(5); simp)+
  then show ?thesis by (rule tally_pic_changed [OF tally_visits [OF d(1) assms(4)] d(3,2,4)])
next
  case (purge cx now root i)
  obtain d where "visit_only (w_db w) d" "purged now i d (w_db w')"
    using PurgePicTask_effect [OF assms(2,3) purge] by blast
  then show ?thesis using tally_purged tally_visits assms(4) by blast
qed

lemma pic_step_closes:
  assumes "pic_step w w'" "fits w" "idle w"
  shows "fits w' \<and> idle w'"
  using assms(1)
proof cases
  case (vote cx now i v ext x)
  then have "bind (authedJobInternal cx now False) (\<lambda>u. revert (vote_body cx now i v ext u)) w = (Ok x, w')"
    by (simp add: AddPicVoteTask_def authedJob_def run_simps split: if_splits)
  from add_pic_vote.closes [OF this assms(2,3)] show ?thesis by simp
next
  case (comment cx now i j t ext y)
  from add_pic_comment.closes [OF this [unfolded AddPicCommentTask_def authedJob_def] assms(2,3)]
  show ?thesis by simp
next
  case (comment_vote cx now i j v ext z)
  from add_comment_vote.closes [OF this [unfolded AddPicCommentVoteTask_def authedJob_def] assms(2,3)]
  show ?thesis by simp
next
  case (view cx now i)
  from increment.closes [OF this [unfolded IncrementViewCountTask_def authedJob_def] assms(2,3)]
  show ?thesis by simp
next
  case (soft cx now i pend reason details tmp)
  then have "bind (authedJobInternal cx now False)
      (\<lambda>u. revert (soft_delete_body cx now i pend reason details tmp u)) w = (Ok (), w')"
    by (simp add: SoftDeletePicTask_def authedJob_def run_simps split: if_splits)
  from soft_delete.closes [OF this assms(2,3)] show ?thesis by simp
next
  case (hard cx now root i)
  from hard_delete.closes [OF this [unfolded HardDeletePicTask_def authedJob_def] assms(2,3)]
  show ?thesis by simp
next
  case (purge cx now root i)
  from purge.closes [OF this [unfolded PurgePicTask_def authedJob_def] assms(2,3)] show ?thesis by simp
qed

text \<open>C1. Along every sequence of successful votes, comments, views, deletions and purges, the
  up and down counts of every picture stay the numbers of its up and down votes, and no vote
  outlives its picture.\<close>

theorem pictures_keep_their_tally:
  assumes "fits w" "idle w" "tally (w_db w)" "pic_step\<^sup>*\<^sup>* w w'"
  shows "tally (w_db w') \<and> fits w' \<and> idle w'"
  using assms(4)
proof (induction rule: rtranclp_induct)
  case base
  show ?case using assms(1-3) by simp
next
  case (step y z)
  then show ?case using pic_step_tally pic_step_closes by blast
qed

end
