(* ===== verification/VoteRuns.thy ===== *)
theory VoteRuns
  imports PicRuns Tally
begin

section \<open>Votes and comments, run on the small database\<close>

text \<open>
  Each task on votes and comments is run once, and the properties are applied to the runs.
\<close>

lemma vote_cat: "pic_to m lk 3 (work False start_db n al) = (Ok cat_pic, work False start_db (Suc n) al)"
  by (simp add: pic_to_def bind_run find_run work_find start_db_sels check_def cat_pic_def HardDeleted_def)

lemma alice_subject: "subject_id (Some alice) = 7"
  by (simp add: subject_id_def alice_def)

lemma ts2_col: "UserEventCreatedTsCol (Some \<lparr>ts_seconds = 2000, ts_nanos = 0\<rparr>) = Ok 2000000000000"
  by (simp add: UserEventCreatedTsCol_def order_run)

lemma no_events: "db_events d = [] \<Longrightarrow> nextUserEventIndex u ts (work False d n al) =
    (Ok 0, work False d (Suc n) al)"
  by (simp add: nextUserEventIndex_def bind_run find_run work_find next_index_def)

lemma insert_event:
  assumes "ue_created e = Some \<lparr>ts_seconds = 2000, ts_nanos = 0\<rparr>"
    "\<not> list_ex (same_cols [''user_id'', ''created_ts'', ''index''] [''user_id'', ''created_ts'', ''index'']
       (row [SInt (ue_user e), SInt 2000000000000, SInt (ue_index e)] e)) (db_events d)"
  shows "InsertUserEvent e (work False d n al) =
    (Ok (), work False (d\<lparr>db_events := db_events d @ [row [SInt (ue_user e), SInt 2000000000000,
      SInt (ue_index e)] e]\<rparr>) (Suc n) al)"
proof -
  have vals: "tb_vals events_table calm_env e = Ok [SInt (ue_user e), SInt 2000000000000, SInt (ue_index e)]"
    using assms(1) ts2_col by (simp add: tables_vals)
  show ?thesis unfolding InsertUserEvent_def
    by (subst work_insert [OF vals]) (use assms(2) in \<open>simp_all add: table_sels insert_defs violates_def row_def\<close>)
qed

lemma no_votes: "FindPicVotes (no_opts\<lparr>o_prefix := Some (PicVotesPrimary (Some 3) (Some 7) None), o_lock := LockWrite\<rparr>)
    (work False start_db n al) = (Ok [], work False start_db (Suc n) al)"
  by (simp add: find_run work_find start_db_sels)

lemma insert_vote:
  assumes "pv_pic v = 3" "pv_user v = 7" "pv_index v = 0"
  shows "InsertPicVote v (work False start_db n al) =
    (Ok (), work False (start_db\<lparr>db_votes := [row [SInt 3, SInt 7, SInt 0] v]\<rparr>) (Suc n) al)"
proof -
  have vals: "tb_vals votes_table calm_env v = Ok [SInt 3, SInt 7, SInt 0]"
    using assms by (simp add: tables_vals)
  show ?thesis unfolding InsertPicVote_def
    by (subst work_insert [OF vals]) (simp_all add: write_run start_db_sels)
qed

lemma vote_demo: "\<exists>pv fpv w'. AddPicVoteTask as_alice now0 3 Vote_UP [] demo = (Ok (pv, fpv), w')"
proof -
  let ?ts = "\<lparr>ts_seconds = 2000, ts_nanos = 0\<rparr>"
  let ?v = "\<lparr>pv_pic = 3, pv_user = 7, pv_index = 0, pv_vote = Vote_UP, pv_created = Some ?ts,
      pv_modified = Some ?ts, pv_ext = []\<rparr>"
  let ?d = "start_db\<lparr>db_votes := [row [SInt 3, SInt 7, SInt 0] ?v]\<rparr>"
  have p: "p_id (count_vote Vote_UP ?ts cat_pic) = 3" "IndexOrder (count_vote Vote_UP ?ts cat_pic) = Ok 1000000000000"
    using cat_order by (simp_all add: cat_id count_vote_def IndexOrder_def isHidden_def HardDeleted_def
        NonHiddenIndexOrder_def cat_unmarked)
  obtain rows where up: "UpdatePic (count_vote Vote_UP ?ts cat_pic) (work False ?d n al) =
      (Ok (), work False (?d\<lparr>db_pics := rows\<rparr>) (Suc n) al)" for n al
    using update_cat_in [OF p, of ?d] by auto
  have src: "map fs_user (p_source cat_pic) = [9]" by (simp add: cat_pic_def)
  show ?thesis
    by (simp add: AddPicVoteTask_def known_vote_def run_alice bind_run revert_def deferred_def vote_body_def
       alice_conf alice_may vote_cat may_extend_def alice_subject no_votes vote_index_def AnonymousUserId_def
       cat_id insert_vote up counted_vote_def Let_def collect_events_def ts2_col no_events src
       store_events_def insert_event start_db_sels same_cols_def col_of_def
       work_Commit committed_Rollback filterPicVote_def userCredOf_def)
qed

lemma good_text: "DefaultValidateAndNormalize plain_textlib ''a'' ''comment'' 1 16384 [] = Ok ''a''"
  unfolding DefaultValidateAndNormalize_Ok
  by (simp add: acceptable_def letter_runes letter_ok plain_textlib_def notAllowedRange_def
      notallowed_cc_def private_use_def surrogate_def noncharacter_def)

lemma bob_sels: "pc_user bob_comment = 9" "pc_parent bob_comment = 0" "pc_id bob_comment = 4"
  "pc_pic bob_comment = 3"
  by (simp_all add: bob_comment_def)

lemma find_bob: "FindPicComments (no_opts\<lparr>o_prefix := Some (PicCommentsPrimary (Some 3) (Some 4)), o_lock := lk\<rparr>)
    (work False start_db n al) = (Ok [bob_comment], work False start_db (Suc n) al)"
  "FindPicComments (no_opts\<lparr>o_prefix := Some (PicCommentsPrimary (Some 3) (Some 4))\<rparr>)
    (work False start_db n al) = (Ok [bob_comment], work False start_db (Suc n) al)"
  "FindPicComments (no_opts\<lparr>o_prefix := Some (PicCommentsPrimary (Some 3) None)\<rparr>)
    (work False start_db n al) = (Ok [bob_comment], work False start_db (Suc n) al)"
  by (simp_all add: find_run work_find start_db_sels)

lemma insert_comment:
  assumes "pc_pic c = 3" "pc_id c = 100"
  shows "InsertPicComment c (work False start_db n al) =
    (Ok (), work False (start_db\<lparr>db_comments := [row [SInt 3, SInt 4] bob_comment, row [SInt 3, SInt 100] c]\<rparr>)
      (Suc n) al)"
proof -
  have vals: "tb_vals comments_table calm_env c = Ok [SInt 3, SInt 100]"
    using assms by (simp add: tables_vals)
  show ?thesis unfolding InsertPicComment_def
    by (subst work_insert [OF vals]) (simp_all add: write_run start_db_sels)
qed

lemma comment_demo: "\<exists>pc fpc w'. AddPicCommentTask as_alice now0 3 4 ''a'' [] demo = (Ok (pc, fpc), w')"
  by (simp add: AddPicCommentTask_def run_alice bind_run revert_def deferred_def comment_body_def
      alice_conf alice_may vote_cat may_extend_def alice_subject AnonymousUserId_def cat_id Let_def
      demo_sels good_text defaultConfiguration_def bound_or_def parent_comment_def sibling_check_def
      find_bob bob_sels check_def work_AllocId insert_comment collect_events_def ts2_col no_events
      store_events_def insert_event start_db_sels same_cols_def col_of_def work_Commit
      committed_Rollback filterPicComment_def userCredOf_def)

lemma insert_cvote:
  assumes "pcv_pic v = 3" "pcv_comment v = 4" "pcv_user v = 7" "pcv_index v = 0"
  shows "InsertPicCommentVote v (work False start_db n al) =
    (Ok (), work False (start_db\<lparr>db_cvotes := [row [SInt 3, SInt 4, SInt 7, SInt 0] v]\<rparr>) (Suc n) al)"
proof -
  have vals: "tb_vals cvotes_table calm_env v = Ok [SInt 3, SInt 4, SInt 7, SInt 0]"
    using assms by (simp add: tables_vals)
  show ?thesis unfolding InsertPicCommentVote_def
    by (subst work_insert [OF vals]) (simp_all add: write_run start_db_sels)
qed

lemma update_bob:
  assumes "pc_pic c = 3" "pc_id c = 4" "db_comments d = db_comments start_db"
  shows "UpdatePicComment c (work False d n al) =
    (Ok (), work False (d\<lparr>db_comments := [row [SInt 3, SInt 4] c]\<rparr>) (Suc n) al)"
proof -
  have vals: "tb_vals comments_table calm_env c = Ok [SInt 3, SInt 4]"
    using assms by (simp add: tables_vals)
  show ?thesis using assms unfolding UpdatePicComment_def
    by (subst work_update [OF vals]) (simp_all add: write_run start_db_sels, simp)
qed

lemma comment_vote_demo: "\<exists>v w'. AddPicCommentVoteTask as_alice now0 3 4 Vote_DOWN [] demo = (Ok v, w')"
  by (simp add: AddPicCommentVoteTask_def run_alice bind_run revert_def deferred_def comment_vote_body_def
      alice_conf alice_may vote_cat may_extend_def alice_subject AnonymousUserId_def cat_id Let_def
      known_vote_def check_def find_bob bob_sels find_run work_find start_db_sels vote_index_def
      insert_cvote counted_vote_def count_comment_vote_def Vote_UP_def Vote_DOWN_def update_bob work_Commit committed_Rollback)

subsection \<open>The properties at these runs\<close>


theorem AddPicCommentTask_comments_witness:
  "\<exists>pc fpc w' d su conf. AddPicCommentTask as_alice now0 3 4 ''a'' [] demo = (Ok (pc, fpc), w') \<and>
     commented plain_textlib conf now0 (subject_id su) 3 4 ''a'' [] d (w_db w') pc"
proof -
  obtain pc fpc w' where run: "AddPicCommentTask as_alice now0 3 4 ''a'' [] demo = (Ok (pc, fpc), w')"
    using comment_demo by blast
  from AddPicCommentTask_comments [OF demo_fits demo_idle run] run show ?thesis
    unfolding demo_sels by blast
qed

theorem AddPicCommentVoteTask_votes_witness:
  "\<exists>v w' d su. AddPicCommentVoteTask as_alice now0 3 4 Vote_DOWN [] demo = (Ok v, w') \<and>
     comment_voted now0 (subject_id su) 3 4 Vote_DOWN [] d (w_db w') v"
proof -
  obtain v w' where run: "AddPicCommentVoteTask as_alice now0 3 4 Vote_DOWN [] demo = (Ok v, w')"
    using comment_vote_demo by blast
  from AddPicCommentVoteTask_votes [OF demo_fits demo_idle run] run show ?thesis by blast
qed

lemma demo_tally: "tally (w_db demo)"
  by (simp add: tally_def votes_for_def demo_def calm_world_def demo_db_def empty_db_def cat_pic_def int64_def)

theorem pictures_keep_their_tally_witness:
  "\<exists>w'. pic_step\<^sup>*\<^sup>* demo w' \<and> (\<exists>x. AddPicVoteTask as_alice now0 3 Vote_UP [] demo = (Ok x, w')) \<and>
     tally (w_db w')"
proof -
  obtain pv fpv w' where run: "AddPicVoteTask as_alice now0 3 Vote_UP [] demo = (Ok (pv, fpv), w')"
    using vote_demo by blast
  then have step: "pic_step\<^sup>*\<^sup>* demo w'" by (blast intro: pic_step.vote)
  from pictures_keep_their_tally [OF demo_fits demo_idle demo_tally step] step run show ?thesis by blast
qed

end
