(* ===== verification/Users.thy ===== *)
theory Users
  imports Notify PicTasks "HOL-Library.Product_Lexorder"
begin

section \<open>Users (be/tasks/auth_user_task.go, unauth_user_task.go, create_user_task.go, update_user_task.go, lookup_user_task.go)\<close>

text \<open>
  Signing in with a password makes a token, signing in with a token renews it; a user keeps the
  ten tokens seen last. Signing out removes a token. Users are created under an identity
  nobody has, and their capabilities are updated against a version.
\<close>

definition subject_user :: "string \<Rightarrow> user list \<Rightarrow> user io" where
  "subject_user msg us = (case us of [u] \<Rightarrow> ret u | _ \<Rightarrow> fail (Unauthenticated None msg))"

text \<open>\<open>ptypes.TimestampProto\<close> whose error is dropped: no timestamp.\<close>

definition lenient_ts :: "int \<Rightarrow> tspb option" where
  "lenient_ts now = (case ptypes_TimestampProto now of Inr ts \<Rightarrow> Some ts | Inl e \<Rightarrow> None)"

definition maxUserTokens :: nat where "maxUserTokens = 10"

definition maxUserSecretLength :: nat where "maxUserSecretLength = 255"

subsection \<open>The order of tokens\<close>

definition tokenLess :: "user_token \<Rightarrow> user_token \<Rightarrow> bool" where
  "tokenLess a b =
     (case ut_last_seen a of
        None \<Rightarrow> False
      | Some ta \<Rightarrow>
          (case ut_last_seen b of
             None \<Rightarrow> True
           | Some tb \<Rightarrow>
               if ts_seconds ta < ts_seconds tb then True
               else if ts_seconds ta = ts_seconds tb then ts_nanos ta < ts_nanos tb
               else False))"

text \<open>
  \<open>sort.Sort(sort.Reverse(...))\<close> may leave tokens that are seen at the same time in any order:
  it sorts some arrangement of the list, which the environment picks.
\<close>

definition token_key :: "user_token \<Rightarrow> int \<times> int \<times> int" where
  "token_key ut = (case ut_last_seen ut of
     None \<Rightarrow> (- 1, 0, 0) | Some ts \<Rightarrow> (0, - ts_seconds ts, - ts_nanos ts))"

definition sort_tokens :: "(nat \<Rightarrow> nat) \<Rightarrow> user_token list \<Rightarrow> user_token list" where
  "sort_tokens rank uts = sort_key token_key (engine_order rank uts)"

lemma tokenLess_key: "tokenLess a b \<longleftrightarrow> token_key b < token_key a"
  by (auto simp: tokenLess_def token_key_def split: option.splits)

subsection \<open>Signing in and out\<close>

text \<open>The tokens that stay: the ten first of the sorted ones, among them the one just used.\<close>

definition trim_tokens :: "int \<Rightarrow> user_token list \<Rightarrow> user_token list res" where
  "trim_tokens newTokenId uts =
     (if length uts > maxUserTokens
      then (if list_ex (\<lambda>ut. ut_id ut = newTokenId) (drop maxUserTokens uts)
            then Err (Internal None ''new token no longer valid'')
            else Ok (take maxUserTokens uts))
      else Ok uts)"

definition add_token :: "tspb option \<Rightarrow> user \<Rightarrow> user" where
  "add_token nowts u =
     (let i = wrap64 (u_next_token u + 1)
      in u\<lparr>u_next_token := i,
           u_tokens := u_tokens u @ [\<lparr>ut_id = i, ut_created = nowts, ut_last_seen = nowts\<rparr>]\<rparr>)"

definition check_secret :: "string \<Rightarrow> unit res" where
  "check_secret secret =
     (if secret = [] then Err (InvalidArgument None ''missing secret'')
      else if length secret > maxUserSecretLength then Err (InvalidArgument None ''secret too long'')
      else Ok ())"

definition valid_ident :: "textlib \<Rightarrow> configuration \<Rightarrow> string \<Rightarrow> string res" where
  "valid_ident tlib conf ident =
     DefaultValidateNoNewlineAndNormalize tlib ident ''ident''
       (case c_min_ident conf of Some v \<Rightarrow> v | None \<Rightarrow> min_int64)
       (case c_max_ident conf of Some v \<Rightarrow> v | None \<Rightarrow> max_int64) []"

text \<open>The user with the identity and the secret; the password check is a dependency of the task.\<close>

definition user_by_ident ::
    "ctx \<Rightarrow> (string \<Rightarrow> string \<Rightarrow> gerr option) \<Rightarrow> string \<Rightarrow> string \<Rightarrow> tspb option \<Rightarrow> (user \<times> int) io" where
  "user_by_ident cx compare ident secret nowts =
     bind (GetConfiguration cx) (\<lambda>conf.
     bind (get_state (\<lambda>w. e_text (w_env w))) (\<lambda>tlib.
     bind (wrap_err (\<lambda>e. From (the e)) (lift_res (valid_ident tlib conf ident))) (\<lambda>ident'.
     bind (lift_res (UserUniqueIdent tlib ident')) (\<lambda>keyident.
     bind (wrap_err (\<lambda>e. Internal e ''can't find users'')
       (FindUsers (no_opts\<lparr>o_prefix := Some (UsersIdent (Some keyident)), o_lock := LockWrite,
         o_limit := 1\<rparr>))) (\<lambda>us.
     bind (subject_user ''can't lookup user'' us) (\<lambda>u.
     bind (lift_res (check_secret secret)) (\<lambda>_.
     (case compare (u_secret u) secret of
        Some e \<Rightarrow> fail (Unauthenticated (Some e) ''can't lookup user'')
      | None \<Rightarrow> ret (add_token nowts u, u_next_token (add_token nowts u))))))))))"

definition user_by_token :: "int \<Rightarrow> int \<Rightarrow> tspb option \<Rightarrow> (user \<times> int) io" where
  "user_by_token userId tokenId nowts =
     bind (wrap_err (\<lambda>e. Internal e ''can't find users'')
       (FindUsers (no_opts\<lparr>o_prefix := Some (UsersPrimary (Some userId)), o_lock := LockWrite,
         o_limit := 1\<rparr>))) (\<lambda>us.
     bind (subject_user ''can't lookup user'' us) (\<lambda>u.
     (case token_index tokenId (u_tokens u) of
        Some k \<Rightarrow>
          if tokenId = 0 then fail (Unauthenticated None ''can't find token'')
          else ret (u\<lparr>u_tokens := (u_tokens u)[k := (u_tokens u ! k)\<lparr>ut_last_seen := nowts\<rparr>]\<rparr>, tokenId)
      | None \<Rightarrow> fail (Unauthenticated None ''can't find token''))))"

definition auth_body ::
    "ctx \<Rightarrow> int \<Rightarrow> (string \<Rightarrow> string \<Rightarrow> gerr option) \<Rightarrow> string \<Rightarrow> string \<Rightarrow> int \<Rightarrow> int \<Rightarrow> user option \<Rightarrow>
     (user \<times> int) io" where
  "auth_body cx now compare ident secret userId tokenId su =
     bind (if ident \<noteq> [] then user_by_ident cx compare ident secret (lenient_ts now)
           else if userId \<noteq> 0 then user_by_token userId tokenId (lenient_ts now)
           else fail (InvalidArgument None ''no user identifier provided'')) (\<lambda>(u, newTokenId).
     bind (get_state (\<lambda>w. e_rank (w_env w) (w_calls w))) (\<lambda>rank.
     bind (lift_res (trim_tokens newTokenId (sort_tokens rank (u_tokens u)))) (\<lambda>uts.
     let u' = u\<lparr>u_tokens := uts, u_last_seen := lenient_ts now, u_modified := lenient_ts now\<rparr> in
     bind (wrap_err (\<lambda>e. Internal e ''can't update user'') (UpdateUser u')) (\<lambda>_.
     bind (wrap_err (\<lambda>e. Internal e ''can' commit job'') Commit) (\<lambda>_. ret (u', newTokenId))))))"

definition AuthUserTask ::
    "ctx \<Rightarrow> int \<Rightarrow> (string \<Rightarrow> string \<Rightarrow> gerr option) \<Rightarrow> string \<Rightarrow> string \<Rightarrow> int \<Rightarrow> int \<Rightarrow> (user \<times> int) io" where
  "AuthUserTask cx now compare ident secret userId tokenId =
     bind (authedJob cx now) (\<lambda>su. revert (auth_body cx now compare ident secret userId tokenId su))"

definition unauth_body :: "int \<Rightarrow> int \<Rightarrow> int \<Rightarrow> user option \<Rightarrow> unit io" where
  "unauth_body now userId tokenId su =
     bind (wrap_err (\<lambda>e. Internal e ''can't find users'')
       (FindUsers (no_opts\<lparr>o_prefix := Some (UsersPrimary (Some userId)), o_lock := LockWrite,
         o_limit := 1\<rparr>))) (\<lambda>us.
     bind (subject_user ''can't lookup user'' us) (\<lambda>u.
     (case token_index tokenId (u_tokens u) of
        None \<Rightarrow> fail (InvalidArgument None ''can't find token'')
      | Some pos \<Rightarrow>
          bind (wrap_err (\<lambda>e. Internal e ''can't update user'')
            (UpdateUser (u\<lparr>u_tokens := take pos (u_tokens u) @ drop (Suc pos) (u_tokens u),
               u_last_seen := lenient_ts now, u_modified := lenient_ts now\<rparr>))) (\<lambda>_.
          bind (wrap_err (\<lambda>e. Internal e ''can' commit job'') Commit) (\<lambda>_. ret ())))))"

definition UnauthUserTask :: "ctx \<Rightarrow> int \<Rightarrow> int \<Rightarrow> int \<Rightarrow> unit io" where
  "UnauthUserTask cx now userId tokenId =
     bind (authedJob cx now) (\<lambda>su. revert (unauth_body now userId tokenId su))"

subsection \<open>Creating a user\<close>

definition create_user_body ::
    "ctx \<Rightarrow> int \<Rightarrow> (string \<Rightarrow> gerr + string) \<Rightarrow> string \<Rightarrow> string \<Rightarrow> int list option \<Rightarrow> extmap \<Rightarrow>
     user option \<Rightarrow> user io" where
  "create_user_body cx now hash ident secret caps ext su =
     bind (GetConfiguration cx) (\<lambda>conf.
     bind (lift_res (validateCapability su conf [USER_CREATE])) (\<lambda>_.
     bind (get_state (\<lambda>w. e_text (w_env w))) (\<lambda>tlib.
     bind (wrap_err (\<lambda>e. From (the e)) (lift_res (valid_ident tlib conf ident))) (\<lambda>ident'.
     bind (lift_res (UserUniqueIdent tlib ident')) (\<lambda>keyident.
     bind (wrap_err (\<lambda>e. Internal e ''can't scan users'')
       (FindUsers (no_opts\<lparr>o_prefix := Some (UsersIdent (Some keyident)), o_limit := 1\<rparr>))) (\<lambda>us.
     bind (check (us = []) (AlreadyExists None ''ident already used'')) (\<lambda>_.
     bind (lift_res (check_secret secret)) (\<lambda>_.
     bind (wrap_err (\<lambda>e. Internal e ''can't allocate id'') AllocId) (\<lambda>userId.
     bind (case hash secret of Inl e \<Rightarrow> fail (Internal (Some e) ''can't generate password'')
           | Inr h \<Rightarrow> ret h) (\<lambda>hashed.
     bind (case caps of Some cs \<Rightarrow> ret cs
           | None \<Rightarrow> (case c_new_user conf of Some cs \<Rightarrow> ret cs
               | None \<Rightarrow> panic ''nil pointer dereference'')) (\<lambda>newcap.
     bind (lift_res (ToTspb now)) (\<lambda>nowts.
     let u = \<lparr>u_id = userId, u_secret = hashed, u_ident = ident', u_created = Some nowts,
               u_modified = Some nowts, u_last_seen = None, u_caps = newcap, u_next_token = 0,
               u_tokens = [], u_ext = ext\<rparr> in
     bind (wrap_err (\<lambda>e. Internal e ''can't create user'') (InsertUser u)) (\<lambda>_.
     bind (wrap_err (\<lambda>e. Internal e ''can't commit job'') Commit) (\<lambda>_. ret u))))))))))))))"

definition CreateUserTask ::
    "ctx \<Rightarrow> int \<Rightarrow> (string \<Rightarrow> gerr + string) \<Rightarrow> string \<Rightarrow> string \<Rightarrow> int list option \<Rightarrow> extmap \<Rightarrow> user io" where
  "CreateUserTask cx now hash ident secret caps ext =
     bind (authedJob cx now) (\<lambda>su. revert (create_user_body cx now hash ident secret caps ext su))"

subsection \<open>Updating capabilities\<close>

definition user_version :: "user \<Rightarrow> int res" where
  "user_version u = res_map UnixNano (ToTime (u_modified u))"

definition cap_known :: "int \<Rightarrow> bool" where
  "cap_known c \<longleftrightarrow> known_capability c \<and> c \<noteq> 0"

definition check_cap_change :: "int list \<Rightarrow> int list \<Rightarrow> unit res" where
  "check_cap_change setCaps clearCaps =
     (if \<not> list_all cap_known (setCaps @ clearCaps) then Err (InvalidArgument None ''unknown cap'')
      else if length (remdups (setCaps @ clearCaps)) \<noteq> length setCaps + length clearCaps
      then Err (InvalidArgument None ''cap change overlap'')
      else Ok ())"

text \<open>The new capabilities, sorted, and whether they differ from the old ones.\<close>

definition new_caps :: "int list \<Rightarrow> int list \<Rightarrow> int list \<Rightarrow> int list" where
  "new_caps old setCaps clearCaps =
     sort (filter (\<lambda>c. c \<notin> set clearCaps) (remdups (old @ setCaps)))"

definition caps_differ :: "int list \<Rightarrow> int list \<Rightarrow> bool" where
  "caps_differ new old \<longleftrightarrow> (if length new = length old then new \<noteq> sort old else True)"

definition change_caps :: "user option \<Rightarrow> configuration \<Rightarrow> int list \<Rightarrow> int list \<Rightarrow> user \<Rightarrow> (user \<times> bool) res" where
  "change_caps su conf setCaps clearCaps ou =
     (if length setCaps + length clearCaps > 0 then
        res_bind (validateCapability su conf [USER_UPDATE_CAPABILITY]) (\<lambda>_.
        res_bind (check_cap_change setCaps clearCaps) (\<lambda>_.
          let new = new_caps (u_caps ou) setCaps clearCaps
          in Ok (ou\<lparr>u_caps := new\<rparr>, caps_differ new (u_caps ou))))
      else Ok (ou, False))"

definition finish_update :: "int \<Rightarrow> user \<Rightarrow> bool \<Rightarrow> user io" where
  "finish_update now ou changed =
     (if changed then
        bind (lift_res (ToTspb now)) (\<lambda>nowts.
        let ou' = ou\<lparr>u_modified := Some nowts\<rparr> in
        bind (wrap_err (\<lambda>e. Internal e ''can't update user'') (UpdateUser ou')) (\<lambda>_.
        bind (wrap_err (\<lambda>e. Internal e ''can't commit'') Commit) (\<lambda>_. ret ou')))
      else bind (wrap_err (\<lambda>e. Internal e ''can't rollback'') Rollback) (\<lambda>_. ret ou))"

definition update_user_body ::
    "ctx \<Rightarrow> int \<Rightarrow> int \<Rightarrow> int \<Rightarrow> int list \<Rightarrow> int list \<Rightarrow> user option \<Rightarrow> user io" where
  "update_user_body cx now objectUserId version setCaps clearCaps su =
     bind (lookupObjectUser LockWrite objectUserId su) (\<lambda>ou.
     bind (GetConfiguration cx) (\<lambda>conf.
     bind (lift_res (user_version ou)) (\<lambda>v.
     bind (check (v = version) (Aborted None ''version mismatch'')) (\<lambda>_.
     bind (lift_res (change_caps su conf setCaps clearCaps ou)) (\<lambda>(ou1, changed).
       finish_update now ou1 changed)))))"

definition UpdateUserTask :: "ctx \<Rightarrow> int \<Rightarrow> int \<Rightarrow> int \<Rightarrow> int list \<Rightarrow> int list \<Rightarrow> user io" where
  "UpdateUserTask cx now objectUserId version setCaps clearCaps =
     bind (authedJob cx now)
       (\<lambda>su. revert (update_user_body cx now objectUserId version setCaps clearCaps su))"

subsection \<open>Looking a user up\<close>

definition public_user :: "user \<Rightarrow> user" where
  "public_user u = \<lparr>u_id = u_id u, u_secret = [], u_ident = u_ident u, u_created = u_created u,
     u_modified = None, u_last_seen = None, u_caps = [], u_next_token = 0, u_tokens = [], u_ext = []\<rparr>"

definition seen_user :: "user_cred \<Rightarrow> bool \<Rightarrow> user \<Rightarrow> user res" where
  "seen_user uc publicOnly ou =
     (if cs_has (uc_caps uc) USER_READ_ALL then Ok ou
      else if uc_subject uc = u_id ou \<and> cs_has (uc_caps uc) USER_READ_SELF then Ok ou
      else if publicOnly \<and> cs_has (uc_caps uc) USER_READ_PUBLIC then Ok (public_user ou)
      else Err (PermissionDenied None ''missing capability''))"

definition lookup_user_body :: "ctx \<Rightarrow> int \<Rightarrow> bool \<Rightarrow> user option \<Rightarrow> user io" where
  "lookup_user_body cx objectUserId publicOnly su =
     bind (lookupObjectUser LockNone objectUserId su) (\<lambda>ou.
     bind (GetConfiguration cx) (\<lambda>conf.
     bind (lift_res (userCredOf su conf)) (\<lambda>uc.
     bind (lift_res (seen_user uc publicOnly ou)) (\<lambda>ou'.
     bind (wrap_err (\<lambda>e. Internal e ''can't rollback'') Rollback) (\<lambda>_. ret ou')))))"

definition LookupUserTask :: "ctx \<Rightarrow> int \<Rightarrow> int \<Rightarrow> bool \<Rightarrow> user io" where
  "LookupUserTask cx now objectUserId publicOnly =
     bind (authedReadonlyJob cx now) (\<lambda>su. revert (lookup_user_body cx objectUserId publicOnly su))"

subsection \<open>Frames\<close>

lemma subject_user_frames: "keeps keeps_fit (subject_user m us)" "keeps keeps_base (subject_user m us)"
  "keeps keeps_acct (subject_user m us)"
  unfolding subject_user_def by (auto intro!: task_frames split: list.splits)

lemma check_frames: "keeps keeps_fit (check b e)" "keeps keeps_base (check b e)"
  "keeps keeps_acct (check b e)"
  by (auto simp: check_def intro!: task_frames)

lemma object_user_frames: "keeps keeps_fit (lookupObjectUser lk i su)"
  "keeps keeps_base (lookupObjectUser lk i su)" "keeps keeps_acct (lookupObjectUser lk i su)"
  unfolding lookupObjectUser_def by (auto intro!: task_frames split: list.splits)

lemma by_ident_frames: "keeps keeps_fit (user_by_ident cx c i s n)"
  "keeps keeps_base (user_by_ident cx c i s n)" "keeps keeps_acct (user_by_ident cx c i s n)"
  unfolding user_by_ident_def
  by (auto intro!: task_frames subject_user_frames split: option.splits)

lemma by_token_frames: "keeps keeps_fit (user_by_token u t n)"
  "keeps keeps_base (user_by_token u t n)" "keeps keeps_acct (user_by_token u t n)"
  unfolding user_by_token_def
  by (auto intro!: task_frames subject_user_frames split: option.splits)

lemmas user_frames = task_frames subject_user_frames check_frames object_user_frames by_ident_frames
  by_token_frames

lemma commits_last_none: "commits_last (fail e)" "commits_last (ret x)"
  "commits_last (bind (wrap_err f Rollback) (\<lambda>_. ret y))"
  by (intro commits_last_base base_ops)+

interpretation auth_user: atomic_task "auth_body cx now compare ident secret userId tokenId"
  for cx now compare ident secret userId tokenId
  unfolding auth_body_def Let_def
  by unfold_locales
    (auto intro!: user_frames commits_last_bind commits_last_Commit quiet_ret)

interpretation unauth_user: atomic_task "unauth_body now userId tokenId" for now userId tokenId
  unfolding unauth_body_def
  by unfold_locales
    (auto intro!: user_frames commits_last_bind commits_last_Commit quiet_ret
      commits_last_none split: option.splits)

interpretation create_user: atomic_task "create_user_body cx now hash ident secret caps ext"
  for cx now hash ident secret caps ext
  unfolding create_user_body_def Let_def
  by unfold_locales
    (auto intro!: user_frames commits_last_bind commits_last_Commit quiet_ret
      split: option.splits sum.splits)

interpretation update_user: atomic_task "update_user_body cx now oid version setCaps clearCaps"
  for cx now oid version setCaps clearCaps
  unfolding update_user_body_def finish_update_def Let_def
  by unfold_locales
    (auto intro!: user_frames commits_last_bind commits_last_Commit quiet_ret commits_last_none
      split: prod.splits)

interpretation lookup_user: read_task "lookup_user_body cx oid publicOnly" for cx oid publicOnly
  unfolding lookup_user_body_def
  by unfold_locales (intro user_frames)+

end
