(* ===== verification/UserFacts.thy ===== *)
theory UserFacts
  imports Users VoteFacts
begin

section \<open>What the tasks on users do\<close>

subsection \<open>Steps\<close>

text \<open>Only the row of one user differs.\<close>

definition user_changed :: "database \<Rightarrow> database \<Rightarrow> user \<Rightarrow> bool" where
  "user_changed d d' u \<longleftrightarrow> d' = d\<lparr>db_users := db_users d'\<rparr> \<and>
     msgs (db_users d') = map (\<lambda>q. if u_id q = u_id u then u else q) (msgs (db_users d))"

lemma subject_user_iff: "subject_user m us w = (Ok u, w') \<longleftrightarrow> us = [u] \<and> w' = w"
  by (auto simp: subject_user_def run_simps split: list.splits)

lemma check_iff: "check b e w = (Ok x, w') \<longleftrightarrow> b \<and> w' = w"
  by (auto simp: check_def run_simps)

lemma update_commit_user:
  assumes "UpdateUser u w = (Ok x, w1)" "Commit w1 = (Ok y, w2)" "job_at ev d0 d w"
  shows "user_changed d (w_db w2) u"
proof -
  obtain rows where "job_at ev d0 (d\<lparr>db_users := rows\<rparr>) w1"
    "msgs rows = map (\<lambda>q. if u_id q = u_id u then u else q) (msgs (db_users d))"
    using job_update_users [OF assms(1,3)] by blast
  with Commit_job [OF assms(2)] show ?thesis by (simp add: user_changed_def)
qed

subsection \<open>Tokens\<close>

text \<open>What is kept of a list of tokens: at most ten, and none seen before one that is dropped.\<close>

definition best_tokens :: "user_token list \<Rightarrow> user_token list \<Rightarrow> bool" where
  "best_tokens all kept \<longleftrightarrow> length kept \<le> maxUserTokens \<and>
     (\<exists>dropped. mset all = mset kept + mset dropped \<and>
       (dropped \<noteq> [] \<longrightarrow> length kept = maxUserTokens) \<and>
       (\<forall>k \<in> set kept. \<forall>t \<in> set dropped. \<not> tokenLess k t))"

lemma mset_sort_tokens: "mset (sort_tokens rank uts) = mset uts"
  by (simp add: sort_tokens_def)

lemma trim_tokens_Ok:
  assumes "trim_tokens i (sort_tokens rank uts) = Ok kept" "i \<in> ut_id ` set uts"
  shows "best_tokens uts kept \<and> i \<in> ut_id ` set kept"
proof -
  let ?s = "sort_tokens rank uts"
  let ?dropped = "drop maxUserTokens ?s"
  have set: "set ?s = set uts" using mset_sort_tokens by (metis set_mset_mset)
  have kept: "kept = take maxUserTokens ?s" "i \<notin> ut_id ` set ?dropped"
    using assms(1) by (auto simp: trim_tokens_def list_ex_iff split: if_splits)
  have sum: "mset uts = mset kept + mset ?dropped"
    unfolding kept(1) mset_sort_tokens [of rank uts, symmetric] by (metis append_take_drop_id mset_append)
  have "sorted (map token_key ?s)" by (simp add: sort_tokens_def)
  then have "sorted (map token_key (kept @ ?dropped))" unfolding kept(1) by simp
  then have "\<forall>k \<in> set kept. \<forall>t \<in> set ?dropped. token_key k \<le> token_key t" by (simp add: sorted_append)
  then have "\<forall>k \<in> set kept. \<forall>t \<in> set ?dropped. \<not> tokenLess k t" unfolding tokenLess_key by fastforce
  moreover have "length kept \<le> maxUserTokens" "?dropped \<noteq> [] \<longrightarrow> length kept = maxUserTokens"
    unfolding kept(1) by auto
  ultimately have "best_tokens uts kept" using sum unfolding best_tokens_def by blast
  moreover have "set uts = set kept \<union> set ?dropped" using sum by (metis set_mset_mset set_mset_union)
  ultimately show ?thesis using assms(2) kept(2) by auto
qed

subsection \<open>Signing in\<close>

text \<open>Whom the request names and proves to be, with all tokens the user then has.\<close>

definition identified :: "textlib \<Rightarrow> configuration option \<Rightarrow> (string \<Rightarrow> string \<Rightarrow> gerr option) \<Rightarrow>
    string \<Rightarrow> string \<Rightarrow> int \<Rightarrow> int \<Rightarrow> tspb option \<Rightarrow> user \<Rightarrow> int \<Rightarrow> user_token list \<Rightarrow> bool" where
  "identified tlib oconf compare ident secret userId tokenId nowts u tid all \<longleftrightarrow>
     (if ident \<noteq> [] then
        (\<exists>conf ident' key. oconf = Some conf \<and> valid_ident tlib conf ident = Ok ident' \<and>
          UserUniqueIdent tlib ident' = Ok key \<and> UserUniqueIdent tlib (u_ident u) = Ok key) \<and>
        check_secret secret = Ok () \<and> compare (u_secret u) secret = None \<and>
        tid = wrap64 (u_next_token u + 1) \<and>
        all = u_tokens u @ [\<lparr>ut_id = tid, ut_created = nowts, ut_last_seen = nowts\<rparr>]
      else userId \<noteq> 0 \<and> u_id u = userId \<and> tokenId \<noteq> 0 \<and> tid = tokenId \<and>
        (\<exists>k. token_index tokenId (u_tokens u) = Some k \<and>
          all = (u_tokens u)[k := (u_tokens u ! k)\<lparr>ut_last_seen := nowts\<rparr>]))"

lemma user_by_ident_job:
  assumes "user_by_ident cx compare ident secret nowts w = (Ok (u1, tid), w')" "job_at ev d0 d w" "ident \<noteq> []"
  obtains u where "job_at ev d0 d w'" "u \<in> set (msgs (db_users d))"
    "identified (e_text ev) (conf_of cx w) compare ident secret userId tokenId nowts u tid (u_tokens u1)"
    "u1 = u\<lparr>u_next_token := u_next_token u1, u_tokens := u_tokens u1\<rparr>" "tid \<in> ut_id ` set (u_tokens u1)"
proof -
  obtain conf ident' key u where s: "conf_of cx w = Some conf"
    "valid_ident (e_text (w_env w)) conf ident = Ok ident'"
    "UserUniqueIdent (e_text (w_env w)) ident' = Ok key"
    "FindUsers (no_opts\<lparr>o_prefix := Some (UsersIdent (Some key)), o_lock := LockWrite, o_limit := 1\<rparr>) w =
      (Ok [u], w')" "check_secret secret = Ok ()" "compare (u_secret u) secret = None"
    "u1 = add_token nowts u" "tid = u_next_token (add_token nowts u)"
    using assms(1) unfolding user_by_ident_def
    by (auto simp: GetConfiguration_iff subject_user_iff run_simps elim!: bind_OkE split: option.splits)
  note job = job_find_users_ident [OF s(4) assms(2), of key]
  have u: "u \<in> set (msgs (db_users d))" "UserUniqueIdent (e_text ev) (u_ident u) = Ok key"
    using found_set [OF job(2)] by auto
  note env = job_at_D(3) [OF assms(2)]
  show thesis
  proof (rule that)
    show "job_at ev d0 d w'" using job(1) by simp
    show "u \<in> set (msgs (db_users d))" by (rule u(1))
    show "identified (e_text ev) (conf_of cx w) compare ident secret userId tokenId nowts u tid (u_tokens u1)"
      unfolding identified_def using assms(3) s u(2) env by (simp add: add_token_def Let_def)
    show "u1 = u\<lparr>u_next_token := u_next_token u1, u_tokens := u_tokens u1\<rparr>"
      "tid \<in> ut_id ` set (u_tokens u1)"
      using s(7,8) by (simp_all add: add_token_def Let_def)
  qed
qed

lemma user_by_token_job:
  assumes "user_by_token userId tokenId nowts w = (Ok (u1, tid), w')" "job_at ev d0 d w" "userId \<noteq> 0"
  obtains u where "job_at ev d0 d w'" "u \<in> set (msgs (db_users d))"
    "identified tlib oconf compare [] secret userId tokenId nowts u tid (u_tokens u1)"
    "u1 = u\<lparr>u_next_token := u_next_token u1, u_tokens := u_tokens u1\<rparr>" "tid \<in> ut_id ` set (u_tokens u1)"
proof -
  obtain u k where s: "FindUsers (no_opts\<lparr>o_prefix := Some (UsersPrimary (Some userId)), o_lock := LockWrite,
      o_limit := 1\<rparr>) w = (Ok [u], w')" "token_index tokenId (u_tokens u) = Some k" "tokenId \<noteq> 0"
    "u1 = u\<lparr>u_tokens := (u_tokens u)[k := (u_tokens u ! k)\<lparr>ut_last_seen := nowts\<rparr>]\<rparr>" "tid = tokenId"
    using assms(1) unfolding user_by_token_def
    by (auto simp: subject_user_iff run_simps elim!: bind_OkE split: option.splits if_splits)
  note job = job_find_users_id [OF s(1) assms(2), of userId]
  have u: "u \<in> set (msgs (db_users d))" "u_id u = userId" using found_set [OF job(2)] by auto
  show thesis
  proof (rule that)
    show "job_at ev d0 d w'" using job(1) by simp
    show "u \<in> set (msgs (db_users d))" by (rule u(1))
    show "identified tlib oconf compare [] secret userId tokenId nowts u tid (u_tokens u1)"
      unfolding identified_def using assms(3) s u(2) by simp
    show "u1 = u\<lparr>u_next_token := u_next_token u1, u_tokens := u_tokens u1\<rparr>"
      using s(4) by simp
    have "(u_tokens u ! k)\<lparr>ut_last_seen := nowts\<rparr> \<in> set (u_tokens u1)"
      using s(4) token_index_Some [OF s(2)] by (simp add: set_update_memI)
    moreover have "ut_id ((u_tokens u ! k)\<lparr>ut_last_seen := nowts\<rparr>) = tid"
      using token_index_Some [OF s(2)] s(5) by simp
    ultimately show "tid \<in> ut_id ` set (u_tokens u1)" by (metis image_eqI)
  qed
qed

lemma AuthUserTask_effect:
  assumes "fits w" "idle w"
    "AuthUserTask cx now compare ident secret userId tokenId w = (Ok (u, tid), w')"
  shows "\<exists>d u0 all. visit_only (w_db w) d \<and> u0 \<in> set (msgs (db_users d)) \<and>
    identified (e_text (w_env w)) (conf_of cx w) compare ident secret userId tokenId (lenient_ts now) u0 tid all \<and>
    best_tokens all (u_tokens u) \<and> tid \<in> ut_id ` set (u_tokens u) \<and>
    u = u0\<lparr>u_next_token := u_next_token u, u_tokens := u_tokens u, u_last_seen := lenient_ts now,
      u_modified := lenient_ts now\<rparr> \<and>
    user_changed d (w_db w') u"
proof -
  obtain su w1 w2 where start: "job_at (w_env w) (w_db w1) (w_db w1) w1" "visit_only (w_db w) (w_db w1)"
    "auth_body cx now compare ident secret userId tokenId su w1 = (Ok (u, tid), w2)"
    "w_db w' = w_db w2" "w_site w1 = w_site w"
    using auth_user.succeeds [OF assms(3) [unfolded AuthUserTask_def authedJob_def] assms(1,2)] by blast
  let ?d = "w_db w1"
  obtain u1 w3 rank uts w4 where s: "(if ident \<noteq> [] then user_by_ident cx compare ident secret (lenient_ts now)
      else if userId \<noteq> 0 then user_by_token userId tokenId (lenient_ts now)
      else fail (InvalidArgument None ''no user identifier provided'')) w1 = (Ok (u1, tid), w3)"
    "trim_tokens tid (sort_tokens rank (u_tokens u1)) = Ok uts"
    "u = u1\<lparr>u_tokens := uts, u_last_seen := lenient_ts now, u_modified := lenient_ts now\<rparr>"
    "UpdateUser u w3 = (Ok (), w4)" "Commit w4 = (Ok (), w2)"
    using start(3) unfolding auth_body_def Let_def by (auto simp: run_simps elim!: bind_OkE)
  obtain u0 where u0: "job_at (w_env w) ?d ?d w3" "u0 \<in> set (msgs (db_users ?d))"
    "identified (e_text (w_env w)) (conf_of cx w1) compare ident secret userId tokenId (lenient_ts now) u0 tid
      (u_tokens u1)"
    "u1 = u0\<lparr>u_next_token := u_next_token u1, u_tokens := u_tokens u1\<rparr>" "tid \<in> ut_id ` set (u_tokens u1)"
  proof (cases "ident \<noteq> []")
    case True
    then show thesis
      using s(1) by (auto intro: that elim!: user_by_ident_job [OF _ start(1), of cx compare ident secret _ u1 tid w3])
  next
    case False
    then have "userId \<noteq> 0" "user_by_token userId tokenId (lenient_ts now) w1 = (Ok (u1, tid), w3)"
      using s(1) by (auto simp: run_simps split: if_splits)
    then show thesis using user_by_token_job [OF _ start(1)] False that by (metis (no_types))
  qed
  note kept = trim_tokens_Ok [OF s(2) u0(5)]
  have "u = u0\<lparr>u_next_token := u_next_token u, u_tokens := u_tokens u, u_last_seen := lenient_ts now,
      u_modified := lenient_ts now\<rparr>"
    unfolding s(3) by (subst u0(4)) simp
  moreover have "user_changed ?d (w_db w') u"
    using update_commit_user [OF s(4,5) u0(1)] start(4) by simp
  ultimately show ?thesis
    using start(2) u0(2,3) kept s(3) conf_of_site [OF start(5)] by auto
qed

text \<open>C26. Signing in succeeds only for a user whose password or token the request carries. It
  issues a token with a new number or renews the one shown, keeps at most ten tokens, the one
  in use among them and none older than a dropped one, and changes no other row.\<close>

theorem AuthUserTask_signs_in:
  assumes "fits w" "idle w"
    "AuthUserTask cx now compare ident secret userId tokenId w = (Ok (u, tid), w')"
  shows "\<exists>d u0 all. visit_only (w_db w) d \<and> u0 \<in> set (msgs (db_users d)) \<and>
    identified (e_text (w_env w)) (conf_of cx w) compare ident secret userId tokenId (lenient_ts now) u0 tid all \<and>
    best_tokens all (u_tokens u) \<and> tid \<in> ut_id ` set (u_tokens u) \<and>
    u = u0\<lparr>u_next_token := u_next_token u, u_tokens := u_tokens u, u_last_seen := lenient_ts now,
      u_modified := lenient_ts now\<rparr> \<and>
    user_changed d (w_db w') u"
  by (rule AuthUserTask_effect [OF assms])

subsection \<open>Signing out\<close>

lemma UnauthUserTask_effect:
  assumes "fits w" "idle w" "UnauthUserTask cx now userId tokenId w = (Ok (), w')"
  shows "\<exists>d u k. visit_only (w_db w) d \<and> u \<in> set (msgs (db_users d)) \<and> u_id u = userId \<and>
    token_index tokenId (u_tokens u) = Some k \<and> k < length (u_tokens u) \<and> ut_id (u_tokens u ! k) = tokenId \<and>
    user_changed d (w_db w') (u\<lparr>u_tokens := take k (u_tokens u) @ drop (Suc k) (u_tokens u),
      u_last_seen := lenient_ts now, u_modified := lenient_ts now\<rparr>)"
proof -
  obtain su w1 w2 where start: "job_at (w_env w) (w_db w1) (w_db w1) w1" "visit_only (w_db w) (w_db w1)"
    "unauth_body now userId tokenId su w1 = (Ok (), w2)" "w_db w' = w_db w2"
    using unauth_user.succeeds [OF assms(3) [unfolded UnauthUserTask_def authedJob_def] assms(1,2)] by blast
  obtain u k w3 w4 where s: "FindUsers (no_opts\<lparr>o_prefix := Some (UsersPrimary (Some userId)),
      o_lock := LockWrite, o_limit := 1\<rparr>) w1 = (Ok [u], w3)" "token_index tokenId (u_tokens u) = Some k"
    "UpdateUser (u\<lparr>u_tokens := take k (u_tokens u) @ drop (Suc k) (u_tokens u),
      u_last_seen := lenient_ts now, u_modified := lenient_ts now\<rparr>) w3 = (Ok (), w4)"
    "Commit w4 = (Ok (), w2)"
    using start(3) unfolding unauth_body_def
    by (auto simp: subject_user_iff run_simps elim!: bind_OkE split: option.splits)
  note job = job_find_users_id [OF s(1) start(1), of userId]
  have u: "u \<in> set (msgs (db_users (w_db w1)))" "u_id u = userId" using found_set [OF job(2)] by auto
  have "job_at (w_env w) (w_db w1) (w_db w1) w3" using job(1) by simp
  note up = update_commit_user [OF s(3,4) this]
  show ?thesis using start(2,4) u s(2) token_index_Some [OF s(2)] up by auto
qed

text \<open>Signing out removes the first token with the given number from the user it names, and
  nothing else but the times of the visit differs.\<close>

theorem UnauthUserTask_signs_out:
  assumes "fits w" "idle w" "UnauthUserTask cx now userId tokenId w = (Ok (), w')"
  shows "\<exists>d u k. visit_only (w_db w) d \<and> u \<in> set (msgs (db_users d)) \<and> u_id u = userId \<and>
    token_index tokenId (u_tokens u) = Some k \<and> k < length (u_tokens u) \<and> ut_id (u_tokens u ! k) = tokenId \<and>
    user_changed d (w_db w') (u\<lparr>u_tokens := take k (u_tokens u) @ drop (Suc k) (u_tokens u),
      u_last_seen := lenient_ts now, u_modified := lenient_ts now\<rparr>)"
  by (rule UnauthUserTask_effect [OF assms])

subsection \<open>Creating a user\<close>

lemma CreateUserTask_effect:
  assumes "fits w" "idle w" "CreateUserTask cx now hash ident secret caps ext w = (Ok u, w')"
  shows "\<exists>d su conf key nowts. visit_only (w_db w) d \<and> token_user cx d su \<and> conf_of cx w = Some conf \<and>
    validateCapability su conf [USER_CREATE] = Ok () \<and> check_secret secret = Ok () \<and>
    valid_ident (e_text (w_env w)) conf ident = Ok (u_ident u) \<and>
    UserUniqueIdent (e_text (w_env w)) (u_ident u) = Ok key \<and>
    filter (\<lambda>q. UserUniqueIdent (e_text (w_env w)) (u_ident q) = Ok key) (msgs (db_users d)) = [] \<and>
    u_id u \<notin> set (map u_id (msgs (db_users d))) \<and> hash secret = Inr (u_secret u) \<and>
    Some (u_caps u) = (if caps = None then c_new_user conf else caps) \<and> ToTspb now = Ok nowts \<and>
    u = \<lparr>u_id = u_id u, u_secret = u_secret u, u_ident = u_ident u, u_created = Some nowts,
      u_modified = Some nowts, u_last_seen = None, u_caps = u_caps u, u_next_token = 0, u_tokens = [],
      u_ext = ext\<rparr> \<and>
    w_db w' = d\<lparr>db_seq := db_seq (w_db w'), db_users := db_users (w_db w')\<rparr> \<and>
    msgs (db_users (w_db w')) = msgs (db_users d) @ [u]"
proof -
  obtain su w1 w2 where start: "job_at (w_env w) (w_db w1) (w_db w1) w1" "visit_only (w_db w) (w_db w1)"
    "token_user cx (w_db w1) su" "create_user_body cx now hash ident secret caps ext su w1 = (Ok u, w2)"
    "w_db w' = w_db w2" "w_site w1 = w_site w"
    using create_user.succeeds [OF assms(3) [unfolded CreateUserTask_def authedJob_def] assms(1,2)] by blast
  let ?d = "w_db w1"
  obtain conf ident' key w3 w4 i hashed newcap nowts w5 where s: "conf_of cx w1 = Some conf"
    "validateCapability su conf [USER_CREATE] = Ok ()" "valid_ident (e_text (w_env w1)) conf ident = Ok ident'"
    "UserUniqueIdent (e_text (w_env w1)) ident' = Ok key"
    "FindUsers (no_opts\<lparr>o_prefix := Some (UsersIdent (Some key)), o_limit := 1\<rparr>) w1 = (Ok [], w3)"
    "check_secret secret = Ok ()" "AllocId w3 = (Ok i, w4)" "hash secret = Inr hashed"
    "Some newcap = (if caps = None then c_new_user conf else caps)" "ToTspb now = Ok nowts"
    "u = \<lparr>u_id = i, u_secret = hashed, u_ident = ident', u_created = Some nowts, u_modified = Some nowts,
       u_last_seen = None, u_caps = newcap, u_next_token = 0, u_tokens = [], u_ext = ext\<rparr>"
    "InsertUser u w4 = (Ok (), w5)" "Commit w5 = (Ok (), w2)"
    using start(4) unfolding create_user_body_def Let_def
    by (auto simp: GetConfiguration_iff run_simps elim!: bind_OkE split: option.splits sum.splits if_splits)
  note env = job_at_D(3) [OF start(1)]
  note job = job_find_users_ident [OF s(5) start(1), of key]
  have "found (\<lambda>q. UserUniqueIdent (e_text (w_env w)) (u_ident q) = Ok key) 1 (msgs (db_users ?d)) []"
    using job(2) by simp
  then have none: "filter (\<lambda>q. UserUniqueIdent (e_text (w_env w)) (u_ident q) = Ok key) (msgs (db_users ?d)) = []"
    by (auto simp: found_def)
  have job3: "job_at (w_env w) ?d ?d w3" using job(1) by simp
  obtain sq where sq: "job_at (w_env w) ?d (?d\<lparr>db_seq := sq\<rparr>) w4" using job_AllocId [OF s(7) job3] by blast
  obtain ru where ru: "job_at (w_env w) ?d (?d\<lparr>db_seq := sq, db_users := ru\<rparr>) w5"
    "msgs ru = msgs (db_users ?d) @ [u]"
    using job_insert_users [OF s(12) sq] by auto
  have "distinct (map u_id (msgs ru))" using users_distinct [OF job_at_D(2) [OF ru(1)]] by simp
  then have new: "u_id u \<notin> set (map u_id (msgs (db_users ?d)))" unfolding ru(2) by simp
  have db: "w_db w' = ?d\<lparr>db_seq := sq, db_users := ru\<rparr>" using Commit_job [OF s(13) ru(1)] start(5) by simp
  have frame: "w_db w' = ?d\<lparr>db_seq := db_seq (w_db w'), db_users := db_users (w_db w')\<rparr>"
    "msgs (db_users (w_db w')) = msgs (db_users ?d) @ [u]"
    unfolding db using ru(2) by simp_all
  have u: "u_id u = i" "u_secret u = hashed" "u_ident u = ident'" "u_caps u = newcap"
    unfolding s(11) by simp_all
  have "conf_of cx w = Some conf" using s(1) conf_of_site [OF start(6)] by simp
  then show ?thesis
    using start(2,3) s(2-4,6,8-11) env none new frame unfolding u
    by (intro exI [of _ ?d] exI [of _ su] exI [of _ conf] exI [of _ key] exI [of _ nowts]) simp
qed

text \<open>C29. A user is created only by someone who may, under an identity that is well-formed and
  that no user has, with an id no user has and a secret of acceptable length; the new user
  holds the capabilities asked for or else those of the configuration, is signed in nowhere,
  and no other row changes.\<close>

theorem CreateUserTask_creates:
  assumes "fits w" "idle w" "CreateUserTask cx now hash ident secret caps ext w = (Ok u, w')"
  shows "\<exists>d su conf key nowts. visit_only (w_db w) d \<and> token_user cx d su \<and> conf_of cx w = Some conf \<and>
    validateCapability su conf [USER_CREATE] = Ok () \<and> check_secret secret = Ok () \<and>
    valid_ident (e_text (w_env w)) conf ident = Ok (u_ident u) \<and>
    UserUniqueIdent (e_text (w_env w)) (u_ident u) = Ok key \<and>
    filter (\<lambda>q. UserUniqueIdent (e_text (w_env w)) (u_ident q) = Ok key) (msgs (db_users d)) = [] \<and>
    u_id u \<notin> set (map u_id (msgs (db_users d))) \<and> hash secret = Inr (u_secret u) \<and>
    Some (u_caps u) = (if caps = None then c_new_user conf else caps) \<and> ToTspb now = Ok nowts \<and>
    u = \<lparr>u_id = u_id u, u_secret = u_secret u, u_ident = u_ident u, u_created = Some nowts,
      u_modified = Some nowts, u_last_seen = None, u_caps = u_caps u, u_next_token = 0, u_tokens = [],
      u_ext = ext\<rparr> \<and>
    w_db w' = d\<lparr>db_seq := db_seq (w_db w'), db_users := db_users (w_db w')\<rparr> \<and>
    msgs (db_users (w_db w')) = msgs (db_users d) @ [u]"
  by (rule CreateUserTask_effect [OF assms])

subsection \<open>Updating capabilities\<close>

lemma new_caps_facts: "sorted (new_caps old s c) \<and> distinct (new_caps old s c) \<and>
    set (new_caps old s c) = (set old \<union> set s) - set c"
  by (auto simp: new_caps_def)

lemma caps_differ_iff: "caps_differ new old \<longleftrightarrow> new \<noteq> sort old"
  by (auto simp: caps_differ_def)

lemma object_user_job:
  assumes "lookupObjectUser lk i su w = (Ok ou, w')" "job_at ev d0 d w" "token_user cx d su"
  shows "job_at ev d0 d w' \<and> deriveObjectUserId i su = Ok (u_id ou) \<and> ou \<in> set (msgs (db_users d))"
proof -
  obtain oid where s: "deriveObjectUserId i su = Ok oid"
    "(if (case su of Some u \<Rightarrow> u_id u = oid | None \<Rightarrow> False) then ret (the su)
       else bind (wrap_err (\<lambda>e. Internal e ''can't lookup user'')
           (FindUsers (no_opts\<lparr>o_prefix := Some (UsersPrimary (Some oid)), o_lock := lk\<rparr>))) (\<lambda>us.
         (case us of [x] \<Rightarrow> ret x | _ \<Rightarrow> fail (NotFound None ''can't lookup user'')))) w = (Ok ou, w')"
    using assms(1) unfolding lookupObjectUser_def by (auto elim!: bind_OkE)
  show ?thesis
  proof (cases "case su of Some u \<Rightarrow> u_id u = oid | None \<Rightarrow> False")
    case True
    then obtain u where u: "su = Some u" "u_id u = oid" by (cases su) auto
    then have "u \<in> set (msgs (db_users d))"
      using assms(3) by (auto simp: token_user_def split: option.splits)
    then show ?thesis using s u True assms(2) by (auto simp: run_simps)
  next
    case False
    then have f: "FindUsers (no_opts\<lparr>o_prefix := Some (UsersPrimary (Some oid)), o_lock := lk\<rparr>) w = (Ok [ou], w')"
      using s(2) by (auto elim!: bind_OkE split: list.splits simp: run_simps)
    note job = job_find_users_id [OF f assms(2), of oid]
    show ?thesis using job(1) s(1) found_set [OF job(2)] by auto
  qed
qed

lemma UpdateUserTask_effect:
  assumes "fits w" "idle w" "UpdateUserTask cx now oid version setCaps clearCaps w = (Ok u, w')"
  shows "\<exists>d su conf u0. visit_only (w_db w) d \<and> token_user cx d su \<and> conf_of cx w = Some conf \<and>
    deriveObjectUserId oid su = Ok (u_id u0) \<and> u0 \<in> set (msgs (db_users d)) \<and>
    user_version u0 = Ok version \<and>
    (if setCaps @ clearCaps = [] then u = u0 \<and> w_db w' = d
     else validateCapability su conf [USER_UPDATE_CAPABILITY] = Ok () \<and>
       list_all cap_known (setCaps @ clearCaps) \<and> distinct (setCaps @ clearCaps) \<and>
       sorted (u_caps u) \<and> distinct (u_caps u) \<and> set (u_caps u) = (set (u_caps u0) \<union> set setCaps) - set clearCaps \<and>
       (if u_caps u = sort (u_caps u0) then u = u0\<lparr>u_caps := u_caps u\<rparr> \<and> w_db w' = d
        else (\<exists>nowts. ToTspb now = Ok nowts \<and> u = u0\<lparr>u_caps := u_caps u, u_modified := Some nowts\<rparr>) \<and>
          user_changed d (w_db w') u))"
proof -
  obtain su w1 w2 where start: "job_at (w_env w) (w_db w1) (w_db w1) w1" "visit_only (w_db w) (w_db w1)"
    "token_user cx (w_db w1) su" "update_user_body cx now oid version setCaps clearCaps su w1 = (Ok u, w2)"
    "w_db w' = w_db w2" "w_site w1 = w_site w"
    using update_user.succeeds [OF assms(3) [unfolded UpdateUserTask_def authedJob_def] assms(1,2)] by blast
  let ?d = "w_db w1" and ?new = "\<lambda>u0. new_caps (u_caps u0) setCaps clearCaps"
  obtain u0 w3 conf ou1 changed where s: "lookupObjectUser LockWrite oid su w1 = (Ok u0, w3)"
    "conf_of cx w3 = Some conf" "user_version u0 = Ok version"
    "change_caps su conf setCaps clearCaps u0 = Ok (ou1, changed)" "finish_update now ou1 changed w3 = (Ok u, w2)"
    using start(4) unfolding update_user_body_def
    by (auto simp: GetConfiguration_iff run_simps elim!: bind_OkE split: if_splits)
  have change: "if length setCaps + length clearCaps > 0
     then validateCapability su conf [USER_UPDATE_CAPABILITY] = Ok () \<and> check_cap_change setCaps clearCaps = Ok () \<and>
       ou1 = u0\<lparr>u_caps := ?new u0\<rparr> \<and> changed = caps_differ (?new u0) (u_caps u0)
     else ou1 = u0 \<and> \<not> changed"
    using s(4) unfolding change_caps_def Let_def
    by (cases "validateCapability su conf [USER_UPDATE_CAPABILITY]"; cases "check_cap_change setCaps clearCaps")
      (auto split: if_splits)
  note obj = object_user_job [OF s(1) start(1,3)]
  have site: "w_site w3 = w_site w1"
    using keepsD [OF object_user_frames(2) s(1)] by (simp add: keeps_base_def)
  have conf: "conf_of cx w = Some conf"
    using s(2) conf_of_site [OF site] conf_of_site [OF start(6)] by simp
  have stored: "if changed then (\<exists>nowts. ToTspb now = Ok nowts \<and> u = ou1\<lparr>u_modified := Some nowts\<rparr>) \<and>
      user_changed ?d (w_db w') u else u = ou1 \<and> w_db w' = ?d"
  proof (cases changed)
    case True
    then obtain nowts w4 where t: "ToTspb now = Ok nowts" "UpdateUser (ou1\<lparr>u_modified := Some nowts\<rparr>) w3 = (Ok (), w4)"
      "Commit w4 = (Ok (), w2)" "u = ou1\<lparr>u_modified := Some nowts\<rparr>"
      using s(5) by (auto simp: finish_update_def Let_def run_simps elim!: bind_OkE)
    show ?thesis using update_commit_user [OF t(2,3)] obj t(1,4) True start(5) by auto
  next
    case False
    then have "Rollback w3 = (Ok (), w2)" "u = ou1"
      using s(5) by (auto simp: finish_update_def run_simps elim!: bind_OkE)
    then show ?thesis using Rollback_keeps obj start(5) False by (auto simp: job_at_def)
  qed
  have caps: "distinct (setCaps @ clearCaps) \<and> list_all cap_known (setCaps @ clearCaps)"
    if "check_cap_change setCaps clearCaps = Ok ()"
  proof -
    have "list_all cap_known (setCaps @ clearCaps)"
      "length (remdups (setCaps @ clearCaps)) = length (setCaps @ clearCaps)"
      using that by (simp_all add: check_cap_change_def split: if_splits)
    then show ?thesis by (metis length_remdups_eq remdups_id_iff_distinct)
  qed
  show ?thesis
    using start(2,3) conf obj s(3) change stored caps new_caps_facts [of "u_caps u0" setCaps clearCaps]
    by (intro exI [of _ ?d] exI [of _ su] exI [of _ conf] exI [of _ u0])
      (auto simp: caps_differ_iff split: if_splits)
qed

text \<open>C27. An update of capabilities succeeds only against the version of the user it names, and,
  where it asks for a change, for a subject who may make it and with known capabilities that
  are not both set and cleared. Afterwards the user holds exactly the old capabilities and
  those set, less those cleared, in ascending order; a change is stored with a new time of
  modification, and an update that changes nothing writes nothing.\<close>

theorem UpdateUserTask_updates:
  assumes "fits w" "idle w" "UpdateUserTask cx now oid version setCaps clearCaps w = (Ok u, w')"
  shows "\<exists>d su conf u0. visit_only (w_db w) d \<and> token_user cx d su \<and> conf_of cx w = Some conf \<and>
    deriveObjectUserId oid su = Ok (u_id u0) \<and> u0 \<in> set (msgs (db_users d)) \<and>
    user_version u0 = Ok version \<and>
    (if setCaps @ clearCaps = [] then u = u0 \<and> w_db w' = d
     else validateCapability su conf [USER_UPDATE_CAPABILITY] = Ok () \<and>
       list_all cap_known (setCaps @ clearCaps) \<and> distinct (setCaps @ clearCaps) \<and>
       sorted (u_caps u) \<and> distinct (u_caps u) \<and> set (u_caps u) = (set (u_caps u0) \<union> set setCaps) - set clearCaps \<and>
       (if u_caps u = sort (u_caps u0) then u = u0\<lparr>u_caps := u_caps u\<rparr> \<and> w_db w' = d
        else (\<exists>nowts. ToTspb now = Ok nowts \<and> u = u0\<lparr>u_caps := u_caps u, u_modified := Some nowts\<rparr>) \<and>
          user_changed d (w_db w') u))"
  by (rule UpdateUserTask_effect [OF assms])

subsection \<open>Looking a user up\<close>


end
