(* ===== verification/UserRuns.thy ===== *)
theory UserRuns
  imports UserFacts VoteRuns
begin

section \<open>The tasks on users, run on the small database\<close>

text \<open>
  Each task on users is run once on the small database, and its property applied to the run.
\<close>

definition same_text :: "string \<Rightarrow> string \<Rightarrow> gerr option" where
  "same_text h s = (if h = s then None else Some (EOther ''mismatch''))"

lemma good_ident: "valid_ident plain_textlib defaultConfiguration ''a'' = Ok ''a''"
  "valid_ident plain_textlib defaultConfiguration ''c'' = Ok ''c''"
  unfolding valid_ident_def DefaultValidateNoNewlineAndNormalize_def
  by (subst default_normalize [where P = "\<lambda>v. \<forall>x \<in> set (runes ''a''). \<not> noNewlineRange (fst x)"];
      simp add: acceptable_def letter_runes letter_ok plain_textlib_def notAllowedRange_def
      notallowed_cc_def private_use_def surrogate_def noncharacter_def defaultConfiguration_def
      validateNoNewlinesUnsafe_def newlines_loop_None noNewlineRange_def)+

lemma c_key: "UserUniqueIdent plain_textlib ''c'' = Ok ''c''"
  by (simp add: UserUniqueIdent_def unique_key_def toCaselessNFKC_def prevalidated_def validateEncoding_def
      valid_string_def validateCodepoints_def letter_runes toCaselessNFKCUnsafe_def plain_textlib_def letter_ok)

lemma find_ident_a: "FindUsers (no_opts\<lparr>o_prefix := Some (UsersIdent (Some ''a'')), o_lock := LockWrite, o_limit := 1\<rparr>)
    (work False start_db n al) = (Ok [alice], work False start_db (Suc n) al)"
  by (simp add: find_run work_find start_db_sels)

lemma find_ident_c: "FindUsers (no_opts\<lparr>o_prefix := Some (UsersIdent (Some ''c'')), o_limit := 1\<rparr>)
    (work False start_db n al) = (Ok [], work False start_db (Suc n) al)"
  by (simp add: find_run work_find start_db_sels)

lemma find_alice_id: "FindUsers (no_opts\<lparr>o_prefix := Some (UsersPrimary (Some 7)), o_lock := LockWrite, o_limit := 1\<rparr>)
    (work False start_db n al) = (Ok [alice], work False start_db (Suc n) al)"
  by (simp add: find_run work_find start_db_sels)

lemma find_bob_id: "FindUsers (no_opts\<lparr>o_prefix := Some (UsersPrimary (Some 9)), o_lock := lk\<rparr>)
    (work ro start_db n al) = (Ok [bob], work ro start_db (Suc n) al)"
  by (simp add: find_run work_find start_db_sels)

lemma update_alice:
  assumes "u_id u = 7" "u_ident u = ''a''"
  shows "UpdateUser u (work False start_db n al) = (Ok (), work False
    (start_db\<lparr>db_users := [row [SInt 7, SBytes ''a''] u, row [SInt 9, SBytes ''b''] bob]\<rparr>) (Suc n) al)"
proof -
  have vals: "tb_vals users_table calm_env u = Ok [SInt 7, SBytes ''a'']"
    using assms by (simp add: tables_vals unique_key_letter demo_sels)
  show ?thesis using assms unfolding UpdateUser_def
    by (subst work_update [where kvals = "[SInt 7]", OF vals]) (simp_all add: write_run start_db_sels)
qed

lemma update_bob_user:
  assumes "u_id u = 9" "u_ident u = ''b''"
  shows "UpdateUser u (work False start_db n al) = (Ok (), work False
    (start_db\<lparr>db_users := [row [SInt 7, SBytes ''a''] alice, row [SInt 9, SBytes ''b''] u]\<rparr>) (Suc n) al)"
proof -
  have vals: "tb_vals users_table calm_env u = Ok [SInt 9, SBytes ''b'']"
    using assms by (simp add: tables_vals unique_key_letter demo_sels)
  show ?thesis using assms unfolding UpdateUser_def
    by (subst work_update [where kvals = "[SInt 9]", OF vals]) (simp_all add: write_run start_db_sels)
qed

lemma alice_token: "u_tokens alice = [\<lparr>ut_id = 1, ut_created = Some ts0, ut_last_seen = Some ts0\<rparr>]"
  "u_secret alice = ''hash''" "u_next_token alice = 1" "u_id alice = 7" "u_ident alice = ''a''"
  by (simp_all add: alice_def)

lemma lenient_now0: "lenient_ts now0 = Some \<lparr>ts_seconds = 2000, ts_nanos = 0\<rparr>"
  by (simp add: lenient_ts_def ptypes_TimestampProto_def valid_ts_def now0_def)

lemma auth_demo_exact:
  "\<exists>u w'. AuthUserTask as_alice now0 same_text ''a'' ''hash'' 0 0 demo = (Ok (u, 2), w') \<and> u_id u = 7"
proof -
  let ?ts = "Some \<lparr>ts_seconds = 2000, ts_nanos = 0\<rparr>"
  let ?uts = "u_tokens alice @ [\<lparr>ut_id = 2, ut_created = ?ts, ut_last_seen = ?ts\<rparr>]"
  have "size (mset (sort_tokens (\<lambda>i. i) ?uts)) = 2"
    unfolding mset_sort_tokens by (simp add: alice_token)
  then obtain uts where uts: "trim_tokens 2 (sort_tokens (\<lambda>i. i) ?uts) = Ok uts"
    by (simp add: trim_tokens_def maxUserTokens_def)
  obtain rows where "UpdateUser (alice\<lparr>u_next_token := 2, u_tokens := uts, u_last_seen := ?ts, u_modified := ?ts\<rparr>)
      (work False start_db n al) = (Ok (), work False (start_db\<lparr>db_users := rows\<rparr>) (Suc n) al)" for n al
    using update_alice [of "alice\<lparr>u_next_token := 2, u_tokens := uts, u_last_seen := ?ts, u_modified := ?ts\<rparr>"]
    by (simp add: alice_token)
  then show ?thesis using uts
    by (simp add: AuthUserTask_def run_alice bind_run revert_def deferred_def auth_body_def user_by_ident_def
        alice_conf good_ident demo_sels unique_key_letter find_ident_a subject_user_def check_secret_def
        maxUserSecretLength_def same_text_def alice_token add_token_def Let_def int64_def lenient_now0
        work_Commit committed_Rollback)
qed

lemma auth_demo: "\<exists>u tid w'. AuthUserTask as_alice now0 same_text ''a'' ''hash'' 0 0 demo = (Ok (u, tid), w')"
  using auth_demo_exact by blast

lemma unauth_demo: "\<exists>w'. UnauthUserTask as_alice now0 7 1 demo = (Ok (), w')"
proof -
  let ?ts = "Some \<lparr>ts_seconds = 2000, ts_nanos = 0\<rparr>"
  obtain rows where "UpdateUser (alice\<lparr>u_tokens := [], u_last_seen := ?ts, u_modified := ?ts\<rparr>)
      (work False start_db n al) = (Ok (), work False (start_db\<lparr>db_users := rows\<rparr>) (Suc n) al)" for n al
    using update_alice [of "alice\<lparr>u_tokens := [], u_last_seen := ?ts, u_modified := ?ts\<rparr>"]
    by (simp add: alice_token)
  then show ?thesis
    by (simp add: UnauthUserTask_def run_alice bind_run revert_def deferred_def unauth_body_def
        find_alice_id subject_user_def alice_token lenient_now0 work_Commit committed_Rollback)
qed

lemma insert_user_c:
  assumes "u_id u = 100" "u_ident u = ''c''"
  shows "InsertUser u (work False start_db n al) = (Ok (), work False (start_db\<lparr>db_users :=
    [row [SInt 7, SBytes ''a''] alice, row [SInt 9, SBytes ''b''] bob, row [SInt 100, SBytes ''c''] u]\<rparr>) (Suc n) al)"
proof -
  have vals: "tb_vals users_table calm_env u = Ok [SInt 100, SBytes ''c'']"
    using assms by (simp add: tables_vals c_key demo_sels)
  show ?thesis unfolding InsertUser_def
    by (subst work_insert [OF vals]) (simp_all add: write_run start_db_sels)
qed

lemma create_demo: "\<exists>u w'. CreateUserTask as_alice now0 Inr ''c'' ''pw'' None [] demo = (Ok u, w')"
proof -
  obtain cs where "c_new_user defaultConfiguration = Some cs" by (simp add: defaultConfiguration_def)
  then show ?thesis
    by (simp add: CreateUserTask_def run_alice bind_run revert_def deferred_def create_user_body_def alice_conf
        alice_may demo_sels good_ident c_key find_ident_c check_secret_def maxUserSecretLength_def work_AllocId
        insert_user_c Let_def work_Commit committed_Rollback)
qed

lemma bob_user: "u_id bob = 9" "u_ident bob = ''b''" "u_caps bob = [2]" "user_version bob = Ok 1000000000000"
  by (simp_all add: bob_def user_version_def order_run ts0_def)

lemma update_demo: "\<exists>u w'. UpdateUserTask as_alice now0 9 1000000000000 [9] [2] demo = (Ok u, w')"
proof -
  let ?ts = "Some \<lparr>ts_seconds = 2000, ts_nanos = 0\<rparr>"
  have caps: "new_caps [2] [9] [2] = [9]" "check_cap_change [9] [2] = Ok ()"
    by (simp_all add: new_caps_def check_cap_change_def cap_known_def known_capability_def)
  obtain rows where "UpdateUser (bob\<lparr>u_caps := [9], u_modified := ?ts\<rparr>)
      (work False start_db n al) = (Ok (), work False (start_db\<lparr>db_users := rows\<rparr>) (Suc n) al)" for n al
    using update_bob_user [of "bob\<lparr>u_caps := [9], u_modified := ?ts\<rparr>"] by (simp add: bob_user)
  then show ?thesis
    by (simp add: UpdateUserTask_def run_alice bind_run revert_def deferred_def update_user_body_def
        lookupObjectUser_def deriveObjectUserId_def AnonymousUserId_def alice_token find_bob_id alice_conf
        bob_user change_caps_def alice_may caps caps_differ_def finish_update_def Let_def
        work_Commit committed_Rollback)
qed

lemma read_alice: "authedReadonlyJob as_alice now0 demo = (Ok (Some alice), work True start_db 6 ids0)"
  by (simp add: authedReadonlyJob_def alice_job demo_job_work)

lemma reads_all: "userCredOf (Some alice) conf = Ok uc \<Longrightarrow> cs_has (uc_caps uc) USER_READ_ALL"
  by (auto simp: userCredOf_def alice_def CapSetOf_has)

lemma lookup_demo: "\<exists>w'. LookupUserTask as_alice now0 9 False demo = (Ok bob, w')"
proof -
  obtain uc where uc: "userCredOf (Some alice) defaultConfiguration = Ok uc" by (simp add: userCredOf_def)
  show ?thesis using reads_all [OF uc]
    by (simp add: LookupUserTask_def read_alice bind_run revert_def deferred_def lookup_user_body_def
        lookupObjectUser_def deriveObjectUserId_def AnonymousUserId_def alice_token find_bob_id alice_conf
        uc seen_user_def work_Rollback) (simp add: Rollback_def)
qed

subsection \<open>The properties at these runs\<close>

theorem AuthUserTask_signs_in_witness:
  "\<exists>u tid w' d (u0 :: user) all. AuthUserTask as_alice now0 same_text ''a'' ''hash'' 0 0 demo = (Ok (u, tid), w') \<and>
     best_tokens all (u_tokens u) \<and> tid \<in> ut_id ` set (u_tokens u) \<and> same_text (u_secret u0) ''hash'' = None \<and>
     user_changed d (w_db w') u"
proof -
  obtain u tid w' where run: "AuthUserTask as_alice now0 same_text ''a'' ''hash'' 0 0 demo = (Ok (u, tid), w')"
    using auth_demo by blast
  from AuthUserTask_signs_in [OF demo_fits demo_idle run] run show ?thesis
    unfolding identified_def by auto
qed

theorem UnauthUserTask_signs_out_witness:
  "\<exists>w' d u k. UnauthUserTask as_alice now0 7 1 demo = (Ok (), w') \<and> visit_only (w_db demo) d \<and>
     u \<in> set (msgs (db_users d)) \<and> u_id u = 7 \<and> token_index 1 (u_tokens u) = Some k"
proof -
  obtain w' where run: "UnauthUserTask as_alice now0 7 1 demo = (Ok (), w')" using unauth_demo by blast
  from UnauthUserTask_signs_out [OF demo_fits demo_idle run] run show ?thesis
    by blast
qed

theorem CreateUserTask_creates_witness:
  "\<exists>u w' d. CreateUserTask as_alice now0 Inr ''c'' ''pw'' None [] demo = (Ok u, w') \<and> visit_only (w_db demo) d \<and>
     u_id u \<notin> set (map u_id (msgs (db_users d))) \<and> msgs (db_users (w_db w')) = msgs (db_users d) @ [u]"
proof -
  obtain u w' where run: "CreateUserTask as_alice now0 Inr ''c'' ''pw'' None [] demo = (Ok u, w')"
    using create_demo by blast
  from CreateUserTask_creates [OF demo_fits demo_idle run] run show ?thesis
    by blast
qed

theorem UpdateUserTask_updates_witness:
  "\<exists>u w' (u0 :: user). UpdateUserTask as_alice now0 9 1000000000000 [9] [2] demo = (Ok u, w') \<and>
     set (u_caps u) = (set (u_caps u0) \<union> {9}) - {2}"
proof -
  obtain u w' where run: "UpdateUserTask as_alice now0 9 1000000000000 [9] [2] demo = (Ok u, w')"
    using update_demo by blast
  from UpdateUserTask_updates [OF demo_fits demo_idle run] run show ?thesis by auto
qed


end
