(* ===== verification/Tags.thy ===== *)
theory Tags
  imports Votes
begin

section \<open>Tags (be/tasks/add_pic_tags_task.go, update_pic_tag_task.go)\<close>

text \<open>
  Tagging a picture cleans the names, finds those the picture does not have yet, counts the
  existing tags up, creates the missing ones and attaches both. Maps of Go are maps here, and
  a tag that is changed in place is the changed tag in the list that is handed on.
\<close>

record tag_name =
  tn_name :: string
  tn_orig :: string
  tn_uniq :: string

fun res_each :: "('a \<Rightarrow> 'b res) \<Rightarrow> 'a list \<Rightarrow> 'b list res" where
  "res_each f [] = Ok []"
| "res_each f (x # xs) = res_bind (f x) (\<lambda>y. res_map (\<lambda>ys. y # ys) (res_each f xs))"

subsection \<open>Names\<close>

definition validateNoDuplicateTags :: "tag_name list \<Rightarrow> unit res" where
  "validateNoDuplicateTags ns =
     (if distinct (map tn_uniq ns) then Ok () else Err (InvalidArgument None ''duplicate tag''))"

definition clean_name :: "textlib \<Rightarrow> int \<Rightarrow> int \<Rightarrow> string \<Rightarrow> tag_name res" where
  "clean_name tlib mn mx raw =
     (let validators = [DefaultValidator mn mx, validateNoNewlines];
          normalizers = [ToNFC tlib, \<lambda>txt field. Ok (strings_TrimSpace txt)]
      in case validateAndNormalize raw ''tag'' normalizers validators validators of
           Ok name \<Rightarrow> res_map (\<lambda>u. \<lparr>tn_name = name, tn_orig = raw, tn_uniq = u\<rparr>) (TagUniqueName tlib name)
         | Err e \<Rightarrow> Err (From (EStatus e))
         | Panic p \<Rightarrow> Panic p)"

definition cleanTagNames :: "textlib \<Rightarrow> string list \<Rightarrow> int \<Rightarrow> int \<Rightarrow> tag_name list res" where
  "cleanTagNames tlib raws mn mx =
     res_bind (res_each (clean_name tlib mn mx) raws) (\<lambda>ns.
     res_map (\<lambda>_. ns) (validateNoDuplicateTags ns))"

subsection \<open>Finding tags\<close>

definition attached_tag :: "pic_tag \<Rightarrow> tag io" where
  "attached_tag pt =
     bind (wrap_err (\<lambda>e. Internal e ''can't find tags'')
       (FindTags (no_opts\<lparr>o_prefix := Some (TagsPrimary (Some (pt_tag pt))), o_limit := 1,
         o_lock := LockWrite\<rparr>))) (\<lambda>ts.
     (case ts of [t] \<Rightarrow> ret t | _ \<Rightarrow> fail (Internal None ''can't lookup tag'')))"

definition findAttachedPicTags :: "int \<Rightarrow> (tag list \<times> pic_tag list) io" where
  "findAttachedPicTags picId =
     bind (wrap_err (\<lambda>e. Internal e ''cant't find pic tags'')
       (FindPicTags (no_opts\<lparr>o_prefix := Some (PicTagsPrimary (Some picId) None), o_lock := LockWrite\<rparr>))) (\<lambda>pts.
     bind (each attached_tag pts) (\<lambda>tags. ret (tags, pts)))"

definition findUnattachedTagNames :: "textlib \<Rightarrow> tag list \<Rightarrow> tag_name list \<Rightarrow> tag_name list res" where
  "findUnattachedTagNames tlib attached ns =
     res_map (\<lambda>uniqs. filter (\<lambda>n. tn_uniq n \<notin> set uniqs) ns)
       (res_each (\<lambda>t. TagUniqueName tlib (t_name t)) attached)"

fun findExistingTagsByName :: "tag_name list \<Rightarrow> (tag list \<times> tag_name list) io" where
  "findExistingTagsByName [] = ret ([], [])"
| "findExistingTagsByName (n # ns) =
     bind (wrap_err (\<lambda>e. Internal e ''can't find tags'')
       (FindTags (no_opts\<lparr>o_prefix := Some (TagsName (Some (tn_uniq n))), o_limit := 1,
         o_lock := LockWrite\<rparr>))) (\<lambda>ts.
     bind (findExistingTagsByName ns) (\<lambda>(tags, unknown).
     (case ts of [t] \<Rightarrow> ret (t # tags, unknown) | _ \<Rightarrow> ret (tags, n # unknown))))"

subsection \<open>Writing tags\<close>

definition count_up :: "int \<Rightarrow> tag \<Rightarrow> tag io" where
  "count_up now t =
     bind (lift_res (ToTspb now)) (\<lambda>nowts.
     let t' = t\<lparr>t_modified := Some nowts, t_usage := wrap64 (t_usage t + 1)\<rparr> in
     bind (wrap_err (\<lambda>e. Internal e ''can't update tag'') (UpdateTag t')) (\<lambda>_. ret t'))"

definition updateExistingTags :: "tag list \<Rightarrow> int \<Rightarrow> tag list io" where
  "updateExistingTags tags now = each (count_up now) tags"

definition create_tag :: "int \<Rightarrow> tag_name \<Rightarrow> tag io" where
  "create_tag now n =
     bind (wrap_err (\<lambda>e. Internal e ''can't allocate id'') AllocId) (\<lambda>tagId.
     bind (lift_res (ToTspb now)) (\<lambda>nowts.
     let t = \<lparr>t_id = tagId, t_name = tn_name n, t_usage = 1, t_created = Some nowts,
               t_modified = Some nowts, t_ext = []\<rparr> in
     bind (wrap_err (\<lambda>e. Internal e ''can't create tag'') (InsertTag t)) (\<lambda>_. ret t)))"

definition createNewTags :: "tag_name list \<Rightarrow> int \<Rightarrow> tag list io" where
  "createNewTags ns now = each (create_tag now) ns"

definition attach_tag :: "int \<Rightarrow> int \<Rightarrow> int \<Rightarrow> tag \<Rightarrow> pic_tag io" where
  "attach_tag picId now userId t =
     bind (lift_res (ToTspb now)) (\<lambda>nowts.
     let pt = \<lparr>pt_pic = picId, pt_tag = t_id t, pt_name = t_name t, pt_user = userId,
                pt_created = Some nowts, pt_modified = Some nowts, pt_ext = []\<rparr> in
     bind (wrap_err (\<lambda>e. Internal e ''can't create pic tag'') (InsertPicTag pt)) (\<lambda>_. ret pt))"

definition createPicTags :: "tag list \<Rightarrow> int \<Rightarrow> int \<Rightarrow> int \<Rightarrow> pic_tag list io" where
  "createPicTags tags picId now userId = each (attach_tag picId now userId) tags"

subsection \<open>The ids of the names\<close>

fun tag_map :: "textlib \<Rightarrow> (string \<rightharpoonup> int) \<Rightarrow> tag list \<Rightarrow> (string \<rightharpoonup> int) res" where
  "tag_map tlib m [] = Ok m"
| "tag_map tlib m (t # ts) =
     res_bind (TagUniqueName tlib (t_name t)) (\<lambda>u.
       if m u \<noteq> None then Err (Internal None ''duplicte tag'')
       else tag_map tlib (m(u \<mapsto> t_id t)) ts)"

fun name_map :: "(string \<rightharpoonup> int) \<Rightarrow> (string \<rightharpoonup> int) \<Rightarrow> tag_name list \<Rightarrow> (string \<rightharpoonup> int) res" where
  "name_map tags m [] = Ok m"
| "name_map tags m (n # ns) =
     (case tags (tn_uniq n) of
        None \<Rightarrow> Err (Internal None ''tag missing'')
      | Some i \<Rightarrow>
          if m (tn_uniq n) \<noteq> None then Err (Internal None ''duplicate tag'')
          else name_map tags (m(tn_orig n \<mapsto> i)) ns)"

definition buildTagIdList :: "textlib \<Rightarrow> tag_name list \<Rightarrow> tag list \<Rightarrow> tag list \<Rightarrow> (string \<rightharpoonup> int) res" where
  "buildTagIdList tlib provided existing created =
     res_bind (tag_map tlib Map.empty existing) (\<lambda>m.
     res_bind (tag_map tlib m created) (\<lambda>tags. name_map tags Map.empty provided))"

subsection \<open>The tasks\<close>

definition upsertTags :: "string list \<Rightarrow> int \<Rightarrow> int \<Rightarrow> int \<Rightarrow> int \<Rightarrow> int \<Rightarrow> (string \<rightharpoonup> int) io" where
  "upsertTags rawTags picId now userId mn mx =
     bind (get_state (\<lambda>w. e_text (w_env w))) (\<lambda>tlib.
     bind (lift_res (cleanTagNames tlib rawTags mn mx)) (\<lambda>ns.
     bind (findAttachedPicTags picId) (\<lambda>(attached, _).
     bind (lift_res (findUnattachedTagNames tlib attached ns)) (\<lambda>unattached.
     bind (findExistingTagsByName unattached) (\<lambda>(existing, unknown).
     bind (updateExistingTags existing now) (\<lambda>existing'.
     bind (createNewTags unknown now) (\<lambda>newTags.
     bind (createPicTags (existing' @ newTags) picId now userId) (\<lambda>_.
     lift_res (buildTagIdList tlib ns attached (existing' @ newTags))))))))))"

definition add_tags_body :: "ctx \<Rightarrow> int \<Rightarrow> int \<Rightarrow> string list \<Rightarrow> user option \<Rightarrow> (string \<rightharpoonup> int) io" where
  "add_tags_body cx now picId tagNames u =
     bind (GetConfiguration cx) (\<lambda>conf.
     bind (lift_res (validateCapability u conf [PIC_TAG_CREATE])) (\<lambda>_.
     bind (pic_to ''can't tag deleted pic'' LockWrite picId) (\<lambda>p.
     bind (upsertTags tagNames (p_id p) now (subject_id u)
       (bound_or min_int64 (c_min_tag conf)) (bound_or max_int64 (c_max_tag conf))) (\<lambda>ids.
     bind (wrap_err (\<lambda>e. Internal e ''can't commit job'') Commit) (\<lambda>_. ret ids)))))"

definition AddPicTagsTask :: "ctx \<Rightarrow> int \<Rightarrow> int \<Rightarrow> string list \<Rightarrow> (string \<rightharpoonup> int) io" where
  "AddPicTagsTask cx now picId tagNames =
     bind (authedJob cx now) (\<lambda>u. revert (add_tags_body cx now picId tagNames u))"

definition pictag_version :: "pic_tag \<Rightarrow> int res" where
  "pictag_version pt = res_map UnixNano (ToTime (pt_modified pt))"

definition update_pictag_body :: "ctx \<Rightarrow> int \<Rightarrow> int \<Rightarrow> int \<Rightarrow> int \<Rightarrow> extmap \<Rightarrow> user option \<Rightarrow> unit io" where
  "update_pictag_body cx now picId tagId version ext u =
     bind (GetConfiguration cx) (\<lambda>conf.
     bind (lift_res (validateCapability u conf [PIC_TAG_EXTENSION_CREATE])) (\<lambda>_.
     bind (wrap_err (\<lambda>e. Internal e ''can't find pics'')
       (FindPics (no_opts\<lparr>o_limit := 1, o_prefix := Some (PicsPrimary (Some picId))\<rparr>))) (\<lambda>ps.
     bind (check (length ps = 1) (NotFound None ''can't lookup pic'')) (\<lambda>_.
     bind (wrap_err (\<lambda>e. Internal e ''can't find tags'')
       (FindTags (no_opts\<lparr>o_limit := 1, o_prefix := Some (TagsPrimary (Some tagId))\<rparr>))) (\<lambda>ts.
     bind (check (length ts = 1) (NotFound None ''can't lookup tag'')) (\<lambda>_.
     bind (wrap_err (\<lambda>e. Internal e ''can't find pic tags'')
       (FindPicTags (no_opts\<lparr>o_limit := 1, o_prefix := Some (PicTagsPrimary (Some picId) (Some tagId)),
         o_lock := LockWrite\<rparr>))) (\<lambda>pts.
     (case pts of
        [pt] \<Rightarrow>
          bind (lift_res (pictag_version pt)) (\<lambda>v.
          bind (check (v = version) (Aborted None ''version mismatch'')) (\<lambda>_.
          bind (lift_res (ToTspb now)) (\<lambda>nowts.
          bind (wrap_err (\<lambda>e. Internal e ''can't update'')
            (UpdatePicTag (pt\<lparr>pt_ext := ext, pt_modified := Some nowts\<rparr>))) (\<lambda>_.
          bind (wrap_err (\<lambda>e. Internal e ''can't commit'') Commit) (\<lambda>_. ret ())))))
      | _ \<Rightarrow> fail (NotFound None ''can't lookup pic tag'')))))))))"

definition UpdatePicTagTask :: "ctx \<Rightarrow> int \<Rightarrow> int \<Rightarrow> int \<Rightarrow> int \<Rightarrow> extmap \<Rightarrow> unit io" where
  "UpdatePicTagTask cx now picId tagId version ext =
     bind (authedJob cx now) (\<lambda>u. revert (update_pictag_body cx now picId tagId version ext u))"

subsection \<open>Frames\<close>

lemma attached_frames: "keeps keeps_fit (findAttachedPicTags i)" "keeps keeps_base (findAttachedPicTags i)"
  "keeps keeps_acct (findAttachedPicTags i)"
  unfolding findAttachedPicTags_def attached_tag_def
  by (auto intro!: task_frames split: list.splits)

lemma existing_frames: "keeps keeps_fit (findExistingTagsByName ns)"
  "keeps keeps_base (findExistingTagsByName ns)" "keeps keeps_acct (findExistingTagsByName ns)"
  by (induction ns) (auto intro!: task_frames split: list.splits)

lemma tag_write_frames: "keeps keeps_fit (updateExistingTags ts n)" "keeps keeps_base (updateExistingTags ts n)"
  "keeps keeps_acct (updateExistingTags ts n)" "keeps keeps_fit (createNewTags ns n)"
  "keeps keeps_base (createNewTags ns n)" "keeps keeps_acct (createNewTags ns n)"
  "keeps keeps_fit (createPicTags ts i n u)" "keeps keeps_base (createPicTags ts i n u)"
  "keeps keeps_acct (createPicTags ts i n u)"
  unfolding updateExistingTags_def createNewTags_def createPicTags_def count_up_def create_tag_def
    attach_tag_def Let_def
  by (intro task_frames)+

lemma upsertTags_frames: "keeps keeps_fit (upsertTags raws i n u mn mx)"
  "keeps keeps_base (upsertTags raws i n u mn mx)" "keeps keeps_acct (upsertTags raws i n u mn mx)"
  unfolding upsertTags_def
  by (auto intro!: task_frames attached_frames existing_frames tag_write_frames)

interpretation add_tags: atomic_task "add_tags_body cx now picId tagNames" for cx now picId tagNames
  unfolding add_tags_body_def
  by unfold_locales
    (auto intro!: task_frames vote_frames upsertTags_frames commits_last_bind commits_last_Commit)

lemma commits_last_fail: "commits_last (fail e)"
  by (intro commits_last_base base_ops)

interpretation update_pictag: atomic_task "update_pictag_body cx now picId tagId version ext"
  for cx now picId tagId version ext
  unfolding update_pictag_body_def
  by unfold_locales
    (auto intro!: task_frames vote_frames commits_last_bind commits_last_Commit commits_last_fail
      split: list.splits)

end
