(* ===== verification/TagFacts.thy ===== *)
theory TagFacts
  imports Tags VoteFacts PurgeFacts
begin

section \<open>What tagging does\<close>

text \<open>
  The steps of \<open>AddPicTagsTask\<close> and \<open>UpdatePicTagTask\<close> on an open job, and what the tasks change when
  they succeed.
\<close>

subsection \<open>Names\<close>

lemma res_each_Ok: "res_each f xs = Ok ys \<longleftrightarrow> length ys = length xs \<and> list_all2 (\<lambda>x y. f x = Ok y) xs ys"
proof (induction xs arbitrary: ys)
  case Nil
  then show ?case by auto
next
  case (Cons x xs)
  show ?case
  proof (cases ys)
    case Nil
    then show ?thesis by (cases "f x"; cases "res_each f xs") auto
  next
    case (Cons z zs)
    then show ?thesis using Cons.IH [of zs] by (cases "f x"; cases "res_each f xs") auto
  qed
qed

lemma clean_name_uniq: "clean_name tlib mn mx raw = Ok n \<Longrightarrow>
    tn_orig n = raw \<and> TagUniqueName tlib (tn_name n) = Ok (tn_uniq n)"
  by (cases "validateAndNormalize raw ''tag'' [ToNFC tlib, \<lambda>txt field. Ok (strings_TrimSpace txt)]
        [DefaultValidator mn mx, validateNoNewlines] [DefaultValidator mn mx, validateNoNewlines]";
      cases "TagUniqueName tlib (tn_name n)") (auto simp: clean_name_def Let_def split: res.splits)

lemma cleanTagNames_Ok:
  assumes "cleanTagNames tlib raws mn mx = Ok ns"
  shows "map tn_orig ns = raws" "distinct (map tn_uniq ns)"
    "\<forall>n \<in> set ns. TagUniqueName tlib (tn_name n) = Ok (tn_uniq n)"
proof -
  have r: "res_each (clean_name tlib mn mx) raws = Ok ns" "distinct (map tn_uniq ns)"
    using assms by (cases "res_each (clean_name tlib mn mx) raws";
        auto simp: cleanTagNames_def validateNoDuplicateTags_def split: if_splits)+
  show "distinct (map tn_uniq ns)" by (rule r(2))
  have all: "list_all2 (\<lambda>x y. clean_name tlib mn mx x = Ok y) raws ns" using r(1) by (simp add: res_each_Ok)
  then show "map tn_orig ns = raws"
    by (induction rule: list_all2_induct) (auto dest: clean_name_uniq)
  show "\<forall>n \<in> set ns. TagUniqueName tlib (tn_name n) = Ok (tn_uniq n)"
    using all by (induction rule: list_all2_induct) (auto dest: clean_name_uniq)
qed

definition uniq_of :: "textlib \<Rightarrow> tag \<Rightarrow> string" where
  "uniq_of tlib t = (case TagUniqueName tlib (t_name t) of Ok u \<Rightarrow> u | _ \<Rightarrow> [])"

lemma unattached_Ok:
  assumes "findUnattachedTagNames tlib attached ns = Ok un"
  shows "un = filter (\<lambda>n. tn_uniq n \<notin> uniq_of tlib ` set attached) ns"
    "\<forall>t \<in> set attached. TagUniqueName tlib (t_name t) = Ok (uniq_of tlib t)"
proof -
  obtain us where us: "res_each (\<lambda>t. TagUniqueName tlib (t_name t)) attached = Ok us"
    "un = filter (\<lambda>n. tn_uniq n \<notin> set us) ns"
    using assms by (cases "res_each (\<lambda>t. TagUniqueName tlib (t_name t)) attached")
      (auto simp: findUnattachedTagNames_def)
  have all: "list_all2 (\<lambda>t u. TagUniqueName tlib (t_name t) = Ok u) attached us"
    using us(1) by (simp add: res_each_Ok)
  then have "us = map (uniq_of tlib) attached"
    by (induction rule: list_all2_induct) (auto simp: uniq_of_def)
  then show "un = filter (\<lambda>n. tn_uniq n \<notin> uniq_of tlib ` set attached) ns" using us(2) by simp
  show "\<forall>t \<in> set attached. TagUniqueName tlib (t_name t) = Ok (uniq_of tlib t)"
    using all by (induction rule: list_all2_induct) (auto simp: uniq_of_def)
qed

subsection \<open>Finding tags\<close>

lemma attached_job:
  assumes "findAttachedPicTags i w = (Ok (tags, pts), w')" "job_at ev d0 d w"
  shows "job_at ev d0 d w'" "t_id ` set tags = pt_tag ` {pt \<in> set (msgs (db_pictags d)). pt_pic pt = i}"
    "set tags \<subseteq> set (msgs (db_tags d))"
proof -
  let ?look = attached_tag
  obtain w1 where s: "FindPicTags (no_opts\<lparr>o_prefix := Some (PicTagsPrimary (Some i) None), o_lock := LockWrite\<rparr>) w =
      (Ok pts, w1)" "each ?look pts w1 = (Ok tags, w')"
    using assms(1) unfolding findAttachedPicTags_def by (auto simp: run_simps elim!: bind_OkE)
  note f = job_find_pictags_pic [OF s(1) assms(2), of i]
  have job1: "job_at ev d0 d w1" using f(1) by simp
  have pts: "set pts = {pt \<in> set (msgs (db_pictags d)). pt_pic pt = i}"
    using f(2) by (auto simp: no_opts_def dest: found_all_set)
  have "job_at ev d0 d w' \<and> map t_id tags = map pt_tag pts \<and> set tags \<subseteq> set (msgs (db_tags d))"
    if "each ?look pts w = (Ok tags, w')" "job_at ev d0 d w" for pts tags w
    using that
  proof (induction pts arbitrary: w tags)
    case (Cons pt pts)
    obtain t w1 ts' where s: "?look pt w = (Ok t, w1)" "each ?look pts w1 = (Ok ts', w')" "tags = t # ts'"
      using Cons.prems(1) by (auto elim!: bind_OkE)
    have f: "FindTags (no_opts\<lparr>o_prefix := Some (TagsPrimary (Some (pt_tag pt))), o_limit := 1,
        o_lock := LockWrite\<rparr>) w = (Ok [t], w1)"
      using s(1) by (auto simp: attached_tag_def run_simps elim!: bind_OkE split: list.splits)
    note job = job_find_tags_id [OF f Cons.prems(2), of "pt_tag pt"]
    have "t_id t = pt_tag pt" "t \<in> set (msgs (db_tags d))" using found_set [OF job(2)] by auto
    with Cons.IH [OF s(2)] job(1) s(3) show ?case by simp
  qed (auto simp: run_simps)
  from this [OF s(2) job1] have r: "job_at ev d0 d w'" "map t_id tags = map pt_tag pts"
    "set tags \<subseteq> set (msgs (db_tags d))" by blast+
  show "job_at ev d0 d w'" "set tags \<subseteq> set (msgs (db_tags d))" using r(1,3) .
  have "set (map t_id tags) = set (map pt_tag pts)" using r(2) by simp
  then show "t_id ` set tags = pt_tag ` {pt \<in> set (msgs (db_pictags d)). pt_pic pt = i}" using pts by simp
qed

lemma existing_job:
  assumes "findExistingTagsByName ns w = (Ok (tags, unknown), w')" "job_at ev d0 d w"
  shows "job_at ev d0 d w'" "set tags \<subseteq> set (msgs (db_tags d))"
    "\<exists>known. mset ns = mset known + mset unknown \<and>
       map (\<lambda>t. TagUniqueName (e_text ev) (t_name t)) tags = map (\<lambda>n. Ok (tn_uniq n)) known"
    "\<forall>n \<in> set unknown. \<forall>t \<in> set (msgs (db_tags d)). TagUniqueName (e_text ev) (t_name t) \<noteq> Ok (tn_uniq n)"
proof -
  have "job_at ev d0 d w' \<and> set tags \<subseteq> set (msgs (db_tags d)) \<and>
    (\<exists>known. mset ns = mset known + mset unknown \<and>
       map (\<lambda>t. TagUniqueName (e_text ev) (t_name t)) tags = map (\<lambda>n. Ok (tn_uniq n)) known) \<and>
    (\<forall>n \<in> set unknown. \<forall>t \<in> set (msgs (db_tags d)). TagUniqueName (e_text ev) (t_name t) \<noteq> Ok (tn_uniq n))"
    using assms
  proof (induction ns arbitrary: w tags unknown)
    case (Cons n ns)
    let ?opt = "no_opts\<lparr>o_prefix := Some (TagsName (Some (tn_uniq n))), o_limit := 1, o_lock := LockWrite\<rparr>"
    obtain ts w1 tags' unknown' where s: "FindTags ?opt w = (Ok ts, w1)"
      "findExistingTagsByName ns w1 = (Ok (tags', unknown'), w')"
      "(case ts of [t] \<Rightarrow> (t # tags', unknown') | _ \<Rightarrow> (tags', n # unknown')) = (tags, unknown)"
      using Cons.prems(1) by (auto elim!: bind_OkE split: list.splits simp: run_simps)
    note job = job_find_tags_name [OF s(1) Cons.prems(2), of "tn_uniq n"]
    have fnd: "found (\<lambda>t. TagUniqueName (e_text ev) (t_name t) = Ok (tn_uniq n)) 1 (msgs (db_tags d)) ts"
      using job(2) by simp
    have job1: "job_at ev d0 d w1" using job(1) by simp
    note ih = Cons.IH [OF s(2) job1]
    have len: "length ts \<le> 1" using fnd by (auto simp: found_def)
    show ?case
    proof (cases ts)
      case Nil
      then have out: "tags = tags'" "unknown = n # unknown'" using s(3) by auto
      have none: "\<forall>t \<in> set (msgs (db_tags d)). TagUniqueName (e_text ev) (t_name t) \<noteq> Ok (tn_uniq n)"
        using fnd unfolding Nil by (auto simp: found_def filter_empty_conv)
      obtain known where "mset ns = mset known + mset unknown'"
        "map (\<lambda>t. TagUniqueName (e_text ev) (t_name t)) tags' = map (\<lambda>n. Ok (tn_uniq n)) known" using ih by blast
      then have "mset (n # ns) = mset known + mset unknown \<and>
          map (\<lambda>t. TagUniqueName (e_text ev) (t_name t)) tags = map (\<lambda>n. Ok (tn_uniq n)) known"
        unfolding out by simp
      with ih none show ?thesis unfolding out by auto
    next
      case (Cons t ts')
      then have t: "ts = [t]" using len by (cases ts') auto
      then have out: "tags = t # tags'" "unknown = unknown'" using s(3) by auto
      have ok: "t \<in> set (msgs (db_tags d))" "TagUniqueName (e_text ev) (t_name t) = Ok (tn_uniq n)"
        using found_set [OF fnd] t by auto
      obtain known where "mset ns = mset known + mset unknown'"
        "map (\<lambda>t. TagUniqueName (e_text ev) (t_name t)) tags' = map (\<lambda>n. Ok (tn_uniq n)) known" using ih by blast
      then have "mset (n # ns) = mset (n # known) + mset unknown \<and>
          map (\<lambda>t. TagUniqueName (e_text ev) (t_name t)) tags = map (\<lambda>n. Ok (tn_uniq n)) (n # known)"
        unfolding out using ok(2) by simp
      with ih ok(1) show ?thesis unfolding out by (metis insert_subset list.simps(15))
    qed
  qed (auto simp: run_simps)
  then show "job_at ev d0 d w'" "set tags \<subseteq> set (msgs (db_tags d))"
    "\<exists>known. mset ns = mset known + mset unknown \<and>
       map (\<lambda>t. TagUniqueName (e_text ev) (t_name t)) tags = map (\<lambda>n. Ok (tn_uniq n)) known"
    "\<forall>n \<in> set unknown. \<forall>t \<in> set (msgs (db_tags d)). TagUniqueName (e_text ev) (t_name t) \<noteq> Ok (tn_uniq n)"
    by blast+
qed

subsection \<open>Writing tags\<close>

definition stamp :: "int \<Rightarrow> tspb option" where
  "stamp now = (case ToTspb now of Ok ts \<Rightarrow> Some ts | _ \<Rightarrow> None)"

definition used_more :: "int \<Rightarrow> tag \<Rightarrow> tag" where
  "used_more now t = t\<lparr>t_modified := stamp now, t_usage := wrap64 (t_usage t + 1)\<rparr>"

definition new_pictag :: "int \<Rightarrow> int \<Rightarrow> int \<Rightarrow> tag \<Rightarrow> pic_tag" where
  "new_pictag now i userId t = \<lparr>pt_pic = i, pt_tag = t_id t, pt_name = t_name t, pt_user = userId,
     pt_created = stamp now, pt_modified = stamp now, pt_ext = []\<rparr>"

lemma used_more_sels [simp]: "t_id (used_more now t) = t_id t" "t_name (used_more now t) = t_name t"
  by (simp_all add: used_more_def)

lemma each_ConsE:
  assumes "each f (x # xs) w = (Ok ys, w')"
  obtains y w1 ys' where "f x w = (Ok y, w1)" "each f xs w1 = (Ok ys', w')" "ys = y # ys'"
  using assms by (auto simp: run_simps elim!: bind_OkE)

lemma count_up_Ok:
  assumes "count_up now t w = (Ok t1, w1)"
  shows "t1 = used_more now t \<and> UpdateTag t1 w = (Ok (), w1)"
proof -
  obtain nowts where now: "ToTspb now = Ok nowts"
    using assms unfolding count_up_def by (cases "ToTspb now") (simp_all add: bind_def run_simps)
  have t: "t\<lparr>t_modified := Some nowts, t_usage := wrap64 (t_usage t + 1)\<rparr> = used_more now t"
    using now by (simp add: used_more_def stamp_def)
  have "bind (wrap_err (\<lambda>e. Internal e ''can't update tag'') (UpdateTag (used_more now t)))
      (\<lambda>_. ret (used_more now t)) w = (Ok t1, w1)"
    using assms unfolding count_up_def Let_def now by (simp add: t bind_def [of "lift_res _"] run_simps)
  then show ?thesis by (auto simp: run_simps elim!: bind_OkE)
qed

lemma updateExistingTags_job:
  assumes "updateExistingTags ts now w = (Ok ts', w')" "job_at ev d0 d w"
    "set ts \<subseteq> set (msgs (db_tags d))" "distinct (map t_id ts)"
  shows "\<exists>rows. job_at ev d0 (d\<lparr>db_tags := rows\<rparr>) w' \<and> ts' = map (used_more now) ts \<and>
    msgs rows = map (\<lambda>q. if t_id q \<in> t_id ` set ts then used_more now q else q) (msgs (db_tags d))"
  using assms unfolding updateExistingTags_def
proof (induction ts arbitrary: w d ts')
  case Nil
  then show ?case by (intro exI [of _ "db_tags d"]) (auto simp: run_simps)
next
  case (Cons t ts)
  obtain t1 w1 ts1 where s0: "count_up now t w = (Ok t1, w1)" "each (count_up now) ts w1 = (Ok ts1, w')"
    "ts' = t1 # ts1"
    by (rule each_ConsE [OF Cons.prems(1)])
  note up = conjunct2 [OF count_up_Ok [OF s0(1)]] and t1' = conjunct1 [OF count_up_Ok [OF s0(1)]]
  obtain rows where r: "job_at ev d0 (d\<lparr>db_tags := rows\<rparr>) w1"
    "msgs rows = map (\<lambda>q. if t_id q = t_id t1 then t1 else q) (msgs (db_tags d))"
    using job_update_tags [OF up Cons.prems(2)] by blast
  have same: "q = t" if "q \<in> set (msgs (db_tags d))" "t_id q = t_id t" for q
    using tags_distinct [OF job_at_D(2) [OF Cons.prems(2)]] that Cons.prems(3)
    by (auto simp: distinct_map inj_on_def)
  have r1: "msgs rows = map (\<lambda>q. if t_id q = t_id t then used_more now q else q) (msgs (db_tags d))"
    unfolding r(2)
  proof (rule map_cong [OF refl])
    fix q
    assume "q \<in> set (msgs (db_tags d))"
    then have "t_id q = t_id t \<Longrightarrow> q = t" by (rule same)
    then show "(if t_id q = t_id t1 then t1 else q) = (if t_id q = t_id t then used_more now q else q)"
      unfolding t1' used_more_sels by (cases "t_id q = t_id t") simp_all
  qed
  have sub: "set ts \<subseteq> set (msgs (db_tags (d\<lparr>db_tags := rows\<rparr>)))"
  proof
    fix x
    assume x: "x \<in> set ts"
    then have "t_id x \<noteq> t_id t" using Cons.prems(4) by (auto simp: image_iff)
    then have "x = (\<lambda>q. if t_id q = t_id t then used_more now q else q) x" by simp
    moreover have "x \<in> set (msgs (db_tags d))" using x Cons.prems(3) by auto
    ultimately have "x \<in> (\<lambda>q. if t_id q = t_id t then used_more now q else q) ` set (msgs (db_tags d))"
      by (rule image_eqI)
    then show "x \<in> set (msgs (db_tags (d\<lparr>db_tags := rows\<rparr>)))" using r1 by simp
  qed
  obtain rows' where r': "job_at ev d0 (d\<lparr>db_tags := rows, db_tags := rows'\<rparr>) w'"
    "ts1 = map (used_more now) ts"
    "msgs rows' = map (\<lambda>q. if t_id q \<in> t_id ` set ts then used_more now q else q) (msgs rows)"
    using Cons.IH [OF s0(2) r(1) sub] Cons.prems(4) by auto
  have "msgs rows' = map (\<lambda>q. if t_id q \<in> t_id ` set (t # ts) then used_more now q else q) (msgs (db_tags d))"
    unfolding r'(3) r1 map_map using Cons.prems(4) by (intro map_cong) auto
  then show ?case using r'(1,2) s0(3) t1' by auto
qed

lemma createNewTags_job:
  assumes "createNewTags ns now w = (Ok ts, w')" "job_at ev d0 d w"
  shows "\<exists>sq rows. job_at ev d0 (d\<lparr>db_seq := sq, db_tags := rows\<rparr>) w' \<and> msgs rows = msgs (db_tags d) @ ts \<and>
    map t_name ts = map tn_name ns \<and> list_all (\<lambda>t. t_usage t = 1) ts"
  using assms unfolding createNewTags_def
proof (induction ns arbitrary: w d ts)
  case Nil
  then show ?case by (intro exI [of _ "db_seq d"] exI [of _ "db_tags d"]) (auto simp: run_simps)
next
  case (Cons n ns)
  obtain t w1 ts1 where s: "create_tag now n w = (Ok t, w1)" "each (create_tag now) ns w1 = (Ok ts1, w')"
    "ts = t # ts1"
    by (rule each_ConsE [OF Cons.prems(1)])
  obtain k w2 where a: "AllocId w = (Ok k, w2)" "InsertTag t w2 = (Ok (), w1)" "t_name t = tn_name n" "t_usage t = 1"
    using s(1) by (auto simp: create_tag_def Let_def run_simps elim!: bind_OkE)
  obtain sq where sq: "job_at ev d0 (d\<lparr>db_seq := sq\<rparr>) w2" using job_AllocId [OF a(1) Cons.prems(2)] by blast
  obtain rows where r: "job_at ev d0 (d\<lparr>db_seq := sq, db_tags := rows\<rparr>) w1" "msgs rows = msgs (db_tags d) @ [t]"
    using job_insert_tags [OF a(2) sq] by auto
  obtain sq' rows' where "job_at ev d0 (d\<lparr>db_seq := sq, db_tags := rows, db_seq := sq', db_tags := rows'\<rparr>) w'"
    "msgs rows' = msgs rows @ ts1" "map t_name ts1 = map tn_name ns" "list_all (\<lambda>t. t_usage t = 1) ts1"
    using Cons.IH [OF s(2) r(1)] by auto
  then show ?case using r(2) s(3) a(3,4) by (intro exI [of _ sq'] exI [of _ rows']) auto
qed

lemma createPicTags_job:
  assumes "createPicTags ts i now userId w = (Ok pts, w')" "job_at ev d0 d w"
  shows "\<exists>rows. job_at ev d0 (d\<lparr>db_pictags := rows\<rparr>) w' \<and>
    msgs rows = msgs (db_pictags d) @ map (new_pictag now i userId) ts"
  using assms unfolding createPicTags_def
proof (induction ts arbitrary: w d pts)
  case Nil
  then show ?case by (intro exI [of _ "db_pictags d"]) (auto simp: run_simps)
next
  case (Cons t ts)
  obtain pt w1 pts1 where s: "attach_tag i now userId t w = (Ok pt, w1)"
    "each (attach_tag i now userId) ts w1 = (Ok pts1, w')"
    by (rule each_ConsE [OF Cons.prems(1)])
  have ins: "InsertPicTag (new_pictag now i userId t) w = (Ok (), w1)"
    using s(1) by (auto simp: attach_tag_def Let_def new_pictag_def stamp_def run_simps elim!: bind_OkE)
  obtain rows where r: "job_at ev d0 (d\<lparr>db_pictags := rows\<rparr>) w1"
    "msgs rows = msgs (db_pictags d) @ [new_pictag now i userId t]"
    using job_insert_pictags [OF ins Cons.prems(2)] by blast
  from Cons.IH [OF s(2) r(1)] r(2) show ?case by auto
qed

subsection \<open>The ids of the names\<close>

lemma tag_map_Ok: "tag_map tlib m ts = Ok m' \<Longrightarrow> m' u = Some i \<Longrightarrow>
    m u = Some i \<or> (\<exists>t \<in> set ts. TagUniqueName tlib (t_name t) = Ok u \<and> t_id t = i)"
proof (induction tlib m ts rule: tag_map.induct)
  case (2 tlib m t ts)
  obtain v where v: "TagUniqueName tlib (t_name t) = Ok v" "m v = None" "tag_map tlib (m(v \<mapsto> t_id t)) ts = Ok m'"
    using "2.prems"(1) by (cases "TagUniqueName tlib (t_name t)") (auto split: if_splits)
  have "(m(v \<mapsto> t_id t)) u = Some i \<or> (\<exists>t \<in> set ts. TagUniqueName tlib (t_name t) = Ok u \<and> t_id t = i)"
    by (rule "2.IH" [OF _ v(3) "2.prems"(2)]) (simp add: v(2))
  then show ?case using v(1) by (auto split: if_splits)
qed simp

lemma name_map_Ok:
  assumes "name_map tags m ns = Ok m'" "distinct (map tn_orig ns)"
  shows "(\<forall>n \<in> set ns. m' (tn_orig n) = tags (tn_uniq n) \<and> tags (tn_uniq n) \<noteq> None) \<and>
    (\<forall>x. x \<notin> tn_orig ` set ns \<longrightarrow> m' x = m x)"
  using assms
proof (induction tags m ns rule: name_map.induct)
  case (2 tags m n ns)
  then obtain i where i: "tags (tn_uniq n) = Some i" "m (tn_uniq n) = None"
    "name_map tags (m(tn_orig n \<mapsto> i)) ns = Ok m'"
    by (auto split: option.splits if_splits)
  have "(\<forall>n \<in> set ns. m' (tn_orig n) = tags (tn_uniq n) \<and> tags (tn_uniq n) \<noteq> None) \<and>
    (\<forall>x. x \<notin> tn_orig ` set ns \<longrightarrow> m' x = (m(tn_orig n \<mapsto> i)) x)"
    using "2.IH" [OF i(1) _ i(3)] i(2) "2.prems"(2) by simp
  with i(1) "2.prems"(2) show ?case by auto
qed simp

lemma buildTagIdList_Ok:
  assumes "buildTagIdList tlib ns existing created = Ok ids" "distinct (map tn_orig ns)"
  shows "dom ids = tn_orig ` set ns"
    "n \<in> set ns \<Longrightarrow> \<exists>t \<in> set existing \<union> set created. ids (tn_orig n) = Some (t_id t) \<and>
       TagUniqueName tlib (t_name t) = Ok (tn_uniq n)"
proof -
  obtain m tags where s: "tag_map tlib Map.empty existing = Ok m" "tag_map tlib m created = Ok tags"
    "name_map tags Map.empty ns = Ok ids"
    using assms(1) by (auto simp: buildTagIdList_def res_bind_Ok)
  note nm = name_map_Ok [OF s(3) assms(2)]
  show "dom ids = tn_orig ` set ns"
  proof (rule set_eqI)
    fix x
    show "x \<in> dom ids \<longleftrightarrow> x \<in> tn_orig ` set ns"
    proof (cases "x \<in> tn_orig ` set ns")
      case True
      then obtain n where "n \<in> set ns" "x = tn_orig n" by blast
      then have "ids x \<noteq> None" using nm by metis
      then show ?thesis using True by (simp add: dom_def)
    qed (use nm in \<open>simp add: dom_def\<close>)
  qed
  show "\<exists>t \<in> set existing \<union> set created. ids (tn_orig n) = Some (t_id t) \<and>
       TagUniqueName tlib (t_name t) = Ok (tn_uniq n)" if n: "n \<in> set ns"
  proof -
    have "ids (tn_orig n) = tags (tn_uniq n)" "tags (tn_uniq n) \<noteq> None" using nm n by blast+
    then obtain i where i: "tags (tn_uniq n) = Some i" "ids (tn_orig n) = Some i" by auto
    from tag_map_Ok [OF s(2) i(1)] show ?thesis
      using tag_map_Ok [OF s(1), of "tn_uniq n" i] i(2) by auto
  qed
qed

subsection \<open>Tagging a picture\<close>

definition tagged :: "textlib \<Rightarrow> int \<Rightarrow> int \<Rightarrow> int \<Rightarrow> string list \<Rightarrow> (string \<rightharpoonup> int) \<Rightarrow> database \<Rightarrow> database \<Rightarrow> bool" where
  "tagged tlib now i userId raws ids d d' \<longleftrightarrow>
     (\<exists>olds news. d' = d\<lparr>db_seq := db_seq d', db_tags := db_tags d', db_pictags := db_pictags d'\<rparr> \<and>
       set olds \<subseteq> set (msgs (db_tags d)) \<and> distinct (map t_id olds) \<and>
       list_all (\<lambda>t. t_usage t = 1) news \<and>
       (\<forall>t \<in> set news. \<forall>q \<in> set (msgs (db_tags d)).
          TagUniqueName tlib (t_name q) \<noteq> TagUniqueName tlib (t_name t)) \<and>
       msgs (db_tags d') =
         map (\<lambda>q. if t_id q \<in> t_id ` set olds then used_more now q else q) (msgs (db_tags d)) @ news \<and>
       msgs (db_pictags d') = msgs (db_pictags d) @ map (new_pictag now i userId) (olds @ news) \<and>
       dom ids = set raws \<and>
       (\<forall>r \<in> set raws. \<exists>pt \<in> set (msgs (db_pictags d')). pt_pic pt = i \<and> ids r = Some (pt_tag pt)))"

lemma distinct_map_filter: "distinct (map f xs) \<Longrightarrow> distinct (map f (filter P xs))"
  by (induction xs) auto

lemma distinct_ids:
  assumes "distinct (map t_id rows)" "set ts \<subseteq> set rows" "distinct (map f ts)"
  shows "distinct (map t_id ts)"
  using assms by (auto simp: distinct_map inj_on_def) blast

text \<open>The same text is never requested twice: its unique name would be a duplicate.\<close>

lemma distinct_origs:
  assumes "cleanTagNames tlib raws mn mx = Ok ns"
  shows "distinct (map tn_orig ns)"
proof -
  note c = cleanTagNames_Ok [OF assms]
  have all: "list_all2 (\<lambda>x y. clean_name tlib mn mx x = Ok y) raws ns"
    using assms by (auto simp: cleanTagNames_def res_bind_Ok res_each_Ok res_map_Ok)
  have clean: "clean_name tlib mn mx (tn_orig n) = Ok n" if "n \<in> set ns" for n
    using all that by (induction rule: list_all2_induct) (auto dest: clean_name_uniq)
  have "inj_on tn_orig (set ns)"
    by (rule inj_onI) (metis clean res.inject(1))
  moreover have "distinct ns" using c(2) by (simp add: distinct_map)
  ultimately show ?thesis by (simp add: distinct_map)
qed

lemma upsertTags_job:
  assumes "upsertTags raws i now userId mn mx w = (Ok ids, w')" "job_at ev d0 d w"
  shows "\<exists>d'. job_at ev d0 d' w' \<and> tagged (e_text ev) now i userId raws ids d d'"
proof -
  let ?tl = "e_text ev"
  let ?u = "\<lambda>t. TagUniqueName ?tl (t_name t)"
  have env: "e_text (w_env w) = ?tl" using job_at_D(3) [OF assms(2)] by simp
  obtain ns attached pts unattached existing unknown existing' newTags pts' w1 w2 w3 w4 where s:
    "cleanTagNames ?tl raws mn mx = Ok ns" "findAttachedPicTags i w = (Ok (attached, pts), w1)"
    "findUnattachedTagNames ?tl attached ns = Ok unattached"
    "findExistingTagsByName unattached w1 = (Ok (existing, unknown), w2)"
    "updateExistingTags existing now w2 = (Ok existing', w3)" "createNewTags unknown now w3 = (Ok newTags, w4)"
    "createPicTags (existing' @ newTags) i now userId w4 = (Ok pts', w')"
    "buildTagIdList ?tl ns attached (existing' @ newTags) = Ok ids"
    using assms(1) unfolding upsertTags_def
    by (auto simp: run_simps env elim!: bind_OkE)
  note c = cleanTagNames_Ok [OF s(1)] and at = attached_job [OF s(2) assms(2)]
  note un = unattached_Ok [OF s(3)]
  note ex = existing_job [OF s(4) at(1)]
  obtain known where known: "mset unattached = mset known + mset unknown"
    "map ?u existing = map (\<lambda>n. Ok (tn_uniq n)) known"
    using ex(3) by blast
  have dn: "distinct (map tn_uniq unattached)" unfolding un(1) by (rule distinct_map_filter [OF c(2)])
  then have "distinct (map tn_uniq (known @ unknown))"
    using mset_eq_imp_distinct_iff [of "map tn_uniq unattached" "map tn_uniq (known @ unknown)"] known(1)
    by simp
  then have dk: "distinct (map (\<lambda>n. Ok (tn_uniq n) :: string res) known)"
    by (simp add: distinct_map inj_on_def)
  have de: "distinct (map ?u existing)" using dk known(2) by simp
  have ids: "distinct (map t_id existing)"
    by (rule distinct_ids [OF tags_distinct [OF job_at_D(2) [OF assms(2)]] ex(2) de])
  obtain rt where rt: "job_at ev d0 (d\<lparr>db_tags := rt\<rparr>) w3" "existing' = map (used_more now) existing"
    "msgs rt = map (\<lambda>q. if t_id q \<in> t_id ` set existing then used_more now q else q) (msgs (db_tags d))"
    using updateExistingTags_job [OF s(5) ex(1,2) ids] by blast
  obtain sq rt' where n: "job_at ev d0 (d\<lparr>db_tags := rt, db_seq := sq, db_tags := rt'\<rparr>) w4"
    "msgs rt' = msgs rt @ newTags" "map t_name newTags = map tn_name unknown" "list_all (\<lambda>t. t_usage t = 1) newTags"
    using createNewTags_job [OF s(6) rt(1)] by auto
  obtain rp where p: "job_at ev d0 (d\<lparr>db_tags := rt, db_seq := sq, db_tags := rt', db_pictags := rp\<rparr>) w'"
    "msgs rp = msgs (db_pictags d) @ map (new_pictag now i userId) (existing' @ newTags)"
    using createPicTags_job [OF s(7) n(1)] by auto
  let ?d = "d\<lparr>db_seq := sq, db_tags := rt', db_pictags := rp\<rparr>"
  have job: "job_at ev d0 ?d w'" using p(1) by simp
  have pts: "msgs rp = msgs (db_pictags d) @ map (new_pictag now i userId) (existing @ newTags)"
    unfolding p(2) rt(2) by (simp add: new_pictag_def comp_def)
  have fresh: "?u q \<noteq> ?u t" if "t \<in> set newTags" "q \<in> set (msgs (db_tags d))" for t q
  proof -
    have "t_name t \<in> tn_name ` set unknown" using that(1) n(3) by (metis image_set image_eqI)
    then obtain m where m: "m \<in> set unknown" "t_name t = tn_name m" by blast
    have "m \<in># mset unattached" unfolding known(1) using m(1) by simp
    then have "m \<in> set ns" unfolding un(1) by simp
    then have "?u t = Ok (tn_uniq m)" using c(3) m(2) by simp
    then show ?thesis using ex(4) m(1) that(2) by simp
  qed
  have dist: "distinct (map tn_orig ns)" by (rule distinct_origs [OF s(1)])
  note b = buildTagIdList_Ok [OF s(8) dist]
  have dom: "dom ids = set raws" using b(1) c(1) by (metis image_set)
  have hit: "\<exists>pt \<in> set (msgs rp). pt_pic pt = i \<and> ids r = Some (pt_tag pt)" if "r \<in> set raws" for r
  proof -
    have "r \<in> tn_orig ` set ns" using that c(1) by (metis image_set)
    then obtain m where m: "m \<in> set ns" "r = tn_orig m" by blast
    obtain t where t: "t \<in> set attached \<union> set (existing' @ newTags)" "ids r = Some (t_id t)"
      using b(2) [OF m(1)] m(2) by blast
    then have "t_id t \<in> pt_tag ` {pt \<in> set (msgs (db_pictags d)). pt_pic pt = i} \<or>
        t_id t \<in> t_id ` set (existing @ newTags)"
      using at(2) rt(2) by auto
    then show ?thesis
    proof
      assume "t_id t \<in> t_id ` set (existing @ newTags)"
      then obtain x where "t_id t = t_id x" "x \<in> set (existing @ newTags)" by (rule imageE)
      then have "new_pictag now i userId x \<in> set (msgs rp)" unfolding pts by (simp only: set_append set_map) blast
      then show ?thesis using t(2) \<open>t_id t = t_id x\<close>
        by (intro bexI [of _ "new_pictag now i userId x"]) (simp_all add: new_pictag_def)
    qed (use t(2) pts in auto)
  qed
  have "tagged ?tl now i userId raws ids d ?d"
    unfolding tagged_def using ex(2) ids n(4) fresh rt(3) n(2) pts dom hit
    by (intro exI [of _ existing] exI [of _ newTags]) simp
  with job show ?thesis by blast
qed

lemma AddPicTagsTask_effect:
  assumes "fits w" "idle w" "AddPicTagsTask cx now i raws w = (Ok ids, w')"
  shows "\<exists>d su conf p. visit_only (w_db w) d \<and> token_user cx d su \<and> conf_of cx w = Some conf \<and>
    validateCapability su conf [PIC_TAG_CREATE] = Ok () \<and> the_pic d i p \<and> \<not> HardDeleted p \<and>
    tagged (e_text (w_env w)) now i (subject_id su) raws ids d (w_db w')"
proof -
  have run: "bind (authedJobInternal cx now False) (\<lambda>u. revert (add_tags_body cx now i raws u)) w = (Ok ids, w')"
    using assms(3) by (simp add: AddPicTagsTask_def authedJob_def)
  obtain su w1 w2 where start: "job_at (w_env w) (w_db w1) (w_db w1) w1" "visit_only (w_db w) (w_db w1)"
    "token_user cx (w_db w1) su" "add_tags_body cx now i raws su w1 = (Ok ids, w2)"
    "w_db w' = w_db w2" "w_site w1 = w_site w"
    using add_tags.succeeds [OF run assms(1,2)] by blast
  obtain conf p w3 w4 where s: "conf_of cx w1 = Some conf"
    "validateCapability su conf [PIC_TAG_CREATE] = Ok ()"
    "pic_to ''can't tag deleted pic'' LockWrite i w1 = (Ok p, w3)"
    "upsertTags raws (p_id p) now (subject_id su) (bound_or min_int64 (c_min_tag conf))
       (bound_or max_int64 (c_max_tag conf)) w3 = (Ok ids, w4)" "Commit w4 = (Ok (), w2)"
    using start(4) by (auto simp: add_tags_body_def GetConfiguration_iff run_simps elim!: bind_OkE)
  note pic = pic_to_job [OF s(3) start(1)]
  obtain d' where d': "job_at (w_env w) (w_db w1) d' w4"
    "tagged (e_text (w_env w)) now i (subject_id su) raws ids (w_db w1) d'"
    using upsertTags_job [OF s(4) [unfolded pic(4)] pic(1)] by blast
  have "w_db w' = d'" using Commit_job [OF s(5) d'(1)] start(5) by simp
  moreover have "conf_of cx w = Some conf" using s(1) conf_of_site [OF start(6)] by simp
  ultimately show ?thesis using start(2,3) s(2) pic(2,3) d'(2) by blast
qed


subsection \<open>Changing the extension of a picture's tag\<close>

definition retagged :: "int \<Rightarrow> int \<Rightarrow> int \<Rightarrow> int \<Rightarrow> extmap \<Rightarrow> database \<Rightarrow> database \<Rightarrow> bool" where
  "retagged now i t version ext d d' \<longleftrightarrow>
     (\<exists>pt. pt \<in> set (msgs (db_pictags d)) \<and> pt_pic pt = i \<and> pt_tag pt = t \<and> pictag_version pt = Ok version \<and>
       d' = d\<lparr>db_pictags := db_pictags d'\<rparr> \<and>
       msgs (db_pictags d') = map (\<lambda>q. if pt_pic q = i \<and> pt_tag q = t
         then pt\<lparr>pt_ext := ext, pt_modified := stamp now\<rparr> else q) (msgs (db_pictags d)))"

lemma UpdatePicTagTask_effect:
  assumes "fits w" "idle w" "UpdatePicTagTask cx now i t version ext w = (Ok (), w')"
  shows "\<exists>d. visit_only (w_db w) d \<and> allowed cx w d [PIC_TAG_EXTENSION_CREATE] \<and>
    i \<in> p_id ` set (msgs (db_pics d)) \<and> t \<in> t_id ` set (msgs (db_tags d)) \<and>
    retagged now i t version ext d (w_db w')"
proof -
  have run: "bind (authedJobInternal cx now False) (\<lambda>u. revert (update_pictag_body cx now i t version ext u)) w =
      (Ok (), w')"
    using assms(3) by (simp add: UpdatePicTagTask_def authedJob_def)
  obtain su w1 w2 where start: "job_at (w_env w) (w_db w1) (w_db w1) w1" "visit_only (w_db w) (w_db w1)"
    "token_user cx (w_db w1) su" "update_pictag_body cx now i t version ext su w1 = (Ok (), w2)"
    "w_db w' = w_db w2" "w_site w1 = w_site w"
    using update_pictag.succeeds [OF run assms(1,2)] by blast
  obtain conf p tg pt nowts w3 w4 w5 w6 where s: "conf_of cx w1 = Some conf"
    "validateCapability su conf [PIC_TAG_EXTENSION_CREATE] = Ok ()"
    "FindPics (no_opts\<lparr>o_limit := 1, o_prefix := Some (PicsPrimary (Some i))\<rparr>) w1 = (Ok [p], w3)"
    "FindTags (no_opts\<lparr>o_limit := 1, o_prefix := Some (TagsPrimary (Some t))\<rparr>) w3 = (Ok [tg], w4)"
    "FindPicTags (no_opts\<lparr>o_limit := 1, o_prefix := Some (PicTagsPrimary (Some i) (Some t)), o_lock := LockWrite\<rparr>) w4 =
       (Ok [pt], w5)" "pictag_version pt = Ok version" "ToTspb now = Ok nowts"
    "UpdatePicTag (pt\<lparr>pt_ext := ext, pt_modified := Some nowts\<rparr>) w5 = (Ok (), w6)"
    "Commit w6 = (Ok (), w2)"
    using start(4) unfolding update_pictag_body_def
    by (auto simp: GetConfiguration_iff run_simps check_def length_Suc_conv split: list.splits if_splits elim!: bind_OkE)
  note f1 = job_find_pics_id [OF s(3) start(1), of i]
  have j1: "job_at (w_env w) (w_db w1) (w_db w1) w3" using f1(1) by simp
  note f2 = job_find_tags_id [OF s(4) j1, of t]
  have j2: "job_at (w_env w) (w_db w1) (w_db w1) w4" using f2(1) by simp
  note f3 = job_find_pictags_key [OF s(5) j2, of i t]
  have j3: "job_at (w_env w) (w_db w1) (w_db w1) w5" using f3(1) by simp
  have pt: "pt \<in> set (msgs (db_pictags (w_db w1)))" "pt_pic pt = i" "pt_tag pt = t"
    using found_set [OF f3(2)] by auto
  have here: "i \<in> p_id ` set (msgs (db_pics (w_db w1)))" "t \<in> t_id ` set (msgs (db_tags (w_db w1)))"
    using found_set [OF f1(2)] found_set [OF f2(2)] by auto
  obtain rows where r: "job_at (w_env w) (w_db w1) ((w_db w1)\<lparr>db_pictags := rows\<rparr>) w6"
    "msgs rows = map (\<lambda>q. if pt_pic q = i \<and> pt_tag q = t then pt\<lparr>pt_ext := ext, pt_modified := Some nowts\<rparr> else q)
       (msgs (db_pictags (w_db w1)))"
    by (rule job_update_pictags [OF s(8) j3]) (simp add: pt)
  have db: "w_db w' = (w_db w1)\<lparr>db_pictags := rows\<rparr>" using Commit_job [OF s(9) r(1)] start(5) by simp
  have "retagged now i t version ext (w_db w1) (w_db w')"
    unfolding retagged_def db using pt s(6,7) r(2) by (intro exI [of _ pt]) (simp add: stamp_def)
  moreover have "allowed cx w (w_db w1) [PIC_TAG_EXTENSION_CREATE]"
    by (rule allowedI [OF start(3) s(1) start(6) s(2)])
  ultimately show ?thesis using start(2) here by blast
qed

text \<open>Changing the extension data of a picture's tag succeeds only for a user who may do it, on
  a picture and a tag that exist, when the version the caller saw is the one stored; the new row
  takes the place of the old one and no other row changes.\<close>

theorem UpdatePicTagTask_updates:
  assumes "fits w" "idle w" "UpdatePicTagTask cx now i t version ext w = (Ok (), w')"
  shows "\<exists>d. visit_only (w_db w) d \<and> allowed cx w d [PIC_TAG_EXTENSION_CREATE] \<and>
    i \<in> p_id ` set (msgs (db_pics d)) \<and> t \<in> t_id ` set (msgs (db_tags d)) \<and>
    retagged now i t version ext d (w_db w')"
  by (rule UpdatePicTagTask_effect [OF assms])

end
