(* ===== verification/TagCount.thy ===== *)
theory TagCount
  imports TagFacts Tally
begin

section \<open>The usage count of a tag is the number of pictures it is on\<close>

text \<open>
  \<open>usage_count\<close> of a tag drives its removal: the purge of a picture drops the tags whose count
  says that nobody else uses them. That is right because all tasks keep the count equal to the
  number of attachments, which the step relation below shows for every order they run in.
\<close>

definition uses :: "database \<Rightarrow> int \<Rightarrow> int" where
  "uses d t = int (length (filter (\<lambda>pt. pt_tag pt = t) (msgs (db_pictags d))))"

definition usage_ok :: "database \<Rightarrow> bool" where
  "usage_ok d \<longleftrightarrow>
     (\<forall>t \<in> set (msgs (db_tags d)). t_usage t = uses d (t_id t)) \<and>
     (\<forall>pt \<in> set (msgs (db_pictags d)). pt_tag pt \<in> t_id ` set (msgs (db_tags d)))"

text \<open>A task on pictures or tags has run and reported success; there are less than 2 to the 63
  attachments of tags.\<close>

inductive tag_step :: "world \<Rightarrow> world \<Rightarrow> bool" where
  tag: "AddPicTagsTask cx now i raws w = (Ok ids, w') \<Longrightarrow>
    int (length (msgs (db_pictags (w_db w')))) \<le> max_int64 \<Longrightarrow> tag_step w w'"
| retag: "UpdatePicTagTask cx now i t version ext w = (Ok (), w') \<Longrightarrow> tag_step w w'"
| pic: "pic_step w w' \<Longrightarrow> tag_step w w'"

lemma usage_same:
  assumes "usage_ok d" "msgs (db_tags d') = msgs (db_tags d)"
    "map pt_tag (msgs (db_pictags d')) = map pt_tag (msgs (db_pictags d))"
  shows "usage_ok d'"
proof -
  have len: "length (filter (\<lambda>pt. pt_tag pt = t) xs) = length (filter (\<lambda>x. x = t) (map pt_tag xs))" for t xs
    by (induction xs) auto
  have "uses d' = uses d" unfolding uses_def len assms(3) ..
  moreover have "pt_tag ` set (msgs (db_pictags d')) = pt_tag ` set (msgs (db_pictags d))"
    using arg_cong [where f = set, OF assms(3)] by simp
  ultimately show ?thesis using assms(1,2) unfolding usage_ok_def by (simp add: image_subset_iff [symmetric])
qed

lemma usage_visits: "visit_only d d' \<Longrightarrow> usage_ok d \<Longrightarrow> usage_ok d'"
  by (rule usage_same) (auto simp: visit_only_def same_rows_def)

lemma usage_retagged:
  assumes "retagged now i t version ext d d'" "usage_ok d"
  shows "usage_ok d'"
proof -
  obtain pt where pt: "pt_tag pt = t" "d' = d\<lparr>db_pictags := db_pictags d'\<rparr>"
    "msgs (db_pictags d') = map (\<lambda>q. if pt_pic q = i \<and> pt_tag q = t
       then pt\<lparr>pt_ext := ext, pt_modified := stamp now\<rparr> else q) (msgs (db_pictags d))"
    using assms(1) unfolding retagged_def by blast
  have "msgs (db_tags d') = msgs (db_tags d)" using arg_cong [where f = db_tags, OF pt(2)] by simp
  moreover have "map pt_tag (msgs (db_pictags d')) = map pt_tag (msgs (db_pictags d))"
    unfolding pt(3) map_map by (rule map_cong) (simp_all add: pt(1))
  ultimately show ?thesis using usage_same [OF assms(2)] by blast
qed

lemma count_ids: "distinct (map f xs) \<Longrightarrow> x \<in> set xs \<Longrightarrow> length (filter (\<lambda>y. f y = f x) xs) = 1"
  by (induction xs) (auto simp: filter_empty_conv image_iff)

lemma no_id: "k \<notin> t_id ` set xs \<Longrightarrow> filter (\<lambda>t. t_id t = k) xs = []"
  by (induction xs) auto

lemma usage_tagged:
  assumes "tagged tlib now i u raws ids d d'" "usage_ok d" "db_fits ev d'"
    "int (length (msgs (db_pictags d'))) \<le> max_int64"
  shows "usage_ok d'"
proof -
  obtain olds news where t: "set olds \<subseteq> set (msgs (db_tags d))" "distinct (map t_id olds)"
    "list_all (\<lambda>t. t_usage t = 1) news"
    "msgs (db_tags d') = map (\<lambda>q. if t_id q \<in> t_id ` set olds then used_more now q else q) (msgs (db_tags d)) @ news"
    "msgs (db_pictags d') = msgs (db_pictags d) @ map (new_pictag now i u) (olds @ news)"
    using assms(1) unfolding tagged_def by blast
  let ?f = "\<lambda>q. if t_id q \<in> t_id ` set olds then used_more now q else q"
  have id: "t_id (?f q) = t_id q" for q by simp
  have dist: "distinct (map t_id (msgs (db_tags d)) @ map t_id news)"
    using tags_distinct [OF assms(3)] unfolding t(4) map_append map_map comp_def id .
  have tagid: "pt_tag (new_pictag now i u t) = t_id t" for t by (simp add: new_pictag_def)
  have uses: "uses d' k = uses d k + int (length (filter (\<lambda>t. t_id t = k) olds)) +
      int (length (filter (\<lambda>t. t_id t = k) news))" for k
    unfolding uses_def t(5) by (simp add: filter_map comp_def tagid)
  have known: "pt_tag pt \<in> t_id ` set (msgs (db_tags d))" if "pt \<in> set (msgs (db_pictags d))" for pt
    using assms(2) that by (simp add: usage_ok_def)
  have old: "t_usage (?f q) = uses d' (t_id q)" if q: "q \<in> set (msgs (db_tags d))" for q
  proof -
    have "t_id q \<notin> t_id ` set news" using dist q by auto
    then have none: "filter (\<lambda>t. t_id t = t_id q) news = []" by (rule no_id)
    have u: "t_usage q = uses d (t_id q)" using assms(2) q by (simp add: usage_ok_def)
    show ?thesis
    proof (cases "t_id q \<in> t_id ` set olds")
      case True
      then obtain x where x: "x \<in> set olds" "t_id x = t_id q" by auto
      have one: "length (filter (\<lambda>t. t_id t = t_id q) olds) = 1" using count_ids [OF t(2) x(1)] x(2) by simp
      have "uses d (t_id q) + 1 = uses d' (t_id q)" unfolding uses none one by simp
      moreover have "uses d' (t_id q) \<le> max_int64"
        using assms(4) by (simp add: uses_def) (meson length_filter_le of_nat_le_iff order_trans)
      moreover have "0 \<le> uses d (t_id q)" by (simp add: uses_def)
      ultimately have "wrap64 (uses d (t_id q) + 1) = uses d' (t_id q)"
        by (simp add: wrap64_def)
      then show ?thesis using True by (simp add: used_more_def u)
    next
      case False
      then have "filter (\<lambda>t. t_id t = t_id q) olds = []" by (rule no_id)
      then show ?thesis using False u none by (simp add: uses)
    qed
  qed
  have new: "t_usage t = uses d' (t_id t)" if n: "t \<in> set news" for t
  proof -
    have fresh: "t_id t \<notin> t_id ` set (msgs (db_tags d))" using dist n by auto
    then have "filter (\<lambda>x. t_id x = t_id t) olds = []" using t(1) by (intro no_id) blast
    moreover have "filter (\<lambda>pt. pt_tag pt = t_id t) (msgs (db_pictags d)) = []"
      using known fresh unfolding filter_empty_conv by metis
    moreover have "length (filter (\<lambda>x. t_id x = t_id t) news) = 1"
      using dist n by (intro count_ids) auto
    ultimately show ?thesis using t(3) n by (simp add: uses list_all_iff) (simp add: uses_def)
  qed
  have ids: "t_id ` set (msgs (db_tags d')) = t_id ` set (msgs (db_tags d)) \<union> t_id ` set news"
    unfolding t(4) set_append set_map image_Un image_image id ..
  have "pt_tag pt \<in> t_id ` set (msgs (db_tags d'))" if "pt \<in> set (msgs (db_pictags d'))" for pt
    using that known t(1) unfolding ids t(5) by (auto simp: tagid)
  moreover have "t_usage x = uses d' (t_id x)" if x: "x \<in> set (msgs (db_tags d'))" for x
  proof (cases "x \<in> set news")
    case False
    then obtain q where q: "q \<in> set (msgs (db_tags d))" "x = ?f q" using x unfolding t(4) by auto
    show ?thesis using old [OF q(1)] unfolding q(2) id .
  qed (rule new)
  ultimately show ?thesis by (simp add: usage_ok_def)
qed

lemma usage_purged:
  assumes "purged now i d d'" "usage_ok d" "distinct (map (\<lambda>t. (pt_pic t, pt_tag t)) (msgs (db_pictags d)))"
  shows "usage_ok d'"
proof -
  have pts: "msgs (db_pictags d') = filter (\<lambda>q. pt_pic q \<noteq> i) (msgs (db_pictags d))"
    and tags: "msgs (db_tags d') = concat (map (\<lambda>t. if list_ex (\<lambda>pt. pt_pic pt = i \<and> pt_tag pt = t_id t)
         (msgs (db_pictags d)) then less_used now t else [t]) (msgs (db_tags d)))"
    using assms(1) by (simp_all add: purged_def)
  let ?on = "\<lambda>k. list_ex (\<lambda>pt. pt_pic pt = i \<and> pt_tag pt = k) (msgs (db_pictags d))"
  have split: "length (filter (\<lambda>pt. pt_tag pt = k) xs) =
      length (filter (\<lambda>pt. pt_tag pt = k) (filter (\<lambda>q. pt_pic q \<noteq> i) xs)) +
      (if list_ex (\<lambda>pt. pt_pic pt = i \<and> pt_tag pt = k) xs then 1 else 0)"
    if "distinct (map (\<lambda>t. (pt_pic t, pt_tag t)) xs)" for k xs
    using that
  proof (induction xs)
    case (Cons x xs)
    then show ?case
      by (cases "pt_pic x = i \<and> pt_tag x = k") (auto simp: list_ex_iff image_iff)
  qed simp
  have uses: "uses d k = uses d' k + (if ?on k then 1 else 0)" for k
    using split [OF assms(3), of k] unfolding uses_def pts by simp
  have count: "t_usage t = uses d (t_id t)" if "t \<in> set (msgs (db_tags d))" for t
    using assms(2) that by (simp add: usage_ok_def)
  have kept: "t_usage x = uses d' (t_id x)" if x: "x \<in> set (msgs (db_tags d'))" for x
  proof -
    obtain t where t: "t \<in> set (msgs (db_tags d))" "x \<in> set (if ?on (t_id t) then less_used now t else [t])"
      using x unfolding tags set_concat set_map by blast
    then show ?thesis using count [OF t(1)] uses [of "t_id t"]
      by (cases "?on (t_id t)") (auto simp: less_used_def split: if_splits)
  qed
  have "pt_tag pt \<in> t_id ` set (msgs (db_tags d'))" if pt: "pt \<in> set (msgs (db_pictags d'))" for pt
  proof -
    have "pt_tag pt \<in> t_id ` set (msgs (db_tags d))" using pt assms(2) unfolding pts by (simp add: usage_ok_def)
    then obtain t where t: "t \<in> set (msgs (db_tags d))" "t_id t = pt_tag pt" by auto
    have "filter (\<lambda>q. pt_tag q = pt_tag pt) (msgs (db_pictags d')) \<noteq> []" using pt by (auto simp: filter_empty_conv)
    then have pos: "uses d' (t_id t) \<ge> 1" unfolding uses_def t(2) by (cases "filter (\<lambda>q. pt_tag q = pt_tag pt) (msgs (db_pictags d'))") auto
    obtain x where x: "x \<in> set (if ?on (t_id t) then less_used now t else [t])" "t_id x = t_id t"
    proof (cases "?on (t_id t)")
      case True
      then have "t_usage t > 1" using count [OF t(1)] uses [of "t_id t"] pos by simp
      then show thesis using that True by (simp add: less_used_def)
    qed (use that in simp)
    have "x \<in> set (msgs (db_tags d'))" unfolding tags set_concat set_map using t(1) x(1) by blast
    then show ?thesis using x(2) t(2) by (metis image_eqI)
  qed
  with kept show ?thesis by (simp add: usage_ok_def)
qed

subsection \<open>Along the steps\<close>

lemma pic_changed_tags: "pic_changed d d' p \<Longrightarrow> db_tags d' = db_tags d \<and> db_pictags d' = db_pictags d"
proof -
  assume "pic_changed d d' p"
  then have "d' = d\<lparr>db_pics := db_pics d'\<rparr>" by (simp add: pic_changed_def)
  note frame = arg_cong [where f = db_tags, OF this] arg_cong [where f = db_pictags, OF this]
  then show ?thesis by simp
qed

lemma pic_step_usage:
  assumes "pic_step w w'" "fits w" "idle w"
  shows "\<exists>d. visit_only (w_db w) d \<and> ((db_tags (w_db w') = db_tags d \<and> db_pictags (w_db w') = db_pictags d) \<or>
    (\<exists>now i. purged now i d (w_db w')))"
  using assms(1)
proof cases
  case (vote cx now i v ext x)
  obtain pv fpv where x: "x = (pv, fpv)" by fastforce
  obtain d su where d: "visit_only (w_db w) d" "voted now (subject_id su) i v ext d (w_db w') pv"
    using AddPicVoteTask_effect [OF assms(2,3) vote [unfolded x]] by blast
  have "w_db w' = d\<lparr>db_pics := db_pics (w_db w'), db_votes := db_votes (w_db w'), db_events := db_events (w_db w')\<rparr>"
    using d(2) unfolding voted_def by (elim exE conjE)
  note frame = arg_cong [where f = db_tags, OF this] arg_cong [where f = db_pictags, OF this]
  then show ?thesis using d(1) by auto
next
  case (comment cx now i j t ext y)
  obtain pc fpc where y: "y = (pc, fpc)" by fastforce
  obtain d su conf where d: "visit_only (w_db w) d"
    "commented (e_text (w_env w)) conf now (subject_id su) i j t ext d (w_db w') pc"
    using AddPicCommentTask_effect [OF assms(2,3) comment [unfolded y]] by blast
  have "w_db w' = d\<lparr>db_seq := db_seq (w_db w'), db_comments := db_comments (w_db w'),
      db_events := db_events (w_db w')\<rparr>"
    using d(2) unfolding commented_def by (elim exE conjE)
  note frame = arg_cong [where f = db_tags, OF this] arg_cong [where f = db_pictags, OF this]
  then show ?thesis using d(1) by auto
next
  case (comment_vote cx now i j v ext z)
  obtain d su where d: "visit_only (w_db w) d" "comment_voted now (subject_id su) i j v ext d (w_db w') z"
    using AddPicCommentVoteTask_effect [OF assms(2,3) comment_vote] by blast
  have "w_db w' = d\<lparr>db_comments := db_comments (w_db w'), db_cvotes := db_cvotes (w_db w')\<rparr>"
    using d(2) unfolding comment_voted_def by (elim exE conjE)
  note frame = arg_cong [where f = db_tags, OF this] arg_cong [where f = db_pictags, OF this]
  then show ?thesis using d(1) by auto
next
  case (view cx now i)
  show ?thesis using IncrementViewCountTask_effect [OF assms(2,3) view] pic_changed_tags by blast
next
  case (soft cx now i pend reason details tmp)
  show ?thesis using SoftDeletePicTask_effect [OF assms(2,3) soft] pic_changed_tags by blast
next
  case (hard cx now root i)
  show ?thesis using HardDeletePicTask_effect [OF assms(2,3) hard] pic_changed_tags by blast
next
  case (purge cx now root i)
  show ?thesis using PurgePicTask_effect [OF assms(2,3) purge] by blast
qed

lemma tag_step_closes: "tag_step w w' \<Longrightarrow> fits w \<Longrightarrow> idle w \<Longrightarrow> fits w' \<and> idle w'"
proof (erule tag_step.cases)
  fix cx now i raws v ids v'
  assume "w = v" "w' = v'" "AddPicTagsTask cx now i raws v = (Ok ids, v')" "fits w" "idle w"
  then show "fits w' \<and> idle w'"
    using add_tags.closes [of cx now False] by (auto simp: AddPicTagsTask_def authedJob_def)
next
  fix cx now i t version ext v v'
  assume "w = v" "w' = v'" "UpdatePicTagTask cx now i t version ext v = (Ok (), v')" "fits w" "idle w"
  then show "fits w' \<and> idle w'"
    using update_pictag.closes [of cx now False] by (auto simp: UpdatePicTagTask_def authedJob_def)
qed (use pic_step_closes in blast)

lemma tag_step_usage:
  assumes "tag_step w w'" "fits w" "idle w" "usage_ok (w_db w)"
  shows "usage_ok (w_db w')"
  using assms(1)
proof cases
  case (tag cx now i raws ids)
  obtain d su where d: "visit_only (w_db w) d"
    "tagged (e_text (w_env w)) now i (subject_id su) raws ids d (w_db w')"
    using AddPicTagsTask_effect [OF assms(2,3) tag(1)] by blast
  have "db_fits (w_env w') (w_db w')" using tag_step_closes [OF assms(1-3)] by (simp add: fits_def)
  then show ?thesis using usage_tagged [OF d(2) usage_visits [OF d(1) assms(4)]] tag(2) by blast
next
  case (retag cx now i t version ext)
  obtain d where "visit_only (w_db w) d" "retagged now i t version ext d (w_db w')"
    using UpdatePicTagTask_effect [OF assms(2,3) retag] by blast
  then show ?thesis using usage_retagged usage_visits assms(4) by blast
next
  case pic
  obtain d where d: "visit_only (w_db w) d" "(db_tags (w_db w') = db_tags d \<and> db_pictags (w_db w') = db_pictags d) \<or>
    (\<exists>now i. purged now i d (w_db w'))"
    using pic_step_usage [OF pic assms(2,3)] by blast
  have "db_pictags d = db_pictags (w_db w)" using d(1) by (simp add: visit_only_def same_rows_def)
  then have dist: "distinct (map (\<lambda>t. (pt_pic t, pt_tag t)) (msgs (db_pictags d)))"
    using pictags_distinct [of "w_env w" "w_db w"] assms(2) by (simp add: fits_def)
  from d(2) show ?thesis
  proof
    assume "db_tags (w_db w') = db_tags d \<and> db_pictags (w_db w') = db_pictags d"
    then show ?thesis using usage_same [OF usage_visits [OF d(1) assms(4)]] by simp
  qed (use usage_purged [OF _ usage_visits [OF d(1) assms(4)] dist] in blast)
qed

text \<open>C7. Whatever the order in which pictures are tagged, voted for, viewed, commented, deleted and
  purged, the usage count of every tag is the number of pictures it is on, and no picture has a tag
  that does not exist.\<close>

theorem tags_count_their_uses:
  assumes "fits w" "idle w" "usage_ok (w_db w)" "tag_step\<^sup>*\<^sup>* w w'"
  shows "usage_ok (w_db w') \<and> fits w' \<and> idle w'"
  using assms(4)
proof (induction rule: rtranclp_induct)
  case base
  show ?case using assms(1-3) by simp
next
  case (step y z)
  then show ?case using tag_step_usage tag_step_closes by blast
qed

end
