(* ===== verification/TagRuns.thy ===== *)
theory TagRuns
  imports TagCount VoteRuns
begin

section \<open>The tasks on tags, run on the small database\<close>

text \<open>
  \<open>AddPicTagsTask\<close> and \<open>UpdatePicTagTask\<close> are run once each; the properties are applied to the runs.
\<close>

lemma tag_key_b: "TagUniqueName plain_textlib ''b'' = Ok ''b''"
  by (simp add: TagUniqueName_def unique_key_def toCaselessNFKC_def prevalidated_def validateEncoding_def
      valid_string_def validateCodepoints_def letter_runes toCaselessNFKCUnsafe_def plain_textlib_def letter_ok)

lemma clean_b: "cleanTagNames plain_textlib [''b''] 1 64 = Ok [\<lparr>tn_name = ''b'', tn_orig = ''b'', tn_uniq = ''b''\<rparr>]"
proof -
  have trim: "strings_TrimSpace ''b'' = ''b''"
    by (simp add: strings_TrimSpace_def letter_runes is_space_def)
  have enc: "validateEncoding ''b'' f = None" "validateCodepoints ''b'' f = None" for f
    by (simp_all add: validateEncoding_def validateCodepoints_def valid_string_def letter_runes letter_ok)
  have vals: "DefaultValidator 1 64 ''b'' f = None" "validateNoNewlines ''b'' f = None" for f
    by (simp_all add: DefaultValidator_def defaultValidate_def defaultValidators_def MaxBytesValidator_def
      validateMaxBytes_def enc validateNoNewlines_def validateNoNewlinesUnsafe_def newlines_loop_None
      noNewlineRange_def letter_runes)
  have nfc: "ToNFC plain_textlib ''b'' f = Ok ''b''" for f
    by (simp add: ToNFC_def prevalidated_def enc toNFCUnsafe_def plain_textlib_def)
  have "clean_name plain_textlib 1 64 ''b'' = Ok \<lparr>tn_name = ''b'', tn_orig = ''b'', tn_uniq = ''b''\<rparr>"
    by (simp add: clean_name_def Let_def validateAndNormalize_def vals nfc trim tag_key_b)
  then show ?thesis by (simp add: cleanTagNames_def validateNoDuplicateTags_def)
qed

lemma cat_tag_sels: "t_id cat_tag = 5" "t_name cat_tag = ''c''" "t_usage cat_tag = 1"
  "pt_pic cat_pic_tag = 3" "pt_tag cat_pic_tag = 5" "pt_modified cat_pic_tag = Some ts0"
  by (simp_all add: cat_tag_def cat_pic_tag_def)

lemma attached_cat: "findAttachedPicTags 3 (work False start_db n al) =
    (Ok ([cat_tag], [cat_pic_tag]), work False start_db (n + 2) al)"
  by (simp add: findAttachedPicTags_def attached_tag_def bind_run find_run work_find start_db_sels cat_tag_sels)

lemma existing_b: "findExistingTagsByName [\<lparr>tn_name = ''b'', tn_orig = ''b'', tn_uniq = ''b''\<rparr>] (work False start_db n al) =
    (Ok ([], [\<lparr>tn_name = ''b'', tn_orig = ''b'', tn_uniq = ''b''\<rparr>]), work False start_db (Suc n) al)"
  by (simp add: bind_run find_run work_find start_db_sels)

definition tag_b :: tag where
  "tag_b = \<lparr>t_id = 100, t_name = ''b'', t_usage = 1, t_created = Some \<lparr>ts_seconds = 2000, ts_nanos = 0\<rparr>,
     t_modified = Some \<lparr>ts_seconds = 2000, ts_nanos = 0\<rparr>, t_ext = []\<rparr>"

lemma create_b: "\<exists>rows al'. \<forall>n. createNewTags [\<lparr>tn_name = ''b'', tn_orig = ''b'', tn_uniq = ''b''\<rparr>] now0 (work False start_db n ids0) =
    (Ok [tag_b], work False (start_db\<lparr>db_tags := rows\<rparr>) (Suc n) al')"
proof -
  have vals: "tb_vals tags_table calm_env tag_b = Ok [SInt 100, SBytes ''b'']"
    by (simp add: tables_vals demo_sels tag_b_def tag_key_b)
  have "InsertTag tag_b (work False start_db n al) = (Ok (),
      work False (start_db\<lparr>db_tags := db_tags start_db @ [row [SInt 100, SBytes ''b''] tag_b]\<rparr>) (Suc n) al)" for n al
    unfolding InsertTag_def
    by (subst work_insert [OF vals]) (simp_all add: write_run start_db_sels)
  then show ?thesis
    by (simp add: createNewTags_def create_tag_def Let_def bind_run work_AllocId tag_b_def [symmetric]) blast
qed

definition pictag_b :: pic_tag where
  "pictag_b = \<lparr>pt_pic = 3, pt_tag = 100, pt_name = ''b'', pt_user = 7,
     pt_created = Some \<lparr>ts_seconds = 2000, ts_nanos = 0\<rparr>, pt_modified = Some \<lparr>ts_seconds = 2000, ts_nanos = 0\<rparr>,
     pt_ext = []\<rparr>"

lemma attach_b: "createPicTags [tag_b] 3 now0 7 (work False (start_db\<lparr>db_tags := x\<rparr>) n al) =
    (Ok [pictag_b], work False (start_db\<lparr>db_tags := x,
       db_pictags := db_pictags start_db @ [row [SInt 3, SInt 100] pictag_b]\<rparr>) (Suc n) al)"
proof -
  have vals: "tb_vals pictags_table calm_env pictag_b = Ok [SInt 3, SInt 100]"
    by (simp add: tables_vals pictag_b_def)
  have ins: "InsertPicTag pictag_b (work False (start_db\<lparr>db_tags := x\<rparr>) n al) = (Ok (),
      work False (start_db\<lparr>db_tags := x, db_pictags := db_pictags start_db @ [row [SInt 3, SInt 100] pictag_b]\<rparr>) (Suc n) al)"
    unfolding InsertPicTag_def
    by (subst work_insert [OF vals]) (simp_all add: write_run start_db_sels)
  have b: "t_id tag_b = 100" "t_name tag_b = ''b''" by (simp_all add: tag_b_def)
  show ?thesis
    by (simp add: createPicTags_def attach_tag_def Let_def bind_run b pictag_b_def [symmetric] ins)
qed

lemma committed_db: "w_db (committed d n al) = d"
  by (simp add: committed_def)

lemma add_tags_demo: "\<exists>ids w'. AddPicTagsTask as_alice now0 3 [''b''] demo = (Ok ids, w') \<and>
    length (db_pictags (w_db w')) = 2"
proof -
  obtain rows al' where new: "\<And>n. createNewTags [\<lparr>tn_name = ''b'', tn_orig = ''b'', tn_uniq = ''b''\<rparr>] now0
      (work False start_db n ids0) = (Ok [tag_b], work False (start_db\<lparr>db_tags := rows\<rparr>) (Suc n) al')"
    using create_b by auto
  have b: "t_id tag_b = 100" "t_name tag_b = ''b''" by (simp_all add: tag_b_def)
  show ?thesis
    by (simp add: AddPicTagsTask_def run_alice bind_run revert_def deferred_def add_tags_body_def
      alice_conf alice_may vote_cat cat_id alice_subject upsertTags_def demo_sels clean_b attached_cat
      findUnattachedTagNames_def cat_tag_sels unique_key_letter existing_b
      updateExistingTags_def new attach_b b buildTagIdList_def tag_key_b defaultConfiguration_def bound_or_def
      work_Commit committed_Rollback committed_db start_db_sels del: findExistingTagsByName.simps)
qed

lemma cat_version: "pictag_version cat_pic_tag = Ok 1000000000000"
  by (simp add: pictag_version_def cat_tag_sels order_run ts0_def)

lemma update_pictag_demo: "\<exists>w'. UpdatePicTagTask as_alice now0 3 5 1000000000000 [] demo = (Ok (), w')"
proof -
  let ?pt = "cat_pic_tag\<lparr>pt_ext := [], pt_modified := Some \<lparr>ts_seconds = 2000, ts_nanos = 0\<rparr>\<rparr>"
  have vals: "tb_vals pictags_table calm_env ?pt = Ok [SInt 3, SInt 5]"
    by (simp add: tables_vals cat_tag_sels)
  have up: "UpdatePicTag ?pt (work False start_db n al) =
      (Ok (), work False (start_db\<lparr>db_pictags := [row [SInt 3, SInt 5] ?pt]\<rparr>) (Suc n) al)" for n al
    unfolding UpdatePicTag_def
    by (subst work_update [where kvals = "[SInt 3, SInt 5]", OF vals])
      (simp_all add: write_run start_db_sels cat_tag_sels)
  show ?thesis
    by (simp add: UpdatePicTagTask_def run_alice bind_run revert_def deferred_def update_pictag_body_def
      alice_conf alice_may cat_version find_run work_find start_db_sels cat_tag_sels cat_id check_def up
      work_Commit committed_Rollback)
qed

subsection \<open>The properties at these runs\<close>


theorem UpdatePicTagTask_updates_witness:
  "\<exists>w' d. UpdatePicTagTask as_alice now0 3 5 1000000000000 [] demo = (Ok (), w') \<and>
     retagged now0 3 5 1000000000000 [] d (w_db w')"
proof -
  obtain w' where run: "UpdatePicTagTask as_alice now0 3 5 1000000000000 [] demo = (Ok (), w')"
    using update_pictag_demo by blast
  from UpdatePicTagTask_updates [OF demo_fits demo_idle run] run show ?thesis by blast
qed

lemma demo_usage: "usage_ok (w_db demo)"
  by (simp add: usage_ok_def uses_def demo_def calm_world_def demo_db_def empty_db_def cat_tag_sels)

theorem tags_count_their_uses_witness:
  "\<exists>w'. tag_step\<^sup>*\<^sup>* demo w' \<and> length (db_pictags (w_db w')) = 2 \<and> usage_ok (w_db w')"
proof -
  obtain ids w' where run: "AddPicTagsTask as_alice now0 3 [''b''] demo = (Ok ids, w')"
    "length (db_pictags (w_db w')) = 2"
    using add_tags_demo by blast
  then have step: "tag_step\<^sup>*\<^sup>* demo w'" by (intro r_into_rtranclp tag_step.tag [OF run(1)]) (simp add: msgs_def)
  from tags_count_their_uses [OF demo_fits demo_idle demo_usage step] step run show ?thesis by blast
qed

end
