(* ===== verification/CommentTree.thy ===== *)
theory CommentTree
  imports Schema Effects "HOL-Library.AList" "HOL-Library.Multiset"
begin

section \<open>The tree of comments (buildCommentTree in be/tasks/lookup_pic_task.go)\<close>

text \<open>
  The code walks over the comments once and links nodes by pointer: a node may be reached from
  the map of trees, from the list of orphans and from its parent while it still gains children.
  The model keeps the nodes in a store, the address of a node being its place in it; address 0 is
  the root. The theorem at the end compares the linked nodes with the tree one would write down:
  below each comment its replies, in the order of the list.
\<close>

record tree_store =
  ts_nodes :: "(pic_comment \<times> nat list) list"
  ts_trees :: "int \<rightharpoonup> nat"
  ts_orphans :: "(int \<times> nat list) list"

definition no_comment :: pic_comment where
  "no_comment = \<lparr>pc_pic = 0, pc_id = 0, pc_parent = 0, pc_user = 0, pc_text = [], pc_up = 0,
     pc_down = 0, pc_created = None, pc_modified = None, pc_ext = []\<rparr>"

definition root_store :: tree_store where
  "root_store = \<lparr>ts_nodes = [(no_comment, [])], ts_trees = [0 \<mapsto> 0], ts_orphans = []\<rparr>"

definition orphans_of :: "tree_store \<Rightarrow> int \<Rightarrow> nat list" where
  "orphans_of s i = (case map_of (ts_orphans s) i of Some ks \<Rightarrow> ks | None \<Rightarrow> [])"

definition append_child :: "nat \<Rightarrow> nat \<Rightarrow> (pic_comment \<times> nat list) list \<Rightarrow> (pic_comment \<times> nat list) list" where
  "append_child p a nodes = nodes[p := (fst (nodes ! p), snd (nodes ! p) @ [a])]"

definition add_node :: "pic_comment \<Rightarrow> tree_store \<Rightarrow> tree_store" where
  "add_node pc s =
     (let a = length (ts_nodes s);
          s1 = s\<lparr>ts_nodes := ts_nodes s @ [(pc, orphans_of s (pc_id pc))],
                 ts_orphans := AList.delete (pc_id pc) (ts_orphans s),
                 ts_trees := (ts_trees s)(pc_id pc \<mapsto> a)\<rparr>
      in case ts_trees s1 (pc_parent pc) of
           Some p \<Rightarrow> s1\<lparr>ts_nodes := append_child p a (ts_nodes s1)\<rparr>
         | None \<Rightarrow> s1\<lparr>ts_orphans :=
             AList.update (pc_parent pc) (orphans_of s1 (pc_parent pc) @ [a]) (ts_orphans s1)\<rparr>)"

definition buildCommentTree :: "pic_comment list \<Rightarrow> (pic_comment \<times> nat list) list res" where
  "buildCommentTree pcs =
     (let s = fold add_node pcs root_store
      in if ts_orphans s \<noteq> [] then Panic ''unparented comments'' else Ok (ts_nodes s))"

subsection \<open>Following the links\<close>

text \<open>The tree of type \<open>PicCommentTree\<close> that hangs at an address; the fuel bounds its height.\<close>

datatype comment_tree = CommentTree (ct_comment: pic_comment) (ct_children: "comment_tree list")

primrec read_tree :: "nat \<Rightarrow> (pic_comment \<times> nat list) list \<Rightarrow> nat \<Rightarrow> comment_tree" where
  "read_tree 0 nodes a = CommentTree (fst (nodes ! a)) []"
| "read_tree (Suc n) nodes a =
     CommentTree (fst (nodes ! a)) (map (read_tree n nodes) (snd (nodes ! a)))"

fun tree_comments :: "comment_tree \<Rightarrow> pic_comment list" where
  "tree_comments (CommentTree c ts) = c # concat (map tree_comments ts)"

subsection \<open>The reference\<close>

definition replies :: "pic_comment list \<Rightarrow> int \<Rightarrow> pic_comment list" where
  "replies pcs i = filter (\<lambda>c. pc_parent c = i) pcs"

primrec thread :: "nat \<Rightarrow> pic_comment list \<Rightarrow> pic_comment \<Rightarrow> comment_tree" where
  "thread 0 pcs c = CommentTree c []"
| "thread (Suc n) pcs c = CommentTree c (map (thread n pcs) (replies pcs (pc_id c)))"

text \<open>A chain of replies leads from the picture to the comment.\<close>

inductive threaded :: "pic_comment list \<Rightarrow> int \<Rightarrow> bool" for pcs where
  top: "threaded pcs 0"
| reply: "c \<in> set pcs \<Longrightarrow> threaded pcs (pc_parent c) \<Longrightarrow> threaded pcs (pc_id c)"

subsection \<open>One pass is enough\<close>

definition reply_addrs :: "pic_comment list \<Rightarrow> int \<Rightarrow> nat list" where
  "reply_addrs pcs i = map Suc (filter (\<lambda>k. pc_parent (pcs ! k) = i) [0..<length pcs])"

text \<open>What the store holds after the first comments: every node has the replies that came so far,
  and the orphans are the replies to comments that did not come yet.\<close>

definition built :: "pic_comment list \<Rightarrow> tree_store \<Rightarrow> bool" where
  "built pcs s \<longleftrightarrow>
     ts_nodes s = map (\<lambda>c. (c, reply_addrs pcs (pc_id c))) (no_comment # pcs) \<and>
     (\<forall>k < Suc (length pcs). ts_trees s (pc_id ((no_comment # pcs) ! k)) = Some k) \<and>
     dom (ts_trees s) = pc_id ` set (no_comment # pcs) \<and>
     (\<forall>i. map_of (ts_orphans s) i =
        (if i \<in> pc_id ` set (no_comment # pcs) \<or> reply_addrs pcs i = [] then None
         else Some (reply_addrs pcs i)))"

lemma no_comment_id [simp]: "pc_id no_comment = 0"
  by (simp add: no_comment_def)

lemma reply_addrs_Nil [simp]: "reply_addrs [] i = []"
  by (simp add: reply_addrs_def)

lemma reply_addrs_snoc: "reply_addrs (pcs @ [c]) i =
    reply_addrs pcs i @ (if pc_parent c = i then [Suc (length pcs)] else [])"
proof -
  have "filter (\<lambda>k. pc_parent ((pcs @ [c]) ! k) = i) [0..<length pcs] =
      filter (\<lambda>k. pc_parent (pcs ! k) = i) [0..<length pcs]"
    by (rule filter_cong) (simp_all add: nth_append)
  then show ?thesis by (simp add: reply_addrs_def nth_append)
qed

lemma reply_addrs_lookup: "map (\<lambda>a. (no_comment # pcs) ! a) (reply_addrs pcs i) = replies pcs i"
proof -
  have "map (\<lambda>k. pcs ! k) (filter (\<lambda>k. pc_parent (pcs ! k) = i) [0..<length pcs]) =
      filter (\<lambda>c. pc_parent c = i) (map (\<lambda>k. pcs ! k) [0..<length pcs])"
    by (simp add: filter_map comp_def)
  then show ?thesis by (simp add: reply_addrs_def replies_def comp_def map_nth)
qed

lemma built_root: "built [] root_store"
  by (simp add: built_def root_store_def)

lemma append_child_reply:
  assumes "distinct (map pc_id cs)" "k < length cs" "pc_id (cs ! k) = pc_parent c"
  shows "append_child k (Suc (length pcs)) (map (\<lambda>x. (x, reply_addrs pcs (pc_id x))) cs) =
    map (\<lambda>x. (x, reply_addrs (pcs @ [c]) (pc_id x))) cs"
proof (rule nth_equalityI)
  fix j
  assume "j < length (append_child k (Suc (length pcs)) (map (\<lambda>x. (x, reply_addrs pcs (pc_id x))) cs))"
  then have j: "j < length cs" by (simp add: append_child_def)
  have "pc_id (cs ! j) = pc_parent c \<longleftrightarrow> j = k"
    using nth_eq_iff_index_eq [OF assms(1), of j k] j assms(2,3) by simp
  then show "append_child k (Suc (length pcs)) (map (\<lambda>x. (x, reply_addrs pcs (pc_id x))) cs) ! j =
      map (\<lambda>x. (x, reply_addrs (pcs @ [c]) (pc_id x))) cs ! j"
    using j assms(2) by (auto simp: append_child_def reply_addrs_snoc nth_list_update)
qed (simp add: append_child_def)

lemma built_add:
  assumes "built pcs s" "distinct (map pc_id (no_comment # pcs @ [c]))"
  shows "built (pcs @ [c]) (add_node c s)"
proof -
  let ?cs = "no_comment # pcs @ [c]"
  let ?a = "Suc (length pcs)"
  have nodes: "ts_nodes s = map (\<lambda>x. (x, reply_addrs pcs (pc_id x))) (no_comment # pcs)"
    and trees: "\<And>k. k < ?a \<Longrightarrow> ts_trees s (pc_id ((no_comment # pcs) ! k)) = Some k"
      "dom (ts_trees s) = pc_id ` set (no_comment # pcs)"
    and orph: "map_of (ts_orphans s) i = (if i \<in> pc_id ` set (no_comment # pcs) \<or> reply_addrs pcs i = [] then None
         else Some (reply_addrs pcs i))" for i
    using assms(1) unfolding built_def by blast+
  have new: "pc_id c \<notin> pc_id ` set (no_comment # pcs)" using assms(2) by auto
  have kids: "orphans_of s (pc_id c) = reply_addrs pcs (pc_id c)"
    using new by (simp add: orphans_of_def orph)
  have nodes1: "ts_nodes s @ [(c, orphans_of s (pc_id c))] = map (\<lambda>x. (x, reply_addrs pcs (pc_id x))) ?cs"
    unfolding nodes kids by simp
  define tr where "tr = (ts_trees s)(pc_id c \<mapsto> ?a)"
  have tr1: "tr (pc_id (?cs ! k)) = Some k" if k: "k < Suc ?a" for k
  proof (cases "k = ?a")
    case False
    then have k': "k < ?a" using k by simp
    then have here: "?cs ! k = (no_comment # pcs) ! k" by (cases k) (simp_all add: nth_append)
    then have "pc_id (?cs ! k) \<in> pc_id ` set (no_comment # pcs)" using nth_mem [of k "no_comment # pcs"] k' by auto
    then have "pc_id (?cs ! k) \<noteq> pc_id c" using new by metis
    then show ?thesis using trees(1) [OF k'] here by (simp add: tr_def)
  qed (simp add: tr_def)
  have tr2: "dom tr = pc_id ` set ?cs" using trees(2) by (auto simp: tr_def)
  have len: "length (ts_nodes s) = ?a" using nodes by simp
  let ?os = "AList.delete (pc_id c) (ts_orphans s)"
  have orph1: "map_of ?os i = (if i \<in> pc_id ` set ?cs \<or> reply_addrs pcs i = [] then None
      else Some (reply_addrs pcs i))" for i
    using orph [of i] by (auto simp: delete_conv')
  have id_kept: "reply_addrs (pcs @ [c]) i = reply_addrs pcs i" if "i \<noteq> pc_parent c" for i
    using that by (simp add: reply_addrs_snoc)
  show ?thesis
  proof (cases "pc_parent c \<in> pc_id ` set ?cs")
    case True
    then obtain k where k: "k < length ?cs" "pc_id (?cs ! k) = pc_parent c"
      by (metis (no_types, lifting) imageE in_set_conv_nth)
    then have lk: "tr (pc_parent c) = Some k" using tr1 [of k] by simp
    note at = append_child_reply [OF assms(2) k]
    have "add_node c s = s\<lparr>ts_nodes := map (\<lambda>x. (x, reply_addrs (pcs @ [c]) (pc_id x))) ?cs,
        ts_orphans := ?os, ts_trees := tr\<rparr>"
      using lk at [of pcs] unfolding nodes1 [symmetric] tr_def by (simp add: add_node_def Let_def len)
    moreover have "map_of ?os i = (if i \<in> pc_id ` set ?cs \<or> reply_addrs (pcs @ [c]) i = [] then None
        else Some (reply_addrs (pcs @ [c]) i))" for i
      using orph1 [of i] id_kept [of i] True by (cases "i = pc_parent c") auto
    ultimately show ?thesis unfolding built_def using tr1 tr2 by simp
  next
    case False
    then have lk: "tr (pc_parent c) = None" using tr2 by auto
    have same: "reply_addrs (pcs @ [c]) (pc_id x) = reply_addrs pcs (pc_id x)" if "x \<in> set ?cs" for x
      using that False by (intro id_kept) (metis imageI)
    let ?os' = "AList.update (pc_parent c) (reply_addrs (pcs @ [c]) (pc_parent c)) ?os"
    have old: "(case map_of ?os (pc_parent c) of None \<Rightarrow> [] | Some ks \<Rightarrow> ks) = reply_addrs pcs (pc_parent c)"
      using orph1 [of "pc_parent c"] False by auto
    have "add_node c s = s\<lparr>ts_nodes := map (\<lambda>x. (x, reply_addrs pcs (pc_id x))) ?cs,
        ts_orphans := ?os', ts_trees := tr\<rparr>"
      using lk old unfolding nodes1 [symmetric] tr_def
      by (simp add: add_node_def Let_def len orphans_of_def reply_addrs_snoc)
    moreover have "map (\<lambda>x. (x, reply_addrs pcs (pc_id x))) ?cs =
        map (\<lambda>x. (x, reply_addrs (pcs @ [c]) (pc_id x))) ?cs"
      using same by (intro map_cong) simp_all
    moreover have "map_of ?os' i = (if i \<in> pc_id ` set ?cs \<or> reply_addrs (pcs @ [c]) i = [] then None
        else Some (reply_addrs (pcs @ [c]) i))" for i
      using orph1 [of i] id_kept [of i] False by (cases "i = pc_parent c") (auto simp: update_conv' reply_addrs_snoc)
    ultimately show ?thesis unfolding built_def using tr1 tr2 by simp
  qed
qed

lemma built_fold: "distinct (map pc_id (no_comment # pcs)) \<Longrightarrow> built pcs (fold add_node pcs root_store)"
proof (induction pcs rule: rev_induct)
  case (snoc c pcs)
  then show ?case using built_add [of pcs "fold add_node pcs root_store" c] by simp
qed (simp add: built_root)

lemma reply_addrs_empty: "reply_addrs pcs i = [] \<longleftrightarrow> (\<forall>c \<in> set pcs. pc_parent c \<noteq> i)"
  by (auto simp: reply_addrs_def filter_empty_conv all_set_conv_all_nth)

lemma buildCommentTree_Ok:
  assumes "distinct (map pc_id (no_comment # pcs))"
  shows "buildCommentTree pcs =
    (if \<forall>c \<in> set pcs. pc_parent c \<in> pc_id ` set (no_comment # pcs)
     then Ok (map (\<lambda>c. (c, reply_addrs pcs (pc_id c))) (no_comment # pcs))
     else Panic ''unparented comments'')"
proof -
  let ?s = "fold add_node pcs root_store"
  have b: "built pcs ?s" by (rule built_fold [OF assms])
  have "ts_orphans ?s = [] \<longleftrightarrow> (\<forall>i. map_of (ts_orphans ?s) i = None)"
    by (cases "ts_orphans ?s") (auto split: if_splits)
  also have "\<dots> \<longleftrightarrow> (\<forall>i. i \<notin> pc_id ` set (no_comment # pcs) \<longrightarrow> reply_addrs pcs i = [])"
    using b unfolding built_def by auto
  also have "\<dots> \<longleftrightarrow> (\<forall>c \<in> set pcs. pc_parent c \<in> pc_id ` set (no_comment # pcs))"
    unfolding reply_addrs_empty by metis
  finally show ?thesis using b by (auto simp: buildCommentTree_def Let_def built_def)
qed

subsection \<open>The links read as a tree\<close>

lemma read_tree_thread:
  assumes "a < Suc (length pcs)"
  shows "read_tree n (map (\<lambda>c. (c, reply_addrs pcs (pc_id c))) (no_comment # pcs)) a =
    thread n pcs ((no_comment # pcs) ! a)"
  using assms
proof (induction n arbitrary: a)
  case (Suc n)
  let ?nodes = "map (\<lambda>c. (c, reply_addrs pcs (pc_id c))) (no_comment # pcs)"
  let ?c = "(no_comment # pcs) ! a"
  have at: "?nodes ! a = (?c, reply_addrs pcs (pc_id ?c))" using Suc.prems by (simp del: list.map)
  have "map (read_tree n ?nodes) (reply_addrs pcs (pc_id ?c)) =
      map (\<lambda>b. thread n pcs ((no_comment # pcs) ! b)) (reply_addrs pcs (pc_id ?c))"
    using Suc.IH by (intro map_cong) (auto simp: reply_addrs_def)
  also have "\<dots> = map (thread n pcs) (replies pcs (pc_id ?c))"
    unfolding reply_addrs_lookup [symmetric] by (simp add: comp_def)
  finally show ?case unfolding read_tree.simps thread.simps at by simp
qed (simp del: list.map)

subsection \<open>Every comment is in the tree once\<close>

text \<open>The comments a number of replies below another.\<close>

primrec below :: "nat \<Rightarrow> pic_comment list \<Rightarrow> pic_comment \<Rightarrow> pic_comment list" where
  "below 0 pcs c = [c]"
| "below (Suc k) pcs c = concat (map (below k pcs) (replies pcs (pc_id c)))"

lemma concat_map_concat: "concat (map (\<lambda>x. concat (map f (g x))) xs) = concat (map f (concat (map g xs)))"
  by (induction xs) simp_all

lemma below_Suc: "below (Suc k) pcs c = concat (map (\<lambda>d. replies pcs (pc_id d)) (below k pcs c))"
proof (induction k arbitrary: c)
  case (Suc k)
  have "below (Suc (Suc k)) pcs c = concat (map (below (Suc k) pcs) (replies pcs (pc_id c)))" by simp
  also have "\<dots> = concat (map (\<lambda>x. concat (map (\<lambda>d. replies pcs (pc_id d)) (below k pcs x)))
      (replies pcs (pc_id c)))"
    by (intro arg_cong [of _ _ concat] map_cong refl Suc.IH)
  also have "\<dots> = concat (map (\<lambda>d. replies pcs (pc_id d)) (below (Suc k) pcs c))"
    by (simp add: concat_map_concat)
  finally show ?case .
next
  case 0
  have "below 0 pcs = (\<lambda>d. [d])" by (rule ext) simp
  then show ?case by (simp del: below.simps(1))
qed

lemma sum_list_sum: "(\<Sum>x\<leftarrow>xs. \<Sum>k\<le>n. f k x) = (\<Sum>k\<le>n. \<Sum>x\<leftarrow>xs. (f k x :: 'b :: comm_monoid_add))"
  by (induction xs) (simp_all add: sum.distrib)

lemma mset_concat_map: "mset (concat (map f xs)) = (\<Sum>x\<leftarrow>xs. mset (f x))"
  by (induction xs) simp_all

lemma thread_levels: "mset (tree_comments (thread n pcs c)) = (\<Sum>k\<le>n. mset (below k pcs c))"
proof (induction n arbitrary: c)
  case (Suc n)
  have "mset (tree_comments (thread (Suc n) pcs c)) =
      {#c#} + (\<Sum>d\<leftarrow>replies pcs (pc_id c). \<Sum>k\<le>n. mset (below k pcs d))"
    using Suc.IH by (simp add: mset_concat_map comp_def)
  also have "\<dots> = {#c#} + (\<Sum>k\<le>n. mset (below (Suc k) pcs c))"
    unfolding sum_list_sum by (simp add: mset_concat_map)
  also have "\<dots> = (\<Sum>k\<le>Suc n. mset (below k pcs c))"
    by (subst sum.atMost_Suc_shift) simp
  finally show ?case .
qed simp

inductive depth :: "pic_comment list \<Rightarrow> int \<Rightarrow> nat \<Rightarrow> bool" for pcs where
  "depth pcs 0 0"
| "c \<in> set pcs \<Longrightarrow> depth pcs (pc_parent c) n \<Longrightarrow> depth pcs (pc_id c) (Suc n)"

lemma threaded_depth: "threaded pcs i \<Longrightarrow> \<exists>n. depth pcs i n"
  by (induction rule: threaded.induct) (auto intro: depth.intros)

lemma depth_unique:
  assumes "distinct (map pc_id (no_comment # pcs))" "depth pcs i m" "depth pcs i n"
  shows "m = n"
  using assms(2,3)
proof (induction arbitrary: n rule: depth.induct)
  case 1
  then show ?case
  proof (cases rule: depth.cases)
    case (2 c k)
    then show ?thesis using assms(1) by (auto simp: image_iff)
  qed simp
next
  case (2 c m)
  from "2.prems" show ?case
  proof (cases rule: depth.cases)
    case 1
    then show ?thesis using assms(1) "2.hyps"(1) by auto
  next
    case d: (2 d k)
    then have "d = c" using assms(1) "2.hyps"(1) by (auto simp: distinct_map inj_on_def)
    then show ?thesis using d "2.IH" by blast
  qed
qed

text \<open>The comments that are \<open>k\<close> replies away from the picture are those of depth \<open>k\<close>.\<close>

lemma mset_replies_ids:
  assumes "distinct (map pc_id xs)"
  shows "(\<Sum>d\<leftarrow>xs. mset (replies pcs (pc_id d))) = mset (filter (\<lambda>c. pc_parent c \<in> pc_id ` set xs) pcs)"
  using assms
proof (induction xs)
  case (Cons d xs)
  have "mset (filter (\<lambda>c. pc_parent c \<in> pc_id ` set (d # xs)) ys) =
      mset (replies ys (pc_id d)) + mset (filter (\<lambda>c. pc_parent c \<in> pc_id ` set xs) ys)" for ys
    using Cons.prems by (induction ys) (auto simp: replies_def)
  then show ?case using Cons by simp
qed simp

lemma mset_below_depth:
  assumes "distinct (map pc_id (no_comment # pcs))"
    "D 0 = 0" "\<And>c. c \<in> set pcs \<Longrightarrow> D (pc_id c) = Suc (D (pc_parent c))"
    "\<And>c. c \<in> set pcs \<Longrightarrow> pc_parent c \<in> pc_id ` set (no_comment # pcs)"
  shows "mset (below k pcs no_comment) = mset (filter (\<lambda>c. D (pc_id c) = k) (no_comment # pcs))"
proof (induction k)
  case 0
  have "filter (\<lambda>c. D (pc_id c) = 0) pcs = []" using assms(3) by (simp add: filter_empty_conv)
  then show ?case by (simp add: assms(2))
next
  case (Suc k)
  let ?lv = "filter (\<lambda>c. D (pc_id c) = k) (no_comment # pcs)"
  have "mset (below (Suc k) pcs no_comment) = (\<Sum>d\<leftarrow>below k pcs no_comment. mset (replies pcs (pc_id d)))"
    unfolding below_Suc mset_concat_map ..
  also have "\<dots> = sum_mset (image_mset (\<lambda>d. mset (replies pcs (pc_id d))) (mset (below k pcs no_comment)))"
    by (simp add: sum_mset_sum_list [symmetric])
  also have "\<dots> = (\<Sum>d\<leftarrow>?lv. mset (replies pcs (pc_id d)))"
    unfolding Suc.IH by (simp only: mset_map [symmetric] sum_mset_sum_list)
  also have "\<dots> = mset (filter (\<lambda>c. pc_parent c \<in> pc_id ` set ?lv) pcs)"
    by (rule mset_replies_ids) (rule distinct_map_filter [OF assms(1)])
  also have "filter (\<lambda>c. pc_parent c \<in> pc_id ` set ?lv) pcs = filter (\<lambda>c. D (pc_id c) = Suc k) pcs"
  proof (rule filter_cong [OF refl])
    fix c
    assume c: "c \<in> set pcs"
    have "pc_parent c \<in> pc_id ` set ?lv \<longleftrightarrow> D (pc_parent c) = k"
      using assms(4) [OF c] by (auto simp: image_iff)
    then show "pc_parent c \<in> pc_id ` set ?lv \<longleftrightarrow> D (pc_id c) = Suc k" using assms(3) [OF c] by simp
  qed
  also have "filter (\<lambda>c. D (pc_id c) = Suc k) pcs = filter (\<lambda>c. D (pc_id c) = Suc k) (no_comment # pcs)"
    by (simp add: assms(2))
  finally show ?case .
qed

text \<open>No comment is deeper than there are comments.\<close>

lemma depth_bound:
  assumes "D 0 = 0" "\<And>c. c \<in> set pcs \<Longrightarrow> D (pc_id c) = Suc (D (pc_parent c))"
    "\<And>c. c \<in> set pcs \<Longrightarrow> pc_parent c \<in> pc_id ` set (no_comment # pcs)" "c \<in> set pcs"
  shows "D (pc_id c) \<le> length pcs"
proof -
  have all: "c \<in> set pcs \<Longrightarrow> D (pc_id c) = m \<Longrightarrow> {1..m} \<subseteq> D ` pc_id ` set pcs" for m c
  proof (induction m arbitrary: c)
    case (Suc m)
    show ?case
    proof (cases m)
      case 0
      then show ?thesis using Suc.prems by (auto simp: image_iff intro!: bexI [of _ c])
    next
      case (Suc m')
      have up: "D (pc_parent c) = m" using assms(2) [OF Suc.prems(1)] Suc.prems(2) by simp
      then have "pc_parent c \<noteq> 0" using assms(1) Suc by auto
      then obtain p where "p \<in> set pcs" "pc_id p = pc_parent c" using assms(3) [OF Suc.prems(1)] by auto
      then have "{1..m} \<subseteq> D ` pc_id ` set pcs" using Suc.IH up by simp
      moreover have "Suc m \<in> D ` pc_id ` set pcs" using Suc.prems by (metis imageI)
      ultimately show ?thesis by (auto simp: atLeastAtMostSuc_conv)
    qed
  qed simp
  have "card {1..D (pc_id c)} \<le> card (D ` pc_id ` set pcs)"
    by (rule card_mono [OF _ all [OF assms(4) refl]]) simp
  also have "\<dots> \<le> card (set pcs)" by (meson card_image_le finite_imageI finite_set le_trans)
  also have "\<dots> \<le> length pcs" by (rule card_length)
  finally show ?thesis by simp
qed

lemma mset_levels:
  assumes "\<forall>x \<in> set xs. f x \<le> (n :: nat)"
  shows "(\<Sum>k\<le>n. mset (filter (\<lambda>x. f x = k) xs)) = mset xs"
  using assms
proof (induction xs)
  case (Cons x xs)
  have "(\<Sum>k\<le>n. mset (filter (\<lambda>y. f y = k) (x # xs))) =
      (\<Sum>k\<le>n. (if k = f x then {#x#} else {#}) + mset (filter (\<lambda>y. f y = k) xs))"
    by (rule sum.cong) auto
  also have "\<dots> = (\<Sum>k\<le>n. if k = f x then {#x#} else {#}) + mset xs"
    using Cons by (simp add: sum.distrib)
  also have "(\<Sum>k\<le>n. if k = f x then {#x#} else {#}) = {#x#}"
    using Cons.prems by (subst sum.delta) auto
  finally show ?case by simp
qed simp

lemma thread_all:
  assumes "distinct (map pc_id (no_comment # pcs))" "\<forall>c \<in> set pcs. threaded pcs (pc_id c)"
    "length pcs \<le> n"
  shows "mset (tree_comments (thread n pcs no_comment)) = mset (no_comment # pcs)"
proof -
  define D where "D i = (THE n. depth pcs i n)" for i
  have D: "D i = n" if "depth pcs i n" for i n
    unfolding D_def using that depth_unique [OF assms(1)] by blast
  have D0: "D 0 = 0" by (rule D) (rule depth.intros)
  have up: "threaded pcs (pc_parent c)" if c: "c \<in> set pcs" for c
  proof -
    have "threaded pcs (pc_id c)" using assms(2) c by blast
    then show ?thesis
    proof cases
      case top
      then show ?thesis using assms(1) c by (auto simp: image_iff)
    next
      case (reply d)
      then have "d = c" using assms(1) c by (auto simp: distinct_map inj_on_def)
      then show ?thesis using reply by simp
    qed
  qed
  have DS: "D (pc_id c) = Suc (D (pc_parent c))" if c: "c \<in> set pcs" for c
  proof -
    obtain m where "depth pcs (pc_parent c) m" using threaded_depth [OF up [OF c]] by blast
    then show ?thesis using D depth.intros(2) [OF c] by metis
  qed
  have par: "pc_parent c \<in> pc_id ` set (no_comment # pcs)" if "c \<in> set pcs" for c
    using up [OF that] by cases auto
  have level: "mset (below k pcs no_comment) = mset (filter (\<lambda>c. D (pc_id c) = k) (no_comment # pcs))" for k
    by (rule mset_below_depth [where D = D, OF assms(1) D0 DS par])
  have bound: "\<forall>c \<in> set (no_comment # pcs). D (pc_id c) \<le> n"
    using depth_bound [where D = D, OF D0 DS par] assms(3) D0 by fastforce
  show ?thesis
    unfolding thread_levels level by (rule mset_levels [OF bound])
qed

text \<open>The linked nodes of the pass, read as a tree.\<close>

lemma buildCommentTree_reads:
  assumes "distinct (map pc_id pcs)" "0 \<notin> pc_id ` set pcs" "\<forall>c \<in> set pcs. threaded pcs (pc_id c)"
    "length pcs \<le> n"
  obtains nodes where "buildCommentTree pcs = Ok nodes" "length nodes = Suc (length pcs)"
    "read_tree n nodes 0 = thread n pcs no_comment"
    "mset (tree_comments (thread n pcs no_comment)) = mset (no_comment # pcs)"
proof -
  have dist: "distinct (map pc_id (no_comment # pcs))" using assms(1,2) by simp
  have par: "\<forall>c \<in> set pcs. pc_parent c \<in> pc_id ` set (no_comment # pcs)"
  proof
    fix c
    assume c: "c \<in> set pcs"
    have "threaded pcs (pc_id c)" using assms(3) c by blast
    then show "pc_parent c \<in> pc_id ` set (no_comment # pcs)"
    proof cases
      case top
      then show ?thesis using assms(2) c by (metis imageI)
    next
      case (reply d)
      then have "d = c" using assms(1) c by (auto simp: distinct_map inj_on_def)
      then show ?thesis using reply(3) by (auto elim: threaded.cases)
    qed
  qed
  then have ok: "buildCommentTree pcs = Ok (map (\<lambda>c. (c, reply_addrs pcs (pc_id c))) (no_comment # pcs))"
    using buildCommentTree_Ok [OF dist] by simp
  have "read_tree n (map (\<lambda>c. (c, reply_addrs pcs (pc_id c))) (no_comment # pcs)) 0 =
      thread n pcs no_comment"
    using read_tree_thread [of 0 pcs n] by (simp del: list.map)
  with ok show thesis using thread_all [OF dist assms(3,4)] by (intro that) auto
qed

text \<open>C33. The one pass over the comments of a picture, with its orphans linked later, gives what one
  would write down recursively: if every comment is the end of a chain of replies that starts at
  the picture, the pass does not panic, the linked nodes read as a tree are the threads of the
  comments, replies in the order of the list, and every comment is in the tree exactly once. The
  fuel is the number of comments, which no chain of replies exceeds.\<close>

theorem buildCommentTree_threads:
  assumes "distinct (map pc_id pcs)" "0 \<notin> pc_id ` set pcs" "\<forall>c \<in> set pcs. threaded pcs (pc_id c)"
    "length pcs \<le> n"
  shows "\<exists>nodes. buildCommentTree pcs = Ok nodes \<and>
    read_tree n nodes 0 = thread n pcs no_comment \<and>
    mset (tree_comments (read_tree n nodes 0)) = mset (no_comment # pcs)"
  by (rule buildCommentTree_reads [OF assms]) auto

theorem buildCommentTree_threads_witness:
  "\<exists>nodes. buildCommentTree [no_comment\<lparr>pc_id := 2, pc_parent := 1\<rparr>, no_comment\<lparr>pc_id := 1\<rparr>] = Ok nodes \<and>
     mset (tree_comments (read_tree 2 nodes 0)) =
       mset [no_comment, no_comment\<lparr>pc_id := 2, pc_parent := 1\<rparr>, no_comment\<lparr>pc_id := 1\<rparr>]"
proof -
  let ?pcs = "[no_comment\<lparr>pc_id := 2, pc_parent := 1\<rparr>, no_comment\<lparr>pc_id := 1\<rparr>]"
  have one: "threaded ?pcs 1"
    using threaded.reply [of "no_comment\<lparr>pc_id := 1\<rparr>" ?pcs] threaded.top [of ?pcs]
    by (simp add: no_comment_def)
  have two: "threaded ?pcs 2"
    using threaded.reply [of "no_comment\<lparr>pc_id := 2, pc_parent := 1\<rparr>" ?pcs] one by simp
  show ?thesis
    using buildCommentTree_threads [of ?pcs 2] one two by auto
qed

end
