(* ===== verification/Lookup.thy ===== *)
theory Lookup
  imports Votes Users CommentTree
begin

section \<open>Tasks that look things up (be/tasks/lookup_*.go, find_*.go, *_custom_data_task.go)\<close>

text \<open>
  All of these but the creation of custom data run in a read-only job. What they show is filtered
  by the capabilities of whoever asks.
\<close>

subsection \<open>Filters\<close>

definition filterPicInternal :: "pic \<Rightarrow> user_cred \<Rightarrow> pic" where
  "filterPicInternal p uc =
     (let dp = (if cs_has (uc_caps uc) PIC_EXTENSION_READ then p else p\<lparr>p_ext := []\<rparr>)
      in if cs_has (uc_caps uc) USER_READ_ALL then dp
         else if cs_has (uc_caps uc) USER_READ_PUBLIC \<and> cs_has (uc_caps uc) USER_READ_PICS then dp
         else dp\<lparr>p_source := map (\<lambda>s.
           if uc_subject uc = fs_user s \<and> cs_has (uc_caps uc) USER_READ_SELF then s
           else s\<lparr>fs_user := AnonymousUserId\<rparr>) (p_source p)\<rparr>)"

definition filterPic :: "pic \<Rightarrow> user option \<Rightarrow> configuration \<Rightarrow> pic res" where
  "filterPic p su conf = res_map (filterPicInternal p) (userCredOf su conf)"

definition filterPics :: "pic list \<Rightarrow> user option \<Rightarrow> configuration \<Rightarrow> pic list res" where
  "filterPics ps su conf = res_map (\<lambda>uc. map (\<lambda>p. filterPicInternal p uc) ps) (userCredOf su conf)"

definition filterPicTagInternal :: "pic_tag \<Rightarrow> user_cred \<Rightarrow> pic_tag" where
  "filterPicTagInternal pt uc =
     (let dpt = (if cs_has (uc_caps uc) PIC_TAG_EXTENSION_READ then pt else pt\<lparr>pt_ext := []\<rparr>)
      in if shows_user uc USER_READ_PIC_TAG (pt_user dpt) then dpt
         else dpt\<lparr>pt_user := AnonymousUserId\<rparr>)"

definition filterPicTag :: "pic_tag \<Rightarrow> user option \<Rightarrow> configuration \<Rightarrow> pic_tag res" where
  "filterPicTag pt su conf = res_map (filterPicTagInternal pt) (userCredOf su conf)"

definition filterPicTags :: "pic_tag list \<Rightarrow> user option \<Rightarrow> configuration \<Rightarrow> pic_tag list res" where
  "filterPicTags pts su conf = res_map (\<lambda>uc. map (\<lambda>pt. filterPicTagInternal pt uc) pts) (userCredOf su conf)"

definition filterPicCommentVoteInternal :: "pic_comment_vote \<Rightarrow> user_cred \<Rightarrow> pic_comment_vote \<times> bool" where
  "filterPicCommentVoteInternal pcv uc =
     (let dpcv = (if cs_has (uc_caps uc) PIC_VOTE_EXTENSION_READ then pcv else pcv\<lparr>pcv_ext := []\<rparr>)
      in if shows_user uc USER_READ_PIC_VOTE (pcv_user dpcv) then (dpcv, False)
         else (dpcv\<lparr>pcv_user := AnonymousUserId\<rparr>, True))"

definition filterPicCommentVote ::
    "pic_comment_vote \<Rightarrow> user option \<Rightarrow> configuration \<Rightarrow> pic_comment_vote res" where
  "filterPicCommentVote pcv su conf =
     res_map (\<lambda>uc. fst (filterPicCommentVoteInternal pcv uc)) (userCredOf su conf)"

definition filterPicCommentVotes ::
    "pic_comment_vote list \<Rightarrow> user option \<Rightarrow> configuration \<Rightarrow> pic_comment_vote list res" where
  "filterPicCommentVotes pcvs su conf =
     res_map (\<lambda>uc. map fst (filter (\<lambda>x. \<not> snd x) (map (\<lambda>pcv. filterPicCommentVoteInternal pcv uc) pcvs)))
       (userCredOf su conf)"

subsection \<open>Looking up a picture\<close>

record pic_view =
  pv_unfiltered :: pic
  pv_pic_shown :: pic
  pv_tags :: "pic_tag list"
  pv_tree :: "(pic_comment \<times> nat list) list"

definition lookup_pic_body :: "ctx \<Rightarrow> int \<Rightarrow> bool \<Rightarrow> bool \<Rightarrow> user option \<Rightarrow> pic_view io" where
  "lookup_pic_body cx picId checkCommentExt checkTagExt u =
     bind (GetConfiguration cx) (\<lambda>conf.
     bind (lift_res (validateCapability u conf [PIC_INDEX])) (\<lambda>_.
     bind (if checkCommentExt then lift_res (validateCapability u conf [PIC_COMMENT_EXTENSION_READ])
           else ret ()) (\<lambda>_.
     bind (if checkTagExt then lift_res (validateCapability u conf [PIC_TAG_EXTENSION_READ])
           else ret ()) (\<lambda>_.
     bind (wrap_err (\<lambda>e. Internal e ''can't lookup pic'')
       (FindPics (no_opts\<lparr>o_prefix := Some (PicsPrimary (Some picId)), o_limit := 1\<rparr>))) (\<lambda>pics.
     bind (case pics of [p] \<Rightarrow> ret p | _ \<Rightarrow> fail (NotFound None ''can't find pic'')) (\<lambda>p.
     bind (wrap_err (\<lambda>e. Internal e ''can't find pic tags'')
       (FindPicTags (no_opts\<lparr>o_prefix := Some (PicTagsPrimary (Some picId) None)\<rparr>))) (\<lambda>picTags.
     bind (wrap_err (\<lambda>e. Internal e ''can't find pic comments'')
       (FindPicComments (no_opts\<lparr>o_prefix := Some (PicCommentsPrimary (Some picId) None)\<rparr>))) (\<lambda>picComments.
     bind (wrap_err (\<lambda>e. Internal e ''can't rollback job'') Rollback) (\<lambda>_.
     bind (lift_res (filterPic p u conf)) (\<lambda>shown.
     bind (lift_res (filterPicTags picTags u conf)) (\<lambda>tags.
     bind (lift_res (filterPicComments picComments u conf)) (\<lambda>comments.
     bind (lift_res (buildCommentTree comments)) (\<lambda>tree.
       ret \<lparr>pv_unfiltered = p, pv_pic_shown = shown, pv_tags = tags, pv_tree = tree\<rparr>)))))))))))))"

definition LookupPicTask :: "ctx \<Rightarrow> int \<Rightarrow> int \<Rightarrow> bool \<Rightarrow> bool \<Rightarrow> pic_view io" where
  "LookupPicTask cx now picId checkCommentExt checkTagExt =
     bind (authedReadonlyJob cx now)
       (\<lambda>u. revert (lookup_pic_body cx picId checkCommentExt checkTagExt u))"

subsection \<open>Looking up a vote\<close>

text \<open>\<open>su == ou\<close>: \<open>lookupObjectUser\<close> hands the subject back for the object.\<close>

definition own_object :: "int \<Rightarrow> user option \<Rightarrow> bool" where
  "own_object objectUserId su =
     (case su of Some u \<Rightarrow> deriveObjectUserId objectUserId su = Ok (u_id u) | None \<Rightarrow> False)"

definition lookup_vote_body :: "ctx \<Rightarrow> int \<Rightarrow> int \<Rightarrow> user option \<Rightarrow> pic_vote option io" where
  "lookup_vote_body cx picId objectUserId su =
     bind (lookupObjectUser LockNone objectUserId su) (\<lambda>ou.
     bind (GetConfiguration cx) (\<lambda>conf.
     bind (lift_res (validateCapability su conf
       [if own_object objectUserId su then USER_READ_SELF else USER_READ_ALL])) (\<lambda>_.
     bind (wrap_err (\<lambda>e. Internal e ''can't lookup pic'')
       (FindPics (no_opts\<lparr>o_prefix := Some (PicsPrimary (Some picId)), o_limit := 1\<rparr>))) (\<lambda>pics.
     bind (check (length pics = 1) (NotFound None ''can't find pic'')) (\<lambda>_.
     bind (wrap_err (\<lambda>e. Internal e ''can't find pic votes'')
       (FindPicVotes (no_opts\<lparr>o_prefix := Some (PicVotesPrimary (Some picId) (Some (u_id ou)) None)\<rparr>))) (\<lambda>pvs.
     bind (case pvs of [] \<Rightarrow> ret None | [v] \<Rightarrow> ret (Some v)
           | _ \<Rightarrow> fail (Internal None ''bad number of pic votes'')) (\<lambda>vote.
     bind (wrap_err (\<lambda>e. Internal e ''can't rollback job'') Rollback) (\<lambda>_.
     (case vote of None \<Rightarrow> ret None
      | Some v \<Rightarrow> lift_res (res_map Some (filterPicVote v su conf)))))))))))"

definition LookupPicVoteTask :: "ctx \<Rightarrow> int \<Rightarrow> int \<Rightarrow> int \<Rightarrow> pic_vote option io" where
  "LookupPicVoteTask cx now picId objectUserId =
     bind (authedReadonlyJob cx now) (\<lambda>su. revert (lookup_vote_body cx picId objectUserId su))"

subsection \<open>Finding the votes for comments\<close>

definition find_comment_votes_body ::
    "ctx \<Rightarrow> int \<Rightarrow> int option \<Rightarrow> int option \<Rightarrow> user option \<Rightarrow> pic_comment_vote list io" where
  "find_comment_votes_body cx picId commentId objectUserId su =
     bind (GetConfiguration cx) (\<lambda>conf.
     bind (wrap_err (\<lambda>e. Internal e ''can't lookup pic'')
       (FindPics (no_opts\<lparr>o_prefix := Some (PicsPrimary (Some picId))\<rparr>))) (\<lambda>pics.
     bind (check (length pics = 1) (NotFound None ''can't find pic'')) (\<lambda>_.
     bind (case commentId of
         None \<Rightarrow> ret ()
       | Some c \<Rightarrow>
           bind (wrap_err (\<lambda>e. Internal e ''can't lookup comment'')
             (FindPicComments (no_opts\<lparr>o_prefix := Some (PicCommentsPrimary (Some picId) (Some c)),
                o_limit := 1\<rparr>))) (\<lambda>cs.
           check (length cs = 1) (NotFound None ''can't find comment''))) (\<lambda>_.
     bind (check (objectUserId = None \<or> commentId \<noteq> None) (InvalidArgument None ''missing comment id'')) (\<lambda>_.
     bind (wrap_err (\<lambda>e. Internal e ''can't find pic comment votes'')
       (FindPicCommentVotes (no_opts\<lparr>o_prefix :=
          Some (PicCommentVotesPrimary (Some picId) commentId objectUserId None), o_lock := LockNone\<rparr>))) (\<lambda>pcvs.
     bind (wrap_err (\<lambda>e. Internal e ''can't rollback job'') Rollback) (\<lambda>_.
       lift_res (filterPicCommentVotes pcvs su conf))))))))"

definition FindPicCommentVotesTask ::
    "ctx \<Rightarrow> int \<Rightarrow> int \<Rightarrow> int option \<Rightarrow> int option \<Rightarrow> pic_comment_vote list io" where
  "FindPicCommentVotesTask cx now picId commentId objectUserId =
     bind (authedReadonlyJob cx now)
       (\<lambda>su. revert (find_comment_votes_body cx picId commentId objectUserId su))"

subsection \<open>Similar pictures\<close>

abbreviation (input) "PicIdent_DCT_0 \<equiv> (4 :: int)"

text \<open>\<open>binary.BigEndian.Uint64\<close>\<close>

definition be_uint64 :: "string \<Rightarrow> 64 word res" where
  "be_uint64 v = (if length v < 8 then Panic ''index out of range''
     else Ok (fold (\<lambda>c acc. push_bit 8 acc OR of_nat (of_char c)) (take 8 v) 0))"

definition bit_count :: "64 word \<Rightarrow> nat" where
  "bit_count bits = length (filter (\<lambda>i. push_bit i 1 AND bits > 0) [0..<64])"

fun similar_pics :: "int \<Rightarrow> 64 word \<Rightarrow> pic_ident list \<Rightarrow> int list res" where
  "similar_pics picId match [] = Ok []"
| "similar_pics picId match (pi # pis) =
     (if pi_pic pi = picId then similar_pics picId match pis
      else res_bind (be_uint64 (pi_value pi)) (\<lambda>guess.
        res_map (\<lambda>ids. if bit_count (guess XOR match) \<le> 10 then pi_pic pi # ids else ids)
          (similar_pics picId match pis)))"

definition find_similar_body :: "ctx \<Rightarrow> int \<Rightarrow> user option \<Rightarrow> int list io" where
  "find_similar_body cx picId u =
     bind (GetConfiguration cx) (\<lambda>conf.
     bind (lift_res (validateCapability u conf [PIC_INDEX])) (\<lambda>_.
     bind (wrap_err (\<lambda>e. Internal e ''can't lookup pic'')
       (FindPics (no_opts\<lparr>o_prefix := Some (PicsPrimary (Some picId)), o_limit := 1\<rparr>))) (\<lambda>pics.
     bind (case pics of [p] \<Rightarrow> ret p | _ \<Rightarrow> fail (NotFound None ''can't lookup pic'')) (\<lambda>p.
     bind (wrap_err (\<lambda>e. Internal e ''can't lookup pic ident'')
       (FindPicIdents (no_opts\<lparr>o_prefix := Some (PicIdentsPrimary (Some picId) (Some PicIdent_DCT_0) None),
          o_limit := 1\<rparr>))) (\<lambda>idents.
     bind (case idents of [i] \<Rightarrow> ret i | _ \<Rightarrow> fail (InvalidArgument None ''can't lookup pic ident'')) (\<lambda>target.
     bind (lift_res (be_uint64 (pi_value target))) (\<lambda>match.
     bind (wrap_err (\<lambda>e. Internal e ''can't scan pic idents'')
       (FindPicIdents (no_opts\<lparr>o_start_inc := Some (PicIdentsIdent (Some PicIdent_DCT_0) None)\<rparr>))) (\<lambda>pis.
     bind (lift_res (similar_pics (p_id p) match pis)) (\<lambda>ids.
     bind (wrap_err (\<lambda>e. Internal e ''can't rollback job'') Rollback) (\<lambda>_. ret ids))))))))))"

definition FindSimilarPicsTask :: "ctx \<Rightarrow> int \<Rightarrow> int \<Rightarrow> int list io" where
  "FindSimilarPicsTask cx now picId =
     bind (authedReadonlyJob cx now) (\<lambda>u. revert (find_similar_body cx picId u))"

subsection \<open>Custom data\<close>

definition createCustomData :: "custom_data \<Rightarrow> int \<Rightarrow> custom_data io" where
  "createCustomData cd now =
     bind (lift_res (ToTspb now)) (\<lambda>ts.
     let cd' = cd\<lparr>cd_created := Some ts, cd_modified := Some ts\<rparr> in
     bind (wrap_err (\<lambda>e. Internal e ''can't create custom data'') (InsertCustomData cd')) (\<lambda>_. ret cd'))"

definition create_custom_body :: "ctx \<Rightarrow> int \<Rightarrow> int list \<Rightarrow> custom_data \<Rightarrow> user option \<Rightarrow> unit io" where
  "create_custom_body cx now caps cd u =
     bind (GetConfiguration cx) (\<lambda>conf.
     bind (lift_res (validateCapability u conf caps)) (\<lambda>_.
     bind (createCustomData cd now) (\<lambda>_.
     bind (wrap_err (\<lambda>e. Internal e ''can't commit'') Commit) (\<lambda>_. ret ()))))"

definition CreateCustomDataTask :: "ctx \<Rightarrow> int \<Rightarrow> int list \<Rightarrow> custom_data \<Rightarrow> unit io" where
  "CreateCustomDataTask cx now caps cd =
     bind (authedJob cx now) (\<lambda>u. revert (create_custom_body cx now caps cd u))"

definition key_part :: "int list \<Rightarrow> nat \<Rightarrow> int option" where
  "key_part keyParts k = (if length keyParts > k then Some (keyParts ! k) else None)"

definition findCustomData :: "lock \<Rightarrow> int \<Rightarrow> int list \<Rightarrow> custom_data list io" where
  "findCustomData lk keyType keyParts =
     (if length keyParts > 5 then fail (Internal None ''bad number of keyparts'')
      else wrap_err (\<lambda>e. Internal e ''can't find custom data'')
        (FindCustomData (no_opts\<lparr>o_lock := lk, o_prefix := Some (CustomDataPrimary (Some keyType)
          (key_part keyParts 0) (key_part keyParts 1) (key_part keyParts 2) (key_part keyParts 3)
          (key_part keyParts 4))\<rparr>)))"

definition find_custom_body :: "ctx \<Rightarrow> int \<Rightarrow> int list \<Rightarrow> int list \<Rightarrow> user option \<Rightarrow> custom_data list io" where
  "find_custom_body cx keyType keyPrefix caps u =
     bind (GetConfiguration cx) (\<lambda>conf.
     bind (lift_res (validateCapability u conf caps)) (\<lambda>_. findCustomData LockNone keyType keyPrefix))"

definition FindCustomDataTask :: "ctx \<Rightarrow> int \<Rightarrow> int \<Rightarrow> int list \<Rightarrow> int list \<Rightarrow> custom_data list io" where
  "FindCustomDataTask cx now keyType keyPrefix caps =
     bind (authedReadonlyJob cx now) (\<lambda>u. revert (find_custom_body cx keyType keyPrefix caps u))"

subsection \<open>Frames\<close>

lemma lookup_choice_frames:
  "keeps keeps_fit (case ps of [p] \<Rightarrow> ret p | _ \<Rightarrow> fail e)"
  "keeps keeps_base (case ps of [p] \<Rightarrow> ret p | _ \<Rightarrow> fail e)"
  "keeps keeps_acct (case ps of [p] \<Rightarrow> ret p | _ \<Rightarrow> fail e)"
  by (auto intro!: task_frames split: list.splits)

lemmas read_frames = user_frames lookup_choice_frames

interpretation lookup_pic: read_task "lookup_pic_body cx i c t" for cx i c t
  unfolding lookup_pic_body_def
  by unfold_locales (auto intro!: read_frames)

interpretation lookup_vote: read_task "lookup_vote_body cx i oid" for cx i oid
  unfolding lookup_vote_body_def
  by unfold_locales (auto intro!: read_frames split: list.splits option.splits)

interpretation find_comment_votes: read_task "find_comment_votes_body cx i c oid" for cx i c oid
  unfolding find_comment_votes_body_def
  by unfold_locales (auto intro!: read_frames split: option.splits)

interpretation find_similar: read_task "find_similar_body cx i" for cx i
  unfolding find_similar_body_def
  by unfold_locales (auto intro!: read_frames)

interpretation find_custom: read_task "find_custom_body cx k p caps" for cx k p caps
  unfolding find_custom_body_def findCustomData_def
  by unfold_locales (auto intro!: read_frames)

interpretation create_custom: atomic_task "create_custom_body cx now caps cd" for cx now caps cd
  unfolding create_custom_body_def createCustomData_def Let_def
  by unfold_locales (auto intro!: read_frames commits_last_bind commits_last_Commit quiet_ret)

end
