(* ===== verification/IndexPics.thy ===== *)
theory IndexPics
  imports Lookup
begin

section \<open>The index of pictures (be/tasks/read_index_pics_task.go, find_sched_pics_task.go)\<close>

text \<open>
  \<open>ReadIndexPicsTask\<close> shows the pictures page by page, \<open>FindSchedPicsTask\<close> those the user has not
  voted on. Both are read-only tasks.
\<close>

abbreviation (input) "defaultDescIndexId \<equiv> max_int64"

abbreviation (input) "defaultAscIndexId \<equiv> (0 :: int)"

subsection \<open>How many\<close>

definition getMaxConf :: "int \<Rightarrow> int option \<Rightarrow> int option \<Rightarrow> int \<times> int" where
  "getMaxConf requestedMax confDefault confMax =
     (let confDefaultPresent = bound_or max_int64 confDefault;
          confMaxPresent = bound_or max_int64 confMax;
          maxPresent = (if requestedMax \<noteq> 0
            then (if requestedMax < confMaxPresent then requestedMax else confMaxPresent)
            else confDefaultPresent);
          overMax = (if maxPresent < max_int64 then maxPresent + 1 else maxPresent)
      in (maxPresent, overMax))"

definition getMaxPics :: "int \<Rightarrow> configuration \<Rightarrow> int \<times> int" where
  "getMaxPics requestedMax conf = getMaxConf requestedMax (c_default_find_index conf) (c_max_find_index conf)"

definition getAndValidateMaxPics :: "configuration \<Rightarrow> int \<Rightarrow> (int \<times> int) res" where
  "getAndValidateMaxPics conf requestedMax =
     (if requestedMax < 0 then Err (InvalidArgument None ''negative max pics'')
      else Ok (getMaxPics requestedMax conf))"

subsection \<open>Reading a page\<close>

definition lookupStartPic :: "int \<Rightarrow> bool \<Rightarrow> pic option io" where
  "lookupStartPic i asc =
     bind (wrap_err (\<lambda>e. Internal e ''can't find start pic'')
       (FindPics (if asc then no_opts\<lparr>o_limit := 1, o_start_inc := Some (PicsPrimary (Some i))\<rparr>
          else no_opts\<lparr>o_limit := 1, o_reverse := True, o_stop_inc := Some (PicsPrimary (Some i))\<rparr>))) (\<lambda>ps.
     ret (case ps of [] \<Rightarrow> None | p # _ \<Rightarrow> Some p))"

definition index_scan :: "int \<Rightarrow> bool \<Rightarrow> int \<times> int \<Rightarrow> int \<times> int \<Rightarrow> opts" where
  "index_scan lim reverse lo hi =
     no_opts\<lparr>o_limit := lim, o_lock := LockNone,
       o_start_inc := Some (PicsIndexOrder (Some (fst lo)) (Some (snd lo))),
       o_stop_ex := Some (PicsIndexOrder (Some (fst hi)) (Some (snd hi))), o_reverse := reverse\<rparr>"

text \<open>The two ends of the first scan.\<close>

definition scan_ends :: "bool \<Rightarrow> (int \<times> int) option \<Rightarrow> (int \<times> int) \<times> (int \<times> int)" where
  "scan_ends asc start =
     (let lo = (defaultAscIndexId, 0); hi = (defaultDescIndexId, max_int64)
      in case start of
           None \<Rightarrow> (lo, hi)
         | Some (ord, i) \<Rightarrow> (if asc then ((ord, i), hi) else (lo, (ord, wrap64 (i + 1)))))"

text \<open>The picture before the page, looked for only if the page has a start.\<close>

definition prev_pic :: "bool \<Rightarrow> pic option \<Rightarrow> (int \<times> int) \<times> (int \<times> int) \<Rightarrow> int io" where
  "prev_pic asc startPic ends =
     (case startPic of
        None \<Rightarrow> ret 0
      | Some _ \<Rightarrow>
          bind (wrap_err (\<lambda>e. Internal e ''Unable to find prev pics'')
            (FindPics (if asc then index_scan 1 True (defaultAscIndexId, 0) (fst ends)
               else index_scan 1 False (snd ends) (defaultDescIndexId, max_int64)))) (\<lambda>ps.
          ret (case ps of [] \<Rightarrow> 0 | p # _ \<Rightarrow> p_id p)))"

record index_page =
  ip_unfiltered :: "pic list"
  ip_pics :: "pic list"
  ip_next :: int
  ip_prev :: int

definition cut_page :: "int \<Rightarrow> pic list \<Rightarrow> pic list \<times> int" where
  "cut_page overmax ps =
     (if length ps > 0 \<and> int (length ps) = overmax then (butlast ps, p_id (last ps)) else (ps, 0))"

definition read_index_body :: "ctx \<Rightarrow> int \<Rightarrow> int \<Rightarrow> bool \<Rightarrow> user option \<Rightarrow> index_page io" where
  "read_index_body cx startId maxPics asc u =
     bind (GetConfiguration cx) (\<lambda>conf.
     bind (lift_res (validateCapability u conf [PIC_INDEX])) (\<lambda>_.
     bind (lift_res (getAndValidateMaxPics conf maxPics)) (\<lambda>(_, overmax).
     bind (if startId \<noteq> 0 then lookupStartPic startId asc else ret None) (\<lambda>startPic.
     bind (case startPic of None \<Rightarrow> ret None
           | Some p \<Rightarrow> lift_res (res_map (\<lambda>ord. Some (ord, p_id p)) (NonHiddenIndexOrder p))) (\<lambda>start.
     bind (wrap_err (\<lambda>e. Internal e ''Unable to find pics'')
       (FindPics (index_scan overmax (\<not> asc) (fst (scan_ends asc start)) (snd (scan_ends asc start))))) (\<lambda>ps.
     bind (prev_pic asc startPic (scan_ends asc start)) (\<lambda>prev.
     bind (lift_res (filterPics (fst (cut_page overmax ps)) u conf)) (\<lambda>shown.
       ret \<lparr>ip_unfiltered = fst (cut_page overmax ps), ip_pics = shown,
         ip_next = snd (cut_page overmax ps), ip_prev = prev\<rparr>))))))))"

definition ReadIndexPicsTask :: "ctx \<Rightarrow> int \<Rightarrow> int \<Rightarrow> int \<Rightarrow> bool \<Rightarrow> index_page io" where
  "ReadIndexPicsTask cx now startId maxPics asc =
     bind (authedReadonlyJob cx now) (\<lambda>u. revert (read_index_body cx startId maxPics asc u))"

subsection \<open>Pictures to look at next\<close>

text \<open>
  The loop tests how many filtered pictures there are, of which there are none before it ends; so
  it stops early only if the default is not positive.
\<close>

fun sched_pick :: "int set \<Rightarrow> int \<Rightarrow> pic list \<Rightarrow> pic list" where
  "sched_pick voted lim [] = []"
| "sched_pick voted lim (p # ps) =
     (if p_id p \<in> voted then sched_pick voted lim ps
      else if HardDeleted p then sched_pick voted lim ps
      else if int (length ([] :: pic list)) \<ge> lim then [p]
      else p # sched_pick voted lim ps)"

abbreviation (input) "PicScoreMax \<equiv> (2147483647 :: int)"

definition find_sched_body :: "ctx \<Rightarrow> int \<Rightarrow> user option \<Rightarrow> (pic list \<times> pic list) io" where
  "find_sched_body cx objectUserId su =
     bind (GetConfiguration cx) (\<lambda>conf.
     bind (lookupObjectUser LockNone objectUserId su) (\<lambda>ou.
     bind (lift_res (validateCapSet su conf (cs_add (CapSetOf [PIC_INDEX])
       (if own_object objectUserId su then USER_READ_SELF else USER_READ_ALL)))) (\<lambda>_.
     bind (case su of None \<Rightarrow> panic ''nil pointer dereference'' | Some u \<Rightarrow> ret (u_id u)) (\<lambda>userId.
     bind (wrap_err (\<lambda>e. Internal e ''can't find pic votes'')
       (FindPicVotes (no_opts\<lparr>o_prefix := Some (PicVotesUserId (Some userId) None None)\<rparr>))) (\<lambda>pvs.
     bind (ret (bound_or max_int64 (c_default_find_index conf))) (\<lambda>defaultIndexPics.
     bind (wrap_err (\<lambda>e. Internal e ''can't find pics'')
       (FindPics (no_opts\<lparr>o_stop_inc := Some (PicsSchedOrder (Some PicScoreMax) None), o_reverse := True,
          o_limit := wrap64 (int (length pvs) + defaultIndexPics)\<rparr>))) (\<lambda>ps.
     bind (wrap_err (\<lambda>e. Internal e ''can't rollback'') Rollback) (\<lambda>_.
     bind (ret (sched_pick (pv_pic ` set pvs) defaultIndexPics ps)) (\<lambda>unfiltered.
     bind (lift_res (filterPics unfiltered su conf)) (\<lambda>shown. ret (unfiltered, shown)))))))))))"

definition FindSchedPicsTask :: "ctx \<Rightarrow> int \<Rightarrow> int \<Rightarrow> (pic list \<times> pic list) io" where
  "FindSchedPicsTask cx now objectUserId =
     bind (authedReadonlyJob cx now) (\<lambda>su. revert (find_sched_body cx objectUserId su))"

subsection \<open>Frames\<close>

lemma index_frames:
  "keeps keeps_fit (lookupStartPic i asc)" "keeps keeps_base (lookupStartPic i asc)"
  "keeps keeps_acct (lookupStartPic i asc)" "keeps keeps_fit (prev_pic asc sp ends)"
  "keeps keeps_base (prev_pic asc sp ends)" "keeps keeps_acct (prev_pic asc sp ends)"
  unfolding lookupStartPic_def prev_pic_def by (auto intro!: read_frames split: option.splits)

interpretation read_index: read_task "read_index_body cx s m asc" for cx s m asc
  unfolding read_index_body_def
  by unfold_locales (auto intro!: read_frames index_frames split: option.splits)

interpretation find_sched: read_task "find_sched_body cx oid" for cx oid
  unfolding find_sched_body_def
  by unfold_locales (auto intro!: read_frames split: option.splits)

end
