(* ===== verification/OrderedScan.thy ===== *)
theory OrderedScan
  imports JobSteps
begin

section \<open>Ordered scans\<close>


text \<open>A scan whose order columns tell all rows apart gives the one sorted list of the hits.\<close>

lemma sort_key_unique:
  assumes "mset ys = mset xs" "sorted (map k ys)" "distinct (map k xs)"
  shows "ys = sort_key k xs"
proof -
  have "distinct (map k ys)" using assms(1,3) by (metis mset_map mset_eq_imp_distinct_iff)
  then have inj: "inj_on k (set ys)" by (simp add: distinct_map)
  have "map k ys = map k (sort_key k xs)"
    by (rule sorted_distinct_set_unique)
      (use assms \<open>distinct (map k ys)\<close> mset_eq_setD [OF assms(1)] in \<open>auto simp: distinct_map\<close>)
  then show ?thesis
    by (rule map_inj_on) (use inj mset_eq_setD [OF assms(1)] in auto)
qed

definition cut :: "int \<Rightarrow> 'a list \<Rightarrow> 'a list" where
  "cut n xs = (if n > 0 then take (nat n) xs else xs)"

lemma find_ordered:
  assumes run: "find_rows T opt w = (Ok rs, w')" and tx: "tx_at w d" and pl: "scan_plan opt = Ok pl"
    and sel: "\<And>r. r \<in> set (tb_get T d) \<Longrightarrow> selects pl (col_of (tb_cols T) r) \<longleftrightarrow> P (tr_data r)"
    and key: "\<And>r. r \<in> set (tb_get T d) \<Longrightarrow> map (col_of (tb_cols T) r) (pl_order pl) = g (k (tr_data r))"
    and mono: "\<And>a b. g a \<le> g b \<longleftrightarrow> a \<le> (b :: 'k :: linorder)"
    and dist: "distinct (map k (msgs (tb_get T d)))"
  shows "tx_at w' d \<and> rs = cut (int (pl_limit pl))
    ((if pl_desc pl then rev else id) (sort_key k (filter P (msgs (tb_get T d)))))"
proof -
  have q: "query_plan T pl w = (Ok rs, w')" using run pl by (simp add: find_rows_def bind_def run_simps)
  let ?rows = "engine_order (e_rank (w_env w) (w_calls w)) (tb_get T d)"
  have w': "rs = map tr_data (select_rows pl (col_of (tb_cols T)) ?rows)" "tx_at w' d"
    using q tx
    by (auto simp: query_plan_def bind_def open_tx_def engine_call_def run_simps Let_def tx_at_def
        split: option.splits if_splits)
  let ?hits = "filter (\<lambda>r. selects pl (col_of (tb_cols T) r)) ?rows"
  let ?key = "\<lambda>r. map (col_of (tb_cols T) r) (pl_order pl)"
  have hits: "set ?hits \<subseteq> set (tb_get T d)" using mset_eq_setD [of ?rows "tb_get T d"] by auto
  have "mset (map tr_data (sort_key ?key ?hits)) = mset (filter P (msgs (tb_get T d)))"
  proof -
    have "mset (sort_key ?key ?hits) = filter_mset (\<lambda>r. selects pl (col_of (tb_cols T) r)) (mset (tb_get T d))"
      by simp
    also have "\<dots> = filter_mset (\<lambda>r. P (tr_data r)) (mset (tb_get T d))"
      by (intro filter_mset_cong) (auto simp: sel)
    finally show ?thesis by (simp add: msgs_def filter_map comp_def flip: mset_filter)
  qed
  moreover have "sorted (map k (map tr_data (sort_key ?key ?hits)))"
  proof -
    have "map ?key (sort_key ?key ?hits) = map g (map k (map tr_data (sort_key ?key ?hits)))"
      using hits key by (auto simp: comp_def)
    then have "sorted (map g (map k (map tr_data (sort_key ?key ?hits))))" by (metis sorted_sort_key)
    then show ?thesis unfolding sorted_map [of g] by (simp only: mono)
  qed
  ultimately have "map tr_data (sort_key ?key ?hits) = sort_key k (filter P (msgs (tb_get T d)))"
    by (rule sort_key_unique) (rule distinct_map_filter [OF dist])
  then have all: "map tr_data (if pl_desc pl then rev (sort_key ?key ?hits) else sort_key ?key ?hits) =
      (if pl_desc pl then rev else id) (sort_key k (filter P (msgs (tb_get T d))))"
    by (simp add: rev_map [symmetric])
  have "rs = cut (int (pl_limit pl))
      (map tr_data (if pl_desc pl then rev (sort_key ?key ?hits) else sort_key ?key ?hits))"
    unfolding w'(1) select_rows_def Let_def cut_def take_map by simp
  then show ?thesis using w'(2) unfolding all by simp
qed

end
