(* ===== verification/PageFacts.thy ===== *)
theory PageFacts
  imports IndexPics OrderedScan VoteFacts UserRuns
begin

section \<open>What reading the index gives\<close>

subsection \<open>Scans of the index\<close>

text \<open>The place of a picture in the index.\<close>

definition ikey :: "pic \<Rightarrow> int \<times> int" where
  "ikey p = (case IndexOrder p of Ok v \<Rightarrow> v | _ \<Rightarrow> 0, p_id p)"

definition all_pics :: "database \<Rightarrow> pic list" where
  "all_pics d = sort_key ikey (msgs (db_pics d))"

definition page_from :: "bool \<Rightarrow> database \<Rightarrow> (int \<times> int) option \<Rightarrow> pic list" where
  "page_from asc d start =
     (let ps = filter (\<lambda>p. fst (scan_ends asc start) \<le> ikey p \<and> ikey p < snd (scan_ends asc start)) (all_pics d)
      in if asc then ps else rev ps)"

lemma pair_list_le: "[SInt a, SInt b] \<le> [SInt c, SInt d] \<longleftrightarrow> (a, b) \<le> (c, d)"
  "[SInt a, SInt b] < [SInt c, SInt d] \<longleftrightarrow> (a, b) < (c, d)"
  by (auto simp: less_eq_prod_def less_prod_def)

lemma ikey_distinct: "db_fits ev d \<Longrightarrow> distinct (map ikey (msgs (db_pics d)))"
  using pics_distinct [of ev d] by (auto simp: distinct_map inj_on_def ikey_def)

lemma ikey_cols:
  assumes "db_fits ev d" "r \<in> set (db_pics d)"
  shows "map (col_of (tb_cols pics_table) r) [''index_order'', ''id''] =
    (\<lambda>(a, b). [SInt a, SInt b]) (ikey (tr_data r))"
  using pics_cols [OF assms] by (auto simp: col_of_def pics_table_def ikey_def)

lemma index_plan: "0 \<le> lim \<Longrightarrow> scan_plan (index_scan lim reverse lo hi) = Ok \<lparr>pl_eqs = [],
    pl_ranges = [range_dnf [''index_order'', ''id''] [SInt (fst lo), SInt (snd lo)] CGt CGe,
      range_dnf [''index_order'', ''id''] [SInt (fst hi), SInt (snd hi)] CLt CLt],
    pl_order = [''index_order'', ''id''], pl_desc = reverse, pl_limit = nat lim\<rparr>"
  by (simp add: scan_plan_def index_scan_def no_opts_def has_range_def range_plan_def range_end_def
      PicsIndexOrder_def one_range_def Cols_def Vals_def)

lemma index_selects:
  assumes "r \<in> set (db_pics d)" "db_fits ev d" "lo = (a, b)" "hi = (a', b')"
  shows "selects \<lparr>pl_eqs = [], pl_ranges = [range_dnf [''index_order'', ''id''] [SInt a, SInt b] CGt CGe,
      range_dnf [''index_order'', ''id''] [SInt a', SInt b'] CLt CLt], pl_order = cols, pl_desc = dsc, pl_limit = n\<rparr>
    (col_of (tb_cols pics_table) r) \<longleftrightarrow> lo \<le> ikey (tr_data r) \<and> ikey (tr_data r) < hi"
proof -
  obtain x y where k: "ikey (tr_data r) = (x, y)" by fastforce
  have "map (col_of (tb_cols pics_table) r) [''index_order'', ''id''] = [SInt x, SInt y]"
    using ikey_cols [OF assms(2,1)] k by simp
  then show ?thesis
    using range_dnf_lex(1) [of "[SInt a, SInt b]" "[''index_order'', ''id'']" "col_of (tb_cols pics_table) r"]
      range_dnf_lex(4) [of "[SInt a', SInt b']" "[''index_order'', ''id'']" "col_of (tb_cols pics_table) r"]
    by (auto simp: selects_def pair_list_le assms(3,4) k less_eq_prod_def less_prod_def)
qed

lemma job_find_index:
  assumes "FindPics (index_scan lim reverse lo hi) w = (Ok ps, w')" "job_at ev d0 d w"
  shows "job_at ev d0 d w'" "0 \<le> lim"
    "ps = cut lim ((if reverse then rev else id)
       (filter (\<lambda>p. lo \<le> ikey p \<and> ikey p < hi) (all_pics d)))"
proof -
  show lim: "0 \<le> lim"
  proof (rule ccontr)
    assume "\<not> 0 \<le> lim"
    then show False using assms(1)
      by (auto simp: FindPics_def find_rows_def scan_plan_def index_scan_def no_opts_def has_range_def
        bind_def run_simps res_bind_Ok split: res.splits if_splits)
  qed
  have run: "tx_at w' d \<and> ps = cut (int (nat lim)) ((if reverse then rev else id)
      (sort_key ikey (filter (\<lambda>p. lo \<le> ikey p \<and> ikey p < hi) (msgs (tb_get pics_table d)))))"
  proof (rule find_ordered [OF assms(1) [unfolded FindPics_def] job_at_D(1) [OF assms(2)]
        index_plan [OF lim, of reverse lo hi], where k = ikey and g = "\<lambda>(a, b). [SInt a, SInt b]",
        unfolded plan.simps])
    show "distinct (map ikey (msgs (tb_get pics_table d)))"
      using ikey_distinct [OF job_at_D(2) [OF assms(2)]] by (simp add: pics_table_def)
    show "(case x of (a, b) \<Rightarrow> [SInt a, SInt b]) \<le> (case y of (a, b) \<Rightarrow> [SInt a, SInt b]) \<longleftrightarrow> x \<le> y" for x y
      by (simp only: pair_list_le split: prod.split) simp
  next
    fix r
    assume "r \<in> set (tb_get pics_table d)"
    then have r: "r \<in> set (db_pics d)" by (simp add: pics_table_def)
    show "map (col_of (tb_cols pics_table) r) [''index_order'', ''id''] =
        (case ikey (tr_data r) of (a, b) \<Rightarrow> [SInt a, SInt b])"
      by (rule ikey_cols [OF job_at_D(2) [OF assms(2)] r])
    show "selects \<lparr>pl_eqs = [], pl_ranges = [range_dnf [''index_order'', ''id''] [SInt (fst lo), SInt (snd lo)] CGt CGe,
        range_dnf [''index_order'', ''id''] [SInt (fst hi), SInt (snd hi)] CLt CLt],
        pl_order = [''index_order'', ''id''], pl_desc = reverse, pl_limit = nat lim\<rparr>
      (col_of (tb_cols pics_table) r) \<longleftrightarrow> lo \<le> ikey (tr_data r) \<and> ikey (tr_data r) < hi"
      by (rule index_selects [OF r job_at_D(2) [OF assms(2)]]) simp_all
  qed
  show "job_at ev d0 d w'"
    by (rule job_atI [OF keeps_base_tables(1) keeps_fit_finds(1) assms conjunct1 [OF run]])
  show "ps = cut lim ((if reverse then rev else id)
       (filter (\<lambda>p. lo \<le> ikey p \<and> ikey p < hi) (all_pics d)))"
    using run lim by (simp add: all_pics_def filter_sort pics_table_def)
qed

subsection \<open>The first picture of a page\<close>

definition start_pic :: "bool \<Rightarrow> database \<Rightarrow> int \<Rightarrow> pic option" where
  "start_pic asc d i =
     (let ps = sort_key p_id (msgs (db_pics d))
      in if asc then find (\<lambda>p. i \<le> p_id p) ps else find (\<lambda>p. p_id p \<le> i) (rev ps))"

lemma find_filter: "find P xs = (case filter P xs of [] \<Rightarrow> None | x # _ \<Rightarrow> Some x)"
  by (induction xs) auto

lemma primary_plan:
  "scan_plan (no_opts\<lparr>o_limit := 1, o_start_inc := Some (PicsPrimary (Some i))\<rparr>) = Ok \<lparr>pl_eqs = [],
    pl_ranges = [range_dnf [''id''] [SInt i] CGt CGe], pl_order = [''id''], pl_desc = False, pl_limit = 1\<rparr>"
  "scan_plan (no_opts\<lparr>o_limit := 1, o_reverse := True, o_stop_inc := Some (PicsPrimary (Some i))\<rparr>) = Ok \<lparr>pl_eqs = [],
    pl_ranges = [range_dnf [''id''] [SInt i] CLt CLe], pl_order = [''id''], pl_desc = True, pl_limit = 1\<rparr>"
  by (simp_all add: scan_plan_def no_opts_def has_range_def range_plan_def range_end_def
      PicsPrimary_def one_range_def Cols_def Vals_def)

lemma id_col: "db_fits ev d \<Longrightarrow> r \<in> set (db_pics d) \<Longrightarrow> col_of (tb_cols pics_table) r ''id'' = SInt (p_id (tr_data r))"
  using pics_cols [of ev d r] by (auto simp: col_of_def pics_table_def)

lemma single_list_le: "[SInt a] \<le> [SInt b] \<longleftrightarrow> a \<le> b"
  by auto

lemma job_find_primary:
  assumes "job_at ev d0 d w"
    "FindPics (if asc then no_opts\<lparr>o_limit := 1, o_start_inc := Some (PicsPrimary (Some i))\<rparr>
       else no_opts\<lparr>o_limit := 1, o_reverse := True, o_stop_inc := Some (PicsPrimary (Some i))\<rparr>) w = (Ok ps, w')"
  shows "job_at ev d0 d w'" "ps = take 1 ((if asc then id else rev)
    (filter (\<lambda>p. if asc then i \<le> p_id p else p_id p \<le> i) (sort_key p_id (msgs (db_pics d)))))"
proof -
  note fit = job_at_D(2) [OF assms(1)]
  have dist: "distinct (map p_id (msgs (tb_get pics_table d)))"
    using pics_distinct [OF fit] by (simp add: pics_table_def)
  have sel: "dnf_holds (col_of (tb_cols pics_table) r) (range_dnf [''id''] [SInt i] CGt CGe) \<longleftrightarrow> i \<le> p_id (tr_data r)"
    "dnf_holds (col_of (tb_cols pics_table) r) (range_dnf [''id''] [SInt i] CLt CLe) \<longleftrightarrow> p_id (tr_data r) \<le> i"
    if "r \<in> set (tb_get pics_table d)" for r
    using range_dnf_lex(1,4,3) [of "[SInt i]" "[''id'']" "col_of (tb_cols pics_table) r"] that id_col [OF fit, of r]
    by (auto simp: pics_table_def)
  have key: "map (col_of (tb_cols pics_table) r) [''id''] = [SInt (p_id (tr_data r))]"
    if "r \<in> set (tb_get pics_table d)" for r
    using id_col [OF fit, of r] that by (simp add: pics_table_def)
  have run: "tx_at w' d \<and> ps = take 1 ((if asc then id else rev)
    (filter (\<lambda>p. if asc then i \<le> p_id p else p_id p \<le> i) (sort_key p_id (msgs (db_pics d)))))"
  proof (cases asc)
    case True
    have "tx_at w' d \<and> ps = cut (int 1) ((if False then rev else id)
        (sort_key p_id (filter (\<lambda>p. i \<le> p_id p) (msgs (tb_get pics_table d)))))"
      by (rule find_ordered [OF assms(2) [unfolded FindPics_def if_P [OF True]] job_at_D(1) [OF assms(1)]
          primary_plan(1), where k = p_id and g = "\<lambda>k. [SInt k]", unfolded plan.simps])
        (use sel key dist in \<open>auto simp: selects_def\<close>)
    then show ?thesis using True by (simp add: cut_def filter_sort pics_table_def)
  next
    case False
    have "tx_at w' d \<and> ps = cut (int 1) ((if True then rev else id)
        (sort_key p_id (filter (\<lambda>p. p_id p \<le> i) (msgs (tb_get pics_table d)))))"
      by (rule find_ordered [OF assms(2) [unfolded FindPics_def if_not_P [OF False]] job_at_D(1) [OF assms(1)]
          primary_plan(2), where k = p_id and g = "\<lambda>k. [SInt k]", unfolded plan.simps])
        (use sel key dist in \<open>auto simp: selects_def\<close>)
    then show ?thesis using False by (simp add: cut_def filter_sort pics_table_def)
  qed
  show "job_at ev d0 d w'"
    by (rule job_atI [OF keeps_base_tables(1) keeps_fit_finds(1) assms(2,1) conjunct1 [OF run]])
  show "ps = take 1 ((if asc then id else rev)
    (filter (\<lambda>p. if asc then i \<le> p_id p else p_id p \<le> i) (sort_key p_id (msgs (db_pics d)))))"
    using run by blast
qed

lemma start_pic_job:
  assumes "lookupStartPic i asc w = (Ok sp, w')" "job_at ev d0 d w"
  shows "job_at ev d0 d w'" "sp = start_pic asc d i"
proof -
  obtain ps where f: "FindPics (if asc then no_opts\<lparr>o_limit := 1, o_start_inc := Some (PicsPrimary (Some i))\<rparr>
       else no_opts\<lparr>o_limit := 1, o_reverse := True, o_stop_inc := Some (PicsPrimary (Some i))\<rparr>) w = (Ok ps, w')"
    "sp = (case ps of [] \<Rightarrow> None | p # _ \<Rightarrow> Some p)"
    using assms(1) by (auto simp: lookupStartPic_def run_simps elim!: bind_OkE)
  note job = job_find_primary [OF assms(2) f(1)]
  show "job_at ev d0 d w'" by (rule job(1))
  show "sp = start_pic asc d i"
    unfolding f(2) job(2) start_pic_def Let_def find_filter
    by (cases asc) (auto simp: rev_filter [symmetric] split: list.split)
qed

lemma find_id_sorted:
  assumes "p \<in> set xs" "distinct (map p_id xs)" "xs = msgs (db_pics d)"
  shows "start_pic asc d (p_id p) = Some p"
proof -
  have "p \<in> set ys \<Longrightarrow> sorted (map p_id ys) \<Longrightarrow> distinct (map p_id ys) \<Longrightarrow> find (\<lambda>q. p_id p \<le> p_id q) ys = Some p" for ys
    by (induction ys) (auto simp: image_iff dest: bspec antisym)
  moreover have "p \<in> set ys \<Longrightarrow> sorted_wrt (\<lambda>a b. p_id b \<le> p_id a) ys \<Longrightarrow> distinct (map p_id ys) \<Longrightarrow>
      find (\<lambda>q. p_id q \<le> p_id p) ys = Some p" for ys
    by (induction ys) (auto simp: image_iff dest: bspec antisym)
  moreover have "sorted_wrt (\<lambda>a b. p_id b \<le> p_id a) (rev (sort_key p_id xs))"
    using sorted_sort_key [of p_id xs] by (simp add: sorted_wrt_rev sorted_map)
  moreover have "distinct (map p_id (sort_key p_id xs))"
    using assms(2) by (simp add: distinct_map)
  ultimately show ?thesis
    using assms(1,3) sorted_sort_key [of p_id xs] by (auto simp: start_pic_def Let_def rev_map [symmetric])
qed

subsection \<open>A page\<close>

text \<open>Where a page starts: nowhere, or at the place of a picture as if it were not hidden.\<close>

definition page_start :: "bool \<Rightarrow> database \<Rightarrow> int \<Rightarrow> (int \<times> int) option res" where
  "page_start asc d startId =
     (if startId = 0 then Ok None
      else case start_pic asc d startId of
             None \<Rightarrow> Ok None
           | Some p \<Rightarrow> res_map (\<lambda>ord. Some (ord, p_id p)) (NonHiddenIndexOrder p))"

definition page_before :: "bool \<Rightarrow> database \<Rightarrow> (int \<times> int) option \<Rightarrow> int" where
  "page_before asc d start =
     (case start of
        None \<Rightarrow> 0
      | Some _ \<Rightarrow>
          (let ps = (if asc then rev (filter (\<lambda>p. (0, 0) \<le> ikey p \<and> ikey p < fst (scan_ends asc start)) (all_pics d))
                     else filter (\<lambda>p. snd (scan_ends asc start) \<le> ikey p \<and> ikey p < (max_int64, max_int64)) (all_pics d))
           in case ps of [] \<Rightarrow> 0 | p # _ \<Rightarrow> p_id p))"

definition page_read :: "database \<Rightarrow> configuration \<Rightarrow> int \<Rightarrow> int \<Rightarrow> bool \<Rightarrow> user option \<Rightarrow> index_page \<Rightarrow> bool" where
  "page_read d conf startId maxPics asc su pg \<longleftrightarrow>
     (\<exists>mx ov start. getAndValidateMaxPics conf maxPics = Ok (mx, ov) \<and> 0 \<le> ov \<and>
       page_start asc d startId = Ok start \<and>
       (ip_unfiltered pg, ip_next pg) = cut_page ov (cut ov (page_from asc d start)) \<and>
       ip_prev pg = page_before asc d start \<and>
       filterPics (ip_unfiltered pg) su conf = Ok (ip_pics pg))"

lemma prev_pic_job:
  assumes "prev_pic asc sp (scan_ends asc start) w = (Ok i, w')" "job_at ev d0 d w"
    "sp = None \<longleftrightarrow> start = None"
  shows "job_at ev d0 d w'" "i = page_before asc d start"
proof -
  have "job_at ev d0 d w' \<and> i = page_before asc d start"
  proof (cases sp)
    case None
    then show ?thesis using assms by (simp add: prev_pic_def page_before_def run_simps)
  next
    case (Some p)
    obtain ord k where st: "start = Some (ord, k)" using assms(3) Some by (cases start) auto
    obtain ps where f: "FindPics (if asc then index_scan 1 True (0, 0) (fst (scan_ends asc start))
        else index_scan 1 False (snd (scan_ends asc start)) (max_int64, max_int64)) w = (Ok ps, w')"
      "i = (case ps of [] \<Rightarrow> 0 | p # _ \<Rightarrow> p_id p)"
      using assms(1) Some by (auto simp: prev_pic_def run_simps elim!: bind_OkE)
    show ?thesis
    proof (cases asc)
      case True
      note job = job_find_index [OF f(1) [unfolded if_P [OF True]] assms(2)]
      show ?thesis using job(1) f(2) job(3) True
        by (auto simp: page_before_def st cut_def Let_def take_Suc split: list.split)
    next
      case False
      note job = job_find_index [OF f(1) [unfolded if_not_P [OF False]] assms(2)]
      show ?thesis using job(1) f(2) job(3) False
        by (auto simp: page_before_def st cut_def Let_def take_Suc split: list.split)
    qed
  qed
  then show "job_at ev d0 d w'" "i = page_before asc d start" by blast+
qed

lemma start_steps:
  assumes "(if startId \<noteq> 0 then lookupStartPic startId asc else ret None) w = (Ok sp, w1)"
    "(case sp of None \<Rightarrow> ret None
      | Some p \<Rightarrow> lift_res (res_map (\<lambda>ord. Some (ord, p_id p)) (NonHiddenIndexOrder p))) w1 = (Ok start, w2)"
    "job_at ev d0 d w"
  shows "job_at ev d0 d w2" "page_start asc d startId = Ok start" "sp = None \<longleftrightarrow> start = None"
proof -
  have sp: "job_at ev d0 d w1 \<and> sp = (if startId = 0 then None else start_pic asc d startId)"
    using assms(1,3) start_pic_job [of startId asc w sp w1] by (auto simp: run_simps split: if_splits)
  then show "job_at ev d0 d w2" "page_start asc d startId = Ok start" "sp = None \<longleftrightarrow> start = None"
    using assms(2) by (auto simp: page_start_def run_simps split: option.splits if_splits)
qed

lemma ReadIndexPicsTask_effect:
  assumes "fits w" "idle w" "ReadIndexPicsTask cx now startId maxPics asc w = (Ok pg, w')"
  shows "\<exists>su conf. visit_only (w_db w) (w_db w') \<and> token_user cx (w_db w') su \<and> conf_of cx w = Some conf \<and>
    validateCapability su conf [PIC_INDEX] = Ok () \<and> page_read (w_db w') conf startId maxPics asc su pg \<and>
    db_fits (w_env w) (w_db w')"
proof -
  obtain su w1 w2 where start: "job_at (w_env w) (w_db w1) (w_db w1) w1" "visit_only (w_db w) (w_db w1)"
    "token_user cx (w_db w1) su" "read_index_body cx startId maxPics asc su w1 = (Ok pg, w2)"
    "w_db w' = w_db w2" "w_site w1 = w_site w"
    using read_index.succeeds [OF assms(3) [unfolded ReadIndexPicsTask_def authedReadonlyJob_def] assms(1,2)]
    by blast
  obtain conf mx ov sp st ps prev shown w3 w4 w5 w6 where s: "conf_of cx w1 = Some conf"
    "validateCapability su conf [PIC_INDEX] = Ok ()" "getAndValidateMaxPics conf maxPics = Ok (mx, ov)"
    "(if startId \<noteq> 0 then lookupStartPic startId asc else ret None) w1 = (Ok sp, w3)"
    "(case sp of None \<Rightarrow> ret None
      | Some p \<Rightarrow> lift_res (res_map (\<lambda>ord. Some (ord, p_id p)) (NonHiddenIndexOrder p))) w3 = (Ok st, w4)"
    "FindPics (index_scan ov (\<not> asc) (fst (scan_ends asc st)) (snd (scan_ends asc st))) w4 = (Ok ps, w5)"
    "prev_pic asc sp (scan_ends asc st) w5 = (Ok prev, w2)"
    "filterPics (fst (cut_page ov ps)) su conf = Ok shown"
    "pg = \<lparr>ip_unfiltered = fst (cut_page ov ps), ip_pics = shown, ip_next = snd (cut_page ov ps), ip_prev = prev\<rparr>"
    using start(4) unfolding read_index_body_def
    by (auto simp only: GetConfiguration_iff lift_res_Ok wrap_err_Ok ret_Ok prod.inject res.inject
        split: prod.splits elim!: bind_OkE)
  note st = start_steps [OF s(4,5) start(1)]
  note f = job_find_index [OF s(6) st(1)]
  note pr = prev_pic_job [OF s(7) f(1) st(3)]
  have db: "w_db w' = w_db w1" using pr(1) start(5) by (simp add: job_at_D)
  have "ps = cut ov (page_from asc (w_db w1) st)" using f(3) by (simp add: page_from_def Let_def)
  then have "page_read (w_db w1) conf startId maxPics asc su pg"
    unfolding page_read_def using s(3,8,9) f(2) st(2) pr(2)
    by (intro exI [of _ mx] exI [of _ ov] exI [of _ st]) simp
  moreover have "conf_of cx w = Some conf" using s(1) conf_of_site [OF start(6)] by simp
  ultimately show ?thesis using start(2,3) s(2) db job_at_D(2) [OF start(1)] by auto
qed


subsection \<open>Page after page\<close>

text \<open>A client that follows the next page, for some pages: the pictures it saw, the number of
  pages, and the next page it was given last, which is 0 if there is none.\<close>

inductive walk :: "ctx \<Rightarrow> int \<Rightarrow> bool \<Rightarrow> int \<Rightarrow> world \<Rightarrow> pic list \<Rightarrow> nat \<Rightarrow> int \<Rightarrow> bool" for cx maxPics asc where
  page: "ReadIndexPicsTask cx now startId maxPics asc w = (Ok pg, w') \<Longrightarrow>
    walk cx maxPics asc startId w (ip_unfiltered pg) 1 (ip_next pg)"
| more: "ReadIndexPicsTask cx now startId maxPics asc w = (Ok pg, w') \<Longrightarrow> ip_next pg \<noteq> 0 \<Longrightarrow>
    walk cx maxPics asc (ip_next pg) w' ps k nxt \<Longrightarrow>
    walk cx maxPics asc startId w (ip_unfiltered pg @ ps) (Suc k) nxt"

text \<open>How far a client has come: through all pictures, or through full pages of them.\<close>

definition walked :: "nat \<Rightarrow> pic list \<Rightarrow> pic list \<Rightarrow> nat \<Rightarrow> int \<Rightarrow> bool" where
  "walked mx xs ps k nxt \<longleftrightarrow>
     (if nxt = 0 then ps = xs \<and> k \<le> Suc (length xs) else ps = take (k * mx) xs \<and> k * mx < length xs)"

text \<open>The pictures a client sees: not hidden, and not from before 1970 or after 2262.\<close>

definition visible_pics :: "database \<Rightarrow> pic list" where
  "visible_pics d = filter (\<lambda>p. (0, 0) \<le> ikey p \<and> ikey p < (max_int64, max_int64)) (all_pics d)"

lemma strict_drop:
  assumes "sorted_wrt (\<lambda>a b. k a < (k b :: 'k :: linorder)) xs" "j < length xs"
  shows "filter (\<lambda>x. k (xs ! j) \<le> k x) xs = drop j xs"
proof -
  have "filter (\<lambda>x. k (xs ! j) \<le> k x) (take j xs) = []"
    using assms by (auto simp: filter_empty_conv in_set_conv_nth sorted_wrt_iff_nth_less not_le)
  moreover have "filter (\<lambda>x. k (xs ! j) \<le> k x) (drop j xs) = drop j xs"
  proof (rule filter_True, rule ballI)
    fix x
    assume "x \<in> set (drop j xs)"
    then obtain i where "i < length xs - j" "x = xs ! (j + i)" by (auto simp: in_set_conv_nth)
    then show "k (xs ! j) \<le> k x"
      using assms by (cases i) (auto simp: sorted_wrt_iff_nth_less intro!: less_imp_le)
  qed
  ultimately show ?thesis by (metis append_take_drop_id filter_append append_Nil)
qed

lemma strict_drop_desc:
  assumes "sorted_wrt (\<lambda>a b. (k b :: 'k :: linorder) < k a) xs" "j < length xs"
  shows "filter (\<lambda>x. k x \<le> k (xs ! j)) xs = drop j xs"
proof -
  have "filter (\<lambda>x. k x \<le> k (xs ! j)) (take j xs) = []"
    using assms by (auto simp: filter_empty_conv in_set_conv_nth sorted_wrt_iff_nth_less not_le)
  moreover have "filter (\<lambda>x. k x \<le> k (xs ! j)) (drop j xs) = drop j xs"
  proof (rule filter_True, rule ballI)
    fix x
    assume "x \<in> set (drop j xs)"
    then obtain i where "i < length xs - j" "x = xs ! (j + i)" by (auto simp: in_set_conv_nth)
    then show "k x \<le> k (xs ! j)"
      using assms by (cases i) (auto simp: sorted_wrt_iff_nth_less intro!: less_imp_le)
  qed
  ultimately show ?thesis by (metis append_take_drop_id filter_append append_Nil)
qed

lemma all_pics_strict: "db_fits ev d \<Longrightarrow> sorted_wrt (\<lambda>a b. ikey a < ikey b) (all_pics d)"
proof -
  assume fit: "db_fits ev d"
  have "distinct (map ikey (all_pics d))" using ikey_distinct [OF fit] by (simp add: all_pics_def distinct_map)
  moreover have "sorted (map ikey (all_pics d))" by (simp add: all_pics_def)
  ultimately have "sorted_wrt (<) (map ikey (all_pics d))" by (simp add: strict_sorted_iff)
  then show ?thesis by (simp add: sorted_wrt_map)
qed

lemma page_from_sorted:
  assumes "db_fits ev d"
  shows "asc \<Longrightarrow> sorted_wrt (\<lambda>a b. ikey a < ikey b) (page_from asc d start)"
    "\<not> asc \<Longrightarrow> sorted_wrt (\<lambda>a b. ikey b < ikey a) (page_from asc d start)"
  using sorted_wrt_filter [OF all_pics_strict [OF assms]] by (simp_all add: page_from_def Let_def sorted_wrt_rev)

lemma ikey_succ: "ikey q < (a, b + 1) \<longleftrightarrow> ikey q \<le> (a, b)"
  by (auto simp: less_prod_def less_eq_prod_def)

lemma page_from_start:
  assumes "db_fits ev d" "p \<in> set (page_from asc d start)" "p_id p < max_int64" "min_int64 \<le> p_id p"
  shows "page_from asc d (Some (ikey p)) =
    filter (\<lambda>q. if asc then ikey p \<le> ikey q else ikey q \<le> ikey p) (page_from asc d start)"
proof -
  have ends: "fst (scan_ends asc start) \<le> ikey p" "ikey p < snd (scan_ends asc start)"
    using assms(2) by (auto simp: page_from_def Let_def split: if_splits)
  obtain a where k: "ikey p = (a, p_id p)" by (simp add: ikey_def)
  show ?thesis
  proof (cases asc)
    case True
    have hi: "snd (scan_ends asc start) = (max_int64, max_int64)" for start
      using True by (auto simp: scan_ends_def Let_def split: option.split)
    have "fst (scan_ends asc (Some (ikey p))) = ikey p" using True by (simp add: scan_ends_def k)
    then show ?thesis
      using True ends(1) unfolding page_from_def Let_def hi by (auto intro!: filter_cong)
  next
    case False
    have lo: "fst (scan_ends asc start) = (0, 0)" for start
      using False by (auto simp: scan_ends_def Let_def split: option.split)
    have "wrap64 (p_id p + 1) = p_id p + 1" using assms(3,4) by (simp add: int64_def)
    then have "snd (scan_ends asc (Some (ikey p))) = (a, p_id p + 1)"
      unfolding k using False by (simp add: scan_ends_def)
    then have hi: "ikey q < snd (scan_ends asc (Some (ikey p))) \<longleftrightarrow> ikey q \<le> ikey p" for q
      unfolding k by (simp only: ikey_succ)
    have "filter (\<lambda>q. (0, 0) \<le> ikey q \<and> ikey q \<le> ikey p) (all_pics d) =
        filter (\<lambda>q. ikey q \<le> ikey p) (filter (\<lambda>q. (0, 0) \<le> ikey q \<and> ikey q < snd (scan_ends asc start)) (all_pics d))"
      using ends(2) by (auto intro!: filter_cong)
    then show ?thesis
      using False unfolding page_from_def Let_def lo hi by (simp add: rev_filter)
  qed
qed

lemma page_from_next:
  assumes "db_fits ev d" "j < length (page_from asc d start)" "p_id (page_from asc d start ! j) < max_int64"
    "min_int64 \<le> p_id (page_from asc d start ! j)"
  shows "page_from asc d (Some (ikey (page_from asc d start ! j))) = drop j (page_from asc d start)"
proof -
  note eq = page_from_start [OF assms(1) nth_mem [OF assms(2)] assms(3,4)]
  show ?thesis
  proof (cases asc)
    case True
    then show ?thesis
      using eq strict_drop [OF page_from_sorted(1) [OF assms(1) True] assms(2)] by simp
  next
    case False
    then show ?thesis
      using eq strict_drop_desc [OF page_from_sorted(2) [OF assms(1) False] assms(2)] by simp
  qed
qed

lemma visible_start:
  assumes "db_fits ev d" "p \<in> set (msgs (db_pics d))" "(0, 0) \<le> ikey p" "p_id p \<noteq> 0"
  shows "page_start asc d (p_id p) = Ok (Some (ikey p))"
proof -
  obtain r where "r \<in> set (db_pics d)" "tr_data r = p" using assms(2) by (auto simp: msgs_def)
  then obtain v where v: "IndexOrder p = Ok v" using pics_cols [OF assms(1)] by blast
  then have "0 \<le> v" using assms(3) by (auto simp: ikey_def less_eq_prod_def)
  then have "NonHiddenIndexOrder p = Ok v" using v by (auto simp: IndexOrder_def split: if_splits)
  moreover have "start_pic asc d (p_id p) = Some p"
    by (rule find_id_sorted [OF assms(2) pics_distinct [OF assms(1)] refl])
  ultimately show ?thesis using assms(4) v by (simp add: page_start_def ikey_def)
qed

lemma page_from_cong: "db_pics d' = db_pics d \<Longrightarrow> page_from asc d' = page_from asc d"
  "db_pics d' = db_pics d \<Longrightarrow> page_start asc d' = page_start asc d"
  by (simp_all add: fun_eq_iff page_from_def all_pics_def page_start_def start_pic_def)

lemma page_from_sub: "set (page_from asc d start) \<subseteq> set (msgs (db_pics d))"
  by (auto simp: page_from_def Let_def all_pics_def)

lemma page_from_length: "length (page_from asc d start) \<le> length (msgs (db_pics d))"
proof -
  have "length (filter P (sort_key ikey xs)) \<le> length xs" for P xs
    by (metis length_filter_le length_sort)
  then show ?thesis by (simp add: page_from_def Let_def all_pics_def)
qed

lemma cut_page_cases:
  assumes "ov = (if mx < max_int64 then mx + 1 else mx)" "0 < mx" "int (length xs) < max_int64"
  shows "cut_page ov (cut ov xs) =
    (if int (length xs) > mx then (take (nat mx) xs, p_id (xs ! nat mx)) else (xs, 0))"
proof (cases "int (length xs) > mx")
  case True
  then have ov: "nat ov = Suc (nat mx)" "0 < ov" using assms by simp_all
  then show ?thesis using True assms(2)
    by (simp add: cut_page_def cut_def last_conv_nth butlast_take take_Suc_conv_app_nth)
next
  case False
  then show ?thesis using assms by (auto simp: cut_page_def cut_def)
qed

lemma max_pics_over: "getAndValidateMaxPics conf m = Ok (mx, ov) \<Longrightarrow>
    ov = (if mx < max_int64 then mx + 1 else mx)"
  by (auto simp: getAndValidateMaxPics_def getMaxPics_def getMaxConf_def Let_def split: if_splits)

lemma read_index_site:
  assumes "ReadIndexPicsTask cx now s m asc w = (r, w')"
  shows "w_site w' = w_site w"
proof -
  have "keeps keeps_base (revert (read_index_body cx s m asc u))" for u
    unfolding revert_def by (intro base_ops read_index.base)
  then have "keeps keeps_site (ReadIndexPicsTask cx now s m asc)"
    unfolding ReadIndexPicsTask_def authedReadonlyJob_def authedJobInternal_def
    by (intro site_ops keeps_site_authed_loop site_base)
  then show ?thesis using keepsD assms by (fastforce simp: keeps_site_def)
qed

text \<open>What one page of a walk gives, and where the next one starts.\<close>

lemma walk_page:
  assumes "fits w" "idle w" "ReadIndexPicsTask cx now startId m asc w = (Ok pg, w')"
    "\<forall>p \<in> set (msgs (db_pics (w_db w))). 0 < p_id p \<and> p_id p < max_int64"
    "int (length (msgs (db_pics (w_db w)))) < max_int64"
    "conf_of cx w = Some conf" "getAndValidateMaxPics conf m = Ok (mx, ov)" "0 < mx"
    "page_start asc (w_db w) startId = Ok st" "(0, 0) \<le> fst (scan_ends asc st)"
  defines "xs \<equiv> page_from asc (w_db w) st"
  shows "db_pics (w_db w') = db_pics (w_db w)" "fits w'" "idle w'" "conf_of cx w' = Some conf"
    "ip_next pg = 0 \<Longrightarrow> ip_unfiltered pg = xs"
    "ip_next pg \<noteq> 0 \<Longrightarrow> nat mx < length xs \<and> ip_unfiltered pg = take (nat mx) xs \<and>
      page_start asc (w_db w) (ip_next pg) = Ok (Some (ikey (xs ! nat mx))) \<and>
      page_from asc (w_db w) (Some (ikey (xs ! nat mx))) = drop (nat mx) xs \<and>
      (0, 0) \<le> fst (scan_ends asc (Some (ikey (xs ! nat mx))))"
proof -
  have fit: "db_fits (w_env w) (w_db w)" using assms(1) by (simp add: fits_def)
  obtain su conf' where e: "visit_only (w_db w) (w_db w')" "conf_of cx w = Some conf'"
    "page_read (w_db w') conf' startId m asc su pg"
    using ReadIndexPicsTask_effect [OF assms(1-3)] by blast
  show pics: "db_pics (w_db w') = db_pics (w_db w)" using e(1) by (simp add: visit_only_def same_rows_def)
  have closes: "fits w' \<and> idle w'"
    using read_index.closes [OF assms(3) [unfolded ReadIndexPicsTask_def authedReadonlyJob_def] assms(1,2)] by simp
  then show "fits w'" "idle w'" by simp_all
  show "conf_of cx w' = Some conf"
    using assms(6) conf_of_site [OF read_index_site [OF assms(3)]] by simp
  have len: "int (length xs) < max_int64"
    using page_from_length [of asc "w_db w" st] assms(5) unfolding xs_def by simp
  have "(ip_unfiltered pg, ip_next pg) = cut_page ov (cut ov xs)"
    using e(2,3) assms(6,7,9) unfolding page_read_def xs_def page_from_cong [OF pics] by auto
  also note cut_page_cases [OF max_pics_over [OF assms(7)] assms(8) len]
  finally have pg: "(ip_unfiltered pg, ip_next pg) =
      (if int (length xs) > mx then (take (nat mx) xs, p_id (xs ! nat mx)) else (xs, 0))" .
  have p: "xs ! nat mx \<in> set (msgs (db_pics (w_db w)))" if "nat mx < length xs"
    using page_from_sub nth_mem [OF that] unfolding xs_def by blast
  show "ip_next pg = 0 \<Longrightarrow> ip_unfiltered pg = xs"
  proof -
    assume z: "ip_next pg = 0"
    have "\<not> nat mx < length xs"
    proof
      assume l: "nat mx < length xs"
      then have "0 < p_id (xs ! nat mx)" using assms(4) p by blast
      then show False using pg z l assms(8) by (simp split: if_splits)
    qed
    then show ?thesis using pg assms(8) by (simp split: if_splits)
  qed
  show "ip_next pg \<noteq> 0 \<Longrightarrow> nat mx < length xs \<and> ip_unfiltered pg = take (nat mx) xs \<and>
      page_start asc (w_db w) (ip_next pg) = Ok (Some (ikey (xs ! nat mx))) \<and>
      page_from asc (w_db w) (Some (ikey (xs ! nat mx))) = drop (nat mx) xs \<and>
      (0, 0) \<le> fst (scan_ends asc (Some (ikey (xs ! nat mx))))"
  proof -
    assume "ip_next pg \<noteq> 0"
    then have big: "nat mx < length xs" "ip_unfiltered pg = take (nat mx) xs" "ip_next pg = p_id (xs ! nat mx)"
      using pg assms(8) by (auto split: if_splits)
    let ?p = "xs ! nat mx"
    have ids: "0 < p_id ?p" "p_id ?p < max_int64" using assms(4) p [OF big(1)] by auto
    have vis: "(0, 0) \<le> ikey ?p"
      using nth_mem [OF big(1)] assms(10) unfolding xs_def page_from_def Let_def
      by (auto split: if_splits intro: order_trans)
    have "page_start asc (w_db w) (p_id ?p) = Ok (Some (ikey ?p))"
      by (rule visible_start [OF fit p [OF big(1)] vis]) (use ids in simp)
    moreover have "page_from asc (w_db w) (Some (ikey ?p)) = drop (nat mx) xs"
      unfolding xs_def by (rule page_from_next [OF fit]) (use big(1) ids xs_def in auto)
    moreover have "(0, 0) \<le> fst (scan_ends asc (Some (ikey ?p)))"
      using vis by (cases "ikey ?p") (simp add: scan_ends_def Let_def)
    ultimately show ?thesis using big by simp
  qed
qed

lemma walked_bound:
  assumes "walked (nat mx) xs ps k nxt" "0 < mx"
  shows "k \<le> Suc (length xs)"
proof (cases "nxt = 0")
  case False
  have "k * 1 \<le> k * nat mx" by (rule mult_le_mono2) (use assms(2) in linarith)
  moreover have "k * nat mx < length xs" using False assms(1) by (simp add: walked_def)
  ultimately show ?thesis by linarith
qed (use assms in \<open>simp add: walked_def\<close>)

lemma walked_more:
  assumes "walked mx (drop mx xs) ps k nxt" "mx < length xs" "pg = take mx xs" "0 < mx"
  shows "walked mx xs (pg @ ps) (Suc k) nxt"
proof (cases "nxt = 0")
  case True
  then have "ps = drop mx xs" "k \<le> Suc (length xs - mx)" using assms(1) by (simp_all add: walked_def)
  then show ?thesis using True assms(2-4) by (simp add: walked_def)
next
  case False
  then have "ps = take (k * mx) (drop mx xs)" "k * mx < length xs - mx"
    using assms(1) by (simp_all add: walked_def)
  then show ?thesis using False assms(2,3) by (simp add: walked_def take_add)
qed

lemma walk_pages:
  assumes "walk cx m asc startId w ps k nxt" "fits w" "idle w"
    "\<forall>p \<in> set (msgs (db_pics (w_db w))). 0 < p_id p \<and> p_id p < max_int64"
    "int (length (msgs (db_pics (w_db w)))) < max_int64"
    "conf_of cx w = Some conf" "getAndValidateMaxPics conf m = Ok (mx, ov)" "0 < mx"
    "page_start asc (w_db w) startId = Ok st" "(0, 0) \<le> fst (scan_ends asc st)"
  shows "walked (nat mx) (page_from asc (w_db w) st) ps k nxt"
  using assms
proof (induction arbitrary: st rule: walk.induct)
  case (page now startId w pg w')
  note one = walk_page [OF page.prems(1,2) page.hyps(1) page.prems(3-9)]
  show ?case
  proof (cases "ip_next pg = 0")
    case False
    then show ?thesis using one(6) [OF False] by (simp add: walked_def)
  qed (simp add: walked_def one(5))
next
  case (more now startId w pg w' ps k nxt)
  note one = walk_page [OF more.prems(1,2) more.hyps(1) more.prems(3-9)]
  let ?xs = "page_from asc (w_db w) st"
  note nx = one(6) [OF more.hyps(2)]
  have "walked (nat mx) (page_from asc (w_db w') (Some (ikey (?xs ! nat mx)))) ps k nxt"
    using more.IH [OF one(2,3) _ _ one(4) more.prems(6,7)] more.prems(3,4) nx
    unfolding page_from_cong [OF one(1)] one(1) by blast
  then have "walked (nat mx) (drop (nat mx) ?xs) ps k nxt"
    using nx unfolding page_from_cong [OF one(1)] by simp
  then show ?case using nx more.prems(7) by (rule_tac walked_more) auto
qed

text \<open>C20. A client that starts without a picture and follows the next page is done after at most one
  page more than there are pictures, and has then seen every visible picture exactly once, in the
  order of creation or its reverse; until then every page was full and the pages seen are the first
  ones, so no client pages on for ever. A page holds at least one picture, and the ids are those the
  allocator gives out.\<close>

theorem walk_sees_all:
  assumes "walk cx m asc 0 w ps k nxt" "fits w" "idle w"
    "\<forall>p \<in> set (msgs (db_pics (w_db w))). 0 < p_id p \<and> p_id p < max_int64"
    "int (length (msgs (db_pics (w_db w)))) < max_int64"
    "conf_of cx w = Some conf" "getAndValidateMaxPics conf m = Ok (mx, ov)" "0 < mx"
  shows "walked (nat mx) (if asc then visible_pics (w_db w) else rev (visible_pics (w_db w))) ps k nxt \<and>
    k \<le> Suc (length (visible_pics (w_db w)))"
proof -
  have "page_start asc (w_db w) 0 = Ok None" by (simp add: page_start_def)
  moreover have "(0, 0) \<le> fst (scan_ends asc None)" by (simp add: scan_ends_def)
  ultimately have "walked (nat mx) (page_from asc (w_db w) None) ps k nxt"
    by (rule walk_pages [OF assms])
  then have "walked (nat mx) (if asc then visible_pics (w_db w) else rev (visible_pics (w_db w))) ps k nxt"
    by (cases asc) (simp_all add: page_from_def visible_pics_def scan_ends_def Let_def)
  from walked_bound [OF this assms(8)] this show ?thesis by (cases asc) simp_all
qed

section \<open>Reading the index of the small database\<close>

text \<open>
  The index of the small database is read once, and walked to its end.
\<close>

lemma cat_page: "all_pics start_db = [cat_pic]" "ikey cat_pic = (1000000000000, 3)"
  by (simp_all add: all_pics_def start_db_sels msgs_def ikey_def cat_order cat_id)

lemma index_run: "FindPics (index_scan 2 False (0, 0) (max_int64, max_int64)) (work ro start_db n al) =
    (Ok [cat_pic], work ro start_db (Suc n) al)"
proof -
  have c: "col_of (tb_cols pics_table) (row [SInt 3, SInt 1000000000000, SInt 26843545, SInt 1046898278] cat_pic) ''index_order'' = SInt 1000000000000"
    "col_of (tb_cols pics_table) (row [SInt 3, SInt 1000000000000, SInt 26843545, SInt 1046898278] cat_pic) ''id'' = SInt 3"
    by (simp_all add: col_of_def tables_cols)
  show ?thesis unfolding FindPics_def
    by (subst work_find [OF index_plan])
      (simp_all add: select_rows_def selects_def tables_get start_db_sels range_dnf_Cons range_dnf_def dnf_holds_def c)
qed

lemma read_index_demo: "\<exists>pg w'. ReadIndexPicsTask as_alice now0 0 1 True demo = (Ok pg, w') \<and> ip_unfiltered pg = [cat_pic] \<and>
    ip_next pg = 0"
  by (simp add: ReadIndexPicsTask_def read_alice bind_run revert_def deferred_def read_index_body_def alice_conf
     alice_may getAndValidateMaxPics_def getMaxPics_def getMaxConf_def scan_ends_def index_run defaultConfiguration_def
     prev_pic_def cut_page_def filterPics_def userCredOf_def work_Rollback bound_or_def)


lemma demo_pics: "db_pics (w_db demo) = db_pics start_db"
  by (simp add: demo_def calm_world_def start_db_def)

theorem walk_sees_all_witness:
  "walk as_alice 1 True 0 demo [cat_pic] 1 0 \<and> visible_pics (w_db demo) = [cat_pic]"
proof -
  obtain pg w' where run: "ReadIndexPicsTask as_alice now0 0 1 True demo = (Ok pg, w')"
    "ip_unfiltered pg = [cat_pic]" "ip_next pg = 0"
    using read_index_demo by blast
  have walk: "walk as_alice 1 True 0 demo [cat_pic] 1 0" using walk.page [OF run(1)] run(2,3) by simp
  have pics: "\<forall>p \<in> set (msgs (db_pics (w_db demo))). 0 < p_id p \<and> p_id p < max_int64"
    "int (length (msgs (db_pics (w_db demo)))) < max_int64"
    by (simp_all add: demo_pics start_db_sels cat_id)
  have conf: "conf_of as_alice demo = Some defaultConfiguration"
    "getAndValidateMaxPics defaultConfiguration 1 = Ok (1, 2)"
    by (simp_all add: conf_of_def as_alice_def getAndValidateMaxPics_def getMaxPics_def getMaxConf_def
        defaultConfiguration_def bound_or_def)
  from walk_sees_all [OF walk demo_fits demo_idle pics conf] walk show ?thesis by (simp add: walked_def)
qed

end
