(* ===== verification/LookupFacts.thy ===== *)
theory LookupFacts
  imports Lookup VoteRuns UserRuns TagRuns
begin

section \<open>What looking up a picture shows\<close>

text \<open>The users whose names may appear in what is shown to somebody.\<close>

definition may_name :: "user_cred \<Rightarrow> int \<Rightarrow> int \<Rightarrow> bool" where
  "may_name uc cap userId \<longleftrightarrow> userId = AnonymousUserId \<or> shows_user uc cap userId"

lemma filters_name:
  "may_name uc USER_READ_PIC_TAG (pt_user (filterPicTagInternal pt uc))"
  "may_name uc USER_READ_PIC_COMMENT (pc_user (filterPicCommentInternal pc uc))"
  "\<forall>s \<in> set (p_source (filterPicInternal p uc)). may_name uc USER_READ_PICS (fs_user s)"
  by (auto simp: may_name_def filterPicTagInternal_def filterPicCommentInternal_def filterPicInternal_def
      shows_user_def Let_def)

lemma tree_store_comments:
  assumes "buildCommentTree cs = Ok nodes"
  shows "fst ` set nodes = insert no_comment (set cs)"
proof -
  have child: "map fst (append_child p a ns) = map fst ns" for p a and ns :: "(pic_comment \<times> nat list) list"
    by (simp add: append_child_def map_update list_update_id)
      (metis list_update_beyond list_update_id not_le_imp_less nth_map length_map)
  have step: "map fst (ts_nodes (add_node c s)) = map fst (ts_nodes s) @ [c]" for c s
    by (simp add: add_node_def Let_def child split: option.split)
  have "map fst (ts_nodes (fold add_node cs s)) = map fst (ts_nodes s) @ cs" for s
    by (induction cs arbitrary: s) (simp_all add: step)
  then have "map fst nodes = no_comment # cs"
    using assms by (auto simp: buildCommentTree_def Let_def root_store_def split: if_splits)
  then show ?thesis by (metis image_set list.set(2))
qed

lemma LookupPicTask_effect:
  assumes "fits w" "idle w" "LookupPicTask cx now i ce te w = (Ok v, w')"
  shows "\<exists>su conf uc cs. visit_only (w_db w) (w_db w') \<and> token_user cx (w_db w') su \<and> conf_of cx w = Some conf \<and>
    validateCapability su conf [PIC_INDEX] = Ok () \<and>
    (ce \<longrightarrow> validateCapability su conf [PIC_COMMENT_EXTENSION_READ] = Ok ()) \<and>
    (te \<longrightarrow> validateCapability su conf [PIC_TAG_EXTENSION_READ] = Ok ()) \<and>
    userCredOf su conf = Ok uc \<and> the_pic (w_db w') i (pv_unfiltered v) \<and>
    pv_pic_shown v = filterPicInternal (pv_unfiltered v) uc \<and>
    mset (pv_tags v) = {# filterPicTagInternal t uc. t \<in># mset (filter (\<lambda>t. pt_pic t = i) (msgs (db_pictags (w_db w')))) #} \<and>
    mset cs = mset (filter (\<lambda>c. pc_pic c = i) (msgs (db_comments (w_db w')))) \<and>
    buildCommentTree (map (\<lambda>c. filterPicCommentInternal c uc) cs) = Ok (pv_tree v)"
proof -
  obtain su w1 w2 where start: "job_at (w_env w) (w_db w1) (w_db w1) w1" "visit_only (w_db w) (w_db w1)"
    "token_user cx (w_db w1) su" "lookup_pic_body cx i ce te su w1 = (Ok v, w2)"
    "w_db w' = w_db w2" "w_site w1 = w_site w"
    using lookup_pic.succeeds [OF assms(3) [unfolded LookupPicTask_def authedReadonlyJob_def] assms(1,2)]
    by blast
  obtain conf p tags comments shown stags scs tree w3 w4 w5 w6 where s: "conf_of cx w1 = Some conf"
    "validateCapability su conf [PIC_INDEX] = Ok ()"
    "ce \<longrightarrow> validateCapability su conf [PIC_COMMENT_EXTENSION_READ] = Ok ()"
    "te \<longrightarrow> validateCapability su conf [PIC_TAG_EXTENSION_READ] = Ok ()"
    "FindPics (no_opts\<lparr>o_prefix := Some (PicsPrimary (Some i)), o_limit := 1\<rparr>) w1 = (Ok [p], w3)"
    "FindPicTags (no_opts\<lparr>o_prefix := Some (PicTagsPrimary (Some i) None)\<rparr>) w3 = (Ok tags, w4)"
    "FindPicComments (no_opts\<lparr>o_prefix := Some (PicCommentsPrimary (Some i) None)\<rparr>) w4 = (Ok comments, w5)"
    "Rollback w5 = (Ok (), w2)" "filterPic p su conf = Ok shown" "filterPicTags tags su conf = Ok stags"
    "filterPicComments comments su conf = Ok scs" "buildCommentTree scs = Ok tree"
    "v = \<lparr>pv_unfiltered = p, pv_pic_shown = shown, pv_tags = stags, pv_tree = tree\<rparr>"
    using start(4) unfolding lookup_pic_body_def
    by (auto simp: GetConfiguration_iff run_simps split: list.splits if_splits elim!: bind_OkE)
  note f1 = job_find_pics_id [OF s(5) start(1), of i]
  have j1: "job_at (w_env w) (w_db w1) (w_db w1) w3" using f1(1) by simp
  note f2 = job_find_pictags_pic [OF s(6) j1, of i]
  have j2: "job_at (w_env w) (w_db w1) (w_db w1) w4" using f2(1) by simp
  note f3 = job_find_comments_pic [OF s(7) j2, of i]
  have j3: "job_at (w_env w) (w_db w1) (w_db w1) w5" using f3(1) by simp
  have db: "w_db w' = w_db w1" using Rollback_keeps [OF s(8)] job_at_D(4) [OF j3] start(5) by simp
  have "found (\<lambda>q. p_id q = i) 1 (msgs (db_pics (w_db w1))) [p]" using f1(2) by simp
  from found_key [OF this pics_distinct [OF job_at_D(2) [OF start(1)]]]
  have pic: "the_pic (w_db w1) i p" by (simp add: the_pic_def)
  obtain uc where uc: "userCredOf su conf = Ok uc" "shown = filterPicInternal p uc"
    "stags = map (\<lambda>t. filterPicTagInternal t uc) tags" "scs = map (\<lambda>c. filterPicCommentInternal c uc) comments"
    using s(9-11) by (auto simp: filterPic_def filterPicTags_def filterPicComments_def)
  have "mset tags = mset (filter (\<lambda>t. pt_pic t = i) (msgs (db_pictags (w_db w1))))"
    "mset comments = mset (filter (\<lambda>c. pc_pic c = i) (msgs (db_comments (w_db w1))))"
    using f2(2) f3(2) by (auto simp: no_opts_def dest!: found_all)
  then show ?thesis
    using start(2,3) s(2-4,12,13) uc pic conf_of_site [OF start(6)] s(1) unfolding db
    by (intro exI [of _ su] exI [of _ conf] exI [of _ uc] exI [of _ comments]) simp
qed


subsection \<open>Looking up the picture of the small database\<close>

lemma bob_tree: "\<exists>nodes. buildCommentTree [filterPicCommentInternal bob_comment uc] = Ok nodes"
proof -
  let ?c = "filterPicCommentInternal bob_comment uc"
  have "pc_id ?c = 4" "pc_parent ?c = 0" by (simp_all add: filterPicCommentInternal_def Let_def bob_sels)
  then show ?thesis using buildCommentTree_Ok [of "[?c]"] by simp
qed

lemma lookup_pic_demo: "\<exists>v w'. LookupPicTask as_alice now0 3 True True demo = (Ok v, w')"
proof -
  obtain nodes where "buildCommentTree [filterPicCommentInternal bob_comment
      \<lparr>uc_subject = u_id alice, uc_caps = CapSetOf (u_caps alice)\<rparr>] = Ok nodes"
    using bob_tree by blast
  then show ?thesis
    by (simp add: LookupPicTask_def read_alice bind_run revert_def deferred_def lookup_pic_body_def alice_conf
       alice_may find_run work_find start_db_sels filterPic_def filterPicTags_def filterPicComments_def
       userCredOf_def cat_id cat_tag_sels bob_sels work_Rollback) (simp add: Rollback_def)
qed


end
