(* ===== verification/TaskRunner.thy ===== *)
theory TaskRunner
  imports Complex_Main SqlStmt
begin

section \<open>Running a task again (be/tasks/task_runner.go)\<close>

text \<open>
  The runner calls a task until it succeeds, fails for good, or has been tried often enough. A
  task is any program, one for each attempt since tasks read the clock; what the runner sees of the outside at the \<open>n\<close>-th attempt is in
  \<open>run_env\<close>: whether the context is done before the attempt or while the runner sleeps, the
  clock, the deadline, and which errors of the database may be retried. Logging and the counters
  of package expvar are left out. Floating point arithmetic is rational arithmetic with a rounding
  function after every operation.
\<close>

record run_env =
  re_done :: "nat \<Rightarrow> gerr option"
  re_slept :: "nat \<Rightarrow> gerr option"
  re_now :: "nat \<Rightarrow> int"
  re_deadline :: "int option"
  re_adapter :: adapter

subsection \<open>How long to wait\<close>

record taskRetryAdapter =
  ra_currentTry :: int
  ra_maxTries :: int
  ra_currentBackoff :: int
  ra_initialDelay :: int
  ra_rng :: "(nat \<Rightarrow> rat) option"
  ra_drawn :: nat
  ra_multiplier :: rat
  ra_jitter :: rat
  ra_round :: "rat \<Rightarrow> rat"

text \<open>\<open>time.Duration(x)\<close> of a float, which drops the fraction.\<close>

definition to_duration :: "rat \<Rightarrow> int" where
  "to_duration x = wrap64 (if x \<ge> 0 then \<lfloor>x\<rfloor> else \<lceil>x\<rceil>)"

definition next_backoff :: "taskRetryAdapter \<Rightarrow> rat \<Rightarrow> int" where
  "next_backoff r uniform =
     (let rd = ra_round r;
          back = rd (rd (of_int (ra_currentBackoff r)) * ra_multiplier r);
          spread = rd (rd (rd (rd (uniform * 2) - 1) * ra_jitter r) * back);
          back' = rd (back + spread)
      in if back' > 2 ^ 63 then max_int64 else to_duration back')"

definition retry_Next :: "taskRetryAdapter \<Rightarrow> int option \<times> taskRetryAdapter" where
  "retry_Next r =
     (if ra_currentTry r \<ge> ra_maxTries r then (None, r)
      else let r1 = (if ra_maxTries r \<noteq> max_int64 then r\<lparr>ra_currentTry := ra_currentTry r + 1\<rparr> else r)
        in if ra_currentBackoff r1 = 0
           then (Some (ra_initialDelay r1), r1\<lparr>ra_currentBackoff := ra_initialDelay r1\<rparr>)
           else let (uniform, r2) = (case ra_rng r1 of
                    Some rn \<Rightarrow> (rn (ra_drawn r1), r1\<lparr>ra_drawn := Suc (ra_drawn r1)\<rparr>)
                  | None \<Rightarrow> (1 / 2, r1));
                back = next_backoff r2 uniform
            in (Some back, r2\<lparr>ra_currentBackoff := back\<rparr>))"

subsection \<open>One attempt\<close>

text \<open>\<open>unwrapTaskStatus\<close>: the first cause that is not a status.\<close>

fun unwrapTaskStatus :: "sts \<Rightarrow> gerr option" where
  "unwrapTaskStatus (Sts c m (Some (EStatus s)) su) = unwrapTaskStatus s"
| "unwrapTaskStatus (Sts c m e su) = e"

definition CanRetry :: "adapter \<Rightarrow> sts \<Rightarrow> bool" where
  "CanRetry ad s = (case unwrapTaskStatus s of Some (ESql r) \<Rightarrow> a_retryable ad r | _ \<Rightarrow> False)"

definition too_late :: "run_env \<Rightarrow> nat \<Rightarrow> int \<Rightarrow> bool" where
  "too_late ev n sleep = (case re_deadline ev of None \<Rightarrow> False | Some d \<Rightarrow> re_now ev n + sleep > d)"

text \<open>After a failed attempt: whether to try again, and the failures to report.\<close>

definition after_failure :: "run_env \<Rightarrow> nat \<Rightarrow> int \<Rightarrow> sts \<Rightarrow> bool \<times> sts list" where
  "after_failure ev n sleep s =
     (if \<not> CanRetry (re_adapter ev) s then (False, [s])
      else if too_late ev n sleep
        then (False, [s, DeadlineExceeded None ''not enough time to complete %T (%v < %v)''])
      else (case re_slept ev n of
              Some err \<Rightarrow> (False, [s, From err])
            | None \<Rightarrow> (True, [s])))"

text \<open>Its \<open>Inl\<close> is success, with what the task left in its results.\<close>

definition runTaskOnce ::
  "run_env \<Rightarrow> (nat \<Rightarrow> ('w, 'a) prog) \<Rightarrow> nat \<Rightarrow> int \<Rightarrow> ('w, 'a + bool \<times> sts list) prog" where
  "runTaskOnce ev task n nextBackoff w =
     (case re_done ev n of
        Some err \<Rightarrow> (Ok (Inr (False, [From err])), w)
      | None \<Rightarrow>
          (case task n w of
             (Ok x, w') \<Rightarrow> (Ok (Inl x), w')
           | (Err s, w') \<Rightarrow> (Ok (Inr (after_failure ev n nextBackoff s)), w')
           | (Panic p, w') \<Rightarrow> (Panic p, w')))"

subsection \<open>The loop\<close>

text \<open>With as many tries as there are integers the code counts none, so the loop may not end.\<close>

partial_function (option) run_loop ::
  "(nat \<Rightarrow> int \<Rightarrow> ('w, 'a + bool \<times> sts list) prog) \<Rightarrow> taskRetryAdapter \<Rightarrow> nat \<Rightarrow> sts list \<Rightarrow> 'w \<Rightarrow>
     (('a + sts list) res \<times> 'w) option" where
  "run_loop once ra n stss w =
     (case retry_Next ra of
        (None, ra') \<Rightarrow> Some (Ok (Inr stss), w)
      | (Some backoff, ra') \<Rightarrow>
          (case once n backoff w of
             (Ok (Inl x), w') \<Rightarrow> Some (Ok (Inl x), w')
           | (Ok (Inr (again, failures)), w') \<Rightarrow>
               (if again then run_loop once ra' (Suc n) (stss @ failures) w'
                else Some (Ok (Inr (stss @ failures)), w'))
           | (Err e, w') \<Rightarrow> Some (Err e, w')
           | (Panic p, w') \<Rightarrow> Some (Panic p, w')))"

fun run_result :: "('a + sts list) res \<Rightarrow> 'a res" where
  "run_result (Ok (Inl x)) = Ok x"
| "run_result (Ok (Inr [])) = Panic ''index out of range''"
| "run_result (Ok (Inr (s # ss))) = Err (WithSuppressed s (map EStatus ss))"
| "run_result (Err e) = Err e"
| "run_result (Panic p) = Panic p"

definition runTask ::
  "(nat \<Rightarrow> int \<Rightarrow> ('w, 'a + bool \<times> sts list) prog) \<Rightarrow> taskRetryAdapter \<Rightarrow> 'w \<Rightarrow> ('a res \<times> 'w) option" where
  "runTask once ra w = map_option (map_prod run_result id) (run_loop once ra 0 [] w)"

definition taskMaxRetries :: int where "taskMaxRetries = 5"

definition taskInitialBackoffDelay :: int where "taskInitialBackoffDelay = 1000000000"

text \<open>
  \<open>TaskRunner.Run\<close> without a replacement of the loop. The golden ratio and 1/5 as floats are
  roundings of the numbers the source writes, so they are arguments.
\<close>

definition TaskRunner_Run ::
  "run_env \<Rightarrow> (nat \<Rightarrow> rat) \<Rightarrow> rat \<Rightarrow> rat \<Rightarrow> (rat \<Rightarrow> rat) \<Rightarrow> (nat \<Rightarrow> ('w, 'a) prog) \<Rightarrow> 'w \<Rightarrow> ('a res \<times> 'w) option" where
  "TaskRunner_Run ev rn phi jitter rd task =
     runTask (runTaskOnce ev task)
       \<lparr>ra_currentTry = 0, ra_maxTries = taskMaxRetries, ra_currentBackoff = 0,
        ra_initialDelay = taskInitialBackoffDelay, ra_rng = Some rn, ra_drawn = 0,
        ra_multiplier = phi, ra_jitter = jitter, ra_round = rd\<rparr>"

subsection \<open>What the loop does\<close>

text \<open>Runs of a task that fail one after the other.\<close>

inductive failed_runs :: "(nat \<Rightarrow> ('w, 'a) prog) \<Rightarrow> nat \<Rightarrow> 'w \<Rightarrow> sts list \<Rightarrow> 'w \<Rightarrow> bool" for task where
  none: "failed_runs task n w [] w"
| one_more: "task n w = (Err e, w1) \<Longrightarrow> failed_runs task (Suc n) w1 es w2 \<Longrightarrow>
    failed_runs task n w (e # es) w2"

inductive_simps failed_runs_Nil [simp]: "failed_runs task n w [] w'"

inductive_simps failed_runs_Cons [simp]: "failed_runs task n w (e # es) w'"

text \<open>
  What the runner reports: the failures in order, then at most one reason of its own for stopping;
  without such a reason it stops for a failure that may not be retried, or out of tries.
\<close>

definition gave_up :: "adapter \<Rightarrow> nat \<Rightarrow> sts list \<Rightarrow> sts list \<Rightarrow> bool" where
  "gave_up ad tries es reported \<longleftrightarrow>
     (\<exists>own. reported = es @ own \<and> length own \<le> 1 \<and> length es \<le> tries \<and>
        list_all (CanRetry ad) (butlast es) \<and>
        (own = [] \<longrightarrow> length es = tries \<or> es \<noteq> [] \<and> \<not> CanRetry ad (last es)))"

definition outcome ::
  "adapter \<Rightarrow> (nat \<Rightarrow> ('w, 'a) prog) \<Rightarrow> nat \<Rightarrow> nat \<Rightarrow> sts list \<Rightarrow> 'w \<Rightarrow> ('a + sts list) res \<Rightarrow> 'w \<Rightarrow> bool" where
  "outcome ad task n tries stss w r w' \<longleftrightarrow>
     (\<exists>es w1. failed_runs task n w es w1 \<and>
        (case r of
           Ok (Inl x) \<Rightarrow> task (n + length es) w1 = (Ok x, w') \<and> length es < tries \<and> list_all (CanRetry ad) es
         | Ok (Inr out) \<Rightarrow> w' = w1 \<and> (\<exists>out'. out = stss @ out' \<and> gave_up ad tries es out')
         | Err e \<Rightarrow> False
         | Panic p \<Rightarrow> task (n + length es) w1 = (Panic p, w') \<and> length es < tries \<and> list_all (CanRetry ad) es))"

lemma after_failure_cases:
  obtains "after_failure ev n b s = (True, [s])" "CanRetry (re_adapter ev) s"
  | "after_failure ev n b s = (False, [s])" "\<not> CanRetry (re_adapter ev) s"
  | e where "after_failure ev n b s = (False, [s, e])" "CanRetry (re_adapter ev) s"
  by (cases "CanRetry (re_adapter ev) s"; cases "too_late ev n b"; cases "re_slept ev n")
    (auto simp: after_failure_def)

lemma retry_Next_cases:
  assumes "ra_maxTries ra \<noteq> max_int64"
  obtains "ra_currentTry ra \<ge> ra_maxTries ra" "retry_Next ra = (None, ra)"
  | b ra' where "ra_currentTry ra < ra_maxTries ra" "retry_Next ra = (Some b, ra')"
      "ra_currentTry ra' = ra_currentTry ra + 1" "ra_maxTries ra' = ra_maxTries ra"
proof (cases "ra_currentTry ra \<ge> ra_maxTries ra")
  case False
  obtain out ra' where "retry_Next ra = (out, ra')" by fastforce
  then show thesis using False assms that(2)
    by (auto simp: retry_Next_def Let_def split: if_splits option.splits)
qed (use that(1) in \<open>simp add: retry_Next_def\<close>)

lemma gave_up_more:
  assumes "gave_up ad tries es out" "CanRetry ad s"
  shows "gave_up ad (Suc tries) (s # es) (s # out)"
  using assms by (auto simp: gave_up_def)

lemma gave_up_now:
  "0 < tries \<Longrightarrow> \<not> CanRetry ad s \<Longrightarrow> gave_up ad tries [s] [s]"
  "0 < tries \<Longrightarrow> gave_up ad tries [s] [s, e]"
  "gave_up ad tries [] [e]"
  "gave_up ad 0 [] []"
  by (auto simp: gave_up_def)

lemma outcome_now:
  "task n w = (Ok x, w') \<Longrightarrow> 0 < tries \<Longrightarrow> outcome ad task n tries stss w (Ok (Inl x)) w'"
  "task n w = (Panic p, w') \<Longrightarrow> 0 < tries \<Longrightarrow> outcome ad task n tries stss w (Panic p) w'"
  "gave_up ad tries [] out \<Longrightarrow> outcome ad task n tries stss w (Ok (Inr (stss @ out))) w"
  "task n w = (Err s, w') \<Longrightarrow> gave_up ad tries [s] out \<Longrightarrow> outcome ad task n tries stss w (Ok (Inr (stss @ out))) w'"
  unfolding outcome_def
     apply (rule exI [of _ "[]"], simp)
    apply (rule exI [of _ "[]"], simp)
   apply (rule exI [of _ "[]"], simp)
  apply (rule exI [of _ "[s]"], simp)
  done

lemma outcome_more:
  assumes "task n w = (Err s, w1)" "CanRetry ad s" "outcome ad task (Suc n) tries (stss @ [s]) w1 r w'"
  shows "outcome ad task n (Suc tries) stss w r w'"
proof -
  obtain es w2 where es: "failed_runs task (Suc n) w1 es w2"
    and r: "case r of
           Ok (Inl x) \<Rightarrow> task (Suc n + length es) w2 = (Ok x, w') \<and> length es < tries \<and> list_all (CanRetry ad) es
         | Ok (Inr out) \<Rightarrow> w' = w2 \<and> (\<exists>out'. out = (stss @ [s]) @ out' \<and> gave_up ad tries es out')
         | Err e \<Rightarrow> False
         | Panic p \<Rightarrow> task (Suc n + length es) w2 = (Panic p, w') \<and> length es < tries \<and> list_all (CanRetry ad) es"
    using assms(3) unfolding outcome_def by blast
  have "failed_runs task n w (s # es) w2" using assms(1) es by simp
  then show ?thesis unfolding outcome_def using r assms(2)
    by (intro exI [of _ "s # es"] exI [of _ w2])
      (auto split: res.splits sum.splits dest: gave_up_more)
qed

lemma run_loop_outcome:
  assumes "ra_maxTries ra \<noteq> max_int64" "nat (ra_maxTries ra - ra_currentTry ra) = tries"
  shows "\<exists>r w'. run_loop (runTaskOnce ev task) ra n stss w = Some (r, w') \<and>
    outcome (re_adapter ev) task n tries stss w r w'"
  using assms
proof (induction tries arbitrary: ra n stss w)
  case 0
  then have "retry_Next ra = (None, ra)" by (auto simp: retry_Next_def)
  then have "run_loop (runTaskOnce ev task) ra n stss w = Some (Ok (Inr stss), w)"
    by (simp add: run_loop.simps)
  then show ?case using outcome_now(3) [OF gave_up_now(4)] by fastforce
next
  case (Suc tries)
  obtain b ra' where nx: "retry_Next ra = (Some b, ra')"
    "ra_currentTry ra' = ra_currentTry ra + 1" "ra_maxTries ra' = ra_maxTries ra"
    by (rule retry_Next_cases [OF Suc.prems(1)]) (use Suc.prems(2) in auto)
  note loop = run_loop.simps [of "runTaskOnce ev task" ra n stss w]
    and once = runTaskOnce_def [of ev task n b w]
  show ?case
  proof (cases "re_done ev n")
    case (Some err)
    then show ?thesis using outcome_now(3) [OF gave_up_now(3)]
      by (simp add: loop nx(1) once)
  next
    case None
    note once = once None
    obtain r1 w1 where t: "task n w = (r1, w1)" by fastforce
    show ?thesis
    proof (cases r1)
      case (Err s)
      show ?thesis
      proof (rule after_failure_cases [of ev n b s])
        assume a: "after_failure ev n b s = (True, [s])" "CanRetry (re_adapter ev) s"
        have "nat (ra_maxTries ra' - ra_currentTry ra') = tries" "ra_maxTries ra' \<noteq> max_int64"
          using nx Suc.prems by simp_all
        from Suc.IH [OF this(2,1), of "Suc n" "stss @ [s]" w1]
        show ?thesis using t Err a by (auto simp: loop nx(1) once intro: outcome_more)
      next
        assume a: "after_failure ev n b s = (False, [s])" "\<not> CanRetry (re_adapter ev) s"
        then show ?thesis using t Err outcome_now(4) [OF _ gave_up_now(1), of task n w s w1]
          by (simp add: loop nx(1) once)
      next
        fix e
        assume a: "after_failure ev n b s = (False, [s, e])"
        then show ?thesis using t Err outcome_now(4) [OF _ gave_up_now(2), of task n w s w1]
          by (simp add: loop nx(1) once)
      qed
    qed (use t in \<open>simp_all add: loop nx(1) once outcome_now\<close>)
  qed
qed

lemma run_result_Err: "run_result r = Err s \<Longrightarrow>
    r = Err s \<or> (\<exists>e es. r = Ok (Inr (e # es)) \<and> s = WithSuppressed e (map EStatus es))"
  by (cases r rule: run_result.cases) auto

lemma gave_up_some: "gave_up ad tries es out \<Longrightarrow> 0 < tries \<Longrightarrow> out \<noteq> []"
  by (auto simp: gave_up_def)

text \<open>The same for the runner, with its five tries.\<close>

definition run_outcome ::
  "adapter \<Rightarrow> (nat \<Rightarrow> ('w, 'a) prog) \<Rightarrow> nat \<Rightarrow> sts list \<Rightarrow> 'w \<Rightarrow> 'w \<Rightarrow> 'a res \<Rightarrow> 'w \<Rightarrow> bool" where
  "run_outcome ad task tries es w w1 r w' \<longleftrightarrow> failed_runs task 0 w es w1 \<and>
     (case r of
        Err s \<Rightarrow> w' = w1 \<and> (\<exists>first rest. s = WithSuppressed first (map EStatus rest) \<and>
          gave_up ad tries es (first # rest))
      | _ \<Rightarrow> task (length es) w1 = (r, w') \<and> length es < tries \<and> list_all (CanRetry ad) es)"

lemma TaskRunner_Run_outcome:
  obtains r w' es w1 where "TaskRunner_Run ev rn phi jitter rd task w = Some (r, w')"
    "run_outcome (re_adapter ev) task 5 es w w1 r w'"
proof -
  let ?ra = "\<lparr>ra_currentTry = 0, ra_maxTries = taskMaxRetries, ra_currentBackoff = 0,
        ra_initialDelay = taskInitialBackoffDelay, ra_rng = Some rn, ra_drawn = 0,
        ra_multiplier = phi, ra_jitter = jitter, ra_round = rd\<rparr>"
  obtain r w' where run: "run_loop (runTaskOnce ev task) ?ra 0 [] w = Some (r, w')"
    and out: "outcome (re_adapter ev) task 0 5 [] w r w'"
    using run_loop_outcome [of ?ra 5 ev task 0 "[]" w] by (auto simp: taskMaxRetries_def)
  obtain es w1 where es: "failed_runs task 0 w es w1"
    and c: "case r of
           Ok (Inl x) \<Rightarrow> task (0 + length es) w1 = (Ok x, w') \<and> length es < 5 \<and> list_all (CanRetry (re_adapter ev)) es
         | Ok (Inr out) \<Rightarrow> w' = w1 \<and> (\<exists>out'. out = [] @ out' \<and> gave_up (re_adapter ev) 5 es out')
         | Err e \<Rightarrow> False
         | Panic p \<Rightarrow> task (0 + length es) w1 = (Panic p, w') \<and> length es < 5 \<and> list_all (CanRetry (re_adapter ev)) es"
    using out unfolding outcome_def by blast
  have "run_outcome (re_adapter ev) task 5 es w w1 (run_result r) w'"
    using es c by (cases r rule: run_result.cases) (auto simp: run_outcome_def dest: gave_up_some)
  with that run show thesis by (simp add: TaskRunner_Run_def runTask_def)
qed

subsection \<open>Running a task\<close>

text \<open>C16. The runner always returns, after at most five runs of the task. It succeeds exactly when
  a run does, with that run's results, and panics only when one does; all runs before failed with
  an error the database may retry. Otherwise it reports the failures of all runs in order, having
  stopped for a failure that may not be retried, the context, the deadline, or the fifth try.\<close>

theorem TaskRunner_Run_retries:
  "\<exists>r w' es w1. TaskRunner_Run ev rn phi jitter rd task w = Some (r, w') \<and>
     run_outcome (re_adapter ev) task 5 es w w1 r w'"
  by (rule TaskRunner_Run_outcome) blast

end
