(* ===== verification/RunnerFacts.thy ===== *)
theory RunnerFacts
  imports TaskRunner VoteRuns
begin

section \<open>Tasks under the runner\<close>

text \<open>
  A task that the runner tries again must have left nothing behind. The locale states what the
  runner relies on; the bodies of the tasks give it through \<open>atomic_task\<close>.
\<close>

locale retried_task =
  fixes task :: "nat \<Rightarrow> 'a io"
  assumes leaves_nothing: "task n w = (Err e, w') \<Longrightarrow> fits w \<Longrightarrow> idle w \<Longrightarrow> sure_commit (w_env w) \<Longrightarrow>
    fits w' \<and> idle w' \<and> w_env w' = w_env w \<and> visit_only (w_db w) (w_db w')"
begin

lemma failed_runs_leave_nothing:
  assumes "failed_runs task n w es w'" "fits w" "idle w" "sure_commit (w_env w)"
  shows "fits w' \<and> idle w' \<and> w_env w' = w_env w \<and> visit_only (w_db w) (w_db w')"
  using assms
proof (induction rule: failed_runs.induct)
  case (one_more n w e w1 es w2)
  from leaves_nothing [OF one_more.hyps(1) one_more.prems] one_more
  show ?case by (auto intro: visit_only_trans)
qed simp

text \<open>Under the runner the task takes effect once, in its last run, or not at all.\<close>

lemma at_most_once:
  assumes "TaskRunner_Run ev rn phi jitter rd task w = Some (r, w')"
    "fits w" "idle w" "sure_commit (w_env w)"
  obtains (ok) x n w1 where "r = Ok x" "task n w1 = (Ok x, w')" "fits w1" "idle w1"
      "visit_only (w_db w) (w_db w1)" "n < 5"
  | (err) e where "r = Err e" "visit_only (w_db w) (w_db w')"
  | (panic) p where "r = Panic p"
proof -
  obtain es w1 where out: "run_outcome (re_adapter ev) task 5 es w w1 r w'"
    using assms(1) by (rule_tac TaskRunner_Run_outcome [of ev rn phi jitter rd task w]) auto
  then have "failed_runs task 0 w es w1" by (simp add: run_outcome_def)
  from failed_runs_leave_nothing [OF this assms(2-4)] out that show thesis
    by (cases r) (auto simp: run_outcome_def)
qed

end

interpretation voting: retried_task "\<lambda>n. AddPicVoteTask cx (now n) i vote ext" for cx now i vote ext
proof
  fix n w e w'
  assume run: "AddPicVoteTask cx (now n) i vote ext w = (Err e, w')" and w: "fits w" "idle w" "sure_commit (w_env w)"
  show "fits w' \<and> idle w' \<and> w_env w' = w_env w \<and> visit_only (w_db w) (w_db w')"
  proof (cases "known_vote vote")
    case True
    then have "bind (authedJobInternal cx (now n) False)
        (\<lambda>u. revert (vote_body cx (now n) i vote ext u)) w = (Err e, w')"
      using run by (simp add: AddPicVoteTask_def authedJob_def)
    from add_pic_vote.closes [OF this w(1,2)] add_pic_vote.all_or_nothing [OF this w]
    show ?thesis by blast
  qed (use run w in \<open>simp add: AddPicVoteTask_def run_simps\<close>)
qed


subsection \<open>At a concrete input\<close>

definition calm_runner :: run_env where
  "calm_runner = \<lparr>re_done = (\<lambda>n. None), re_slept = (\<lambda>n. None), re_now = (\<lambda>n. now0),
     re_deadline = None, re_adapter = sqlite3\<rparr>"

lemma TaskRunner_Run_first:
  assumes "task 0 w = (Ok x, w')"
  shows "TaskRunner_Run calm_runner rn phi jitter rd task w = Some (Ok x, w')"
  using assms
  by (simp add: TaskRunner_Run_def runTask_def run_loop.simps runTaskOnce_def retry_Next_def
      calm_runner_def taskMaxRetries_def taskInitialBackoffDelay_def)


end
