(* ===== verification/UserEvents.thy ===== *)
theory UserEvents
  imports IndexPics
begin

section \<open>Events of a user (be/tasks/find_user_events_task.go)\<close>

text \<open>
  A page of events is filtered after it is read, so one query may not fill it: the task asks again
  from the last event on, until the page is full, the events end, or as many events have been read
  as the configuration allows.
\<close>

subsection \<open>Filtering\<close>

definition event_shown :: "user_cred \<Rightarrow> user_event \<Rightarrow> bool" where
  "event_shown uc ue =
     (if cs_has (uc_caps uc) USER_READ_ALL then True
      else if uc_subject uc = ue_user ue \<and> cs_has (uc_caps uc) USER_READ_SELF then True
      else (case ue_evt ue of
          OutgoingUpsertPicVote i \<Rightarrow> cs_has (uc_caps uc) USER_READ_PUBLIC \<and> cs_has (uc_caps uc) USER_READ_PIC_VOTE
        | OutgoingPicComment i c \<Rightarrow> cs_has (uc_caps uc) USER_READ_PUBLIC \<and> cs_has (uc_caps uc) USER_READ_PIC_COMMENT
        | UpsertPicEvt i \<Rightarrow> cs_has (uc_caps uc) USER_READ_PUBLIC \<and> cs_has (uc_caps uc) USER_READ_PICS
        | _ \<Rightarrow> False))"

definition filterUserEvents :: "user_event list \<Rightarrow> user option \<Rightarrow> configuration \<Rightarrow> user_event list res" where
  "filterUserEvents ues su conf = res_map (\<lambda>uc. filter (event_shown uc) ues) (userCredOf su conf)"

definition getMaxUserEvents :: "int \<Rightarrow> configuration \<Rightarrow> int \<times> int" where
  "getMaxUserEvents requestedMax conf =
     getMaxConf requestedMax (c_default_find_events conf) (c_max_find_events conf)"

definition getAndValidateMaxUserEvents :: "configuration \<Rightarrow> int \<Rightarrow> (int \<times> int) res" where
  "getAndValidateMaxUserEvents conf requestedMax =
     (if requestedMax < 0 then Err (InvalidArgument None ''negative max user events'')
      else Ok (getMaxUserEvents requestedMax conf))"

subsection \<open>Scanning\<close>

text \<open>The loop goes on only after a full, nonempty batch, and each makes \<open>finds\<close> greater.\<close>

lemma bind_state_cong [fundef_cong]:
  assumes "m w = m' w'" "w = w'" "\<And>x v. m' w' = (Ok x, v) \<Longrightarrow> f x v = g x v"
  shows "bind m f w = bind m' g w'"
  using assms by (auto simp: bind_def split: prod.splits res.splits)

definition scan_after :: "bool \<Rightarrow> idx \<Rightarrow> opts \<Rightarrow> opts" where
  "scan_after asc key opt =
     (if asc then opt\<lparr>o_start_ex := Some key, o_start_inc := None\<rparr>
      else opt\<lparr>o_stop_ex := Some key, o_stop_inc := None\<rparr>)"

definition find_events :: "opts \<Rightarrow> user_event list io" where
  "find_events opt = wrap_err (\<lambda>e. Internal e ''can't find user events'') (FindUserEvents opt)"

function events_loop ::
  "(user_event list \<Rightarrow> user_event list res) \<Rightarrow> bool \<Rightarrow> int \<Rightarrow> int \<Rightarrow> opts \<Rightarrow> user_event list \<Rightarrow> int \<Rightarrow>
     user_event list io" where
  "events_loop filt asc overmax hardmax opt ues finds w =
     bind (find_events opt) (\<lambda>events w1.
     bind (lift_res (filt events)) (\<lambda>shown w2.
       if int (length (ues @ shown)) \<ge> overmax then (Ok (ues @ shown), w2)
       else if int (length events) \<noteq> o_limit opt then (Ok (ues @ shown), w2)
       else if finds + int (length events) \<ge> hardmax then (Ok (ues @ shown), w2)
       else if events = [] then (Panic ''index out of range'', w2)
       else
         bind (lift_res (KeyForUserEvent (last events))) (\<lambda>key w3.
           events_loop filt asc overmax hardmax (scan_after asc key opt) (ues @ shown)
             (finds + int (length events)) w3) w2) w1) w"
  by pat_completeness auto
termination
  by (relation "measure (\<lambda>(filt, asc, overmax, hardmax, opt, ues, finds, w). nat (hardmax - finds))")
    (auto, metis length_greater_0_conv of_nat_0_less_iff)

declare events_loop.simps [simp del]

subsection \<open>The task\<close>

type_synonym place = "int \<times> int \<times> int"

definition place_key :: "place \<Rightarrow> idx" where
  "place_key p = (case p of (u, ts, i) \<Rightarrow> UserEventsPrimary (Some u) (Some ts) (Some i))"

definition event_place :: "user_event \<Rightarrow> place res" where
  "event_place e = res_map (\<lambda>ts. (ue_user e, ts, ue_index e)) (UserEventCreatedTsCol (ue_created e))"

record events_page =
  ep_events :: "user_event list"
  ep_next :: place
  ep_prev :: place

text \<open>The two ends of the first scan, after the start has been checked.\<close>

definition event_ends :: "bool \<Rightarrow> int \<Rightarrow> place \<Rightarrow> (place \<times> place) res" where
  "event_ends asc uid start =
     (let lo = (uid, min_int64, 0); hi = (uid, max_int64, max_int64)
      in if start = (0, 0, 0) then Ok (lo, hi)
         else if uid \<noteq> fst start
           then Err (PermissionDenied None ''can't lookup user events for different user'')
         else if asc then Ok ((uid, snd start), hi) else Ok (lo, (uid, snd start)))"

definition prev_scan :: "bool \<Rightarrow> int \<Rightarrow> place \<times> place \<Rightarrow> opts" where
  "prev_scan asc uid ends =
     (if asc then no_opts\<lparr>o_limit := 1, o_lock := LockNone, o_reverse := True,
        o_start_inc := Some (place_key (uid, min_int64, 0)), o_stop_ex := Some (place_key (fst ends))\<rparr>
      else no_opts\<lparr>o_limit := 1, o_lock := LockNone, o_reverse := False,
        o_start_ex := Some (place_key (snd ends)), o_stop_inc := Some (place_key (uid, max_int64, max_int64))\<rparr>)"

definition first_scan :: "bool \<Rightarrow> int \<Rightarrow> place \<times> place \<Rightarrow> opts" where
  "first_scan asc overmax ends =
     no_opts\<lparr>o_reverse := \<not> asc, o_limit := overmax, o_lock := LockNone,
       o_start_inc := Some (place_key (fst ends)), o_stop_inc := Some (place_key (snd ends))\<rparr>"

definition cut_events :: "int \<Rightarrow> user_event list \<Rightarrow> user_event list res" where
  "cut_events overmax ues =
     (if int (length ues) > overmax
      then if overmax < 0 then Panic ''slice bounds out of range'' else Ok (take (nat overmax) ues)
      else Ok ues)"

definition events_result :: "int \<Rightarrow> user_event list \<Rightarrow> user_event list \<Rightarrow> events_page res" where
  "events_result overmax ues prevUes =
     res_bind (if length ues > 0 \<and> int (length ues) = overmax
         then res_map (\<lambda>k. (butlast ues, k)) (event_place (last ues)) else Ok (ues, (0, 0, 0))) (\<lambda>(shown, nxt).
     res_bind (case prevUes of [] \<Rightarrow> Ok (0, 0, 0) | e # _ \<Rightarrow> event_place e) (\<lambda>prv.
       Ok \<lparr>ep_events = shown, ep_next = nxt, ep_prev = prv\<rparr>))"

definition find_events_body :: "ctx \<Rightarrow> int \<Rightarrow> int \<Rightarrow> place \<Rightarrow> bool \<Rightarrow> user option \<Rightarrow> events_page io" where
  "find_events_body cx maxUserEvents objectUserId start asc su =
     bind (lookupObjectUser LockRead objectUserId su) (\<lambda>ou.
     bind (GetConfiguration cx) (\<lambda>conf.
     bind (lift_res (event_ends asc (u_id ou) start)) (\<lambda>ends.
     bind (case c_max_find_events conf of None \<Rightarrow> panic ''nil pointer dereference'' | Some m \<Rightarrow> ret m) (\<lambda>hardmax.
     bind (lift_res (getAndValidateMaxUserEvents conf maxUserEvents)) (\<lambda>(_, overmax).
     bind (events_loop (\<lambda>es. filterUserEvents es su conf) asc overmax hardmax
       (first_scan asc overmax ends) [] 0) (\<lambda>ues.
     bind (lift_res (cut_events overmax ues)) (\<lambda>ues.
     bind (wrap_err (\<lambda>e. Internal e ''Unable to find prev user events'')
       (FindUserEvents (prev_scan asc (u_id ou) ends))) (\<lambda>prevUes.
       lift_res (events_result overmax ues prevUes)))))))))"

definition FindUserEventsTask ::
  "ctx \<Rightarrow> int \<Rightarrow> int \<Rightarrow> int \<Rightarrow> place \<Rightarrow> bool \<Rightarrow> events_page io" where
  "FindUserEventsTask cx now maxUserEvents objectUserId start asc =
     bind (authedReadonlyJob cx now)
       (\<lambda>su. revert (find_events_body cx maxUserEvents objectUserId start asc su))"

subsection \<open>Steps of the loop\<close>

definition stops :: "int \<Rightarrow> int \<Rightarrow> opts \<Rightarrow> user_event list \<Rightarrow> int \<Rightarrow> user_event list \<Rightarrow> bool" where
  "stops overmax hardmax opt ues finds events \<longleftrightarrow> int (length ues) \<ge> overmax \<or>
     int (length events) \<noteq> o_limit opt \<or> finds + int (length events) \<ge> hardmax"

lemma events_loop_cases:
  assumes "events_loop filt asc overmax hardmax opt ues finds w = (r, w')"
  obtains (bad) r1 where "find_events opt w = (r1, w')" "\<forall>x. r1 \<noteq> Ok x" "\<forall>x. r \<noteq> Ok x"
  | (broken) events where "find_events opt w = (Ok events, w')" "\<forall>x. r \<noteq> Ok x"
  | (stop) events shown where "find_events opt w = (Ok events, w')" "filt events = Ok shown" "r = Ok (ues @ shown)"
      "stops overmax hardmax opt (ues @ shown) finds events"
  | (more) events shown key w1 where "find_events opt w = (Ok events, w1)" "filt events = Ok shown" "events \<noteq> []"
      "KeyForUserEvent (last events) = Ok key" "\<not> stops overmax hardmax opt (ues @ shown) finds events"
      "events_loop filt asc overmax hardmax (scan_after asc key opt) (ues @ shown)
         (finds + int (length events)) w1 = (r, w')"
proof -
  note run = assms [unfolded events_loop.simps [of filt asc overmax hardmax opt ues finds w]]
  obtain r1 w1 where f: "find_events opt w = (r1, w1)" by fastforce
  show thesis
  proof (cases r1)
    case (Ok events)
    show thesis
    proof (cases "filt events")
      case shown: (Ok shown)
      have "(if stops overmax hardmax opt (ues @ shown) finds events then (Ok (ues @ shown), w1)
          else if events = [] then (Panic ''index out of range'', w1)
          else bind (lift_res (KeyForUserEvent (last events))) (\<lambda>key w3.
             events_loop filt asc overmax hardmax (scan_after asc key opt) (ues @ shown)
               (finds + int (length events)) w3) w1) = (r, w')"
        using run unfolding bind_Ok [of "find_events opt", OF f [unfolded Ok]]
          bind_Ok [of "lift_res (filt events)" w1 shown w1, unfolded lift_res_Ok, OF conjI [OF shown refl]]
        unfolding stops_def by argo
      note rest = this [unfolded bind_def]
      show thesis
      proof (cases "KeyForUserEvent (last events)")
        case key: (Ok key)
        show thesis
          by (cases "stops overmax hardmax opt (ues @ shown) finds events"; cases "events = []")
            (use rest f Ok shown key broken stop more in \<open>auto simp: run_simps\<close>)
      qed (use rest f Ok shown broken stop in \<open>auto simp: run_simps split: if_splits\<close>)
    next
      case (Err e)
      then have "r = Err e" "w1 = w'" using run f \<open>r1 = Ok events\<close> by (simp_all add: bind_def run_simps)
      then show thesis using broken f Ok by simp
    next
      case (Panic p)
      then have "r = Panic p" "w1 = w'" using run f \<open>r1 = Ok events\<close> by (simp_all add: bind_def run_simps)
      then show thesis using broken f Ok by simp
    qed
  qed (use run f bad in \<open>auto simp: bind_def\<close>)
qed

subsection \<open>Frames\<close>

lemma events_loop_keeps:
  assumes "\<And>opt. keeps K (find_events opt)" "\<And>a b c. K a b \<Longrightarrow> K b c \<Longrightarrow> K a c"
  shows "keeps K (events_loop filt asc overmax hardmax opt ues finds)"
proof (rule keepsI)
  fix w r w'
  assume "events_loop filt asc overmax hardmax opt ues finds w = (r, w')"
  then show "K w w'"
  proof (induction "nat (hardmax - finds)" arbitrary: opt ues finds w rule: less_induct)
    case less
    from less.prems show ?case
    proof (cases rule: events_loop_cases)
      case (more events shown key w1)
      have "nat (hardmax - (finds + int (length events))) < nat (hardmax - finds)"
        using more(3,5) length_greater_0_conv [of events] unfolding stops_def by linarith
      from less.hyps [OF this more(6)] keepsD [OF assms(1) more(1)] assms(2) show ?thesis by blast
    qed (auto dest: keepsD [OF assms(1)])
  qed
qed

lemma find_events_frames:
  "keeps keeps_fit (find_events opt)" "keeps keeps_base (find_events opt)" "keeps keeps_acct (find_events opt)"
  unfolding find_events_def by (auto intro!: read_frames)

lemma events_loop_frames:
  "keeps keeps_fit (events_loop filt asc overmax hardmax opt ues finds)"
  "keeps keeps_base (events_loop filt asc overmax hardmax opt ues finds)"
  "keeps keeps_acct (events_loop filt asc overmax hardmax opt ues finds)"
  by (rule events_loop_keeps, rule find_events_frames, blast intro: fit.trans base.trans acct.trans)+

interpretation find_user_events: read_task "find_events_body cx m oid start asc" for cx m oid start asc
  unfolding find_events_body_def
  by unfold_locales (auto intro!: read_frames events_loop_frames split: option.splits)

end
