(* ===== verification/UserEventFacts.thy ===== *)
theory UserEventFacts
  imports UserEvents PageFacts UserRuns
begin

section \<open>What a page of events shows\<close>

text \<open>
  The loop over batches of events sees the user's events in order, and stops after a bounded number; a
  page is the events of that walk that the caller may see.
\<close>

subsection \<open>Scans of the events\<close>

definition eplace :: "user_event \<Rightarrow> place" where
  "eplace e = (case event_place e of Ok p \<Rightarrow> p | _ \<Rightarrow> (ue_user e, 0, ue_index e))"

definition all_events :: "database \<Rightarrow> user_event list" where
  "all_events d = sort_key eplace (msgs (db_events d))"

definition place_cols :: "place \<Rightarrow> sqlval list" where
  "place_cols p = (case p of (u, ts, i) \<Rightarrow> [SInt u, SInt ts, SInt i])"

lemma place_cols_le: "place_cols p \<le> place_cols q \<longleftrightarrow> p \<le> q" "place_cols p < place_cols q \<longleftrightarrow> p < q"
  by (auto simp: place_cols_def less_eq_prod_def less_prod_def split: prod.splits)

lemma eplace_cols:
  assumes "db_fits ev d" "r \<in> set (db_events d)"
  shows "map (col_of (tb_cols events_table) r) [''user_id'', ''created_ts'', ''index''] = place_cols (eplace (tr_data r))"
  using events_cols [OF assms]
  by (auto simp: col_of_def events_table_def eplace_def event_place_def place_cols_def)

lemma eplace_Ok:
  assumes "db_fits ev d" "e \<in> set (msgs (db_events d))"
  shows "event_place e = Ok (eplace e)" "KeyForUserEvent e = Ok (place_key (eplace e))"
proof -
  obtain r where "r \<in> set (db_events d)" "e = tr_data r" using assms(2) by (auto simp: msgs_def)
  then obtain ts where "UserEventCreatedTsCol (ue_created e) = Ok ts" using events_cols [OF assms(1)] by blast
  then show "event_place e = Ok (eplace e)" "KeyForUserEvent e = Ok (place_key (eplace e))"
    by (simp_all add: eplace_def event_place_def KeyForUserEvent_def place_key_def)
qed

lemma eplace_distinct: "db_fits ev d \<Longrightarrow> distinct (map eplace (msgs (db_events d)))"
proof (rule key_distinct [where ev = ev and T = events_table and key = "[''user_id'', ''created_ts'', ''index'']"
      and g = place_cols])
  fix r
  assume "db_fits ev d" "r \<in> set (db_events d)"
  then show "map (col_of (tb_cols events_table) r) [''user_id'', ''created_ts'', ''index''] =
      place_cols (eplace (tr_data r))"
    by (rule eplace_cols)
qed (simp_all add: db_fits_def, simp add: events_table_def)

text \<open>An end of a scan: a place, and whether it is in the range.\<close>

definition from_end :: "bool \<Rightarrow> place \<Rightarrow> place \<Rightarrow> bool" where
  "from_end inc lo p \<longleftrightarrow> (if inc then lo \<le> p else lo < p)"

definition to_end :: "bool \<Rightarrow> place \<Rightarrow> place \<Rightarrow> bool" where
  "to_end inc hi p \<longleftrightarrow> (if inc then p \<le> hi else p < hi)"

definition end_opt :: "bool \<Rightarrow> place \<Rightarrow> idx option \<times> idx option \<Rightarrow> bool" where
  "end_opt inc p oo \<longleftrightarrow> oo = (if inc then (Some (place_key p), None) else (None, Some (place_key p)))"

definition event_scan :: "bool \<Rightarrow> place \<Rightarrow> bool \<Rightarrow> place \<Rightarrow> bool \<Rightarrow> int \<Rightarrow> opts \<Rightarrow> bool" where
  "event_scan li lo hi_inc hi reverse lim opt \<longleftrightarrow> o_prefix opt = None \<and>
     end_opt li lo (o_start_inc opt, o_start_ex opt) \<and> end_opt hi_inc hi (o_stop_inc opt, o_stop_ex opt) \<and>
     o_reverse opt = reverse \<and> o_limit opt = lim"

abbreviation event_keys :: "string list" where
  "event_keys \<equiv> [''user_id'', ''created_ts'', ''index'']"

lemma place_key_parts: "Cols (place_key p) = event_keys" "Vals (place_key p) = Ok (place_cols p)" "place_key p \<noteq> []"
  by (cases p; simp add: place_key_def UserEventsPrimary_def Cols_def place_cols_def)+

lemma place_cols_some [simp]: "place_cols p \<noteq> []" "length (place_cols p) = 3"
  by (cases p; simp add: place_cols_def)+

lemma event_plan:
  assumes "event_scan li lo ri hi reverse lim opt" "0 \<le> lim"
  shows "scan_plan opt = Ok \<lparr>pl_eqs = [],
    pl_ranges = [range_dnf event_keys (place_cols lo) CGt (if li then CGe else CGt),
      range_dnf event_keys (place_cols hi) CLt (if ri then CLe else CLt)],
    pl_order = event_keys, pl_desc = reverse, pl_limit = nat lim\<rparr>"
  using assms
  by (cases li; cases ri; simp add: event_scan_def end_opt_def scan_plan_def has_range_def range_plan_def
      range_end_def one_range_def place_key_parts)

lemma event_selects:
  assumes "map (col_of cols r) event_keys = place_cols p"
  shows "selects \<lparr>pl_eqs = [],
    pl_ranges = [range_dnf event_keys (place_cols lo) CGt (if li then CGe else CGt),
      range_dnf event_keys (place_cols hi) CLt (if ri then CLe else CLt)],
    pl_order = event_keys, pl_desc = reverse, pl_limit = n\<rparr> (col_of cols r) \<longleftrightarrow>
   from_end li lo p \<and> to_end ri hi p"
  using range_dnf_lex [of "place_cols lo" event_keys "col_of cols r"]
    range_dnf_lex [of "place_cols hi" event_keys "col_of cols r"] assms
  by (auto simp: selects_def place_cols_le from_end_def to_end_def)

lemma job_find_events:
  assumes "FindUserEvents opt w = (Ok es, w')" "job_at ev d0 d w" "event_scan li lo ri hi reverse lim opt"
  shows "job_at ev d0 d w'" "0 \<le> lim"
    "es = cut lim ((if reverse then rev else id)
       (filter (\<lambda>e. from_end li lo (eplace e) \<and> to_end ri hi (eplace e)) (all_events d)))"
proof -
  show lim: "0 \<le> lim"
  proof (rule ccontr)
    assume "\<not> 0 \<le> lim"
    then show False using assms(1,3)
      by (auto simp: FindUserEvents_def find_rows_def scan_plan_def event_scan_def
        bind_def run_simps res_bind_Ok split: res.splits if_splits)
  qed
  have run: "tx_at w' d \<and> es = cut (int (nat lim)) ((if reverse then rev else id)
      (sort_key eplace (filter (\<lambda>e. from_end li lo (eplace e) \<and> to_end ri hi (eplace e))
        (msgs (tb_get events_table d)))))"
  proof (rule find_ordered [OF assms(1) [unfolded FindUserEvents_def] job_at_D(1) [OF assms(2)]
        event_plan [OF assms(3) lim], where k = eplace and g = place_cols, unfolded plan.simps])
    show "distinct (map eplace (msgs (tb_get events_table d)))"
      using eplace_distinct [OF job_at_D(2) [OF assms(2)]] by (simp add: events_table_def)
    show "place_cols x \<le> place_cols y \<longleftrightarrow> x \<le> y" for x y
      by (rule place_cols_le)
  next
    fix r
    assume "r \<in> set (tb_get events_table d)"
    then have "r \<in> set (db_events d)" by (simp add: events_table_def)
    note cols = eplace_cols [OF job_at_D(2) [OF assms(2)] this]
    show "map (col_of (tb_cols events_table) r) event_keys = place_cols (eplace (tr_data r))" by (rule cols)
    show "selects \<lparr>pl_eqs = [],
        pl_ranges = [range_dnf event_keys (place_cols lo) CGt (if li then CGe else CGt),
          range_dnf event_keys (place_cols hi) CLt (if ri then CLe else CLt)],
        pl_order = event_keys, pl_desc = reverse, pl_limit = nat lim\<rparr> (col_of (tb_cols events_table) r) \<longleftrightarrow>
      from_end li lo (eplace (tr_data r)) \<and> to_end ri hi (eplace (tr_data r))"
      by (rule event_selects [OF cols])
  qed
  show "job_at ev d0 d w'"
    by (rule job_atI [OF keeps_base_tables(9) keeps_fit_finds(9) assms(1,2) conjunct1 [OF run]])
  show "es = cut lim ((if reverse then rev else id)
       (filter (\<lambda>e. from_end li lo (eplace e) \<and> to_end ri hi (eplace e)) (all_events d)))"
    using run lim by (simp add: all_events_def filter_sort events_table_def)
qed

subsection \<open>The loop\<close>

text \<open>The events of a scan, in its direction.\<close>

definition events_range :: "bool \<Rightarrow> database \<Rightarrow> bool \<Rightarrow> place \<Rightarrow> bool \<Rightarrow> place \<Rightarrow> user_event list" where
  "events_range asc d li lo ri hi =
     (if asc then id else rev)
       (filter (\<lambda>e. from_end li lo (eplace e) \<and> to_end ri hi (eplace e)) (all_events d))"

definition before :: "bool \<Rightarrow> user_event \<Rightarrow> user_event \<Rightarrow> bool" where
  "before asc a b \<longleftrightarrow> (if asc then eplace a < eplace b else eplace b < eplace a)"

lemma filter_after:
  assumes "sorted_wrt r xs" "j < length xs" "\<And>a b. r a b \<Longrightarrow> \<not> r b a"
  shows "filter (r (xs ! j)) xs = drop (Suc j) xs"
proof -
  have irr: "\<not> r a a" for a using assms(3) by blast
  have "filter (r (xs ! j)) (take (Suc j) xs) = []"
    using assms irr by (auto simp: filter_empty_conv in_set_conv_nth sorted_wrt_iff_nth_less less_Suc_eq)
  moreover have "filter (r (xs ! j)) (drop (Suc j) xs) = drop (Suc j) xs"
    using assms by (auto simp: filter_id_conv in_set_conv_nth sorted_wrt_iff_nth_less)
  ultimately show ?thesis by (metis append_take_drop_id filter_append self_append_conv2)
qed

lemma events_sorted:
  assumes "db_fits ev d"
  shows "sorted_wrt (before asc) (events_range asc d li lo ri hi)"
proof -
  have "sorted (map eplace (all_events d))" "distinct (map eplace (all_events d))"
    using eplace_distinct [OF assms] by (simp_all add: all_events_def distinct_map)
  then have "sorted_wrt (\<lambda>a b. eplace a < eplace b) (all_events d)"
    by (simp add: strict_sorted_iff flip: sorted_wrt_map)
  then have "sorted_wrt (before True) (all_events d)" "sorted_wrt (before False) (rev (all_events d))"
    by (simp_all add: before_def [abs_def] sorted_wrt_rev)
  then show ?thesis by (cases asc) (simp_all add: events_range_def sorted_wrt_filter rev_filter)
qed

lemma events_range_sub: "set (events_range asc d li lo ri hi) \<subseteq> set (msgs (db_events d))"
  by (auto simp: events_range_def all_events_def split: if_splits)

lemma events_range_next:
  assumes "db_fits ev d" "j < length xs" "xs = events_range asc d li lo ri hi"
  shows "asc \<Longrightarrow> events_range asc d False (eplace (xs ! j)) ri hi = drop (Suc j) xs"
    and "\<not> asc \<Longrightarrow> events_range asc d li lo False (eplace (xs ! j)) = drop (Suc j) xs"
proof -
  have x: "from_end li lo (eplace (xs ! j))" "to_end ri hi (eplace (xs ! j))"
    using nth_mem [OF assms(2)] unfolding assms(3) by (auto simp: events_range_def split: if_splits)
  have after: "filter (before asc (xs ! j)) xs = drop (Suc j) xs"
  proof (rule filter_after)
    show "sorted_wrt (before asc) xs" unfolding assms(3) by (rule events_sorted [OF assms(1)])
  qed (use assms(2) in \<open>auto simp: before_def split: if_splits\<close>)
  show "events_range asc d False (eplace (xs ! j)) ri hi = drop (Suc j) xs" if asc
  proof -
    have "from_end li lo (eplace e)" if "eplace (xs ! j) < eplace e" for e
      using x(1) that by (auto simp: from_end_def split: if_splits)
    then have "filter (\<lambda>e. from_end False (eplace (xs ! j)) (eplace e) \<and> to_end ri hi (eplace e)) zs =
        filter (before True (xs ! j)) (filter (\<lambda>e. from_end li lo (eplace e) \<and> to_end ri hi (eplace e)) zs)" for zs
      unfolding filter_filter by (intro filter_cong) (auto simp: from_end_def [of False] before_def)
    then show ?thesis using after that assms(3) by (simp add: events_range_def)
  qed
  show "events_range asc d li lo False (eplace (xs ! j)) = drop (Suc j) xs" if "\<not> asc"
  proof -
    have "to_end ri hi (eplace e)" if "eplace e < eplace (xs ! j)" for e
      using x(2) that by (auto simp: to_end_def split: if_splits)
    then have "filter (\<lambda>e. from_end li lo (eplace e) \<and> to_end False (eplace (xs ! j)) (eplace e)) zs =
        filter (before False (xs ! j)) (filter (\<lambda>e. from_end li lo (eplace e) \<and> to_end ri hi (eplace e)) zs)" for zs
      unfolding filter_filter by (intro filter_cong) (auto simp: to_end_def [of False] before_def)
    then show ?thesis using after that assms(3) by (simp add: events_range_def rev_filter)
  qed
qed

lemma event_scan_after:
  "asc \<Longrightarrow> event_scan li lo ri hi r lim opt \<Longrightarrow> event_scan False p ri hi r lim (scan_after asc (place_key p) opt)"
  "\<not> asc \<Longrightarrow> event_scan li lo ri hi r lim opt \<Longrightarrow> event_scan li lo False p r lim (scan_after asc (place_key p) opt)"
  by (simp_all add: event_scan_def end_opt_def scan_after_def)

text \<open>How far the loop reads: to the end, until there is enough, or as far as it may.\<close>

definition looked_at :: "int \<Rightarrow> int \<Rightarrow> int \<Rightarrow> (user_event \<Rightarrow> bool) \<Rightarrow> user_event list \<Rightarrow> user_event list \<Rightarrow>
    user_event list \<Rightarrow> bool" where
  "looked_at ov hardmax finds P ues ys out \<longleftrightarrow>
     (\<exists>k \<le> length ys. out = ues @ filter P (take k ys) \<and>
        (k = length ys \<or> ov \<le> int (length out) \<or> hardmax \<le> finds + int k) \<and>
        (0 < ov \<longrightarrow> finds + int k < max (finds + 1) hardmax + ov))"

lemma looked_at_more:
  assumes "looked_at ov hardmax (finds + ov) P (ues @ filter P (take (nat ov) ys)) (drop (nat ov) ys) out"
    "ov \<le> int (length ys)" "0 < ov" "finds + ov < hardmax"
  shows "looked_at ov hardmax finds P ues ys out"
proof -
  obtain k where k: "k \<le> length ys - nat ov"
    "out = ues @ filter P (take (nat ov) ys) @ filter P (take k (drop (nat ov) ys))"
    "k = length ys - nat ov \<or> ov \<le> int (length out) \<or> hardmax \<le> finds + ov + int k"
    "finds + ov + int k < max (finds + ov + 1) hardmax + ov"
    using assms(1,3) by (auto simp: looked_at_def)
  have "out = ues @ filter P (take (nat ov + k) ys)" using k(2) by (simp add: take_add)
  then show ?thesis unfolding looked_at_def using k assms(2-4)
    by (intro exI [of _ "nat ov + k"]) auto
qed

lemma looked_at_stop:
  assumes "stops ov hardmax opt (ues @ filter P es) finds es" "o_limit opt = ov" "es = cut ov ys" "0 \<le> ov"
  shows "looked_at ov hardmax finds P ues ys (ues @ filter P es)"
proof (cases "0 < ov")
  case True
  then have es: "es = take (nat ov) ys" using assms(3) by (simp add: cut_def)
  then have len: "take (length es) ys = es" "length es \<le> length ys" "length es \<le> nat ov"
    "length es \<noteq> nat ov \<Longrightarrow> length es = length ys" by (auto simp: min_def split: if_splits)
  have "finds + int (length es) < max (finds + 1) hardmax + ov" using len(3) True by linarith
  moreover have "length es = length ys \<or> ov \<le> int (length (ues @ filter P es)) \<or> hardmax \<le> finds + int (length es)"
    using assms(1,2) len(4) True unfolding stops_def by linarith
  ultimately show ?thesis unfolding looked_at_def using len(1,2)
    by (intro exI [of _ "length es"]) simp
next
  case False
  then have "es = ys" using assms(3) by (simp add: cut_def)
  then show ?thesis unfolding looked_at_def using False by (intro exI [of _ "length ys"]) simp
qed

lemma events_loop_reads:
  assumes "events_loop filt asc ov hardmax opt ues finds w = (Ok out, w')" "job_at ev d0 d w"
    "event_scan li lo ri hi (\<not> asc) ov opt" "\<And>es shown. filt es = Ok shown \<Longrightarrow> shown = filter P es"
  shows "job_at ev d0 d w' \<and> 0 \<le> ov \<and> looked_at ov hardmax finds P ues (events_range asc d li lo ri hi) out"
  using assms
proof (induction "nat (hardmax - finds)" arbitrary: opt ues finds w li lo ri hi rule: less_induct)
  case less
  let ?ys = "events_range asc d li lo ri hi"
  have read: "job_at ev d0 d w1 \<and> 0 \<le> ov \<and> es = cut ov ?ys" if "find_events opt w = (Ok es, w1)" for es w1
    using job_find_events [OF _ less.prems(2,3), of es w1] that
    by (cases asc) (auto simp: find_events_def events_range_def)
  have lim: "o_limit opt = ov" using less.prems(3) by (simp add: event_scan_def)
  from less.prems(1) show ?case
  proof (cases rule: events_loop_cases)
    case (stop es shown)
    note r = read [OF stop(1)]
    have shown: "shown = filter P es" by (rule less.prems(4) [OF stop(2)])
    then have "looked_at ov hardmax finds P ues ?ys (ues @ filter P es)"
      using looked_at_stop [OF _ lim] stop(4) r by blast
    then show ?thesis using stop(3) r shown by simp
  next
    case (more es shown key w1)
    note r = read [OF more(1)]
    have shown: "shown = filter P es" by (rule less.prems(4) [OF more(2)])
    have n: "int (length es) = ov" "finds + ov < hardmax" using more(5) lim by (auto simp: stops_def)
    have ov: "0 < ov" using n(1) more(3) length_greater_0_conv [of es] by linarith
    have es: "es = take (nat ov) ?ys" "ov \<le> int (length ?ys)" using r n(1) ov by (auto simp: cut_def)
    have j: "nat ov - 1 < length ?ys" using es(2) ov by linarith
    have last: "last es = ?ys ! (nat ov - 1)"
    proof -
      have "length es = nat ov" using n(1) by linarith
      then have "last es = es ! (nat ov - 1)" using more(3) by (simp add: last_conv_nth)
      then show ?thesis using es(1) ov by simp
    qed
    note fit = job_at_D(2) [OF less.prems(2)]
    have "last es \<in> set (msgs (db_events d))" using nth_mem [OF j] events_range_sub last by fastforce
    then have key: "key = place_key (eplace (last es))" using eplace_Ok(2) [OF fit] more(4) by simp
    have d: "nat (hardmax - (finds + int (length es))) < nat (hardmax - finds)" using n ov by linarith
    have suc: "Suc (nat ov - 1) = nat ov" using ov by simp
    note nx = events_range_next [OF fit j refl, unfolded suc, folded last]
    have "job_at ev d0 d w' \<and> 0 \<le> ov \<and>
      looked_at ov hardmax (finds + ov) P (ues @ filter P es) (drop (nat ov) ?ys) out"
    proof (cases asc)
      case True
      from less.hyps [OF d more(6) conjunct1 [OF r] event_scan_after(1) [OF True less.prems(3), of "eplace (last es)", folded key] less.prems(4)]
      show ?thesis using nx(1) [OF True] True shown n(1) key by simp
    next
      case False
      from less.hyps [OF d more(6) conjunct1 [OF r] event_scan_after(2) [OF False less.prems(3), of "eplace (last es)", folded key] less.prems(4)]
      show ?thesis using nx(2) [OF False] False shown n(1) key by simp
    qed
    then show ?thesis using looked_at_more [OF _ es(2) ov n(2)] es(1) by blast
  qed auto
qed

subsection \<open>The task\<close>

text \<open>
  What a page shows: of the events of the user from the requested start on, in the order of their
  places or its reverse, those the caller may see among the first ones, and at most as many as
  asked for, with the places of the event after them and of the one before. Only a bounded number of
  events is looked at; if there is no next event, either all were or the bound was reached.
\<close>

definition event_before :: "bool \<Rightarrow> database \<Rightarrow> int \<Rightarrow> place \<times> place \<Rightarrow> place" where
  "event_before asc d uid ends =
     (case (if asc then events_range False d True (uid, min_int64, 0) False (fst ends)
            else events_range True d False (snd ends) True (uid, max_int64, max_int64)) of
        [] \<Rightarrow> (0, 0, 0) | e # _ \<Rightarrow> eplace e)"

definition events_read :: "database \<Rightarrow> configuration \<Rightarrow> int \<Rightarrow> int \<Rightarrow> place \<Rightarrow> bool \<Rightarrow> user_cred \<Rightarrow> events_page \<Rightarrow> bool" where
  "events_read d conf maxUserEvents uid start asc uc pg \<longleftrightarrow>
     (\<exists>ends mx ov hardmax seen. event_ends asc uid start = Ok ends \<and>
        getAndValidateMaxUserEvents conf maxUserEvents = Ok (mx, ov) \<and> 0 \<le> ov \<and>
        c_max_find_events conf = Some hardmax \<and>
        looked_at ov hardmax 0 (event_shown uc) [] (events_range asc d True (fst ends) True (snd ends)) seen \<and>
        (let shown = take (nat ov) seen
         in if shown \<noteq> [] \<and> int (length shown) = ov
            then ep_events pg = butlast shown \<and> ep_next pg = eplace (last shown)
            else ep_events pg = shown \<and> ep_next pg = (0, 0, 0)) \<and>
        ep_prev pg = event_before asc d uid ends)"

lemma looked_at_sub: "looked_at ov hardmax finds P [] ys out \<Longrightarrow> set out \<subseteq> set ys"
  by (auto simp: looked_at_def dest: in_set_takeD)

lemma cut_events_Ok: "cut_events ov ues = Ok xs \<Longrightarrow> 0 \<le> ov \<Longrightarrow> xs = take (nat ov) ues"
  by (auto simp: cut_events_def split: if_splits)

lemma events_result_Ok:
  assumes "events_result ov xs ps = Ok pg" "\<And>e. e \<in> set (xs @ ps) \<Longrightarrow> event_place e = Ok (eplace e)"
  shows "if xs \<noteq> [] \<and> int (length xs) = ov
      then ep_events pg = butlast xs \<and> ep_next pg = eplace (last xs)
      else ep_events pg = xs \<and> ep_next pg = (0, 0, 0)"
    and "ep_prev pg = (case ps of [] \<Rightarrow> (0, 0, 0) | e # _ \<Rightarrow> eplace e)"
proof -
  have l: "event_place (last xs) = Ok (eplace (last xs))" if "xs \<noteq> []" using assms(2) that by simp
  have p: "(case ps of [] \<Rightarrow> Ok (0, 0, 0) | e # _ \<Rightarrow> event_place e) =
      Ok (case ps of [] \<Rightarrow> (0, 0, 0) | e # _ \<Rightarrow> eplace e)"
    using assms(2) by (cases ps) auto
  show "if xs \<noteq> [] \<and> int (length xs) = ov
      then ep_events pg = butlast xs \<and> ep_next pg = eplace (last xs)
      else ep_events pg = xs \<and> ep_next pg = (0, 0, 0)"
    "ep_prev pg = (case ps of [] \<Rightarrow> (0, 0, 0) | e # _ \<Rightarrow> eplace e)"
    using assms(1) l unfolding events_result_def p by (auto split: if_splits)
qed

lemma prev_scan_end:
  "asc \<Longrightarrow> event_scan True (uid, min_int64, 0) False (fst ends) (\<not> False) 1 (prev_scan asc uid ends)"
  "\<not> asc \<Longrightarrow> event_scan False (snd ends) True (uid, max_int64, max_int64) (\<not> True) 1 (prev_scan asc uid ends)"
  by (simp_all add: event_scan_def end_opt_def prev_scan_def no_opts_def)

lemma first_scan_ends: "event_scan True (fst ends) True (snd ends) (\<not> asc) ov (first_scan asc ov ends)"
  by (simp add: event_scan_def end_opt_def first_scan_def no_opts_def)

lemma prev_scan_job:
  assumes "FindUserEvents (prev_scan asc uid ends) w = (Ok ps, w')" "job_at ev d0 d w"
  shows "job_at ev d0 d w'" "set ps \<subseteq> set (msgs (db_events d))"
    "event_before asc d uid ends = (case ps of [] \<Rightarrow> (0, 0, 0) | e # _ \<Rightarrow> eplace e)"
proof -
  let ?ys = "if asc then events_range False d True (uid, min_int64, 0) False (fst ends)
            else events_range True d False (snd ends) True (uid, max_int64, max_int64)"
  have sub: "set ?ys \<subseteq> set (msgs (db_events d))" by (cases asc) (simp_all only: if_True if_False events_range_sub)
  have run: "job_at ev d0 d w' \<and> ps = take 1 ?ys"
  proof (cases asc)
    case True
    from job_find_events [OF assms prev_scan_end(1) [OF True]] True
    show ?thesis by (simp add: cut_def events_range_def)
  next
    case False
    from job_find_events [OF assms prev_scan_end(2) [OF False]] False
    show ?thesis by (simp add: cut_def events_range_def)
  qed
  show "job_at ev d0 d w'" using run by blast
  show "set ps \<subseteq> set (msgs (db_events d))" using run sub by (meson in_set_takeD subset_iff)
  show "event_before asc d uid ends = (case ps of [] \<Rightarrow> (0, 0, 0) | e # _ \<Rightarrow> eplace e)"
    unfolding event_before_def conjunct2 [OF run] by (cases ?ys) simp_all
qed

lemma loop_filters:
  assumes "events_loop (\<lambda>es. filterUserEvents es su conf) asc ov hardmax opt ues finds w = (Ok out, w')"
  obtains uc where "userCredOf su conf = Ok uc"
  using assms by (cases "userCredOf su conf"; cases rule: events_loop_cases [OF assms])
    (auto simp: filterUserEvents_def)

lemma FindUserEventsTask_effect:
  assumes "fits w" "idle w" "FindUserEventsTask cx now maxUserEvents oid start asc w = (Ok pg, w')"
  shows "\<exists>su conf uc uid. visit_only (w_db w) (w_db w') \<and> token_user cx (w_db w') su \<and> conf_of cx w = Some conf \<and>
    userCredOf su conf = Ok uc \<and> deriveObjectUserId oid su = Ok uid \<and>
    events_read (w_db w') conf maxUserEvents uid start asc uc pg"
proof -
  obtain su w1 w2 where s0: "job_at (w_env w) (w_db w1) (w_db w1) w1" "visit_only (w_db w) (w_db w1)"
    "token_user cx (w_db w1) su" "find_events_body cx maxUserEvents oid start asc su w1 = (Ok pg, w2)"
    "w_db w' = w_db w2" "w_site w1 = w_site w"
    using find_user_events.succeeds [OF assms(3) [unfolded FindUserEventsTask_def authedReadonlyJob_def] assms(1,2)]
    by blast
  obtain ou w3 conf ends hardmax mx ov seen shown ps w4 w5 where s: "lookupObjectUser LockRead oid su w1 = (Ok ou, w3)"
    "conf_of cx w3 = Some conf" "event_ends asc (u_id ou) start = Ok ends" "c_max_find_events conf = Some hardmax"
    "getAndValidateMaxUserEvents conf maxUserEvents = Ok (mx, ov)"
    "events_loop (\<lambda>es. filterUserEvents es su conf) asc ov hardmax (first_scan asc ov ends) [] 0 w3 = (Ok seen, w4)"
    "cut_events ov seen = Ok shown" "FindUserEvents (prev_scan asc (u_id ou) ends) w4 = (Ok ps, w5)"
    "events_result ov shown ps = Ok pg" "w2 = w5"
    using s0(4) unfolding find_events_body_def
    by (auto simp only: GetConfiguration_iff lift_res_Ok wrap_err_Ok ret_Ok panic_Ok prod.inject res.inject
        split: prod.splits option.splits elim!: bind_OkE)
  obtain uc where uc: "userCredOf su conf = Ok uc" by (rule loop_filters [OF s(6)])
  note obj = object_user_job [OF s(1) s0(1,3)]
  have site: "w_site w3 = w_site w1" using keepsD [OF object_user_frames(2) s(1)] by (simp add: keeps_base_def)
  have loop: "job_at (w_env w) (w_db w1) (w_db w1) w4 \<and> 0 \<le> ov \<and>
      looked_at ov hardmax 0 (event_shown uc) [] (events_range asc (w_db w1) True (fst ends) True (snd ends)) seen"
    by (rule events_loop_reads [OF s(6) _ first_scan_ends]) (use obj in \<open>auto simp: filterUserEvents_def uc\<close>)
  note pr = prev_scan_job [OF s(8) conjunct1 [OF loop]]
  have sh: "shown = take (nat ov) seen" using cut_events_Ok [OF s(7)] loop by blast
  have "set seen \<subseteq> set (msgs (db_events (w_db w1)))"
    using looked_at_sub events_range_sub loop by blast
  then have places: "event_place e = Ok (eplace e)" if "e \<in> set (shown @ ps)" for e
    using that sh pr(2) eplace_Ok(1) [OF job_at_D(2) [OF s0(1)]] by (auto dest: in_set_takeD)
  note res = events_result_Ok [OF s(9) places]
  have "events_read (w_db w1) conf maxUserEvents (u_id ou) start asc uc pg"
    unfolding events_read_def using s(3-5) loop res pr(3) sh
    by (intro exI [of _ ends] exI [of _ mx] exI [of _ ov] exI [of _ hardmax] exI [of _ seen]) (simp add: Let_def)
  moreover have "w_db w' = w_db w1" using pr(1) s0(5) s(10) by (simp add: job_at_D)
  moreover have "conf_of cx w = Some conf" using s(2) conf_of_site site s0(6) by metis
  ultimately show ?thesis using s0(2,3) uc obj by auto
qed


subsection \<open>On the small database\<close>

lemma no_events_run:
  "event_scan li lo ri hi reverse lim opt \<Longrightarrow> 0 \<le> lim \<Longrightarrow>
    FindUserEvents opt (work ro start_db n al) = (Ok [], work ro start_db (Suc n) al)"
proof -
  have none: "select_rows pl f [] = []" for pl and f :: "user_event trow \<Rightarrow> string \<Rightarrow> sqlval"
    by (simp add: select_rows_def Let_def sort_key_def)
  assume "event_scan li lo ri hi reverse lim opt" "0 \<le> lim"
  from work_find [OF event_plan [OF this], of events_table] show ?thesis
    by (simp add: FindUserEvents_def tables_get start_db_sels none)
qed

lemma no_events_loop:
  assumes "event_scan li lo ri hi reverse lim opt" "0 < lim" "userCredOf su conf = Ok uc"
  shows "events_loop (\<lambda>es. filterUserEvents es su conf) asc lim hardmax opt [] 0 (work ro start_db n al) =
    (Ok [], work ro start_db (Suc n) al)"
proof -
  have "o_limit opt = lim" using assms(1) by (simp add: event_scan_def)
  then show ?thesis using assms(2)
    by (simp add: events_loop.simps find_events_def no_events_run [OF assms(1)] bind_def wrap_err_def
        filterUserEvents_def assms(3) run_simps)
qed

lemma find_events_demo: "\<exists>pg w'. FindUserEventsTask as_alice now0 0 7 (0, 0, 0) True demo = (Ok pg, w') \<and> ep_events pg = []"
proof -
  obtain uc where uc: "userCredOf (Some alice) defaultConfiguration = Ok uc" by (simp add: userCredOf_def)
  have alice: "lookupObjectUser LockRead 7 (Some alice) w = (Ok alice, w)" for w
    by (simp add: lookupObjectUser_def deriveObjectUserId_def AnonymousUserId_def alice_sels bind_def run_simps)
  have conf: "c_max_find_events defaultConfiguration = Some 100" "c_default_find_events defaultConfiguration = Some 10"
    by (simp_all add: defaultConfiguration_def)
  show ?thesis
    by (simp add: FindUserEventsTask_def read_alice bind_run revert_def deferred_def find_events_body_def alice
        alice_conf event_ends_def conf getAndValidateMaxUserEvents_def getMaxUserEvents_def getMaxConf_def bound_or_def
        no_events_loop [OF first_scan_ends [of _ True, simplified] _ uc]
        no_events_run [OF prev_scan_end(1) [of True, simplified]] cut_events_def events_result_def work_Rollback res_bind_Ok)
qed


end
