(* ===== verification/Files.thy ===== *)
theory Files
  imports Task
begin

section \<open>Working on files\<close>

text \<open>
  The operations of package os that an upload uses, on the files of the world: each may fail for
  any reason (\<open>e_io\<close>), and fails where the file it needs is not there. A file handle is the name of
  its file. Directories are not modelled.

  A function that has to clean up after itself does so with deferred calls that a flag switches
  off. At each point of such a function the flags tell which calls would run if it returned or
  panicked there; \<open>guarded\<close> runs a part of the function with the list of those calls, the last
  deferred one first.
\<close>

subsection \<open>Package os\<close>

definition file_call :: "gerr option io" where
  "file_call w = (Ok (map_option EOther (e_io (w_env w) (w_ios w))), w\<lparr>w_ios := Suc (w_ios w)\<rparr>)"

text \<open>A call whose error is wrapped into a status and returned.\<close>

definition try_file :: "(gerr option \<Rightarrow> sts) \<Rightarrow> unit io" where
  "try_file mk = bind file_call (\<lambda>e. case e of None \<Rightarrow> ret () | Some _ \<Rightarrow> fail (mk e))"

definition has_file :: "string \<Rightarrow> world \<Rightarrow> bool" where
  "has_file name w \<longleftrightarrow> name \<in> fst ` set (w_files w)"

definition content :: "string \<Rightarrow> world \<Rightarrow> string" where
  "content name w = (case map_of (w_files w) name of Some c \<Rightarrow> c | None \<Rightarrow> [])"

definition put_file :: "string \<Rightarrow> string \<Rightarrow> unit io" where
  "put_file name data = modify (\<lambda>w. w\<lparr>w_files := (name, data) # filter (\<lambda>f. fst f \<noteq> name) (w_files w)\<rparr>)"

text \<open>\<open>TempFile\<close>: an empty file under a name that is not in use, made from a random suffix.\<close>

definition TempFile :: "(nat \<Rightarrow> string) \<Rightarrow> string \<Rightarrow> string \<Rightarrow> (gerr + string) io" where
  "TempFile suffix dir prefix w =
     (let name = filepath_Join [dir, prefix @ suffix (w_ios w)]
      in bind file_call (\<lambda>e. case e of
           Some err \<Rightarrow> ret (Inl err)
         | None \<Rightarrow> bind (get_state (has_file name)) (\<lambda>used.
             if used then ret (Inl (EOther ''file exists''))
             else bind (put_file name []) (\<lambda>_. ret (Inr name)))) w)"

text \<open>\<open>io.Copy\<close> into a file of what a reader has, and the reader's error, if any.\<close>

definition copy_into :: "string \<Rightarrow> string \<times> gerr option \<Rightarrow> gerr option io" where
  "copy_into name src =
     bind file_call (\<lambda>e. case e of
         Some err \<Rightarrow> ret (Some err)
       | None \<Rightarrow> bind (put_file name (fst src)) (\<lambda>_. ret (snd src)))"

definition Rename :: "string \<Rightarrow> string \<Rightarrow> gerr option io" where
  "Rename old new w =
     bind file_call (\<lambda>e. case e of
         Some err \<Rightarrow> ret (Some err)
       | None \<Rightarrow>
           bind (get_state (has_file old)) (\<lambda>there.
             if \<not> there then ret (Some (EOther ''no such file''))
             else bind (modify (\<lambda>w. w\<lparr>w_files := (new, content old w) #
                 filter (\<lambda>f. fst f \<noteq> old \<and> fst f \<noteq> new) (w_files w)\<rparr>)) (\<lambda>_. ret None))) w"

definition Stat_size :: "string \<Rightarrow> (gerr option \<Rightarrow> sts) \<Rightarrow> int io" where
  "Stat_size name mk = bind (try_file mk) (\<lambda>_. get_state (\<lambda>w. int (length (content name w))))"

subsection \<open>Cleaning up\<close>

definition guarded :: "unit io list \<Rightarrow> 'a io \<Rightarrow> 'a io" where
  "guarded cleanups m = foldl on_failure m cleanups"

text \<open>Removing a file that is in the way of a failure.\<close>

definition drop_file :: "(gerr option \<Rightarrow> sts) \<Rightarrow> string \<Rightarrow> unit io" where
  "drop_file mk name = bind (remove_file name) (\<lambda>e. case e of None \<Rightarrow> ret () | Some _ \<Rightarrow> fail (mk e))"

subsection \<open>Frames\<close>

text \<open>All these operations change files only.\<close>

definition keeps_all_but_files :: "world \<Rightarrow> world \<Rightarrow> bool" where
  "keeps_all_but_files w w' \<longleftrightarrow> w' = w\<lparr>w_files := w_files w', w_ios := w_ios w'\<rparr>"

lemma touch_files: "keeps_all_but_files w (w\<lparr>w_files := fs\<rparr>)" "keeps_all_but_files w (w\<lparr>w_ios := n\<rparr>)"
    "keeps_all_but_files w (w\<lparr>w_ios := n, w_files := fs\<rparr>)" "keeps_all_but_files w w"
  by (simp_all add: keeps_all_but_files_def)

interpretation files: frame keeps_all_but_files
proof
  fix a b c
  show "keeps_all_but_files a a" by (rule touch_files)
  assume "keeps_all_but_files a b" "keeps_all_but_files b c"
  then show "keeps_all_but_files a c"
    by (cases a; cases b; cases c) (simp add: keeps_all_but_files_def)
qed

lemma files_keeps:
  assumes "keeps keeps_all_but_files m"
  shows "keeps keeps_fit m" "keeps keeps_base m" "keeps keeps_acct m" "keeps keeps_site m"
proof -
  have "keeps_fit w (w\<lparr>w_files := fs, w_ios := n\<rparr>) \<and> keeps_base w (w\<lparr>w_files := fs, w_ios := n\<rparr>) \<and>
      keeps_acct w (w\<lparr>w_files := fs, w_ios := n\<rparr>) \<and> keeps_site w (w\<lparr>w_files := fs, w_ios := n\<rparr>)" for w fs n
    by (auto simp: keeps_fit_def fits_def keeps_base_def acct_defs keeps_site_def split: option.splits)
  moreover have "snd (m w) = w\<lparr>w_files := w_files (snd (m w)), w_ios := w_ios (snd (m w))\<rparr>" for w
    using assms by (simp add: keeps_def keeps_all_but_files_def)
  ultimately have "keeps_fit w (snd (m w)) \<and> keeps_base w (snd (m w)) \<and> keeps_acct w (snd (m w)) \<and>
      keeps_site w (snd (m w))" for w by metis
  then show "keeps keeps_fit m" "keeps keeps_base m" "keeps keeps_acct m" "keeps keeps_site m"
    by (simp_all add: keeps_def)
qed

lemma keeps_apply: "(\<And>w. keeps K (f w)) \<Longrightarrow> keeps K (\<lambda>w. f w w)"
  by (auto simp: keeps_def)

lemma file_frames:
  "keeps keeps_all_but_files file_call" "keeps keeps_all_but_files (put_file n d)"
  "keeps keeps_all_but_files (modify (\<lambda>w. w\<lparr>w_files := f w\<rparr>))" "keeps keeps_all_but_files (remove_file n)"
  by (auto intro!: keepsI touch_files simp: file_call_def put_file_def remove_file_def run_simps Let_def
      split: option.splits if_splits)

lemma os_frames:
  "keeps keeps_all_but_files (try_file mk)" "keeps keeps_all_but_files (TempFile sfx dir prefix)"
  "keeps keeps_all_but_files (copy_into n src)" "keeps keeps_all_but_files (Rename old new)"
  "keeps keeps_all_but_files (Stat_size n mk)" "keeps keeps_all_but_files (drop_file mk n)"
proof -
  note ops = files.keeps_intros file_frames
  have opt: "keeps K a \<Longrightarrow> (\<And>x. keeps K (b x)) \<Longrightarrow> keeps K (case e of None \<Rightarrow> a | Some x \<Rightarrow> b x)"
    for K :: "world \<Rightarrow> world \<Rightarrow> bool" and a b and e :: "'x option" by (cases e) simp_all
  show t: "keeps keeps_all_but_files (try_file mk)" for mk unfolding try_file_def by (intro ops opt)
  show "keeps keeps_all_but_files (copy_into n src)" unfolding copy_into_def by (intro ops opt)
  show "keeps keeps_all_but_files (Stat_size n mk)" unfolding Stat_size_def by (intro ops t)
  show "keeps keeps_all_but_files (drop_file mk n)" unfolding drop_file_def by (intro ops opt)
  show "keeps keeps_all_but_files (TempFile sfx dir prefix)"
    unfolding TempFile_def [abs_def] Let_def by (rule keeps_apply) (intro ops opt)
  show "keeps keeps_all_but_files (Rename old new)"
    unfolding Rename_def [abs_def] by (rule keeps_apply) (intro ops opt)
qed

lemmas file_ops = files.keeps_intros file_frames os_frames

lemma keeps_guarded:
  assumes "frame K" "keeps K m" "\<And>c. c \<in> set cs \<Longrightarrow> keeps K c"
  shows "keeps K (guarded cs m)"
  using assms(2,3) unfolding guarded_def
  by (induction cs arbitrary: m) (auto intro: frame.keeps_on_failure [OF assms(1)])

end
