(* ===== verification/FileNames.thy ===== *)
theory FileNames
  imports Task TextValid Votes
begin

section \<open>Names and addresses of an upload (be/tasks/upsert_pic_task.go)\<close>

text \<open>
  What an upload checks before it reads the file: the address to download from, the referrer,
  and the names proposed for the file. Parsing and printing of addresses (package net/url) and of
  media types (package mime) are arguments.
\<close>

record url =
  url_scheme :: string
  url_userinfo :: bool
  url_path :: string
  url_fragment :: string
  url_rest :: string

record netlib =
  nl_parse :: "string \<Rightarrow> gerr + url"
  nl_string :: "url \<Rightarrow> string"
  nl_media :: "string \<Rightarrow> gerr + (string \<times> string) list"

subsection \<open>Limits\<close>

definition confUrlLen :: "configuration \<Rightarrow> int \<times> int" where
  "confUrlLen conf = (bound_or min_int64 (c_min_url conf), bound_or max_int64 (c_max_url conf))"

definition confFileNameLen :: "configuration \<Rightarrow> int \<times> int" where
  "confFileNameLen conf =
     (bound_or min_int64 (c_min_file_name conf), bound_or max_int64 (c_max_file_name conf))"

subsection \<open>Addresses\<close>

definition validateAndNormalizeURL :: "textlib \<Rightarrow> netlib \<Rightarrow> string \<Rightarrow> int \<Rightarrow> int \<Rightarrow> url res" where
  "validateAndNormalizeURL tlib nl rawurl mn mx =
     res_bind (DefaultValidateNoNewlineAndNormalize tlib rawurl ''url'' mn mx []) (\<lambda>normrawurl.
     (case nl_parse nl normrawurl of
        Inl err \<Rightarrow> Err (InvalidArgument (Some err) ''can't parse'')
      | Inr loc \<Rightarrow>
          (if url_scheme loc \<noteq> ''http'' \<and> url_scheme loc \<noteq> ''https''
             then Err (InvalidArgument None ''can't use non-HTTP'')
           else if url_userinfo loc then Err (InvalidArgument None ''can't provide userinfo'')
           else (case DefaultValidateNoNewlineAndNormalize tlib (nl_string nl loc) ''url'' mn mx [] of
               Err e \<Rightarrow> Err (InvalidArgument (Some (EStatus e)) ''can't reparse'')
             | Panic p \<Rightarrow> Panic p
             | Ok rturl \<Rightarrow>
                 (if rturl \<noteq> nl_string nl loc then Err (InvalidArgument None ''can't normalize url'')
                  else Ok loc)))))"

definition checkUrls :: "textlib \<Rightarrow> netlib \<Rightarrow> string \<Rightarrow> string \<Rightarrow> configuration \<Rightarrow> (url option \<times> url option) res" where
  "checkUrls tlib nl furl furlref conf =
     (if furl = [] then Ok (None, None)
      else let (mn, mx) = confUrlLen conf
        in res_bind (validateAndNormalizeURL tlib nl furl mn mx) (\<lambda>fu.
           res_bind (validateAndNormalizeURL tlib nl (nl_string nl (fu\<lparr>url_fragment := []\<rparr>)) mn mx) (\<lambda>fu2.
             if furlref = [] then Ok (Some fu2, None)
             else res_bind (validateAndNormalizeURL tlib nl furlref mn mx) (\<lambda>r. Ok (Some fu2, Some r)))))"

subsection \<open>File names\<close>

text \<open>\<open>path.Base\<close> of the standard library.\<close>

definition path_Base :: "string \<Rightarrow> string" where
  "path_Base p =
     (if p = [] then ''.''
      else let t = rev (dropWhile (\<lambda>c. c = CHR ''/'') (rev p));
               b = rev (takeWhile (\<lambda>c. c \<noteq> CHR ''/'') (rev t))
           in if b = [] then ''/'' else b)"

fun special_loop :: "(nat \<times> string) list \<Rightarrow> sts option" where
  "special_loop [] = None"
| "special_loop (r # rs) =
     (if fst r = 0x2F \<or> fst r = 0x5C \<or> fst r = 0 then Some (InvalidArgument None ''invalid rune %U in %s'')
      else special_loop rs)"

definition forbidSpecialChars :: validator where
  "forbidSpecialChars txt field = special_loop (runes txt)"

definition isBaseName :: validator where
  "isBaseName txt field =
     (if path_Base txt \<noteq> txt then Some (InvalidArgument None ''invalid base name %s'') else None)"

definition ValidateAndNormalizeMulti ::
    "string \<Rightarrow> string \<Rightarrow> normalizer list \<Rightarrow> validator list \<Rightarrow> string res" where
  "ValidateAndNormalizeMulti txt field ns vs = validateAndNormalize txt field ns vs vs"

definition validateAndNormalizeFileName :: "textlib \<Rightarrow> string \<Rightarrow> string \<Rightarrow> int \<Rightarrow> int \<Rightarrow> string res" where
  "validateAndNormalizeFileName tlib rawname field mn mx =
     ValidateAndNormalizeMulti rawname field [ToNFC tlib, trimSpace]
       [DefaultValidator mn mx, validateNoNewlines, forbidSpecialChars, isBaseName]"

definition parseUrlName :: "url \<Rightarrow> string" where
  "parseUrlName loc =
     (if url_path loc \<noteq> [] \<and> last (url_path loc) = CHR ''/'' then []
      else if path_Base (url_path loc) \<noteq> ''.'' then path_Base (url_path loc) else [])"

text \<open>The file name a response proposes, or the error in its header; \<open>params\<close> is an association list.\<close>

definition parseContentDisposition :: "netlib \<Rightarrow> string list option \<Rightarrow> (sts + string) option" where
  "parseContentDisposition nl header =
     (case header of
        None \<Rightarrow> None
      | Some [] \<Rightarrow> None
      | Some (v # vs) \<Rightarrow>
          (case nl_media nl v of
             Inl err \<Rightarrow> Some (Inl (InvalidArgument (Some err) ''can't parse content disposition''))
           | Inr params \<Rightarrow> map_option Inr (map_of params ''filename'')))"

text \<open>A proposed name counts only if it is acceptable.\<close>

fun acceptable_name :: "string res \<Rightarrow> string list res" where
  "acceptable_name (Ok name) = Ok [name]"
| "acceptable_name (Err e) = Ok []"
| "acceptable_name (Panic p) = Panic p"

text \<open>The names from the download: what the response says, then the end of the address.\<close>

definition remote_names :: "(string \<Rightarrow> string \<Rightarrow> string res) \<Rightarrow> (sts + string) option \<Rightarrow> url \<Rightarrow> string list res" where
  "remote_names checkName disName loc =
     res_bind (case disName of
         Some (Inr name) \<Rightarrow> acceptable_name (checkName name ''disposition'')
       | _ \<Rightarrow> Ok []) (\<lambda>ns.
     res_bind (acceptable_name (checkName (parseUrlName loc) ''urlname'')) (\<lambda>ms. Ok (ns @ ms)))"

subsection \<open>Facts\<close>

lemma special_loop_None: "special_loop rs = None \<longleftrightarrow> (\<forall>r \<in> set rs. fst r \<notin> {0x2F, 0x5C, 0})"
  by (induction rs) auto

end
