(* ===== verification/Upload.thy ===== *)
theory Upload
  imports Files FileNames Notify Lookup
begin

section \<open>Uploading a picture (be/tasks/upsert_pic_task.go)\<close>

text \<open>
  \<open>UpsertPicTask\<close> reads a file, from the client or from an address, into a temporary file, hashes
  it and decodes it. If a picture with the same contents exists, the new source is merged into it;
  otherwise (or if that picture's file was deleted for a time only) the file, its thumbnail and, for a
  video, its conversion to the other video format are put in their places.

  Decoding, scaling and converting (package imaging over ImageMagick and ffmpeg), the hashes of
  package crypto and the download (package net/http) are arguments; reading a file twice gives the
  same bytes.
\<close>

subsection \<open>Images (be/imaging/imaging.go)\<close>

abbreviation (input) "DefaultWebmFormat \<equiv> ''WEBM''"
abbreviation (input) "DefaultMp4Format \<equiv> ''MP4''"

definition IsGif :: "string \<Rightarrow> bool" where "IsGif f \<longleftrightarrow> f = ''GIF'' \<or> f = ''GIF87''"
definition IsJpeg :: "string \<Rightarrow> bool" where "IsJpeg f \<longleftrightarrow> f = ''JPE'' \<or> f = ''JPEG'' \<or> f = ''JPG''"
definition IsPng :: "string \<Rightarrow> bool" where
  "IsPng f \<longleftrightarrow> f = ''PNG'' \<or> f = ''PNG24'' \<or> f = ''PNG32'' \<or> f = ''PNG8''"
definition IsWebm :: "string \<Rightarrow> bool" where "IsWebm f \<longleftrightarrow> f = ''WEBM''"
definition IsMp4 :: "string \<Rightarrow> bool" where "IsMp4 f \<longleftrightarrow> f = ''MP4''"

text \<open>A decoded image: what the methods of \<open>PixurImage\<close> answer; \<open>im_write\<close> is its encoding.\<close>

record image =
  im_format :: string
  im_width :: int
  im_height :: int
  im_duration :: "int option res"
  im_phash :: "(string \<times> int list) res"
  im_write :: "string res"

record imaging =
  ig_image :: "string \<Rightarrow> image res"
  ig_video :: "string \<Rightarrow> image res"
  ig_thumbnail :: "image \<Rightarrow> image res"
  ig_convert :: "string \<Rightarrow> string \<Rightarrow> (image \<times> string) res"

definition ebmlHeader :: string where
  "ebmlHeader = [char_of (0x1a :: nat), char_of (0x45 :: nat), char_of (0xdf :: nat), char_of (0xa3 :: nat)]"

definition movHeader :: string where
  "movHeader = [char_of (0 :: nat), char_of (0 :: nat), char_of (0 :: nat), char_of (0x20 :: nat)]"

definition ReadImage :: "imaging \<Rightarrow> string \<Rightarrow> image res" where
  "ReadImage ig data =
     (if length data < 4 then Err (InvalidArgument (Some (EOther ''EOF'')) ''unable to read first 4 bytes'')
      else if take 4 data = ebmlHeader \<or> take 4 data = movHeader then ig_video ig data
      else ig_image ig data)"

abbreviation (input) "Mime_JPEG \<equiv> (1 :: int)"
abbreviation (input) "Mime_GIF \<equiv> (2 :: int)"
abbreviation (input) "Mime_PNG \<equiv> (3 :: int)"
abbreviation (input) "Mime_WEBM \<equiv> (4 :: int)"
abbreviation (input) "Mime_MP4 \<equiv> (5 :: int)"

definition imageFormatToMime :: "string \<Rightarrow> int res" where
  "imageFormatToMime f =
     (if IsJpeg f then Ok Mime_JPEG else if IsGif f then Ok Mime_GIF else if IsPng f then Ok Mime_PNG
      else if IsWebm f then Ok Mime_WEBM else if IsMp4 f then Ok Mime_MP4
      else Err (InvalidArgument None ''unknown image type''))"

definition is_video :: "int \<Rightarrow> bool" where
  "is_video mime \<longleftrightarrow> mime = Mime_WEBM \<or> mime = Mime_MP4"

subsection \<open>What the task is given\<close>

record response =
  hr_status :: int
  hr_disposition :: "string list option"
  hr_body :: "string \<times> gerr option"
  hr_close :: "gerr option"

record upload_deps =
  ud_pixPath :: string
  ud_suffix :: "nat \<Rightarrow> string"
  ud_net :: netlib
  ud_request :: "string \<Rightarrow> gerr option"
  ud_http :: "string \<Rightarrow> string option \<Rightarrow> gerr + response"
  ud_md5 :: "string \<Rightarrow> string"
  ud_sha1 :: "string \<Rightarrow> string"
  ud_sha512_256 :: "string \<Rightarrow> string"
  ud_imaging :: imaging

text \<open>An open file of the client: the errors of the two seeks, and what reading gives.\<close>

record reader =
  rd_seek :: "gerr option"
  rd_data :: "string \<times> gerr option"
  rd_back :: "gerr option"

record upload =
  up_url :: string
  up_referrer :: string
  up_file :: "reader option"
  up_md5 :: string
  up_name :: string
  up_ext :: extmap

subsection \<open>Temporary files\<close>

definition tempFile :: "upload_deps \<Rightarrow> string io" where
  "tempFile dp = bind (TempFile (ud_suffix dp) (ud_pixPath dp) ''__'') (\<lambda>r.
     case r of Inl err \<Rightarrow> fail (Internal (Some err) ''can't create tempfile'') | Inr f \<Rightarrow> ret f)"

definition cleanup_temp :: "string \<Rightarrow> unit io list" where
  "cleanup_temp f = [try_file (\<lambda>e. Internal e ''can't close tempfile''),
     drop_file (\<lambda>e. Internal e ''can't remove tempfile'') f]"

definition prepareFile :: "upload_deps \<Rightarrow> (string \<Rightarrow> 'a io) \<Rightarrow> (string \<times> 'a) io" where
  "prepareFile dp move =
     bind (tempFile dp) (\<lambda>f. guarded (cleanup_temp f)
       (bind (move f) (\<lambda>x. bind (try_file (\<lambda>e. Internal e ''can't sync file'')) (\<lambda>_. ret (f, x)))))"

text \<open>Copying into the file, and the number of bytes copied.\<close>

definition fill :: "(gerr option \<Rightarrow> sts) \<Rightarrow> string \<times> gerr option \<Rightarrow> string \<Rightarrow> int io" where
  "fill mk src f =
     bind (copy_into f src) (\<lambda>e. case e of None \<Rightarrow> ret (int (length (fst src))) | Some _ \<Rightarrow> fail (mk e))"

definition report :: "(gerr option \<Rightarrow> sts) \<Rightarrow> gerr option \<Rightarrow> unit io" where
  "report mk e = (case e of None \<Rightarrow> ret () | Some _ \<Rightarrow> fail (mk e))"

definition prepareLocalFile :: "upload_deps \<Rightarrow> reader \<Rightarrow> (string \<times> int) io" where
  "prepareLocalFile dp r =
     bind (report (\<lambda>e. Internal e ''can't seek'') (rd_seek r)) (\<lambda>_.
       deferred (prepareFile dp (fill (\<lambda>e. Internal e ''can't copy file'') (rd_data r)))
         (report (\<lambda>e. Internal e ''can't seek'') (rd_back r)))"

definition prepareRemoteFile :: "upload_deps \<Rightarrow> url \<Rightarrow> url option \<Rightarrow> (string \<times> int \<times> (sts + string) option) io" where
  "prepareRemoteFile dp loc ref =
     (let str = nl_string (ud_net dp)
      in bind (report (\<lambda>e. Internal e ''can't create request'') (ud_request dp (str loc))) (\<lambda>_.
         (case ud_http dp (str loc) (map_option (\<lambda>r. str (r\<lparr>url_fragment := []\<rparr>)) ref) of
            Inl err \<Rightarrow> fail (InvalidArgument (Some err) ''can't download'')
          | Inr resp \<Rightarrow>
              deferred
                (bind (check (hr_status resp = 200) (InvalidArgument None ''can't download %s [%d]'')) (\<lambda>_.
                 bind (prepareFile dp (fill (\<lambda>e. InvalidArgument e ''can't copy file'') (hr_body resp))) (\<lambda>(f, sz).
                   ret (f, sz, parseContentDisposition (ud_net dp) (hr_disposition resp)))))
                (report (\<lambda>e. Internal e ''can't close url req'') (hr_close resp)))))"

text \<open>The temporary file with the upload, its size, and the names proposed for it.\<close>

definition fetch :: "upload_deps \<Rightarrow> (string \<Rightarrow> string \<Rightarrow> string res) \<Rightarrow> upload \<Rightarrow> url option \<Rightarrow> url option \<Rightarrow>
    string list \<Rightarrow> (string \<times> int \<times> string list) io" where
  "fetch dp checkName inp loc ref names =
     (case up_file inp of
        Some r \<Rightarrow> bind (prepareLocalFile dp r) (\<lambda>(f, sz). ret (f, sz, names))
      | None \<Rightarrow>
          (case loc of
             Some l \<Rightarrow>
               bind (prepareRemoteFile dp l ref) (\<lambda>(f, sz, disName).
               bind (lift_res (remote_names checkName disName l)) (\<lambda>more. ret (f, sz, names @ more)))
           | None \<Rightarrow> fail (InvalidArgument None ''no pic specified'')))"

subsection \<open>Reading the upload\<close>

definition generatePicHashes :: "string \<Rightarrow> int \<Rightarrow> (string \<Rightarrow> string) list \<Rightarrow> string list io" where
  "generatePicHashes f sz fns =
     bind (try_file (\<lambda>e. Internal e ''can't copy'')) (\<lambda>_.
       get_state (\<lambda>w. map (\<lambda>h. h (take (nat sz) (content f w))) fns))"

definition findExistingPic :: "int \<Rightarrow> string \<Rightarrow> pic option io" where
  "findExistingPic typ hash =
     bind (wrap_err (\<lambda>e. Internal e ''can't find pic idents'')
       (FindPicIdents (no_opts\<lparr>o_prefix := Some (PicIdentsIdent (Some typ) (Some hash)), o_lock := LockWrite,
          o_limit := 1\<rparr>))) (\<lambda>pis.
     (case pis of
        [] \<Rightarrow> ret None
      | pi # _ \<Rightarrow>
          bind (wrap_err (\<lambda>e. Internal e ''can't find pics'') (FindPics (pic_opts (pi_pic pi)))) (\<lambda>pics.
          (case pics of [p] \<Rightarrow> ret (Some p) | _ \<Rightarrow> fail (Internal None ''can't lookup pic'')))))"

abbreviation (input) "PicIdent_SHA1 \<equiv> (2 :: int)"
abbreviation (input) "PicIdent_MD5 \<equiv> (3 :: int)"
abbreviation (input) "PicIdent_SHA512_256 \<equiv> (5 :: int)"

definition ident :: "int \<Rightarrow> int \<Rightarrow> string \<Rightarrow> int list \<Rightarrow> pic_ident" where
  "ident picId typ hash dct = \<lparr>pi_pic = picId, pi_type = typ, pi_value = hash, pi_dct = dct\<rparr>"

definition insertPicHashes :: "int \<Rightarrow> string \<Rightarrow> string \<Rightarrow> string \<Rightarrow> unit io" where
  "insertPicHashes picId md5Hash sha1Hash sha512_256Hash =
     bind (wrap_err (\<lambda>e. Internal e ''can't create md5'') (InsertPicIdent (ident picId PicIdent_MD5 md5Hash []))) (\<lambda>_.
     bind (wrap_err (\<lambda>e. Internal e ''can't create sha1'') (InsertPicIdent (ident picId PicIdent_SHA1 sha1Hash []))) (\<lambda>_.
       wrap_err (\<lambda>e. Internal e ''can't create sha512_256'')
         (InsertPicIdent (ident picId PicIdent_SHA512_256 sha512_256Hash []))))"

definition insertPerceptualHash :: "int \<Rightarrow> image \<Rightarrow> unit io" where
  "insertPerceptualHash picId im =
     bind (lift_res (im_phash im)) (\<lambda>(hash, inputs).
       wrap_err (\<lambda>e. Internal e ''can't create dct0'') (InsertPicIdent (ident picId PicIdent_DCT_0 hash inputs)))"

subsection \<open>Files of a picture\<close>

function free_index :: "int list \<Rightarrow> int \<Rightarrow> int" where
  "free_index used i = (if i \<in> set used then free_index used (i + 1) else i)"
  by pat_completeness auto
termination
proof (relation "measure (\<lambda>(used, i). card {u \<in> set used. i \<le> u})")
  fix used :: "int list" and i
  assume "i \<in> set used"
  then have "i \<in> {u \<in> set used. i \<le> u}" "i \<notin> {u \<in> set used. i + 1 \<le> u}" by simp_all
  then have "{u \<in> set used. i + 1 \<le> u} \<noteq> {u \<in> set used. i \<le> u}" by blast
  then have "{u \<in> set used. i + 1 \<le> u} \<subset> {u \<in> set used. i \<le> u}" by (intro psubsetI) auto
  from psubset_card_mono [OF _ this] show "((used, i + 1), used, i) \<in> measure (\<lambda>(used, i). card {u \<in> set used. i \<le> u})"
    by simp
qed simp

declare free_index.simps [simp del]

definition nextPicFileIndex :: "pic_file list \<Rightarrow> pic_file list \<Rightarrow> int res" where
  "nextPicFileIndex thumbs derived =
     (let used = map pf_index (thumbs @ derived)
      in if \<not> distinct used then Panic ''index already used'' else Ok (free_index used 0))"

definition animation_of :: "int option \<Rightarrow> animation option" where
  "animation_of dur = map_option (\<lambda>d. \<lparr>anim_duration = Some d\<rparr>) dur"

definition file_record :: "int \<Rightarrow> int \<Rightarrow> int \<Rightarrow> image \<Rightarrow> int option \<Rightarrow> tspb \<Rightarrow> pic_file" where
  "file_record idx sz mime im dur nowts =
     \<lparr>pf_index = idx, pf_size = sz, pf_mime = mime, pf_width = im_width im, pf_height = im_height im,
      pf_created = Some nowts, pf_modified = Some nowts, pf_anim = animation_of dur\<rparr>"

text \<open>Videos may not be longer than configured.\<close>

definition check_duration :: "configuration \<Rightarrow> int \<Rightarrow> int option \<Rightarrow> unit res" where
  "check_duration conf mime dur =
     (case dur of
        None \<Rightarrow> Ok ()
      | Some d \<Rightarrow>
          (if is_video mime
           then (case c_max_video conf of
               None \<Rightarrow> Ok ()
             | Some m \<Rightarrow>
                 (if \<not> int64 m then Err (Internal (Some (EOther ''duration out of range'')) ''can't parse max duration'')
                  else if d > m then Err (InvalidArgument None ''duration %v exceeds max %v'') else Ok ()))
           else Ok ()))"

subsection \<open>Merging\<close>

definition has_source :: "file_source \<Rightarrow> file_source list \<Rightarrow> bool" where
  "has_source pfs srcs \<longleftrightarrow> list_ex (\<lambda>s. fs_url s = fs_url pfs \<or>
     fs_user s \<noteq> AnonymousUserId \<and> fs_user s = fs_user pfs) srcs"

definition undelete :: "pic \<Rightarrow> pic" where
  "undelete p = (case p_del p of Some ds \<Rightarrow> (if ds_temporary ds then p\<lparr>p_del := None\<rparr> else p) | None \<Rightarrow> p)"

definition merge_ext :: "extmap \<Rightarrow> extmap \<Rightarrow> extmap res" where
  "merge_ext old ext =
     (if list_ex (\<lambda>(k, v). k \<in> fst ` set old) ext
      then Err (InvalidArgument None ''duplicate key %v in extension map'') else Ok (old @ ext))"

text \<open>The event of the uploader, told once for new information.\<close>

definition upsert_event :: "int \<Rightarrow> int \<Rightarrow> tspb \<Rightarrow> int \<Rightarrow> user_event" where
  "upsert_event userId picId nowts idx =
     \<lparr>ue_user = userId, ue_index = idx, ue_created = Some nowts, ue_modified = Some nowts,
      ue_evt = UpsertPicEvt picId\<rparr>"

definition tell_uploader :: "int \<Rightarrow> int \<Rightarrow> tspb \<Rightarrow> unit io" where
  "tell_uploader userId picId nowts =
     (if userId = AnonymousUserId then ret ()
      else bind (lift_res (UserEventCreatedTsCol (Some nowts))) (\<lambda>createdTs.
        bind (nextUserEventIndex userId createdTs) (\<lambda>idx.
          wrap_err (\<lambda>e. Internal e ''can't create user event'')
            (InsertUserEvent (upsert_event userId picId nowts idx)))))"

definition mergePic :: "pic \<Rightarrow> tspb \<Rightarrow> file_source \<Rightarrow> int \<Rightarrow> extmap \<Rightarrow> pic io" where
  "mergePic p nowts pfs userId ext =
     (let p1 = undelete (p\<lparr>p_modified := Some nowts\<rparr>);
          known = has_source pfs (p_source p1);
          p2 = (if known then p1 else p1\<lparr>p_source := p_source p1 @ [pfs]\<rparr>)
      in bind (if known then ret () else tell_uploader userId (p_id p) nowts) (\<lambda>_.
         bind (lift_res (merge_ext (p_ext p2) ext)) (\<lambda>x.
         bind (wrap_err (\<lambda>e. Internal e ''can't update pic'') (UpdatePic (p2\<lparr>p_ext := x\<rparr>))) (\<lambda>_.
           ret (p2\<lparr>p_ext := x\<rparr>)))))"

subsection \<open>Looking for the picture\<close>

text \<open>What is known of the upload once its contents have been looked at.\<close>

record inspected =
  in_ts :: tspb
  in_src :: file_source
  in_image :: image
  in_mime :: int
  in_pic :: pic
  in_merge :: bool

definition source_of :: "upload_deps \<Rightarrow> tspb \<Rightarrow> int \<Rightarrow> url option \<Rightarrow> url option \<Rightarrow> string list \<Rightarrow> file_source" where
  "source_of dp nowts userId loc ref names =
     (let str = (\<lambda>u. case u of None \<Rightarrow> [] | Some l \<Rightarrow> nl_string (ud_net dp) l)
      in \<lparr>fs_url = str loc, fs_referrer = str ref, fs_created = Some nowts, fs_user = userId,
          fs_name = (case names of [] \<Rightarrow> [] | n # _ \<Rightarrow> n)\<rparr>)"

definition new_pic :: "int \<Rightarrow> pic_file \<Rightarrow> tspb \<Rightarrow> pic" where
  "new_pic picId file nowts =
     \<lparr>p_id = picId, p_file = Some file, p_created = Some nowts, p_modified = Some nowts, p_del = None,
      p_views = 0, p_source = [], p_up = 0, p_down = 0, p_ext = [], p_thumb = [], p_derived = []\<rparr>"

definition insert_new :: "string list \<Rightarrow> int \<Rightarrow> int \<Rightarrow> image \<Rightarrow> int option \<Rightarrow> tspb \<Rightarrow> pic io" where
  "insert_new hashes sz mime im dur nowts =
     bind (wrap_err (\<lambda>e. Internal e ''can't allocate id'') AllocId) (\<lambda>picId.
     bind (wrap_err (\<lambda>e. Internal e ''can't insert'')
       (InsertPic (new_pic picId (file_record 0 sz mime im dur nowts) nowts))) (\<lambda>_.
     bind (insertPicHashes picId (hashes ! 0) (hashes ! 1) (hashes ! 2)) (\<lambda>_.
     bind (insertPerceptualHash picId im) (\<lambda>_.
       ret (new_pic picId (file_record 0 sz mime im dur nowts) nowts)))))"

text \<open>The picture to work on, and whether the upload only adds to what is there.\<close>

definition find_or_insert :: "string list \<Rightarrow> int \<Rightarrow> int \<Rightarrow> image \<Rightarrow> int option \<Rightarrow> tspb \<Rightarrow> (pic \<times> bool) io" where
  "find_or_insert hashes sz mime im dur nowts =
     bind (findExistingPic PicIdent_SHA512_256 (hashes ! 2)) (\<lambda>old.
     (case old of
        Some p \<Rightarrow>
          (if HardDeleted p
           then bind (check (case p_del p of Some ds \<Rightarrow> ds_temporary ds | None \<Rightarrow> False)
               (InvalidArgument None ''can't upload deleted pic'')) (\<lambda>_. ret (p, False))
           else ret (p, True))
      | None \<Rightarrow> bind (insert_new hashes sz mime im dur nowts) (\<lambda>p. ret (p, False))))"

definition inspect :: "upload_deps \<Rightarrow> configuration \<Rightarrow> int \<Rightarrow> upload \<Rightarrow> int \<Rightarrow> url option \<Rightarrow> url option \<Rightarrow>
    string \<times> int \<times> string list \<Rightarrow> inspected io" where
  "inspect dp conf now inp userId loc ref fetched =
     (case fetched of (f, sz, names) \<Rightarrow>
        bind (lift_res (ToTspb now)) (\<lambda>nowts.
        bind (generatePicHashes f sz [ud_md5 dp, ud_sha1 dp, ud_sha512_256 dp]) (\<lambda>hashes.
        bind (check (up_md5 inp = [] \<or> up_md5 inp = hashes ! 0)
          (InvalidArgument None ''md5 hash mismatch %x != %x'')) (\<lambda>_.
        bind (get_state (\<lambda>w. take (nat sz) (content f w))) (\<lambda>data.
        bind (lift_res (ReadImage (ud_imaging dp) data)) (\<lambda>im.
        bind (lift_res (imageFormatToMime (im_format im))) (\<lambda>mime.
        bind (lift_res (im_duration im)) (\<lambda>dur.
        bind (lift_res (check_duration conf mime dur)) (\<lambda>_.
        bind (find_or_insert hashes sz mime im dur nowts) (\<lambda>(p, merge).
          ret \<lparr>in_ts = nowts, in_src = source_of dp nowts userId loc ref names, in_image = im,
            in_mime = mime, in_pic = p, in_merge = merge\<rparr>))))))))))"

subsection \<open>Storing the files\<close>

definition remove_new :: "string \<Rightarrow> unit io" where
  "remove_new path = drop_file (\<lambda>e. Internal e ''can't remove'') path"

definition give_up :: "sts \<Rightarrow> string \<Rightarrow> unit io" where
  "give_up s f = bind (remove_file f) (\<lambda>e.
     case e of None \<Rightarrow> fail s
     | Some err \<Rightarrow> fail (WithSuppressed s [EStatus (Internal (Some err) ''can't remove'')]))"

text \<open>Closing a temporary file and moving it to its place.\<close>

definition move_file :: "string \<Rightarrow> string \<Rightarrow> unit io" where
  "move_file f new =
     bind file_call (\<lambda>e. case e of
         Some err \<Rightarrow> give_up (Internal (Some err) ''can't close'') f
       | None \<Rightarrow>
           bind (Rename f new) (\<lambda>e. case e of
               Some err \<Rightarrow> give_up (Internal (Some err) ''can't rename %v to %v'') f
             | None \<Rightarrow> ret ()))"

text \<open>The conversion of a video to the other format: its temporary file, if any, and the picture.\<close>

definition add_derived :: "upload_deps \<Rightarrow> string \<Rightarrow> int \<Rightarrow> inspected \<Rightarrow> (pic \<times> string option) io" where
  "add_derived dp f sz ins =
     (if \<not> is_video (in_mime ins) then ret (in_pic ins, None)
      else
        bind (guarded (cleanup_temp f) (prepareFile dp (\<lambda>fd.
          bind (get_state (\<lambda>w. take (nat sz) (content f w))) (\<lambda>data.
          bind (lift_res (ig_convert (ud_imaging dp)
            (if in_mime ins = Mime_WEBM then DefaultMp4Format else DefaultWebmFormat) data)) (\<lambda>(derived, out).
          bind (put_file fd out) (\<lambda>_. ret derived)))))) (\<lambda>(fd, derived).
        guarded (cleanup_temp fd @ cleanup_temp f)
          (bind (Stat_size fd (\<lambda>e. Internal e ''unable to stat derived file'')) (\<lambda>dsize.
           bind (lift_res (imageFormatToMime (im_format derived))) (\<lambda>dmime.
           bind (lift_res (im_duration derived)) (\<lambda>dur.
           bind (lift_res (nextPicFileIndex (p_thumb (in_pic ins)) (p_derived (in_pic ins)))) (\<lambda>idx.
             ret ((in_pic ins)\<lparr>p_derived := p_derived (in_pic ins) @
               [file_record idx dsize dmime derived dur (in_ts ins)]\<rparr>, Some fd))))))))"

definition cleanup_derived :: "string option \<Rightarrow> unit io list" where
  "cleanup_derived d = (case d of None \<Rightarrow> [] | Some fd \<Rightarrow> cleanup_temp fd)"

text \<open>The thumbnail in its temporary file, its mime type and duration.\<close>

definition make_thumbnail :: "upload_deps \<Rightarrow> inspected \<Rightarrow> (string \<times> image \<times> int \<times> int option) io" where
  "make_thumbnail dp ins =
     bind (lift_res (ig_thumbnail (ud_imaging dp) (in_image ins))) (\<lambda>thumb.
     bind (lift_res (imageFormatToMime (im_format thumb))) (\<lambda>mime.
     bind (lift_res (im_duration thumb)) (\<lambda>dur.
     bind (prepareFile dp (\<lambda>ft. bind (lift_res (im_write thumb)) (\<lambda>out. put_file ft out))) (\<lambda>(ft, _).
       ret (ft, thumb, mime, dur)))))"

text \<open>The picture with its thumbnail, stored in the database, and the place of its file.\<close>

definition enter_pic :: "upload_deps \<Rightarrow> extmap \<Rightarrow> int \<Rightarrow> inspected \<Rightarrow> pic \<Rightarrow> string \<times> image \<times> int \<times> int option \<Rightarrow>
    (pic \<times> string) io" where
  "enter_pic dp ext userId ins p th =
     (case th of (ft, thumb, mime, dur) \<Rightarrow>
        bind (Stat_size ft (\<lambda>e. Internal e ''unable to stat thumbnail'')) (\<lambda>tsize.
        bind (lift_res (nextPicFileIndex (p_thumb p) (p_derived p))) (\<lambda>idx.
        bind (mergePic (p\<lparr>p_thumb := p_thumb p @ [file_record idx tsize mime thumb dur (in_ts ins)]\<rparr>)
          (in_ts ins) (in_src ins) userId ext) (\<lambda>p'.
        bind (try_file (\<lambda>e. Internal e ''Can't prepare pic dir'')) (\<lambda>_.
        bind (case p_file p' of None \<Rightarrow> panic ''nil pointer dereference''
              | Some file \<Rightarrow> lift_res (PicFilePath (ud_pixPath dp) (p_id p') (pf_mime file))) (\<lambda>newpath.
          ret (p', newpath)))))))"

definition derived_path :: "upload_deps \<Rightarrow> pic \<Rightarrow> pic_file \<Rightarrow> string res" where
  "derived_path dp p pf = PicFileDerivedPath (ud_pixPath dp) (p_id p) (pf_index pf) (pf_mime pf)"

text \<open>The deferred calls that are on are listed at each step; none is on at the commit.\<close>

definition place_files :: "upload_deps \<Rightarrow> pic \<Rightarrow> string \<Rightarrow> string \<Rightarrow> string option \<Rightarrow> string \<Rightarrow> unit io" where
  "place_files dp p f ft d newpath =
     bind (guarded (cleanup_temp ft @ cleanup_derived d) (move_file f newpath)) (\<lambda>_.
     bind (guarded (remove_new newpath # cleanup_temp ft @ cleanup_derived d)
       (lift_res (derived_path dp p (last (p_thumb p))))) (\<lambda>newthumb.
     bind (guarded (remove_new newpath # cleanup_derived d) (move_file ft newthumb)) (\<lambda>_.
       if p_derived p = [] then ret ()
       else
         bind (guarded (remove_new newthumb # remove_new newpath # cleanup_derived d)
           (lift_res (derived_path dp p (last (p_derived p))))) (\<lambda>newderived.
         guarded [remove_new newthumb, remove_new newpath]
           (case d of None \<Rightarrow> panic ''nil pointer dereference'' | Some fd \<Rightarrow> move_file fd newderived)))))"

definition store_new :: "upload_deps \<Rightarrow> configuration \<Rightarrow> user option \<Rightarrow> extmap \<Rightarrow> string \<Rightarrow> int \<Rightarrow> inspected \<Rightarrow> pic io" where
  "store_new dp conf u ext f sz ins =
     bind (add_derived dp f sz ins) (\<lambda>(p, d).
     bind (guarded (cleanup_derived d @ cleanup_temp f) (make_thumbnail dp ins)) (\<lambda>th.
     bind (guarded (cleanup_temp (fst th) @ cleanup_derived d @ cleanup_temp f)
       (enter_pic dp ext (subject_id u) ins p th)) (\<lambda>(p', newpath).
     bind (place_files dp p' f (fst th) d newpath) (\<lambda>_.
     bind (wrap_err (\<lambda>e. Internal e ''can't commit'') Commit) (\<lambda>_. ret p')))))"

definition merge_known :: "extmap \<Rightarrow> user option \<Rightarrow> inspected \<Rightarrow> pic io" where
  "merge_known ext u ins =
     bind (mergePic (in_pic ins) (in_ts ins) (in_src ins) (subject_id u) ext) (\<lambda>p.
     bind (wrap_err (\<lambda>e. Internal e ''can't commit'') Commit) (\<lambda>_. ret p))"

subsection \<open>The task\<close>

definition take_in :: "upload_deps \<Rightarrow> configuration \<Rightarrow> int \<Rightarrow> upload \<Rightarrow> user option \<Rightarrow> url option \<Rightarrow> url option \<Rightarrow>
    (string \<Rightarrow> string \<Rightarrow> string res) \<Rightarrow> string list \<Rightarrow> pic io" where
  "take_in dp conf now inp u loc ref checkName names =
     bind (fetch dp checkName inp loc ref names) (\<lambda>(f, sz, names).
     bind (guarded (cleanup_temp f) (inspect dp conf now inp (subject_id u) loc ref (f, sz, names))) (\<lambda>ins.
       if in_merge ins then foldl deferred (merge_known (up_ext inp) u ins) (cleanup_temp f)
       else store_new dp conf u (up_ext inp) f sz ins))"

definition upsert_body :: "upload_deps \<Rightarrow> ctx \<Rightarrow> int \<Rightarrow> upload \<Rightarrow> user option \<Rightarrow> (pic \<times> pic) io" where
  "upsert_body dp cx now inp u =
     bind (GetConfiguration cx) (\<lambda>conf.
     bind (lift_res (validateCapability u conf [PIC_CREATE])) (\<lambda>_.
     bind (lift_res (may_extend u conf PIC_EXTENSION_CREATE (up_ext inp))) (\<lambda>_.
     bind (get_state (\<lambda>w. e_text (w_env w))) (\<lambda>tlib.
     bind (lift_res (checkUrls tlib (ud_net dp) (up_url inp) (up_referrer inp) conf)) (\<lambda>(loc, ref).
     bind (ret (\<lambda>name field. validateAndNormalizeFileName tlib name field
       (fst (confFileNameLen conf)) (snd (confFileNameLen conf)))) (\<lambda>checkName.
     bind (if up_name inp = [] then ret []
       else lift_res (res_map (\<lambda>n. [n]) (checkName (up_name inp) ''filename''))) (\<lambda>names.
     bind (take_in dp conf now inp u loc ref checkName names) (\<lambda>p.
       lift_res (res_map (\<lambda>shown. (p, shown)) (filterPic p u conf))))))))))"

definition UpsertPicTask :: "upload_deps \<Rightarrow> ctx \<Rightarrow> int \<Rightarrow> upload \<Rightarrow> (pic \<times> pic) io" where
  "UpsertPicTask dp cx now inp = bind (authedJob cx now) (\<lambda>u. revert (upsert_body dp cx now inp u))"

end
