(* ===== verification/UploadFrames.thy ===== *)
theory UploadFrames
  imports Upload
begin

section \<open>What an upload leaves alone\<close>

text \<open>
  Which steps change files only and which keep the integrity of the database; the task meets the
  contract \<open>task_body\<close>. It is not an \<open>atomic_task\<close>: where an upload is merged, the clean-up of its
  temporary file runs after the commit and may fail.
\<close>

subsection \<open>Steps that change files only\<close>

lemma keeps_cases:
  "(\<And>x. e = Some x \<Longrightarrow> keeps K (f x)) \<Longrightarrow> (e = None \<Longrightarrow> keeps K m) \<Longrightarrow> keeps K (case e of None \<Rightarrow> m | Some x \<Rightarrow> f x)"
  "(\<And>a. s = Inl a \<Longrightarrow> keeps K (g a)) \<Longrightarrow> (\<And>b. s = Inr b \<Longrightarrow> keeps K (h b)) \<Longrightarrow>
    keeps K (case s of Inl a \<Rightarrow> g a | Inr b \<Rightarrow> h b)"
  "(\<And>a b. p = (a, b) \<Longrightarrow> keeps K (k a b)) \<Longrightarrow> keeps K (case p of (a, b) \<Rightarrow> k a b)"
  by (auto split: option.splits sum.splits prod.splits)

lemma cleanup_frames: "c \<in> set (cleanup_temp f) \<Longrightarrow> keeps keeps_all_but_files c"
  "c \<in> set (cleanup_derived d) \<Longrightarrow> keeps keeps_all_but_files c"
  "keeps keeps_all_but_files (remove_new n)"
  by (auto simp: cleanup_temp_def cleanup_derived_def remove_new_def intro!: file_ops split: option.splits)

lemma guarded_frames:
  "keeps keeps_all_but_files m \<Longrightarrow> (\<And>c. c \<in> set cs \<Longrightarrow> keeps keeps_all_but_files c) \<Longrightarrow>
    keeps keeps_all_but_files (guarded cs m)"
  by (rule keeps_guarded [OF files.frame_axioms])

lemma temp_frames:
  "keeps keeps_all_but_files (tempFile dp)" "keeps keeps_all_but_files (fill mk src f)"
  "keeps keeps_all_but_files (report mk' e)"
  unfolding tempFile_def fill_def report_def by (intro file_ops keeps_cases)+

lemma prepareFile_frames:
  "(\<And>f. keeps keeps_all_but_files (move f)) \<Longrightarrow> keeps keeps_all_but_files (prepareFile dp move)"
  unfolding prepareFile_def by (intro file_ops temp_frames guarded_frames cleanup_frames(1))

lemma fetch_frames: "keeps keeps_all_but_files (fetch dp chk inp loc ref names)"
  unfolding fetch_def prepareLocalFile_def prepareRemoteFile_def Let_def
  by (intro keeps_cases file_ops temp_frames prepareFile_frames)

lemma move_frames: "keeps keeps_all_but_files (give_up s f)" "keeps keeps_all_but_files (move_file f new)"
  unfolding give_up_def [abs_def] move_file_def by (intro keeps_cases file_ops)+

lemma place_frames: "keeps keeps_all_but_files (place_files dp p f ft d newpath)"
  unfolding place_files_def
  by (intro keeps_cases file_ops guarded_frames move_frames) (auto intro: cleanup_frames)

lemma thumbnail_frames: "keeps keeps_all_but_files (make_thumbnail dp ins)"
  unfolding make_thumbnail_def by (intro keeps_cases file_ops prepareFile_frames)

lemma derived_frames: "keeps keeps_all_but_files (add_derived dp f sz ins)"
  unfolding add_derived_def
  by (intro keeps_cases file_ops prepareFile_frames guarded_frames) (auto intro: cleanup_frames)

lemma hashes_frames: "keeps keeps_all_but_files (generatePicHashes f sz fns)"
  unfolding generatePicHashes_def by (intro file_ops)

lemmas upload_file_frames = fetch_frames move_frames place_frames thumbnail_frames derived_frames hashes_frames
  file_ops

subsection \<open>Steps that change the database\<close>

lemma existing_pic_frames:
  "keeps keeps_fit (findExistingPic t h)" "keeps keeps_base (findExistingPic t h)"
  "keeps keeps_acct (findExistingPic t h)"
  unfolding findExistingPic_def by (auto intro!: read_frames split: list.splits)

lemma insert_frames:
  "keeps keeps_fit (insert_new hs sz m im dur ts)" "keeps keeps_base (insert_new hs sz m im dur ts)"
  "keeps keeps_acct (insert_new hs sz m im dur ts)"
  unfolding insert_new_def insertPicHashes_def insertPerceptualHash_def by (auto intro!: read_frames)

lemma merge_frames:
  "keeps keeps_fit (mergePic p ts pfs u x)" "keeps keeps_base (mergePic p ts pfs u x)"
  "keeps keeps_acct (mergePic p ts pfs u x)"
  unfolding mergePic_def tell_uploader_def Let_def by (auto intro!: read_frames event_frames)

lemmas file_step_frames = upload_file_frames [THEN files_keeps(1)] upload_file_frames [THEN files_keeps(2)]
  upload_file_frames [THEN files_keeps(3)]

lemmas cleanup_keeps =
  cleanup_frames(1) [THEN files_keeps(1)] cleanup_frames(1) [THEN files_keeps(2)] cleanup_frames(1) [THEN files_keeps(3)]
  cleanup_frames(2) [THEN files_keeps(1)] cleanup_frames(2) [THEN files_keeps(2)] cleanup_frames(2) [THEN files_keeps(3)]

lemma keeps_ifI: "keeps K m \<Longrightarrow> keeps K n \<Longrightarrow> keeps K (if c then m else n)"
  by simp

lemma inspect_frames:
  "keeps keeps_fit (inspect dp conf now inp u loc ref x)" "keeps keeps_base (inspect dp conf now inp u loc ref x)"
  "keeps keeps_acct (inspect dp conf now inp u loc ref x)"
  unfolding inspect_def find_or_insert_def
  by (intro keeps_cases read_frames keeps_ifI hashes_frames [THEN files_keeps(1)] existing_pic_frames insert_frames
      hashes_frames [THEN files_keeps(2)] hashes_frames [THEN files_keeps(3)]; simp)+

lemma enter_frames:
  "keeps keeps_fit (enter_pic dp ext u ins p th)" "keeps keeps_base (enter_pic dp ext u ins p th)"
  "keeps keeps_acct (enter_pic dp ext u ins p th)"
  unfolding enter_pic_def
  by (intro keeps_cases read_frames merge_frames file_step_frames)+

lemma fit_guarded: "keeps keeps_fit m \<Longrightarrow> (\<And>c. c \<in> set cs \<Longrightarrow> keeps keeps_fit c) \<Longrightarrow> keeps keeps_fit (guarded cs m)"
  and base_guarded: "keeps keeps_base m \<Longrightarrow> (\<And>c. c \<in> set cs \<Longrightarrow> keeps keeps_base c) \<Longrightarrow> keeps keeps_base (guarded cs m)"
  and acct_guarded: "keeps keeps_acct m \<Longrightarrow> (\<And>c. c \<in> set cs \<Longrightarrow> keeps keeps_acct c) \<Longrightarrow> keeps keeps_acct (guarded cs m)"
  by (rule keeps_guarded [OF fit.frame_axioms] keeps_guarded [OF base.frame_axioms] keeps_guarded [OF acct.frame_axioms]; simp)+

lemma always_frames:
  "keeps keeps_fit m \<Longrightarrow> (\<And>c. c \<in> set cs \<Longrightarrow> keeps keeps_fit c) \<Longrightarrow> keeps keeps_fit (foldl deferred m cs)"
  "keeps keeps_acct m \<Longrightarrow> (\<And>c. c \<in> set cs \<Longrightarrow> keeps keeps_acct c) \<Longrightarrow> keeps keeps_acct (foldl deferred m cs)"
  by (induction cs arbitrary: m) (auto intro: fit.keeps_deferred acct.keeps_deferred)

lemma store_frames:
  "keeps keeps_fit (store_new dp conf u ext f sz ins)" "keeps keeps_acct (store_new dp conf u ext f sz ins)"
  unfolding store_new_def
  by (intro keeps_cases read_frames file_step_frames fit_guarded acct_guarded enter_frames;
      auto intro: cleanup_keeps)+

lemma merge_known_frames:
  "keeps keeps_fit (merge_known ext u ins)" "keeps keeps_acct (merge_known ext u ins)"
  unfolding merge_known_def by (intro read_frames merge_frames)+

lemma take_in_frames:
  "keeps keeps_fit (take_in dp conf now inp u loc ref chk names)"
  "keeps keeps_acct (take_in dp conf now inp u loc ref chk names)"
  unfolding take_in_def
  by (intro keeps_cases read_frames keeps_ifI fetch_frames [THEN files_keeps(1)] fetch_frames [THEN files_keeps(3)]
      fit_guarded acct_guarded inspect_frames store_frames always_frames merge_known_frames; auto intro: cleanup_keeps)+

interpretation upsert: task_body "upsert_body dp cx now inp" for dp cx now inp
  unfolding upsert_body_def
  by unfold_locales (intro keeps_cases read_frames keeps_ifI take_in_frames)+

end
