(* ===== verification/UploadFiles.thy ===== *)
theory UploadFiles
  imports UploadFrames JobSteps
begin

section \<open>What an upload does to the files\<close>

text \<open>
  The files after each successful step, as a map from names to contents (\<open>fmap\<close>): where temporary
  files stand, that they never stand where a picture's file does, and where the files end up.
\<close>

subsection \<open>Successful steps\<close>

definition fmap :: "world \<Rightarrow> string \<Rightarrow> string option" where
  "fmap w = map_of (w_files w)"

lemma has_file_iff: "has_file name w \<longleftrightarrow> fmap w name \<noteq> None"
  by (simp add: has_file_def fmap_def map_of_eq_None_iff)

lemma content_fmap: "content name w = (case fmap w name of Some c \<Rightarrow> c | None \<Rightarrow> [])"
  by (simp add: content_def fmap_def)

lemma map_of_without: "map_of (filter (\<lambda>f. fst f \<noteq> n) xs) = (map_of xs)(n := None)"
  by (rule ext) (induction xs, auto)

lemma map_of_without2: "map_of (filter (\<lambda>f. fst f \<noteq> a \<and> fst f \<noteq> b) xs) = (map_of xs)(a := None, b := None)"
  by (rule ext) (induction xs, auto)

lemma guarded_Ok [simp]: "guarded cs m w = (Ok x, w') \<longleftrightarrow> m w = (Ok x, w')"
proof -
  have "foldl on_failure m cs w = (Ok x, w') \<longleftrightarrow> m w = (Ok x, w')" for m
    by (induction cs arbitrary: m) simp_all
  then show ?thesis by (simp add: guarded_def)
qed

lemma file_call_OkE:
  assumes "file_call w = (Ok e, w')"
  shows "fmap w' = fmap w" "w_env w' = w_env w"
  using assms by (auto simp: file_call_def fmap_def)

lemma try_file_Ok: "try_file mk w = (Ok u, w') \<Longrightarrow> fmap w' = fmap w"
  unfolding try_file_def by (auto elim!: bind_OkE split: option.splits simp: run_simps dest: file_call_OkE)

lemma put_file_Ok: "put_file name data w = (Ok u, w') \<Longrightarrow> fmap w' = (fmap w)(name \<mapsto> data)"
  by (auto simp: put_file_def run_simps fmap_def map_of_without)

lemma TempFile_Ok:
  assumes "TempFile sfx dir prefix w = (Ok (Inr f), w')"
  shows "fmap w f = None" "fmap w' = (fmap w)(f \<mapsto> [])" "\<exists>n. f = filepath_Join [dir, prefix @ sfx n]"
proof -
  let ?f = "filepath_Join [dir, prefix @ sfx (w_ios w)]"
  obtain w1 where "file_call w = (Ok None, w1)" "fmap w1 ?f = None" "put_file ?f [] w1 = (Ok (), w')" "f = ?f"
    using assms by (auto simp: TempFile_def Let_def run_simps has_file_iff elim!: bind_OkE split: option.splits if_splits)
  then show "fmap w f = None" "fmap w' = (fmap w)(f \<mapsto> [])" "\<exists>n. f = filepath_Join [dir, prefix @ sfx n]"
    using file_call_OkE(1) [of w None w1] put_file_Ok by auto
qed

lemma copy_into_Ok:
  assumes "copy_into f src w = (Ok None, w')"
  shows "fmap w' = (fmap w)(f \<mapsto> fst src)" "snd src = None"
  using assms
  by (auto simp: copy_into_def run_simps elim!: bind_OkE split: option.splits dest!: file_call_OkE(1) put_file_Ok)

lemma Rename_Ok:
  assumes "Rename old new w = (Ok None, w')"
  shows "fmap w old \<noteq> None" "fmap w' = (fmap w)(old := None, new := fmap w old)"
proof -
  obtain w1 where 1: "file_call w = (Ok None, w1)" "fmap w1 old \<noteq> None"
    "w' = w1\<lparr>w_files := (new, content old w1) # filter (\<lambda>f. fst f \<noteq> old \<and> fst f \<noteq> new) (w_files w1)\<rparr>"
    using assms by (auto simp: Rename_def run_simps has_file_iff elim!: bind_OkE split: option.splits if_splits)
  note fm = file_call_OkE(1) [OF 1(1)]
  show "fmap w old \<noteq> None" using 1(2) fm by simp
  have "fmap w' = (fmap w1)(old := None, new := Some (content old w1))"
    using 1(3) by (auto simp: fmap_def map_of_without2 fun_eq_iff)
  then show "fmap w' = (fmap w)(old := None, new := fmap w old)"
    using 1(2) fm by (auto simp: content_fmap)
qed

lemma remove_file_Ok: "remove_file n w = (Ok None, w') \<Longrightarrow> fmap w' = (fmap w)(n := None)"
  by (auto simp: remove_file_def Let_def fmap_def map_of_without split: option.splits if_splits)

lemma drop_file_Ok: "drop_file mk n w = (Ok u, w') \<Longrightarrow> fmap w' = (fmap w)(n := None)"
  by (auto simp: drop_file_def run_simps elim!: bind_OkE split: option.splits dest: remove_file_Ok)

lemma Stat_size_Ok:
  assumes "Stat_size f mk w = (Ok n, w')"
  shows "fmap w' = fmap w" "n = int (length (content f w))"
  using assms by (auto simp: Stat_size_def run_simps content_fmap elim!: bind_OkE dest!: try_file_Ok)

lemma move_file_Ok:
  assumes "move_file f new w = (Ok u, w')"
  shows "fmap w f \<noteq> None" "fmap w' = (fmap w)(f := None, new := fmap w f)"
proof -
  have bad: "give_up s f v \<noteq> (Ok x, v')" for s v x v'
    by (auto simp: give_up_def run_simps bind_def split: prod.splits res.splits option.splits)
  obtain w1 where "file_call w = (Ok None, w1)" "Rename f new w1 = (Ok None, w')"
    using assms bad by (auto simp: move_file_def run_simps elim!: bind_OkE split: option.splits)
  then show "fmap w f \<noteq> None" "fmap w' = (fmap w)(f := None, new := fmap w f)"
    using file_call_OkE(1) [of w None w1] Rename_Ok [of f new w1 w'] by auto
qed

subsection \<open>Temporary files\<close>

definition temp_name :: "upload_deps \<Rightarrow> string \<Rightarrow> bool" where
  "temp_name dp f \<longleftrightarrow> (\<exists>n. f = filepath_Join [ud_pixPath dp, ''__'' @ ud_suffix dp n])"

lemma prepareFile_Ok:
  assumes "prepareFile dp move w = (Ok (f, x), w')"
  obtains w1 w2 where "fmap w f = None" "fmap w1 = (fmap w)(f \<mapsto> [])" "temp_name dp f"
    "move f w1 = (Ok x, w2)" "fmap w' = fmap w2"
proof -
  obtain w1 w2 where s: "TempFile (ud_suffix dp) (ud_pixPath dp) ''__'' w = (Ok (Inr f), w1)"
    "move f w1 = (Ok x, w2)" "try_file (\<lambda>e. Internal e ''can't sync file'') w2 = (Ok (), w')"
    using assms unfolding prepareFile_def tempFile_def
    by (auto simp: run_simps elim!: bind_OkE split: sum.splits)
  from that TempFile_Ok [OF s(1)] s(2) try_file_Ok [OF s(3)] show thesis
    by (auto simp: temp_name_def)
qed

lemma fill_Ok:
  assumes "fill mk src f w = (Ok n, w')"
  shows "fmap w' = (fmap w)(f \<mapsto> fst src)" "n = int (length (fst src))"
  using assms by (auto simp: fill_def run_simps elim!: bind_OkE split: option.splits dest: copy_into_Ok)

lemma report_Ok: "report mk e w = (Ok u, w') \<Longrightarrow> w' = w"
  by (auto simp: report_def run_simps split: option.splits)

lemma prepare_fill_Ok:
  assumes "prepareFile dp (fill mk src) w = (Ok (f, n), w')"
  shows "fmap w f = None" "fmap w' = (fmap w)(f \<mapsto> fst src)" "temp_name dp f" "n = int (length (fst src))"
proof -
  obtain w1 w2 where s: "fmap w f = None" "fmap w1 = (fmap w)(f \<mapsto> [])" "temp_name dp f"
    "fill mk src f w1 = (Ok n, w2)" "fmap w' = fmap w2" by (rule prepareFile_Ok [OF assms])
  with fill_Ok [OF s(4)] show "fmap w f = None" "fmap w' = (fmap w)(f \<mapsto> fst src)" "temp_name dp f"
    "n = int (length (fst src))" by simp_all
qed

text \<open>The bytes of an upload.\<close>

definition upload_bytes :: "upload_deps \<Rightarrow> upload \<Rightarrow> url option \<Rightarrow> url option \<Rightarrow> string \<Rightarrow> bool" where
  "upload_bytes dp inp loc ref data \<longleftrightarrow>
     (case up_file inp of
        Some r \<Rightarrow> data = fst (rd_data r)
      | None \<Rightarrow> \<exists>l resp. loc = Some l \<and> hr_status resp = 200 \<and> data = fst (hr_body resp) \<and>
          ud_http dp (nl_string (ud_net dp) l)
            (map_option (\<lambda>r. nl_string (ud_net dp) (r\<lparr>url_fragment := []\<rparr>)) ref) = Inr resp)"

lemma fetch_Ok:
  assumes "fetch dp chk inp loc ref names w = (Ok (f, n, names'), w')"
  obtains data where "upload_bytes dp inp loc ref data" "fmap w f = None" "fmap w' = (fmap w)(f \<mapsto> data)"
    "temp_name dp f" "n = int (length data)"
proof (cases "up_file inp")
  case (Some r)
  obtain v where "prepareFile dp (fill (\<lambda>e. Internal e ''can't copy file'') (rd_data r)) w = (Ok (f, n), v)" "fmap w' = fmap v"
    using assms Some unfolding fetch_def prepareLocalFile_def
    by (auto simp: run_simps elim!: bind_OkE deferred_OkE dest!: report_Ok)
  with prepare_fill_Ok [OF this(1)] that [of "fst (rd_data r)"] Some show thesis
    by (simp add: upload_bytes_def)
next
  case None
  obtain l resp v where "loc = Some l" "hr_status resp = 200"
    "ud_http dp (nl_string (ud_net dp) l)
       (map_option (\<lambda>r. nl_string (ud_net dp) (r\<lparr>url_fragment := []\<rparr>)) ref) = Inr resp"
    "prepareFile dp (fill (\<lambda>e. InvalidArgument e ''can't copy file'') (hr_body resp)) w = (Ok (f, n), v)" "fmap w' = fmap v"
    using assms None unfolding fetch_def prepareRemoteFile_def Let_def
    by (auto simp: run_simps elim!: bind_OkE deferred_OkE dest!: report_Ok split: option.splits sum.splits if_splits)
  with prepare_fill_Ok [OF this(4)] that [of "fst (hr_body resp)"] None show thesis
    by (auto simp: upload_bytes_def)
qed

subsection \<open>Putting the files in their places\<close>

text \<open>A random suffix without a slash makes a name that no file of a picture has.\<close>

definition plain_suffix :: "upload_deps \<Rightarrow> bool" where
  "plain_suffix dp \<longleftrightarrow> (\<forall>n. CHR ''/'' \<notin> set (ud_suffix dp n))"

definition pic_place :: "string \<Rightarrow> bool" where
  "pic_place f \<longleftrightarrow> (\<exists>c rest. last (split_slash f) = c # rest \<and> c \<in> set encodeTable)"

lemma encoded_place: "last (split_slash f) = EncodeVarint v @ e \<Longrightarrow> pic_place f"
  using encode_symbols [of "word_of_int v"]
  by (cases "EncodeVarint v") (auto simp: pic_place_def EncodeVarint_def)

lemma pic_places:
  "PicFilePath root i m = Ok f \<Longrightarrow> pic_place f" "PicFileDerivedPath root i k m = Ok f \<Longrightarrow> pic_place f"
  by (erule PicFilePath_name, rule encoded_place, assumption)
    (erule PicFileDerivedPath_name, rule encoded_place, assumption)

lemma temp_no_place:
  assumes "temp_name dp t" "plain_suffix dp" "pic_place f"
  shows "t \<noteq> f"
proof
  assume "t = f"
  obtain n where t: "t = filepath_Join [ud_pixPath dp, ''__'' @ ud_suffix dp n]"
    using assms(1) by (auto simp: temp_name_def)
  have "last (split_slash t) = ''__'' @ ud_suffix dp n" unfolding t
    by (rule Join_last) (use assms(2) in \<open>auto simp: plain_name_def plain_suffix_def\<close>)
  then show False using assms(3) \<open>t = f\<close> by (auto simp: pic_place_def encodeTable_def)
qed

text \<open>The files of a stored picture: the upload, its thumbnail, and its conversion, if any.\<close>

definition files_placed :: "upload_deps \<Rightarrow> pic \<Rightarrow> string \<Rightarrow> string \<Rightarrow> string \<Rightarrow> string option \<Rightarrow>
    (string \<Rightarrow> string option) \<Rightarrow> (string \<Rightarrow> string option) \<Rightarrow> bool" where
  "files_placed dp p newpath data tb out fm fm' \<longleftrightarrow>
     (\<exists>newthumb. derived_path dp p (last (p_thumb p)) = Ok newthumb \<and>
        (case out of
           None \<Rightarrow> p_derived p = [] \<and> fm' = fm(newpath \<mapsto> data, newthumb \<mapsto> tb)
         | Some od \<Rightarrow> (\<exists>newderived. derived_path dp p (last (p_derived p)) = Ok newderived \<and>
             fm' = fm(newpath \<mapsto> data, newthumb \<mapsto> tb, newderived \<mapsto> od))))"

lemma derived_place: "derived_path dp p pf = Ok f \<Longrightarrow> pic_place f"
  unfolding derived_path_def by (rule pic_places(2))

lemma place_files_Ok:
  assumes "place_files dp p f ft d newpath w = (Ok u, w')" "plain_suffix dp" "pic_place newpath"
    "temp_name dp f" "temp_name dp ft" "f \<noteq> ft" "d = None \<Longrightarrow> out = None"
    "\<And>fd. d = Some fd \<Longrightarrow> temp_name dp fd \<and> fd \<noteq> f \<and> fd \<noteq> ft \<and> p_derived p \<noteq> [] \<and> out \<noteq> None \<and> fm fd = None"
    "fmap w = (case d of None \<Rightarrow> fm | Some fd \<Rightarrow> fm(fd := out))(f \<mapsto> data, ft \<mapsto> tb)" "fm f = None" "fm ft = None"
  shows "files_placed dp p newpath data tb out fm (fmap w')"
proof -
  obtain newthumb w1 w2 where s: "move_file f newpath w = (Ok (), w1)" "derived_path dp p (last (p_thumb p)) = Ok newthumb"
    "move_file ft newthumb w1 = (Ok (), w2)"
    "(if p_derived p = [] then ret ()
      else bind (guarded (remove_new newthumb # remove_new newpath # cleanup_derived d)
           (lift_res (derived_path dp p (last (p_derived p))))) (\<lambda>newderived.
         guarded [remove_new newthumb, remove_new newpath]
           (case d of None \<Rightarrow> panic ''nil pointer dereference'' | Some fd \<Rightarrow> move_file fd newderived))) w2 = (Ok u, w')"
    using assms(1) unfolding place_files_def by (auto simp: run_simps elim!: bind_OkE)
  note no = temp_no_place [OF _ assms(2)]
  have ne: "f \<noteq> newpath" "ft \<noteq> newpath" "f \<noteq> newthumb" "ft \<noteq> newthumb"
    using no assms(3-5) derived_place [OF s(2)] by blast+
  note m1 = move_file_Ok(2) [OF s(1)]
  note m2 = move_file_Ok(2) [OF s(3)]
  show ?thesis
  proof (cases d)
    case None
    then have "p_derived p = []" "w' = w2"
      using s(4) by (auto simp: run_simps elim!: bind_OkE split: if_splits)
    moreover have "fmap w2 = fm(newpath \<mapsto> data, newthumb \<mapsto> tb)"
      unfolding m2 m1 using assms(6,9-11) None ne by (auto simp: fun_eq_iff)
    ultimately show ?thesis using s(2) assms(7) None by (simp add: files_placed_def)
  next
    case (Some fd)
    note d = assms(8) [OF Some]
    obtain newderived where n: "derived_path dp p (last (p_derived p)) = Ok newderived"
      "move_file fd newderived w2 = (Ok (), w')"
      using s(4) Some d by (auto simp: run_simps elim!: bind_OkE)
    obtain od where od: "out = Some od" using d by blast
    have ne2: "fd \<noteq> newpath" "fd \<noteq> newthumb" "fd \<noteq> newderived" "f \<noteq> newderived" "ft \<noteq> newderived"
      using no d assms(3-5) derived_place [OF s(2)] derived_place [OF n(1)] by blast+
    note m3 = move_file_Ok(2) [OF n(2)]
    have "fmap w' = fm(newpath \<mapsto> data, newthumb \<mapsto> tb, newderived \<mapsto> od)"
      unfolding m3 m2 m1 using assms(6,9-11) Some ne ne2 od d by (auto simp: fun_eq_iff)
    then show ?thesis using s(2) n(1) od by (auto simp: files_placed_def)
  qed
qed

end
