(* ===== verification/UploadFacts.thy ===== *)
theory UploadFacts
  imports UploadFiles Notify PicFacts
begin

section \<open>What an upload does to the database\<close>

text \<open>
  The steps of \<open>UpsertPicTask\<close> on an open job: looking for the same contents, entering the picture,
  merging the upload into it, and storing its files; then the whole task.
\<close>

subsection \<open>Steps\<close>

lemma job_at_files:
  assumes "keeps keeps_all_but_files m" "m w = (r, w')" "job_at ev d0 d w"
  shows "job_at ev d0 d w'"
proof -
  obtain fs n where "w' = w\<lparr>w_files := fs, w_ios := n\<rparr>"
    using keepsD [OF assms(1,2)] by (metis keeps_all_but_files_def)
  then show ?thesis using assms(3) by (simp add: job_at_def tx_at_def)
qed

lemma files_db: "keeps keeps_all_but_files m \<Longrightarrow> m w = (r, w') \<Longrightarrow> w_db w' = w_db w"
  by (drule files_keeps(2), drule (1) keepsD) (simp add: keeps_base_def)

lemma disk_fmap: "keeps keeps_disk m \<Longrightarrow> m w = (r, w') \<Longrightarrow> fmap w' = fmap w"
  by (auto dest!: keepsD simp: keeps_disk_def fmap_def)

lemma upload_disk:
  "keeps keeps_disk (find_or_insert hs sz m im dur ts)" "keeps keeps_disk (mergePic p ts pfs u x)"
  unfolding find_or_insert_def findExistingPic_def insert_new_def insertPicHashes_def insertPerceptualHash_def
    mergePic_def tell_uploader_def nextUserEventIndex_def Let_def
  by (intro disk.keeps_intros disk_finds disk_writes disk_alloc;
      auto split: list.splits option.splits prod.splits intro!: disk.keeps_intros disk_finds disk_writes disk_alloc)+

subsection \<open>Finding the picture with the same contents\<close>

text \<open>The identifier of a picture's contents is its SHA512/256.\<close>

definition contents_of :: "database \<Rightarrow> string \<Rightarrow> int \<Rightarrow> bool" where
  "contents_of d h i \<longleftrightarrow> (\<exists>x \<in> set (msgs (db_idents d)).
     pi_pic x = i \<and> pi_type x = PicIdent_SHA512_256 \<and> pi_value x = h)"

lemma findExistingPic_job:
  assumes "findExistingPic PicIdent_SHA512_256 h w = (Ok old, w')" "job_at ev d0 d w"
  shows "job_at ev d0 d w'"
    "case old of None \<Rightarrow> (\<forall>i. \<not> contents_of d h i) | Some p \<Rightarrow> contents_of d h (p_id p) \<and> the_pic d (p_id p) p"
proof -
  let ?opt = "no_opts\<lparr>o_prefix := Some (PicIdentsIdent (Some PicIdent_SHA512_256) (Some h)), o_lock := LockWrite, o_limit := 1\<rparr>"
  obtain pis w1 where f: "FindPicIdents ?opt w = (Ok pis, w1)"
    and rest: "(case pis of [] \<Rightarrow> ret None | pi # _ \<Rightarrow>
          bind (wrap_err (\<lambda>e. Internal e ''can't find pics'') (FindPics (pic_opts (pi_pic pi)))) (\<lambda>pics.
          (case pics of [p] \<Rightarrow> ret (Some p) | _ \<Rightarrow> fail (Internal None ''can't lookup pic'')))) w1 = (Ok old, w')"
    using assms(1) by (auto simp: findExistingPic_def elim!: bind_OkE)
  note job = job_find_idents_value [OF f assms(2), of PicIdent_SHA512_256 h]
  have found: "found (\<lambda>i. pi_type i = PicIdent_SHA512_256 \<and> pi_value i = h) 1 (msgs (db_idents d)) pis"
    using job(2) by simp
  have "job_at ev d0 d w' \<and> (case old of None \<Rightarrow> (\<forall>i. \<not> contents_of d h i) | Some p \<Rightarrow>
      contents_of d h (p_id p) \<and> the_pic d (p_id p) p)"
  proof (cases pis)
    case Nil
    then have "found (\<lambda>i. pi_type i = PicIdent_SHA512_256 \<and> pi_value i = h) 1 (msgs (db_idents d)) []"
      using found by simp
    then have "\<not> (\<exists>x \<in> set (msgs (db_idents d)). pi_type x = PicIdent_SHA512_256 \<and> pi_value x = h)"
      by (auto simp: found_def)
    then show ?thesis using Nil rest job(1) by (auto simp: contents_of_def run_simps)
  next
    case (Cons pi pis')
    then have pi: "pi \<in> set (msgs (db_idents d))" "pi_type pi = PicIdent_SHA512_256" "pi_value pi = h"
      using found_set [OF found] by auto
    have "writable_pic (pi_pic pi) w1 = (case old of Some p \<Rightarrow> (Ok p, w') | None \<Rightarrow> writable_pic (pi_pic pi) w1)"
      "old \<noteq> None"
      using rest Cons by (auto simp: writable_pic_def bind_def wrap_err_def run_simps fail_def
          split: prod.splits res.splits list.splits)
    then obtain p where p: "old = Some p" "writable_pic (pi_pic pi) w1 = (Ok p, w')" by auto
    have job1: "job_at ev d0 d w1" using job(1) by simp
    note wp = writable_pic_job [OF p(2) job1]
    show ?thesis using wp p(1) pi the_pic_id [OF wp(2)] by (auto simp: contents_of_def)
  qed
  then show "job_at ev d0 d w'"
    "case old of None \<Rightarrow> (\<forall>i. \<not> contents_of d h i) | Some p \<Rightarrow> contents_of d h (p_id p) \<and> the_pic d (p_id p) p"
    by simp_all
qed

text \<open>A picture entered under a new id, with the identifiers of its contents.\<close>

definition entered :: "database \<Rightarrow> database \<Rightarrow> string list \<Rightarrow> image \<Rightarrow> pic \<Rightarrow> bool" where
  "entered d d1 hashes im p \<longleftrightarrow> (\<exists>hash inputs. im_phash im = Ok (hash, inputs) \<and>
     d1 = d\<lparr>db_pics := db_pics d1, db_idents := db_idents d1, db_seq := db_seq d1\<rparr> \<and>
     msgs (db_pics d1) = msgs (db_pics d) @ [p] \<and>
     msgs (db_idents d1) = msgs (db_idents d) @
       [ident (p_id p) PicIdent_MD5 (hashes ! 0) [], ident (p_id p) PicIdent_SHA1 (hashes ! 1) [],
        ident (p_id p) PicIdent_SHA512_256 (hashes ! 2) [], ident (p_id p) PicIdent_DCT_0 hash inputs])"

lemma insert_new_job:
  assumes "insert_new hashes sz mime im dur nowts w = (Ok p, w')" "job_at ev d0 d w"
  obtains d1 i where "job_at ev d0 d1 w'" "entered d d1 hashes im p"
    "p = new_pic i (file_record 0 sz mime im dur nowts) nowts"
proof -
  obtain i w1 w2 w3 w4 w5 hash inputs where s: "AllocId w = (Ok i, w1)"
    "InsertPic (new_pic i (file_record 0 sz mime im dur nowts) nowts) w1 = (Ok (), w2)"
    "InsertPicIdent (ident i PicIdent_MD5 (hashes ! 0) []) w2 = (Ok (), w3)"
    "InsertPicIdent (ident i PicIdent_SHA1 (hashes ! 1) []) w3 = (Ok (), w4)"
    "InsertPicIdent (ident i PicIdent_SHA512_256 (hashes ! 2) []) w4 = (Ok (), w5)"
    "im_phash im = Ok (hash, inputs)"
    "InsertPicIdent (ident i PicIdent_DCT_0 hash inputs) w5 = (Ok (), w')"
    "p = new_pic i (file_record 0 sz mime im dur nowts) nowts"
    using assms(1) unfolding insert_new_def insertPicHashes_def insertPerceptualHash_def
    by (auto simp: run_simps elim!: bind_OkE split: prod.splits)
  obtain sq where j1: "job_at ev d0 (d\<lparr>db_seq := sq\<rparr>) w1" by (rule job_AllocId [OF s(1) assms(2)])
  obtain ps where j2: "job_at ev d0 (d\<lparr>db_seq := sq, db_pics := ps\<rparr>) w2" "msgs ps = msgs (db_pics d) @ [p]"
    using job_insert_pics [OF s(2) j1] s(8) by auto
  obtain i1 where j3: "job_at ev d0 (d\<lparr>db_seq := sq, db_pics := ps, db_idents := i1\<rparr>) w3"
    "msgs i1 = msgs (db_idents d) @ [ident i PicIdent_MD5 (hashes ! 0) []]"
    using job_insert_idents [OF s(3) j2(1)] by auto
  obtain i2 where j4: "job_at ev d0 (d\<lparr>db_seq := sq, db_pics := ps, db_idents := i2\<rparr>) w4"
    "msgs i2 = msgs i1 @ [ident i PicIdent_SHA1 (hashes ! 1) []]"
    using job_insert_idents [OF s(4) j3(1)] by auto
  obtain i3 where j5: "job_at ev d0 (d\<lparr>db_seq := sq, db_pics := ps, db_idents := i3\<rparr>) w5"
    "msgs i3 = msgs i2 @ [ident i PicIdent_SHA512_256 (hashes ! 2) []]"
    using job_insert_idents [OF s(5) j4(1)] by auto
  obtain i4 where j6: "job_at ev d0 (d\<lparr>db_seq := sq, db_pics := ps, db_idents := i4\<rparr>) w'"
    "msgs i4 = msgs i3 @ [ident i PicIdent_DCT_0 hash inputs]"
    using job_insert_idents [OF s(7) j5(1)] by auto
  have "p_id p = i" using s(8) by (simp add: new_pic_def)
  then have "entered d (d\<lparr>db_seq := sq, db_pics := ps, db_idents := i4\<rparr>) hashes im p"
    using s(6) j2(2) j3(2) j4(2) j5(2) j6(2) by (simp add: entered_def)
  with that j6(1) s(8) show thesis by blast
qed

text \<open>The picture an upload works on, before and after it was entered, if it had to be.\<close>

definition located :: "database \<Rightarrow> database \<Rightarrow> string list \<Rightarrow> image \<Rightarrow> pic \<Rightarrow> bool \<Rightarrow> bool" where
  "located d d1 hashes im p merge \<longleftrightarrow>
     (if \<exists>i. contents_of d (hashes ! 2) i
      then d1 = d \<and> contents_of d (hashes ! 2) (p_id p) \<and> the_pic d (p_id p) p \<and> (merge \<longleftrightarrow> \<not> HardDeleted p) \<and>
        (HardDeleted p \<longrightarrow> map_option ds_temporary (p_del p) = Some True)
      else \<not> merge \<and> entered d d1 hashes im p)"

lemma find_or_insert_job:
  assumes "find_or_insert hashes sz mime im dur nowts w = (Ok (p, merge), w')" "job_at ev d0 d w"
  obtains d1 where "job_at ev d0 d1 w'" "located d d1 hashes im p merge"
    "merge \<or> HardDeleted p \<or> (\<exists>i. p = new_pic i (file_record 0 sz mime im dur nowts) nowts)"
proof -
  obtain old w1 where f: "findExistingPic PicIdent_SHA512_256 (hashes ! 2) w = (Ok old, w1)"
    and rest: "(case old of Some p \<Rightarrow>
          (if HardDeleted p
           then bind (check (case p_del p of Some ds \<Rightarrow> ds_temporary ds | None \<Rightarrow> False)
               (InvalidArgument None ''can't upload deleted pic'')) (\<lambda>_. ret (p, False))
           else ret (p, True))
      | None \<Rightarrow> bind (insert_new hashes sz mime im dur nowts) (\<lambda>p. ret (p, False))) w1 = (Ok (p, merge), w')"
    using assms(1) unfolding find_or_insert_def by (auto elim: bind_OkE)
  note old = findExistingPic_job [OF f assms(2)]
  show thesis
  proof (cases old)
    case None
    then have "insert_new hashes sz mime im dur nowts w1 = (Ok p, w')" "\<not> merge"
      using rest by (auto simp: run_simps elim: bind_OkE)
    moreover have "\<not> (\<exists>i. contents_of d (hashes ! 2) i)" using old(2) None by simp
    ultimately show thesis using that insert_new_job [OF _ old(1), of hashes sz mime im dur nowts p w']
      by (metis located_def)
  next
    case (Some q)
    then have "p = q" "w' = w1" "merge \<longleftrightarrow> \<not> HardDeleted p" "HardDeleted p \<longrightarrow> map_option ds_temporary (p_del p) = Some True"
      using rest by (auto simp: run_simps check_def elim!: bind_OkE split: if_splits option.splits)
    moreover have "Ex (contents_of d (hashes ! 2))" using old(2) Some by auto
    ultimately have "located d d hashes im p merge" using old(2) Some by (simp add: located_def)
    then show thesis using that [of d] old(1) \<open>w' = w1\<close> \<open>merge \<longleftrightarrow> \<not> HardDeleted p\<close> by blast
  qed
qed

subsection \<open>Merging the upload into the picture\<close>

text \<open>The event of the uploader, unless nobody has signed in.\<close>

definition told :: "database \<Rightarrow> database \<Rightarrow> tspb \<Rightarrow> int \<Rightarrow> int \<Rightarrow> bool" where
  "told d d' nowts userId picId \<longleftrightarrow>
     (if userId = AnonymousUserId then db_events d' = db_events d
      else \<exists>idx ts. UserEventCreatedTsCol (Some nowts) = Ok ts \<and>
        msgs (db_events d') = msgs (db_events d) @ [upsert_event userId picId nowts idx] \<and>
        later_index d ts (upsert_event userId picId nowts idx))"

text \<open>What is added to the row \<open>p\<close>, which becomes \<open>p'\<close>.\<close>

definition merged :: "database \<Rightarrow> database \<Rightarrow> tspb \<Rightarrow> file_source \<Rightarrow> int \<Rightarrow> extmap \<Rightarrow> pic \<Rightarrow> pic \<Rightarrow> bool" where
  "merged d d' nowts pfs userId ext p p' \<longleftrightarrow>
     fst ` set ext \<inter> fst ` set (p_ext p) = {} \<and>
     p' = (undelete p)\<lparr>p_modified := Some nowts, p_ext := p_ext p @ ext,
       p_source := p_source p @ (if has_source pfs (p_source p) then [] else [pfs])\<rparr> \<and>
     d' = d\<lparr>db_pics := db_pics d', db_events := db_events d'\<rparr> \<and>
     msgs (db_pics d') = map (\<lambda>q. if p_id q = p_id p then p' else q) (msgs (db_pics d)) \<and>
     (if has_source pfs (p_source p) then db_events d' = db_events d else told d d' nowts userId (p_id p))"

lemma undelete_simps: "p_source (undelete p) = p_source p" "p_ext (undelete p) = p_ext p"
    "undelete (p\<lparr>p_modified := m\<rparr>) = (undelete p)\<lparr>p_modified := m\<rparr>" "p_id (undelete p) = p_id p"
  by (auto simp: undelete_def split: option.splits)

lemma tell_uploader_job:
  assumes "tell_uploader userId picId nowts w = (Ok u, w')" "job_at ev d0 d w"
  obtains rows where "job_at ev d0 (d\<lparr>db_events := rows\<rparr>) w'" "told d (d\<lparr>db_events := rows\<rparr>) nowts userId picId"
proof (cases "userId = AnonymousUserId")
  case True
  then show thesis using assms that [of "db_events d"] by (simp add: tell_uploader_def told_def run_simps)
next
  case False
  obtain ts idx w1 where s: "UserEventCreatedTsCol (Some nowts) = Ok ts" "nextUserEventIndex userId ts w = (Ok idx, w1)"
    "InsertUserEvent (upsert_event userId picId nowts idx) w1 = (Ok (), w')"
    using assms(1) False by (auto simp: tell_uploader_def run_simps elim!: bind_OkE)
  note n = next_event_job [OF s(2) assms(2)]
  obtain rows where "job_at ev d0 (d\<lparr>db_events := rows\<rparr>) w'"
    "msgs rows = msgs (db_events d) @ [upsert_event userId picId nowts idx]"
    by (rule job_insert_events [OF s(3) n(1)])
  moreover have "later_index d ts (upsert_event userId picId nowts idx)"
    by (rule n(2)) (simp_all add: upsert_event_def)
  ultimately show thesis using that s(1) False by (auto simp: told_def)
qed

lemma merge_ext_Ok: "merge_ext old ext = Ok x \<Longrightarrow> x = old @ ext \<and> fst ` set ext \<inter> fst ` set old = {}"
  by (fastforce simp: merge_ext_def list_ex_iff split: if_splits)

lemma mergePic_job:
  assumes "mergePic p nowts pfs userId ext w = (Ok p', w')" "job_at ev d0 d w"
  obtains d' where "job_at ev d0 d' w'" "merged d d' nowts pfs userId ext p p'"
proof -
  let ?p = "(undelete p)\<lparr>p_modified := Some nowts\<rparr>"
  let ?known = "has_source pfs (p_source p)"
  let ?q = "if ?known then ?p else (undelete p)\<lparr>p_modified := Some nowts, p_source := p_source p @ [pfs]\<rparr>"
  obtain w1 x where s: "(if ?known then ret () else tell_uploader userId (p_id p) nowts) w = (Ok (), w1)"
    "merge_ext (p_ext ?q) ext = Ok x" "UpdatePic p' w1 = (Ok (), w')" "p' = ?q\<lparr>p_ext := x\<rparr>"
    using assms(1) by (cases ?known) (auto simp: mergePic_def Let_def undelete_simps run_simps elim!: bind_OkE)
  obtain rows where ev: "job_at ev d0 (d\<lparr>db_events := rows\<rparr>) w1"
    "if ?known then rows = db_events d else told d (d\<lparr>db_events := rows\<rparr>) nowts userId (p_id p)"
  proof (cases ?known)
    case True
    then show thesis using s(1) assms(2) that [of "db_events d"] by (simp add: run_simps)
  next
    case False
    then show thesis using tell_uploader_job [OF _ assms(2)] s(1) that by (metis (full_types))
  qed
  have x: "x = p_ext p @ ext" "fst ` set ext \<inter> fst ` set (p_ext p) = {}"
    using merge_ext_Ok [OF s(2)] by (simp_all add: undelete_simps split: if_splits)
  have p': "p' = (undelete p)\<lparr>p_modified := Some nowts, p_ext := p_ext p @ ext,
      p_source := p_source p @ (if ?known then [] else [pfs])\<rparr>"
    using s(4) x(1) by (simp add: undelete_simps)
  then have "p_id p' = p_id p" by (simp add: undelete_simps)
  obtain ps where ps: "job_at ev d0 (d\<lparr>db_events := rows, db_pics := ps\<rparr>) w'"
    "msgs ps = map (\<lambda>q. if p_id q = p_id p' then p' else q) (msgs (db_pics d))"
    using job_update_pics [OF s(3) ev(1)] by auto
  have "merged d (d\<lparr>db_events := rows, db_pics := ps\<rparr>) nowts pfs userId ext p p'"
    using p' x(2) ps(2) ev(2) \<open>p_id p' = p_id p\<close> by (auto simp: merged_def told_def split: if_splits)
  with that ps(1) show thesis by blast
qed

subsection \<open>Looking at the contents\<close>

text \<open>What is known of an upload with the given bytes.\<close>

definition hashes_of :: "upload_deps \<Rightarrow> string \<Rightarrow> string list" where
  "hashes_of dp data = [ud_md5 dp data, ud_sha1 dp data, ud_sha512_256 dp data]"

definition looked_at :: "upload_deps \<Rightarrow> int \<Rightarrow> upload \<Rightarrow> string \<Rightarrow> inspected \<Rightarrow> bool" where
  "looked_at dp now inp data ins \<longleftrightarrow> ToTspb now = Ok (in_ts ins) \<and>
     (up_md5 inp = [] \<or> up_md5 inp = ud_md5 dp data) \<and> ReadImage (ud_imaging dp) data = Ok (in_image ins) \<and>
     imageFormatToMime (im_format (in_image ins)) = Ok (in_mime ins)"

lemma generatePicHashes_Ok:
  assumes "generatePicHashes f (int (length data)) fns w = (Ok hs, w')" "fmap w f = Some data"
  shows "hs = map (\<lambda>h. h data) fns" "fmap w' = fmap w"
proof -
  obtain u where "try_file (\<lambda>e. Internal e ''can't copy'') w = (Ok u, w')"
    "hs = map (\<lambda>h. h (take (length data) (content f w'))) fns"
    using assms(1) by (auto simp: generatePicHashes_def run_simps elim!: bind_OkE)
  with try_file_Ok [OF this(1)] assms(2) show "hs = map (\<lambda>h. h data) fns" "fmap w' = fmap w"
    by (simp_all add: content_fmap)
qed

lemma inspect_job:
  assumes "inspect dp conf now inp userId loc ref (f, int (length data), names) w = (Ok ins, w')" "job_at ev d0 d w"
    "fmap w f = Some data"
  obtains d1 where "job_at ev d0 d1 w'" "fmap w' = fmap w" "looked_at dp now inp data ins"
    "in_src ins = source_of dp (in_ts ins) userId loc ref names"
    "located d d1 (hashes_of dp data) (in_image ins) (in_pic ins) (in_merge ins)"
proof -
  let ?hs = "[ud_md5 dp, ud_sha1 dp, ud_sha512_256 dp]"
  obtain hs w1 nowts im mime dur p m where h: "generatePicHashes f (int (length data)) ?hs w = (Ok hs, w1)"
    "ToTspb now = Ok nowts" "up_md5 inp = [] \<or> up_md5 inp = hs ! 0"
    "ReadImage (ud_imaging dp) (take (length data) (content f w1)) = Ok im"
    "imageFormatToMime (im_format im) = Ok mime"
    "find_or_insert hs (int (length data)) mime im dur nowts w1 = (Ok (p, m), w')"
    "ins = \<lparr>in_ts = nowts, in_src = source_of dp nowts userId loc ref names, in_image = im, in_mime = mime,
       in_pic = p, in_merge = m\<rparr>"
    using assms(1) unfolding inspect_def prod.case
    by (elim bind_OkE) (auto simp: run_simps elim!: bind_OkE split: prod.splits if_splits)
  note g = generatePicHashes_Ok [OF h(1) assms(3)]
  have hs: "hs = hashes_of dp data" using g(1) by (simp add: hashes_of_def)
  have j1: "job_at ev d0 d w1" by (rule job_at_files [OF hashes_frames h(1) assms(2)])
  have "fmap w' = fmap w" using disk_fmap [OF upload_disk(1) h(6)] g(2) by simp
  moreover have "looked_at dp now inp data ins"
    using h(2-5,7) assms(3) g(2) hs by (auto simp: looked_at_def hashes_of_def content_fmap)
  moreover obtain d1 where "job_at ev d0 d1 w'" "located d d1 hs im p m"
    by (rule find_or_insert_job [OF h(6) j1])
  ultimately show thesis using that h(7) hs by simp
qed

subsection \<open>Storing the files\<close>

text \<open>The row gets the file made from the upload, if it is a video, and the thumbnail.\<close>

definition converted :: "upload_deps \<Rightarrow> string \<Rightarrow> inspected \<Rightarrow> pic \<Rightarrow> string option \<Rightarrow> bool" where
  "converted dp data ins p out \<longleftrightarrow>
     (if is_video (in_mime ins)
      then \<exists>im od idx mime dur. out = Some od \<and> ig_convert (ud_imaging dp)
          (if in_mime ins = Mime_WEBM then DefaultMp4Format else DefaultWebmFormat) data = Ok (im, od) \<and>
        p = (in_pic ins)\<lparr>p_derived := p_derived (in_pic ins) @
          [file_record idx (int (length od)) mime im dur (in_ts ins)]\<rparr>
      else out = None \<and> p = in_pic ins)"

definition thumbed :: "upload_deps \<Rightarrow> inspected \<Rightarrow> pic \<Rightarrow> pic \<Rightarrow> string \<Rightarrow> bool" where
  "thumbed dp ins p q tb \<longleftrightarrow> (\<exists>im idx mime dur. ig_thumbnail (ud_imaging dp) (in_image ins) = Ok im \<and>
     im_write im = Ok tb \<and>
     q = p\<lparr>p_thumb := p_thumb p @ [file_record idx (int (length tb)) mime im dur (in_ts ins)]\<rparr>)"

lemma add_derived_Ok:
  assumes "add_derived dp f (int (length data)) ins w = (Ok (p, d), w')" "fmap w f = Some data"
  obtains (still) "converted dp data ins p None" "d = None" "fmap w' = fmap w"
    | (video) fd od where "converted dp data ins p (Some od)" "d = Some fd" "p_derived p \<noteq> []" "temp_name dp fd"
        "fmap w fd = None" "fmap w' = (fmap w)(fd \<mapsto> od)"
proof (cases "is_video (in_mime ins)")
  case False
  then show thesis using assms(1) still by (simp add: add_derived_def converted_def run_simps)
next
  case True
  let ?fmt = "if in_mime ins = Mime_WEBM then DefaultMp4Format else DefaultWebmFormat"
  let ?move = "\<lambda>fd. bind (get_state (\<lambda>w. take (nat (int (length data))) (content f w))) (\<lambda>data.
          bind (lift_res (ig_convert (ud_imaging dp) ?fmt data)) (\<lambda>(derived, out).
          bind (put_file fd out) (\<lambda>_. ret derived)))"
  let ?rest = "\<lambda>fd derived. guarded (cleanup_temp fd @ cleanup_temp f)
          (bind (Stat_size fd (\<lambda>e. Internal e ''unable to stat derived file'')) (\<lambda>dsize.
           bind (lift_res (imageFormatToMime (im_format derived))) (\<lambda>dmime.
           bind (lift_res (im_duration derived)) (\<lambda>dur.
           bind (lift_res (nextPicFileIndex (p_thumb (in_pic ins)) (p_derived (in_pic ins)))) (\<lambda>idx.
             ret ((in_pic ins)\<lparr>p_derived := p_derived (in_pic ins) @
               [file_record idx dsize dmime derived dur (in_ts ins)]\<rparr>, Some fd))))))"
  have run: "bind (guarded (cleanup_temp f) (prepareFile dp ?move)) (\<lambda>x. ?rest (fst x) (snd x)) w = (Ok (p, d), w')"
    using assms(1) by (simp only: add_derived_def case_prod_unfold True not_True_eq_False if_False)
  obtain x w1 where 1: "guarded (cleanup_temp f) (prepareFile dp ?move) w = (Ok x, w1)"
    "?rest (fst x) (snd x) w1 = (Ok (p, d), w')"
    by (rule bind_OkE [OF run])
  obtain fd im where x: "x = (fd, im)" by fastforce
  have s1: "prepareFile dp ?move w = (Ok (fd, im), w1)" using 1(1) unfolding x guarded_Ok .
  have "\<exists>n mime dur idx. Stat_size fd (\<lambda>e. Internal e ''unable to stat derived file'') w1 = (Ok n, w') \<and>
      d = Some fd \<and>
      p = (in_pic ins)\<lparr>p_derived := p_derived (in_pic ins) @ [file_record idx n mime im dur (in_ts ins)]\<rparr>"
    using 1(2) unfolding x guarded_Ok by (auto simp: run_simps elim!: bind_OkE) blast
  then obtain n mime dur idx where s: "prepareFile dp ?move w = (Ok (fd, im), w1)"
    "Stat_size fd (\<lambda>e. Internal e ''unable to stat derived file'') w1 = (Ok n, w')" "d = Some fd"
    "p = (in_pic ins)\<lparr>p_derived := p_derived (in_pic ins) @ [file_record idx n mime im dur (in_ts ins)]\<rparr>"
    using s1 by blast
  obtain w2 w3 where t: "fmap w fd = None" "fmap w2 = (fmap w)(fd \<mapsto> [])" "temp_name dp fd" "fmap w1 = fmap w3"
    "?move fd w2 = (Ok im, w3)"
    by (rule prepareFile_Ok [OF s(1)])
  have "f \<noteq> fd" using t(1) assms(2) by auto
  then have "take (nat (int (length data))) (content f w2) = data" using t(2) assms(2) by (simp add: content_fmap)
  then obtain od where od: "ig_convert (ud_imaging dp) ?fmt data = Ok (im, od)" "put_file fd od w2 = (Ok (), w3)"
    using t(5) by (auto simp: run_simps elim!: bind_OkE split: prod.splits)
  have fm: "fmap w' = (fmap w)(fd \<mapsto> od)"
    using Stat_size_Ok(1) [OF s(2)] t(2,4) put_file_Ok [OF od(2)] by simp
  have n: "n = int (length od)"
    using Stat_size_Ok(2) [OF s(2)] t(4) put_file_Ok [OF od(2)] by (simp add: content_fmap)
  have "converted dp data ins p (Some od)"
    unfolding converted_def if_P [OF True] using od(1) s(4) n by blast
  moreover have "p_derived p \<noteq> []" using s(4) by simp
  ultimately show thesis using s(3) t(1,3) fm video by blast
qed

lemma make_thumbnail_Ok:
  assumes "make_thumbnail dp ins w = (Ok (ft, im, mime, dur), w')"
  obtains tb where "ig_thumbnail (ud_imaging dp) (in_image ins) = Ok im" "im_write im = Ok tb" "fmap w ft = None"
    "fmap w' = (fmap w)(ft \<mapsto> tb)" "temp_name dp ft"
proof -
  obtain u where s: "ig_thumbnail (ud_imaging dp) (in_image ins) = Ok im"
    "prepareFile dp (\<lambda>ft. bind (lift_res (im_write im)) (\<lambda>out. put_file ft out)) w = (Ok (ft, u), w')"
    using assms unfolding make_thumbnail_def by (auto simp: run_simps elim!: bind_OkE)
  obtain w1 w2 where t: "fmap w ft = None" "fmap w1 = (fmap w)(ft \<mapsto> [])" "temp_name dp ft"
    "bind (lift_res (im_write im)) (\<lambda>out. put_file ft out) w1 = (Ok u, w2)" "fmap w' = fmap w2"
    by (rule prepareFile_Ok [OF s(2)])
  from t(4) obtain tb where "im_write im = Ok tb" "put_file ft tb w1 = (Ok (), w2)"
    by (auto simp: run_simps elim!: bind_OkE)
  with that s(1) t put_file_Ok [OF this(2)] show thesis by simp
qed

lemma enter_pic_job:
  assumes "enter_pic dp ext userId ins p (ft, im, mime, dur) w = (Ok (p', newpath), w')" "job_at ev d0 d w"
    "ig_thumbnail (ud_imaging dp) (in_image ins) = Ok im" "im_write im = Ok tb" "fmap w ft = Some tb"
  obtains q d' where "job_at ev d0 d' w'" "fmap w' = fmap w" "thumbed dp ins p q tb"
    "merged d d' (in_ts ins) (in_src ins) userId ext q p'"
    "\<exists>file. p_file p' = Some file \<and> PicFilePath (ud_pixPath dp) (p_id p') (pf_mime file) = Ok newpath"
proof -
  let ?q = "\<lambda>idx n. p\<lparr>p_thumb := p_thumb p @ [file_record idx n mime im dur (in_ts ins)]\<rparr>"
  obtain n idx w1 w2 where s: "Stat_size ft (\<lambda>e. Internal e ''unable to stat thumbnail'') w = (Ok n, w1)"
    "mergePic (?q idx n) (in_ts ins) (in_src ins) userId ext w1 = (Ok p', w2)"
    "try_file (\<lambda>e. Internal e ''Can't prepare pic dir'') w2 = (Ok (), w')"
    "\<exists>file. p_file p' = Some file \<and> PicFilePath (ud_pixPath dp) (p_id p') (pf_mime file) = Ok newpath"
    using assms(1) unfolding enter_pic_def by (auto simp: run_simps elim!: bind_OkE split: option.splits)
  note z = Stat_size_Ok [OF s(1)]
  have j1: "job_at ev d0 d w1" by (rule job_at_files [OF os_frames(5) s(1) assms(2)])
  obtain d' where m: "job_at ev d0 d' w2" "merged d d' (in_ts ins) (in_src ins) userId ext (?q idx n) p'"
    by (rule mergePic_job [OF s(2) j1])
  have j2: "job_at ev d0 d' w'" by (rule job_at_files [OF os_frames(1) s(3) m(1)])
  have "fmap w' = fmap w"
    using z(1) disk_fmap [OF upload_disk(2) s(2)] try_file_Ok [OF s(3)] by simp
  moreover have "thumbed dp ins p (?q idx n) tb"
    using z assms(3-5) by (auto simp: thumbed_def content_fmap)
  ultimately show thesis using that j2 m(2) s(4) by blast
qed

text \<open>The rows and files of a picture that is stored, in a world whose files were \<open>fm\<close>.\<close>

definition stored :: "upload_deps \<Rightarrow> database \<Rightarrow> database \<Rightarrow> string \<Rightarrow> inspected \<Rightarrow> int \<Rightarrow> extmap \<Rightarrow>
    (string \<Rightarrow> string option) \<Rightarrow> (string \<Rightarrow> string option) \<Rightarrow> pic \<Rightarrow> bool" where
  "stored dp d d' data ins userId ext fm fm' p' \<longleftrightarrow>
     (\<exists>p q out tb file newpath. converted dp data ins p out \<and> thumbed dp ins p q tb \<and>
        merged d d' (in_ts ins) (in_src ins) userId ext q p' \<and> p_file p' = Some file \<and>
        PicFilePath (ud_pixPath dp) (p_id p') (pf_mime file) = Ok newpath \<and>
        files_placed dp p' newpath data tb out fm fm')"

lemma merged_derived: "merged d d' ts src u ext p p' \<Longrightarrow> p_derived p' = p_derived p"
  by (auto simp: merged_def undelete_def split: option.splits)

lemma thumbed_derived: "thumbed dp ins p q tb \<Longrightarrow> p_derived q = p_derived p"
  by (auto simp: thumbed_def)

lemma store_new_job:
  assumes "store_new dp conf u ext f (int (length data)) ins w = (Ok p', w')" "job_at ev d0 d w" "plain_suffix dp"
    "fmap w = fm(f \<mapsto> data)" "fm f = None" "temp_name dp f"
  shows "stored dp d (w_db w') data ins (subject_id u) ext fm (fmap w') p'"
proof -
  obtain p fd w1 ft im mime dur w2 newpath w3 w4 where s:
    "add_derived dp f (int (length data)) ins w = (Ok (p, fd), w1)"
    "make_thumbnail dp ins w1 = (Ok (ft, im, mime, dur), w2)"
    "enter_pic dp ext (subject_id u) ins p (ft, im, mime, dur) w2 = (Ok (p', newpath), w3)"
    "place_files dp p' f ft fd newpath w3 = (Ok (), w4)" "Commit w4 = (Ok (), w')"
    using assms(1) unfolding store_new_def by (auto simp: run_simps elim!: bind_OkE)
  have j1: "job_at ev d0 d w1" by (rule job_at_files [OF derived_frames s(1) assms(2)])
  have j2: "job_at ev d0 d w2" by (rule job_at_files [OF thumbnail_frames s(2) j1])
  obtain tb where t: "ig_thumbnail (ud_imaging dp) (in_image ins) = Ok im" "im_write im = Ok tb" "fmap w1 ft = None"
    "fmap w2 = (fmap w1)(ft \<mapsto> tb)" "temp_name dp ft" by (rule make_thumbnail_Ok [OF s(2)])
  have "fmap w2 ft = Some tb" using t(4) by simp
  then obtain q d' where e: "job_at ev d0 d' w3" "fmap w3 = fmap w2" "thumbed dp ins p q tb"
    "merged d d' (in_ts ins) (in_src ins) (subject_id u) ext q p'"
    "\<exists>file. p_file p' = Some file \<and> PicFilePath (ud_pixPath dp) (p_id p') (pf_mime file) = Ok newpath"
    using enter_pic_job [OF s(3) j2 t(1,2)] by metis
  have j4: "job_at ev d0 d' w4" by (rule job_at_files [OF place_frames s(4) e(1)])
  have db: "w_db w' = d'" using Commit_job [OF s(5) j4] by simp
  have fm': "fmap w' = fmap w4" by (rule disk_fmap [OF disk_ends(2) s(5)])
  have place: "pic_place newpath" using e(5) pic_places(1) by blast
  have der: "p_derived p' = p_derived p" using merged_derived [OF e(4)] thumbed_derived [OF e(3)] by simp
  have fdata: "fmap w f = Some data" using assms(4) by simp
  obtain out where "converted dp data ins p out" "files_placed dp p' newpath data tb out fm (fmap w4)"
    using s(1) fdata
  proof (cases rule: add_derived_Ok)
    case still
    have "fmap w1 = fm(f \<mapsto> data)" using still assms(4) by simp
    then have "f \<noteq> ft" "fm ft = None" "fmap w3 = fm(f \<mapsto> data, ft \<mapsto> tb)"
      using t(3,4) e(2) by (auto split: if_splits)
    then have "files_placed dp p' newpath data tb None fm (fmap w4)"
      using place_files_Ok [OF s(4) assms(3) place assms(6) t(5), of None fm data tb] still assms(5) by simp
    then show thesis using that still by blast
  next
    case (video gd od)
    then have "f \<noteq> gd" "fm gd = None" using assms(4) by (auto split: if_splits)
    moreover have w1: "fmap w1 = fm(f \<mapsto> data, gd \<mapsto> od)" using video assms(4) by simp
    ultimately have "f \<noteq> ft" "gd \<noteq> ft" "fm ft = None" "fmap w3 = fm(gd \<mapsto> od, f \<mapsto> data, ft \<mapsto> tb)"
      using t(3,4) e(2) by (auto split: if_splits simp: fun_upd_twist)
    then have "files_placed dp p' newpath data tb (Some od) fm (fmap w4)"
      using place_files_Ok [OF s(4) assms(3) place assms(6) t(5), of "Some od" fm data tb] video assms(5) der
        \<open>f \<noteq> gd\<close> \<open>fm gd = None\<close> by simp
    then show thesis using that video by blast
  qed
  then show ?thesis unfolding stored_def db fm' using e(3,4,5) by blast
qed

lemma merge_known_job:
  assumes "foldl deferred (merge_known ext u ins) (cleanup_temp f) w = (Ok p', w')" "job_at ev d0 d w"
  shows "merged d (w_db w') (in_ts ins) (in_src ins) (subject_id u) ext (in_pic ins) p'" "fmap w' = (fmap w)(f := None)"
proof -
  obtain w1 w2 where s: "merge_known ext u ins w = (Ok p', w1)" 
    "try_file (\<lambda>e. Internal e ''can't close tempfile'') w1 = (Ok (), w2)"
    "drop_file (\<lambda>e. Internal e ''can't remove tempfile'') f w2 = (Ok (), w')"
    using assms(1) by (auto simp: cleanup_temp_def elim!: deferred_OkE)
  obtain w0 where m: "mergePic (in_pic ins) (in_ts ins) (in_src ins) (subject_id u) ext w = (Ok p', w0)"
    "Commit w0 = (Ok (), w1)"
    using s(1) unfolding merge_known_def by (auto simp: run_simps elim!: bind_OkE)
  obtain d' where j: "job_at ev d0 d' w0" "merged d d' (in_ts ins) (in_src ins) (subject_id u) ext (in_pic ins) p'"
    by (rule mergePic_job [OF m(1) assms(2)])
  have "w_db w1 = d'" using Commit_job [OF m(2) j(1)] by simp
  moreover have "w_db w2 = w_db w1" "w_db w' = w_db w2"
    by (rule files_db [OF os_frames(1) s(2)], rule files_db [OF os_frames(6) s(3)])
  ultimately show "merged d (w_db w') (in_ts ins) (in_src ins) (subject_id u) ext (in_pic ins) p'" using j(2) by simp
  show "fmap w' = (fmap w)(f := None)"
    using drop_file_Ok [OF s(3)] try_file_Ok [OF s(2)] disk_fmap [OF disk_ends(2) m(2)]
      disk_fmap [OF upload_disk(2) m(1)] by simp
qed

subsection \<open>The task\<close>

text \<open>The outcome of an upload of \<open>data\<close> by \<open>su\<close>, on a database \<open>d\<close>.\<close>

definition upload_done :: "upload_deps \<Rightarrow> database \<Rightarrow> database \<Rightarrow> int \<Rightarrow> upload \<Rightarrow> int \<Rightarrow> string \<Rightarrow> inspected \<Rightarrow>
    (string \<Rightarrow> string option) \<Rightarrow> (string \<Rightarrow> string option) \<Rightarrow> pic \<Rightarrow> bool" where
  "upload_done dp d d' now inp userId data ins fm fm' p \<longleftrightarrow> looked_at dp now inp data ins \<and>
     (\<exists>d1. located d d1 (hashes_of dp data) (in_image ins) (in_pic ins) (in_merge ins) \<and>
       (if in_merge ins
        then merged d1 d' (in_ts ins) (in_src ins) userId (up_ext inp) (in_pic ins) p \<and> fm' = fm
        else stored dp d1 d' data ins userId (up_ext inp) fm fm' p))"

lemma take_in_job:
  assumes "take_in dp conf now inp u loc ref chk names0 w = (Ok p, w')" "job_at ev d0 d w" "plain_suffix dp"
  obtains names data ins where "upload_bytes dp inp loc ref data"
    "in_src ins = source_of dp (in_ts ins) (subject_id u) loc ref names"
    "upload_done dp d (w_db w') now inp (subject_id u) data ins (fmap w) (fmap w') p"
proof -
  obtain f sz names w1 ins w2 where s: "fetch dp chk inp loc ref names0 w = (Ok (f, sz, names), w1)"
    "inspect dp conf now inp (subject_id u) loc ref (f, sz, names) w1 = (Ok ins, w2)"
    "(if in_merge ins then foldl deferred (merge_known (up_ext inp) u ins) (cleanup_temp f)
           else store_new dp conf u (up_ext inp) f sz ins) w2 = (Ok p, w')"
    using assms(1) unfolding take_in_def by (auto elim!: bind_OkE split del: if_split)
  obtain data where b: "upload_bytes dp inp loc ref data" "fmap w f = None" "fmap w1 = (fmap w)(f \<mapsto> data)"
    "temp_name dp f" "sz = int (length data)" by (rule fetch_Ok [OF s(1)])
  have j1: "job_at ev d0 d w1" by (rule job_at_files [OF fetch_frames s(1) assms(2)])
  have "fmap w1 f = Some data" using b(3) by simp
  then obtain d1 where i: "job_at ev d0 d1 w2" "fmap w2 = fmap w1" "looked_at dp now inp data ins"
    "in_src ins = source_of dp (in_ts ins) (subject_id u) loc ref names"
    "located d d1 (hashes_of dp data) (in_image ins) (in_pic ins) (in_merge ins)"
    using inspect_job [OF s(2) [unfolded b(5)] j1] by metis
  have fm: "fmap w2 = (fmap w)(f \<mapsto> data)" using i(2) b(3) by simp
  have "if in_merge ins
      then merged d1 (w_db w') (in_ts ins) (in_src ins) (subject_id u) (up_ext inp) (in_pic ins) p \<and> fmap w' = fmap w
      else stored dp d1 (w_db w') data ins (subject_id u) (up_ext inp) (fmap w) (fmap w') p"
  proof (cases "in_merge ins")
    case True
    then show ?thesis using merge_known_job [OF _ i(1), of "up_ext inp" u ins f p w'] s(3) fm b(2)
      by (simp add: fun_upd_idem)
  next
    case False
    then show ?thesis using store_new_job [OF _ i(1) assms(3) fm b(2,4), of conf u "up_ext inp" ins p w'] s(3) b(5) by simp
  qed
  then have "upload_done dp d (w_db w') now inp (subject_id u) data ins (fmap w) (fmap w') p"
    using i(3,5) unfolding upload_done_def by blast
  with that b(1) i(4) show thesis by blast
qed

lemma upsert_body_Ok:
  assumes "upsert_body dp cx now inp u w = (Ok (p, shown), w')" "job_at ev d0 d w" "plain_suffix dp"
  obtains conf loc ref names data ins where "conf_of cx w = Some conf" "validateCapability u conf [PIC_CREATE] = Ok ()"
    "may_extend u conf PIC_EXTENSION_CREATE (up_ext inp) = Ok ()"
    "checkUrls (e_text ev) (ud_net dp) (up_url inp) (up_referrer inp) conf = Ok (loc, ref)"
    "upload_bytes dp inp loc ref data" "in_src ins = source_of dp (in_ts ins) (subject_id u) loc ref names"
    "upload_done dp d (w_db w') now inp (subject_id u) data ins (fmap w) (fmap w') p"
    "filterPic p u conf = Ok shown"
proof -
  have "\<exists>conf loc ref chk names0. conf_of cx w = Some conf \<and> validateCapability u conf [PIC_CREATE] = Ok () \<and>
      may_extend u conf PIC_EXTENSION_CREATE (up_ext inp) = Ok () \<and>
      checkUrls (e_text (w_env w)) (ud_net dp) (up_url inp) (up_referrer inp) conf = Ok (loc, ref) \<and>
      take_in dp conf now inp u loc ref chk names0 w = (Ok p, w') \<and> filterPic p u conf = Ok shown"
    using assms(1) unfolding upsert_body_def
    by (elim bind_OkE) (auto simp: run_simps GetConfiguration_iff elim!: bind_OkE split: if_splits; blast)
  then obtain conf loc ref chk names0 where s: "conf_of cx w = Some conf" "validateCapability u conf [PIC_CREATE] = Ok ()"
    "may_extend u conf PIC_EXTENSION_CREATE (up_ext inp) = Ok ()"
    "checkUrls (e_text (w_env w)) (ud_net dp) (up_url inp) (up_referrer inp) conf = Ok (loc, ref)"
    "take_in dp conf now inp u loc ref chk names0 w = (Ok p, w')" "filterPic p u conf = Ok shown" by blast
  from take_in_job [OF s(5) assms(2,3)] that [OF s(1-3) _ _ _ _ s(6)] s(4) job_at_D(3) [OF assms(2)]
  show thesis by metis
qed

lemma UpsertPicTask_effect:
  assumes "fits w" "idle w" "plain_suffix dp" "UpsertPicTask dp cx now inp w = (Ok (p, shown), w')"
  shows "\<exists>d su conf loc ref names data ins. visit_only (w_db w) d \<and> token_user cx d su \<and>
    conf_of cx w = Some conf \<and> validateCapability su conf [PIC_CREATE] = Ok () \<and>
    may_extend su conf PIC_EXTENSION_CREATE (up_ext inp) = Ok () \<and>
    checkUrls (e_text (w_env w)) (ud_net dp) (up_url inp) (up_referrer inp) conf = Ok (loc, ref) \<and>
    upload_bytes dp inp loc ref data \<and> in_src ins = source_of dp (in_ts ins) (subject_id su) loc ref names \<and>
    upload_done dp d (w_db w') now inp (subject_id su) data ins (fmap w) (fmap w') p \<and> filterPic p su conf = Ok shown"
proof -
  obtain su w1 w2 where start: "job_at (w_env w) (w_db w1) (w_db w1) w1" "visit_only (w_db w) (w_db w1)"
    "token_user cx (w_db w1) su" "upsert_body dp cx now inp su w1 = (Ok (p, shown), w2)" "w_db w' = w_db w2"
    "w_site w1 = w_site w" "w_files w' = w_files w2" "w_files w1 = w_files w"
    using upsert.succeeds [OF assms(4) [unfolded UpsertPicTask_def authedJob_def] assms(1,2)] by blast
  have files: "fmap w1 = fmap w" "fmap w' = fmap w2" using start(7,8) by (simp_all add: fmap_def)
  obtain conf loc ref names data ins where s: "conf_of cx w1 = Some conf" "validateCapability su conf [PIC_CREATE] = Ok ()"
    "may_extend su conf PIC_EXTENSION_CREATE (up_ext inp) = Ok ()"
    "checkUrls (e_text (w_env w)) (ud_net dp) (up_url inp) (up_referrer inp) conf = Ok (loc, ref)"
    "upload_bytes dp inp loc ref data" "in_src ins = source_of dp (in_ts ins) (subject_id su) loc ref names"
    "upload_done dp (w_db w1) (w_db w2) now inp (subject_id su) data ins (fmap w1) (fmap w2) p"
    "filterPic p su conf = Ok shown"
    by (rule upsert_body_Ok [OF start(4,1) assms(3)])
  have "conf_of cx w = Some conf" using s(1) unfolding conf_of_def start(6) .
  with start s files show ?thesis by metis
qed

subsection \<open>One picture for the same contents\<close>

definition one_pic_each :: "database \<Rightarrow> bool" where
  "one_pic_each d \<longleftrightarrow> (\<forall>h i j. contents_of d h i \<longrightarrow> contents_of d h j \<longrightarrow> i = j)"

lemma located_contents:
  assumes "located d d1 hs im p merge"
  shows "contents_of d1 h i \<longleftrightarrow> contents_of d h i \<or> (h = hs ! 2 \<and> i = p_id p)"
proof (cases "\<exists>i. contents_of d (hs ! 2) i")
  case True
  then show ?thesis using assms by (auto simp: located_def)
next
  case False
  then have "entered d d1 hs im p" using assms by (simp add: located_def)
  then show ?thesis by (auto simp: entered_def contents_of_def ident_def)
qed

lemma merged_keeps:
  assumes "merged d d' ts src u ext p p'"
  shows "contents_of d' h i \<longleftrightarrow> contents_of d h i" "p_id p' = p_id p"
proof -
  have "d' = d\<lparr>db_pics := db_pics d', db_events := db_events d'\<rparr>" using assms unfolding merged_def by blast
  from arg_cong [OF this, of db_idents] show "contents_of d' h i \<longleftrightarrow> contents_of d h i" by (simp add: contents_of_def)
  show "p_id p' = p_id p" using assms by (auto simp: merged_def undelete_simps)
qed

lemma stored_keeps:
  assumes "stored dp d d' data ins u ext fm fm' p'"
  shows "contents_of d' h i \<longleftrightarrow> contents_of d h i" "p_id p' = p_id (in_pic ins)"
proof -
  obtain p q out tb where s: "converted dp data ins p out" "thumbed dp ins p q tb"
    "merged d d' (in_ts ins) (in_src ins) u ext q p'"
    using assms unfolding stored_def by blast
  show "contents_of d' h i \<longleftrightarrow> contents_of d h i" by (rule merged_keeps [OF s(3)])
  have "p_id p = p_id (in_pic ins)" using s(1) by (auto simp: converted_def split: if_splits)
  moreover have "p_id q = p_id p" using s(2) by (auto simp: thumbed_def)
  ultimately show "p_id p' = p_id (in_pic ins)" using merged_keeps(2) [OF s(3)] by simp
qed

lemma upload_keeps_one:
  assumes "upload_done dp d d' now inp u data ins fm fm' p" "one_pic_each d"
  shows "one_pic_each d' \<and> (\<forall>i. contents_of d' (ud_sha512_256 dp data) i \<longleftrightarrow> i = p_id p)"
proof -
  let ?h = "ud_sha512_256 dp data"
  obtain d1 where l: "located d d1 (hashes_of dp data) (in_image ins) (in_pic ins) (in_merge ins)"
    and rest: "if in_merge ins then merged d1 d' (in_ts ins) (in_src ins) u (up_ext inp) (in_pic ins) p \<and> fm' = fm
      else stored dp d1 d' data ins u (up_ext inp) fm fm' p"
    using assms(1) unfolding upload_done_def by blast
  have h: "hashes_of dp data ! 2 = ?h" by (simp add: hashes_of_def)
  have same: "contents_of d' h i \<longleftrightarrow> contents_of d1 h i" "p_id p = p_id (in_pic ins)" for h i
    using rest merged_keeps [of d1 d'] stored_keeps [of dp d1 d' data ins u "up_ext inp" fm fm' p]
    by (auto split: if_splits)
  have new: "contents_of d' h i \<longleftrightarrow> contents_of d h i \<or> (h = ?h \<and> i = p_id p)" for h i
    using same located_contents [OF l, of h i] h by simp
  have "i = p_id p" if "contents_of d ?h i" for i
  proof -
    have old: "\<exists>i. contents_of d (hashes_of dp data ! 2) i" using that h by auto
    have "contents_of d ?h (p_id (in_pic ins))" using l h unfolding located_def if_P [OF old] by simp
    then show ?thesis using that assms(2) same(2) unfolding one_pic_each_def by metis
  qed
  then show ?thesis using assms(2) new unfolding one_pic_each_def by metis
qed

end
