(* ===== verification/UploadRuns.thy ===== *)
theory UploadRuns
  imports UploadFacts VoteRuns
begin

section \<open>The properties of an upload, and a run\<close>


text \<open>C12. Two pictures never have the same contents: if that holds, it still holds after an upload,
  and the picture the upload returns is then the one with the contents that were uploaded.\<close>

theorem UpsertPicTask_one_pic_each:
  assumes "fits w" "idle w" "plain_suffix dp" "one_pic_each (w_db w)"
    "UpsertPicTask dp cx now inp w = (Ok (p, shown), w')"
  shows "one_pic_each (w_db w') \<and> (\<exists>data loc ref. upload_bytes dp inp loc ref data \<and>
    (\<forall>i. contents_of (w_db w') (ud_sha512_256 dp data) i \<longleftrightarrow> i = p_id p))"
proof -
  from UpsertPicTask_effect [OF assms(1-3,5)] obtain d su conf loc ref names data ins where
    s: "visit_only (w_db w) d" "upload_bytes dp inp loc ref data"
    "upload_done dp d (w_db w') now inp (subject_id su) data ins (fmap w) (fmap w') p"
    by (elim exE conjE) (rule that)
  have "db_idents d = db_idents (w_db w)" using s(1) by (simp add: visit_only_def same_rows_def)
  then have "contents_of d = contents_of (w_db w)" by (intro ext) (simp add: contents_of_def)
  then have "one_pic_each d" using assms(4) by (simp only: one_pic_each_def)
  note one = upload_keeps_one [OF s(3) this]
  show ?thesis
    by (intro conjI exI [of _ data] exI [of _ loc] exI [of _ ref] one [THEN conjunct1] one [THEN conjunct2] s(2))
qed

subsection \<open>Statements and file operations\<close>

definition fw :: "(string \<times> string) list \<Rightarrow> nat \<Rightarrow> database \<Rightarrow> nat \<Rightarrow> idalloc \<Rightarrow> world" where
  "fw fs k d n al = (work False d n al)\<lparr>w_files := fs, w_ios := k\<rparr>"

lemma fw_sels: "w_env (fw fs k d n al) = calm_env" "w_files (fw fs k d n al) = fs" "w_ios (fw fs k d n al) = k"
  "w_alloc (fw fs k d n al) = al"
  by (simp_all add: fw_def)

lemma work_fw: "work False d n al = fw [(''/p/3.jpg'', ''cat'')] 0 d n al"
  by (simp add: fw_def work_def demo_def calm_world_def)

lemma fw_find:
  assumes "scan_plan opt = Ok pl"
  shows "find_rows T opt (fw fs k d n al) =
    (Ok (map tr_data (select_rows pl (col_of (tb_cols T)) (tb_get T d))), fw fs k d (Suc n) al)"
  using assms
  by (simp add: find_rows_def query_plan_def bind_def run_simps open_tx_def engine_call_def work_def fw_def
      demo_sels engine_order_id Let_def)

lemma fw_exec: "exec_write f (fw fs k d n al) =
    (case f d of Ok d' \<Rightarrow> (Ok (), fw fs k d' (Suc n) al)
     | Err e \<Rightarrow> (Err e, fw fs k d (Suc n) al) | Panic p \<Rightarrow> (Panic p, fw fs k d (Suc n) al))"
  by (simp add: exec_write_def bind_def run_simps open_tx_def engine_call_def work_def fw_def
      demo_sels Let_def split: res.splits)

lemma fw_insert:
  assumes "tb_vals T calm_env r = Ok vals" "length (tb_cols T) = length vals" "tb_cols T \<noteq> []"
    "\<not> violates T \<lparr>tr_vals = vals, tr_data = r\<rparr> (tb_get T d)"
  shows "insert_row T r (fw fs k d n al) =
    (Ok (), fw fs k (tb_put T (tb_get T d @ [row vals r]) d) (Suc n) al)"
  using assms by (simp add: insert_row_def bind_def run_simps check_cols_def fw_exec row_def Let_def fw_sels)

lemma fw_update:
  assumes "tb_vals T calm_env r = Ok vals" "length (tb_cols T) = length vals" "tb_cols T \<noteq> []"
    "Vals key = Ok kvals" "length (Cols key) = length kvals" "Cols key \<noteq> []"
    "\<not> violates T \<lparr>tr_vals = vals, tr_data = r\<rparr>
      (filter (\<lambda>x. \<not> matches_key (tb_cols T) (Cols key) kvals x) (tb_get T d))"
  shows "update_row T key r (fw fs k d n al) =
    (Ok (), fw fs k (tb_put T (map (\<lambda>x. if matches_key (tb_cols T) (Cols key) kvals x
      then row vals r else x) (tb_get T d)) d) (Suc n) al)"
  using assms unfolding row_def
  by (simp add: update_row_def bind_def run_simps check_cols_def fw_exec Let_def fw_sels)

definition fdone :: "(string \<times> string) list \<Rightarrow> nat \<Rightarrow> database \<Rightarrow> nat \<Rightarrow> idalloc \<Rightarrow> world" where
  "fdone fs k d n al = (committed d n al)\<lparr>w_files := fs, w_ios := k\<rparr>"

lemma fw_Commit: "Commit (fw fs k d n al) = (Ok (), fdone fs k d (Suc n) al)"
  by (simp add: Commit_def tx_commit_def bind_def open_tx_def work_def demo_sels Let_def job_done_def
      run_simps committed_def fw_def fdone_def)

lemma fdone_Rollback: "Rollback (fdone fs k d n al) = (Ok (), fdone fs k d n al)"
  by (simp add: Rollback_def committed_def fdone_def)

lemma fw_AllocId: "AllocId (fw fs k d n ids0) =
    (Ok 100, fw fs k d n \<lparr>al_ranges = [(101, 9)], al_total = 9, al_water = None\<rparr>)"
  by (simp add: AllocId_def allocIdJob_def bind_def run_simps ids0_def work_def fw_def)

lemma fw_call: "file_call (fw fs k d n al) = (Ok None, fw fs (Suc k) d n al)"
  by (simp add: file_call_def fw_sels demo_sels) (simp add: fw_def)

lemma fw_try: "try_file mk (fw fs k d n al) = (Ok (), fw fs (Suc k) d n al)"
  by (simp add: try_file_def bind_run fw_call)

lemma fw_put: "put_file name data (fw fs k d n al) = (Ok (), fw ((name, data) # filter (\<lambda>f. fst f \<noteq> name) fs) k d n al)"
  by (simp add: put_file_def run_simps fw_sels) (simp add: fw_def)

lemma fw_copy: "copy_into name (data, None) (fw fs k d n al) =
    (Ok None, fw ((name, data) # filter (\<lambda>f. fst f \<noteq> name) fs) (Suc k) d n al)"
  by (simp add: copy_into_def bind_run fw_call fw_put)

lemma fw_content: "content name (fw fs k d n al) = (case map_of fs name of Some c \<Rightarrow> c | None \<Rightarrow> [])"
  by (simp add: content_def fw_sels)

lemma fw_move:
  assumes "f \<in> fst ` set fs"
  shows "move_file f new (fw fs k d n al) = (Ok (), fw ((new, case map_of fs f of Some c \<Rightarrow> c | None \<Rightarrow> []) #
    filter (\<lambda>x. fst x \<noteq> f \<and> fst x \<noteq> new) fs) (Suc (Suc k)) d n al)"
  using assms
  by (simp add: move_file_def Rename_def bind_run fw_call has_file_def fw_sels content_def) (simp add: fw_def)

lemma guarded_run: "m w = (Ok x, w') \<Longrightarrow> guarded cs m w = (Ok x, w')"
  and guarded_bind: "m w = (Ok x, w') \<Longrightarrow> bind (guarded cs m) g w = g x w'"
  by (simp_all add: bind_Ok)

subsection \<open>A run\<close>

text \<open>Alice uploads the file \<open>''dogs''\<close>, which is decoded as a PNG; its thumbnail is a JPEG.\<close>

definition png_image :: image where
  "png_image = \<lparr>im_format = ''PNG'', im_width = 4, im_height = 3, im_duration = Ok None,
     im_phash = Ok (''ph'', []), im_write = Ok ''dogs''\<rparr>"

definition jpg_thumb :: image where
  "jpg_thumb = \<lparr>im_format = ''JPEG'', im_width = 2, im_height = 2, im_duration = Ok None,
     im_phash = Ok (''ph'', []), im_write = Ok ''dog''\<rparr>"

definition demo_imaging :: imaging where
  "demo_imaging = \<lparr>ig_image = \<lambda>data. Ok png_image, ig_video = \<lambda>data. Err (InvalidArgument None ''no video''),
     ig_thumbnail = \<lambda>im. Ok jpg_thumb, ig_convert = \<lambda>fmt data. Err (InvalidArgument None ''no video'')\<rparr>"

definition demo_deps :: upload_deps where
  "demo_deps = \<lparr>ud_pixPath = ''/p'', ud_suffix = \<lambda>n. replicate n CHR ''x'',
     ud_net = \<lparr>nl_parse = \<lambda>s. Inl (EOther ''no address''), nl_string = url_rest, nl_media = \<lambda>s. Inr []\<rparr>,
     ud_request = \<lambda>u. None, ud_http = \<lambda>u r. Inl (EOther ''no network''),
     ud_md5 = \<lambda>s. ''m'' @ s, ud_sha1 = \<lambda>s. ''s'' @ s, ud_sha512_256 = \<lambda>s. s, ud_imaging = demo_imaging\<rparr>"

definition dogs :: upload where
  "dogs = \<lparr>up_url = [], up_referrer = [], up_file = Some \<lparr>rd_seek = None, rd_data = (''dogs'', None), rd_back = None\<rparr>,
     up_md5 = [], up_name = [], up_ext = []\<rparr>"

lemma demo_deps_sels: "ud_pixPath demo_deps = ''/p''" "ud_suffix demo_deps = (\<lambda>n. replicate n CHR ''x'')"
  "ud_md5 demo_deps = (\<lambda>s. ''m'' @ s)" "ud_sha1 demo_deps = (\<lambda>s. ''s'' @ s)" "ud_sha512_256 demo_deps = (\<lambda>s. s)"
  "ud_imaging demo_deps = demo_imaging" "ig_image demo_imaging = (\<lambda>data. Ok png_image)"
  "ig_thumbnail demo_imaging = (\<lambda>im. Ok jpg_thumb)"
  by (simp_all add: demo_deps_def demo_imaging_def)

lemma dogs_sels: "up_url dogs = []" "up_md5 dogs = []" "up_name dogs = []" "up_ext dogs = []"
  "up_file dogs = Some \<lparr>rd_seek = None, rd_data = (''dogs'', None), rd_back = None\<rparr>"
  by (simp_all add: dogs_def)

lemma demo_paths:
  "filepath_Join [''/p'', ''__'' @ replicate 0 CHR ''x''] = ''/p/__''"
  "filepath_Join [''/p'', ''__'' @ replicate (Suc (Suc (Suc (Suc 0)))) CHR ''x''] = ''/p/__xxxx''"
  by (simp_all add: filepath_Join_def filepath_Clean_def)

abbreviation (input) "cat_file \<equiv> (''/p/3.jpg'', ''cat'')"

lemma prepare_dogs: "prepareFile demo_deps (fill mk (''dogs'', None)) (fw [cat_file] 0 d n al) =
    (Ok (''/p/__'', 4), fw [(''/p/__'', ''dogs''), cat_file] 3 d n al)"
proof -
  have t: "tempFile demo_deps (fw [cat_file] 0 d n al) = (Ok ''/p/__'', fw [(''/p/__'', []), cat_file] 1 d n al)"
    by (simp add: tempFile_def TempFile_def bind_run fw_call fw_put has_file_def fw_sels demo_deps_sels
        demo_paths(1) [simplified] Let_def)
  show ?thesis unfolding prepareFile_def bind_Ok [where m = "tempFile demo_deps", OF t]
    by (rule guarded_run) (simp add: fill_def bind_run fw_copy fw_try eval_nat_numeral)
qed

lemma fetch_dogs: "fetch demo_deps chk dogs loc ref [] (fw [cat_file] 0 d n al) =
    (Ok (''/p/__'', 4, []), fw [(''/p/__'', ''dogs''), cat_file] 3 d n al)"
  by (simp add: fetch_def dogs_sels prepareLocalFile_def bind_run report_def deferred_def prepare_dogs)

lemma thumb_dogs: "make_thumbnail demo_deps ins (fw [(''/p/__'', ''dogs''), cat_file] 4 d n al) =
    (Ok (''/p/__xxxx'', jpg_thumb, 1, None), fw [(''/p/__xxxx'', ''dog''), (''/p/__'', ''dogs''), cat_file] 6 d n al)"
proof -
  have t: "tempFile demo_deps (fw [(''/p/__'', ''dogs''), cat_file] 4 d n al) =
      (Ok ''/p/__xxxx'', fw [(''/p/__xxxx'', []), (''/p/__'', ''dogs''), cat_file] 5 d n al)"
    by (simp add: tempFile_def TempFile_def bind_run fw_call fw_put has_file_def fw_sels demo_deps_sels
        demo_paths(2) [simplified] eval_nat_numeral Let_def)
  have "prepareFile demo_deps (\<lambda>ft. bind (lift_res (im_write jpg_thumb)) (\<lambda>out. put_file ft out))
      (fw [(''/p/__'', ''dogs''), cat_file] 4 d n al) =
      (Ok (''/p/__xxxx'', ()), fw [(''/p/__xxxx'', ''dog''), (''/p/__'', ''dogs''), cat_file] 6 d n al)"
    unfolding prepareFile_def bind_Ok [where m = "tempFile demo_deps", OF t]
    by (rule guarded_run) (simp add: bind_run fw_put fw_try jpg_thumb_def eval_nat_numeral)
  then show ?thesis
    by (simp add: make_thumbnail_def demo_deps_sels bind_run imageFormatToMime_def IsJpeg_def jpg_thumb_def)
qed

abbreviation (input) "ts2 \<equiv> \<lparr>ts_seconds = 2000, ts_nanos = 0\<rparr>"
abbreviation (input) "al1 \<equiv> \<lparr>al_ranges = [(101, 9)], al_total = 9, al_water = None\<rparr>"

definition dog_pic :: pic where
  "dog_pic = new_pic 100 (file_record 0 4 3 png_image None ts2) ts2"

lemma dog_pic_sels: "p_id dog_pic = 100" "p_del dog_pic = None" "p_source dog_pic = []" "p_ext dog_pic = []"
  "p_thumb dog_pic = []" "p_derived dog_pic = []" "p_created dog_pic = Some ts2"
  "p_file dog_pic = Some (file_record 0 4 3 png_image None ts2)"
  by (simp_all add: dog_pic_def new_pic_def)

lemma insert_dogs: "\<exists>r. \<forall>fs k n al. InsertPic dog_pic (fw fs k start_db n al) =
    (Ok (), fw fs k (start_db\<lparr>db_pics := db_pics start_db @ [row (SInt 100 # r) dog_pic]\<rparr>) (Suc n) al)"
proof -
  have "IndexOrder dog_pic = Ok 2000000000000" by (simp add: order_run dog_pic_sels)
  then have vals: "tb_vals pics_table calm_env dog_pic = Ok [SInt 100, SInt 2000000000000,
      SInt (LowerScoreBound (e_wilson calm_env) dog_pic), SInt (UpperScoreBound (e_wilson calm_env) dog_pic)]"
    by (simp add: tables_vals pic_cols_def dog_pic_sels)
  show ?thesis unfolding InsertPic_def
    by (subst fw_insert [OF vals]) (simp_all add: write_run start_db_sels, blast)
qed

lemma ident_dogs:
  assumes "list_all (\<lambda>r. tr_vals r \<noteq> [SInt 100, SInt t, SBytes v]) (db_idents d)"
    "list_all (\<lambda>r. length (tr_vals r) = 3) (db_idents d)"
  shows "InsertPicIdent (ident 100 t v dct) (fw fs k d n al) = (Ok (), fw fs k (d\<lparr>db_idents := db_idents d @
    [row [SInt 100, SInt t, SBytes v] (ident 100 t v dct)]\<rparr>) (Suc n) al)"
proof -
  have vals: "tb_vals idents_table calm_env (ident 100 t v dct) = Ok [SInt 100, SInt t, SBytes v]"
    by (simp add: tables_vals ident_def)
  show ?thesis unfolding InsertPicIdent_def
    by (subst fw_insert [OF vals])
      (use assms in \<open>auto simp: write_run list_all_iff list_ex_iff length_Suc_conv numeral_3_eq_3\<close>)
qed

lemma png_sels: "im_format png_image = ''PNG''" "im_duration png_image = Ok None" "im_phash png_image = Ok (''ph'', [])"
  by (simp_all add: png_image_def)

lemma insert_new_dogs: "\<exists>d1 r. db_events d1 = [] \<and> db_pics d1 = db_pics start_db @ [row (SInt 100 # r) dog_pic] \<and>
    (\<forall>fs k n. insert_new [''mdogs'', ''sdogs'', ''dogs''] 4 3 png_image None ts2 (fw fs k start_db n ids0) =
      (Ok dog_pic, fw fs k d1 (n + 5) al1))"
proof -
  obtain r where ins: "InsertPic dog_pic (fw fs k start_db n al) = (Ok (), fw fs k
      (start_db\<lparr>db_pics := db_pics start_db @ [row (SInt 100 # r) dog_pic]\<rparr>) (Suc n) al)" for fs k n al
    using insert_dogs by blast
  let ?d = "start_db\<lparr>db_pics := db_pics start_db @ [row (SInt 100 # r) dog_pic],
          db_idents := [row [SInt 100, SInt 3, SBytes ''mdogs''] (ident 100 3 ''mdogs'' []),
            row [SInt 100, SInt 2, SBytes ''sdogs''] (ident 100 2 ''sdogs'' []),
            row [SInt 100, SInt 5, SBytes ''dogs''] (ident 100 5 ''dogs'' []),
            row [SInt 100, SInt PicIdent_DCT_0, SBytes ''ph''] (ident 100 PicIdent_DCT_0 ''ph'' [])]\<rparr>"
  have "insert_new [''mdogs'', ''sdogs'', ''dogs''] 4 3 png_image None ts2 (fw fs k start_db n ids0) =
      (Ok dog_pic, fw fs k ?d (n + 5) al1)" for fs k n
    by (simp add: insert_new_def bind_run fw_AllocId dog_pic_def [symmetric] ins insertPicHashes_def png_sels
        insertPerceptualHash_def ident_dogs start_db_sels eval_nat_numeral)
  then show ?thesis by (intro exI [of _ ?d] exI [of _ r]) (simp add: start_db_sels)
qed

lemma inspect_dogs: "\<exists>d1 r. db_events d1 = [] \<and> db_pics d1 = db_pics start_db @ [row (SInt 100 # r) dog_pic] \<and>
    (\<forall>conf n. inspect demo_deps conf now0 dogs 7 None None (''/p/__'', 4, []) (fw [(''/p/__'', ''dogs''), cat_file] 3 start_db n ids0) =
    (Ok \<lparr>in_ts = ts2, in_src = source_of demo_deps ts2 7 None None [], in_image = png_image, in_mime = 3,
       in_pic = dog_pic, in_merge = False\<rparr>, fw [(''/p/__'', ''dogs''), cat_file] 4 d1 (n + 6) al1))"
proof -
  obtain d1 r where new: "db_events d1 = []" "db_pics d1 = db_pics start_db @ [row (SInt 100 # r) dog_pic]"
    "insert_new [''mdogs'', ''sdogs'', ''dogs''] 4 3 png_image None ts2 (fw fs k start_db n ids0) =
      (Ok dog_pic, fw fs k d1 (n + 5) al1)" for fs k n
    using insert_new_dogs by blast
  have magic: "ReadImage demo_imaging ''dogs'' = Ok png_image"
    by (simp add: ReadImage_def demo_imaging_def ebmlHeader_def movHeader_def) code_simp
  have hashes: "generatePicHashes ''/p/__'' 4 [\<lambda>s. ''m'' @ s, \<lambda>s. ''s'' @ s, \<lambda>s. s]
      (fw [(''/p/__'', ''dogs''), cat_file] 3 d n al) =
      (Ok [''mdogs'', ''sdogs'', ''dogs''], fw [(''/p/__'', ''dogs''), cat_file] 4 d n al)" for d n al
    by (simp add: generatePicHashes_def bind_run fw_try fw_content eval_nat_numeral)
  have "findExistingPic PicIdent_SHA512_256 ''dogs'' (fw fs k start_db n al) = (Ok None, fw fs k start_db (Suc n) al)"
    for fs k n al
    by (simp add: findExistingPic_def bind_run find_run fw_find start_db_sels)
  then have find: "find_or_insert [''mdogs'', ''sdogs'', ''dogs''] 4 3 png_image None ts2 (fw fs k start_db n ids0) =
      (Ok (dog_pic, False), fw fs k d1 (n + 6) al1)" for fs k n
    by (simp add: find_or_insert_def bind_run new(3) add.commute)
  have mime: "imageFormatToMime ''PNG'' = Ok 3"
    by (simp add: imageFormatToMime_def IsJpeg_def IsGif_def IsPng_def)
  have data: "take (nat 4) (content ''/p/__'' (fw [(''/p/__'', ''dogs''), cat_file] 4 d n al)) = ''dogs''" for d n al
    by (simp add: fw_content eval_nat_numeral)
  have "inspect demo_deps conf now0 dogs 7 None None (''/p/__'', 4, []) (fw [(''/p/__'', ''dogs''), cat_file] 3 start_db n ids0) =
    (Ok \<lparr>in_ts = ts2, in_src = source_of demo_deps ts2 7 None None [], in_image = png_image, in_mime = 3,
       in_pic = dog_pic, in_merge = False\<rparr>, fw [(''/p/__'', ''dogs''), cat_file] 4 d1 (n + 6) al1)" for conf n
    by (simp only: inspect_def bind_run prod.case demo_deps_sels now0_ts res.case hashes dogs_sels data magic png_sels
        mime check_duration_def option.case find simp_thms if_True list.case)
  then show ?thesis using new(1,2) by blast
qed

text \<open>Entering the picture and moving the files, in the database \<open>d\<close> with the new row.\<close>

lemma update_dogs:
  assumes "db_pics d = db_pics start_db @ [row (SInt 100 # r) dog_pic]" "p_id p = 100" "IndexOrder p = Ok v"
  shows "\<exists>rows. \<forall>fs k n al. UpdatePic p (fw fs k d n al) = (Ok (), fw fs k (d\<lparr>db_pics := rows\<rparr>) (Suc n) al)"
proof -
  have vals: "tb_vals pics_table calm_env p = Ok [SInt 100, SInt v, SInt (LowerScoreBound (e_wilson calm_env) p),
      SInt (UpperScoreBound (e_wilson calm_env) p)]"
    using assms by (simp add: tables_vals pic_cols_def)
  show ?thesis using assms unfolding UpdatePic_def
    by (subst fw_update [OF vals]) (simp_all add: write_run start_db_sels, blast)
qed

lemma merge_dogs:
  assumes "db_pics d = db_pics start_db @ [row (SInt 100 # r) dog_pic]" "db_events d = []" "p_id p = 100"
    "p_del p = None" "p_created p = Some ts2" "p_source p = []" "p_ext p = []"
  shows "\<exists>p' d'. p_id p' = 100 \<and> p_file p' = p_file p \<and> p_thumb p' = p_thumb p \<and> p_derived p' = p_derived p \<and>
    (\<forall>fs k n al. mergePic p ts2 src 7 [] (fw fs k d n al) = (Ok p', fw fs k d' (n + 3) al))"
proof -
  let ?p = "p\<lparr>p_modified := Some ts2, p_source := [src], p_ext := []\<rparr>"
  let ?d = "d\<lparr>db_events := [row [SInt 7, SInt 2000000000000, SInt 0] (upsert_event 7 100 ts2 0)]\<rparr>"
  have "IndexOrder ?p = Ok 2000000000000" using assms(4,5) by (simp add: order_run)
  then obtain rows where up: "UpdatePic ?p (fw fs k ?d n al) = (Ok (), fw fs k (?d\<lparr>db_pics := rows\<rparr>) (Suc n) al)"
    for fs k n al using update_dogs [of ?d r ?p] assms(1,3) by auto
  have idx: "nextUserEventIndex 7 2000000000000 (fw fs k d n al) = (Ok 0, fw fs k d (Suc n) al)" for fs k n al
    using assms(2) by (simp add: nextUserEventIndex_def bind_run find_run fw_find next_index_def)
  have ts: "UserEventCreatedTsCol (Some ts2) = Ok 2000000000000" by (simp add: UserEventCreatedTsCol_def order_run)
  have vals: "tb_vals events_table calm_env (upsert_event 7 100 ts2 0) = Ok [SInt 7, SInt 2000000000000, SInt 0]"
    using ts by (simp add: tables_vals upsert_event_def)
  have ev: "InsertUserEvent (upsert_event 7 100 ts2 0) (fw fs k d n al) = (Ok (), fw fs k ?d (Suc n) al)" for fs k n al
    unfolding InsertUserEvent_def
    by (subst fw_insert [OF vals]) (use assms(2) in \<open>simp_all add: write_run\<close>)
  have "undelete (p\<lparr>p_modified := Some ts2\<rparr>) = p\<lparr>p_modified := Some ts2\<rparr>" using assms(4) by (simp add: undelete_def)
  then have "mergePic p ts2 src 7 [] (fw fs k d n al) = (Ok ?p, fw fs k (?d\<lparr>db_pics := rows\<rparr>) (n + 3) al)" for fs k n al
    using assms(3,6,7)
    by (simp add: mergePic_def Let_def has_source_def tell_uploader_def AnonymousUserId_def bind_run ts idx ev merge_ext_def
        up eval_nat_numeral)
  then show ?thesis using assms(3)
    by (intro exI [of _ ?p] exI [of _ "?d\<lparr>db_pics := rows\<rparr>"]) simp
qed

lemma store_dogs:
  assumes "db_pics d = db_pics start_db @ [row (SInt 100 # r) dog_pic]" "db_events d = []"
  shows "\<exists>p w'. store_new demo_deps conf (Some alice) [] ''/p/__'' 4 \<lparr>in_ts = ts2, in_src = src, in_image = png_image,
      in_mime = 3, in_pic = dog_pic, in_merge = False\<rparr> (fw [(''/p/__'', ''dogs''), cat_file] 4 d n al) = (Ok p, w') \<and>
    Rollback w' = (Ok (), w')"
proof -
  let ?ins = "\<lparr>in_ts = ts2, in_src = src, in_image = png_image, in_mime = 3, in_pic = dog_pic, in_merge = False\<rparr>"
  let ?th = "file_record 0 3 1 jpg_thumb None ts2"
  let ?q = "dog_pic\<lparr>p_thumb := [?th]\<rparr>"
  let ?fs = "[(''/p/__xxxx'', ''dog''), (''/p/__'', ''dogs''), cat_file]"
  obtain p d' where p: "p_id p = 100" "p_file p = p_file dog_pic" "p_thumb p = [?th]" "p_derived p = []"
    "mergePic ?q ts2 src 7 [] (fw fs k d n al) = (Ok p, fw fs k d' (n + 3) al)" for fs k n al
    using merge_dogs [of d r ?q src] assms by (auto simp: dog_pic_sels)
  obtain newpath where np: "PicFilePath ''/p'' 100 3 = Ok newpath"
    by (simp add: PicFilePath_def picFileMimeExt_def)
  obtain newthumb where nt: "PicFileDerivedPath ''/p'' 100 0 1 = Ok newthumb"
    by (simp add: PicFileDerivedPath_def picFileMimeExt_def)
  have add: "add_derived demo_deps ''/p/__'' 4 ?ins w = (Ok (dog_pic, None), w)" for w
    by (simp add: add_derived_def is_video_def run_simps)
  have stat: "Stat_size ''/p/__xxxx'' mk (fw ?fs k d n al) = (Ok 3, fw ?fs (Suc k) d n al)" for mk k
    by (simp add: Stat_size_def bind_run fw_try fw_content)
  have idx: "nextPicFileIndex [] [] = Ok 0" by (simp add: nextPicFileIndex_def free_index.simps)
  have mime: "pf_mime (file_record i s m im du t) = m" "pf_index (file_record i s m im du t) = i" for i s m im du t
    by (simp_all add: file_record_def)
  have enter: "enter_pic demo_deps [] 7 ?ins dog_pic (''/p/__xxxx'', jpg_thumb, 1, None) (fw ?fs 6 d n al) =
      (Ok (p, newpath), fw ?fs 8 d' (n + 3) al)"
    by (simp add: enter_pic_def bind_run stat dog_pic_sels idx p fw_try mime demo_deps_sels np eval_nat_numeral)
  let ?fs1 = "(newpath, ''dogs'') # filter (\<lambda>x. fst x \<noteq> ''/p/__'' \<and> fst x \<noteq> newpath) ?fs"
  have m1: "move_file ''/p/__'' newpath (fw ?fs 8 d' m al) = (Ok (), fw ?fs1 10 d' m al)" for m
    by (subst fw_move) (simp_all add: eval_nat_numeral)
  have "''/p/__xxxx'' \<in> fst ` set ?fs1" by auto
  from fw_move [OF this] obtain fs2 where
    m2: "move_file ''/p/__xxxx'' newthumb (fw ?fs1 10 d' m al) = (Ok (), fw fs2 12 d' m al)" for m
    by (simp add: eval_nat_numeral)
  have der: "derived_path demo_deps p (last (p_thumb p)) = Ok newthumb"
    using nt p by (simp add: derived_path_def demo_deps_sels mime)
  have place: "place_files demo_deps p ''/p/__'' ''/p/__xxxx'' None newpath (fw ?fs 8 d' m al) = (Ok (), fw fs2 12 d' m al)" for m
    unfolding place_files_def der
    by (subst guarded_bind [where m = "move_file ''/p/__'' newpath", OF m1], subst guarded_bind [OF run_lift_res],
        subst guarded_bind [where m = "move_file ''/p/__xxxx'' newthumb", OF m2]) (simp add: p run_simps)
  have "store_new demo_deps conf (Some alice) [] ''/p/__'' 4 ?ins (fw [(''/p/__'', ''dogs''), cat_file] 4 d n al) =
      (Ok p, fdone fs2 12 d' (Suc (n + 3)) al)"
    unfolding store_new_def bind_Ok [where m = "add_derived demo_deps ''/p/__'' 4 ?ins", OF add] prod.case
    by (subst guarded_bind [where m = "make_thumbnail demo_deps ?ins", OF thumb_dogs], simp only: fst_conv alice_subject,
        subst guarded_bind [where m = "enter_pic demo_deps [] 7 ?ins dog_pic (''/p/__xxxx'', jpg_thumb, 1, None)", OF enter])
      (simp add: bind_run place fw_Commit)
  then show ?thesis using fdone_Rollback by blast
qed

lemma upload_demo: "\<exists>p shown w'. UpsertPicTask demo_deps as_alice now0 dogs demo = (Ok (p, shown), w')"
proof -
  obtain d1 r where i: "db_events d1 = []" "db_pics d1 = db_pics start_db @ [row (SInt 100 # r) dog_pic]"
    "inspect demo_deps conf now0 dogs 7 None None (''/p/__'', 4, []) (fw [(''/p/__'', ''dogs''), cat_file] 3 start_db n ids0) =
    (Ok \<lparr>in_ts = ts2, in_src = source_of demo_deps ts2 7 None None [], in_image = png_image, in_mime = 3,
       in_pic = dog_pic, in_merge = False\<rparr>, fw [(''/p/__'', ''dogs''), cat_file] 4 d1 (n + 6) al1)" for conf n
    using inspect_dogs by blast
  obtain p w' where st: "store_new demo_deps defaultConfiguration (Some alice) [] ''/p/__'' 4 \<lparr>in_ts = ts2,
      in_src = source_of demo_deps ts2 7 None None [], in_image = png_image,
      in_mime = 3, in_pic = dog_pic, in_merge = False\<rparr> (fw [(''/p/__'', ''dogs''), cat_file] 4 d1 (6 + 6) al1) = (Ok p, w')"
    "Rollback w' = (Ok (), w')"
    using store_dogs [OF i(2,1)] by blast
  have take: "take_in demo_deps defaultConfiguration now0 dogs (Some alice) None None chk []
      (fw [cat_file] 0 start_db 6 ids0) = (Ok p, w')" for chk
    unfolding take_in_def bind_Ok [where m = "fetch demo_deps chk dogs None None []", OF fetch_dogs] prod.case
    by (simp only: alice_subject,
        subst guarded_bind [where m = "inspect demo_deps defaultConfiguration now0 dogs 7 None None (''/p/__'', 4, [])", OF i(3)])
      (simp only: inspected.select_convs if_False st(1) dogs_sels)
  have "upsert_body demo_deps as_alice now0 dogs (Some alice) (fw [cat_file] 0 start_db 6 ids0) =
      (res_map (\<lambda>shown. (p, shown)) (filterPic p (Some alice) defaultConfiguration), w')"
    by (simp add: upsert_body_def bind_run alice_conf alice_may may_extend_def dogs_sels checkUrls_def take)
  then show ?thesis using st(2)
    by (simp add: UpsertPicTask_def run_alice bind_run revert_def deferred_def work_fw filterPic_def userCredOf_def)
qed

lemma demo_suffix: "plain_suffix demo_deps"
  by (simp add: plain_suffix_def demo_deps_sels)


theorem UpsertPicTask_one_pic_each_witness:
  "\<exists>p shown w'. UpsertPicTask demo_deps as_alice now0 dogs demo = (Ok (p, shown), w') \<and> one_pic_each (w_db w')"
proof -
  obtain p shown w' where run: "UpsertPicTask demo_deps as_alice now0 dogs demo = (Ok (p, shown), w')"
    using upload_demo by blast
  have "db_idents (w_db demo) = []" by (simp add: demo_def calm_world_def demo_db_def empty_db_def)
  then have "one_pic_each (w_db demo)" by (simp add: one_pic_each_def contents_of_def)
  from UpsertPicTask_one_pic_each [OF demo_fits demo_idle demo_suffix this run] run show ?thesis by blast
qed

end
