(* ===== verification/Pwt.thy ===== *)
theory Pwt
  imports Schema SqlFacts
begin

section \<open>Base64 for URLs, without padding\<close>

text \<open>
  \<open>base64.RawURLEncoding\<close> of Go's standard library, as far as be/handlers/pwt.go uses it. Three
  bytes are four symbols of six bits; one or two bytes left over are two or three symbols. The
  decoder skips line breaks and does not look at the bits of the last symbol that no byte takes. The
  offset in its error is left out.
\<close>

definition b64_alphabet :: string where
  "b64_alphabet = ''ABCDEFGHIJKLMNOPQRSTUVWXYZabcdefghijklmnopqrstuvwxyz0123456789-_''"

definition b64_sym :: "nat \<Rightarrow> char" where
  "b64_sym k = b64_alphabet ! k"

definition b64_index :: "char \<Rightarrow> nat option" where
  "b64_index c = map_of (zip b64_alphabet [0..<64]) c"

fun b64_groups :: "nat list \<Rightarrow> nat list" where
  "b64_groups [] = []"
| "b64_groups [a] = [a div 4, a mod 4 * 16]"
| "b64_groups [a, b] = [a div 4, a mod 4 * 16 + b div 16, b mod 16 * 4]"
| "b64_groups (a # b # c # r) =
     a div 4 # (a mod 4 * 16 + b div 16) # (b mod 16 * 4 + c div 64) # c mod 64 # b64_groups r"

fun b64_bytes :: "nat list \<Rightarrow> nat list option" where
  "b64_bytes [] = Some []"
| "b64_bytes [w] = None"
| "b64_bytes [w, x] = Some [w * 4 + x div 16]"
| "b64_bytes [w, x, y] = Some [w * 4 + x div 16, x mod 16 * 16 + y div 4]"
| "b64_bytes (w # x # y # z # r) =
     map_option (\<lambda>bs. (w * 4 + x div 16) # (x mod 16 * 16 + y div 4) # (y mod 4 * 64 + z) # bs) (b64_bytes r)"

definition b64_encode :: "string \<Rightarrow> string" where
  "b64_encode s = map b64_sym (b64_groups (map byte s))"

definition line_break :: "char \<Rightarrow> bool" where
  "line_break c \<longleftrightarrow> c = CHR 0x0A \<or> c = CHR 0x0D"

definition b64_error :: gerr where
  "b64_error = EOther ''illegal base64 data''"

definition b64_decode :: "string \<Rightarrow> gerr + string" where
  "b64_decode s =
     (let ks = map b64_index (filter (\<lambda>c. \<not> line_break c) s)
      in if None \<in> set ks then Inl b64_error
         else case b64_bytes (map the ks) of
                None \<Rightarrow> Inl b64_error
              | Some bs \<Rightarrow> Inr (map char_of bs))"

subsection \<open>Decoding undoes encoding\<close>

lemma b64_groups_less: "\<forall>b \<in> set bs. b < 256 \<Longrightarrow> k \<in> set (b64_groups bs) \<Longrightarrow> k < 64"
proof (induction bs rule: b64_groups.induct)
  case (2 a)
  then show ?case by auto
next
  case (3 a b)
  then show ?case by auto
next
  case (4 a b c r)
  then show ?case by auto
qed simp

lemma b64_bytes_groups: "\<forall>b \<in> set bs. b < 256 \<Longrightarrow> b64_bytes (b64_groups bs) = Some bs"
  by (induction bs rule: b64_groups.induct) auto

lemma b64_symbols: "\<forall>k \<in> set [0..<64]. b64_index (b64_sym k) = Some k \<and> \<not> line_break (b64_sym k) \<and>
    b64_sym k \<noteq> CHR ''.''"
  by code_simp

lemma b64_symbol: "k < 64 \<Longrightarrow> b64_index (b64_sym k) = Some k"
  "k < 64 \<Longrightarrow> \<not> line_break (b64_sym k)" "k < 64 \<Longrightarrow> b64_sym k \<noteq> CHR ''.''"
  using b64_symbols by auto

lemma byte_less: "\<forall>b \<in> set (map byte s). b < 256"
  by (simp add: byte_def)

lemma b64_roundtrip: "b64_decode (b64_encode s) = Inr s"
proof -
  let ?ks = "b64_groups (map byte s)"
  have less: "k < 64" if "k \<in> set ?ks" for k using b64_groups_less [OF byte_less that] .
  have "filter (\<lambda>c. \<not> line_break c) (map b64_sym ?ks) = map b64_sym ?ks"
    using less b64_symbol(2) by (auto intro!: filter_True)
  moreover have "map b64_index (map b64_sym ?ks) = map Some ?ks"
    using less b64_symbol(1) by auto
  moreover have "b64_bytes ?ks = Some (map byte s)" by (rule b64_bytes_groups [OF byte_less])
  moreover have "map char_of (map byte s) = s" by (simp add: byte_def comp_def)
  ultimately show ?thesis
    by (auto simp: b64_decode_def b64_encode_def Let_def simp del: map_map)
      (simp_all add: comp_def byte_def)
qed

lemma b64_no_dot: "CHR ''.'' \<notin> set (b64_encode s)"
  using b64_groups_less [OF byte_less] b64_symbol(3) by (force simp: b64_encode_def)

section \<open>Signed tokens (be/handlers/pwt.go)\<close>

text \<open>
  A token is a header, a payload and a signature, each in base64, with a dot between them. The
  signature is the keyed hash of the text before the last dot. How messages become bytes (package
  proto) and the keyed hash (SHA-512/256 under HMAC) are arguments of the model. The
  decoder reads the clock twice; \<open>co_now\<close> and \<open>co_later\<close> are what it reads.
\<close>

record pwt_header =
  ph_algorithm :: int
  ph_version :: int

record pwt_payload =
  pp_subject :: string
  pp_not_before :: "tspb option"
  pp_not_after :: "tspb option"
  pp_soft_not_after :: "tspb option"
  pp_issuer :: string
  pp_token_id :: int
  pp_type :: int

definition PwtHeader_HS512_256 :: int where "PwtHeader_HS512_256 = 3"
definition PwtPayload_AUTH :: int where "PwtPayload_AUTH = 2"
definition PwtPayload_PIX :: int where "PwtPayload_PIX = 3"

text \<open>\<open>proto.Marshal\<close> and \<open>proto.Unmarshal\<close> of the messages of a token.\<close>

record protolib =
  pl_marshal_header :: "pwt_header \<Rightarrow> gerr + string"
  pl_unmarshal_header :: "string \<Rightarrow> gerr + pwt_header"
  pl_marshal_payload :: "pwt_payload \<Rightarrow> gerr + string"
  pl_unmarshal_payload :: "string \<Rightarrow> gerr + pwt_payload"

record pwtCoder =
  co_proto :: protolib
  co_hmac :: "string \<Rightarrow> string \<Rightarrow> string"
  co_secret :: string
  co_now :: int
  co_later :: int

subsection \<open>Package bytes\<close>

fun SplitN :: "char \<Rightarrow> nat \<Rightarrow> string \<Rightarrow> string list" where
  "SplitN sep 0 s = []"
| "SplitN sep (Suc 0) s = [s]"
| "SplitN sep (Suc (Suc n)) s =
     (case dropWhile (\<lambda>c. c \<noteq> sep) s of
        [] \<Rightarrow> [s]
      | c # r \<Rightarrow> takeWhile (\<lambda>c. c \<noteq> sep) s # SplitN sep (Suc n) r)"

subsection \<open>Decoding\<close>

definition errPwtInvalidMsg :: string where "errPwtInvalidMsg = ''invalid pwt''"
definition errPwtUnsupportedMsg :: string where "errPwtUnsupportedMsg = ''unsupported pwt''"
definition errPwtSignatureMsg :: string where "errPwtSignatureMsg = ''pwt signature mismatch''"
definition errPwtExpiredMsg :: string where "errPwtExpiredMsg = ''expired pwt''"
definition errNotAuthMsg :: string where "errNotAuthMsg = ''invalid auth token''"

text \<open>\<open>x, err := m; if err != nil { return status.C(err, msg) }\<close> for a library call.\<close>

fun or_fail :: "(gerr option \<Rightarrow> sts) \<Rightarrow> gerr + 'a \<Rightarrow> 'a res" where
  "or_fail mk (Inl e) = Err (mk (Some e))"
| "or_fail mk (Inr x) = Ok x"

definition require :: "bool \<Rightarrow> sts \<Rightarrow> unit res" where
  "require c e = (if c then Ok () else Err e)"

definition invalid_pwt :: "gerr option \<Rightarrow> sts" where
  "invalid_pwt e = Unauthenticated e errPwtInvalidMsg"

definition expired_pwt :: "gerr option \<Rightarrow> sts" where
  "expired_pwt e = Unauthenticated e errPwtExpiredMsg"

definition pwt_decode :: "pwtCoder \<Rightarrow> string \<Rightarrow> pwt_payload res" where
  "pwt_decode c data =
     (case SplitN (CHR ''.'') 4 data of
        [b64Header, b64Payload, b64Signature] \<Rightarrow>
          res_bind (or_fail invalid_pwt (b64_decode b64Header)) (\<lambda>rawHeader.
          res_bind (or_fail invalid_pwt (pl_unmarshal_header (co_proto c) rawHeader)) (\<lambda>header.
          res_bind (require (ph_algorithm header = PwtHeader_HS512_256)
            (Unauthenticated None errPwtUnsupportedMsg)) (\<lambda>_.
          res_bind (require (ph_version header = 0) (Unauthenticated None errPwtUnsupportedMsg)) (\<lambda>_.
          res_bind (or_fail invalid_pwt (b64_decode b64Signature)) (\<lambda>signature.
          res_bind (require (co_hmac c (co_secret c) (b64Header @ CHR ''.'' # b64Payload) = signature)
            (Unauthenticated None errPwtSignatureMsg)) (\<lambda>_.
          res_bind (or_fail invalid_pwt (b64_decode b64Payload)) (\<lambda>rawPayload.
          res_bind (or_fail invalid_pwt (pl_unmarshal_payload (co_proto c) rawPayload)) (\<lambda>payload.
          res_bind (or_fail expired_pwt (ptypes_Timestamp (pp_not_before payload))) (\<lambda>notbefore.
          res_bind (require (notbefore \<le> co_now c) (expired_pwt None)) (\<lambda>_.
          res_bind (or_fail expired_pwt (ptypes_Timestamp (pp_not_after payload))) (\<lambda>notafter.
          res_bind (require (co_later c \<le> notafter) (expired_pwt None)) (\<lambda>_.
            Ok payload))))))))))))
      | _ \<Rightarrow> Err (invalid_pwt None))"

subsection \<open>Encoding\<close>

definition pwt_encode :: "pwtCoder \<Rightarrow> pwt_payload \<Rightarrow> string res" where
  "pwt_encode c payload =
     res_bind (or_fail (\<lambda>e. Unknown e ''can't encode pwt header'')
       (pl_marshal_header (co_proto c) \<lparr>ph_algorithm = PwtHeader_HS512_256, ph_version = 0\<rparr>)) (\<lambda>rawHeader.
     res_bind (or_fail (\<lambda>e. Unknown e ''can't encode pwt payload'')
       (pl_marshal_payload (co_proto c) payload)) (\<lambda>rawPayload.
     let token = b64_encode rawHeader @ CHR ''.'' # b64_encode rawPayload in
       Ok (token @ CHR ''.'' # b64_encode (co_hmac c (co_secret c) token))))"

subsection \<open>Three chunks\<close>

lemma SplitN_no_sep: "sep \<notin> set s \<Longrightarrow> SplitN sep (Suc n) s = [s]"
proof (cases n)
  case (Suc k)
  assume "sep \<notin> set s"
  then have no: "dropWhile (\<lambda>c. c \<noteq> sep) s = []" by (auto simp: dropWhile_eq_Nil_conv)
  show ?thesis by (simp add: Suc no)
qed simp

lemma SplitN_cons: "sep \<notin> set a \<Longrightarrow> SplitN sep (Suc (Suc n)) (a @ sep # r) = a # SplitN sep (Suc n) r"
proof -
  assume "sep \<notin> set a"
  then have "\<forall>c \<in> set a. c \<noteq> sep" by auto
  then show ?thesis by (simp add: takeWhile_append2 dropWhile_append2)
qed

lemma SplitN_Cons_cases:
  assumes "SplitN sep (Suc (Suc n)) s = a # t" "t \<noteq> []"
  obtains r where "s = a @ sep # r" "sep \<notin> set a" "SplitN sep (Suc n) r = t"
proof (cases "dropWhile (\<lambda>c. c \<noteq> sep) s")
  case (Cons c r)
  then have "c = sep" by (metis (mono_tags, lifting) dropWhile_eq_Cons_conv)
  then have "s = takeWhile (\<lambda>c. c \<noteq> sep) s @ sep # r" using Cons by (metis takeWhile_dropWhile_id)
  moreover have "sep \<notin> set (takeWhile (\<lambda>c. c \<noteq> sep) s)" by (auto dest: set_takeWhileD)
  ultimately show thesis using that assms Cons by auto
next
  case Nil
  with assms show thesis by (simp add: Nil del: dropWhile_eq_Nil_conv)
qed

lemma SplitN_three: "SplitN sep 4 s = [a, b, c] \<longleftrightarrow>
    s = a @ sep # b @ sep # c \<and> sep \<notin> set a \<and> sep \<notin> set b \<and> sep \<notin> set c"
proof
  assume "SplitN sep 4 s = [a, b, c]"
  then have 1: "SplitN sep (Suc (Suc 2)) s = a # [b, c]" by (simp add: numeral_eq_Suc)
  obtain r where r: "s = a @ sep # r" "sep \<notin> set a" "SplitN sep (Suc 2) r = [b, c]"
    by (rule SplitN_Cons_cases [OF 1]) auto
  then have 2: "SplitN sep (Suc (Suc 1)) r = b # [c]" by (simp add: numeral_eq_Suc)
  obtain r' where r': "r = b @ sep # r'" "sep \<notin> set b" "SplitN sep (Suc 1) r' = [c]"
    by (rule SplitN_Cons_cases [OF 2]) auto
  have "sep \<notin> set r' \<and> r' = c"
    using r'(3) by (cases "dropWhile (\<lambda>c. c \<noteq> sep) r'") (auto simp: dropWhile_eq_Nil_conv)
  with r r' show "s = a @ sep # b @ sep # c \<and> sep \<notin> set a \<and> sep \<notin> set b \<and> sep \<notin> set c" by auto
qed (simp add: numeral_eq_Suc SplitN_cons SplitN_no_sep del: SplitN.simps)

subsection \<open>What a token proves\<close>

text \<open>The time is within the token's.\<close>

definition pwt_current :: "pwtCoder \<Rightarrow> pwt_payload \<Rightarrow> bool" where
  "pwt_current c p \<longleftrightarrow>
     (case (ptypes_Timestamp (pp_not_before p), ptypes_Timestamp (pp_not_after p)) of
        (Inr nb, Inr na) \<Rightarrow> nb \<le> co_now c \<and> co_later c \<le> na
      | _ \<Rightarrow> False)"

text \<open>The text carries the payload, signed with the secret.\<close>

definition signed_token :: "pwtCoder \<Rightarrow> string \<Rightarrow> pwt_payload \<Rightarrow> bool" where
  "signed_token c data p \<longleftrightarrow> (\<exists>h b s hdr.
     data = h @ CHR ''.'' # b @ CHR ''.'' # s \<and> CHR ''.'' \<notin> set (h @ b @ s) \<and>
     b64_decode s = Inr (co_hmac c (co_secret c) (h @ CHR ''.'' # b)) \<and>
     (\<exists>raw. b64_decode h = Inr raw \<and> pl_unmarshal_header (co_proto c) raw = Inr hdr) \<and>
     ph_algorithm hdr = PwtHeader_HS512_256 \<and> ph_version hdr = 0 \<and>
     (\<exists>raw. b64_decode b = Inr raw \<and> pl_unmarshal_payload (co_proto c) raw = Inr p))"

lemma or_fail_Ok: "or_fail mk r = Ok x \<longleftrightarrow> r = Inr x"
  by (cases r) auto

lemma require_Ok: "require c e = Ok u \<longleftrightarrow> c"
  by (auto simp: require_def)

lemmas res_oks = res_bind_Ok or_fail_Ok require_Ok

lemma pwt_decode_chunks:
  assumes "pwt_decode c data = Ok p"
  obtains h b s where "SplitN (CHR ''.'') 4 data = [h, b, s]"
  using assms by (auto simp: pwt_decode_def split: list.splits)

lemma pwt_decode_Ok: "pwt_decode c data = Ok p \<longleftrightarrow> signed_token c data p \<and> pwt_current c p"
proof
  assume run: "pwt_decode c data = Ok p"
  obtain h b s where chunks: "SplitN (CHR ''.'') 4 data = [h, b, s]"
    by (rule pwt_decode_chunks [OF run])
  obtain raw hdr raw' nb na where d: "b64_decode h = Inr raw" "pl_unmarshal_header (co_proto c) raw = Inr hdr"
    "ph_algorithm hdr = PwtHeader_HS512_256" "ph_version hdr = 0"
    "b64_decode s = Inr (co_hmac c (co_secret c) (h @ CHR ''.'' # b))"
    "b64_decode b = Inr raw'" "pl_unmarshal_payload (co_proto c) raw' = Inr p"
    "ptypes_Timestamp (pp_not_before p) = Inr nb" "nb \<le> co_now c"
    "ptypes_Timestamp (pp_not_after p) = Inr na" "co_later c \<le> na"
    using run by (auto simp: pwt_decode_def chunks res_oks)
  have "signed_token c data p" unfolding signed_token_def
    using chunks [unfolded SplitN_three] d(1-7)
    by (intro exI [of _ h] exI [of _ b] exI [of _ s] exI [of _ hdr]) auto
  then show "signed_token c data p \<and> pwt_current c p" using d(8-11) by (simp add: pwt_current_def)
next
  assume a: "signed_token c data p \<and> pwt_current c p"
  then obtain h b s hdr raw raw' where
    s: "data = h @ CHR ''.'' # b @ CHR ''.'' # s" "CHR ''.'' \<notin> set (h @ b @ s)"
    "b64_decode s = Inr (co_hmac c (co_secret c) (h @ CHR ''.'' # b))"
    "b64_decode h = Inr raw" "pl_unmarshal_header (co_proto c) raw = Inr hdr"
    "ph_algorithm hdr = PwtHeader_HS512_256" "ph_version hdr = 0"
    "b64_decode b = Inr raw'" "pl_unmarshal_payload (co_proto c) raw' = Inr p"
    unfolding signed_token_def by blast
  have chunks: "SplitN (CHR ''.'') 4 data = [h, b, s]" using s(1,2) by (simp add: SplitN_three)
  obtain nb na where t: "ptypes_Timestamp (pp_not_before p) = Inr nb" "nb \<le> co_now c"
    "ptypes_Timestamp (pp_not_after p) = Inr na" "co_later c \<le> na"
    using a by (auto simp: pwt_current_def split: sum.splits)
  show "pwt_decode c data = Ok p"
    by (simp add: pwt_decode_def chunks s(2-) t require_def)
qed

lemma res_bind_Panic: "res_bind m f = Panic p \<longleftrightarrow> m = Panic p \<or> (\<exists>x. m = Ok x \<and> f x = Panic p)"
  by (cases m) auto

lemma no_panics [simp]: "or_fail mk r \<noteq> Panic m" "require b e \<noteq> Panic m"
  by (cases r; simp) (simp add: require_def)

lemma pwt_decode_no_panic: "pwt_decode c data \<noteq> Panic m"
  by (simp add: pwt_decode_def res_bind_Panic split: list.split)

text \<open>The bytes of a message give the message back.\<close>

definition proto_inverse :: "protolib \<Rightarrow> bool" where
  "proto_inverse pl \<longleftrightarrow>
     (\<forall>h s. pl_marshal_header pl h = Inr s \<longrightarrow> pl_unmarshal_header pl s = Inr h) \<and>
     (\<forall>p s. pl_marshal_payload pl p = Inr s \<longrightarrow> pl_unmarshal_payload pl s = Inr p)"

lemma pwt_encode_signs:
  assumes "proto_inverse (co_proto c)" "pwt_encode c p = Ok data"
  shows "signed_token c data p"
proof -
  obtain rh rp where r: "pl_marshal_header (co_proto c) \<lparr>ph_algorithm = PwtHeader_HS512_256, ph_version = 0\<rparr> = Inr rh"
    "pl_marshal_payload (co_proto c) p = Inr rp"
    "data = (b64_encode rh @ CHR ''.'' # b64_encode rp) @ CHR ''.'' #
       b64_encode (co_hmac c (co_secret c) (b64_encode rh @ CHR ''.'' # b64_encode rp))"
    using assms(2) by (auto simp: pwt_encode_def Let_def res_oks)
  have "pl_unmarshal_header (co_proto c) rh = Inr \<lparr>ph_algorithm = PwtHeader_HS512_256, ph_version = 0\<rparr>"
    "pl_unmarshal_payload (co_proto c) rp = Inr p"
    using assms(1) r(1,2) unfolding proto_inverse_def by blast+
  then show ?thesis unfolding signed_token_def
    by (intro exI [of _ "b64_encode rh"] exI [of _ "b64_encode rp"]
        exI [of _ "b64_encode (co_hmac c (co_secret c) (b64_encode rh @ CHR ''.'' # b64_encode rp))"]
        exI [of _ "\<lparr>ph_algorithm = PwtHeader_HS512_256, ph_version = 0\<rparr>"])
      (simp add: r(3) b64_roundtrip b64_no_dot)
qed

end
