(* ===== verification/ApiConvert.thy ===== *)
theory ApiConvert
  imports Complex_Main Lookup UserEvents Tags
begin

section \<open>What clients see (be/handlers/apiconvert.go)\<close>

text \<open>
  The messages of api/data.proto as records, and the functions that make them from the messages of
  the data model. Ids become texts (Varint); a version that cannot be computed panics. The bounds of
  a picture's score are floats, so what they are for given numbers of votes is the argument
  \<open>score\<close>.
\<close>

subsection \<open>Messages\<close>

record api_file =
  af_id :: string
  af_format :: int
  af_width :: int
  af_height :: int
  af_duration :: "int option"
  af_thumbnail :: bool
  af_created :: "tspb option"
  af_modified :: "tspb option"
  af_size :: int

record api_source =
  as_url :: string
  as_referrer :: string
  as_name :: string

record api_pic =
  ap_id :: string
  ap_version :: int
  ap_created :: "tspb option"
  ap_modified :: "tspb option"
  ap_pending :: bool
  ap_views :: int
  ap_score :: "rat \<times> rat"
  ap_file :: api_file
  ap_source :: "api_source list"
  ap_first_user :: "string option"

type_synonym api_pic_thumbs = "api_pic \<times> api_file list"

record api_tag =
  at_pic :: string
  at_tag :: string
  at_name :: string
  at_created :: "tspb option"
  at_modified :: "tspb option"
  at_version :: int

record api_comment =
  ac_pic :: string
  ac_id :: string
  ac_parent :: string
  ac_text :: string
  ac_created :: "tspb option"
  ac_modified :: "tspb option"
  ac_version :: int
  ac_user :: "string option"

record api_user =
  au_id :: string
  au_ident :: string
  au_created :: "tspb option"
  au_modified :: "tspb option"
  au_last_seen :: "tspb option"
  au_version :: int
  au_caps :: "int list"

record api_public_user =
  apu_id :: string
  apu_ident :: string
  apu_created :: "tspb option"

record api_vote =
  av_pic :: string
  av_user :: "string option"
  av_vote :: int
  av_version :: int
  av_created :: "tspb option"
  av_modified :: "tspb option"

record api_comment_vote =
  acv_pic :: string
  acv_comment :: string
  acv_user :: "string option"
  acv_vote :: int
  acv_version :: int
  acv_created :: "tspb option"
  acv_modified :: "tspb option"

datatype api_evt =
    ApiNoEvt
  | ApiOutgoingUpsertPicVote string
  | ApiIncomingUpsertPicVote string string
  | ApiOutgoingPicComment string string
  | ApiIncomingPicComment string string string
  | ApiUpsertPicEvt string

record api_event =
  ae_user :: string
  ae_id :: string
  ae_created :: "tspb option"
  ae_evt :: api_evt

subsection \<open>Pictures\<close>

text \<open>The conversion \<open>int32(n)\<close>.\<close>

definition wrap32 :: "int \<Rightarrow> int" where
  "wrap32 n = (n + 2147483648) mod 4294967296 - 2147483648"

definition apiPicFile :: "int \<Rightarrow> bool \<Rightarrow> pic_file \<Rightarrow> api_file" where
  "apiPicFile picId thumb pf = \<lparr>af_id = EncodeVarint picId @ EncodeVarint (pf_index pf),
     af_format = pf_mime pf, af_width = wrap32 (pf_width pf), af_height = wrap32 (pf_height pf),
     af_duration = Option.bind (pf_anim pf) anim_duration, af_thumbnail = thumb,
     af_created = pf_created pf, af_modified = pf_modified pf, af_size = pf_size pf\<rparr>"

definition apiPicFiles :: "api_file list \<Rightarrow> int \<Rightarrow> bool \<Rightarrow> pic_file list \<Rightarrow> api_file list" where
  "apiPicFiles dst picId thumb srcs = dst @ map (apiPicFile picId thumb) srcs"

definition WilsonScoreInterval :: "(int \<Rightarrow> int \<Rightarrow> rat \<times> rat) \<Rightarrow> pic \<Rightarrow> rat \<times> rat" where
  "WilsonScoreInterval score p =
     (if HardDeleted p then (0, 0)
      else if wrap64 (p_down p + p_up p) = 0 then (25 / 1000, 975 / 1000)
      else score (p_up p) (p_down p))"

text \<open>One round of the loop over the sources.\<close>

definition add_api_source :: "file_source \<Rightarrow> api_pic \<Rightarrow> api_pic" where
  "add_api_source s dst =
     (let dst1 = dst\<lparr>ap_source := ap_source dst @
            [\<lparr>as_url = fs_url s, as_referrer = fs_referrer s, as_name = fs_name s\<rparr>]\<rparr>
      in if fs_user s \<noteq> AnonymousUserId \<and> ap_first_user dst1 \<noteq> None
         then dst1\<lparr>ap_first_user := Some (EncodeVarint (fs_user s))\<rparr> else dst1)"

definition apiPic :: "(int \<Rightarrow> int \<Rightarrow> rat \<times> rat) \<Rightarrow> pic \<Rightarrow> api_pic res" where
  "apiPic score src =
     res_bind (version_of (p_modified src)) (\<lambda>version.
     case p_file src of
       None \<Rightarrow> Panic ''nil pointer dereference''
     | Some pf \<Rightarrow>
         let f = apiPicFile (p_id src) False pf;
             dst = \<lparr>ap_id = GetVarPicId src, ap_version = version, ap_created = p_created src,
               ap_modified = p_modified src, ap_pending = SoftDeleted src, ap_views = p_views src,
               ap_score = WilsonScoreInterval score src,
               ap_file = f\<lparr>af_id := take (length (af_id f) - 1) (af_id f)\<rparr>, ap_source = [],
               ap_first_user = None\<rparr>
         in Ok (fold add_api_source (p_source src) dst))"

definition apiPicAndThumbnail :: "(int \<Rightarrow> int \<Rightarrow> rat \<times> rat) \<Rightarrow> pic \<Rightarrow> api_pic_thumbs res" where
  "apiPicAndThumbnail score src =
     res_map (\<lambda>p. (p, apiPicFiles [] (p_id src) True (p_thumb src))) (apiPic score src)"

definition apiPicAndThumbnails ::
    "(int \<Rightarrow> int \<Rightarrow> rat \<times> rat) \<Rightarrow> api_pic_thumbs list \<Rightarrow> pic list \<Rightarrow> api_pic_thumbs list res" where
  "apiPicAndThumbnails score dst srcs = res_map ((@) dst) (res_each (apiPicAndThumbnail score) srcs)"

subsection \<open>Tags, comments, users and votes\<close>

definition known_user :: "int \<Rightarrow> string option" where
  "known_user i = (if i \<noteq> AnonymousUserId then Some (EncodeVarint i) else None)"

definition apiPicTag :: "pic_tag \<Rightarrow> api_tag res" where
  "apiPicTag src = res_map (\<lambda>version. \<lparr>at_pic = EncodeVarint (pt_pic src), at_tag = EncodeVarint (pt_tag src),
     at_name = pt_name src, at_created = pt_created src, at_modified = pt_modified src,
     at_version = version\<rparr>) (version_of (pt_modified src))"

definition apiPicTags :: "api_tag list \<Rightarrow> pic_tag list \<Rightarrow> api_tag list res" where
  "apiPicTags dst srcs = res_map ((@) dst) (res_each apiPicTag srcs)"

definition apiPicComment :: "pic_comment \<Rightarrow> api_comment res" where
  "apiPicComment src = res_map (\<lambda>version. \<lparr>ac_pic = EncodeVarint (pc_pic src), ac_id = EncodeVarint (pc_id src),
     ac_parent = EncodeVarint (pc_parent src), ac_text = pc_text src, ac_created = pc_created src,
     ac_modified = pc_modified src, ac_version = version, ac_user = known_user (pc_user src)\<rparr>)
     (version_of (pc_modified src))"

definition apiPicCommentTree :: "api_comment list \<Rightarrow> pic_comment list \<Rightarrow> api_comment list res" where
  "apiPicCommentTree dst srcs = res_map ((@) dst) (res_each apiPicComment srcs)"

text \<open>
  The maps between the capabilities of the API and of the data model. Their loading checks that both
  enums declare the same numbers under the same names; a missing key gives the number zero.
\<close>

definition schemaapicapmap :: "int \<Rightarrow> int option" where
  "schemaapicapmap c = (if known_capability c then Some c else None)"

definition apischemacapmap :: "int \<Rightarrow> int option" where
  "apischemacapmap c = (if known_capability c then Some c else None)"

definition cap_or_zero :: "int option \<Rightarrow> int" where
  "cap_or_zero o' = (case o' of Some c \<Rightarrow> c | None \<Rightarrow> 0)"

definition apiCaps :: "int list \<Rightarrow> int list \<Rightarrow> int list" where
  "apiCaps dst srcs = dst @ map (\<lambda>c. cap_or_zero (schemaapicapmap c)) srcs"

definition beCaps :: "int list \<Rightarrow> int list \<Rightarrow> int list" where
  "beCaps dst srcs = dst @ map (\<lambda>c. cap_or_zero (apischemacapmap c)) srcs"

definition apiUser :: "user \<Rightarrow> api_user res" where
  "apiUser src = res_map (\<lambda>version. \<lparr>au_id = EncodeVarint (u_id src), au_ident = u_ident src,
     au_created = u_created src, au_modified = u_modified src, au_last_seen = u_last_seen src,
     au_version = version, au_caps = apiCaps [] (u_caps src)\<rparr>) (version_of (u_modified src))"

definition apiPublicUserInfo :: "user \<Rightarrow> api_public_user" where
  "apiPublicUserInfo src =
     \<lparr>apu_id = EncodeVarint (u_id src), apu_ident = u_ident src, apu_created = u_created src\<rparr>"

definition apiPicVote :: "pic_vote \<Rightarrow> api_vote res" where
  "apiPicVote src = res_map (\<lambda>version. \<lparr>av_pic = EncodeVarint (pv_pic src), av_user = known_user (pv_user src),
     av_vote = pv_vote src, av_version = version, av_created = pv_created src,
     av_modified = pv_modified src\<rparr>) (version_of (pv_modified src))"

definition apiPicCommentVote :: "pic_comment_vote \<Rightarrow> api_comment_vote res" where
  "apiPicCommentVote src = res_map (\<lambda>version. \<lparr>acv_pic = EncodeVarint (pcv_pic src),
     acv_comment = EncodeVarint (pcv_comment src), acv_user = known_user (pcv_user src),
     acv_vote = pcv_vote src, acv_version = version, acv_created = pcv_created src,
     acv_modified = pcv_modified src\<rparr>) (version_of (pcv_modified src))"

definition apiPicCommentVotes ::
    "api_comment_vote list \<Rightarrow> pic_comment_vote list \<Rightarrow> api_comment_vote list res" where
  "apiPicCommentVotes dst srcs = res_map ((@) dst) (res_each apiPicCommentVote srcs)"

subsection \<open>Events\<close>

definition apiUserEventId :: "int \<Rightarrow> int \<Rightarrow> int \<Rightarrow> string" where
  "apiUserEventId userId createdTs index =
     (let b = varint_append (word_of_int createdTs) (varint_append (word_of_int userId) [])
      in if index \<noteq> 0 then varint_append (word_of_int index) b else b)"

abbreviation (input) "NoCommentParentId \<equiv> (0 :: int)"

definition apiEvt :: "(int \<Rightarrow> int) \<Rightarrow> evt \<Rightarrow> api_evt" where
  "apiEvt parents e =
     (case e of
        NoEvt \<Rightarrow> ApiNoEvt
      | OutgoingUpsertPicVote i \<Rightarrow> ApiOutgoingUpsertPicVote (EncodeVarint i)
      | IncomingUpsertPicVote i u \<Rightarrow> ApiIncomingUpsertPicVote (EncodeVarint i)
          (if u \<noteq> AnonymousUserId then EncodeVarint u else [])
      | OutgoingPicComment i c \<Rightarrow> ApiOutgoingPicComment (EncodeVarint i) (EncodeVarint c)
      | IncomingPicComment i c \<Rightarrow> ApiIncomingPicComment (EncodeVarint i) (EncodeVarint c)
          (if parents c \<noteq> NoCommentParentId then EncodeVarint (parents c) else [])
      | UpsertPicEvt i \<Rightarrow> ApiUpsertPicEvt (EncodeVarint i))"

text \<open>A lookup in the map of parents, which is nil wherever the code calls this, gives zero.\<close>

definition apiUserEvent :: "(int \<Rightarrow> int) \<Rightarrow> user_event \<Rightarrow> api_event res" where
  "apiUserEvent parents src =
     res_map (\<lambda>createdTs. \<lparr>ae_user = EncodeVarint (ue_user src),
       ae_id = apiUserEventId (ue_user src) createdTs (ue_index src), ae_created = ue_created src,
       ae_evt = apiEvt parents (ue_evt src)\<rparr>) (UserEventCreatedTsCol (ue_created src))"

definition apiUserEvents :: "api_event list \<Rightarrow> user_event list \<Rightarrow> (int \<Rightarrow> int) \<Rightarrow> api_event list res" where
  "apiUserEvents dst srcs parents = res_map ((@) dst) (res_each (apiUserEvent parents) srcs)"

subsection \<open>Configuration\<close>

record backend_configuration =
  b_min_comment :: "int option"
  b_max_comment :: "int option"
  b_min_ident :: "int option"
  b_max_ident :: "int option"
  b_min_file_name :: "int option"
  b_max_file_name :: "int option"
  b_min_url :: "int option"
  b_max_url :: "int option"
  b_min_tag :: "int option"
  b_max_tag :: "int option"
  b_anonymous :: "int list option"
  b_new_user :: "int list option"
  b_default_find_index :: "int option"
  b_max_find_index :: "int option"
  b_max_video :: "int option"
  b_self_reply :: "bool option"
  b_sibling_reply :: "bool option"
  b_default_find_events :: "int option"
  b_max_find_events :: "int option"

definition apiConfig :: "configuration \<Rightarrow> backend_configuration" where
  "apiConfig src = \<lparr>
    b_min_comment = c_min_comment src, b_max_comment = c_max_comment src,
    b_min_ident = c_min_ident src, b_max_ident = c_max_ident src,
    b_min_file_name = c_min_file_name src, b_max_file_name = c_max_file_name src,
    b_min_url = c_min_url src, b_max_url = c_max_url src, b_min_tag = c_min_tag src,
    b_max_tag = c_max_tag src, b_anonymous = map_option (apiCaps []) (c_anonymous src),
    b_new_user = map_option (apiCaps []) (c_new_user src),
    b_default_find_index = c_default_find_index src, b_max_find_index = c_max_find_index src,
    b_max_video = c_max_video src, b_self_reply = c_self_reply src,
    b_sibling_reply = c_sibling_reply src, b_default_find_events = c_default_find_events src,
    b_max_find_events = c_max_find_events src\<rparr>"

definition beConfig :: "backend_configuration \<Rightarrow> configuration" where
  "beConfig src = \<lparr>
    c_min_comment = b_min_comment src, c_max_comment = b_max_comment src,
    c_min_ident = b_min_ident src, c_max_ident = b_max_ident src,
    c_min_file_name = b_min_file_name src, c_max_file_name = b_max_file_name src,
    c_min_url = b_min_url src, c_max_url = b_max_url src, c_min_tag = b_min_tag src,
    c_max_tag = b_max_tag src, c_anonymous = map_option (beCaps []) (b_anonymous src),
    c_new_user = map_option (beCaps []) (b_new_user src),
    c_default_find_index = b_default_find_index src, c_max_find_index = b_max_find_index src,
    c_max_video = b_max_video src, c_self_reply = b_self_reply src,
    c_sibling_reply = b_sibling_reply src, c_default_find_events = b_default_find_events src,
    c_max_find_events = b_max_find_events src\<rparr>"

subsection \<open>Facts\<close>

text \<open>The first user is never set: it is copied only where it is already there.\<close>

lemma apiPic_first_user: "apiPic score src = Ok dst \<Longrightarrow> ap_first_user dst = None"
proof -
  have "ap_first_user (fold add_api_source ss d) = ap_first_user d" if "ap_first_user d = None" for ss d
    using that by (induction ss arbitrary: d) (auto simp: add_api_source_def Let_def)
  then show "apiPic score src = Ok dst \<Longrightarrow> ap_first_user dst = None"
    by (auto simp: apiPic_def Let_def res_bind_Ok split: option.splits)
qed

lemma caps_known: "list_all known_capability cs \<Longrightarrow> map (\<lambda>c. cap_or_zero (schemaapicapmap c)) cs = cs"
  "list_all known_capability cs \<Longrightarrow> map (\<lambda>c. cap_or_zero (apischemacapmap c)) cs = cs"
  by (induction cs) (simp_all add: schemaapicapmap_def apischemacapmap_def cap_or_zero_def)

lemma known_cap_or_zero: "known_capability (cap_or_zero (schemaapicapmap c))"
  "known_capability (cap_or_zero (apischemacapmap c))"
  by (simp_all add: schemaapicapmap_def apischemacapmap_def cap_or_zero_def known_capability_def)

end
