(* ===== verification/Rpc.thy ===== *)
theory Rpc
  imports Pwt ApiConvert Upload TaskRunner PicPath
begin

section \<open>The server and who asks (be/handlers/handlers.go, authutil.go)\<close>

text \<open>
  A server has the dependencies its tasks are built with, the coder of tokens, a clock and the runner. A
  task reads the clock once per attempt (\<open>sv_now\<close>); what a handler itself reads from the clock, one
  reading after the other, is \<open>sv_clock\<close>. A request comes with metadata; the interceptor turns
  an authentication token found there into a user and a token id before a handler sees the request.
\<close>

record server =
  sv_deps :: upload_deps
  sv_coder :: pwtCoder
  sv_clock :: "nat \<Rightarrow> int"
  sv_now :: "nat \<Rightarrow> int"
  sv_compare :: "string \<Rightarrow> string \<Rightarrow> gerr option"
  sv_hash :: "string \<Rightarrow> gerr + string"
  sv_runner :: run_env
  sv_rng :: "nat \<Rightarrow> rat"
  sv_phi :: rat
  sv_jitter :: rat
  sv_round :: "rat \<Rightarrow> rat"
  sv_in_a_week :: "int \<Rightarrow> int"
  sv_lower :: "string \<Rightarrow> string"
  sv_score :: "int \<Rightarrow> int \<Rightarrow> rat \<times> rat"
  sv_marshal_http :: "string \<Rightarrow> string \<Rightarrow> gerr + string"
  sv_mtime :: "string \<Rightarrow> int"

type_synonym metadata = "string \<rightharpoonup> string list"

record rpc =
  rc_cx :: ctx
  rc_auth :: "string option"
  rc_md :: "metadata option"

text \<open>The keys that the options of the service declare in api/api.proto.\<close>

definition authPwtHeaderKey :: string where "authPwtHeaderKey = ''pixur-auth-token''"
definition pixPwtHeaderKey :: string where "pixPwtHeaderKey = ''pixur-pix-token''"
definition httpHeaderKey :: string where "httpHeaderKey = ''pixur-http-header-bin''"

text \<open>The runner always returns (\<open>TaskRunner_Run_retries\<close>).\<close>

definition runner_Run :: "server \<Rightarrow> (nat \<Rightarrow> 'a io) \<Rightarrow> 'a io" where
  "runner_Run sv task w =
     the (TaskRunner_Run (sv_runner sv) (sv_rng sv) (sv_phi sv) (sv_jitter sv) (sv_round sv) task w)"

text \<open>The coder of tokens, whose first reading of the clock is the \<open>k\<close>-th one of the handler.\<close>

definition coder_at :: "server \<Rightarrow> nat \<Rightarrow> pwtCoder" where
  "coder_at sv k = (sv_coder sv)\<lparr>co_now := sv_clock sv k, co_later := sv_clock sv (Suc k)\<rparr>"

subsection \<open>Ids of a request\<close>

fun varint_gerr :: "varint_error \<Rightarrow> gerr" where
  "varint_gerr ErrNoInput = EOther ''varint: no input''"
| "varint_gerr ErrInvalidLength = EOther ''varint: invalid length''"
| "varint_gerr ErrInvalidSymbol = EOther ''varint: invalid symbol''"
| "varint_gerr ErrEof = EOther ''varint: eof''"
| "varint_gerr ErrOverflow = EOther ''varint: overflow''"
| "varint_gerr ErrExcessInput = EOther ''varint: excess input''"

text \<open>\<open>v.DecodeAll(s)\<close> and \<open>v.Decode(s)\<close>, with the value as an \<open>int64\<close>.\<close>

definition DecodeAll :: "server \<Rightarrow> string \<Rightarrow> gerr + int" where
  "DecodeAll sv s = map_sum varint_gerr sint (decode_all (sv_lower sv) s)"

definition Decode :: "server \<Rightarrow> string \<Rightarrow> gerr + int \<times> nat" where
  "Decode sv s = map_sum varint_gerr (map_prod sint id) (decode_bytes (sv_lower sv) s)"

subsection \<open>Tokens of a request\<close>

definition authTokenFromMD :: "metadata \<Rightarrow> string option" where
  "authTokenFromMD md =
     (case md authPwtHeaderKey of
        Some tokens \<Rightarrow> (if length tokens \<noteq> 1 then None else Some (hd tokens))
      | None \<Rightarrow> None)"

definition CtxFromAuthToken :: "rpc \<Rightarrow> string \<Rightarrow> rpc" where
  "CtxFromAuthToken rc token = rc\<lparr>rc_auth := Some token\<rparr>"

definition AuthTokenFromCtx :: "rpc \<Rightarrow> string option" where
  "AuthTokenFromCtx rc = rc_auth rc"

definition extractUserToken :: "server \<Rightarrow> pwt_payload \<Rightarrow> (int \<times> int) res" where
  "extractUserToken sv pwt =
     res_map (\<lambda>userId. (userId, pp_token_id pwt))
       (or_fail (\<lambda>e. Internal e ''can't decode pwt subject'') (DecodeAll sv (pp_subject pwt)))"

definition addUserTokenToCtx :: "server \<Rightarrow> rpc \<Rightarrow> pwt_payload option \<Rightarrow> rpc res" where
  "addUserTokenToCtx sv rc pwt =
     (case pwt of
        None \<Rightarrow> Ok rc
      | Some p \<Rightarrow>
          res_map (\<lambda>(userId, tokenId). rc\<lparr>rc_cx := CtxFromUserToken (rc_cx rc) userId tokenId\<rparr>)
            (extractUserToken sv p))"

definition decodeAuthToken :: "pwtCoder \<Rightarrow> string \<Rightarrow> pwt_payload res" where
  "decodeAuthToken c token =
     res_bind (pwt_decode c token) (\<lambda>payload.
     res_map (\<lambda>_. payload) (require (pp_type payload = PwtPayload_AUTH) (Unauthenticated None errNotAuthMsg)))"

definition fillUserIdAndTokenFromCtx :: "server \<Rightarrow> nat \<Rightarrow> rpc \<Rightarrow> rpc res" where
  "fillUserIdAndTokenFromCtx sv k rc =
     (case AuthTokenFromCtx rc of
        None \<Rightarrow> Ok rc
      | Some token \<Rightarrow> res_bind (decodeAuthToken (coder_at sv k) token)
          (\<lambda>payload. addUserTokenToCtx sv rc (Some payload)))"

subsection \<open>The interceptor\<close>

text \<open>What of an error goes over the wire: \<open>gstatus.Error(sts.Code(), sts.Message())\<close>.\<close>

definition gstatus_Error :: "sts \<Rightarrow> sts" where
  "gstatus_Error s = Sts (sts_code s) (sts_message s) None []"

fun wire_error :: "'a res \<Rightarrow> 'a res" where
  "wire_error (Ok x) = Ok x"
| "wire_error (Err s) = Err (gstatus_Error s)"
| "wire_error (Panic p) = Panic p"

definition on_the_wire :: "'a io \<Rightarrow> 'a io" where
  "on_the_wire m w = map_prod wire_error id (m w)"

text \<open>
  The context a handler gets. \<open>management\<close> says that the request asks for a token, whose handler
  looks at the old token itself. It reads the clock at 0 and 1.
\<close>

definition intercepted :: "server \<Rightarrow> bool \<Rightarrow> rpc \<Rightarrow> rpc res" where
  "intercepted sv management rc =
     (case rc_md rc of
        None \<Rightarrow> Ok rc
      | Some md \<Rightarrow>
          (case authTokenFromMD md of
             None \<Rightarrow> Ok rc
           | Some token \<Rightarrow>
               let rc1 = CtxFromAuthToken rc token
               in if management then Ok rc1 else fillUserIdAndTokenFromCtx sv 0 rc1))"

definition intercept :: "server \<Rightarrow> bool \<Rightarrow> (rpc \<Rightarrow> 'a io) \<Rightarrow> rpc \<Rightarrow> 'a io" where
  "intercept sv management handler rc =
     on_the_wire (bind (lift_res (intercepted sv management rc)) handler)"

end
