(* ===== verification/Handlers.thy ===== *)
theory Handlers
  imports Rpc
begin

section \<open>Handlers of requests that change something (be/handlers)\<close>

text \<open>
  Each handler decodes the ids of its request, runs one task and converts the task's result. The
  request's fields are the arguments of the model's handler, in the order of api/api.proto; fields that a handler
  does not look at are left out. Responses without fields are units.
\<close>

text \<open>The decoding of an id that may be left out.\<close>

definition optional_id :: "server \<Rightarrow> string \<Rightarrow> string \<Rightarrow> int io" where
  "optional_id sv s msg =
     (if s \<noteq> [] then lift_res (or_fail (\<lambda>e. InvalidArgument e msg) (DecodeAll sv s)) else ret 0)"

subsection \<open>Comments, tags and votes\<close>

definition handleAddPicComment :: "server \<Rightarrow> rpc \<Rightarrow> string \<Rightarrow> string \<Rightarrow> string \<Rightarrow> api_comment io" where
  "handleAddPicComment sv rc pic_id comment_parent_id txt' =
     bind (optional_id sv pic_id ''Unable to decode pic id'') (\<lambda>picId.
     bind (optional_id sv comment_parent_id ''Unable to decode comment parent id'') (\<lambda>commentParentId.
     bind (runner_Run sv (\<lambda>n. AddPicCommentTask (rc_cx rc) (sv_now sv n) picId commentParentId txt' []))
       (\<lambda>(unfiltered, comment). lift_res (apiPicComment comment))))"

definition handleAddPicTags :: "server \<Rightarrow> rpc \<Rightarrow> string \<Rightarrow> string list \<Rightarrow> unit io" where
  "handleAddPicTags sv rc pic_id tag =
     bind (optional_id sv pic_id ''Unable to decode pic id'') (\<lambda>vid.
     bind (runner_Run sv (\<lambda>n. AddPicTagsTask (rc_cx rc) (sv_now sv n) vid tag)) (\<lambda>_. ret ()))"

definition upsertPicVoteMap :: "int \<Rightarrow> int" where
  "upsertPicVoteMap v = (if v = 0 then 0 else if v = 1 then Vote_UP else if v = 2 then Vote_DOWN
     else if v = 3 then Vote_NEUTRAL else 0)"

definition upsertPicCommentVoteMap :: "int \<Rightarrow> int" where
  "upsertPicCommentVoteMap v = (if v = 0 then 0 else if v = 1 then Vote_UP else if v = 2 then Vote_DOWN
     else if v = 3 then Vote_NEUTRAL else 0)"

definition handleUpsertPicVote :: "server \<Rightarrow> rpc \<Rightarrow> string \<Rightarrow> int \<Rightarrow> unit io" where
  "handleUpsertPicVote sv rc pic_id vote =
     bind (optional_id sv pic_id ''Unable to decode pic id'') (\<lambda>picId.
     bind (runner_Run sv (\<lambda>n. AddPicVoteTask (rc_cx rc) (sv_now sv n) picId (upsertPicVoteMap vote) []))
       (\<lambda>_. ret ()))"

definition handleUpsertPicCommentVote :: "server \<Rightarrow> rpc \<Rightarrow> string \<Rightarrow> string \<Rightarrow> int \<Rightarrow> unit io" where
  "handleUpsertPicCommentVote sv rc pic_id comment_id vote =
     bind (optional_id sv pic_id ''can't to decode pic id'') (\<lambda>picId.
     bind (optional_id sv comment_id ''can't to decode comment id'') (\<lambda>commentId.
     bind (runner_Run sv (\<lambda>n. AddPicCommentVoteTask (rc_cx rc) (sv_now sv n) picId commentId
         (upsertPicCommentVoteMap vote) []))
       (\<lambda>_. ret ())))"

subsection \<open>Pictures\<close>

definition handleIncrementViewCount :: "server \<Rightarrow> rpc \<Rightarrow> string \<Rightarrow> unit io" where
  "handleIncrementViewCount sv rc pic_id =
     bind (optional_id sv pic_id ''bad pic id'') (\<lambda>picId.
     runner_Run sv (\<lambda>n. IncrementViewCountTask (rc_cx rc) (sv_now sv n) picId))"

definition handlePurgePic :: "server \<Rightarrow> rpc \<Rightarrow> string \<Rightarrow> unit io" where
  "handlePurgePic sv rc pic_id =
     bind (optional_id sv pic_id ''bad pic id'') (\<lambda>picId.
     runner_Run sv (\<lambda>n. PurgePicTask (rc_cx rc) (sv_now sv n) (ud_pixPath (sv_deps sv)) picId))"

text \<open>The number of a reason, by its name; an unknown name gives zero.\<close>

definition DeletionReason_name :: "int \<Rightarrow> string option" where
  "DeletionReason_name = [0 \<mapsto> ''UNKNOWN'', 1 \<mapsto> ''NONE'', 2 \<mapsto> ''RULE_VIOLATION'']"

definition Reason_value :: "string \<Rightarrow> int option" where
  "Reason_value = [''UNKNOWN'' \<mapsto> 0, ''NONE'' \<mapsto> 1, ''RULE_VIOLATION'' \<mapsto> 2]"

definition deletion_reason :: "int \<Rightarrow> int" where
  "deletion_reason r =
     (case Reason_value (case DeletionReason_name r of Some nm \<Rightarrow> nm | None \<Rightarrow> []) of
        Some v \<Rightarrow> v | None \<Rightarrow> 0)"

definition handleSoftDeletePic ::
    "server \<Rightarrow> rpc \<Rightarrow> string \<Rightarrow> string \<Rightarrow> int \<Rightarrow> tspb option \<Rightarrow> unit io" where
  "handleSoftDeletePic sv rc pic_id details reason deletion_time =
     bind (optional_id sv pic_id ''bad pic id'') (\<lambda>picId.
     bind (case deletion_time of
         Some ts \<Rightarrow> lift_res (or_fail (\<lambda>e. InvalidArgument e ''bad deletion time'') (ptypes_Timestamp (Some ts)))
       | None \<Rightarrow> ret (sv_in_a_week sv (sv_clock sv 2))) (\<lambda>deletionTime.
     runner_Run sv (\<lambda>n. SoftDeletePicTask (rc_cx rc) (sv_now sv n) picId (Some deletionTime)
       (deletion_reason reason) details False)))"

text \<open>The data of the request is a file in memory, which can be read again and whose seeks succeed.\<close>

definition memFile :: "string \<Rightarrow> reader" where
  "memFile data = \<lparr>rd_seek = None, rd_data = (data, None), rd_back = None\<rparr>"

definition handleUpsertPic ::
    "server \<Rightarrow> rpc \<Rightarrow> string \<Rightarrow> string \<Rightarrow> string \<Rightarrow> string \<Rightarrow> string \<Rightarrow> extmap \<Rightarrow> api_pic io" where
  "handleUpsertPic sv rc url referrer name data md5_hash ext =
     bind (check (length md5_hash = 0 \<or> length md5_hash = 16) (InvalidArgument None ''bad md5 hash'')) (\<lambda>_.
     bind (runner_Run sv (\<lambda>n. UpsertPicTask (sv_deps sv) (rc_cx rc) (sv_now sv n)
       \<lparr>up_url = url, up_referrer = referrer, up_file = (if length data \<noteq> 0 then Some (memFile data) else None),
        up_md5 = md5_hash, up_name = name, up_ext = ext\<rparr>)) (\<lambda>(unfiltered, created).
     lift_res (apiPic (sv_score sv) created)))"

subsection \<open>Users\<close>

definition handleCreateUser :: "server \<Rightarrow> rpc \<Rightarrow> string \<Rightarrow> string \<Rightarrow> unit io" where
  "handleCreateUser sv rc idn secret =
     bind (runner_Run sv (\<lambda>n. CreateUserTask (rc_cx rc) (sv_now sv n) (sv_hash sv) idn secret None []))
       (\<lambda>_. ret ())"

definition known_cap :: "int \<Rightarrow> int res" where
  "known_cap c = (if apischemacapmap c = None \<or> c = 0 then Err (InvalidArgument None ''unknown cap %v'') else Ok c)"

definition handleUpdateUser ::
    "server \<Rightarrow> rpc \<Rightarrow> string \<Rightarrow> int \<Rightarrow> (int list \<times> int list) option \<Rightarrow> api_user io" where
  "handleUpdateUser sv rc user_id version capability =
     bind (optional_id sv user_id ''bad user id'') (\<lambda>objectUserId.
     bind (case capability of
         None \<Rightarrow> ret ([], [])
       | Some (set_capability, clear_capability) \<Rightarrow>
           bind (lift_res (res_each known_cap set_capability)) (\<lambda>newcaps.
           bind (lift_res (res_each known_cap clear_capability)) (\<lambda>oldcaps.
             ret (newcaps, oldcaps)))) (\<lambda>(newcaps, oldcaps).
     bind (runner_Run sv (\<lambda>n. UpdateUserTask (rc_cx rc) (sv_now sv n) objectUserId version newcaps oldcaps)) (\<lambda>u.
     lift_res (apiUser u))))"

definition handleDeleteToken :: "server \<Rightarrow> rpc \<Rightarrow> unit io" where
  "handleDeleteToken sv rc =
     (case AuthTokenFromCtx rc of
        None \<Rightarrow> fail (Unauthenticated None ''missing auth token'')
      | Some token \<Rightarrow>
          bind (wrap_err (\<lambda>e. Unauthenticated e ''can't decode auth token'')
            (lift_res (decodeAuthToken (coder_at sv 2) token))) (\<lambda>payload.
          bind (lift_res (extractUserToken sv payload)) (\<lambda>(userId, tokenId).
          runner_Run sv (\<lambda>n. UnauthUserTask (CtxFromUserToken (rc_cx rc) userId tokenId) (sv_now sv n)
            userId tokenId))))"

subsection \<open>Signing in (get_refresh_token.go)\<close>

definition authPwtDuration :: int where
  "authPwtDuration = 3600 * 1000000000 * 365 * 15"

definition authPwtSoftDuration :: int where
  "authPwtSoftDuration = 3600 * 1000000000 * 24"

text \<open>A time without its fraction of a second, as a message.\<close>

definition whole_second :: "string \<Rightarrow> int \<Rightarrow> tspb res" where
  "whole_second msg t =
     or_fail (\<lambda>e. Internal e msg) (ptypes_TimestampProto (t div 1000000000 * 1000000000))"

record refresh_response =
  rr_auth_token :: string
  rr_pix_token :: string
  rr_auth_payload :: pwt_payload
  rr_pix_payload :: "pwt_payload option"

text \<open>The user and the token that the previous token names.\<close>

definition previous_token :: "server \<Rightarrow> string \<Rightarrow> (int \<times> int) res" where
  "previous_token sv previous_auth_token =
     (if previous_auth_token \<noteq> [] then
        res_bind (case pwt_decode (coder_at sv 2) previous_auth_token of
            Err s \<Rightarrow> Err (Unauthenticated (Some (EStatus s)) ''can't decode token'')
          | r \<Rightarrow> r) (\<lambda>payload.
        res_bind (require (pp_type payload = PwtPayload_AUTH)
          (Unauthenticated None ''can't decode non auth token'')) (\<lambda>_.
        res_map (\<lambda>vid. (vid, pp_token_id payload))
          (or_fail (\<lambda>e. Unauthenticated e ''can't decode subject'') (DecodeAll sv (pp_subject payload)))))
      else Ok (0, 0))"

text \<open>What the user may do decides whether there is a token for pictures as well.\<close>

definition refresh_tokens :: "server \<Rightarrow> int \<Rightarrow> user \<Rightarrow> int \<Rightarrow> refresh_response res" where
  "refresh_tokens sv now u authTokenId =
     res_bind (whole_second ''can't build notbefore'' (now - 60 * 1000000000)) (\<lambda>notBefore.
     res_bind (whole_second ''can't build auth notafter'' (now + authPwtDuration)) (\<lambda>authNotAfter.
     res_bind (whole_second ''can't build auth notafter'' (now + authPwtSoftDuration)) (\<lambda>authSoftNotAfter.
     let subject = EncodeVarint (u_id u);
         authPayload = \<lparr>pp_subject = subject, pp_not_before = Some notBefore, pp_not_after = Some authNotAfter,
           pp_soft_not_after = Some authSoftNotAfter, pp_issuer = [], pp_token_id = authTokenId,
           pp_type = PwtPayload_AUTH\<rparr>;
         pixPayload = \<lparr>pp_subject = subject, pp_not_before = Some notBefore, pp_not_after = Some authNotAfter,
           pp_soft_not_after = None, pp_issuer = [], pp_token_id = 0, pp_type = PwtPayload_PIX\<rparr>;
         encode = (\<lambda>msg p. case pwt_encode (sv_coder sv) p of
           Err s \<Rightarrow> Err (Internal (Some (EStatus s)) msg) | r \<Rightarrow> r)
     in res_bind (encode ''can't build auth token'' authPayload) (\<lambda>authToken.
        case CapIntersect (CapSetOf (u_caps u)) (CapSetOf [PIC_READ]) of (_, _, missing) \<Rightarrow>
        res_bind (if cs_size missing = 0
          then res_map (\<lambda>t. (t, Some pixPayload)) (encode ''can't build pix token'' pixPayload)
          else Ok ([], None)) (\<lambda>(pixToken, pixPayload').
        Ok \<lparr>rr_auth_token = authToken, rr_pix_token = pixToken, rr_auth_payload = authPayload,
            rr_pix_payload = pixPayload'\<rparr>)))))"

definition handleGetRefreshToken ::
    "server \<Rightarrow> rpc \<Rightarrow> string \<Rightarrow> string \<Rightarrow> string \<Rightarrow> refresh_response io" where
  "handleGetRefreshToken sv rc idn secret previous_auth_token =
     bind (lift_res (previous_token sv previous_auth_token)) (\<lambda>(userId, tokenId).
     bind (runner_Run sv (\<lambda>n. AuthUserTask (rc_cx rc) (sv_now sv n) (sv_compare sv) idn secret userId tokenId))
       (\<lambda>(u, newTokenId).
     lift_res (refresh_tokens sv (sv_clock sv 4) u newTokenId)))"

end
