(* ===== verification/ReadHandlers.thy ===== *)
theory ReadHandlers
  imports Handlers
begin

section \<open>Handlers of requests that only look (be/handlers)\<close>

text \<open>
  The handlers of lookups and of files. A file is read through a stream of requests, each for a part
  of it; \<open>read_loop\<close> takes what the stream delivers and gives what was sent back.
\<close>

subsection \<open>Indexes\<close>

definition shown_id :: "int \<Rightarrow> string" where
  "shown_id i = (if i \<noteq> 0 then EncodeVarint i else [])"

record index_response =
  ir_pics :: "api_pic_thumbs list"
  ir_next :: string
  ir_prev :: string

definition handleFindIndexPics :: "server \<Rightarrow> rpc \<Rightarrow> string \<Rightarrow> bool \<Rightarrow> index_response io" where
  "handleFindIndexPics sv rc start_pic_id ascending =
     bind (optional_id sv start_pic_id ''bad pic id'') (\<lambda>picId.
     bind (runner_Run sv (\<lambda>n. ReadIndexPicsTask (rc_cx rc) (sv_now sv n) picId 0 ascending)) (\<lambda>page.
     bind (lift_res (apiPicAndThumbnails (sv_score sv) [] (ip_pics page))) (\<lambda>ps.
       ret \<lparr>ir_pics = ps, ir_next = shown_id (ip_next page), ir_prev = shown_id (ip_prev page)\<rparr>)))"

definition handleFindSchedPics :: "server \<Rightarrow> rpc \<Rightarrow> api_pic_thumbs list io" where
  "handleFindSchedPics sv rc =
     bind (runner_Run sv (\<lambda>n. FindSchedPicsTask (rc_cx rc) (sv_now sv n) 0)) (\<lambda>(unfiltered, ps).
     lift_res (apiPicAndThumbnails (sv_score sv) [] ps))"

definition handleFindSimilarPics :: "server \<Rightarrow> rpc \<Rightarrow> string \<Rightarrow> string list io" where
  "handleFindSimilarPics sv rc pic_id =
     bind (optional_id sv pic_id ''bad pic id'') (\<lambda>requestedPicId.
     bind (runner_Run sv (\<lambda>n. FindSimilarPicsTask (rc_cx rc) (sv_now sv n) requestedPicId)) (\<lambda>is.
       ret (map EncodeVarint is)))"

subsection \<open>Events\<close>

text \<open>The place a page starts at: a user, a time and, unless it is zero, an index, without separators.\<close>

definition decode_event_id :: "server \<Rightarrow> string \<Rightarrow> place res" where
  "decode_event_id sv s =
     (if s = [] then Ok (0, 0, 0)
      else let bad = (\<lambda>e. InvalidArgument e ''bad user event id'') in
        res_bind (or_fail bad (Decode sv s)) (\<lambda>(keyUserId, n1).
        res_bind (or_fail bad (Decode sv (drop n1 s))) (\<lambda>(keyCreatedTs, n2).
        res_bind (if drop (n1 + n2) s \<noteq> [] then or_fail bad (Decode sv (drop (n1 + n2) s)) else Ok (0, 0))
          (\<lambda>(keyIndex, n3).
        if drop (n1 + n2 + n3) s \<noteq> [] then Err (bad None) else Ok (keyUserId, keyCreatedTs, keyIndex)))))"

definition shown_place :: "place \<Rightarrow> string" where
  "shown_place p = (case p of (u, ts, i) \<Rightarrow> if u \<noteq> 0 then apiUserEventId u ts i else [])"

record events_response =
  er_events :: "api_event list"
  er_next :: string
  er_prev :: string

definition handleFindUserEvents :: "server \<Rightarrow> rpc \<Rightarrow> string \<Rightarrow> string \<Rightarrow> bool \<Rightarrow> events_response io" where
  "handleFindUserEvents sv rc user_id start_user_event_id ascending =
     bind (optional_id sv user_id ''bad user id'') (\<lambda>userId.
     bind (lift_res (decode_event_id sv start_user_event_id)) (\<lambda>start.
     bind (runner_Run sv (\<lambda>n. FindUserEventsTask (rc_cx rc) (sv_now sv n) 0 userId start ascending)) (\<lambda>page.
     bind (lift_res (apiUserEvents [] (ep_events page) (\<lambda>c. 0))) (\<lambda>evs.
       ret \<lparr>er_events = evs, er_next = shown_place (ep_next page), er_prev = shown_place (ep_prev page)\<rparr>))))"

subsection \<open>Votes\<close>

definition handleLookupPicVote :: "server \<Rightarrow> rpc \<Rightarrow> string \<Rightarrow> string \<Rightarrow> api_vote option io" where
  "handleLookupPicVote sv rc pic_id user_id =
     bind (optional_id sv pic_id ''Unable to decode pic id'') (\<lambda>picId.
     bind (optional_id sv user_id ''Unable to decode user id'') (\<lambda>userId.
     bind (runner_Run sv (\<lambda>n. LookupPicVoteTask (rc_cx rc) (sv_now sv n) picId userId)) (\<lambda>vote.
     (case vote of None \<Rightarrow> ret None | Some v \<Rightarrow> lift_res (res_map Some (apiPicVote v))))))"

text \<open>The task never leaves its result nil, and the handler reads the first vote of it.\<close>

definition handleLookupPicCommentVote ::
    "server \<Rightarrow> rpc \<Rightarrow> string \<Rightarrow> string \<Rightarrow> string \<Rightarrow> api_comment_vote io" where
  "handleLookupPicCommentVote sv rc pic_id comment_id user_id =
     bind (optional_id sv pic_id ''Unable to decode pic id'') (\<lambda>picId.
     bind (optional_id sv comment_id ''Unable to decode comment id'') (\<lambda>commentId.
     bind (optional_id sv user_id ''Unable to decode user id'') (\<lambda>userId.
     bind (runner_Run sv (\<lambda>n. FindPicCommentVotesTask (rc_cx rc) (sv_now sv n) picId (Some commentId)
         (Some userId))) (\<lambda>votes.
     (case votes of [] \<Rightarrow> panic ''index out of range'' | v # _ \<Rightarrow> lift_res (apiPicCommentVote v))))))"

definition given_id :: "server \<Rightarrow> string \<Rightarrow> string \<Rightarrow> int option io" where
  "given_id sv s msg =
     (if s \<noteq> [] then lift_res (res_map Some (or_fail (\<lambda>e. InvalidArgument e msg) (DecodeAll sv s)))
      else ret None)"

text \<open>This handler builds its task without a clock, which the task calls first of all.\<close>

definition without_clock :: "(int \<Rightarrow> 'a io) \<Rightarrow> 'a io" where
  "without_clock task = panic ''nil pointer dereference''"

definition handleFindPicCommentVotes ::
    "server \<Rightarrow> rpc \<Rightarrow> string \<Rightarrow> string \<Rightarrow> string \<Rightarrow> api_comment_vote list io" where
  "handleFindPicCommentVotes sv rc pic_id comment_id user_id =
     bind (optional_id sv pic_id ''Unable to decode pic id'') (\<lambda>picId.
     bind (given_id sv comment_id ''Unable to decode comment id'') (\<lambda>commentId.
     bind (given_id sv user_id ''Unable to decode user id'') (\<lambda>userId.
     bind (runner_Run sv (\<lambda>n. without_clock (\<lambda>now. FindPicCommentVotesTask (rc_cx rc) now picId commentId userId)))
       (\<lambda>votes. lift_res (apiPicCommentVotes [] votes)))))"

subsection \<open>Pictures and users\<close>

fun flattenPicCommentTree :: "pic_comment list \<Rightarrow> comment_tree \<Rightarrow> pic_comment list" where
  "flattenPicCommentTree acc (CommentTree c ts) =
     fold (\<lambda>t acc. flattenPicCommentTree acc t) ts acc @ [c]"

record details_response =
  dr_pic :: api_pic
  dr_derived :: "api_file list"
  dr_tags :: "api_tag list"
  dr_comments :: "api_comment list"

definition handleLookupPicDetails :: "server \<Rightarrow> rpc \<Rightarrow> string \<Rightarrow> details_response io" where
  "handleLookupPicDetails sv rc pic_id =
     bind (optional_id sv pic_id (''can't parse pic id '' @ pic_id)) (\<lambda>picId.
     bind (runner_Run sv (\<lambda>n. LookupPicTask (rc_cx rc) (sv_now sv n) picId False False)) (\<lambda>v.
     let nodes = pv_tree v;
         pcs = flattenPicCommentTree [] (read_tree (length nodes) nodes 0);
         shown = take (length pcs - 1) pcs
     in bind (lift_res (apiPic (sv_score sv) (pv_pic_shown v))) (\<lambda>p.
        bind (lift_res (apiPicTags [] (pv_tags v))) (\<lambda>tags.
        bind (lift_res (apiPicCommentTree [] shown)) (\<lambda>comments.
          ret \<lparr>dr_pic = p,
            dr_derived = apiPicFiles [] (p_id (pv_pic_shown v)) False (p_derived (pv_pic_shown v)),
            dr_tags = tags, dr_comments = comments\<rparr>)))))"

text \<open>The task does not look at the flag \<open>CheckReadPicExtCap\<close> that this handler sets.\<close>

definition handleLookupPicExtension :: "server \<Rightarrow> rpc \<Rightarrow> string \<Rightarrow> extmap io" where
  "handleLookupPicExtension sv rc pic_id =
     bind (optional_id sv pic_id (''can't parse pic id '' @ pic_id)) (\<lambda>picId.
     bind (runner_Run sv (\<lambda>n. LookupPicTask (rc_cx rc) (sv_now sv n) picId False False)) (\<lambda>v.
       ret (p_ext (pv_pic_shown v))))"

definition handleLookupUser :: "server \<Rightarrow> rpc \<Rightarrow> string \<Rightarrow> api_user io" where
  "handleLookupUser sv rc user_id =
     bind (optional_id sv user_id ''bad user id'') (\<lambda>objectUserId.
     bind (runner_Run sv (\<lambda>n. LookupUserTask (rc_cx rc) (sv_now sv n) objectUserId False)) (\<lambda>u.
     lift_res (apiUser u)))"

definition handleLookupPublicUserInfo :: "server \<Rightarrow> rpc \<Rightarrow> string \<Rightarrow> api_public_user io" where
  "handleLookupPublicUserInfo sv rc user_id =
     bind (optional_id sv user_id ''bad user id'') (\<lambda>objectUserId.
     bind (runner_Run sv (\<lambda>n. LookupUserTask (rc_cx rc) (sv_now sv n) objectUserId True)) (\<lambda>u.
       ret (apiPublicUserInfo u)))"

end
