(* ===== verification/FileHandlers.thy ===== *)
theory FileHandlers
  imports ReadHandlers
begin

section \<open>Reading the files of pictures (be/handlers/read_pic_handler.go), and the configuration\<close>

text \<open>
  A picture's files are shown to whoever has a token for pictures, or to everybody if anonymous users
  may read pictures. A file is read part by part through one stream; the parts a client may ask for
  and what it gets are \<open>read_request\<close> and \<open>read_response\<close>.
\<close>

definition picCacheTimeSeconds :: string where
  "picCacheTimeSeconds = ''604800''"

definition PicFile_Format_name :: "int \<Rightarrow> string option" where
  "PicFile_Format_name = [0 \<mapsto> ''UNKNOWN'', 1 \<mapsto> ''JPEG'', 2 \<mapsto> ''GIF'', 3 \<mapsto> ''PNG'', 4 \<mapsto> ''WEBM'',
     5 \<mapsto> ''MP4'']"

definition Pic_File_Mime_value :: "string \<Rightarrow> int option" where
  "Pic_File_Mime_value = [''UNKNOWN'' \<mapsto> 0, ''JPEG'' \<mapsto> 1, ''GIF'' \<mapsto> 2, ''PNG'' \<mapsto> 3, ''WEBM'' \<mapsto> 4,
     ''MP4'' \<mapsto> 5]"

definition apiFormatToSchemaMime :: "int \<Rightarrow> int res" where
  "apiFormatToSchemaMime format =
     (case PicFile_Format_name format of
        None \<Rightarrow> Err (InvalidArgument None ''unknown format'')
      | Some nm \<Rightarrow> (case Pic_File_Mime_value nm of
          None \<Rightarrow> Err (InvalidArgument None ''unknown name'')
        | Some v \<Rightarrow> Ok v))"

subsection \<open>Who may read\<close>

definition anonymous_caps :: "configuration \<Rightarrow> int list io" where
  "anonymous_caps conf = (case c_anonymous conf of None \<Rightarrow> panic ''nil pointer dereference'' | Some cs \<Rightarrow> ret cs)"

text \<open>The token is decoded at the \<open>k\<close>-th reading of the clock.\<close>

definition authReadPicRequest :: "server \<Rightarrow> nat \<Rightarrow> rpc \<Rightarrow> unit io" where
  "authReadPicRequest sv k rc =
     (case rc_md rc of
        None \<Rightarrow> fail (Internal None ''missing MD'')
      | Some md \<Rightarrow>
          (case md pixPwtHeaderKey of
             Some (t # ts) \<Rightarrow>
               if ts \<noteq> [] then fail (Unauthenticated None ''too many tokens'')
               else (case pwt_decode (coder_at sv k) t of
                   Ok payload \<Rightarrow> check (pp_type payload = PwtPayload_PIX) (Unauthenticated None ''not pix token'')
                 | Err s \<Rightarrow> fail (Unauthenticated (Some (EStatus s)) (writeSelf s))
                 | Panic p \<Rightarrow> panic p)
           | _ \<Rightarrow>
               bind (GetConfiguration (rc_cx rc)) (\<lambda>conf.
               bind (anonymous_caps conf) (\<lambda>caps.
               case CapIntersect (CapSetOf caps) (CapSetOf [PIC_READ]) of (_, _, missing) \<Rightarrow>
                 check (cs_size missing = 0) (Unauthenticated None ''missing pix token'')))))"

definition readPicHeaders :: "server \<Rightarrow> rpc \<Rightarrow> string list io" where
  "readPicHeaders sv rc =
     bind (GetConfiguration (rc_cx rc)) (\<lambda>conf.
     bind (anonymous_caps conf) (\<lambda>caps.
     bind (lift_res (or_fail (\<lambda>e. Internal e ''can't encode headers'')
       (sv_marshal_http sv ''Cache-Control'' (if PIC_READ \<in> set caps then ''public'' else ''private'')))) (\<lambda>h1data.
     bind (lift_res (or_fail (\<lambda>e. Internal e ''can't encode headers'')
       (sv_marshal_http sv ''Cache-Control'' (''max-age='' @ picCacheTimeSeconds)))) (\<lambda>h2data.
       ret [h1data, h2data]))))"

subsection \<open>Which file\<close>

definition decode_file_id :: "server \<Rightarrow> string \<Rightarrow> (int \<times> int option) res" where
  "decode_file_id sv s =
     res_bind (or_fail (\<lambda>e. InvalidArgument e ''can't decode pic id'') (Decode sv s)) (\<lambda>(picId, n).
     if length s \<noteq> n
     then res_map (\<lambda>i. (picId, Some i))
       (or_fail (\<lambda>e. InvalidArgument e ''can't decode pic index'') (DecodeAll sv (drop n s)))
     else Ok (picId, None))"

definition pic_file_path :: "server \<Rightarrow> int \<times> int option \<Rightarrow> int \<Rightarrow> string res" where
  "pic_file_path sv picfile mime =
     (case picfile of
        (picId, Some picDerivedIndex) \<Rightarrow> PicFileDerivedPath (ud_pixPath (sv_deps sv)) picId picDerivedIndex mime
      | (picId, None) \<Rightarrow> PicFilePath (ud_pixPath (sv_deps sv)) picId mime)"

text \<open>\<open>os.Stat\<close> and \<open>os.Open\<close>: what stands under the name, or why it cannot be had.\<close>

definition open_file :: "string \<Rightarrow> string io" where
  "open_file path =
     bind file_call (\<lambda>e. case e of
         Some err \<Rightarrow> fail (NotFound (Some err) ''can't open pic'')
       | None \<Rightarrow> bind (get_state (\<lambda>w. (has_file path w, content path w))) (\<lambda>(there, c).
           if there then ret c else fail (NotFound (Some (EOther ''no such file'')) ''can't open pic'')))"

definition handleLookupPicFile :: "server \<Rightarrow> rpc \<Rightarrow> string \<Rightarrow> int \<Rightarrow> (string list \<times> api_file) io" where
  "handleLookupPicFile sv rc pic_file_id format =
     bind (authReadPicRequest sv 2 rc) (\<lambda>_.
     bind (lift_res (decode_file_id sv pic_file_id)) (\<lambda>picfile.
     bind (lift_res (apiFormatToSchemaMime format)) (\<lambda>mime.
     bind (lift_res (pic_file_path sv picfile mime)) (\<lambda>path.
     bind (open_file path) (\<lambda>c.
     bind (lift_res (or_fail (\<lambda>e. Internal e ''bad ts'') (ptypes_TimestampProto (sv_mtime sv path)))) (\<lambda>mts.
     bind (readPicHeaders sv rc) (\<lambda>headers.
       ret (headers, \<lparr>af_id = pic_file_id, af_format = format, af_width = 0, af_height = 0, af_duration = None,
         af_thumbnail = False, af_created = Some mts, af_modified = Some mts, af_size = int (length c)\<rparr>))))))))"

subsection \<open>Reading a file part by part\<close>

record read_request =
  rq_pic_file_id :: string
  rq_format :: int
  rq_offset :: int
  rq_limit :: int

record read_response =
  rs_data :: string
  rs_eof :: bool

text \<open>\<open>f.ReadAt(buf, off)\<close> for a buffer of the given length, which is never empty here.\<close>

definition ReadAt :: "string \<Rightarrow> nat \<Rightarrow> int \<Rightarrow> read_response io" where
  "ReadAt c len off =
     bind file_call (\<lambda>e. case e of
         Some err \<Rightarrow> fail (Internal (Some err) ''can't read'')
       | None \<Rightarrow>
           if off < 0 then fail (Internal (Some (EOther ''negative offset'')) ''can't read'')
           else let d = take len (drop (nat off) c) in ret \<lparr>rs_data = d, rs_eof = length d < len\<rparr>)"

definition part_length :: "int \<Rightarrow> nat res" where
  "part_length limit =
     (if limit > 1048576 \<or> limit = 0 then Ok 1048576
      else if limit < 0 then Err (InvalidArgument None ''bad limit'')
      else Ok (nat limit))"

text \<open>The file is opened for the first request of the stream only.\<close>

definition opened :: "server \<Rightarrow> string option \<Rightarrow> read_request \<Rightarrow> string io" where
  "opened sv f req =
     (case f of
        Some c \<Rightarrow> ret c
      | None \<Rightarrow>
          bind (lift_res (apiFormatToSchemaMime (rq_format req))) (\<lambda>mime.
          bind (lift_res (decode_file_id sv (rq_pic_file_id req))) (\<lambda>picfile.
          bind (lift_res (pic_file_path sv picfile mime)) (\<lambda>path. open_file path))))"

definition read_part :: "string \<Rightarrow> read_request \<Rightarrow> read_response io" where
  "read_part c req =
     bind (lift_res (part_length (rq_limit req))) (\<lambda>len. ReadAt c len (rq_offset req))"

text \<open>
  The loop over what \<open>Recv\<close> delivers: an error, a request with the error \<open>Send\<close> reports for its answer, or
  the end. Its result is what has been sent and the error the call ends with, if any.
\<close>

fun read_loop :: "server \<Rightarrow> string option \<Rightarrow> (gerr + read_request \<times> gerr option) list \<Rightarrow>
    (read_response list \<times> sts option) io" where
  "read_loop sv f [] w = (Ok ([], None), w)"
| "read_loop sv f (Inl e # rest) w = (Ok ([], Some (Internal (Some e) ''can't recv'')), w)"
| "read_loop sv f (Inr (req, send) # rest) w =
     (case bind (opened sv f req) (\<lambda>c. bind (read_part c req) (\<lambda>resp. ret (c, resp))) w of
        (Ok (c, resp), w1) \<Rightarrow>
          (case send of
             Some e \<Rightarrow> (Ok ([], Some (Internal (Some e) ''can't send'')), w1)
           | None \<Rightarrow>
               (case read_loop sv (Some c) rest w1 of
                  (Ok (resps, s), w2) \<Rightarrow> (Ok (resp # resps, s), w2)
                | (r, w2) \<Rightarrow> (r, w2)))
      | (Err s, w1) \<Rightarrow> (Ok ([], Some s), w1)
      | (Panic p, w1) \<Rightarrow> (Panic p, w1))"

definition handleReadPicFile ::
    "server \<Rightarrow> rpc \<Rightarrow> (gerr + read_request \<times> gerr option) list \<Rightarrow> (read_response list \<times> sts option) io" where
  "handleReadPicFile sv rc reqs w =
     (case authReadPicRequest sv 0 rc w of
        (Ok _, w1) \<Rightarrow> read_loop sv None reqs w1
      | (Err s, w1) \<Rightarrow> (Ok ([], Some s), w1)
      | (Panic p, w1) \<Rightarrow> (Panic p, w1))"

subsection \<open>The configuration\<close>

text \<open>What is sent, if sending works, and the error with which the context ends the stream, which
  stays open until then.\<close>

definition handleWatchBackendConfiguration ::
    "rpc \<Rightarrow> gerr option \<Rightarrow> (backend_configuration \<times> sts) io" where
  "handleWatchBackendConfiguration rc send =
     bind (GetConfiguration (rc_cx rc)) (\<lambda>beconf.
     case send of
       Some e \<Rightarrow> fail (Unavailable (Some e) ''can't send config'')
     | None \<Rightarrow> ret (apiConfig beconf, From (cx_err (rc_cx rc))))"

text \<open>Starting a server loads its configuration over the default one, or does not return.\<close>

definition HandlersInit :: "server \<Rightarrow> backend_configuration option \<Rightarrow> unit io" where
  "HandlersInit sv conf w =
     (case runner_Run sv (\<lambda>n. LoadConfigurationTask (map_option beConfig conf)) w of
        (Err s, w1) \<Rightarrow> (Panic (writeSelf s), w1)
      | r \<Rightarrow> r)"

end
