(* ===== verification/Serve.thy ===== *)
theory Serve
  imports FileHandlers
begin

section \<open>The service (be/handlers/handlers.go)\<close>

text \<open>
  The unary calls of \<open>PixurService\<close>: a request with the fields the handlers look at, and the response. The
  server hands each request to its handler, behind the interceptor. The two streams, files and the
  configuration, do not pass the interceptor.
\<close>

datatype request =
    AddPicCommentRequest string string string
  | AddPicTagsRequest string "string list"
  | CreateUserRequest string string
  | DeleteTokenRequest
  | FindIndexPicsRequest string bool
  | FindPicCommentVotesRequest string string string
  | FindSchedPicsRequest
  | FindSimilarPicsRequest string
  | FindUserEventsRequest string string bool
  | GetRefreshTokenRequest string string string
  | IncrementViewCountRequest string
  | LookupPicCommentVoteRequest string string string
  | LookupPicDetailsRequest string
  | LookupPicExtensionRequest string
  | LookupPicFileRequest string int
  | LookupPicVoteRequest string string
  | LookupUserRequest string
  | LookupPublicUserInfoRequest string
  | PurgePicRequest string
  | SoftDeletePicRequest string string int "tspb option"
  | UpdateUserRequest string int "(int list \<times> int list) option"
  | UpsertPicRequest string string string string string extmap
  | UpsertPicCommentVoteRequest string string int
  | UpsertPicVoteRequest string int

datatype response =
    AddPicCommentResponse api_comment
  | AddPicTagsResponse
  | CreateUserResponse
  | DeleteTokenResponse
  | FindIndexPicsResponse index_response
  | FindPicCommentVotesResponse "api_comment_vote list"
  | FindSchedPicsResponse "api_pic_thumbs list"
  | FindSimilarPicsResponse "string list"
  | FindUserEventsResponse events_response
  | GetRefreshTokenResponse refresh_response
  | IncrementViewCountResponse
  | LookupPicCommentVoteResponse api_comment_vote
  | LookupPicDetailsResponse details_response
  | LookupPicExtensionResponse extmap
  | LookupPicFileResponse "string list" api_file
  | LookupPicVoteResponse "api_vote option"
  | LookupUserResponse api_user
  | LookupPublicUserInfoResponse api_public_user
  | PurgePicResponse
  | SoftDeletePicResponse
  | UpdateUserResponse api_user
  | UpsertPicResponse api_pic
  | UpsertPicCommentVoteResponse
  | UpsertPicVoteResponse

fun management :: "request \<Rightarrow> bool" where
  "management (GetRefreshTokenRequest a b c) = True"
| "management _ = False"

definition dispatch :: "server \<Rightarrow> request \<Rightarrow> rpc \<Rightarrow> response io" where
  "dispatch sv req rc =
     (case req of
        AddPicCommentRequest a b c \<Rightarrow> bind (handleAddPicComment sv rc a b c) (\<lambda>x. ret (AddPicCommentResponse x))
      | AddPicTagsRequest a b \<Rightarrow> bind (handleAddPicTags sv rc a b) (\<lambda>_. ret AddPicTagsResponse)
      | CreateUserRequest a b \<Rightarrow> bind (handleCreateUser sv rc a b) (\<lambda>_. ret CreateUserResponse)
      | DeleteTokenRequest \<Rightarrow> bind (handleDeleteToken sv rc) (\<lambda>_. ret DeleteTokenResponse)
      | FindIndexPicsRequest a b \<Rightarrow> bind (handleFindIndexPics sv rc a b) (\<lambda>x. ret (FindIndexPicsResponse x))
      | FindPicCommentVotesRequest a b c \<Rightarrow> bind (handleFindPicCommentVotes sv rc a b c) (\<lambda>x. ret (FindPicCommentVotesResponse x))
      | FindSchedPicsRequest \<Rightarrow> bind (handleFindSchedPics sv rc) (\<lambda>x. ret (FindSchedPicsResponse x))
      | FindSimilarPicsRequest a \<Rightarrow> bind (handleFindSimilarPics sv rc a) (\<lambda>x. ret (FindSimilarPicsResponse x))
      | FindUserEventsRequest a b c \<Rightarrow> bind (handleFindUserEvents sv rc a b c) (\<lambda>x. ret (FindUserEventsResponse x))
      | GetRefreshTokenRequest a b c \<Rightarrow> bind (handleGetRefreshToken sv rc a b c) (\<lambda>x. ret (GetRefreshTokenResponse x))
      | IncrementViewCountRequest a \<Rightarrow> bind (handleIncrementViewCount sv rc a) (\<lambda>_. ret IncrementViewCountResponse)
      | LookupPicCommentVoteRequest a b c \<Rightarrow> bind (handleLookupPicCommentVote sv rc a b c) (\<lambda>x. ret (LookupPicCommentVoteResponse x))
      | LookupPicDetailsRequest a \<Rightarrow> bind (handleLookupPicDetails sv rc a) (\<lambda>x. ret (LookupPicDetailsResponse x))
      | LookupPicExtensionRequest a \<Rightarrow> bind (handleLookupPicExtension sv rc a) (\<lambda>x. ret (LookupPicExtensionResponse x))
      | LookupPicFileRequest a b \<Rightarrow> bind (handleLookupPicFile sv rc a b) (\<lambda>(headers, file). ret (LookupPicFileResponse headers file))
      | LookupPicVoteRequest a b \<Rightarrow> bind (handleLookupPicVote sv rc a b) (\<lambda>x. ret (LookupPicVoteResponse x))
      | LookupUserRequest a \<Rightarrow> bind (handleLookupUser sv rc a) (\<lambda>x. ret (LookupUserResponse x))
      | LookupPublicUserInfoRequest a \<Rightarrow> bind (handleLookupPublicUserInfo sv rc a) (\<lambda>x. ret (LookupPublicUserInfoResponse x))
      | PurgePicRequest a \<Rightarrow> bind (handlePurgePic sv rc a) (\<lambda>_. ret PurgePicResponse)
      | SoftDeletePicRequest a b c d \<Rightarrow> bind (handleSoftDeletePic sv rc a b c d) (\<lambda>_. ret SoftDeletePicResponse)
      | UpdateUserRequest a b c \<Rightarrow> bind (handleUpdateUser sv rc a b c) (\<lambda>x. ret (UpdateUserResponse x))
      | UpsertPicRequest a b c d e f \<Rightarrow> bind (handleUpsertPic sv rc a b c d e f) (\<lambda>x. ret (UpsertPicResponse x))
      | UpsertPicCommentVoteRequest a b c \<Rightarrow> bind (handleUpsertPicCommentVote sv rc a b c) (\<lambda>_. ret UpsertPicCommentVoteResponse)
      | UpsertPicVoteRequest a b \<Rightarrow> bind (handleUpsertPicVote sv rc a b) (\<lambda>_. ret UpsertPicVoteResponse))"

definition serve :: "server \<Rightarrow> rpc \<Rightarrow> request \<Rightarrow> response io" where
  "serve sv rc req = intercept sv (management req) (dispatch sv req) rc"

end
