(* ===== verification/Promises.thy ===== *)
theory Promises
  imports Serve RunnerFacts UserFacts TagFacts UploadFrames
begin

section \<open>What requests keep, from what their tasks keep\<close>

text \<open>
  The service runs tasks through the interceptor, the handlers and the runner. Three kinds of
  conditions pass from the tasks to the requests. \<open>keeps_whole\<close>: the integrity of the database is kept and
  nothing stays open. \<open>keeps_visits\<close>: moreover nothing but visits is written. \<open>promises R\<close>: a success
  relates the databases before and after by \<open>R\<close>, and an error has written nothing but visits.
\<close>

subsection \<open>The runner and conditions on states\<close>

lemma runner_Run_outcome:
  assumes "runner_Run sv task w = (r, w')"
  obtains es w1 where "run_outcome (re_adapter (sv_runner sv)) task 5 es w w1 r w'"
  by (rule TaskRunner_Run_outcome [of "sv_runner sv" "sv_rng sv" "sv_phi sv" "sv_jitter sv" "sv_round sv" task w])
    (use assms that in \<open>auto simp: runner_Run_def\<close>)

lemma run_outcome_runs:
  assumes "run_outcome ad task tries es w w1 r w'"
  shows "failed_runs task 0 w es w1 \<and> ((\<exists>n. task n w1 = (r, w')) \<or> w' = w1 \<and> (\<exists>e. r = Err e))"
  using assms by (cases r) (auto simp: run_outcome_def)

context frame
begin

lemma keeps_failed_runs:
  assumes "failed_runs task n w es w'" "\<And>n. keeps I (task n)"
  shows "I w w'"
  using assms(1)
proof (induction rule: failed_runs.induct)
  case (one_more n w e w1 es w2)
  from keepsD [OF assms(2) one_more.hyps(1)] one_more.IH show ?case by (rule trans)
qed (rule refl)

end

lemma keeps_runner:
  assumes "frame K" "\<And>n. keeps K (task n)"
  shows "keeps K (runner_Run sv task)"
proof (rule keepsI)
  fix w r w'
  assume "runner_Run sv task w = (r, w')"
  then obtain es w1 where out: "run_outcome (re_adapter (sv_runner sv)) task 5 es w w1 r w'"
    by (rule runner_Run_outcome)
  from run_outcome_runs [OF this] have runs: "failed_runs task 0 w es w1"
    "(\<exists>n. task n w1 = (r, w')) \<or> w' = w1" by blast+
  from frame.keeps_failed_runs [OF assms(1) runs(1) assms(2)] have "K w w1" .
  moreover have "K w1 w'"
    using runs(2) keepsD [OF assms(2)] frame.refl [OF assms(1)] by auto
  ultimately show "K w w'" by (rule frame.trans [OF assms(1)])
qed

subsection \<open>Integrity and visits\<close>

definition keeps_whole :: "world \<Rightarrow> world \<Rightarrow> bool" where
  "keeps_whole w w' \<longleftrightarrow> w_env w' = w_env w \<and> (fits w \<and> idle w \<longrightarrow> fits w' \<and> idle w')"

definition keeps_visits :: "world \<Rightarrow> world \<Rightarrow> bool" where
  "keeps_visits w w' \<longleftrightarrow> w_env w' = w_env w \<and>
     (fits w \<and> idle w \<longrightarrow> fits w' \<and> idle w' \<and> visit_only (w_db w) (w_db w'))"

interpretation whole: frame keeps_whole
  by unfold_locales (auto simp: keeps_whole_def)

interpretation visits: frame keeps_visits
  by unfold_locales (auto simp: keeps_visits_def intro: visit_only_trans)

context task_body
begin

lemma keeps_whole_task: "keeps keeps_whole (bind (authedJobInternal cx now ro) (\<lambda>u. revert (body u)))"
proof (rule keepsI)
  fix w r w'
  assume run: "bind (authedJobInternal cx now ro) (\<lambda>u. revert (body u)) w = (r, w')"
  have "w_env w' = w_env w" using keepsD [OF keeps_fit_task run] by (simp add: keeps_fit_def)
  with closes [OF run] show "keeps_whole w w'" by (auto simp: keeps_whole_def)
qed

end

context read_task
begin

lemma keeps_visits_task: "keeps keeps_visits (bind (authedJobInternal cx now ro) (\<lambda>u. revert (body u)))"
proof (rule keepsI)
  fix w r w'
  assume run: "bind (authedJobInternal cx now ro) (\<lambda>u. revert (body u)) w = (r, w')"
  have "w_env w' = w_env w" using keepsD [OF keeps_whole_task run] by (simp add: keeps_whole_def)
  with only_reads [OF run] show "keeps_visits w w'" by (auto simp: keeps_visits_def)
qed

end

lemma files_visits:
  assumes "keeps keeps_all_but_files m"
  shows "keeps keeps_visits m"
proof (rule keepsI)
  fix w r w'
  assume "m w = (r, w')"
  from keepsD [OF assms this] obtain fs n where w': "w' = w\<lparr>w_files := fs, w_ios := n\<rparr>"
    unfolding keeps_all_but_files_def by blast
  show "keeps_visits w w'"
    unfolding w' by (auto simp: keeps_visits_def fits_def acct_defs idle_def split: option.splits)
qed

lemma visits_whole: "keeps keeps_visits m \<Longrightarrow> keeps keeps_whole m"
  by (auto simp: keeps_def keeps_visits_def keeps_whole_def)

subsection \<open>Promises\<close>

definition promises :: "(database \<Rightarrow> database \<Rightarrow> bool) \<Rightarrow> 'a io \<Rightarrow> bool" where
  "promises R m \<longleftrightarrow> (\<forall>w r w'. m w = (r, w') \<longrightarrow> fits w \<longrightarrow> idle w \<longrightarrow> sure_commit (w_env w) \<longrightarrow>
     keeps_whole w w' \<and>
     (case r of Ok x \<Rightarrow> R (w_db w) (w_db w') | Err e \<Rightarrow> visit_only (w_db w) (w_db w') | Panic p \<Rightarrow> True))"

text \<open>It changes nothing and reports no error, though it may panic: what follows a commit.\<close>

definition harmless :: "'a io \<Rightarrow> bool" where
  "harmless m \<longleftrightarrow> (\<forall>w. snd (m w) = w \<and> (\<forall>e. fst (m w) \<noteq> Err e))"

lemma promisesD:
  assumes "promises R m" "m w = (r, w')" "fits w" "idle w" "sure_commit (w_env w)"
  shows "fits w'" "idle w'" "w_env w' = w_env w" "r = Ok x \<Longrightarrow> R (w_db w) (w_db w')"
    "r = Err e \<Longrightarrow> visit_only (w_db w) (w_db w')"
proof -
  have "keeps_whole w w' \<and>
     (case r of Ok x \<Rightarrow> R (w_db w) (w_db w') | Err e \<Rightarrow> visit_only (w_db w) (w_db w') | Panic p \<Rightarrow> True)"
    using assms unfolding promises_def by blast
  then show "fits w'" "idle w'" "w_env w' = w_env w" "r = Ok x \<Longrightarrow> R (w_db w) (w_db w')"
    "r = Err e \<Longrightarrow> visit_only (w_db w) (w_db w')"
    using assms(3,4) by (simp_all add: keeps_whole_def)
qed

locale change =
  fixes R :: "database \<Rightarrow> database \<Rightarrow> bool"
  assumes none: "R d d"
    and after_visits: "visit_only d d' \<Longrightarrow> R d' d'' \<Longrightarrow> R d d''"
begin

lemma visits: "visit_only d d' \<Longrightarrow> R d d'"
  using after_visits none by blast

lemma promises_visits:
  assumes "keeps keeps_visits m"
  shows "promises R m"
  unfolding promises_def
proof (intro allI impI)
  fix w r w'
  assume "m w = (r, w')" and w: "fits w" "idle w"
  from keepsD [OF assms this(1)] w have "keeps_whole w w' \<and> visit_only (w_db w) (w_db w')"
    by (auto simp: keeps_visits_def keeps_whole_def)
  then show "keeps_whole w w' \<and> (case r of Ok x \<Rightarrow> R (w_db w) (w_db w') | Err e \<Rightarrow> visit_only (w_db w) (w_db w')
      | Panic p \<Rightarrow> True)"
    using visits by (auto split: res.splits)
qed

lemma promises_bind:
  assumes "keeps keeps_visits m" "\<And>x. promises R (f x)"
  shows "promises R (bind m f)"
  unfolding promises_def
proof (intro allI impI)
  fix w r w'
  assume run: "bind m f w = (r, w')" and w: "fits w" "idle w" "sure_commit (w_env w)"
  obtain r1 w1 where m: "m w = (r1, w1)" by fastforce
  have v: "fits w1" "idle w1" "w_env w1 = w_env w" "visit_only (w_db w) (w_db w1)"
    using keepsD [OF assms(1) m] w by (auto simp: keeps_visits_def)
  show "keeps_whole w w' \<and> (case r of Ok x \<Rightarrow> R (w_db w) (w_db w') | Err e \<Rightarrow> visit_only (w_db w) (w_db w')
      | Panic p \<Rightarrow> True)"
  proof (cases r1)
    case (Ok x)
    then have "f x w1 = (r, w')" using run m by (simp add: bind_def)
    note p = promisesD [OF assms(2) this v(1,2), unfolded v(3), OF w(3)]
    then show ?thesis using v(3,4) after_visits [OF v(4)] visit_only_trans [OF v(4)]
      by (auto simp: keeps_whole_def split: res.splits)
  qed (use run m v in \<open>auto simp: bind_def keeps_whole_def\<close>)
qed

lemma promises_then:
  assumes "promises R m" "\<And>x. harmless (f x)"
  shows "promises R (bind m f)"
  unfolding promises_def
proof (intro allI impI)
  fix w r w'
  assume run: "bind m f w = (r, w')" and w: "fits w" "idle w" "sure_commit (w_env w)"
  obtain r1 w1 where m: "m w = (r1, w1)" by fastforce
  note p = promisesD [OF assms(1) m w]
  show "keeps_whole w w' \<and> (case r of Ok x \<Rightarrow> R (w_db w) (w_db w') | Err e \<Rightarrow> visit_only (w_db w) (w_db w')
      | Panic p \<Rightarrow> True)"
  proof (cases r1)
    case (Ok x)
    then have "f x w1 = (r, w')" using run m by (simp add: bind_def)
    then have "w' = w1" "\<forall>e. r \<noteq> Err e" using assms(2) [of x] by (metis harmless_def fst_conv snd_conv)+
    then show ?thesis using p Ok by (auto simp: keeps_whole_def split: res.splits)
  qed (use run m p in \<open>auto simp: bind_def keeps_whole_def\<close>)
qed

lemma promises_failed_runs:
  assumes "failed_runs task n w es w'" "\<And>n. promises R (task n)" "fits w" "idle w" "sure_commit (w_env w)"
  shows "fits w' \<and> idle w' \<and> w_env w' = w_env w \<and> visit_only (w_db w) (w_db w')"
  using assms(1,3-)
proof (induction rule: failed_runs.induct)
  case (one_more n w e w1 es w2)
  from promisesD [OF assms(2) one_more.hyps(1) one_more.prems] one_more.IH one_more.prems(3)
  show ?case by (auto intro: visit_only_trans)
qed simp

lemma promises_runner:
  assumes "\<And>n. promises R (task n)"
  shows "promises R (runner_Run sv task)"
  unfolding promises_def
proof (intro allI impI)
  fix w r w'
  assume run: "runner_Run sv task w = (r, w')" and w: "fits w" "idle w" "sure_commit (w_env w)"
  obtain es w1 where "run_outcome (re_adapter (sv_runner sv)) task 5 es w w1 r w'"
    by (rule runner_Run_outcome [OF run])
  from run_outcome_runs [OF this] have runs: "failed_runs task 0 w es w1"
    "(\<exists>n. task n w1 = (r, w')) \<or> w' = w1 \<and> (\<exists>e. r = Err e)" by blast+
  note f = promises_failed_runs [OF runs(1) assms w]
  show "keeps_whole w w' \<and> (case r of Ok x \<Rightarrow> R (w_db w) (w_db w') | Err e \<Rightarrow> visit_only (w_db w) (w_db w')
      | Panic p \<Rightarrow> True)"
  proof (cases "\<exists>n. task n w1 = (r, w')")
    case True
    then obtain n where n: "task n w1 = (r, w')" by blast
    have "fits w1" "idle w1" "sure_commit (w_env w1)" using f w(3) by simp_all
    note p = promisesD [OF assms n this]
    have v: "visit_only (w_db w) (w_db w1)" using f by blast
    from p show ?thesis using f after_visits [OF v] visit_only_trans [OF v]
      by (auto simp: keeps_whole_def split: res.splits)
  qed (use runs(2) f in \<open>auto simp: keeps_whole_def\<close>)
qed

end

text \<open>Whatever a task does on success, it keeps the promise not to do it on failure.\<close>

context atomic_task
begin

lemma promises_task:
  assumes "\<And>w x w'. bind (authedJobInternal cx now ro) (\<lambda>u. revert (body u)) w = (Ok x, w') \<Longrightarrow>
    fits w \<Longrightarrow> idle w \<Longrightarrow> R (w_db w) (w_db w')"
  shows "promises R (bind (authedJobInternal cx now ro) (\<lambda>u. revert (body u)))"
  unfolding promises_def
proof (intro allI impI)
  fix w r w'
  assume run: "bind (authedJobInternal cx now ro) (\<lambda>u. revert (body u)) w = (r, w')"
    and w: "fits w" "idle w" "sure_commit (w_env w)"
  have "keeps_whole w w'" by (rule keepsD [OF keeps_whole_task run])
  then show "keeps_whole w w' \<and> (case r of Ok x \<Rightarrow> R (w_db w) (w_db w') | Err e \<Rightarrow> visit_only (w_db w) (w_db w')
      | Panic p \<Rightarrow> True)"
    using assms [OF _ w(1,2)] all_or_nothing [OF _ w] run by (auto split: res.splits)
qed

end

end
