(* ===== verification/ServeFacts.thy ===== *)
theory ServeFacts
  imports Promises
begin

section \<open>Every request keeps the database whole\<close>

text \<open>
  The conditions on states of Promises, for every task, every handler and so for the service: whatever is
  asked and however it ends, the database stays whole, and requests that only read write only visits.
\<close>

subsection \<open>The tasks\<close>

lemma whole_tasks:
  "keeps keeps_whole (AddPicCommentTask cx now a b c e)"
  "keeps keeps_whole (AddPicTagsTask cx now a ns)"
  "keeps keeps_whole (AddPicVoteTask cx now a b e)"
  "keeps keeps_whole (AddPicCommentVoteTask cx now a b c' e)"
  "keeps keeps_whole (IncrementViewCountTask cx now a)"
  "keeps keeps_whole (SoftDeletePicTask cx now a pend b details tmp)"
  "keeps keeps_whole (PurgePicTask cx now pp a)"
  "keeps keeps_whole (UpsertPicTask dp cx now inp)"
  "keeps keeps_whole (CreateUserTask cx now hash i s caps e)"
  "keeps keeps_whole (UpdateUserTask cx now a b cs cs')"
  "keeps keeps_whole (AuthUserTask cx now compare i s a b)"
  "keeps keeps_whole (UnauthUserTask cx now a b)"
proof -
  show "keeps keeps_whole (AddPicCommentTask cx now a b c e)" unfolding AddPicCommentTask_def authedJob_def by (rule add_pic_comment.keeps_whole_task)
  show "keeps keeps_whole (AddPicTagsTask cx now a ns)" unfolding AddPicTagsTask_def authedJob_def by (rule add_tags.keeps_whole_task)
  show "keeps keeps_whole (AddPicVoteTask cx now a b e)" unfolding AddPicVoteTask_def authedJob_def
    by (intro whole.keeps_if whole.keeps_fail add_pic_vote.keeps_whole_task)
  show "keeps keeps_whole (AddPicCommentVoteTask cx now a b c' e)" unfolding AddPicCommentVoteTask_def authedJob_def by (rule add_comment_vote.keeps_whole_task)
  show "keeps keeps_whole (IncrementViewCountTask cx now a)" unfolding IncrementViewCountTask_def authedJob_def by (rule increment.keeps_whole_task)
  show "keeps keeps_whole (SoftDeletePicTask cx now a pend b details tmp)" unfolding SoftDeletePicTask_def authedJob_def
    by (intro whole.keeps_if whole.keeps_fail soft_delete.keeps_whole_task)
  show "keeps keeps_whole (PurgePicTask cx now pp a)" unfolding PurgePicTask_def authedJob_def by (rule purge.keeps_whole_task)
  show "keeps keeps_whole (UpsertPicTask dp cx now inp)" unfolding UpsertPicTask_def authedJob_def by (rule upsert.keeps_whole_task)
  show "keeps keeps_whole (CreateUserTask cx now hash i s caps e)" unfolding CreateUserTask_def authedJob_def by (rule create_user.keeps_whole_task)
  show "keeps keeps_whole (UpdateUserTask cx now a b cs cs')" unfolding UpdateUserTask_def authedJob_def by (rule update_user.keeps_whole_task)
  show "keeps keeps_whole (AuthUserTask cx now compare i s a b)" unfolding AuthUserTask_def authedJob_def by (rule auth_user.keeps_whole_task)
  show "keeps keeps_whole (UnauthUserTask cx now a b)" unfolding UnauthUserTask_def authedJob_def by (rule unauth_user.keeps_whole_task)
qed

lemma reading_tasks:
  "keeps keeps_visits (ReadIndexPicsTask cx now a b asc)"
  "keeps keeps_visits (FindSchedPicsTask cx now a)"
  "keeps keeps_visits (FindSimilarPicsTask cx now a)"
  "keeps keeps_visits (FindUserEventsTask cx now a b start asc)"
  "keeps keeps_visits (LookupPicVoteTask cx now a b)"
  "keeps keeps_visits (FindPicCommentVotesTask cx now a oi oj)"
  "keeps keeps_visits (LookupPicTask cx now a asc asc')"
  "keeps keeps_visits (LookupUserTask cx now a asc)"
proof -
  show "keeps keeps_visits (ReadIndexPicsTask cx now a b asc)" unfolding ReadIndexPicsTask_def authedReadonlyJob_def by (rule read_index.keeps_visits_task)
  show "keeps keeps_visits (FindSchedPicsTask cx now a)" unfolding FindSchedPicsTask_def authedReadonlyJob_def by (rule find_sched.keeps_visits_task)
  show "keeps keeps_visits (FindSimilarPicsTask cx now a)" unfolding FindSimilarPicsTask_def authedReadonlyJob_def by (rule find_similar.keeps_visits_task)
  show "keeps keeps_visits (FindUserEventsTask cx now a b start asc)" unfolding FindUserEventsTask_def authedReadonlyJob_def by (rule find_user_events.keeps_visits_task)
  show "keeps keeps_visits (LookupPicVoteTask cx now a b)" unfolding LookupPicVoteTask_def authedReadonlyJob_def by (rule lookup_vote.keeps_visits_task)
  show "keeps keeps_visits (FindPicCommentVotesTask cx now a oi oj)" unfolding FindPicCommentVotesTask_def authedReadonlyJob_def by (rule find_comment_votes.keeps_visits_task)
  show "keeps keeps_visits (LookupPicTask cx now a asc asc')" unfolding LookupPicTask_def authedReadonlyJob_def by (rule lookup_pic.keeps_visits_task)
  show "keeps keeps_visits (LookupUserTask cx now a asc)" unfolding LookupUserTask_def authedReadonlyJob_def by (rule lookup_user.keeps_visits_task)
qed

subsection \<open>Requests that only read\<close>

lemmas visit_ops = visits.keeps_intros keeps_runner [OF visits.frame_axioms] reading_tasks

lemma optional_id_visits: "keeps keeps_visits (optional_id sv s msg)"
  and given_id_visits: "keeps keeps_visits (given_id sv s msg)"
  unfolding optional_id_def given_id_def by (intro visit_ops)+

lemma GetConfiguration_visits: "keeps keeps_visits (GetConfiguration cx)"
  unfolding GetConfiguration_def by (auto split: option.splits intro!: visit_ops)

lemma authReadPicRequest_visits: "keeps keeps_visits (authReadPicRequest sv k rc)"
  unfolding authReadPicRequest_def anonymous_caps_def
  by (auto split: option.splits list.splits res.splits prod.splits intro!: visit_ops GetConfiguration_visits)

lemma readPicHeaders_visits: "keeps keeps_visits (readPicHeaders sv rc)"
  unfolding readPicHeaders_def anonymous_caps_def
  by (auto split: option.splits intro!: visit_ops GetConfiguration_visits)

lemma open_file_visits: "keeps keeps_visits (open_file path)"
  unfolding open_file_def
  by (rule files_visits) (auto split: option.splits intro!: file_ops)

lemma reading_handlers:
  "keeps keeps_visits (handleFindIndexPics sv rc s asc)" "keeps keeps_visits (handleFindSchedPics sv rc)"
  "keeps keeps_visits (handleFindSimilarPics sv rc s)" "keeps keeps_visits (handleFindUserEvents sv rc s t asc)"
  "keeps keeps_visits (handleLookupPicVote sv rc s t)" "keeps keeps_visits (handleLookupPicCommentVote sv rc s t t')"
  "keeps keeps_visits (handleFindPicCommentVotes sv rc s t t')" "keeps keeps_visits (handleLookupPicDetails sv rc s)"
  "keeps keeps_visits (handleLookupPicExtension sv rc s)" "keeps keeps_visits (handleLookupUser sv rc s)"
  "keeps keeps_visits (handleLookupPublicUserInfo sv rc s)" "keeps keeps_visits (handleLookupPicFile sv rc s i)"
  unfolding handleFindIndexPics_def handleFindSchedPics_def handleFindSimilarPics_def handleFindUserEvents_def
    handleLookupPicVote_def handleLookupPicCommentVote_def handleFindPicCommentVotes_def without_clock_def
    handleLookupPicDetails_def handleLookupPicExtension_def handleLookupUser_def handleLookupPublicUserInfo_def
    handleLookupPicFile_def Let_def
  by (auto intro!: visit_ops optional_id_visits given_id_visits authReadPicRequest_visits readPicHeaders_visits
      open_file_visits split: option.splits list.splits prod.splits)

fun reads_only :: "request \<Rightarrow> bool" where
  "reads_only (FindIndexPicsRequest a b) = True"
| "reads_only (FindPicCommentVotesRequest a b c) = True"
| "reads_only FindSchedPicsRequest = True"
| "reads_only (FindSimilarPicsRequest a) = True"
| "reads_only (FindUserEventsRequest a b c) = True"
| "reads_only (LookupPicCommentVoteRequest a b c) = True"
| "reads_only (LookupPicDetailsRequest a) = True"
| "reads_only (LookupPicExtensionRequest a) = True"
| "reads_only (LookupPicFileRequest a f) = True"
| "reads_only (LookupPicVoteRequest a b) = True"
| "reads_only (LookupUserRequest a) = True"
| "reads_only (LookupPublicUserInfoRequest a) = True"
| "reads_only _ = False"

lemma keeps_on_the_wire: "keeps K m \<Longrightarrow> keeps K (on_the_wire m)"
  by (simp add: keeps_def on_the_wire_def)

lemma serve_reads:
  assumes "reads_only req"
  shows "keeps keeps_visits (serve sv rc req)"
proof -
  have "keeps keeps_visits (dispatch sv req rc')" for rc'
    using assms unfolding dispatch_def
    by (cases req) (auto intro!: visits.keeps_bind visits.keeps_ret reading_handlers split: prod.splits)
  then show ?thesis unfolding serve_def intercept_def
    by (intro keeps_on_the_wire visits.keeps_bind visits.keeps_lift_res)
qed

subsection \<open>All requests\<close>

lemmas whole_ops = whole.keeps_intros keeps_runner [OF whole.frame_axioms] whole_tasks
  visits_whole [OF optional_id_visits]

lemma writing_handlers:
  "keeps keeps_whole (handleAddPicComment sv rc s t t')" "keeps keeps_whole (handleAddPicTags sv rc s ts)"
  "keeps keeps_whole (handleUpsertPicVote sv rc s i)" "keeps keeps_whole (handleUpsertPicCommentVote sv rc s t i)"
  "keeps keeps_whole (handleIncrementViewCount sv rc s)" "keeps keeps_whole (handlePurgePic sv rc s)"
  "keeps keeps_whole (handleSoftDeletePic sv rc s t i ts')" "keeps keeps_whole (handleUpsertPic sv rc s t t' u' v' ext)"
  "keeps keeps_whole (handleCreateUser sv rc s t)" "keeps keeps_whole (handleUpdateUser sv rc s i caps)"
  "keeps keeps_whole (handleDeleteToken sv rc)" "keeps keeps_whole (handleGetRefreshToken sv rc s t t')"
  unfolding handleAddPicComment_def handleAddPicTags_def handleUpsertPicVote_def handleUpsertPicCommentVote_def
    handleIncrementViewCount_def handlePurgePic_def handleSoftDeletePic_def handleUpsertPic_def
    handleCreateUser_def handleUpdateUser_def handleDeleteToken_def handleGetRefreshToken_def
  by (auto intro!: whole_ops split: option.splits prod.splits)

lemma serve_whole: "keeps keeps_whole (serve sv rc req)"
proof -
  have "keeps keeps_whole (dispatch sv req rc')" for rc'
    unfolding dispatch_def
    by (cases req) (auto intro!: whole.keeps_bind whole.keeps_ret writing_handlers
        reading_handlers [THEN visits_whole] split: prod.splits)
  then show ?thesis unfolding serve_def intercept_def
    by (intro keeps_on_the_wire whole.keeps_bind whole.keeps_lift_res)
qed

section \<open>A request that fails has changed nothing\<close>

text \<open>
  Most tasks commit last, so that an error means that nothing was written. Their handlers keep this: what they
  do after the task cannot fail, it can only panic. The runner keeps it too, whose earlier
  attempts have all failed.
\<close>

interpretation anything: change "\<lambda>d d'. True"
  by unfold_locales simp_all

lemma promised_tasks:
  "promises (\<lambda>d d'. True) (AddPicCommentTask cx now a b c e)"
  "promises (\<lambda>d d'. True) (AddPicTagsTask cx now a ns)"
  "promises (\<lambda>d d'. True) (AddPicVoteTask cx now a b e)"
  "promises (\<lambda>d d'. True) (AddPicCommentVoteTask cx now a b c' e)"
  "promises (\<lambda>d d'. True) (IncrementViewCountTask cx now a)"
  "promises (\<lambda>d d'. True) (SoftDeletePicTask cx now a pend b details tmp)"
  "promises (\<lambda>d d'. True) (CreateUserTask cx now hash i s caps e)"
  "promises (\<lambda>d d'. True) (UpdateUserTask cx now a b cs cs')"
  "promises (\<lambda>d d'. True) (AuthUserTask cx now compare i s a b)"
  "promises (\<lambda>d d'. True) (UnauthUserTask cx now a b)"
proof -
  show "promises (\<lambda>d d'. True) (AddPicCommentTask cx now a b c e)"
    unfolding AddPicCommentTask_def authedJob_def by (rule add_pic_comment.promises_task) simp
  show "promises (\<lambda>d d'. True) (AddPicTagsTask cx now a ns)"
    unfolding AddPicTagsTask_def authedJob_def by (rule add_tags.promises_task) simp
  show "promises (\<lambda>d d'. True) (AddPicVoteTask cx now a b e)"
    unfolding AddPicVoteTask_def authedJob_def
    using anything.promises_visits [OF visits.keeps_fail] by (cases "known_vote b") (simp_all add: add_pic_vote.promises_task)
  show "promises (\<lambda>d d'. True) (AddPicCommentVoteTask cx now a b c' e)"
    unfolding AddPicCommentVoteTask_def authedJob_def by (rule add_comment_vote.promises_task) simp
  show "promises (\<lambda>d d'. True) (IncrementViewCountTask cx now a)"
    unfolding IncrementViewCountTask_def authedJob_def by (rule increment.promises_task) simp
  show "promises (\<lambda>d d'. True) (SoftDeletePicTask cx now a pend b details tmp)"
    unfolding SoftDeletePicTask_def authedJob_def
    using anything.promises_visits [OF visits.keeps_fail] by (cases "b = Reason_UNKNOWN") (simp_all add: soft_delete.promises_task)
  show "promises (\<lambda>d d'. True) (CreateUserTask cx now hash i s caps e)"
    unfolding CreateUserTask_def authedJob_def by (rule create_user.promises_task) simp
  show "promises (\<lambda>d d'. True) (UpdateUserTask cx now a b cs cs')"
    unfolding UpdateUserTask_def authedJob_def by (rule update_user.promises_task) simp
  show "promises (\<lambda>d d'. True) (AuthUserTask cx now compare i s a b)"
    unfolding AuthUserTask_def authedJob_def by (rule auth_user.promises_task) simp
  show "promises (\<lambda>d d'. True) (UnauthUserTask cx now a b)"
    unfolding UnauthUserTask_def authedJob_def by (rule unauth_user.promises_task) simp
qed

lemma version_of_no_error: "version_of ts \<noteq> Err e"
  by (cases "ToTime ts") (auto simp: version_of_def)

lemma harmless_ret: "harmless (ret x)"
  by (simp add: harmless_def run_simps)

lemma harmless_lift: "(\<And>e. r \<noteq> Err e) \<Longrightarrow> harmless (lift_res r)"
  by (simp add: harmless_def run_simps)

lemma res_map_no_error: "(\<And>e. r \<noteq> Err e) \<Longrightarrow> res_map f r \<noteq> Err e"
  by (cases r) auto

lemma shown_no_error: "apiPicComment c \<noteq> Err e" "apiUser u \<noteq> Err e"
  unfolding apiPicComment_def apiUser_def by (rule res_map_no_error version_of_no_error)+

lemmas promise_ids = anything.promises_bind [OF optional_id_visits]

lemmas promise_run = anything.promises_then [OF anything.promises_runner]

lemma promising_handlers:
  "promises (\<lambda>d d'. True) (handleAddPicComment sv rc s t t')" "promises (\<lambda>d d'. True) (handleAddPicTags sv rc s ts)"
  "promises (\<lambda>d d'. True) (handleUpsertPicVote sv rc s i)"
  "promises (\<lambda>d d'. True) (handleUpsertPicCommentVote sv rc s t i)"
  "promises (\<lambda>d d'. True) (handleIncrementViewCount sv rc s)"
  "promises (\<lambda>d d'. True) (handleSoftDeletePic sv rc s t i ts')"
  "promises (\<lambda>d d'. True) (handleCreateUser sv rc s t)" "promises (\<lambda>d d'. True) (handleUpdateUser sv rc s i caps)"
  "promises (\<lambda>d d'. True) (handleDeleteToken sv rc)"
proof -
  show "promises (\<lambda>d d'. True) (handleAddPicComment sv rc s t t')"
    unfolding handleAddPicComment_def
    by (intro promise_ids promise_run promised_tasks) (auto intro!: harmless_lift shown_no_error split: prod.splits)
  show "promises (\<lambda>d d'. True) (handleAddPicTags sv rc s ts)" "promises (\<lambda>d d'. True) (handleUpsertPicVote sv rc s i)"
    "promises (\<lambda>d d'. True) (handleUpsertPicCommentVote sv rc s t i)" "promises (\<lambda>d d'. True) (handleCreateUser sv rc s t)"
    unfolding handleAddPicTags_def handleUpsertPicVote_def handleUpsertPicCommentVote_def handleCreateUser_def
    by (intro promise_ids promise_run promised_tasks harmless_ret)+
  show "promises (\<lambda>d d'. True) (handleIncrementViewCount sv rc s)"
    unfolding handleIncrementViewCount_def by (intro promise_ids anything.promises_runner promised_tasks)
  have "keeps keeps_visits (case ts' of Some ts \<Rightarrow> lift_res (or_fail (\<lambda>e. InvalidArgument e ''bad deletion time'')
      (ptypes_Timestamp (Some ts))) | None \<Rightarrow> ret (sv_in_a_week sv (sv_clock sv 2)))"
    by (cases ts') (auto intro: visits.keeps_ret visits.keeps_lift_res)
  then show "promises (\<lambda>d d'. True) (handleSoftDeletePic sv rc s t i ts')"
    unfolding handleSoftDeletePic_def
    by (intro promise_ids) (rule anything.promises_bind, assumption, intro anything.promises_runner promised_tasks)
  have "keeps keeps_visits (case caps of None \<Rightarrow> ret ([], []) | Some (a, b) \<Rightarrow>
      bind (lift_res (res_each known_cap a)) (\<lambda>newcaps. bind (lift_res (res_each known_cap b)) (\<lambda>oldcaps.
      ret (newcaps, oldcaps))))"
    by (auto split: option.splits intro!: visits.keeps_intros)
  then show "promises (\<lambda>d d'. True) (handleUpdateUser sv rc s i caps)"
    unfolding handleUpdateUser_def
    by (intro promise_ids) (rule anything.promises_bind, assumption,
        auto intro!: promise_run promised_tasks harmless_lift shown_no_error split: prod.splits)
  show "promises (\<lambda>d d'. True) (handleDeleteToken sv rc)"
    unfolding handleDeleteToken_def
    using anything.promises_visits [OF visits.keeps_fail]
    by (auto split: option.splits prod.splits intro!: anything.promises_bind visits.keeps_wrap_err visits.keeps_lift_res
        anything.promises_runner promised_tasks)
qed

text \<open>
  Not among these are purges and uploads, whose clean-up of files may fail after the commit, and
  signing in, where the tokens are made after the commit.
\<close>

fun all_or_none :: "request \<Rightarrow> bool" where
  "all_or_none (PurgePicRequest a) = False"
| "all_or_none (UpsertPicRequest a b c d e f) = False"
| "all_or_none (GetRefreshTokenRequest a b c) = False"
| "all_or_none _ = True"

lemma promises_wire: "promises R m \<Longrightarrow> promises R (on_the_wire m)"
  unfolding promises_def
proof (intro allI impI)
  fix w r w'
  assume m: "\<forall>w r w'. m w = (r, w') \<longrightarrow> fits w \<longrightarrow> idle w \<longrightarrow> sure_commit (w_env w) \<longrightarrow> keeps_whole w w' \<and>
      (case r of Ok x \<Rightarrow> R (w_db w) (w_db w') | Err e \<Rightarrow> visit_only (w_db w) (w_db w') | Panic p \<Rightarrow> True)"
    and run: "on_the_wire m w = (r, w')" and w: "fits w" "idle w" "sure_commit (w_env w)"
  obtain r1 where r1: "m w = (r1, w')" "r = wire_error r1"
    using run by (cases "m w") (auto simp: on_the_wire_def)
  from m r1(1) w have "keeps_whole w w' \<and> (case r1 of Ok x \<Rightarrow> R (w_db w) (w_db w')
      | Err e \<Rightarrow> visit_only (w_db w) (w_db w') | Panic p \<Rightarrow> True)" by blast
  then show "keeps_whole w w' \<and> (case r of Ok x \<Rightarrow> R (w_db w) (w_db w') | Err e \<Rightarrow> visit_only (w_db w) (w_db w')
      | Panic p \<Rightarrow> True)" unfolding r1(2) by (cases r1) auto
qed

lemma serve_promises:
  assumes "all_or_none req"
  shows "promises (\<lambda>d d'. True) (serve sv rc req)"
proof (cases "reads_only req")
  case True
  show ?thesis by (rule anything.promises_visits [OF serve_reads [OF True]])
next
  case False
  have "promises (\<lambda>d d'. True) (dispatch sv req rc')" for rc'
    using False assms unfolding dispatch_def
    by (cases req) (auto intro!: anything.promises_then promising_handlers harmless_ret)
  then show ?thesis unfolding serve_def intercept_def
    by (intro promises_wire anything.promises_bind visits.keeps_lift_res)
qed

end
