(* ===== verification/Histories.thy ===== *)
theory Histories
  imports ServeFacts Tally UploadFacts
begin

section \<open>What holds along every history of requests\<close>

text \<open>
  Two invariants of the site, lifted from the tasks to the service: the counts of a picture are those of
  its votes, and no two pictures have the same contents. They hold whatever requests arrive in whatever
  order, whether they succeed or fail, and however often the runner tries their tasks again. Uploads
  and purges may fail after their commit, in the clean-up of files, so for these two it is shown what
  a failed run may have done.
\<close>

subsection \<open>Runs that fail after their commit\<close>

text \<open>What writes to the site only if it succeeds.\<close>

definition commits_or_not :: "'a io \<Rightarrow> bool" where
  "commits_or_not m \<longleftrightarrow> (\<forall>w r w'. m w = (r, w') \<longrightarrow> sure_commit (w_env w) \<longrightarrow> w_db w' = w_db w \<or> (\<exists>x. r = Ok x))"

lemma commits_or_notD: "commits_or_not m \<Longrightarrow> m w = (r, w') \<Longrightarrow> sure_commit (w_env w) \<Longrightarrow>
    w_db w' = w_db w \<or> (\<exists>x. r = Ok x)"
  by (simp add: commits_or_not_def)

lemma commits_or_not_bind:
  assumes "keeps keeps_base m" "\<And>x. commits_or_not (f x)"
  shows "commits_or_not (bind m f)"
  unfolding commits_or_not_def
proof (intro allI impI)
  fix w r w'
  assume run: "bind m f w = (r, w')" and sure: "sure_commit (w_env w)"
  obtain r1 w1 where m: "m w = (r1, w1)" by fastforce
  have b: "w_db w1 = w_db w" "w_env w1 = w_env w" using base_tx [OF assms(1) m] by auto
  show "w_db w' = w_db w \<or> (\<exists>x. r = Ok x)"
  proof (cases r1)
    case (Ok x)
    then have "f x w1 = (r, w')" using run m by (simp add: bind_def)
    from commits_or_notD [OF assms(2) this] sure b show ?thesis by simp
  qed (use run m b in \<open>auto simp: bind_def\<close>)
qed

lemma commits_or_not_Commit: "commits_or_not (bind (wrap_err mk Commit) (\<lambda>_. ret x))"
  unfolding commits_or_not_def
proof (intro allI impI)
  fix w r w'
  assume run: "bind (wrap_err mk Commit) (\<lambda>_. ret x) w = (r, w')" and sure: "sure_commit (w_env w)"
  obtain r1 w1 where c: "Commit w = (r1, w1)" by fastforce
  show "w_db w' = w_db w \<or> (\<exists>x. r = Ok x)"
  proof (cases "r1 = Ok ()")
    case False
    then show ?thesis using run c Commit_fails [OF c sure]
      by (cases r1) (auto simp: bind_def wrap_err_def run_simps)
  qed (use run c in \<open>auto simp: bind_def wrap_err_def run_simps\<close>)
qed

context task_body
begin

text \<open>However a task ends, it has written only visits, or what its body wrote.\<close>

lemma runs:
  assumes "bind (authedJobInternal cx now ro) (\<lambda>u. revert (body u)) w = (r, w')" "fits w" "idle w"
  obtains (stop) "visit_only (w_db w) (w_db w')"
  | (go) su w1 r1 w2 where "job_at (w_env w) (w_db w1) (w_db w1) w1" "visit_only (w_db w) (w_db w1)"
      "body su w1 = (r1, w2)" "w_db w' = w_db w2"
proof -
  obtain ra w1 where a: "authedJobInternal cx now ro w = (ra, w1)" by fastforce
  note res = authed_loop_result [OF a [unfolded authedJobInternal_def] assms(2,3)]
  show thesis
  proof (cases ra)
    case (Ok su)
    then have b: "revert (body su) w1 = (r, w')" using assms(1) a by (simp add: bind_def)
    obtain r1 w2 where c: "body su w1 = (r1, w2)" by fastforce
    obtain r2 w3 where d: "Rollback w2 = (r2, w3)" by fastforce
    have "w' = w3" using b c d by (cases r2) (auto simp: revert_def deferred_def)
    then have "w_db w' = w_db w2" using Rollback_keeps [OF d] by simp
    then show thesis using go [OF _ _ c] res Ok by blast
  qed (use stop assms(1) a res in \<open>auto simp: bind_def\<close>)
qed

end

subsection \<open>Purges\<close>

text \<open>A purge up to its commit.\<close>

definition purge_commit :: "ctx \<Rightarrow> int \<Rightarrow> int \<Rightarrow> user option \<Rightarrow> pic io" where
  "purge_commit cx now picId u =
     bind (GetConfiguration cx) (\<lambda>conf.
     bind (lift_res (validateCapability u conf [PIC_PURGE])) (\<lambda>_.
     bind (writable_pic picId) (\<lambda>p.
     bind (wrap_err (\<lambda>e. Internal e ''can't delete pic'') (DeletePic (KeyForPic p))) (\<lambda>_.
     bind (purge_rows now picId) (\<lambda>_.
     bind (wrap_err (\<lambda>e. Internal e ''Unable to Commit'') Commit) (\<lambda>_. ret p))))))"

lemma purge_body_commit:
  "purge_body cx now pp i u = bind (purge_commit cx now i u) (\<lambda>p. release_files pp p (p_thumb p))"
  by (simp add: purge_body_def purge_commit_def bind_assoc)

lemma purge_commit_once: "commits_or_not (purge_commit cx now i u)"
  unfolding purge_commit_def
  by (intro commits_or_not_bind commits_or_not_Commit task_frames writable_pic_frames purge_rows_frames)

lemma purge_commit_job:
  assumes "purge_commit cx now i u w = (Ok p, w')" "job_at ev d d w"
  shows "purged now i d (w_db w')"
proof -
  obtain w1 w2 w3 where s: "writable_pic i w = (Ok p, w1)" "DeletePic (KeyForPic p) w1 = (Ok (), w2)"
    "purge_rows now i w2 = (Ok (), w3)" "Commit w3 = (Ok (), w')"
    using assms(1) by (auto simp: purge_commit_def GetConfiguration_iff run_simps elim!: bind_OkE)
  note pic = writable_pic_job [OF s(1) assms(2)]
  have id: "p_id p = i" using the_pic_id [OF pic(2)] by simp
  obtain rp where rp: "job_at ev d (d\<lparr>db_pics := rp\<rparr>) w2"
    "msgs rp = filter (\<lambda>q. p_id q \<noteq> i) (msgs (db_pics d))"
    using job_delete_pics [OF s(2) [unfolded KeyForPic_def id] pic(1)] by auto
  obtain ri rt rg rc rv where r: "job_at ev d (d\<lparr>db_pics := rp, db_idents := ri,
      db_pictags := rt, db_tags := rg, db_comments := rc, db_votes := rv\<rparr>) w3"
    "msgs ri = filter (\<lambda>q. pi_pic q \<noteq> i) (msgs (db_idents d))"
    "msgs rt = filter (\<lambda>q. pt_pic q \<noteq> i) (msgs (db_pictags d))"
    "msgs rg = concat (map (\<lambda>t. if list_ex (\<lambda>pt. pt_pic pt = i \<and> pt_tag pt = t_id t)
         (msgs (db_pictags d)) then less_used now t else [t]) (msgs (db_tags d)))"
    "msgs rc = filter (\<lambda>q. pc_pic q \<noteq> i) (msgs (db_comments d))"
    "msgs rv = filter (\<lambda>q. pv_pic q \<noteq> i) (msgs (db_votes d))"
    by (rule purge_rows_job [OF s(3) rp(1)]) auto
  have "w_db w' = d\<lparr>db_pics := rp, db_idents := ri, db_pictags := rt, db_tags := rg,
      db_comments := rc, db_votes := rv\<rparr>"
    using Commit_job [OF s(4) r(1)] by simp
  with r(2-6) rp(2) show ?thesis by (simp add: purged_def)
qed

lemma purge_body_runs:
  assumes "purge_body cx now pp i u w = (r, w')" "job_at ev d d w" "sure_commit ev"
  shows "w_db w' = d \<or> purged now i d (w_db w')"
proof -
  have w: "w_db w = d" "w_env w = ev" using assms(2) by (simp_all add: job_at_def)
  obtain r1 w1 where c: "purge_commit cx now i u w = (r1, w1)" by fastforce
  have once: "w_db w1 = d \<or> (\<exists>p. r1 = Ok p)"
    using commits_or_notD [OF purge_commit_once c] assms(3) w by simp
  show ?thesis
  proof (cases r1)
    case (Ok p)
    then have "release_files pp p (p_thumb p) w1 = (r, w')"
      using assms(1) c by (simp add: purge_body_commit bind_def)
    from base_tx [OF release_files_frames(2) this] have "w_db w' = w_db w1" by simp
    with purge_commit_job [OF c [unfolded Ok] assms(2)] show ?thesis by simp
  qed (use once assms(1) c in \<open>auto simp: purge_body_commit bind_def\<close>)
qed

lemma PurgePicTask_runs:
  assumes "PurgePicTask cx now pp i w = (r, w')" "fits w" "idle w" "sure_commit (w_env w)"
  shows "\<exists>d. visit_only (w_db w) d \<and> (w_db w' = d \<or> purged now i d (w_db w'))"
  using assms(1) [unfolded PurgePicTask_def authedJob_def] assms(2,3)
proof (cases rule: purge.runs)
  case (go su w1 r1 w2)
  from purge_body_runs [OF go(3,1) assms(4)] go(2,4) show ?thesis by auto
qed auto

subsection \<open>Uploads\<close>

text \<open>
  What an upload may have done to the database, whatever it reports: it has entered a picture with new
  contents or found the one with these contents, and merged itself into it.
\<close>

definition uploaded :: "database \<Rightarrow> database \<Rightarrow> bool" where
  "uploaded d d' \<longleftrightarrow> (\<exists>d1 hs im p0 merge ts src u ext q p'.
     located d d1 hs im p0 merge \<and> (Ex (contents_of d (hs ! 2)) \<or> p_up p0 = 0 \<and> p_down p0 = 0) \<and>
     merged d1 d' ts src u ext q p' \<and> p_id q = p_id p0 \<and> p_up q = p_up p0 \<and> p_down q = p_down p0)"

lemma find_or_insert_fresh:
  assumes "find_or_insert hashes sz mime im dur nowts w = (Ok (p, merge), w')" "job_at ev d0 d w"
    "\<not> Ex (contents_of d (hashes ! 2))"
  shows "p_up p = 0 \<and> p_down p = 0"
proof -
  obtain old w1 where f: "findExistingPic PicIdent_SHA512_256 (hashes ! 2) w = (Ok old, w1)"
    and rest: "(case old of Some p \<Rightarrow>
          (if HardDeleted p
           then bind (check (case p_del p of Some ds \<Rightarrow> ds_temporary ds | None \<Rightarrow> False)
               (InvalidArgument None ''can't upload deleted pic'')) (\<lambda>_. ret (p, False))
           else ret (p, True))
      | None \<Rightarrow> bind (insert_new hashes sz mime im dur nowts) (\<lambda>p. ret (p, False))) w1 = (Ok (p, merge), w')"
    using assms(1) unfolding find_or_insert_def by (auto elim: bind_OkE)
  note old = findExistingPic_job [OF f assms(2)]
  have "old = None" using old(2) assms(3) by (cases old) auto
  then have "insert_new hashes sz mime im dur nowts w1 = (Ok p, w')"
    using rest by (auto simp: run_simps elim: bind_OkE)
  then obtain i where "p = new_pic i (file_record 0 sz mime im dur nowts) nowts"
    by (rule insert_new_job [OF _ old(1)]) blast
  then show ?thesis by (simp add: new_pic_def)
qed

lemma inspect_fresh:
  assumes "inspect dp conf now inp u loc ref (f, int (length data), names) w = (Ok ins, w')" "job_at ev d0 d w"
    "fmap w f = Some data" "\<not> Ex (contents_of d (hashes_of dp data ! 2))"
  shows "p_up (in_pic ins) = 0 \<and> p_down (in_pic ins) = 0"
proof -
  let ?fs = "[ud_md5 dp, ud_sha1 dp, ud_sha512_256 dp]"
  obtain hs w1 nowts im mime dur p m where h: "generatePicHashes f (int (length data)) ?fs w = (Ok hs, w1)"
    "find_or_insert hs (int (length data)) mime im dur nowts w1 = (Ok (p, m), w')" "in_pic ins = p"
    using assms(1) unfolding inspect_def by (auto simp: run_simps elim!: bind_OkE split: if_splits)
  have "hs = hashes_of dp data" using generatePicHashes_Ok(1) [OF h(1) assms(3)] by (simp add: hashes_of_def)
  with find_or_insert_fresh [OF h(2) job_at_files [OF hashes_frames h(1) assms(2)]] assms(4) h(3)
  show ?thesis by simp
qed

lemma stored_rows:
  assumes "stored dp d d' data ins u ext fm fm' p'"
  obtains ts src q where "merged d d' ts src u ext q p'" "p_id q = p_id (in_pic ins)"
    "p_up q = p_up (in_pic ins)" "p_down q = p_down (in_pic ins)"
proof -
  obtain p q out tb where s: "converted dp data ins p out" "thumbed dp ins p q tb"
    "merged d d' (in_ts ins) (in_src ins) u ext q p'"
    using assms unfolding stored_def by blast
  have "p_id p = p_id (in_pic ins) \<and> p_up p = p_up (in_pic ins) \<and> p_down p = p_down (in_pic ins)"
    using s(1) by (auto simp: converted_def split: if_splits)
  moreover have "p_id q = p_id p \<and> p_up q = p_up p \<and> p_down q = p_down p" using s(2) by (auto simp: thumbed_def)
  ultimately show thesis using that s(3) by simp
qed

lemma store_new_once: "commits_or_not (store_new dp conf u ext f sz ins)"
proof -
  have "keeps keeps_base (add_derived dp f sz ins)" for sz
    by (rule files_keeps(2) [OF derived_frames])
  moreover have "keeps keeps_base (guarded (cleanup_derived d @ cleanup_temp f) (make_thumbnail dp ins))" for d
    by (rule base_guarded) (auto intro: cleanup_keeps files_keeps(2) [OF thumbnail_frames])
  moreover have "keeps keeps_base (guarded (cleanup_temp ft @ cleanup_derived d @ cleanup_temp f)
      (enter_pic dp ext i ins p th))" for ft d i p th
    by (rule base_guarded) (auto intro: cleanup_keeps enter_frames)
  moreover have "keeps keeps_base (place_files dp p f ft d newpath)" for p ft d newpath
    by (rule files_keeps(2) [OF place_frames])
  ultimately show ?thesis unfolding store_new_def
    by (auto intro!: commits_or_not_bind commits_or_not_Commit)
qed

lemma merge_known_once: "commits_or_not (merge_known ext u ins)"
  unfolding merge_known_def by (intro commits_or_not_bind commits_or_not_Commit merge_frames)

lemma merge_known_merges:
  assumes "merge_known ext u ins w = (Ok p', w')" "job_at ev d0 d w"
  shows "merged d (w_db w') (in_ts ins) (in_src ins) (subject_id u) ext (in_pic ins) p'"
proof -
  obtain w0 where m: "mergePic (in_pic ins) (in_ts ins) (in_src ins) (subject_id u) ext w = (Ok p', w0)"
    "Commit w0 = (Ok (), w')"
    using assms(1) unfolding merge_known_def by (auto simp: run_simps elim!: bind_OkE)
  obtain d' where j: "job_at ev d0 d' w0" "merged d d' (in_ts ins) (in_src ins) (subject_id u) ext (in_pic ins) p'"
    by (rule mergePic_job [OF m(1) assms(2)])
  with Commit_job [OF m(2) j(1)] show ?thesis by simp
qed

text \<open>Deferred calls that keep the database: the result of the function is that of its body.\<close>

lemma deferred_runs:
  assumes "foldl deferred m cs w = (r, w')" "\<And>c. c \<in> set cs \<Longrightarrow> keeps keeps_base c"
  obtains r1 w1 where "m w = (r1, w1)" "w_db w' = w_db w1"
  using assms
proof (induction cs arbitrary: m thesis)
  case Nil
  then show ?case by simp
next
  case (Cons c cs)
  obtain r2 w2 where d: "deferred m c w = (r2, w2)" "w_db w' = w_db w2"
    using Cons.IH [of "deferred m c"] Cons.prems(2,3) by auto
  obtain r1 w1 where m: "m w = (r1, w1)" by fastforce
  obtain rc w3 where c: "c w1 = (rc, w3)" by fastforce
  have "w2 = w3" using d(1) m c by (cases rc) (auto simp: deferred_def)
  moreover have kept: "keeps keeps_base c" using Cons.prems(3) by simp
  have "w_db w3 = w_db w1" using base_tx [OF kept c] by simp
  ultimately show ?case using Cons.prems(1) m d(2) by simp
qed

text \<open>A step that only looks, then the rest.\<close>

lemma look_step:
  assumes "bind m f w = (r, w')" "keeps keeps_base m"
  obtains (stop) "w_db w' = w_db w" | (go) x w1 where "m w = (Ok x, w1)" "f x w1 = (r, w')"
proof -
  obtain r1 w1 where m: "m w = (r1, w1)" by fastforce
  show thesis
  proof (cases r1)
    case (Ok x)
    then show thesis using assms(1) m by (intro go [of x w1]) (simp_all add: bind_def)
  qed (use stop assms(1) m base_tx [OF assms(2) m] in \<open>auto simp: bind_def\<close>)
qed

lemma store_step_runs:
  assumes "(if in_merge ins then foldl deferred (merge_known ext u ins) (cleanup_temp f)
      else store_new dp conf u ext f (int (length data)) ins) w = (r, w')"
    "job_at ev d0 d1 w" "sure_commit ev" "plain_suffix dp" "fmap w = fm(f \<mapsto> data)" "fm f = None" "temp_name dp f"
  shows "w_db w' = d0 \<or> (\<exists>ts src ext q p'. merged d1 (w_db w') ts src (subject_id u) ext q p' \<and>
    p_id q = p_id (in_pic ins) \<and> p_up q = p_up (in_pic ins) \<and> p_down q = p_down (in_pic ins))"
proof -
  have w: "w_db w = d0" "sure_commit (w_env w)" using assms(2,3) by (simp_all add: job_at_def)
  show ?thesis
  proof (cases "in_merge ins")
    case True
    then have "foldl deferred (merge_known ext u ins) (cleanup_temp f) w = (r, w')" using assms(1) by simp
    then obtain r1 w1 where m: "merge_known ext u ins w = (r1, w1)" "w_db w' = w_db w1"
      by (rule deferred_runs) (auto intro: cleanup_keeps)
    show ?thesis
    proof (cases r1)
      case (Ok p')
      from merge_known_merges [OF m(1) [unfolded Ok] assms(2)] show ?thesis unfolding m(2) by blast
    qed (use commits_or_notD [OF merge_known_once m(1) w(2)] w(1) m(2) in auto)
  next
    case False
    then have s: "store_new dp conf u ext f (int (length data)) ins w = (r, w')" using assms(1) by simp
    show ?thesis
    proof (cases r)
      case (Ok p')
      from store_new_job [OF s [unfolded Ok] assms(2,4-7)]
      show ?thesis by (rule stored_rows) blast
    qed (use commits_or_notD [OF store_new_once s w(2)] w(1) in auto)
  qed
qed

lemma take_in_runs:
  assumes "take_in dp conf now inp u loc ref chk names0 w = (r, w')" "job_at ev d d w" "sure_commit ev"
    "plain_suffix dp"
  shows "w_db w' = d \<or> uploaded d (w_db w')"
proof -
  have w: "w_db w = d" using assms(2) by (simp add: job_at_def)
  show ?thesis
    using assms(1) [unfolded take_in_def] files_keeps(2) [OF fetch_frames]
  proof (cases rule: look_step)
    case (go fetched w1)
    obtain f sz names where x: "fetched = (f, sz, names)" by (cases fetched)
    obtain data where b: "fmap w f = None" "fmap w1 = (fmap w)(f \<mapsto> data)" "temp_name dp f"
      "sz = int (length data)" by (rule fetch_Ok [OF go(1) [unfolded x]])
    have j1: "job_at ev d d w1" by (rule job_at_files [OF fetch_frames go(1) assms(2)])
    have base: "keeps keeps_base (guarded (cleanup_temp f) (inspect dp conf now inp (subject_id u) loc ref (f, sz, names)))"
      by (rule base_guarded) (auto intro: cleanup_keeps inspect_frames)
    have run: "bind (guarded (cleanup_temp f) (inspect dp conf now inp (subject_id u) loc ref (f, sz, names))) (\<lambda>ins.
       if in_merge ins then foldl deferred (merge_known (up_ext inp) u ins) (cleanup_temp f)
       else store_new dp conf u (up_ext inp) f sz ins) w1 = (r, w')" using go(2) x by simp
    show ?thesis
      using run base
    proof (cases rule: look_step)
      case stop
      then show ?thesis using j1 by (simp add: job_at_def)
    next
      case (go ins w2)
      have i: "inspect dp conf now inp (subject_id u) loc ref (f, int (length data), names) w1 = (Ok ins, w2)"
        using go(1) by (simp add: guarded_Ok b(4))
      have fd: "fmap w1 f = Some data" using b(2) by simp
      obtain d1 where l: "job_at ev d d1 w2" "fmap w2 = fmap w1"
        "located d d1 (hashes_of dp data) (in_image ins) (in_pic ins) (in_merge ins)"
        by (rule inspect_job [OF i j1 fd])
      have fm: "fmap w2 = (fmap w)(f \<mapsto> data)" using l(2) b(2) by simp
      from store_step_runs [OF go(2) [unfolded b(4)] l(1) assms(3,4) fm b(1,3)]
      show ?thesis using l(3) inspect_fresh [OF i j1 fd] unfolding uploaded_def by blast
    qed
  qed (simp add: w)
qed

lemma upsert_body_runs:
  assumes "upsert_body dp cx now inp u w = (r, w')" "job_at ev d d w" "sure_commit ev" "plain_suffix dp"
  shows "w_db w' = d \<or> uploaded d (w_db w')"
proof (cases "w_db w' = d")
  case False
  have w: "w_db w = d" using assms(2) by (simp add: job_at_def)
  have "\<exists>conf loc ref chk names r1 w1. take_in dp conf now inp u loc ref chk names w = (r1, w1) \<and> w_db w' = w_db w1"
    using assms(1) False w unfolding upsert_body_def
    by (auto simp: bind_def run_simps GetConfiguration_def split: prod.splits res.splits if_splits option.splits; blast)
  then show ?thesis using take_in_runs [OF _ assms(2-4)] by metis
qed simp

lemma UpsertPicTask_runs:
  assumes "UpsertPicTask dp cx now inp w = (r, w')" "fits w" "idle w" "sure_commit (w_env w)" "plain_suffix dp"
  shows "\<exists>d. visit_only (w_db w) d \<and> (w_db w' = d \<or> uploaded d (w_db w'))"
  using assms(1) [unfolded UpsertPicTask_def authedJob_def] assms(2,3)
proof (cases rule: upsert.runs)
  case (go su w1 r1 w2)
  from upsert_body_runs [OF go(3,1) assms(4,5)] go(2,4) show ?thesis by auto
qed auto

subsection \<open>From tasks to requests\<close>

definition maintains :: "(database \<Rightarrow> bool) \<Rightarrow> 'a io \<Rightarrow> bool" where
  "maintains I m \<longleftrightarrow> (\<forall>w r w'. m w = (r, w') \<longrightarrow> fits w \<longrightarrow> idle w \<longrightarrow> sure_commit (w_env w) \<longrightarrow> I (w_db w) \<longrightarrow>
     (\<forall>p. r \<noteq> Panic p) \<longrightarrow> I (w_db w'))"

lemma maintainsD: "maintains I m \<Longrightarrow> m w = (r, w') \<Longrightarrow> fits w \<Longrightarrow> idle w \<Longrightarrow> sure_commit (w_env w) \<Longrightarrow>
    I (w_db w) \<Longrightarrow> (\<And>p. r \<noteq> Panic p) \<Longrightarrow> I (w_db w')"
  unfolding maintains_def by blast

lemma maintains_bind:
  assumes "keeps keeps_whole m" "maintains I m" "\<And>x. maintains I (f x)"
  shows "maintains I (bind m f)"
  unfolding maintains_def
proof (intro allI impI)
  fix w r w'
  assume run: "bind m f w = (r, w')" and w: "fits w" "idle w" "sure_commit (w_env w)" "I (w_db w)"
    and no: "\<forall>p. r \<noteq> Panic p"
  obtain r1 w1 where m: "m w = (r1, w1)" by fastforce
  have k: "fits w1" "idle w1" "sure_commit (w_env w1)"
    using keepsD [OF assms(1) m] w(1-3) by (auto simp: keeps_whole_def)
  show "I (w_db w')"
  proof (cases r1)
    case (Ok x)
    then have "f x w1 = (r, w')" using run m by (simp add: bind_def)
    moreover have "I (w_db w1)" using maintainsD [OF assms(2) m w] Ok by simp
    ultimately show ?thesis using maintainsD [OF assms(3) _ k] no by blast
  qed (use run m no maintainsD [OF assms(2) m w] in \<open>auto simp: bind_def\<close>)
qed

lemma maintains_runner:
  assumes "\<And>n. keeps keeps_whole (task n)" "\<And>n. maintains I (task n)"
  shows "maintains I (runner_Run sv task)"
  unfolding maintains_def
proof (intro allI impI)
  fix w r w'
  assume run: "runner_Run sv task w = (r, w')" and w: "fits w" "idle w" "sure_commit (w_env w)" "I (w_db w)"
    and no: "\<forall>p. r \<noteq> Panic p"
  obtain es w1 where "run_outcome (re_adapter (sv_runner sv)) task 5 es w w1 r w'"
    by (rule runner_Run_outcome [OF run])
  from run_outcome_runs [OF this] have runs: "failed_runs task 0 w es w1"
    "(\<exists>n. task n w1 = (r, w')) \<or> w' = w1 \<and> (\<exists>e. r = Err e)" by blast+
  have "fits w1 \<and> idle w1 \<and> sure_commit (w_env w1) \<and> I (w_db w1)"
    using runs(1) w
  proof (induction rule: failed_runs.induct)
    case (one_more n w e w1 es w2)
    have "keeps_whole w w1" by (rule keepsD [OF assms(1) one_more.hyps(1)])
    moreover have "I (w_db w1)" using maintainsD [OF assms(2) one_more.hyps(1)] one_more.prems by simp
    ultimately show ?case using one_more.IH one_more.prems by (auto simp: keeps_whole_def)
  qed simp
  then show "I (w_db w')" using runs(2) maintainsD [OF assms(2), of _ w1 r w'] no by auto
qed

lemma maintains_wire: "maintains I m \<Longrightarrow> maintains I (on_the_wire m)"
  unfolding maintains_def
proof (intro allI impI)
  fix w r w'
  assume m: "\<forall>w r w'. m w = (r, w') \<longrightarrow> fits w \<longrightarrow> idle w \<longrightarrow> sure_commit (w_env w) \<longrightarrow> I (w_db w) \<longrightarrow>
      (\<forall>p. r \<noteq> Panic p) \<longrightarrow> I (w_db w')"
    and run: "on_the_wire m w = (r, w')" and w: "fits w" "idle w" "sure_commit (w_env w)" "I (w_db w)"
    and no: "\<forall>p. r \<noteq> Panic p"
  obtain r1 where "m w = (r1, w')" "r = wire_error r1"
    using run by (cases "m w") (auto simp: on_the_wire_def)
  with m w no show "I (w_db w')" by (cases r1) auto
qed

text \<open>An invariant that every task keeps, whatever it reports.\<close>

locale site_invariant =
  fixes I :: "database \<Rightarrow> bool"
  assumes visits: "visit_only d d' \<Longrightarrow> I d \<Longrightarrow> I d'"
    and comment: "maintains I (AddPicCommentTask cx now i j txt' ext)"
    and tag: "maintains I (AddPicTagsTask cx now i names)"
    and vote: "maintains I (AddPicVoteTask cx now i v ext)"
    and comment_vote: "maintains I (AddPicCommentVoteTask cx now i j v ext)"
    and view: "maintains I (IncrementViewCountTask cx now i)"
    and soft: "maintains I (SoftDeletePicTask cx now i pend reason details tmp)"
    and purge: "maintains I (PurgePicTask cx now pp i)"
    and upsert: "plain_suffix dp \<Longrightarrow> maintains I (UpsertPicTask dp cx now inp)"
    and create: "maintains I (CreateUserTask cx now hash idn secret caps ext)"
    and update: "maintains I (UpdateUserTask cx now i version cs cs')"
    and sign_in: "maintains I (AuthUserTask cx now compare idn secret i j)"
    and sign_out: "maintains I (UnauthUserTask cx now i j)"
begin

lemma maintains_visits:
  assumes "keeps keeps_visits m"
  shows "maintains I m"
  unfolding maintains_def
proof (intro allI impI)
  fix w r w'
  assume "m w = (r, w')" "fits w" "idle w" "I (w_db w)"
  then show "I (w_db w')" using keepsD [OF assms] visits by (fastforce simp: keeps_visits_def)
qed

lemmas tasks = comment tag vote comment_vote view soft purge create update sign_in sign_out

lemmas looks = maintains_visits [OF optional_id_visits] maintains_visits [OF visits.keeps_ret]
  maintains_visits [OF visits.keeps_fail] maintains_visits [OF visits.keeps_lift_res]
  maintains_visits [OF visits.keeps_check]

lemmas pieces = looks tasks maintains_bind maintains_runner maintains_visits [OF visits.keeps_wrap_err] whole_ops

lemma maintains_handlers:
  assumes "plain_suffix (sv_deps sv)"
  shows "maintains I (handleAddPicComment sv rc s t t')" "maintains I (handleAddPicTags sv rc s ts)"
    "maintains I (handleUpsertPicVote sv rc s i)" "maintains I (handleUpsertPicCommentVote sv rc s t i)"
    "maintains I (handleIncrementViewCount sv rc s)" "maintains I (handlePurgePic sv rc s)"
    "maintains I (handleSoftDeletePic sv rc s t i ts')" "maintains I (handleUpsertPic sv rc s t t' u' v' ext)"
    "maintains I (handleCreateUser sv rc s t)" "maintains I (handleUpdateUser sv rc s i caps)"
    "maintains I (handleDeleteToken sv rc)" "maintains I (handleGetRefreshToken sv rc s t t')"
  unfolding handleAddPicComment_def handleAddPicTags_def handleUpsertPicVote_def handleUpsertPicCommentVote_def
    handleIncrementViewCount_def handlePurgePic_def handleSoftDeletePic_def handleUpsertPic_def
    handleCreateUser_def handleUpdateUser_def handleDeleteToken_def handleGetRefreshToken_def
  by (auto intro!: pieces upsert [OF assms] visits.keeps_lift_res split: option.splits prod.splits)

lemma maintains_serve:
  assumes "plain_suffix (sv_deps sv)"
  shows "maintains I (serve sv rc req)"
proof -
  have "maintains I (dispatch sv req rc')" for rc'
    unfolding dispatch_def
    by (cases req) (auto intro!: maintains_bind looks maintains_handlers [OF assms] writing_handlers
        reading_handlers [THEN visits_whole] maintains_visits [OF reading_handlers(1)]
        maintains_visits [OF reading_handlers(2)] maintains_visits [OF reading_handlers(3)]
        maintains_visits [OF reading_handlers(4)] maintains_visits [OF reading_handlers(5)]
        maintains_visits [OF reading_handlers(6)] maintains_visits [OF reading_handlers(7)]
        maintains_visits [OF reading_handlers(8)] maintains_visits [OF reading_handlers(9)]
        maintains_visits [OF reading_handlers(10)] maintains_visits [OF reading_handlers(11)]
        maintains_visits [OF reading_handlers(12)] split: prod.splits)
  then show ?thesis unfolding serve_def intercept_def
    by (intro maintains_wire maintains_bind whole.keeps_lift_res looks)
qed

end

section \<open>The counts and contents of pictures, whatever requests arrive\<close>

text \<open>
  The counts of a picture are those of its votes (\<open>tally\<close>) and no two pictures have the same contents
  (\<open>one_pic_each\<close>). Every task keeps both, whatever it reports, so every request does.
\<close>

definition sound :: "database \<Rightarrow> bool" where
  "sound d \<longleftrightarrow> tally d \<and> one_pic_each d"

subsection \<open>Changes that keep them\<close>

lemma one_pic_fewer: "one_pic_each d \<Longrightarrow> set (msgs (db_idents d')) \<subseteq> set (msgs (db_idents d)) \<Longrightarrow> one_pic_each d'"
  unfolding one_pic_each_def contents_of_def by (meson subsetD)

lemma sound_same:
  assumes "sound d" "db_pics d' = db_pics d" "db_votes d' = db_votes d" "db_idents d' = db_idents d"
  shows "sound d'"
  using assms tally_same [of d d'] one_pic_fewer [of d d'] by (simp add: sound_def)

lemma sound_visits: "visit_only d d' \<Longrightarrow> sound d \<Longrightarrow> sound d'"
  using tally_visits [of d d'] one_pic_fewer [of d d'] by (auto simp: sound_def visit_only_def same_rows_def)

lemma sound_purged: "purged now i d d' \<Longrightarrow> sound d \<Longrightarrow> sound d'"
  using tally_purged [of d now i d'] one_pic_fewer [of d d'] by (auto simp: sound_def purged_def)

lemma tally_replaced:
  assumes "tally d1" "the_pic d1 (p_id q) p0" "p_up p' = p_up p0" "p_down p' = p_down p0" "p_id p' = p_id q"
    "msgs (db_pics d') = map (\<lambda>x. if p_id x = p_id q then p' else x) (msgs (db_pics d1))"
    "msgs (db_votes d') = msgs (db_votes d1)"
  shows "tally d'"
proof (rule tally_same [OF assms(1,7)])
  show "map (\<lambda>p. (p_id p, p_up p, p_down p)) (msgs (db_pics d')) =
      map (\<lambda>p. (p_id p, p_up p, p_down p)) (msgs (db_pics d1))"
    unfolding assms(6) map_map
  proof (rule map_cong [OF refl])
    fix x
    assume "x \<in> set (msgs (db_pics d1))"
    then have "p_id x = p_id q \<Longrightarrow> x = p0" by (rule the_pic_unique [OF assms(2)])
    then show "((\<lambda>p. (p_id p, p_up p, p_down p)) \<circ> (\<lambda>x. if p_id x = p_id q then p' else x)) x =
        (p_id x, p_up x, p_down x)"
      using assms(3-5) the_pic_id [OF assms(2)] by (cases "p_id x = p_id q") simp_all
  qed
qed

lemma tally_entered:
  assumes "tally d" "entered d d1 hs im p" "p_up p = 0" "p_down p = 0" "p_id p \<notin> p_id ` set (msgs (db_pics d))"
  shows "tally d1 \<and> the_pic d1 (p_id p) p"
proof -
  have e: "msgs (db_pics d1) = msgs (db_pics d) @ [p]"
    and fr: "d1 = d\<lparr>db_pics := db_pics d1, db_idents := db_idents d1, db_seq := db_seq d1\<rparr>"
    using assms(2) unfolding entered_def by blast+
  have v: "msgs (db_votes d1) = msgs (db_votes d)" using arg_cong [OF fr, of db_votes] by simp
  have "votes_for d1 = votes_for d" by (simp add: votes_for_def v fun_eq_iff)
  moreover have "votes_for d (p_id p) x = 0" for x
  proof -
    have "filter (\<lambda>v. pv_pic v = p_id p \<and> pv_vote v = x) (msgs (db_votes d)) = []"
      using assms(1,5) unfolding tally_def filter_empty_conv by metis
    then show ?thesis by (simp add: votes_for_def)
  qed
  ultimately have "tally d1" using assms(1,3,4) v e by (auto simp: tally_def int64_def)
  moreover have "filter (\<lambda>q. p_id q = p_id p) (msgs (db_pics d)) = []"
    unfolding filter_empty_conv using assms(5) by (metis image_eqI)
  ultimately show ?thesis using e by (simp add: the_pic_def)
qed

lemma sound_uploaded:
  assumes "uploaded d d'" "db_fits ev d'" "sound d"
  shows "sound d'"
proof -
  obtain d1 hs im p0 merge ts src u ext q p' where up: "located d d1 hs im p0 merge"
    "Ex (contents_of d (hs ! 2)) \<or> p_up p0 = 0 \<and> p_down p0 = 0" "merged d1 d' ts src u ext q p'"
    "p_id q = p_id p0" "p_up q = p_up p0" "p_down q = p_down p0"
    using assms(1) unfolding uploaded_def by blast
  have p': "p_id p' = p_id q" "p_up p' = p_up q" "p_down p' = p_down q"
    and rows: "msgs (db_pics d') = map (\<lambda>x. if p_id x = p_id q then p' else x) (msgs (db_pics d1))"
    and fr: "d' = d1\<lparr>db_pics := db_pics d', db_events := db_events d'\<rparr>"
    using up(3) by (auto simp: merged_def undelete_def split: option.splits)
  have same: "db_votes d' = db_votes d1" "db_idents d' = db_idents d1"
    using arg_cong [OF fr, of db_votes] arg_cong [OF fr, of db_idents] by simp_all
  have ids: "map p_id (msgs (db_pics d')) = map p_id (msgs (db_pics d1))"
    using p'(1) by (simp add: rows)
  have "tally d1 \<and> the_pic d1 (p_id p0) p0"
  proof (cases "Ex (contents_of d (hs ! 2))")
    case True
    then show ?thesis using up(1) assms(3) by (auto simp: located_def sound_def)
  next
    case False
    then have e: "entered d d1 hs im p0" "p_up p0 = 0" "p_down p0 = 0"
      using up(1,2) by (auto simp: located_def)
    have "distinct (map p_id (msgs (db_pics d1)))" using pics_distinct [OF assms(2)] by (simp only: ids)
    then have "p_id p0 \<notin> p_id ` set (msgs (db_pics d))" using e(1) by (auto simp: entered_def)
    then show ?thesis using tally_entered [OF _ e] assms(3) by (simp add: sound_def)
  qed
  then have "tally d'" using tally_replaced [of d1 q p0 p' d'] up(4-6) p' rows same by simp
  moreover have "one_pic_each d'"
  proof -
    have eq: "contents_of d' h i \<longleftrightarrow> contents_of d h i \<or> (h = hs ! 2 \<and> i = p_id p0)" for h i
      using located_contents [OF up(1), of h i] merged_keeps(1) [OF up(3), of h i] by simp
    have old: "i = p_id p0" if "contents_of d (hs ! 2) i" for i
    proof -
      have "contents_of d (hs ! 2) (p_id p0)" using up(1) that by (auto simp: located_def split: if_splits)
      then show ?thesis using that assms(3) unfolding sound_def one_pic_each_def by blast
    qed
    show ?thesis unfolding one_pic_each_def eq
      using assms(3) old unfolding sound_def one_pic_each_def by blast
  qed
  ultimately show ?thesis by (simp add: sound_def)
qed

subsection \<open>Every task keeps them\<close>

lemma maintains_ok:
  assumes "promises (\<lambda>d d'. True) m"
    "\<And>w x w'. m w = (Ok x, w') \<Longrightarrow> fits w \<Longrightarrow> idle w \<Longrightarrow> sound (w_db w) \<Longrightarrow> sound (w_db w')"
  shows "maintains sound m"
  unfolding maintains_def
proof (intro allI impI)
  fix w r w'
  assume m: "m w = (r, w')" and w: "fits w" "idle w" "sure_commit (w_env w)" "sound (w_db w)"
    and no: "\<forall>p. r \<noteq> Panic p"
  show "sound (w_db w')"
  proof (cases r)
    case (Ok x)
    then show ?thesis using assms(2) m w by blast
  next
    case (Err e)
    then show ?thesis using sound_visits promisesD(5) [OF assms(1) m w(1-3)] w(4) by blast
  qed (use no in simp)
qed

text \<open>A step on pictures keeps the tally; what it does to the identifiers is nothing.\<close>

lemma step_sound:
  assumes "pic_step w w'" "fits w" "idle w" "sound (w_db w)" "visit_only (w_db w) d"
    "db_idents (w_db w') = db_idents d"
  shows "sound (w_db w')"
proof -
  have "db_idents (w_db w') = db_idents (w_db w)" using assms(5,6) by (simp add: visit_only_def same_rows_def)
  then show ?thesis using pic_step_tally [OF assms(1-3)] assms(4) one_pic_fewer [of "w_db w" "w_db w'"]
    by (simp add: sound_def)
qed

lemma pic_changed_idents: "pic_changed d d' p \<Longrightarrow> db_idents d' = db_idents d"
  unfolding pic_changed_def by (elim conjE) (drule arg_cong [where f = db_idents], simp)

text \<open>Changes of other tables.\<close>

lemma sound_frames:
  "d' = d\<lparr>db_users := us\<rparr> \<Longrightarrow> sound d \<Longrightarrow> sound d'"
  "d' = d\<lparr>db_seq := n, db_users := us\<rparr> \<Longrightarrow> sound d \<Longrightarrow> sound d'"
  "d' = d\<lparr>db_seq := n, db_tags := ts, db_pictags := pts\<rparr> \<Longrightarrow> sound d \<Longrightarrow> sound d'"
  by (rule sound_same [of d]; simp)+

lemma idents_frames:
  "d' = d\<lparr>db_pics := ps, db_votes := vs, db_events := es\<rparr> \<Longrightarrow> db_idents d' = db_idents d"
  "d' = d\<lparr>db_seq := n, db_comments := cs, db_events := es\<rparr> \<Longrightarrow> db_idents d' = db_idents d"
  "d' = d\<lparr>db_comments := cs, db_cvotes := cvs\<rparr> \<Longrightarrow> db_idents d' = db_idents d"
  by simp_all

lemma voted_idents: "voted now u i v ext d d' pv \<Longrightarrow> db_idents d' = db_idents d"
  unfolding voted_def by (elim exE conjE) (erule idents_frames)

lemma commented_idents: "commented tlib conf now u i j t ext d d' pc \<Longrightarrow> db_idents d' = db_idents d"
  unfolding commented_def by (elim exE conjE) (erule idents_frames)

lemma comment_voted_idents: "comment_voted now u i j v ext d d' pcv \<Longrightarrow> db_idents d' = db_idents d"
  unfolding comment_voted_def by (elim exE conjE) (erule idents_frames)

lemma user_changed_sound: "user_changed d d' u \<Longrightarrow> sound d \<Longrightarrow> sound d'"
  unfolding user_changed_def by (elim conjE) (erule sound_frames)

lemma tagged_sound: "tagged tlib now i u raws ids d d' \<Longrightarrow> sound d \<Longrightarrow> sound d'"
  unfolding tagged_def by (elim exE conjE) (erule sound_frames)

lemma maintains_vote: "maintains sound (AddPicVoteTask cx now i v ext)"
proof (rule maintains_ok [OF promised_tasks(3)])
  fix w x w'
  assume a: "AddPicVoteTask cx now i v ext w = (Ok x, w')" "fits w" "idle w" "sound (w_db w)"
  obtain pv fpv where x: "x = (pv, fpv)" by fastforce
  show "sound (w_db w')"
    using AddPicVoteTask_effect [OF a(2,3) a(1) [unfolded x]] step_sound [OF pic_step.vote [OF a(1)] a(2-4)] voted_idents
    by blast
qed

lemma maintains_comment: "maintains sound (AddPicCommentTask cx now i j t ext)"
proof (rule maintains_ok [OF promised_tasks(1)])
  fix w x w'
  assume a: "AddPicCommentTask cx now i j t ext w = (Ok x, w')" "fits w" "idle w" "sound (w_db w)"
  obtain pc fpc where x: "x = (pc, fpc)" by fastforce
  show "sound (w_db w')"
    using AddPicCommentTask_effect [OF a(2,3) a(1) [unfolded x]] step_sound [OF pic_step.comment [OF a(1)] a(2-4)]
      commented_idents by blast
qed

lemma maintains_comment_vote: "maintains sound (AddPicCommentVoteTask cx now i j v ext)"
proof (rule maintains_ok [OF promised_tasks(4)])
  fix w x w'
  assume a: "AddPicCommentVoteTask cx now i j v ext w = (Ok x, w')" "fits w" "idle w" "sound (w_db w)"
  show "sound (w_db w')"
    using AddPicCommentVoteTask_effect [OF a(2,3,1)] step_sound [OF pic_step.comment_vote [OF a(1)] a(2-4)]
      comment_voted_idents by blast
qed

lemma maintains_view: "maintains sound (IncrementViewCountTask cx now i)"
proof (rule maintains_ok [OF promised_tasks(5)])
  fix w x w'
  assume "IncrementViewCountTask cx now i w = (Ok x, w')" and b: "fits w" "idle w" "sound (w_db w)"
  then have a: "IncrementViewCountTask cx now i w = (Ok (), w')" by simp
  show "sound (w_db w')"
    using IncrementViewCountTask_effect [OF b(1,2) a] step_sound [OF pic_step.view [OF a] b] pic_changed_idents
    by blast
qed

lemma maintains_soft: "maintains sound (SoftDeletePicTask cx now i pend reason details tmp)"
proof (rule maintains_ok [OF promised_tasks(6)])
  fix w x w'
  assume "SoftDeletePicTask cx now i pend reason details tmp w = (Ok x, w')" and b: "fits w" "idle w" "sound (w_db w)"
  then have a: "SoftDeletePicTask cx now i pend reason details tmp w = (Ok (), w')" by simp
  show "sound (w_db w')"
    using SoftDeletePicTask_effect [OF b(1,2) a] step_sound [OF pic_step.soft [OF a] b] pic_changed_idents
    by blast
qed

lemma maintains_tags: "maintains sound (AddPicTagsTask cx now i names)"
proof (rule maintains_ok [OF promised_tasks(2)])
  fix w x w'
  assume a: "AddPicTagsTask cx now i names w = (Ok x, w')" "fits w" "idle w" "sound (w_db w)"
  show "sound (w_db w')"
    using AddPicTagsTask_effect [OF a(2,3,1)] tagged_sound sound_visits a(4) by blast
qed

lemma maintains_create: "maintains sound (CreateUserTask cx now hash idn secret caps ext)"
proof (rule maintains_ok [OF promised_tasks(7)])
  fix w x w'
  assume a: "CreateUserTask cx now hash idn secret caps ext w = (Ok x, w')" "fits w" "idle w" "sound (w_db w)"
  obtain d where "visit_only (w_db w) d" "w_db w' = d\<lparr>db_seq := db_seq (w_db w'), db_users := db_users (w_db w')\<rparr>"
    using CreateUserTask_effect [OF a(2,3,1)] by blast
  then show "sound (w_db w')" using sound_visits sound_frames(2) a(4) by blast
qed

lemma maintains_update: "maintains sound (UpdateUserTask cx now i version cs cs')"
proof (rule maintains_ok [OF promised_tasks(8)])
  fix w x w'
  assume a: "UpdateUserTask cx now i version cs cs' w = (Ok x, w')" "fits w" "idle w" "sound (w_db w)"
  obtain d where "visit_only (w_db w) d" "w_db w' = d \<or> user_changed d (w_db w') x"
    using UpdateUserTask_effect [OF a(2,3,1)] by (metis (no_types))
  then show "sound (w_db w')" using sound_visits user_changed_sound a(4) by metis
qed

lemma maintains_sign_in: "maintains sound (AuthUserTask cx now compare idn secret i j)"
proof (rule maintains_ok [OF promised_tasks(9)])
  fix w x w'
  assume a: "AuthUserTask cx now compare idn secret i j w = (Ok x, w')" "fits w" "idle w" "sound (w_db w)"
  obtain u tid where x: "x = (u, tid)" by fastforce
  show "sound (w_db w')"
    using AuthUserTask_effect [OF a(2,3) a(1) [unfolded x]] user_changed_sound sound_visits a(4) by blast
qed

lemma maintains_sign_out: "maintains sound (UnauthUserTask cx now i j)"
proof (rule maintains_ok [OF promised_tasks(10)])
  fix w x w'
  assume "UnauthUserTask cx now i j w = (Ok x, w')" and b: "fits w" "idle w" "sound (w_db w)"
  then have a: "UnauthUserTask cx now i j w = (Ok (), w')" by simp
  show "sound (w_db w')"
    using UnauthUserTask_effect [OF b(1,2) a] user_changed_sound sound_visits b(3) by blast
qed

lemma maintains_purge: "maintains sound (PurgePicTask cx now pp i)"
  unfolding maintains_def
proof (intro allI impI)
  fix w r w'
  assume "PurgePicTask cx now pp i w = (r, w')" "fits w" "idle w" "sure_commit (w_env w)" and s: "sound (w_db w)"
  then show "sound (w_db w')" using PurgePicTask_runs sound_visits sound_purged s by metis
qed

lemma maintains_upsert:
  assumes "plain_suffix dp"
  shows "maintains sound (UpsertPicTask dp cx now inp)"
  unfolding maintains_def
proof (intro allI impI)
  fix w r w'
  assume a: "UpsertPicTask dp cx now inp w = (r, w')" "fits w" "idle w" "sure_commit (w_env w)"
    and s: "sound (w_db w)"
  have "fits w'" using keepsD [OF whole_tasks(8) a(1)] a(2,3) by (auto simp: keeps_whole_def)
  then have "db_fits (w_env w') (w_db w')" by (simp add: fits_def)
  then show "sound (w_db w')"
    using UpsertPicTask_runs [OF a assms] sound_visits sound_uploaded s by metis
qed

interpretation sound: site_invariant sound
  by unfold_locales
    (rule sound_visits maintains_comment maintains_tags maintains_vote maintains_comment_vote maintains_view
      maintains_soft maintains_purge maintains_upsert maintains_create maintains_update maintains_sign_in
      maintains_sign_out; assumption)+

end
