(* ===== verification/Service.thy ===== *)
theory Service
  imports Histories UploadRuns
begin

section \<open>The service over time\<close>

text \<open>
  Requests arrive one after the other, each with a context and metadata, and each at a server with its
  clock and runner. The calls are a sequence because the transactions of tasks do not overlap in the model.
  The theorems lift what the tasks promise to whatever clients send.
\<close>

type_synonym call = "server \<times> rpc \<times> request"

fun serve_all :: "call list \<Rightarrow> world \<Rightarrow> response res list \<times> world" where
  "serve_all [] w = ([], w)"
| "serve_all ((sv, rc, req) # cs) w =
     (let (r, w1) = serve sv rc req w; (rs, w2) = serve_all cs w1 in (r # rs, w2))"

lemma serve_all_Cons:
  assumes "serve_all ((sv, rc, req) # cs) w = (rs, w')"
  obtains r w1 rs' where "serve sv rc req w = (r, w1)" "serve_all cs w1 = (rs', w')" "rs = r # rs'"
  using assms by (auto split: prod.splits)

lemma serve_all_whole:
  "serve_all cs w = (rs, w') \<Longrightarrow> fits w \<Longrightarrow> idle w \<Longrightarrow> fits w' \<and> idle w' \<and> w_env w' = w_env w"
proof (induction cs arbitrary: w rs)
  case (Cons c cs)
  obtain sv rc req where c: "c = (sv, rc, req)" by (cases c)
  obtain r w1 rs' where s: "serve sv rc req w = (r, w1)" "serve_all cs w1 = (rs', w')"
    by (rule serve_all_Cons [OF Cons.prems(1) [unfolded c]])
  have "keeps_whole w w1" by (rule keepsD [OF serve_whole s(1)])
  then show ?case using Cons.IH [OF s(2)] Cons.prems(2,3) by (auto simp: keeps_whole_def)
qed simp

lemma serve_all_visits:
  "serve_all cs w = (rs, w') \<Longrightarrow> fits w \<Longrightarrow> idle w \<Longrightarrow> list_all (\<lambda>(sv, rc, req). reads_only req) cs \<Longrightarrow>
    fits w' \<and> idle w' \<and> visit_only (w_db w) (w_db w')"
proof (induction cs arbitrary: w rs)
  case (Cons c cs)
  obtain sv rc req where c: "c = (sv, rc, req)" by (cases c)
  obtain r w1 rs' where s: "serve sv rc req w = (r, w1)" "serve_all cs w1 = (rs', w')"
    by (rule serve_all_Cons [OF Cons.prems(1) [unfolded c]])
  have "reads_only req" using Cons.prems(4) c by simp
  then have "keeps_visits w w1" by (rule keepsD [OF serve_reads s(1)])
  then have w1: "fits w1" "idle w1" "visit_only (w_db w) (w_db w1)"
    using Cons.prems(2,3) by (auto simp: keeps_visits_def)
  then show ?case using Cons.IH [OF s(2) w1(1,2)] Cons.prems(4) visit_only_trans by (auto simp: c)
qed simp

lemma serve_all_sound:
  "serve_all cs w = (rs, w') \<Longrightarrow> fits w \<Longrightarrow> idle w \<Longrightarrow> sure_commit (w_env w) \<Longrightarrow>
    list_all (\<lambda>(sv, rc, req). plain_suffix (sv_deps sv)) cs \<Longrightarrow> list_all (\<lambda>r. \<forall>p. r \<noteq> Panic p) rs \<Longrightarrow>
    sound (w_db w) \<Longrightarrow> sound (w_db w')"
proof (induction cs arbitrary: w rs)
  case (Cons c cs)
  obtain sv rc req where c: "c = (sv, rc, req)" by (cases c)
  obtain r w1 rs' where s: "serve sv rc req w = (r, w1)" "serve_all cs w1 = (rs', w')" "rs = r # rs'"
    by (rule serve_all_Cons [OF Cons.prems(1) [unfolded c]])
  have w1: "fits w1" "idle w1" "sure_commit (w_env w1)"
    using keepsD [OF serve_whole s(1)] Cons.prems(2-4) by (auto simp: keeps_whole_def)
  have "plain_suffix (sv_deps sv)" and no: "r \<noteq> Panic p" for p
    using Cons.prems(5,6) by (simp_all add: c s(3))
  then have "sound (w_db w1)"
    using maintainsD [OF sound.maintains_serve s(1)] Cons.prems(2-4,7) by blast
  then show ?case using Cons.IH [OF s(2) w1] Cons.prems(5,6) by (simp add: c s(3))
qed simp

subsection \<open>The properties\<close>

text \<open>C9. Whatever clients send and whatever happens on the way, the database stays well-formed: after
  every sequence of requests, failed and panicking ones included, all rows of all tables have
  the values their columns say and no two share a key; no transaction is left open.\<close>

theorem requests_keep_the_database_well_formed:
  assumes "fits w" "idle w" "serve_all cs w = (rs, w')"
  shows "fits w' \<and> idle w'"
  using serve_all_whole [OF assms(3,1,2)] by simp

text \<open>C10. A request that only reads changes nothing: whatever the requests to find and look up report,
  with whatever token and however often the runner tries, the database has the same rows afterwards,
  apart from the times of visits of users and the counter of ids.\<close>

theorem reading_requests_change_visits_only:
  assumes "fits w" "idle w" "list_all (\<lambda>(sv, rc, req). reads_only req) cs" "serve_all cs w = (rs, w')"
  shows "visit_only (w_db w) (w_db w')"
  using serve_all_visits [OF assms(4,1,2,3)] by simp



end
