(* ===== verification/ServeRuns.thy ===== *)
theory ServeRuns
  imports Service UserRuns PicRuns
begin

section \<open>Requests at the small database\<close>

text \<open>
  A server over the small database, and two requests: a view of the picture with id 3, and one
  for a text that is not an id.
\<close>

definition demo_proto :: protolib where
  "demo_proto = \<lparr>pl_marshal_header = \<lambda>h. Inl (EOther ''no header''), pl_unmarshal_header = \<lambda>s. Inl (EOther ''no header''),
     pl_marshal_payload = \<lambda>p. Inl (EOther ''no payload''), pl_unmarshal_payload = \<lambda>s. Inl (EOther ''no payload'')\<rparr>"

definition demo_server :: server where
  "demo_server = \<lparr>sv_deps = demo_deps,
     sv_coder = \<lparr>co_proto = demo_proto, co_hmac = \<lambda>k s. s, co_secret = [], co_now = now0, co_later = now0\<rparr>,
     sv_clock = \<lambda>k. now0, sv_now = \<lambda>n. now0, sv_compare = \<lambda>a b. None, sv_hash = Inr, sv_runner = calm_runner,
     sv_rng = \<lambda>k. 1 / 2, sv_phi = 809 / 500, sv_jitter = 1 / 5, sv_round = id, sv_in_a_week = \<lambda>t. t,
     sv_lower = id, sv_score = \<lambda>u d. (0, 1), sv_marshal_http = \<lambda>k v. Inr (k @ v), sv_mtime = \<lambda>s. now0\<rparr>"

definition by_alice :: rpc where
  "by_alice = \<lparr>rc_cx = as_alice, rc_auth = None, rc_md = None\<rparr>"

lemma demo_server_sels: "sv_lower demo_server = id" "sv_now demo_server = (\<lambda>n. now0)" "sv_deps demo_server = demo_deps"
  by (simp_all add: demo_server_def)

lemma by_alice_sels: "rc_cx by_alice = as_alice" "rc_auth by_alice = None" "rc_md by_alice = None"
  by (simp_all add: by_alice_def)

lemma three: "DecodeAll demo_server ''3'' = Inr 3"
  by (simp add: DecodeAll_def decode_all_def decode_bytes_def demo_server_sels symbol_index_def encodeTable_def
      upperTable_def upt_rec lengthTable_def prefixDecodeTable_def length_maxValue)

lemma not_an_id: "DecodeAll demo_server ''!'' = Inl (EOther ''varint: invalid length'')"
  by (simp add: DecodeAll_def decode_all_def decode_bytes_def demo_server_sels symbol_index_def encodeTable_def
      upperTable_def upt_rec lengthTable_def)

lemma demo_sure: "sure_commit (w_env demo)"
  by (simp add: sure_commit_def demo_def calm_world_def calm_env_def)

lemma demo_runner: "task 0 w = (Ok x, w') \<Longrightarrow> runner_Run demo_server task w = (Ok x, w')"
  using TaskRunner_Run_first [of task w x w'] by (simp add: runner_Run_def demo_server_def)

lemmas serve_run = serve_def intercept_def intercepted_def dispatch_def optional_id_def bind_run on_the_wire_def
  by_alice_sels demo_server_sels

lemma view_answered: "\<exists>w'. serve demo_server by_alice (IncrementViewCountRequest ''3'') demo = (Ok IncrementViewCountResponse, w')"
proof -
  obtain w' where "IncrementViewCountTask as_alice now0 3 demo = (Ok (), w')" using increment_demo by blast
  note run = demo_runner [where task = "\<lambda>n. IncrementViewCountTask as_alice now0 3", OF this]
  show ?thesis by (simp add: serve_run handleIncrementViewCount_def three run)
qed

lemma text_refused: "\<exists>e. serve demo_server by_alice (IncrementViewCountRequest ''!'') w = (Err e, w)"
  by (simp add: serve_run handleIncrementViewCount_def not_an_id)

text \<open>The view, then the text.\<close>

definition two_calls :: "call list" where
  "two_calls = [(demo_server, by_alice, IncrementViewCountRequest ''3''), (demo_server, by_alice, IncrementViewCountRequest ''!'')]"

lemma two_calls_served:
  "\<exists>e w'. serve_all two_calls demo = ([Ok IncrementViewCountResponse, Err e], w')"
proof -
  obtain w1 where w1: "serve demo_server by_alice (IncrementViewCountRequest ''3'') demo =
      (Ok IncrementViewCountResponse, w1)" using view_answered by blast
  obtain e where "serve demo_server by_alice (IncrementViewCountRequest ''!'') w1 = (Err e, w1)"
    using text_refused by blast
  then show ?thesis by (simp add: two_calls_def w1)
qed

lemma demo_one_each: "one_pic_each (w_db demo)"
proof -
  have "db_idents (w_db demo) = []" by (simp add: demo_def calm_world_def demo_db_def empty_db_def)
  then show ?thesis by (simp add: one_pic_each_def contents_of_def)
qed

lemma nine: "DecodeAll demo_server ''9'' = Inr 9"
  by (simp add: DecodeAll_def decode_all_def decode_bytes_def demo_server_sels symbol_index_def encodeTable_def
      upperTable_def upt_rec lengthTable_def prefixDecodeTable_def length_maxValue)

lemma look_answered:
  "\<exists>x w'. serve demo_server by_alice (LookupUserRequest ''9'') demo = (Ok (LookupUserResponse x), w')"
proof -
  obtain w' where "LookupUserTask as_alice now0 9 False demo = (Ok bob, w')" using lookup_demo by blast
  note run = demo_runner [where task = "\<lambda>n. LookupUserTask as_alice now0 9 False", OF this]
  have "version_of (u_modified bob) = Ok 1000000000000" using bob_user(4) by (simp add: user_version_def version_of_def)
  then show ?thesis by (simp add: serve_run handleLookupUser_def nine run apiUser_def)
qed

theorem reading_requests_change_visits_only_witness:
  "\<exists>x w'. serve_all [(demo_server, by_alice, LookupUserRequest ''9'')] demo = ([Ok (LookupUserResponse x)], w') \<and>
     visit_only (w_db demo) (w_db w')"
proof -
  obtain x w' where "serve demo_server by_alice (LookupUserRequest ''9'') demo = (Ok (LookupUserResponse x), w')"
    using look_answered by blast
  then have run: "serve_all [(demo_server, by_alice, LookupUserRequest ''9'')] demo = ([Ok (LookupUserResponse x)], w')"
    by simp
  have "list_all (\<lambda>(sv, rc, req). reads_only req) [(demo_server, by_alice, LookupUserRequest ''9'')]" by simp
  from reading_requests_change_visits_only [OF demo_fits demo_idle this run] run show ?thesis by blast
qed

theorem requests_keep_the_database_well_formed_witness:
  "\<exists>e w'. serve_all two_calls demo = ([Ok IncrementViewCountResponse, Err e], w') \<and> fits w' \<and> idle w'"
proof -
  obtain e w' where run: "serve_all two_calls demo = ([Ok IncrementViewCountResponse, Err e], w')"
    using two_calls_served by blast
  from requests_keep_the_database_well_formed [OF demo_fits demo_idle run] run show ?thesis by blast
qed



end
