(* ===== verification/Tokens.thy ===== *)
theory Tokens
  imports ServeRuns
begin

section \<open>From signing in to the next request\<close>

text \<open>
  The token of a client is the text that signing in returned. What the interceptor makes of it when
  it comes back with a request: only what was signed with the secret counts and only in its time, and what
  signing in hands out is read back as the same user and token.
\<close>

subsection \<open>What the decoder accepts\<close>

lemma res_bind_Err: "res_bind m f = Err e \<longleftrightarrow> m = Err e \<or> (\<exists>x. m = Ok x \<and> f x = Err e)"
  by (cases m) auto

lemma or_fail_Err: "or_fail mk r = Err e \<longleftrightarrow> (\<exists>x. r = Inl x \<and> e = mk (Some x))"
  by (cases r) auto

lemma require_Err: "require b e' = Err e \<longleftrightarrow> \<not> b \<and> e = e'"
  by (auto simp: require_def)

lemma pwt_decode_Err: "pwt_decode c data = Err e \<Longrightarrow> sts_code e = CodeUnauthenticated"
  unfolding pwt_decode_def
  by (auto simp: res_bind_Err or_fail_Err require_Err invalid_pwt_def expired_pwt_def Unauthenticated_def
      split: list.splits)

text \<open>C4. A token is accepted exactly if it is a header, a payload and a signature, the signature is
  the keyed hash of the other two, the header names this kind of token and the time is between the
  payload's bounds. Any other text is refused as unauthenticated, and no text makes the decoder panic.\<close>

theorem pwt_decode_accepts_signed_current_tokens:
  "case pwt_decode c data of
     Ok p \<Rightarrow> signed_token c data p \<and> pwt_current c p
   | Err e \<Rightarrow> sts_code e = CodeUnauthenticated \<and> (\<nexists>p. signed_token c data p \<and> pwt_current c p)
   | Panic m \<Rightarrow> False"
proof (cases "pwt_decode c data")
  case (Ok p)
  then show ?thesis using pwt_decode_Ok [of c data p] by simp
next
  case (Err e)
  then have "\<nexists>p. signed_token c data p \<and> pwt_current c p" using pwt_decode_Ok [of c data] by (metis res.distinct(1))
  then show ?thesis using Err pwt_decode_Err [OF Err] by simp
qed (simp add: pwt_decode_no_panic)

subsection \<open>What signing in hands out\<close>

lemma whole_second_Ok:
  assumes "whole_second msg t = Ok ts"
  shows "ptypes_Timestamp (Some ts) = Inr (t div 1000000000 * 1000000000)"
  using assms
  by (auto simp: whole_second_def or_fail_Ok ptypes_TimestampProto_def ptypes_Timestamp_def Let_def split: if_splits)

lemma whole_second_le: "(t :: int) div 1000000000 * 1000000000 \<le> t" "t < t div 1000000000 * 1000000000 + 1000000000"
  using div_mult_mod_eq [of t 1000000000] pos_mod_bound [of 1000000000 t] pos_mod_sign [of 1000000000 t] by linarith+

lemma recode_Ok: "(case m of Ok x \<Rightarrow> Ok x | Err s \<Rightarrow> Err (f s) | Panic p \<Rightarrow> Panic p) = Ok t \<longleftrightarrow> m = Ok t"
  by (cases m) auto

lemma refresh_tokens_Ok:
  assumes "refresh_tokens sv now u tid = Ok rr"
  obtains nb na sn where "ptypes_Timestamp (Some nb) = Inr ((now - 60000000000) div 1000000000 * 1000000000)"
    "ptypes_Timestamp (Some na) = Inr ((now + authPwtDuration) div 1000000000 * 1000000000)"
    "rr_auth_payload rr = \<lparr>pp_subject = EncodeVarint (u_id u), pp_not_before = Some nb, pp_not_after = Some na,
       pp_soft_not_after = Some sn, pp_issuer = [], pp_token_id = tid, pp_type = PwtPayload_AUTH\<rparr>"
    "pwt_encode (sv_coder sv) (rr_auth_payload rr) = Ok (rr_auth_token rr)"
proof -
  obtain nb na sn where t: "whole_second ''can't build notbefore'' (now - 60 * 1000000000) = Ok nb"
    "whole_second ''can't build auth notafter'' (now + authPwtDuration) = Ok na"
    "whole_second ''can't build auth notafter'' (now + authPwtSoftDuration) = Ok sn"
    using assms by (auto simp: refresh_tokens_def res_bind_Ok)
  let ?p = "\<lparr>pp_subject = EncodeVarint (u_id u), pp_not_before = Some nb, pp_not_after = Some na,
       pp_soft_not_after = Some sn, pp_issuer = [], pp_token_id = tid, pp_type = PwtPayload_AUTH\<rparr>"
  obtain c1 c2 missing where "CapIntersect (CapSetOf (u_caps u)) (CapSetOf [PIC_READ]) = (c1, c2, missing)"
    by (cases "CapIntersect (CapSetOf (u_caps u)) (CapSetOf [PIC_READ])")
  then have "rr_auth_payload rr = ?p \<and> pwt_encode (sv_coder sv) ?p = Ok (rr_auth_token rr)"
    using assms t by (auto simp: refresh_tokens_def Let_def res_bind_Ok recode_Ok split: prod.splits)
  then show thesis using that [of nb na sn] whole_second_Ok [OF t(1)] whole_second_Ok [OF t(2)] by simp
qed

text \<open>The same proto library, keyed hash and secret, at whatever time.\<close>

lemma signed_anytime: "signed_token (c\<lparr>co_now := a, co_later := b\<rparr>) = signed_token c"
  by (simp add: fun_eq_iff signed_token_def)

lemma subject_decodes:
  assumes "lowers_ascii (sv_lower sv)" "int64 i"
  shows "DecodeAll sv (EncodeVarint i) = Inr i"
proof -
  have "sint (word_of_int i :: 64 word) = i"
    using assms(2) by (simp add: sint_sbintrunc' signed_take_bit_int_eq_self int64_def)
  then show ?thesis using decode_append [OF assms(1), of "[]" "word_of_int i"]
    by (simp add: DecodeAll_def decode_all_def EncodeVarint_def)
qed

lemma issued_token_read_back:
  assumes "refresh_tokens sv now u tid = Ok rr" "proto_inverse (co_proto (sv_coder sv))"
    "lowers_ascii (sv_lower sv')" "int64 (u_id u)" "sv_coder sv' = sv_coder sv"
    "now \<le> sv_clock sv' 0" "sv_clock sv' 1 + 1000000000 \<le> now + authPwtDuration"
    "rc_md rc = Some md" "md authPwtHeaderKey = Some [rr_auth_token rr]"
  shows "intercepted sv' False rc = Ok (rc\<lparr>rc_auth := Some (rr_auth_token rr),
    rc_cx := CtxFromUserToken (rc_cx rc) (u_id u) tid\<rparr>)"
proof -
  obtain nb na sn where r: "ptypes_Timestamp (Some nb) = Inr ((now - 60000000000) div 1000000000 * 1000000000)"
    "ptypes_Timestamp (Some na) = Inr ((now + authPwtDuration) div 1000000000 * 1000000000)"
    "rr_auth_payload rr = \<lparr>pp_subject = EncodeVarint (u_id u), pp_not_before = Some nb, pp_not_after = Some na,
       pp_soft_not_after = Some sn, pp_issuer = [], pp_token_id = tid, pp_type = PwtPayload_AUTH\<rparr>"
    "pwt_encode (sv_coder sv) (rr_auth_payload rr) = Ok (rr_auth_token rr)"
    by (rule refresh_tokens_Ok [OF assms(1)])
  have "signed_token (coder_at sv' 0) (rr_auth_token rr) (rr_auth_payload rr)"
    using pwt_encode_signs [OF assms(2) r(4)] by (simp add: coder_at_def assms(5) signed_anytime)
  moreover have "pwt_current (coder_at sv' 0) (rr_auth_payload rr)"
    using whole_second_le [of "now - 60000000000"] whole_second_le [of "now + authPwtDuration"] assms(6,7)
    by (simp add: pwt_current_def r(1-3) coder_at_def)
  ultimately have "pwt_decode (coder_at sv' 0) (rr_auth_token rr) = Ok (rr_auth_payload rr)"
    by (simp add: pwt_decode_Ok)
  then show ?thesis
    by (simp add: intercepted_def assms(8,9) authTokenFromMD_def Let_def CtxFromAuthToken_def fillUserIdAndTokenFromCtx_def
        AuthTokenFromCtx_def decodeAuthToken_def r(3) require_def addUserTokenToCtx_def extractUserToken_def
        subject_decodes [OF assms(3,4)])
qed

subsection \<open>The whole way\<close>

lemma runner_Ok:
  assumes "runner_Run sv task w = (Ok x, w')" "\<And>n. keeps keeps_whole (task n)" "fits w" "idle w"
  obtains n w1 where "task n w1 = (Ok x, w')" "fits w1" "idle w1" "w_env w1 = w_env w"
proof -
  obtain es w1 where "run_outcome (re_adapter (sv_runner sv)) task 5 es w w1 (Ok x) w'"
    by (rule runner_Run_outcome [OF assms(1)])
  from run_outcome_runs [OF this] obtain n where runs: "failed_runs task 0 w es w1" "task n w1 = (Ok x, w')" by blast
  from whole.keeps_failed_runs [OF runs(1) assms(2)] show thesis
    using that [OF runs(2)] assms(3,4) by (auto simp: keeps_whole_def)
qed

lemma signed_in_user:
  assumes "AuthUserTask cx now compare idn secret i j w = (Ok (u, tid), w')" "fits w" "idle w"
  shows "u \<in> set (msgs (db_users (w_db w'))) \<and> tid \<in> ut_id ` set (u_tokens u)"
proof -
  obtain d u0 all where a: "u0 \<in> set (msgs (db_users d))" "tid \<in> ut_id ` set (u_tokens u)"
    "u = u0\<lparr>u_next_token := u_next_token u, u_tokens := u_tokens u, u_last_seen := lenient_ts now,
      u_modified := lenient_ts now\<rparr>" "user_changed d (w_db w') u"
    using AuthUserTask_effect [OF assms(2,3,1)] by blast
  have "u_id u = u_id u0" using arg_cong [OF a(3), of u_id] by simp
  then have "u \<in> (\<lambda>q. if u_id q = u_id u then u else q) ` set (msgs (db_users d))" using a(1) by force
  then show ?thesis using a(2,4) by (simp add: user_changed_def)
qed

lemma wire_error_Ok: "wire_error r = Ok x \<longleftrightarrow> r = Ok x"
  by (cases r) auto

lemma on_the_wire_Ok: "on_the_wire m w = (Ok x, w') \<longleftrightarrow> m w = (Ok x, w')"
  by (cases "m w") (simp add: on_the_wire_def wire_error_Ok)

lemma get_token_answered:
  assumes "serve sv rc (GetRefreshTokenRequest idn secret prev) w = (Ok (GetRefreshTokenResponse rr), w')"
  obtains i j u tid w1 where "previous_token sv prev = Ok (i, j)"
    "runner_Run sv (\<lambda>n. AuthUserTask (rc_cx rc) (sv_now sv n) (sv_compare sv) idn secret i j) w = (Ok (u, tid), w')"
    "refresh_tokens sv (sv_clock sv 4) u tid = Ok rr"
proof -
  have "\<exists>rc1. intercepted sv True rc = Ok rc1 \<and> rc_cx rc1 = rc_cx rc"
    by (simp add: intercepted_def Let_def CtxFromAuthToken_def split: option.split)
  then obtain rc1 where rc1: "intercepted sv True rc = Ok rc1" "rc_cx rc1 = rc_cx rc" by blast
  have "dispatch sv (GetRefreshTokenRequest idn secret prev) rc1 w = (Ok (GetRefreshTokenResponse rr), w')"
    using assms by (simp add: serve_def intercept_def rc1 on_the_wire_Ok bind_def run_simps)
  then show thesis using that
    by (auto simp: dispatch_def handleGetRefreshToken_def rc1(2) run_simps elim!: bind_OkE split: prod.splits)
qed

text \<open>C3. Who signs in gets a token that works: sent back with a request, from the moment it was made
  until a second before its end, at a server with the same secret, it makes the interceptor run the request as
  the user who signed in, with the id of a token that this user has in the database.\<close>

theorem issued_tokens_authenticate:
  assumes "fits w" "idle w" "proto_inverse (co_proto (sv_coder sv))" "lowers_ascii (sv_lower sv')"
    "serve sv rc (GetRefreshTokenRequest idn secret prev) w = (Ok (GetRefreshTokenResponse rr), w')"
    "list_all (\<lambda>u. int64 (u_id u)) (msgs (db_users (w_db w')))" "sv_coder sv' = sv_coder sv"
    "sv_clock sv 4 \<le> sv_clock sv' 0" "sv_clock sv' 1 + 1000000000 \<le> sv_clock sv 4 + authPwtDuration"
    "rc_md rc' = Some md" "md authPwtHeaderKey = Some [rr_auth_token rr]"
  shows "\<exists>i j n w1 u tid. previous_token sv prev = Ok (i, j) \<and>
    AuthUserTask (rc_cx rc) (sv_now sv n) (sv_compare sv) idn secret i j w1 = (Ok (u, tid), w') \<and> fits w1 \<and> idle w1 \<and>
    u \<in> set (msgs (db_users (w_db w'))) \<and> tid \<in> ut_id ` set (u_tokens u) \<and>
    intercepted sv' False rc' = Ok (rc'\<lparr>rc_auth := Some (rr_auth_token rr),
      rc_cx := CtxFromUserToken (rc_cx rc') (u_id u) tid\<rparr>)"
proof -
  obtain i j u tid where a: "previous_token sv prev = Ok (i, j)"
    "runner_Run sv (\<lambda>n. AuthUserTask (rc_cx rc) (sv_now sv n) (sv_compare sv) idn secret i j) w = (Ok (u, tid), w')"
    "refresh_tokens sv (sv_clock sv 4) u tid = Ok rr"
    by (rule get_token_answered [OF assms(5)])
  obtain n w1 where run: "AuthUserTask (rc_cx rc) (sv_now sv n) (sv_compare sv) idn secret i j w1 = (Ok (u, tid), w')"
    "fits w1" "idle w1"
    by (rule runner_Ok [OF a(2) _ assms(1,2)]) (rule whole_tasks)
  note user = signed_in_user [OF run]
  then have "int64 (u_id u)" using assms(6) by (auto simp: list_all_iff)
  from issued_token_read_back [OF a(3) assms(3,4) this assms(7-11)] a(1) run user show ?thesis by blast
qed

section \<open>Signing in at the small database\<close>

text \<open>
  A proto library for the three messages of this run, a server with it, and a sign-in with the
  password whose token comes back with the next request.
\<close>

lemma signing_in_keeps_ids:
  assumes "AuthUserTask cx now compare idn secret i j w = (Ok (u, tid), w')" "fits w" "idle w"
  shows "map u_id (msgs (db_users (w_db w'))) = map u_id (msgs (db_users (w_db w)))"
proof -
  obtain d where d: "visit_only (w_db w) d" "user_changed d (w_db w') u"
    using AuthUserTask_effect [OF assms(2,3,1)] by blast
  have id: "u_id \<circ> erase_seen = u_id" by (simp add: fun_eq_iff erase_seen_def)
  have "map u_id xs = map u_id ys" if "map erase_seen xs = map erase_seen ys" for xs ys
    using arg_cong [OF that, of "map u_id"] unfolding map_map id .
  moreover have "map erase_seen (msgs (db_users d)) = map erase_seen (msgs (db_users (w_db w)))"
    using d(1) unfolding visit_only_def by (rule conjunct2)
  ultimately have "map u_id (msgs (db_users d)) = map u_id (msgs (db_users (w_db w)))" .
  moreover have "msgs (db_users (w_db w')) = map (\<lambda>q. if u_id q = u_id u then u else q) (msgs (db_users d))"
    using d(2) unfolding user_changed_def by blast
  then have "map u_id (msgs (db_users (w_db w'))) = map u_id (msgs (db_users d))" by simp
  ultimately show ?thesis by simp
qed

definition alice_payload :: "tspb option \<Rightarrow> int \<Rightarrow> int \<Rightarrow> pwt_payload" where
  "alice_payload soft tid ty = \<lparr>pp_subject = EncodeVarint 7, pp_not_before = Some \<lparr>ts_seconds = 1940, ts_nanos = 0\<rparr>,
     pp_not_after = Some \<lparr>ts_seconds = 19712000, ts_nanos = 0\<rparr>, pp_soft_not_after = soft, pp_issuer = [],
     pp_token_id = tid, pp_type = ty\<rparr>"

definition auth_message :: pwt_payload where
  "auth_message = alice_payload (Some \<lparr>ts_seconds = 88400, ts_nanos = 0\<rparr>) 2 PwtPayload_AUTH"

definition pix_message :: pwt_payload where
  "pix_message = alice_payload None 0 PwtPayload_PIX"

definition small_proto :: protolib where
  "small_proto = \<lparr>
     pl_marshal_header = \<lambda>h. if h = \<lparr>ph_algorithm = PwtHeader_HS512_256, ph_version = 0\<rparr> then Inr ''h'' else Inl (EOther ''h''),
     pl_unmarshal_header = \<lambda>s. if s = ''h'' then Inr \<lparr>ph_algorithm = PwtHeader_HS512_256, ph_version = 0\<rparr> else Inl (EOther ''h''),
     pl_marshal_payload = \<lambda>p. if p = auth_message then Inr ''a'' else if p = pix_message then Inr ''x'' else Inl (EOther ''p''),
     pl_unmarshal_payload = \<lambda>s. if s = ''a'' then Inr auth_message else if s = ''x'' then Inr pix_message else Inl (EOther ''p'')\<rparr>"

lemma small_proto_inverse: "proto_inverse small_proto"
  by (simp add: proto_inverse_def small_proto_def)

definition token_server :: server where
  "token_server = demo_server\<lparr>sv_coder := \<lparr>co_proto = small_proto, co_hmac = \<lambda>k s. k @ s, co_secret = ''k'', co_now = now0,
     co_later = now0\<rparr>, sv_compare := same_text, sv_lower := map lower_ascii\<rparr>"

lemma token_server_sels: "sv_coder token_server = \<lparr>co_proto = small_proto, co_hmac = \<lambda>k s. k @ s, co_secret = ''k'',
    co_now = now0, co_later = now0\<rparr>" "sv_compare token_server = same_text" "sv_now token_server = (\<lambda>n. now0)"
  "sv_clock token_server = (\<lambda>k. now0)" "sv_lower token_server = map lower_ascii"
  by (simp_all add: token_server_def demo_server_def)

lemma token_times:
  "whole_second msg (now0 - 60 * 1000000000) = Ok \<lparr>ts_seconds = 1940, ts_nanos = 0\<rparr>"
  "whole_second msg (now0 + authPwtDuration) = Ok \<lparr>ts_seconds = 19712000, ts_nanos = 0\<rparr>"
  "whole_second msg (now0 + authPwtSoftDuration) = Ok \<lparr>ts_seconds = 88400, ts_nanos = 0\<rparr>"
  by (simp_all add: whole_second_def ptypes_TimestampProto_def valid_ts_def now0_def authPwtDuration_def
      authPwtSoftDuration_def)

lemma small_encode: "\<exists>t. pwt_encode (sv_coder token_server) auth_message = Ok t"
  "\<exists>t. pwt_encode (sv_coder token_server) pix_message = Ok t"
  by (simp_all add: pwt_encode_def token_server_sels small_proto_def Let_def)

lemma alice_tokens:
  assumes "u_id u = 7"
  shows "\<exists>rr. refresh_tokens token_server now0 u 2 = Ok rr"
proof -
  obtain c1 c2 missing where caps: "CapIntersect (CapSetOf (u_caps u)) (CapSetOf [PIC_READ]) = (c1, c2, missing)"
    by (cases "CapIntersect (CapSetOf (u_caps u)) (CapSetOf [PIC_READ])")
  obtain a x where e: "pwt_encode (sv_coder token_server) auth_message = Ok a"
    "pwt_encode (sv_coder token_server) pix_message = Ok x" using small_encode by blast
  show ?thesis unfolding refresh_tokens_def token_times Let_def res_bind.simps assms caps prod.case
    unfolding alice_payload_def [symmetric] auth_message_def [symmetric] pix_message_def [symmetric] e res.case
    by simp
qed

lemma sign_in_answered:
  "\<exists>rr w' u. serve token_server by_alice (GetRefreshTokenRequest ''a'' ''hash'' []) demo =
     (Ok (GetRefreshTokenResponse rr), w') \<and> AuthUserTask as_alice now0 same_text ''a'' ''hash'' 0 0 demo = (Ok (u, 2), w')"
proof -
  obtain u w' where run: "AuthUserTask as_alice now0 same_text ''a'' ''hash'' 0 0 demo = (Ok (u, 2), w')" "u_id u = 7"
    using auth_demo_exact by blast
  have ran: "runner_Run token_server (\<lambda>n. AuthUserTask as_alice now0 same_text ''a'' ''hash'' 0 0) demo = (Ok (u, 2), w')"
    using TaskRunner_Run_first [of "\<lambda>n. AuthUserTask as_alice now0 same_text ''a'' ''hash'' 0 0", OF run(1)]
    by (simp add: runner_Run_def token_server_def demo_server_def)
  obtain rr where "refresh_tokens token_server now0 u 2 = Ok rr" using alice_tokens [OF run(2)] by blast
  then have "serve token_server by_alice (GetRefreshTokenRequest ''a'' ''hash'' []) demo =
      (Ok (GetRefreshTokenResponse rr), w')"
    by (simp add: serve_def intercept_def intercepted_def dispatch_def handleGetRefreshToken_def previous_token_def
        bind_run on_the_wire_def by_alice_sels token_server_sels ran)
  then show ?thesis using run(1) by blast
qed

text \<open>The next request, with the token.\<close>

definition with_token :: "string \<Rightarrow> rpc" where
  "with_token t = \<lparr>rc_cx = as_nobody, rc_auth = None, rc_md = Some [authPwtHeaderKey \<mapsto> [t]]\<rparr>"

theorem issued_tokens_authenticate_witness:
  "\<exists>rr w' u tid. serve token_server by_alice (GetRefreshTokenRequest ''a'' ''hash'' []) demo =
     (Ok (GetRefreshTokenResponse rr), w') \<and> u \<in> set (msgs (db_users (w_db w'))) \<and> tid \<in> ut_id ` set (u_tokens u) \<and>
     intercepted token_server False (with_token (rr_auth_token rr)) =
       Ok ((with_token (rr_auth_token rr))\<lparr>rc_auth := Some (rr_auth_token rr),
         rc_cx := CtxFromUserToken as_nobody (u_id u) tid\<rparr>)"
proof -
  obtain rr w' u where run: "serve token_server by_alice (GetRefreshTokenRequest ''a'' ''hash'' []) demo =
      (Ok (GetRefreshTokenResponse rr), w')" "AuthUserTask as_alice now0 same_text ''a'' ''hash'' 0 0 demo = (Ok (u, 2), w')"
    using sign_in_answered by blast
  have "u_id ` set (msgs (db_users (w_db w'))) = u_id ` set (msgs (db_users (w_db demo)))"
    using arg_cong [OF signing_in_keeps_ids [OF run(2) demo_fits demo_idle], of set] by simp
  also have "\<dots> = {7, 9}" by (simp add: demo_def calm_world_def demo_db_def row_def alice_def bob_def)
  finally have known: "u_id ` set (msgs (db_users (w_db w'))) = {7, 9}" .
  have "int64 (u_id x)" if "x \<in> set (msgs (db_users (w_db w')))" for x
  proof -
    have "u_id x \<in> {7, 9}" using that unfolding known [symmetric] by (rule imageI)
    then show ?thesis by (auto simp: int64_def)
  qed
  then have ids: "list_all (\<lambda>u. int64 (u_id u)) (msgs (db_users (w_db w')))" by (simp add: list_all_iff)
  have inv: "proto_inverse (co_proto (sv_coder token_server))" by (simp add: token_server_sels small_proto_inverse)
  have low: "lowers_ascii (sv_lower token_server)" by (simp add: token_server_sels lowers_ascii_map)
  have md: "rc_md (with_token (rr_auth_token rr)) = Some [authPwtHeaderKey \<mapsto> [rr_auth_token rr]]"
    by (simp add: with_token_def)
  have cx: "rc_cx (with_token t) = as_nobody" for t by (simp add: with_token_def)
  have clock: "sv_clock token_server 4 \<le> sv_clock token_server 0"
    "sv_clock token_server 1 + 1000000000 \<le> sv_clock token_server 4 + authPwtDuration"
    by (simp_all add: token_server_sels authPwtDuration_def)
  have key: "[authPwtHeaderKey \<mapsto> [rr_auth_token rr]] authPwtHeaderKey = Some [rr_auth_token rr]" by simp
  show ?thesis
    using issued_tokens_authenticate [OF demo_fits demo_idle inv low run(1) ids refl clock md key] run(1)
    unfolding cx by (elim exE conjE) (intro exI conjI; assumption)
qed

end
