(* ===== verification/ReadFacts.thy ===== *)
theory ReadFacts
  imports FileHandlers ServeRuns
begin

section \<open>A file read part by part is the file\<close>

text \<open>
  A client asks for one part after the other, each at the offset where the last one ended. The parts put
  together are the file as far as they go, and the end is announced with the first part that is cut short.
\<close>

subsection \<open>Who may read, again\<close>

interpretation still: frame "\<lambda>w w'. w' = w"
  by unfold_locales auto

lemma authReadPicRequest_looks:
  assumes "authReadPicRequest sv k rc w = (r, w')"
  shows "w' = w"
proof -
  have "keeps (\<lambda>w w'. w' = w) (authReadPicRequest sv k rc)"
    unfolding authReadPicRequest_def anonymous_caps_def GetConfiguration_def
    by (auto split: option.splits list.splits res.splits prod.splits intro!: still.keeps_intros)
  from keepsD [OF this assms] show ?thesis .
qed

subsection \<open>One part after the other\<close>

text \<open>The requests from the \<open>i\<close>-th part on, for \<open>n\<close> parts of \<open>len\<close> bytes. The server allows a
  mebibyte per part.\<close>

definition part :: "string \<Rightarrow> int \<Rightarrow> nat \<Rightarrow> nat \<Rightarrow> read_request" where
  "part ident' fmt len i = \<lparr>rq_pic_file_id = ident', rq_format = fmt, rq_offset = int (i * len), rq_limit = int len\<rparr>"

definition parts :: "string \<Rightarrow> int \<Rightarrow> nat \<Rightarrow> nat \<Rightarrow> nat \<Rightarrow> (gerr + read_request \<times> gerr option) list" where
  "parts ident' fmt len i n = map (\<lambda>j. Inr (part ident' fmt len j, None)) [i..<i + n]"

definition answer :: "string \<Rightarrow> nat \<Rightarrow> nat \<Rightarrow> read_response" where
  "answer c len i = \<lparr>rs_data = take len (drop (i * len) c), rs_eof = length c < Suc i * len\<rparr>"

lemma parts_Suc: "parts ident' fmt len i (Suc n) = Inr (part ident' fmt len i, None) # parts ident' fmt len (Suc i) n"
  unfolding parts_def by (subst upt_conv_Cons) simp_all

lemma read_part_cases:
  assumes "read_part c (part ident' fmt len i) w = (r, w')" "0 < len" "len \<le> 1048576"
  shows "r = Ok (answer c len i) \<or> (\<exists>e. r = Err e)"
proof -
  have "length (take len (drop (i * len) c)) < len \<longleftrightarrow> length c < Suc i * len"
    using assms(2) by (simp add: min_def) linarith
  then show ?thesis using assms
    by (auto simp: read_part_def part_length_def part_def ReadAt_def answer_def Let_def bind_def run_simps file_call_def
        nat_mult_distrib split: option.splits if_splits)
qed

lemma read_loop_opened:
  "opened sv None req w = (Ok c, w1) \<Longrightarrow>
    read_loop sv None (Inr (req, send) # rest) w = read_loop sv (Some c) (Inr (req, send) # rest) w1"
  by (simp add: bind_def opened_def [where f = "Some c"] run_simps split: option.split)

lemma read_loop_reads:
  assumes "read_loop sv (Some c) (parts ident' fmt len i n) w = (r, w')" "0 < len" "len \<le> 1048576"
  shows "\<exists>m s. r = Ok (map (answer c len) [i..<i + m], s) \<and> m \<le> n \<and> (s = None \<longrightarrow> m = n)"
  using assms(1)
proof (induction n arbitrary: i w r w')
  case 0
  then have "r = Ok ([], None)" by (simp add: parts_def)
  then show ?case by simp
next
  case (Suc n)
  obtain r1 w1 where p: "read_part c (part ident' fmt len i) w = (r1, w1)" by fastforce
  show ?case
  proof (cases "r1 = Ok (answer c len i)")
    case True
    obtain r2 w2 where l: "read_loop sv (Some c) (parts ident' fmt len (Suc i) n) w1 = (r2, w2)" by fastforce
    obtain m s where m: "r2 = Ok (map (answer c len) [Suc i..<Suc i + m], s)" "m \<le> n" "s = None \<longrightarrow> m = n"
      using Suc.IH [OF l] by blast
    have "[i..<i + Suc m] = i # [Suc i..<Suc i + m]" by (subst upt_conv_Cons) simp_all
    moreover have "r = Ok (answer c len i # map (answer c len) [Suc i..<Suc i + m], s)"
      using Suc.prems by (simp add: parts_Suc opened_def bind_def run_simps p True l m(1) del: upt_Suc)
    ultimately have "r = Ok (map (answer c len) [i..<i + Suc m], s)" by (simp only: list.map)
    then show ?thesis using m(2,3) by (intro exI [of _ "Suc m"] exI [of _ s]) simp
  next
    case False
    then obtain e where "r1 = Err e" using read_part_cases [OF p assms(2,3)] by blast
    then have "r = Ok ([], Some e)" using Suc.prems by (simp add: parts_Suc opened_def bind_def run_simps p)
    then show ?thesis by (intro exI [of _ 0] exI [of _ "Some e"]) simp
  qed
qed

lemma answers_joined: "concat (map (\<lambda>i. rs_data (answer c len i)) [0..<m]) = take (m * len) c"
proof (induction m)
  case (Suc m)
  have "take (Suc m * len) c = take (m * len) c @ take len (drop (m * len) c)"
    by (metis add.commute mult_Suc take_add)
  with Suc show ?case by (simp add: answer_def)
qed simp

lemma open_file_content:
  assumes "open_file path w = (Ok c, w')"
  shows "c = content path w"
  using assms by (auto simp: open_file_def file_call_def bind_def run_simps content_def split: option.splits if_splits)

lemma opened_no_panic:
  assumes "pic_file_path sv pf mime = Ok path" "decode_file_id sv ident' = Ok pf" "apiFormatToSchemaMime fmt = Ok mime"
    "opened sv None (part ident' fmt len i) w = (r, w')"
  shows "r = Ok (content path w) \<or> (\<exists>e. r = Err e)"
proof -
  have run: "open_file path w = (r, w')" using assms(4) by (simp add: opened_def part_def bind_def run_simps assms(1-3))
  then have "r \<noteq> Panic p" for p
    by (auto simp: open_file_def file_call_def bind_def run_simps split: option.splits if_splits)
  then show ?thesis using open_file_content run by (cases r) auto
qed

text \<open>C40. Reading a file in parts of any length up to a mebibyte gives the file: whatever number of the
  requests is answered, the answers put together are the beginning of the file of that length, the end of
  the file is announced with exactly the parts that reach beyond it, and without an error all
  requests are answered.\<close>

theorem handleReadPicFile_reassembles:
  assumes "handleReadPicFile sv rc (parts ident' fmt len 0 n) w = (r, w')" "0 < len" "len \<le> 1048576"
    "decode_file_id sv ident' = Ok pf" "apiFormatToSchemaMime fmt = Ok mime" "pic_file_path sv pf mime = Ok path"
    "\<nexists>p. r = Panic p"
  shows "\<exists>resps s. r = Ok (resps, s) \<and> length resps \<le> n \<and> (s = None \<longrightarrow> length resps = n) \<and>
    concat (map rs_data resps) = take (length resps * len) (content path w) \<and>
    map rs_eof resps = map (\<lambda>i. length (content path w) < Suc i * len) [0..<length resps]"
proof -
  let ?c = "content path w"
  obtain ra wa where a: "authReadPicRequest sv 0 rc w = (ra, wa)" by fastforce
  have wa: "wa = w" by (rule authReadPicRequest_looks [OF a])
  have "\<exists>m s. r = Ok (map (answer ?c len) [0..<m], s) \<and> m \<le> n \<and> (s = None \<longrightarrow> m = n)"
  proof (cases ra)
    case (Ok x)
    have loop: "read_loop sv None (parts ident' fmt len 0 n) w = (r, w')"
      using assms(1) a Ok wa by (simp add: handleReadPicFile_def)
    show ?thesis
    proof (cases n)
      case 0
      then have "r = Ok ([], None)" using loop by (simp add: parts_def)
      then show ?thesis using 0 by simp
    next
      case (Suc k)
      obtain r1 w1 where o1: "opened sv None (part ident' fmt len 0) w = (r1, w1)" by fastforce
      show ?thesis
      proof (cases "r1 = Ok ?c")
        case True
        have "read_loop sv (Some ?c) (parts ident' fmt len 0 n) w1 = (r, w')"
          using loop read_loop_opened [OF o1 [unfolded True]] by (simp only: Suc parts_Suc)
        from read_loop_reads [OF this assms(2,3)] show ?thesis by simp
      next
        case False
        then obtain e where "r1 = Err e" using opened_no_panic [OF assms(6,4,5) o1] by blast
        then have "r = Ok ([], Some e)" using loop by (simp add: Suc parts_Suc bind_def o1)
        then show ?thesis by (intro exI [of _ 0] exI [of _ "Some e"]) simp
      qed
    qed
  next
    case (Err e)
    then have "r = Ok ([], Some e)" using assms(1) a by (simp add: handleReadPicFile_def)
    then show ?thesis by (intro exI [of _ 0] exI [of _ "Some e"]) simp
  qed (use assms(1,7) a in \<open>auto simp: handleReadPicFile_def\<close>)
  then obtain m s where m: "r = Ok (map (answer ?c len) [0..<m], s)" "m \<le> n" "s = None \<longrightarrow> m = n" by blast
  have "concat (map rs_data (map (answer ?c len) [0..<m])) = take (m * len) ?c"
    using answers_joined [of ?c len m] by (simp add: comp_def)
  moreover have "map rs_eof (map (answer ?c len) [0..<m]) = map (\<lambda>i. length ?c < Suc i * len) [0..<m]"
    by (simp add: comp_def answer_def)
  ultimately show ?thesis using m
    by (intro exI [of _ "map (answer ?c len) [0..<m]"] exI [of _ s]) (simp only: length_map length_upt diff_zero simp_thms)
qed

section \<open>Reading the picture of the small database\<close>

definition by_anybody :: rpc where
  "by_anybody = \<lparr>rc_cx = as_nobody, rc_auth = None, rc_md = Some Map.empty\<rparr>"

lemma nothing_missing:
  assumes "set ys \<subseteq> set xs" "CapIntersect (CapSetOf xs) (CapSetOf ys) = (b, l, missing)"
  shows "cs_size missing = 0"
proof -
  have "VerifyCapSubset (CapSetOf xs) (CapSetOf ys) = None"
    using assms(1) by (auto simp: VerifyCapSubset_None [OF CapSetOf_inv CapSetOf_inv])
  then show ?thesis by (simp add: VerifyCapSubset_def assms(2) split: if_splits)
qed

lemma anybody_may_read: "authReadPicRequest demo_server 0 by_anybody w = (Ok (), w)"
proof -
  obtain caps where caps: "c_anonymous defaultConfiguration = Some caps" "PIC_READ \<in> set caps"
    by (simp add: defaultConfiguration_def)
  obtain b l missing where ci: "CapIntersect (CapSetOf caps) (CapSetOf [PIC_READ]) = (b, l, missing)"
    by (cases "CapIntersect (CapSetOf caps) (CapSetOf [PIC_READ])")
  have "cs_size missing = 0" using nothing_missing [OF _ ci] caps(2) by simp
  then show ?thesis
    by (simp add: authReadPicRequest_def by_anybody_def as_nobody_def GetConfiguration_def anonymous_caps_def caps ci
        bind_run check_def)
qed

lemma cat_file_id: "decode_file_id demo_server ''3'' = Ok (3, None)"
  by (simp add: decode_file_id_def Decode_def decode_bytes_def demo_server_sels symbol_index_def encodeTable_def
      upperTable_def upt_rec lengthTable_def prefixDecodeTable_def length_maxValue)

lemma jpeg: "apiFormatToSchemaMime 1 = Ok 1"
  by (simp add: apiFormatToSchemaMime_def PicFile_Format_name_def Pic_File_Mime_value_def)

lemma cat_file_path: "pic_file_path demo_server (3, None) 1 = Ok ''/p/3.jpg''"
  by (simp add: pic_file_path_def demo_server_sels demo_deps_sels cat_path)

theorem handleReadPicFile_reassembles_witness:
  "\<exists>resps w'. handleReadPicFile demo_server by_anybody (parts ''3'' 1 2 0 2) demo = (Ok (resps, None), w') \<and>
     concat (map rs_data resps) = ''cat'' \<and> map rs_eof resps = [False, True]"
proof -
  obtain r w' where run: "handleReadPicFile demo_server by_anybody (parts ''3'' 1 2 0 2) demo = (r, w')" by fastforce
  have c: "content ''/p/3.jpg'' demo = ''cat''" by (simp add: content_def demo_def calm_world_def)
  have "\<exists>resps. r = Ok (resps, None)"
    using run
    by (auto simp: handleReadPicFile_def anybody_may_read numeral_2_eq_2 parts_def part_def opened_def jpeg cat_file_id
        cat_file_path open_file_def file_call_def bind_run read_part_def part_length_def ReadAt_def demo_def calm_world_def
        calm_env_def has_file_def)
  then obtain resps where r: "r = Ok (resps, None)" by blast
  from handleReadPicFile_reassembles [OF run _ _ cat_file_id jpeg cat_file_path, unfolded r c]
  have "length resps = 2" "concat (map rs_data resps) = take (length resps * 2) ''cat''"
    "map rs_eof resps = map (\<lambda>i. length ''cat'' < Suc i * 2) [0..<length resps]" by auto
  then show ?thesis using run r by (auto simp: upt_rec)
qed

end
