(* ===== verification/WebPaths.thy ===== *)
theory WebPaths
  imports ApiConvert Upload "HOL-Library.List_Lexorder" "HOL-Library.Char_ord"
begin

section \<open>Addresses and parameters of the front end (fe/handlers/paths.go, params.go)\<close>

text \<open>
  The front end is a site below a root address. A link is an address below the root, with a path, a query
  and a fragment; scheme and host are those of the root. Paths are kept unescaped. The functions of
  net/url that build links are written out: resolving a reference, encoding and parsing a query. An
  iteration over a Go map, whose order is not determined, runs over the list that the map is here.
\<close>

record link =
  ln_base :: string
  ln_path :: string
  ln_query :: string
  ln_frag :: string

type_synonym url_values = "(string \<times> string list) list"

subsection \<open>Package net/url\<close>

fun resolve_elems :: "string list \<Rightarrow> string list \<Rightarrow> string list" where
  "resolve_elems dst [] = dst"
| "resolve_elems dst (e # es) =
     (if e = ''.'' then resolve_elems dst es
      else if e = ''..'' then resolve_elems (butlast dst) es
      else resolve_elems (dst @ [e]) es)"

definition up_to_slash :: "string \<Rightarrow> string" where
  "up_to_slash s = rev (dropWhile (\<lambda>c. c \<noteq> CHR ''/'') (rev s))"

definition resolvePath :: "string \<Rightarrow> string \<Rightarrow> string" where
  "resolvePath base ref =
     (let full = (if ref = [] then base
                  else if hd ref \<noteq> CHR ''/'' then up_to_slash base @ ref
                  else ref)
      in if full = [] then []
         else let src = split_slash full;
                  dst = resolve_elems [] src;
                  dst1 = (if last src = ''.'' \<or> last src = ''..'' then dst @ [[]] else dst);
                  joined = join_slash dst1
              in CHR ''/'' # (case joined of c # cs \<Rightarrow> if c = CHR ''/'' then cs else joined | [] \<Rightarrow> []))"

definition ResolveReference :: "link \<Rightarrow> link \<Rightarrow> link" where
  "ResolveReference u ref =
     (let same = (ln_path ref = [] \<and> ln_query ref = [])
      in \<lparr>ln_base = ln_base u, ln_path = resolvePath (ln_path u) (ln_path ref),
           ln_query = (if same then ln_query u else ln_query ref),
           ln_frag = (if same \<and> ln_frag ref = [] then ln_frag u else ln_frag ref)\<rparr>)"

definition hex_digit :: "nat \<Rightarrow> char" where
  "hex_digit n = ''0123456789ABCDEF'' ! n"

definition unreserved :: "char \<Rightarrow> bool" where
  "unreserved c \<longleftrightarrow> (let n = of_char c :: nat in
     48 \<le> n \<and> n \<le> 57 \<or> 65 \<le> n \<and> n \<le> 90 \<or> 97 \<le> n \<and> n \<le> 122) \<or> c \<in> set ''-_.~''"

definition QueryEscape :: "string \<Rightarrow> string" where
  "QueryEscape s = concat (map (\<lambda>c. if unreserved c then [c] else if c = CHR '' '' then ''+''
     else [CHR ''%'', hex_digit (of_char c div 16), hex_digit (of_char c mod 16)]) s)"

definition unhex :: "char \<Rightarrow> nat option" where
  "unhex c = (let n = of_char c :: nat in
     if 48 \<le> n \<and> n \<le> 57 then Some (n - 48) else if 97 \<le> n \<and> n \<le> 102 then Some (n - 87)
     else if 65 \<le> n \<and> n \<le> 70 then Some (n - 55) else None)"

fun QueryUnescape :: "string \<Rightarrow> string option" where
  "QueryUnescape [] = Some []"
| "QueryUnescape (c # s) =
     (if c = CHR ''%'' then
        (case s of
           a # b # r \<Rightarrow>
             (case (unhex a, unhex b) of
                (Some x, Some y) \<Rightarrow> map_option (\<lambda>t. char_of (16 * x + y) # t) (QueryUnescape r)
              | _ \<Rightarrow> None)
         | _ \<Rightarrow> None)
      else map_option (\<lambda>t. (if c = CHR ''+'' then CHR '' '' else c) # t) (QueryUnescape s))"

fun join_with :: "string \<Rightarrow> string list \<Rightarrow> string" where
  "join_with sep [] = []"
| "join_with sep [s] = s"
| "join_with sep (s # t # ss) = s @ sep @ join_with sep (t # ss)"

definition Values_Encode :: "url_values \<Rightarrow> string" where
  "Values_Encode vs = join_with ''&'' (concat (map (\<lambda>(k, xs). map (\<lambda>x. QueryEscape k @ ''='' @ QueryEscape x) xs)
     (sort_key fst vs)))"

fun Values_Add :: "string \<Rightarrow> string \<Rightarrow> url_values \<Rightarrow> url_values" where
  "Values_Add k x [] = [(k, [x])]"
| "Values_Add k x ((j, xs) # vs) = (if j = k then (j, xs @ [x]) # vs else (j, xs) # Values_Add k x vs)"

definition Values_Set :: "string \<Rightarrow> string \<Rightarrow> url_values \<Rightarrow> url_values" where
  "Values_Set k x vs = filter (\<lambda>p. fst p \<noteq> k) vs @ [(k, [x])]"

definition Values_Get :: "url_values \<Rightarrow> string \<Rightarrow> string" where
  "Values_Get vs k = (case map_of vs k of Some (x # xs) \<Rightarrow> x | _ \<Rightarrow> [])"

definition split_on :: "char list \<Rightarrow> string \<Rightarrow> string \<times> string" where
  "split_on seps s = (takeWhile (\<lambda>c. c \<notin> set seps) s, drop 1 (dropWhile (\<lambda>c. c \<notin> set seps) s))"

lemma split_on_shorter: "s \<noteq> [] \<Longrightarrow> length (snd (split_on seps s)) < length s"
  using length_dropWhile_le [of "\<lambda>c. c \<notin> set seps" s] by (cases s) (auto simp: split_on_def)

text \<open>A part of a query that cannot be unescaped is an error, reported after the others are read.\<close>

function parseQuery :: "string \<Rightarrow> url_values \<Rightarrow> bool \<Rightarrow> url_values \<times> bool" where
  "parseQuery query m bad =
     (if query = [] then (m, bad)
      else let (pair, rest) = split_on ''&;'' query;
               (key, value) = split_on ''='' pair
           in if pair = [] then parseQuery rest m bad
              else (case (QueryUnescape key, QueryUnescape value) of
                 (Some k, Some v) \<Rightarrow> parseQuery rest (Values_Add k v m) bad
               | _ \<Rightarrow> parseQuery rest m True))"
  by pat_completeness auto
termination
  by (relation "measure (\<lambda>(query, m, bad). length query)") (simp; metis split_on_shorter snd_conv)+

definition ParseQuery :: "string \<Rightarrow> url_values \<times> bool" where
  "ParseQuery query = parseQuery query [] False"

subsection \<open>Package strconv\<close>

definition digit_of :: "char \<Rightarrow> nat option" where
  "digit_of c = (let n = of_char c :: nat in if 48 \<le> n \<and> n \<le> 57 then Some (n - 48) else None)"

fun read_digits :: "string \<Rightarrow> int \<Rightarrow> int option" where
  "read_digits [] acc = Some acc"
| "read_digits (c # cs) acc =
     (case digit_of c of Some d \<Rightarrow> read_digits cs (10 * acc + int d) | None \<Rightarrow> None)"

definition ParseInt :: "string \<Rightarrow> nat \<Rightarrow> gerr + int" where
  "ParseInt s bits =
     (let neg = (s \<noteq> [] \<and> hd s = CHR ''-'');
          ds = (if s \<noteq> [] \<and> (hd s = CHR ''-'' \<or> hd s = CHR ''+'') then tl s else s)
      in if ds = [] then Inl (EOther ''invalid syntax'')
         else case read_digits ds 0 of
             None \<Rightarrow> Inl (EOther ''invalid syntax'')
           | Some n \<Rightarrow> let v = (if neg then - n else n) in
               if - (2 ^ (bits - 1)) \<le> v \<and> v < 2 ^ (bits - 1) then Inr v else Inl (EOther ''value out of range''))"

subsection \<open>Parameters\<close>

definition pr_Vote :: string where "pr_Vote = ''vote''"
definition pr_IndexPic :: string where "pr_IndexPic = ''p''"
definition pr_IndexPrev :: string where "pr_IndexPrev = ''prev''"
definition pr_Ident :: string where "pr_Ident = ''ident''"
definition pr_Secret :: string where "pr_Secret = ''secret''"
definition pr_Logout :: string where "pr_Logout = ''is_logout''"
definition pr_PicId :: string where "pr_PicId = ''pic_id''"
definition pr_CommentParentId :: string where "pr_CommentParentId = ''comment_parent_id''"
definition pr_UserId :: string where "pr_UserId = ''user_id''"
definition pr_StartUserEventId :: string where "pr_StartUserEventId = ''start_user_event_id''"
definition pr_UserEventsAsc :: string where "pr_UserEventsAsc = ''asc''"
definition pr_Version :: string where "pr_Version = ''version''"
definition pr_CommentText :: string where "pr_CommentText = ''text''"
definition pr_Next :: string where "pr_Next = ''next''"
definition pr_XsrfCookie :: string where "pr_XsrfCookie = ''xt''"
definition pr_Xsrf :: string where "pr_Xsrf = ''x_xt''"
definition pr_Md5Hash :: string where "pr_Md5Hash = ''md5''"
definition pr_Url :: string where "pr_Url = ''url''"
definition pr_DeletePicReally :: string where "pr_DeletePicReally = ''really''"
definition pr_DeletePicReason :: string where "pr_DeletePicReason = ''reason''"
definition pr_DeletePicDetails :: string where "pr_DeletePicDetails = ''details''"
definition pr_True :: string where "pr_True = ''t''"
definition pr_False :: string where "pr_False = ''f''"

text \<open>The enum of api/data.proto.\<close>

definition cap_names :: "(int \<times> string) list" where
  "cap_names = zip (map int [0..<30]) [''UNKNOWN'', ''PIC_CREATE'', ''PIC_READ'', ''PIC_INDEX'', ''USER_CREATE'',
     ''PIC_SOFT_DELETE'', ''PIC_HARD_DELETE'', ''PIC_PURGE'', ''PIC_UPDATE_VIEW_COUNTER'', ''PIC_TAG_CREATE'',
     ''PIC_COMMENT_CREATE'', ''PIC_VOTE_CREATE'', ''USER_UPDATE_CAPABILITY'', ''USER_READ_SELF'', ''USER_READ_ALL'',
     ''PIC_EXTENSION_CREATE'', ''PIC_EXTENSION_READ'', ''PIC_COMMENT_EXTENSION_CREATE'',
     ''PIC_COMMENT_EXTENSION_READ'', ''PIC_TAG_EXTENSION_CREATE'', ''PIC_TAG_EXTENSION_READ'',
     ''PIC_VOTE_EXTENSION_CREATE'', ''PIC_VOTE_EXTENSION_READ'', ''USER_READ_PUBLIC'', ''USER_READ_PICS'',
     ''USER_READ_PIC_TAG'', ''USER_READ_PIC_COMMENT'', ''USER_READ_PIC_VOTE'', ''PIC_COMMENT_VOTE_CREATE'',
     ''PIC_COMMENT_VOTE_EXTENSION_CREATE'']"

definition has_prefix :: "string \<Rightarrow> string \<Rightarrow> bool" where
  "has_prefix s p \<longleftrightarrow> take (length p) s = p"

definition TrimPrefix :: "string \<Rightarrow> string \<Rightarrow> string" where
  "TrimPrefix s p = (if has_prefix s p then drop (length p) s else s)"

text \<open>One round of the loop. The texts of errors of other packages inside a message are left out.\<close>

fun parse_cap :: "string \<Rightarrow> string \<times> string list \<Rightarrow> int list \<times> int list \<Rightarrow> string + int list \<times> int list" where
  "parse_cap prefix (k, v) (yes, no) =
     (if has_prefix k prefix then
        (case ParseInt (drop (length prefix) k) 32 of
           Inl e \<Rightarrow> Inl (''can't parse '' @ k)
         | Inr num \<Rightarrow>
             if map_of cap_names num = None then Inl (''unknown cap '' @ k)
             else if length v \<noteq> 1 then Inl (''bad value(s) for '' @ k @ '': ('' @ join_with '', '' v @ '')'')
             else if hd v = pr_True then Inr (yes @ [num], no)
             else if hd v = pr_False then Inr (yes, no @ [num])
             else Inl (''unknown value '' @ hd v @ '' for '' @ k))
      else Inr (yes, no))"

fun parse_caps :: "string \<Rightarrow> url_values \<Rightarrow> int list \<times> int list \<Rightarrow> string + int list \<times> int list" where
  "parse_caps prefix [] acc = Inr acc"
| "parse_caps prefix (kv # vals) acc =
     (case parse_cap prefix kv acc of Inl e \<Rightarrow> Inl e | Inr acc1 \<Rightarrow> parse_caps prefix vals acc1)"

definition parseCapsChange :: "string \<Rightarrow> url_values \<Rightarrow> string + int list \<times> int list" where
  "parseCapsChange prefix vals = parse_caps prefix vals ([], [])"

definition GetOldUserCapability :: "url_values \<Rightarrow> string + int list \<times> int list" where
  "GetOldUserCapability vals = parseCapsChange ''oldcap'' vals"

definition GetNewUserCapability :: "url_values \<Rightarrow> string + int list \<times> int list" where
  "GetNewUserCapability vals = parseCapsChange ''newcap'' vals"

subsection \<open>Paths\<close>

text \<open>The root address is the argument \<open>pt\<close>, the field \<open>r\<close> of \<open>paths\<close>.\<close>

definition link_path :: "string \<Rightarrow> link" where
  "link_path p = \<lparr>ln_base = [], ln_path = p, ln_query = [], ln_frag = []\<rparr>"

definition Root :: "link option \<Rightarrow> link" where
  "Root pt = (case pt of Some r \<Rightarrow> r | None \<Rightarrow> link_path ''/'')"

definition IndexDir :: "link option \<Rightarrow> link" where
  "IndexDir pt = ResolveReference (Root pt) (link_path [])"

definition index_link :: "link option \<Rightarrow> string \<Rightarrow> bool \<Rightarrow> link res" where
  "index_link pt ident' prev =
     (case ParseQuery (ln_query (IndexDir pt)) of
        (v, True) \<Rightarrow> Panic ''bad query''
      | (v, False) \<Rightarrow>
          let v1 = Values_Set pr_IndexPic ident' v;
              v2 = (if prev then Values_Set pr_IndexPrev [] v1 else v1)
          in Ok (ResolveReference (IndexDir pt) ((link_path [])\<lparr>ln_query := Values_Encode v2\<rparr>)))"

definition Index :: "link option \<Rightarrow> string \<Rightarrow> link res" where
  "Index pt ident' = index_link pt ident' False"

definition IndexPrev :: "link option \<Rightarrow> string \<Rightarrow> link res" where
  "IndexPrev pt ident' = index_link pt ident' True"

definition PixDir :: "link option \<Rightarrow> link" where
  "PixDir pt = ResolveReference (Root pt) (link_path [])"

definition User :: "link option \<Rightarrow> link" where
  "User pt = ResolveReference (Root pt) (link_path ''u/'')"

definition Login :: "link option \<Rightarrow> link" where
  "Login pt = ResolveReference (User pt) (link_path ''login'')"

definition Logout :: "link option \<Rightarrow> link" where
  "Logout pt = ResolveReference (User pt) (link_path ''logout'')"

definition UserEdit :: "link option \<Rightarrow> string \<Rightarrow> link" where
  "UserEdit pt userID = ResolveReference (User pt)
     ((link_path ''edit'')\<lparr>ln_query := (if userID \<noteq> [] then Values_Encode (Values_Add pr_UserId userID []) else [])\<rparr>)"

definition UserEvents :: "link option \<Rightarrow> string \<Rightarrow> string \<Rightarrow> bool \<Rightarrow> link" where
  "UserEvents pt userID userEventID asc =
     (let v1 = (if userID \<noteq> [] then Values_Add pr_UserId userID [] else []);
          v2 = (if userEventID \<noteq> [] then Values_Add pr_StartUserEventId userEventID v1 else v1);
          v3 = (if asc then Values_Set pr_UserEventsAsc [] v2 else v2)
      in ResolveReference (User pt) ((link_path ''activity'')\<lparr>ln_query := (if v3 \<noteq> [] then Values_Encode v3 else [])\<rparr>))"

definition ActionDir :: "link option \<Rightarrow> link" where
  "ActionDir pt = ResolveReference (Root pt) (link_path ''a/'')"

definition action_link :: "link option \<Rightarrow> string \<Rightarrow> link" where
  "action_link pt name = ResolveReference (ActionDir pt) (link_path name)"

definition LoginAction :: "link option \<Rightarrow> link" where "LoginAction pt = action_link pt ''auth''"
definition CreateUserAction :: "link option \<Rightarrow> link" where "CreateUserAction pt = action_link pt ''createUser''"
definition VoteAction :: "link option \<Rightarrow> link" where "VoteAction pt = action_link pt ''picvote''"
definition UpsertPicAction :: "link option \<Rightarrow> link" where "UpsertPicAction pt = action_link pt ''upsertPic''"
definition SoftDeletePicAction :: "link option \<Rightarrow> link" where "SoftDeletePicAction pt = action_link pt ''softDeletePic''"
definition UpdateUserAction :: "link option \<Rightarrow> link" where "UpdateUserAction pt = action_link pt ''updateUser''"

text \<open>The maps of static.go between formats and extensions.\<close>

definition picFileFormatExt :: "int \<Rightarrow> string option" where
  "picFileFormatExt = [1 \<mapsto> ''.jpg'', 2 \<mapsto> ''.gif'', 3 \<mapsto> ''.png'', 4 \<mapsto> ''.webm'', 5 \<mapsto> ''.mp4'']"

definition picFileFormatTypes :: "string \<Rightarrow> int option" where
  "picFileFormatTypes = [''.jpg'' \<mapsto> 1, ''.gif'' \<mapsto> 2, ''.png'' \<mapsto> 3, ''.webm'' \<mapsto> 4, ''.mp4'' \<mapsto> 5]"

definition pic_link :: "link option \<Rightarrow> string \<Rightarrow> int \<Rightarrow> link" where
  "pic_link pt ident' f = ResolveReference (PixDir pt)
     (link_path (ident' @ (case picFileFormatExt f of Some e \<Rightarrow> e | None \<Rightarrow> [])))"

definition PicFile :: "link option \<Rightarrow> api_file \<Rightarrow> link" where
  "PicFile pt pf = pic_link pt (af_id pf) (af_format pf)"

definition PicFileFirst :: "link option \<Rightarrow> api_file list \<Rightarrow> link" where
  "PicFileFirst pt pfs = (case pfs of [] \<Rightarrow> ResolveReference (Root pt) (link_path ''INVALIDURL'') | pf # _ \<Rightarrow> PicFile pt pf)"

definition ViewerDir :: "link option \<Rightarrow> link" where
  "ViewerDir pt = ResolveReference (Root pt) (link_path [])"

definition Viewer :: "link option \<Rightarrow> string \<Rightarrow> link" where
  "Viewer pt ident' = ResolveReference (ViewerDir pt) (link_path ident')"

definition ViewerComment :: "link option \<Rightarrow> string \<Rightarrow> string \<Rightarrow> link" where
  "ViewerComment pt picID commentID = ResolveReference (ViewerDir pt) ((link_path picID)\<lparr>ln_frag := commentID\<rparr>)"

definition CommentLink :: "link option \<Rightarrow> link" where
  "CommentLink pt = ResolveReference (ViewerDir pt) (link_path ''comment'')"

definition CommentReply :: "link option \<Rightarrow> string \<Rightarrow> string \<Rightarrow> link" where
  "CommentReply pt picID commentID = ResolveReference (CommentLink pt)
     ((link_path [])\<lparr>ln_query := Values_Encode (Values_Add pr_CommentParentId commentID (Values_Add pr_PicId picID []))\<rparr>)"

end
