(* ===== verification/WebSite.thy ===== *)
theory WebSite
  imports WebPaths Service
begin

section \<open>Requests of browsers (fe/handlers: handlers.go, xsrf.go, userutil.go, errors.go)\<close>

text \<open>
  The front end answers requests of browsers and is itself a client of the service. Its state is the
  back end's world, the calls that reached the back end, and what has been written as the answer.
  \<open>st_n\<close> numbers the readings of what the front end does not determine: the clock, the random source, the fate of a call, the
  outcome of running a template. A handler is a function on this state that may panic; it has no
  other error result, errors being written to the browser. The lookup of the user runs
  beside the handler in the code; here it is complete when the handler starts.
\<close>

subsection \<open>Errors\<close>

datatype web_err = WStatus sts | HTTPErr int string | WOther gerr

text \<open>Codes of gRPC without OK, which no error has.\<close>

fun codeHttpMapping :: "code \<Rightarrow> int" where
  "codeHttpMapping CodeCanceled = 499"
| "codeHttpMapping CodeUnknown = 500"
| "codeHttpMapping CodeInvalidArgument = 400"
| "codeHttpMapping CodeDeadlineExceeded = 504"
| "codeHttpMapping CodeNotFound = 404"
| "codeHttpMapping CodeAlreadyExists = 409"
| "codeHttpMapping CodePermissionDenied = 403"
| "codeHttpMapping CodeUnauthenticated = 401"
| "codeHttpMapping CodeResourceExhausted = 429"
| "codeHttpMapping CodeFailedPrecondition = 412"
| "codeHttpMapping CodeAborted = 409"
| "codeHttpMapping CodeOutOfRange = 416"
| "codeHttpMapping CodeUnimplemented = 501"
| "codeHttpMapping CodeInternal = 500"
| "codeHttpMapping CodeUnavailable = 503"
| "codeHttpMapping CodeDataLoss = 500"

subsection \<open>Requests, cookies and pages\<close>

text \<open>
  The file of a form: its name and what reading it gives. \<open>hr_post\<close> and \<open>hr_form\<close> are \<open>PostForm\<close> and
  \<open>Form\<close>, with the error of parsing them.
\<close>

datatype form_file = MissingFile | BadFile string | GivenFile string "gerr + string"

record http_req =
  hr_method :: string
  hr_path :: string
  hr_cookies :: "(string \<times> string) list"
  hr_post :: url_values
  hr_form :: url_values
  hr_form_err :: "string option"
  hr_file :: form_file

definition Cookie :: "http_req \<Rightarrow> string \<Rightarrow> string option" where
  "Cookie r name = map_of (hr_cookies r) name"

definition PostFormValue :: "http_req \<Rightarrow> string \<Rightarrow> string" where
  "PostFormValue r k = Values_Get (hr_post r) k"

definition FormValue :: "http_req \<Rightarrow> string \<Rightarrow> string" where
  "FormValue r k = Values_Get (hr_form r) k"

definition in_form :: "http_req \<Rightarrow> string \<Rightarrow> bool" where
  "in_form r k \<longleftrightarrow> map_of (hr_form r) k \<noteq> None"

record cookie =
  ck_name :: string
  ck_value :: string
  ck_path :: string
  ck_expires :: int
  ck_secure :: bool
  ck_http_only :: bool

text \<open>A comment with its replies and what \<open>picComment\<close> adds to it.\<close>

datatype picComment =
  PicComment (wc_comment: api_comment) (wc_user: string) (wc_ident: string) (wc_xsrf: string)
    (wc_child: "picComment list")

record paneData =
  pn_title :: string
  pn_site :: string
  pn_xsrf :: string
  pn_user :: "api_user option"
  pn_err :: "web_err option"

record viewerData =
  vd_pic :: api_pic
  vd_comment :: picComment
  vd_vote :: "api_vote option"
  vd_tags :: "api_tag list"
  vd_derived :: "api_file list"
  vd_reasons :: "(string \<times> int) list"

datatype page =
    ErrorPage paneData
  | IndexPage paneData "api_pic_thumbs list" string string bool
  | CommentPage paneData api_pic picComment string
  | ViewerPage paneData viewerData
  | LoginPage paneData
  | UserEditPage paneData string api_user bool "(int \<times> bool) list"
  | UserEventsPage paneData string string string "api_event list"

text \<open>A file that \<open>http.ServeContent\<close> reads: \<open>pixurFile\<close>.\<close>

record pixurFile =
  pf_id :: string
  pf_format :: int
  pf_size :: int
  pf_offset :: int

datatype address = ToLink link | ToText string

datatype reply =
    WriteHeader int
  | SetCookie cookie
  | AddHeader string string
  | ErrorText string int
  | Redirect address
  | Execute page
  | ServeContent string int pixurFile

subsection \<open>The front end\<close>

record feConfiguration =
  fc_beconf :: backend_configuration
  fc_anoncap :: "int list"

definition denorm :: "backend_configuration \<Rightarrow> feConfiguration" where
  "denorm beconf = \<lparr>fc_beconf = beconf,
     fc_anoncap = (case b_anonymous beconf of Some cs \<Rightarrow> cs | None \<Rightarrow> [])\<rparr>"

text \<open>Does a call reach the back end, and does its answer come back?\<close>

datatype net = Delivered | Refused sts | AnswerLost sts

record frontend =
  fe_root :: "link option"
  fe_secure :: bool
  fe_site_name :: string
  fe_conf :: "web_err + feConfiguration"
  fe_now :: "nat \<Rightarrow> int"
  fe_random :: "nat \<Rightarrow> gerr + string"
  fe_net :: "nat \<Rightarrow> net"
  fe_server :: "nat \<Rightarrow> server"
  fe_cx :: "nat \<Rightarrow> ctx"
  fe_execute :: "nat \<Rightarrow> page \<Rightarrow> gerr option"
  fe_reparse :: "string \<Rightarrow> gerr + string"
  fe_collate :: "api_tag list \<Rightarrow> api_tag list"
  fe_unmarshal_http :: "string \<Rightarrow> gerr + string \<times> string"

text \<open>What the code keeps in the context of a request.\<close>

record web_ctx =
  wx_auth :: "(string \<times> bool) option"
  wx_subject :: "(web_err + api_user) option"
  wx_xsrf_in :: "string option"
  wx_xsrf_out :: "string option"
  wx_write_err :: "web_err option"

definition Background :: web_ctx where
  "Background = \<lparr>wx_auth = None, wx_subject = None, wx_xsrf_in = None, wx_xsrf_out = None, wx_write_err = None\<rparr>"

record site =
  st_world :: world
  st_calls :: "call list"
  st_reply :: "reply list"
  st_n :: nat

type_synonym 'a web = "(site, 'a) prog"
type_synonym handler = "web_ctx \<Rightarrow> http_req \<Rightarrow> unit web"

definition next_n :: "nat web" where
  "next_n s = (Ok (st_n s), s\<lparr>st_n := Suc (st_n s)\<rparr>)"

definition write_reply :: "reply \<Rightarrow> unit web" where
  "write_reply r = modify (\<lambda>s. s\<lparr>st_reply := st_reply s @ [r]\<rparr>)"

subsection \<open>Calls of the service\<close>

definition transport_closing :: sts where
  "transport_closing = Sts CodeUnavailable ''transport is closing'' None []"

text \<open>A call with its metadata. A panic of the back end ends its process.\<close>

definition invoke :: "frontend \<Rightarrow> metadata \<Rightarrow> request \<Rightarrow> (web_err + response) web" where
  "invoke fe md req s =
     (let n = st_n s; sv = fe_server fe n; rc = \<lparr>rc_cx = fe_cx fe n, rc_auth = None, rc_md = Some md\<rparr>;
          s1 = s\<lparr>st_n := Suc n\<rparr>;
          (r, w) = serve sv rc req (st_world s);
          s2 = s1\<lparr>st_world := w, st_calls := st_calls s @ [(sv, rc, req)]\<rparr>
      in case fe_net fe n of
           Refused e \<Rightarrow> (Ok (Inl (WStatus e)), s1)
         | AnswerLost e \<Rightarrow> (Ok (Inl (WStatus e)), s2)
         | Delivered \<Rightarrow>
             (Ok (case r of Ok x \<Rightarrow> Inr x | Err e \<Rightarrow> Inl (WStatus e)
                | Panic p \<Rightarrow> Inl (WStatus transport_closing)), s2))"

definition cookieToGRPCAuthInterceptor :: "frontend \<Rightarrow> web_ctx \<Rightarrow> metadata \<Rightarrow> request \<Rightarrow> (web_err + response) web" where
  "cookieToGRPCAuthInterceptor fe cx md req =
     invoke fe (case wx_auth cx of Some (token, soft) \<Rightarrow> [authPwtHeaderKey \<mapsto> [token]] | None \<Rightarrow> md) req"

text \<open>A method of the client, whose result has the type of its response.\<close>

definition client :: "frontend \<Rightarrow> web_ctx \<Rightarrow> request \<Rightarrow> (response \<Rightarrow> 'a option) \<Rightarrow> (web_err + 'a) web" where
  "client fe cx req pick =
     bind (cookieToGRPCAuthInterceptor fe cx Map.empty req) (\<lambda>r.
     case r of
       Inl e \<Rightarrow> ret (Inl e)
     | Inr resp \<Rightarrow> (case pick resp of Some x \<Rightarrow> ret (Inr x) | None \<Rightarrow> panic ''wrong response''))"

subsection \<open>The user who asks\<close>

definition authPwtCookieName :: string where "authPwtCookieName = ''at''"
definition authSoftCookieName :: string where "authSoftCookieName = ''st''"
definition pixPwtCookieName :: string where "pixPwtCookieName = ''pt''"

definition authTokenFromReq :: "http_req \<Rightarrow> (string \<times> bool) option" where
  "authTokenFromReq r =
     (case Cookie r authPwtCookieName of
        None \<Rightarrow> None
      | Some v \<Rightarrow> Some (v, Cookie r authSoftCookieName = None))"

definition subjectUserFromCtx :: "web_ctx \<Rightarrow> web_err + api_user option" where
  "subjectUserFromCtx cx =
     (case wx_subject cx of None \<Rightarrow> Inr None | Some (Inl e) \<Rightarrow> Inl e | Some (Inr u) \<Rightarrow> Inr (Some u))"

definition subjectUserOrNilFromCtx :: "web_ctx \<Rightarrow> api_user option" where
  "subjectUserOrNilFromCtx cx = (case subjectUserFromCtx cx of Inl e \<Rightarrow> None | Inr u \<Rightarrow> u)"

text \<open>Whether the user has the capability, and whether that is certain.\<close>

definition checkCapInternal :: "frontend \<Rightarrow> web_ctx \<Rightarrow> int \<Rightarrow> bool \<times> bool" where
  "checkCapInternal fe cx c =
     (case subjectUserFromCtx cx of
        Inl e \<Rightarrow> (False, False)
      | Inr (Some su) \<Rightarrow> (c \<in> set (au_caps su), True)
      | Inr None \<Rightarrow>
          (case fe_conf fe of
             Inl e \<Rightarrow> (False, True)
           | Inr conf \<Rightarrow> (c \<in> set (fc_anoncap conf), True)))"

definition hasCap :: "frontend \<Rightarrow> web_ctx \<Rightarrow> int \<Rightarrow> bool" where
  "hasCap fe cx c = (let (has, certain) = checkCapInternal fe cx c in has \<and> certain)"

definition maybeHasCap :: "frontend \<Rightarrow> web_ctx \<Rightarrow> int \<Rightarrow> bool" where
  "maybeHasCap fe cx c = (let (has, certain) = checkCapInternal fe cx c in has \<or> \<not> certain)"

subsection \<open>Tokens against forged requests\<close>

definition xsrfTokenLifetime :: int where
  "xsrfTokenLifetime = 3600 * 1000000000 * 24 * 365 * 10"

definition xsrfTokenLength :: nat where "xsrfTokenLength = 18"
definition b64XsrfTokenLength :: nat where "b64XsrfTokenLength = 24"

text \<open>The last six bytes of an unsigned number of 64 bits, the highest first.\<close>

definition be48 :: "int \<Rightarrow> string" where
  "be48 v = map (\<lambda>i. char_of (nat (v div 256 ^ i mod 256))) [5, 4, 3, 2, 1, 0]"

definition newXsrfToken :: "gerr + string \<Rightarrow> int \<Rightarrow> gerr + string" where
  "newXsrfToken random theTime =
     (case random of
        Inl e \<Rightarrow> Inl e
      | Inr xsrfTokenRand \<Rightarrow>
          Inr (b64_encode (be48 (theTime div 1000000000) @
            be48 ((theTime + xsrfTokenLifetime) div 1000000000) @ xsrfTokenRand)))"

text \<open>\<open>EscapedPath\<close> of net/url for a path that has no encoding of its own.\<close>

definition EscapedPath :: "link \<Rightarrow> string" where
  "EscapedPath u =
     (if ln_path u = ''*'' then ''*''
      else concat (map (\<lambda>c. if unreserved c \<or> c \<in> set ''$&+,/:;=@'' then [c]
        else [CHR ''%'', hex_digit (of_char c div 16), hex_digit (of_char c mod 16)]) (ln_path u)))"

definition http_only :: "frontend \<Rightarrow> string \<Rightarrow> string \<Rightarrow> link \<Rightarrow> int \<Rightarrow> cookie" where
  "http_only fe name value dir expires = \<lparr>ck_name = name, ck_value = value, ck_path = EscapedPath dir,
     ck_expires = expires, ck_secure = fe_secure fe, ck_http_only = True\<rparr>"

definition newXsrfCookie :: "frontend \<Rightarrow> string \<Rightarrow> int \<Rightarrow> cookie" where
  "newXsrfCookie fe token now =
     http_only fe pr_XsrfCookie token (Root (fe_root fe)) (now + xsrfTokenLifetime)"

definition incomingXsrfTokensFromReq :: "http_req \<Rightarrow> web_err + string \<times> string" where
  "incomingXsrfTokensFromReq r =
     (case Cookie r pr_XsrfCookie of
        None \<Rightarrow> Inl (HTTPErr 401 ''missing xsrf cookie'')
      | Some c \<Rightarrow> Inr (c, PostFormValue r pr_Xsrf))"

definition checkXsrfTokens :: "string \<Rightarrow> string \<Rightarrow> web_err option" where
  "checkXsrfTokens c header =
     (if length c \<noteq> b64XsrfTokenLength then Some (HTTPErr 401 ''wrong length xsrf token'')
      else if header \<noteq> c then Some (HTTPErr 401 ''xsrf tokens don't match'')
      else None)"

subsection \<open>Showing errors\<close>

definition newPaneData :: "frontend \<Rightarrow> web_ctx \<Rightarrow> string \<Rightarrow> paneData" where
  "newPaneData fe cx title = \<lparr>pn_title = title, pn_site = fe_site_name fe,
     pn_xsrf = (case wx_xsrf_out cx of Some t \<Rightarrow> t | None \<Rightarrow> []), pn_user = subjectUserOrNilFromCtx cx,
     pn_err = wx_write_err cx\<rparr>"

definition ErrShouldLogin :: "paneData \<Rightarrow> bool" where
  "ErrShouldLogin pd = (case pn_err pd of Some (WStatus s) \<Rightarrow> sts_code s = CodeUnauthenticated | _ \<Rightarrow> False)"

fun http_code :: "web_err \<Rightarrow> int" where
  "http_code (WStatus s) = codeHttpMapping (sts_code s)"
| "http_code (HTTPErr c m) = c"
| "http_code (WOther e) = 500"

fun http_message :: "web_err \<Rightarrow> string" where
  "http_message (WStatus s) = sts_message s"
| "http_message (HTTPErr c m) = m"
| "http_message (WOther e) = err_text e"

definition httpErrorHeaderAndLog :: "web_err \<Rightarrow> unit web" where
  "httpErrorHeaderAndLog err = write_reply (WriteHeader (http_code err))"

definition httpWriteError :: "web_err \<Rightarrow> unit web" where
  "httpWriteError err = httpErrorHeaderAndLog err"

definition httpCleanupError :: "web_err \<Rightarrow> unit web" where
  "httpCleanupError err = httpErrorHeaderAndLog err"

text \<open>Running a template writes a page, maybe in part; the outcome is an error or none.\<close>

definition execute :: "frontend \<Rightarrow> page \<Rightarrow> web_err option web" where
  "execute fe p =
     bind (write_reply (Execute p)) (\<lambda>_. bind next_n (\<lambda>n.
       ret (map_option WOther (fe_execute fe n p))))"

text \<open>The pane of an error shows that error, not the one a failed write has left.\<close>

definition httpReadError :: "frontend \<Rightarrow> web_ctx \<Rightarrow> web_err \<Rightarrow> unit web" where
  "httpReadError fe cx err =
     bind (httpErrorHeaderAndLog err) (\<lambda>_.
     bind (execute fe (ErrorPage ((newPaneData fe cx ''Error'')\<lparr>pn_err := Some err\<rparr>))) (\<lambda>_. ret ()))"

definition httpError :: "web_err \<Rightarrow> unit web" where
  "httpError err = write_reply (ErrorText (http_message err) (http_code err))"

definition render :: "frontend \<Rightarrow> (web_err \<Rightarrow> unit web) \<Rightarrow> page \<Rightarrow> unit web" where
  "render fe on_error p =
     bind (execute fe p) (\<lambda>e. case e of Some err \<Rightarrow> on_error err | None \<Rightarrow> ret ())"

text \<open>\<open>if err != nil { ...; return }\<close> with the continuation for the value.\<close>

definition or_else :: "(web_err + 'a) web \<Rightarrow> (web_err \<Rightarrow> unit web) \<Rightarrow> ('a \<Rightarrow> unit web) \<Rightarrow> unit web" where
  "or_else m on_error f = bind m (\<lambda>r. case r of Inl e \<Rightarrow> on_error e | Inr x \<Rightarrow> f x)"

definition or_stop :: "web_err option \<Rightarrow> (web_err \<Rightarrow> unit web) \<Rightarrow> unit web \<Rightarrow> unit web" where
  "or_stop e on_error m = (case e of Some err \<Rightarrow> on_error err | None \<Rightarrow> m)"

subsection \<open>What every request passes\<close>

definition methodHandler :: "handler option \<Rightarrow> handler option \<Rightarrow> handler" where
  "methodHandler get post cx r =
     (case (get, post) of
        (Some g, _) \<Rightarrow>
          (if hr_method r = ''GET'' then g cx r
           else case post of
               Some p \<Rightarrow> if hr_method r = ''POST'' then p cx r else httpCleanupError (HTTPErr 405 ''Method not allowed'')
             | None \<Rightarrow> httpCleanupError (HTTPErr 405 ''Method not allowed''))
      | (None, Some p) \<Rightarrow>
          if hr_method r = ''POST'' then p cx r else httpCleanupError (HTTPErr 405 ''Method not allowed'')
      | (None, None) \<Rightarrow> httpCleanupError (HTTPErr 405 ''Method not allowed''))"

definition with_auth :: "web_ctx \<Rightarrow> http_req \<Rightarrow> web_ctx" where
  "with_auth cx r =
     (case wx_auth cx of
        Some atv \<Rightarrow> cx
      | None \<Rightarrow> (case authTokenFromReq r of Some atv \<Rightarrow> cx\<lparr>wx_auth := Some atv\<rparr> | None \<Rightarrow> cx))"

definition lookup_self :: "frontend \<Rightarrow> web_ctx \<Rightarrow> (web_err + api_user) web" where
  "lookup_self fe cx = client fe cx (LookupUserRequest [])
     (\<lambda>resp. case resp of LookupUserResponse u \<Rightarrow> Some u | _ \<Rightarrow> None)"

definition with_subject :: "frontend \<Rightarrow> web_ctx \<Rightarrow> web_ctx web" where
  "with_subject fe cx =
     (if wx_auth cx \<noteq> None \<and> wx_subject cx = None
      then bind (lookup_self fe cx) (\<lambda>u. ret (cx\<lparr>wx_subject := Some u\<rparr>))
      else ret cx)"

text \<open>The token that pages will carry: the one of the cookie, or a new one.\<close>

definition with_xsrf :: "frontend \<Rightarrow> web_ctx \<Rightarrow> http_req \<Rightarrow> (web_err + web_ctx) web" where
  "with_xsrf fe cx r =
     (case wx_xsrf_out cx of
        Some t \<Rightarrow> ret (Inr cx)
      | None \<Rightarrow>
          bind next_n (\<lambda>n.
          case Cookie r pr_XsrfCookie of
            None \<Rightarrow>
              bind next_n (\<lambda>m.
              case newXsrfToken (fe_random fe m) (fe_now fe n) of
                Inl e \<Rightarrow> ret (Inl (WOther e))
              | Inr token \<Rightarrow>
                  bind (write_reply (SetCookie (newXsrfCookie fe token (fe_now fe n)))) (\<lambda>_.
                  ret (Inr (cx\<lparr>wx_xsrf_out := Some token\<rparr>))))
          | Some c \<Rightarrow>
              (case checkXsrfTokens c c of
                 Some err \<Rightarrow> ret (Inl err)
               | None \<Rightarrow> ret (Inr (cx\<lparr>wx_xsrf_out := Some c\<rparr>)))))"

definition readHandler :: "frontend \<Rightarrow> handler \<Rightarrow> handler" where
  "readHandler fe nxt cx r =
     bind (with_subject fe (with_auth cx r)) (\<lambda>cx1.
     or_else (with_xsrf fe cx1 r) httpError (\<lambda>cx2. nxt cx2 r))"

definition incoming_xsrf :: "web_ctx \<Rightarrow> http_req \<Rightarrow> web_err + string" where
  "incoming_xsrf cx r =
     (case wx_xsrf_in cx of
        Some t \<Rightarrow> Inr t
      | None \<Rightarrow>
          (case incomingXsrfTokensFromReq r of
             Inl e \<Rightarrow> Inl e
           | Inr (xsrfCookie, xsrfField) \<Rightarrow>
               (case checkXsrfTokens xsrfCookie xsrfField of Some e \<Rightarrow> Inl e | None \<Rightarrow> Inr xsrfCookie)))"

definition actionHandler :: "handler \<Rightarrow> handler" where
  "actionHandler nxt cx r =
     (case incoming_xsrf cx r of
        Inl e \<Rightarrow> httpError e
      | Inr t \<Rightarrow>
          nxt (with_auth (if wx_xsrf_out cx = None then cx\<lparr>wx_xsrf_out := Some t\<rparr> else cx) r) r)"

end
