(* ===== verification/WebHandlers.thy ===== *)
theory WebHandlers
  imports WebSite "HOL-Library.Product_Lexorder"
begin

section \<open>The pages and actions of the site (fe/handlers)\<close>

text \<open>
  One definition per handler, in the order of its code. What the code takes from the HTTP server is
  the parsed request; compressing and the content type of an answer are left out, and so are the texts of
  errors of other packages inside a message. Maps over whose entries the code iterates are lists.
\<close>

subsection \<open>The index (index.go)\<close>

definition index_static :: "frontend \<Rightarrow> handler" where
  "index_static fe cx r =
     or_stop (map_option (HTTPErr 400) (hr_form_err r)) (httpReadError fe cx) (
     let start = FormValue r pr_IndexPic; isPrev = in_form r pr_IndexPrev
     in if \<not> maybeHasCap fe cx PIC_INDEX then write_reply (Redirect (ToLink (Login (fe_root fe))))
        else or_else (client fe cx (FindIndexPicsRequest start isPrev)
            (\<lambda>resp. case resp of FindIndexPicsResponse x \<Rightarrow> Some x | _ \<Rightarrow> None)) (httpReadError fe cx) (\<lambda>res.
          let (nextID, prevID) = (if \<not> isPrev then (ir_next res, ir_prev res) else (ir_prev res, ir_next res));
              ps = (if isPrev then rev (ir_pics res) else ir_pics res)
          in render fe httpCleanupError (IndexPage (newPaneData fe cx ''Index'') ps nextID prevID
               (hasCap fe cx PIC_CREATE))))"

subsection \<open>Comments (comment.go, viewer.go)\<close>

abbreviation lookup_details :: "frontend \<Rightarrow> web_ctx \<Rightarrow> string \<Rightarrow> (web_err + details_response) web" where
  "lookup_details fe cx picId \<equiv> client fe cx (LookupPicDetailsRequest picId)
     (\<lambda>resp. case resp of LookupPicDetailsResponse x \<Rightarrow> Some x | _ \<Rightarrow> None)"

text \<open>The replies found so far, by the id of the comment they reply to; a comment's own replies have come before it.\<close>

type_synonym child_map = "string \<Rightarrow> picComment list"

definition add_child :: "string \<Rightarrow> picComment \<Rightarrow> child_map \<Rightarrow> child_map" where
  "add_child parent pc m = m(parent := m parent @ [pc])"

fun find_comment :: "string \<Rightarrow> string \<Rightarrow> api_comment list \<Rightarrow> child_map \<Rightarrow> picComment option" where
  "find_comment xsrf i [] m = None"
| "find_comment xsrf i (c # cs) m =
     (let pc = PicComment c [] [] xsrf (m (ac_id c))
      in if ac_id c = i then Some pc else find_comment xsrf i cs (add_child (ac_parent c) pc m))"

definition commentDisplay :: "frontend \<Rightarrow> handler" where
  "commentDisplay fe cx r =
     (let commentParentId = FormValue r pr_CommentParentId; picId = FormValue r pr_PicId
      in or_else (lookup_details fe cx picId) (httpReadError fe cx) (\<lambda>details.
         let pd = newPaneData fe cx ''Add Comment''
         in case find_comment (pn_xsrf pd) commentParentId (dr_comments details) (\<lambda>_. []) of
              None \<Rightarrow> httpReadError fe cx (HTTPErr 400 ''Can't find comment id'')
            | Some root' \<Rightarrow> render fe httpCleanupError
                (CommentPage pd (dr_pic details) root' (PostFormValue r pr_CommentText))))"

definition fail_write :: "(web_ctx \<Rightarrow> http_req \<Rightarrow> unit web) \<Rightarrow> web_ctx \<Rightarrow> http_req \<Rightarrow> web_err \<Rightarrow> unit web" where
  "fail_write display cx r err =
     bind (httpWriteError err) (\<lambda>_. display (cx\<lparr>wx_write_err := Some err\<rparr>) r)"

definition addPicComment :: "frontend \<Rightarrow> handler \<Rightarrow> handler" where
  "addPicComment fe display cx r =
     or_else (client fe cx (AddPicCommentRequest (PostFormValue r pr_PicId)
         (PostFormValue r pr_CommentParentId) (PostFormValue r pr_CommentText))
         (\<lambda>resp. case resp of AddPicCommentResponse x \<Rightarrow> Some x | _ \<Rightarrow> None)) (fail_write display cx r) (\<lambda>res.
       write_reply (Redirect (ToLink (ViewerComment (fe_root fe) (ac_pic res) (ac_id res)))))"

definition comment_page :: "frontend \<Rightarrow> handler" where
  "comment_page fe = (let cdh = readHandler fe (commentDisplay fe)
     in methodHandler (Some cdh) (Some (actionHandler (addPicComment fe cdh))))"

subsection \<open>The viewer (viewer.go)\<close>

text \<open>A user whose data are not known is a nil pointer, of which the code reads the fields.\<close>

definition named :: "(string \<rightharpoonup> api_public_user) \<Rightarrow> string option \<Rightarrow> (string \<times> string) res" where
  "named puis uid =
     (case uid of
        None \<Rightarrow> Ok ([], [])
      | Some i \<Rightarrow> (case puis i of
          None \<Rightarrow> Panic ''nil pointer dereference''
        | Some u \<Rightarrow> Ok (apu_id u, apu_ident u)))"

definition add_comment :: "(string \<rightharpoonup> api_public_user) \<Rightarrow> string \<Rightarrow> api_comment \<Rightarrow> child_map \<Rightarrow> child_map res" where
  "add_comment puis xsrf c m =
     res_map (\<lambda>(userId, idn). add_child (ac_parent c) (PicComment c userId idn xsrf (m (ac_id c))) m)
       (named puis (ac_user c))"

fun add_comments :: "(string \<rightharpoonup> api_public_user) \<Rightarrow> string \<Rightarrow> api_comment list \<Rightarrow> child_map \<Rightarrow> child_map res" where
  "add_comments puis xsrf [] m = Ok m"
| "add_comments puis xsrf (c # cs) m =
     res_bind (add_comment puis xsrf c m) (add_comments puis xsrf cs)"

text \<open>
  Siblings in the order of their times and ids. Two of them are enough for the code to read the time
  of each. Sorting the replies of a comment and the comment among its siblings are
  independent of each other.
\<close>

fun res_seq :: "'a res list \<Rightarrow> 'a list res" where
  "res_seq [] = Ok []"
| "res_seq (r # rs) = res_bind r (\<lambda>x. res_map ((#) x) (res_seq rs))"

definition time_of :: "picComment \<Rightarrow> gerr + int" where
  "time_of pc = ptypes_Timestamp (ac_created (wc_comment pc))"

definition time_or_zero :: "picComment \<Rightarrow> int" where
  "time_or_zero pc = (case time_of pc of Inr t \<Rightarrow> t | Inl e \<Rightarrow> 0)"

definition sort_siblings :: "picComment list \<Rightarrow> picComment list res" where
  "sort_siblings cs =
     (if 2 \<le> length cs \<and> list_ex (\<lambda>c. case time_of c of Inl e \<Rightarrow> True | Inr t \<Rightarrow> False) cs then Panic ''bad timestamp''
      else Ok (sort_key (\<lambda>c. (time_or_zero c, ac_id (wc_comment c))) cs))"

primrec timesort :: "picComment \<Rightarrow> picComment res" where
  "timesort (PicComment c u i x ch) =
     res_bind (res_seq (map timesort ch)) (\<lambda>ds. res_map (PicComment c u i x) (sort_siblings ds))"

text \<open>The calls for the users of the comments, one per comment. Any error makes the map nil.\<close>

fun lookup_infos :: "frontend \<Rightarrow> web_ctx \<Rightarrow> api_comment list \<Rightarrow> (string \<rightharpoonup> api_public_user) option web" where
  "lookup_infos fe cx [] = ret (Some Map.empty)"
| "lookup_infos fe cx (c # cs) =
     (case ac_user c of
        None \<Rightarrow> lookup_infos fe cx cs
      | Some uid \<Rightarrow>
          bind (client fe cx (LookupPublicUserInfoRequest uid)
            (\<lambda>resp. case resp of LookupPublicUserInfoResponse x \<Rightarrow> Some x | _ \<Rightarrow> None)) (\<lambda>r.
          bind (lookup_infos fe cx cs) (\<lambda>puis.
            ret (case (r, puis) of (Inr u, Some m) \<Rightarrow> Some (m(apu_id u \<mapsto> u)) | _ \<Rightarrow> None))))"

definition public_infos :: "frontend \<Rightarrow> web_ctx \<Rightarrow> api_comment list \<Rightarrow> (string \<rightharpoonup> api_public_user) web" where
  "public_infos fe cx cs =
     (if hasCap fe cx USER_READ_PUBLIC \<or> hasCap fe cx USER_READ_ALL
      then bind (lookup_infos fe cx cs) (\<lambda>puis. ret (case puis of Some m \<Rightarrow> m | None \<Rightarrow> Map.empty))
      else ret Map.empty)"

definition own_vote :: "frontend \<Rightarrow> web_ctx \<Rightarrow> string \<Rightarrow> (web_err + api_vote option) web" where
  "own_vote fe cx picId =
     (case subjectUserOrNilFromCtx cx of
        None \<Rightarrow> ret (Inr None)
      | Some u \<Rightarrow> client fe cx (LookupPicVoteRequest picId [])
          (\<lambda>resp. case resp of LookupPicVoteResponse x \<Rightarrow> Some x | _ \<Rightarrow> None))"

definition blank_comment :: "string \<Rightarrow> api_comment" where
  "blank_comment picId = \<lparr>ac_pic = picId, ac_id = [], ac_parent = [], ac_text = [], ac_created = None,
     ac_modified = None, ac_version = 0, ac_user = None\<rparr>"

definition comment_root :: "(string \<rightharpoonup> api_public_user) \<Rightarrow> string \<Rightarrow> string \<Rightarrow> api_comment list \<Rightarrow> picComment res" where
  "comment_root puis xsrf picId cs =
     res_map (\<lambda>m. PicComment (blank_comment picId) [] [] xsrf (m ''0'')) (add_comments puis xsrf cs (\<lambda>_. []))"

definition deletion_reasons :: "(string \<times> int) list" where
  "deletion_reasons = [(''NONE'', 1), (''RULE_VIOLATION'', 2)]"

definition viewer_static :: "frontend \<Rightarrow> handler" where
  "viewer_static fe cx r =
     (if \<not> maybeHasCap fe cx PIC_INDEX then write_reply (Redirect (ToLink (Login (fe_root fe))))
      else let picId = TrimPrefix (hr_path r) (ln_path (ViewerDir (fe_root fe)))
        in or_else (lookup_details fe cx picId) (httpReadError fe cx) (\<lambda>details.
           bind (public_infos fe cx (dr_comments details)) (\<lambda>puis.
           or_else (own_vote fe cx picId) (httpReadError fe cx) (\<lambda>pv.
           let pd = newPaneData fe cx ''Viewer''
           in bind (lift_res (comment_root puis (pn_xsrf pd) picId (dr_comments details))) (\<lambda>unsorted.
              bind (lift_res (timesort unsorted)) (\<lambda>sorted'.
              bind (execute fe (ViewerPage pd \<lparr>vd_pic = dr_pic details, vd_comment = sorted', vd_vote = pv,
                vd_tags = fe_collate fe (dr_tags details), vd_derived = dr_derived details,
                vd_reasons = deletion_reasons\<rparr>)) (\<lambda>e.
              or_stop e httpCleanupError (
              or_else (client fe cx (IncrementViewCountRequest picId)
                (\<lambda>resp. case resp of IncrementViewCountResponse \<Rightarrow> Some () | _ \<Rightarrow> None))
                httpCleanupError (\<lambda>_. ret ())))))))))"

definition PicVote_Vote_value :: "string \<Rightarrow> int" where
  "PicVote_Vote_value s = (if s = ''UP'' then 1 else if s = ''DOWN'' then 2 else if s = ''NEUTRAL'' then 3 else 0)"

definition viewer_vote :: "frontend \<Rightarrow> handler" where
  "viewer_vote fe cx r =
     (case fe_reparse fe (PostFormValue r pr_Next) of
        Inl e \<Rightarrow> httpError (WOther e)
      | Inr nextURL \<Rightarrow>
          or_else (client fe cx (UpsertPicVoteRequest (PostFormValue r pr_PicId)
              (PicVote_Vote_value (PostFormValue r pr_Vote)))
            (\<lambda>resp. case resp of UpsertPicVoteResponse \<Rightarrow> Some () | _ \<Rightarrow> None)) httpError (\<lambda>_.
            write_reply (Redirect (ToText nextURL))))"

definition viewer_softdelete :: "frontend \<Rightarrow> handler" where
  "viewer_softdelete fe cx r =
     (if PostFormValue r pr_DeletePicReally = [] then httpError (HTTPErr 400 ([CHR 0x22] @ ''Really'' @ [CHR 0x22] @ '' box not checked''))
      else case ParseInt (PostFormValue r pr_DeletePicReason) 32 of
          Inl e \<Rightarrow> httpError (WOther e)
        | Inr deletionReasonNum \<Rightarrow>
            or_else (client fe cx (SoftDeletePicRequest (PostFormValue r pr_PicId)
                (PostFormValue r pr_DeletePicDetails) deletionReasonNum None)
              (\<lambda>resp. case resp of SoftDeletePicResponse \<Rightarrow> Some () | _ \<Rightarrow> None)) httpError (\<lambda>_.
              write_reply (Redirect (ToLink (Viewer (fe_root fe) (PostFormValue r pr_PicId))))))"

subsection \<open>Uploads (upload.go)\<close>

fun hex_DecodeString :: "string \<Rightarrow> gerr + string" where
  "hex_DecodeString [] = Inr []"
| "hex_DecodeString [c] = Inl (EOther ''encoding/hex'')"
| "hex_DecodeString (a # b # s) =
     (case (unhex a, unhex b) of
        (Some x, Some y) \<Rightarrow> map_sum id ((#) (char_of (16 * x + y))) (hex_DecodeString s)
      | _ \<Rightarrow> Inl (EOther ''encoding/hex''))"

definition read_file :: "(gerr + string) option \<Rightarrow> gerr + string" where
  "read_file f = (case f of None \<Rightarrow> Inr [] | Some r \<Rightarrow> r)"

definition upsert_with :: "frontend \<Rightarrow> web_ctx \<Rightarrow> http_req \<Rightarrow> string \<Rightarrow> (gerr + string) option \<Rightarrow> unit web" where
  "upsert_with fe cx r filename filedata =
     (let hexHash = FormValue r pr_Md5Hash
      in case hex_DecodeString hexHash of
           Inl e \<Rightarrow> httpError (HTTPErr 400 ''can't decode md5 hash'')
         | Inr md5Hash \<Rightarrow>
             (case read_file filedata of
                Inl e \<Rightarrow> httpError (HTTPErr 500 ''can't read file'')
              | Inr data \<Rightarrow>
                  or_else (client fe cx (UpsertPicRequest (FormValue r pr_Url) [] filename data md5Hash [])
                    (\<lambda>resp. case resp of UpsertPicResponse p \<Rightarrow> Some p | _ \<Rightarrow> None)) httpError (\<lambda>p.
                    write_reply (Redirect (ToLink (Viewer (fe_root fe) (ap_id p)))))))"

definition upsert :: "frontend \<Rightarrow> handler" where
  "upsert fe cx r =
     (case hr_file r of
        BadFile e \<Rightarrow> httpError (HTTPErr 400 (''can't read file: '' @ e))
      | MissingFile \<Rightarrow> upsert_with fe cx r [] None
      | GivenFile filename data \<Rightarrow> upsert_with fe cx r filename (Some data))"

subsection \<open>Users (user.go)\<close>

definition userEvents :: "frontend \<Rightarrow> handler" where
  "userEvents fe cx r =
     (let isAsc = in_form r pr_UserEventsAsc
      in or_else (client fe cx (FindUserEventsRequest (FormValue r pr_UserId) (FormValue r pr_StartUserEventId) isAsc)
           (\<lambda>resp. case resp of FindUserEventsResponse x \<Rightarrow> Some x | _ \<Rightarrow> None)) httpError (\<lambda>resp.
         let (nextID, prevID) = (if \<not> isAsc then (er_next resp, er_prev resp) else (er_prev resp, er_next resp));
             evs = (if isAsc then rev (er_events resp) else er_events resp)
         in render fe httpError (UserEventsPage (newPaneData fe cx ''Recent Activity'') (FormValue r pr_UserId)
              nextID prevID evs)))"

text \<open>All capabilities by name, with those the user has.\<close>

definition cap_infos :: "int list \<Rightarrow> (int \<times> bool) list" where
  "cap_infos cs = map (\<lambda>(c, nm). (c, c \<in> set cs)) (sort_key snd (filter (\<lambda>(c, nm). c \<noteq> 0) cap_names))"

definition object_user :: "frontend \<Rightarrow> web_ctx \<Rightarrow> api_user option \<Rightarrow> string \<Rightarrow> (web_err + api_user) web" where
  "object_user fe cx subject objectUserId =
     (if objectUserId = [] then
        (case subject of Some u \<Rightarrow> ret (Inr u) | None \<Rightarrow> panic ''nil pointer dereference'')
      else case subject of
          None \<Rightarrow> panic ''nil pointer dereference''
        | Some u \<Rightarrow>
            if objectUserId = au_id u then ret (Inr u)
            else client fe cx (LookupUserRequest objectUserId)
              (\<lambda>resp. case resp of LookupUserResponse x \<Rightarrow> Some x | _ \<Rightarrow> None))"

definition user_static :: "frontend \<Rightarrow> handler" where
  "user_static fe cx r =
     or_stop (map_option (HTTPErr 400) (hr_form_err r)) httpError (
     case subjectUserFromCtx cx of
       Inl e \<Rightarrow> httpError e
     | Inr subjectUser \<Rightarrow>
         or_else (object_user fe cx subjectUser (FormValue r pr_UserId)) httpError (\<lambda>objectUser.
           render fe httpError (UserEditPage (newPaneData fe cx ''User Edit'') (au_id objectUser) objectUser
             (case subjectUser of Some u \<Rightarrow> USER_UPDATE_CAPABILITY \<in> set (au_caps u) | None \<Rightarrow> False)
             (cap_infos (au_caps objectUser)))))"

fun Itoa :: "nat \<Rightarrow> string" where
  "Itoa n = (if n < 10 then [hex_digit n] else Itoa (n div 10) @ [hex_digit (n mod 10)])"

definition cap_String :: "int \<Rightarrow> string" where
  "cap_String c = (case map_of cap_names c of Some nm \<Rightarrow> nm | None \<Rightarrow> [])"

definition dupe :: "int \<Rightarrow> web_err" where
  "dupe c = HTTPErr 400 (''duplicate value '' @ cap_String c)"

type_synonym cap_map = "(int \<times> bool) list"

fun cap_map_of :: "bool \<Rightarrow> int list \<Rightarrow> cap_map \<Rightarrow> web_err + cap_map" where
  "cap_map_of b [] m = Inr m"
| "cap_map_of b (c # cs) m =
     (if map_of m c \<noteq> None then Inl (dupe c) else cap_map_of b cs (m @ [(c, b)]))"

definition yes_and_no :: "int list \<Rightarrow> int list \<Rightarrow> web_err + cap_map" where
  "yes_and_no yes no = (case cap_map_of True yes [] of Inl e \<Rightarrow> Inl e | Inr m \<Rightarrow> cap_map_of False no m)"

text \<open>The loop over the new map: what is to be added, to be removed, and left of the old map.\<close>

fun diff_loop :: "cap_map \<Rightarrow> cap_map \<Rightarrow> int list \<Rightarrow> int list \<Rightarrow> web_err + int list \<times> int list \<times> cap_map" where
  "diff_loop old [] add remove = Inr (add, remove, old)"
| "diff_loop old ((newc, newenabled) # new) add remove =
     (case map_of old newc of
        None \<Rightarrow> Inl (HTTPErr 400 (''new value not present in old set '' @ cap_String newc))
      | Some oldenabled \<Rightarrow>
          let old1 = filter (\<lambda>p. fst p \<noteq> newc) old
          in if newenabled \<and> \<not> oldenabled then diff_loop old1 new (add @ [newc]) remove
             else if \<not> newenabled \<and> oldenabled then diff_loop old1 new add (remove @ [newc])
             else diff_loop old1 new add remove)"

definition diffcaps :: "int list \<Rightarrow> int list \<Rightarrow> int list \<Rightarrow> int list \<Rightarrow> web_err + int list \<times> int list" where
  "diffcaps oldyes oldno newyes newno =
     (case yes_and_no oldyes oldno of Inl e \<Rightarrow> Inl e | Inr oldmap \<Rightarrow>
     (case yes_and_no newyes newno of Inl e \<Rightarrow> Inl e | Inr newmap \<Rightarrow>
     (case diff_loop oldmap newmap [] [] of Inl e \<Rightarrow> Inl e | Inr (add, remove, rest) \<Rightarrow>
       if rest \<noteq> [] then Inl (HTTPErr 400 (''leftover vals in old set '' @ Itoa (length rest))) else Inr (add, remove))))"

definition posted_version :: "string \<Rightarrow> gerr + int" where
  "posted_version raw = (if raw \<noteq> [] then ParseInt raw 64 else Inr 0)"

definition useredit :: "frontend \<Rightarrow> handler" where
  "useredit fe cx r =
     (case posted_version (PostFormValue r pr_Version) of
        Inl e \<Rightarrow> httpError (HTTPErr 400 ''can't parse version'')
      | Inr version \<Rightarrow>
     (case GetOldUserCapability (hr_post r) of
        Inl e \<Rightarrow> httpError (HTTPErr 400 (''can't parse old cap: '' @ e))
      | Inr (oldyes, oldno) \<Rightarrow>
     (case GetNewUserCapability (hr_post r) of
        Inl e \<Rightarrow> httpError (HTTPErr 400 (''can't parse new cap: '' @ e))
      | Inr (newyes, newno) \<Rightarrow>
     (case diffcaps oldyes oldno newyes newno of
        Inl e \<Rightarrow> httpError e
      | Inr (add, remove) \<Rightarrow>
          or_else (client fe cx (UpdateUserRequest (PostFormValue r pr_UserId) version
              (if length add + length remove > 0 then Some (add, remove) else None))
            (\<lambda>resp. case resp of UpdateUserResponse u \<Rightarrow> Some u | _ \<Rightarrow> None)) httpError (\<lambda>u.
            write_reply (Redirect (ToLink (UserEdit (fe_root fe) (au_id u)))))))))"

subsection \<open>Signing in and out (login.go)\<close>

definition loginDisplay :: "frontend \<Rightarrow> handler" where
  "loginDisplay fe cx r = render fe httpCleanupError (LoginPage (newPaneData fe cx ''Login''))"

definition set_cookies :: "cookie list \<Rightarrow> unit web" where
  "set_cookies cs = bind (each (\<lambda>c. write_reply (SetCookie c)) cs) (\<lambda>_. ret ())"

text \<open>The cookies of the tokens, in the order of the code, or the error of a time in them.\<close>

definition auth_cookies :: "frontend \<Rightarrow> refresh_response \<Rightarrow> gerr + cookie list" where
  "auth_cookies fe res =
     (case ptypes_Timestamp (pp_not_after (rr_auth_payload res)) of
        Inl e \<Rightarrow> Inl e
      | Inr notAfter \<Rightarrow>
          (case (case pp_soft_not_after (rr_auth_payload res) of
                   Some ts \<Rightarrow> ptypes_Timestamp (Some ts) | None \<Rightarrow> Inr notAfter) of
             Inl e \<Rightarrow> Inl e
           | Inr softNotAfter \<Rightarrow> Inr
               [http_only fe authPwtCookieName (rr_auth_token res) (Root (fe_root fe)) notAfter,
                http_only fe authSoftCookieName authSoftCookieName (Root (fe_root fe)) softNotAfter]))"

definition pix_cookies :: "frontend \<Rightarrow> refresh_response \<Rightarrow> gerr + cookie list" where
  "pix_cookies fe res =
     (case rr_pix_payload res of
        None \<Rightarrow> Inr []
      | Some payload \<Rightarrow>
          (case ptypes_Timestamp (pp_not_after payload) of
             Inl e \<Rightarrow> Inl e
           | Inr notAfter \<Rightarrow> Inr [http_only fe pixPwtCookieName (rr_pix_token res) (PixDir (fe_root fe)) notAfter]))"

definition refresh0 :: "frontend \<Rightarrow> handler \<Rightarrow> web_ctx \<Rightarrow> http_req \<Rightarrow> refresh_response \<Rightarrow> bool web" where
  "refresh0 fe display cx r res =
     (case (auth_cookies fe res, pix_cookies fe res) of
        (Inl e, _) \<Rightarrow> bind (fail_write display cx r (WOther e)) (\<lambda>_. ret False)
      | (Inr auth, Inl e) \<Rightarrow> bind (fail_write display cx r (WOther e)) (\<lambda>_. ret False)
      | (Inr auth, Inr pix) \<Rightarrow>
          bind next_n (\<lambda>n.
          bind (set_cookies (auth @ pix @
            [http_only fe pr_XsrfCookie [] (Root (fe_root fe)) (fe_now fe n - 3600 * 1000000000)])) (\<lambda>_.
          ret True)))"

definition login :: "frontend \<Rightarrow> handler \<Rightarrow> handler" where
  "login fe display cx r =
     (let authToken = (case Cookie r authPwtCookieName of Some v \<Rightarrow> v | None \<Rightarrow> [])
      in or_else (client fe cx (GetRefreshTokenRequest (PostFormValue r pr_Ident) (PostFormValue r pr_Secret) authToken)
           (\<lambda>resp. case resp of GetRefreshTokenResponse x \<Rightarrow> Some x | _ \<Rightarrow> None)) (fail_write display cx r) (\<lambda>res.
         bind (refresh0 fe display cx r res) (\<lambda>ok.
           if ok then write_reply (Redirect (ToLink (Root (fe_root fe)))) else ret ())))"

text \<open>The cookies are destroyed first, whatever the call says; \<open>past\<close> is a day ago.\<close>

definition logout :: "frontend \<Rightarrow> handler \<Rightarrow> handler" where
  "logout fe display cx r =
     bind next_n (\<lambda>n. let past = fe_now fe n - 24 * 3600 * 1000000000; root' = Root (fe_root fe) in
     bind (set_cookies [http_only fe authPwtCookieName [] root' past, http_only fe authSoftCookieName [] root' past,
       http_only fe pixPwtCookieName [] (PixDir (fe_root fe)) past, http_only fe pr_XsrfCookie [] root' past]) (\<lambda>_.
     or_else (client fe cx DeleteTokenRequest
       (\<lambda>resp. case resp of DeleteTokenResponse \<Rightarrow> Some () | _ \<Rightarrow> None)) (fail_write display cx r) (\<lambda>_.
       write_reply (Redirect (ToLink (Logout (fe_root fe)))))))"

definition loginAction :: "frontend \<Rightarrow> handler \<Rightarrow> handler" where
  "loginAction fe display cx r =
     (if PostFormValue r pr_Logout \<noteq> [] then logout fe display cx r else login fe display cx r)"

definition createUser :: "frontend \<Rightarrow> handler \<Rightarrow> handler \<Rightarrow> handler" where
  "createUser fe display login' cx r =
     or_else (client fe cx (CreateUserRequest (PostFormValue r pr_Ident) (PostFormValue r pr_Secret))
       (\<lambda>resp. case resp of CreateUserResponse \<Rightarrow> Some () | _ \<Rightarrow> None)) (fail_write display cx r) (\<lambda>_.
       login' cx (r\<lparr>hr_post := filter (\<lambda>p. fst p \<noteq> pr_Logout) (hr_post r)\<rparr>))"

subsection \<open>Files of pictures (static.go)\<close>

text \<open>\<open>path.Ext\<close>\<close>

definition path_Ext :: "string \<Rightarrow> string" where
  "path_Ext p =
     (let b = takeWhile (\<lambda>c. c \<noteq> CHR ''/'') (rev p)
      in if CHR ''.'' \<in> set b then CHR ''.'' # rev (takeWhile (\<lambda>c. c \<noteq> CHR ''.'') b) else [])"

definition add_headers :: "frontend \<Rightarrow> string list \<Rightarrow> (web_err \<Rightarrow> unit web) \<Rightarrow> unit web \<Rightarrow> unit web" where
  "add_headers fe hdrs on_error m =
     foldr (\<lambda>h rest. case fe_unmarshal_http fe h of
         Inl e \<Rightarrow> on_error (WOther e)
       | Inr (k, v) \<Rightarrow> bind (write_reply (AddHeader k v)) (\<lambda>_. rest)) hdrs m"

text \<open>Opening the stream for the contents fails if the back end cannot be reached.\<close>

definition open_stream :: "frontend \<Rightarrow> (web_err + unit) web" where
  "open_stream fe = bind next_n (\<lambda>n. ret (case fe_net fe n of Refused e \<Rightarrow> Inl (WStatus e) | _ \<Rightarrow> Inr ()))"

definition pix_handler :: "frontend \<Rightarrow> handler" where
  "pix_handler fe cx r =
     (let md = (case Cookie r pixPwtCookieName of Some v \<Rightarrow> [pixPwtHeaderKey \<mapsto> [v]] | None \<Rightarrow> Map.empty);
          p = path_Base (hr_path r); picFileID = take (length p - length (path_Ext p)) p
      in case picFileFormatTypes (path_Ext p) of
           None \<Rightarrow> httpError (HTTPErr 404 ''Unknown file extension'')
         | Some format \<Rightarrow>
             or_else (cookieToGRPCAuthInterceptor fe cx md (LookupPicFileRequest picFileID format)) httpError (\<lambda>resp.
             case resp of
               LookupPicFileResponse hdrs file \<Rightarrow>
                 add_headers fe hdrs httpError (
                 case ptypes_Timestamp (af_modified file) of
                   Inl e \<Rightarrow> httpError (WOther e)
                 | Inr mtime \<Rightarrow>
                     or_else (open_stream fe) httpError (\<lambda>_.
                       write_reply (ServeContent p mtime
                         \<lparr>pf_id = af_id file, pf_format = af_format file, pf_size = af_size file, pf_offset = 0\<rparr>)))
             | _ \<Rightarrow> panic ''wrong response''))"

text \<open>\<open>Seek\<close> and \<open>Read\<close>, given the answer to the request on the stream. \<open>io.EOF\<close> is not an error.\<close>

datatype whence = SEEK_SET | SEEK_CUR | SEEK_END | SEEK_other

definition pixurFile_Seek :: "pixurFile \<Rightarrow> int \<Rightarrow> whence \<Rightarrow> (gerr + int) \<times> pixurFile" where
  "pixurFile_Seek f offset whence =
     (case whence of
        SEEK_SET \<Rightarrow> (Inr offset, f\<lparr>pf_offset := offset\<rparr>)
      | SEEK_CUR \<Rightarrow> (Inr (pf_offset f + offset), f\<lparr>pf_offset := pf_offset f + offset\<rparr>)
      | SEEK_END \<Rightarrow> (Inr (offset + pf_size f), f\<lparr>pf_offset := offset + pf_size f\<rparr>)
      | SEEK_other \<Rightarrow> (Inl (EOther ''invalid argument''), f))"

definition pixurFile_request :: "pixurFile \<Rightarrow> nat \<Rightarrow> read_request" where
  "pixurFile_request f len = \<lparr>rq_pic_file_id = pf_id f, rq_format = pf_format f, rq_offset = pf_offset f,
     rq_limit = int len\<rparr>"

definition pixurFile_Read :: "pixurFile \<Rightarrow> nat \<Rightarrow> gerr + read_response \<Rightarrow> (gerr + string \<times> bool) \<times> pixurFile" where
  "pixurFile_Read f len answer =
     (case answer of
        Inl e \<Rightarrow> (Inl e, f)
      | Inr resp \<Rightarrow>
          let data = take len (rs_data resp)
          in (Inr (data, rs_eof resp), f\<lparr>pf_offset := pf_offset f + int (length data)\<rparr>))"

subsection \<open>Who answers (root.go and the registrations)\<close>

definition not_found :: "frontend \<Rightarrow> handler" where
  "not_found fe cx r = httpReadError fe cx (HTTPErr 404 ''Not found'')"

definition get_page :: "frontend \<Rightarrow> handler \<Rightarrow> handler" where
  "get_page fe h = methodHandler (Some (readHandler fe h)) None"

definition rootHandler :: "frontend \<Rightarrow> handler" where
  "rootHandler fe cx r =
     (let relpath = TrimPrefix (hr_path r) (ln_path (Root (fe_root fe)))
      in if relpath = [] then get_page fe (index_static fe) cx r
         else if path_Base relpath = relpath then
           (if CHR ''.'' \<in> set relpath then methodHandler (Some (pix_handler fe)) None cx r
            else get_page fe (viewer_static fe) cx r)
         else let eh = readHandler fe (not_found fe) in methodHandler (Some eh) (Some eh) cx r)"

definition routes :: "frontend \<Rightarrow> (string \<times> handler) list" where
  "routes fe =
     (let pt = fe_root fe; ldh = readHandler fe (loginDisplay fe); lahw = actionHandler (loginAction fe ldh)
      in [(ln_path (CommentLink pt), comment_page fe),
          (ln_path (Login pt), methodHandler (Some ldh) None),
          (ln_path (Logout pt), methodHandler (Some ldh) None),
          (ln_path (LoginAction pt), methodHandler None (Some lahw)),
          (ln_path (CreateUserAction pt), methodHandler None (Some (actionHandler (createUser fe ldh lahw)))),
          (ln_path (Root pt), rootHandler fe),
          (ln_path (UpsertPicAction pt), actionHandler (upsert fe)),
          (ln_path (UserEdit pt []), readHandler fe (user_static fe)),
          (ln_path (UserEvents pt [] [] False), readHandler fe (userEvents fe)),
          (ln_path (UpdateUserAction pt), actionHandler (useredit fe)),
          (ln_path (VoteAction pt), actionHandler (viewer_vote fe)),
          (ln_path (SoftDeletePicAction pt), actionHandler (viewer_softdelete fe))])"

text \<open>
  \<open>http.ServeMux\<close>: the handler of a path, or of the longest pattern that ends in a slash and that the path starts
  with. Paths that are not clean are redirected and not modelled.
\<close>

definition subtree_of :: "string \<Rightarrow> string \<times> handler \<Rightarrow> bool" where
  "subtree_of path ph \<longleftrightarrow> fst ph \<noteq> [] \<and> last (fst ph) = CHR ''/'' \<and> has_prefix path (fst ph)"

definition mux :: "(string \<times> handler) list \<Rightarrow> handler" where
  "mux rs cx r =
     (case map_of rs (hr_path r) of
        Some h \<Rightarrow> h cx r
      | None \<Rightarrow>
          (case filter (subtree_of (hr_path r)) (rev (sort_key (length \<circ> fst) rs)) of
             ph # _ \<Rightarrow> snd ph cx r
           | [] \<Rightarrow> write_reply (ErrorText ''404 page not found'' 404)))"

definition ServeHTTP :: "frontend \<Rightarrow> http_req \<Rightarrow> unit web" where
  "ServeHTTP fe r = mux (routes fe) Background r"

text \<open>Requests one after the other; the HTTP server recovers from a panic of a handler.\<close>

fun browse :: "(frontend \<times> http_req) list \<Rightarrow> site \<Rightarrow> site" where
  "browse [] s = s"
| "browse ((fe, r) # rs) s = browse rs (snd (ServeHTTP fe r s))"

end
