(* ===== verification/WebFacts.thy ===== *)
theory WebFacts
  imports WebHandlers ServeRuns
begin

section \<open>What pages and actions do\<close>

text \<open>
  The front end acts on the back end through calls of the service only. \<open>calls_within P\<close>: the world afterwards
  is what serving the calls made in between leaves, and all of these calls satisfy \<open>P\<close>. It is a frame condition,
  so it passes from the client to the handlers, for every \<open>P\<close> that holds of the requests they send.
\<close>

subsection \<open>Requests that read or count a view\<close>

text \<open>Two databases that differ in times of visits, in the counts of views and, with these, in the times
  of the last change of pictures only.\<close>

definition erase_count :: "pic \<Rightarrow> pic" where
  "erase_count p = p\<lparr>p_views := 0, p_modified := None\<rparr>"

definition views_only :: "database \<Rightarrow> database \<Rightarrow> bool" where
  "views_only d d' \<longleftrightarrow> same_rows (d\<lparr>db_users := [], db_pics := []\<rparr>) (d'\<lparr>db_users := [], db_pics := []\<rparr>) \<and>
     map erase_seen (msgs (db_users d')) = map erase_seen (msgs (db_users d)) \<and>
     map erase_count (msgs (db_pics d')) = map erase_count (msgs (db_pics d))"

lemma visit_views: "visit_only d d' \<Longrightarrow> views_only d d'"
  by (simp add: visit_only_def views_only_def same_rows_def)

lemma views_only_trans: "views_only a b \<Longrightarrow> views_only b c \<Longrightarrow> views_only a c"
  by (auto simp: views_only_def same_rows_def)

lemma count_views_only:
  assumes "pic_changed d d' p'" "the_pic d i p" "p_id p' = i" "erase_count p' = erase_count p"
  shows "views_only d d'"
proof -
  have "erase_count (if p_id q = p_id p' then p' else q) = erase_count q" if "q \<in> set (msgs (db_pics d))" for q
  proof (cases "p_id q = i")
    case True
    then have "q \<in> set (filter (\<lambda>q. p_id q = i) (msgs (db_pics d)))" using that by simp
    then have "q = p" unfolding assms(2) [unfolded the_pic_def] by simp
    then show ?thesis using assms(4) by simp
  qed (simp add: assms(3))
  then have "map erase_count (msgs (db_pics d')) = map erase_count (msgs (db_pics d))"
    using assms(1) by (simp add: pic_changed_def)
  moreover obtain ps where "d' = d\<lparr>db_pics := ps\<rparr>" using assms(1) unfolding pic_changed_def by blast
  ultimately show ?thesis by (simp add: views_only_def same_rows_def)
qed

definition keeps_views :: "world \<Rightarrow> world \<Rightarrow> bool" where
  "keeps_views w w' \<longleftrightarrow> w_env w' = w_env w \<and>
     (fits w \<and> idle w \<and> sure_commit (w_env w) \<longrightarrow> fits w' \<and> idle w' \<and> views_only (w_db w) (w_db w'))"

interpretation views: frame keeps_views
  by unfold_locales (auto simp: keeps_views_def visit_views intro: views_only_trans)

lemma visits_keep_views: "keeps keeps_visits m \<Longrightarrow> keeps keeps_views m"
  by (auto simp: keeps_def keeps_visits_def keeps_views_def intro: visit_views)

lemma increment_body_runs:
  assumes "increment_body cx now i u w = (r, w')" "job_at ev d d w" "sure_commit ev"
  shows "views_only d (w_db w')"
proof -
  have w: "w_db w = d" "w_env w = ev" using assms(2) by (simp_all add: job_at_def)
  have "commits_or_not (increment_body cx now i u)"
    unfolding increment_body_def
    by (intro commits_or_not_bind commits_or_not_Commit task_frames writable_pic_frames)
  from commits_or_notD [OF this assms(1)] w assms(3) consider "w_db w' = d" | "r = Ok ()" by auto
  then show ?thesis
  proof cases
    case 2
    obtain p p' where s: "the_pic d i p" "count_view now p = Ok p'" "pic_changed d (w_db w') p'"
      using assms(1) [unfolded 2 increment_body_def]
      by (rule update_task_steps [OF _ assms(2)]) (auto dest: count_view_Ok intro: base_ops)
    show ?thesis
      using count_views_only [OF s(3,1)] count_view_Ok [OF s(2)] the_pic_id [OF s(1)] by (auto simp: erase_count_def)
  qed (simp add: visit_views)
qed

lemma IncrementViewCountTask_views: "keeps keeps_views (IncrementViewCountTask cx now i)"
proof (rule keepsI)
  fix w r w'
  assume run: "IncrementViewCountTask cx now i w = (r, w')"
  then have run': "bind (authedJobInternal cx now False) (\<lambda>u. revert (increment_body cx now i u)) w = (r, w')"
    by (simp add: IncrementViewCountTask_def authedJob_def)
  have "keeps_whole w w'" by (rule keepsD [OF increment.keeps_whole_task run'])
  moreover have "views_only (w_db w) (w_db w')" if "fits w" "idle w" "sure_commit (w_env w)"
    using run' that(1,2)
  proof (cases rule: increment.runs)
    case (go su w1 r1 w2)
    from increment_body_runs [OF go(3,1) that(3)] go(2,4) show ?thesis
      using visit_views views_only_trans by metis
  qed (rule visit_views)
  ultimately show "keeps_views w w'" by (auto simp: keeps_views_def keeps_whole_def)
qed

fun harmless :: "request \<Rightarrow> bool" where
  "harmless (IncrementViewCountRequest i) = True"
| "harmless req = reads_only req"

lemma harmless_cases: "harmless req \<longleftrightarrow> reads_only req \<or> (\<exists>i. req = IncrementViewCountRequest i)"
  by (cases req) simp_all

lemma serve_views:
  assumes "harmless req"
  shows "keeps keeps_views (serve sv rc req)"
proof (cases "reads_only req")
  case False
  then obtain i where req: "req = IncrementViewCountRequest i" using assms harmless_cases by blast
  show ?thesis unfolding req serve_def intercept_def dispatch_def handleIncrementViewCount_def
    by (auto intro!: keeps_on_the_wire views.keeps_bind views.keeps_ret views.keeps_lift_res
        visits_keep_views [OF optional_id_visits] keeps_runner [OF views.frame_axioms] IncrementViewCountTask_views)
qed (intro visits_keep_views serve_reads)

lemma serve_all_views:
  "list_all (\<lambda>(sv, rc, req). harmless req) cs \<Longrightarrow> keeps_views w (snd (serve_all cs w))"
proof (induction cs arbitrary: w)
  case (Cons c cs)
  obtain sv rc req where c: "c = (sv, rc, req)" by (cases c)
  obtain r w1 where s: "serve sv rc req w = (r, w1)" by fastforce
  have "keeps_views w w1" by (rule keepsD [OF serve_views s]) (use Cons.prems c in simp)
  moreover have "keeps_views w1 (snd (serve_all cs w1))" using Cons by (simp add: c)
  ultimately show ?case by (simp add: c s split_beta views.trans)
qed (simp add: views.refl)

subsection \<open>Calls\<close>

definition calls_within :: "(request \<Rightarrow> bool) \<Rightarrow> site \<Rightarrow> site \<Rightarrow> bool" where
  "calls_within P s s' \<longleftrightarrow> (\<exists>cs. st_calls s' = st_calls s @ cs \<and>
     st_world s' = snd (serve_all cs (st_world s)) \<and> list_all (\<lambda>(sv, rc, req). P req) cs)"

lemma serve_all_append: "snd (serve_all (cs @ ds) w) = snd (serve_all ds (snd (serve_all cs w)))"
  by (induction cs arbitrary: w) (auto simp: split_beta Let_def)

lemma frame_calls: "frame (calls_within P)"
proof
  fix a b c
  assume "calls_within P a b" "calls_within P b c"
  then obtain cs ds where "st_calls b = st_calls a @ cs" "st_world b = snd (serve_all cs (st_world a))"
    "list_all (\<lambda>(sv, rc, req). P req) cs" "st_calls c = st_calls b @ ds"
    "st_world c = snd (serve_all ds (st_world b))" "list_all (\<lambda>(sv, rc, req). P req) ds"
    unfolding calls_within_def by blast
  then show "calls_within P a c"
    unfolding calls_within_def by (intro exI [of _ "cs @ ds"]) (simp add: serve_all_append)
qed (simp add: calls_within_def)

text \<open>Pages only read, and count views.\<close>

locale page_client =
  fixes P :: "request \<Rightarrow> bool"
  assumes reads: "reads_only req \<Longrightarrow> P req"
    and views: "P (IncrementViewCountRequest i)"
begin

lemma frame: "frame (calls_within P)"
  by (rule frame_calls)

lemmas calls_intros = frame.keeps_intros [OF frame]

lemma same_back_end:
  "(\<And>s. st_calls (snd (m s)) = st_calls s \<and> st_world (snd (m s)) = st_world s) \<Longrightarrow> keeps (calls_within P) m"
  by (simp add: keeps_def calls_within_def)

lemma keeps_next_n: "keeps (calls_within P) next_n"
  by (rule same_back_end) (simp add: next_n_def)

lemma keeps_write_reply: "keeps (calls_within P) (write_reply r)"
  by (rule same_back_end) (simp add: write_reply_def run_simps)

lemma keeps_invoke:
  assumes "P req"
  shows "keeps (calls_within P) (invoke fe md req)"
proof (rule keepsI)
  fix s r s'
  assume run: "invoke fe md req s = (r, s')"
  let ?sv = "fe_server fe (st_n s)"
  let ?rc = "\<lparr>rc_cx = fe_cx fe (st_n s), rc_auth = None, rc_md = Some md\<rparr>"
  obtain a w where sv: "serve ?sv ?rc req (st_world s) = (a, w)" by fastforce
  have "st_calls s' = st_calls s \<and> st_world s' = st_world s \<or>
      st_calls s' = st_calls s @ [(?sv, ?rc, req)] \<and> st_world s' = w"
    using run by (auto simp: invoke_def Let_def sv split: net.splits)
  then show "calls_within P s s'"
  proof
    assume "st_calls s' = st_calls s @ [(?sv, ?rc, req)] \<and> st_world s' = w"
    then show ?thesis unfolding calls_within_def
      by (intro exI [of _ "[(?sv, ?rc, req)]"]) (simp add: sv assms)
  qed (simp add: calls_within_def)
qed

lemma keeps_interceptor: "P req \<Longrightarrow> keeps (calls_within P) (cookieToGRPCAuthInterceptor fe cx md req)"
  unfolding cookieToGRPCAuthInterceptor_def by (rule keeps_invoke)

lemma keeps_client: "P req \<Longrightarrow> keeps (calls_within P) (client fe cx req pick)"
  unfolding client_def by (auto intro!: calls_intros keeps_interceptor split: sum.splits option.splits)

lemma keeps_or_else:
  "keeps (calls_within P) m \<Longrightarrow> (\<And>e. keeps (calls_within P) (on_error e)) \<Longrightarrow> (\<And>x. keeps (calls_within P) (f x)) \<Longrightarrow>
    keeps (calls_within P) (or_else m on_error f)"
  unfolding or_else_def by (auto intro!: calls_intros split: sum.splits)

lemma keeps_or_stop:
  "(\<And>e. keeps (calls_within P) (on_error e)) \<Longrightarrow> keeps (calls_within P) m \<Longrightarrow>
    keeps (calls_within P) (or_stop e on_error m)"
  by (simp add: or_stop_def split: option.splits)

lemma keeps_errors:
  "keeps (calls_within P) (httpErrorHeaderAndLog e)" "keeps (calls_within P) (httpWriteError e)"
  "keeps (calls_within P) (httpCleanupError e)" "keeps (calls_within P) (httpError e)"
  by (simp_all add: httpErrorHeaderAndLog_def httpWriteError_def httpCleanupError_def httpError_def keeps_write_reply)

lemma keeps_execute: "keeps (calls_within P) (execute fe p)"
  unfolding execute_def by (intro calls_intros keeps_next_n keeps_write_reply)

lemma keeps_httpReadError: "keeps (calls_within P) (httpReadError fe cx e)"
  unfolding httpReadError_def by (intro calls_intros keeps_errors keeps_execute)

lemma keeps_render: "(\<And>e. keeps (calls_within P) (on_error e)) \<Longrightarrow> keeps (calls_within P) (render fe on_error p)"
  unfolding render_def by (auto intro!: calls_intros keeps_execute split: option.splits)

lemma keeps_set_cookies: "keeps (calls_within P) (set_cookies cs)"
  unfolding set_cookies_def by (intro calls_intros keeps_write_reply)

lemma keeps_fail_write:
  "(\<And>cx r. keeps (calls_within P) (display cx r)) \<Longrightarrow> keeps (calls_within P) (fail_write display cx r e)"
  unfolding fail_write_def by (intro calls_intros keeps_errors)

lemma keeps_methodHandler:
  "(\<And>h. get = Some h \<Longrightarrow> keeps (calls_within P) (h cx r)) \<Longrightarrow> (\<And>h. post = Some h \<Longrightarrow> keeps (calls_within P) (h cx r)) \<Longrightarrow>
    keeps (calls_within P) (methodHandler get post cx r)"
  by (auto simp: methodHandler_def keeps_errors split: option.splits)

text \<open>A redirect or a page after a call, whatever the call says.\<close>

lemmas keeps_web = calls_intros keeps_next_n keeps_write_reply keeps_or_else keeps_or_stop keeps_errors
  keeps_execute keeps_httpReadError keeps_render keeps_set_cookies keeps_fail_write

subsubsection \<open>Pages\<close>

lemma keeps_lookup_infos: "keeps (calls_within P) (lookup_infos fe cx cs)"
proof (induction cs)
  case (Cons c cs)
  then show ?case by (auto intro!: keeps_web keeps_client reads split: option.splits)
qed (simp add: calls_intros)

lemma keeps_viewer: "keeps (calls_within P) (viewer_static fe cx r)"
  unfolding viewer_static_def public_infos_def own_vote_def Let_def
  by (auto intro!: keeps_web keeps_client keeps_lookup_infos reads views split: option.splits)

lemma keeps_index: "keeps (calls_within P) (index_static fe cx r)"
  unfolding index_static_def Let_def by (auto intro!: keeps_web keeps_client reads split: prod.splits)

lemma keeps_commentDisplay: "keeps (calls_within P) (commentDisplay fe cx r)"
  unfolding commentDisplay_def Let_def by (auto intro!: keeps_web keeps_client reads split: option.splits)

lemma keeps_userEvents: "keeps (calls_within P) (userEvents fe cx r)"
  unfolding userEvents_def Let_def by (auto intro!: keeps_web keeps_client reads split: prod.splits)

lemma keeps_user_static: "keeps (calls_within P) (user_static fe cx r)"
  unfolding user_static_def object_user_def
  by (auto intro!: keeps_web keeps_client reads split: sum.splits option.splits)

lemma keeps_loginDisplay: "keeps (calls_within P) (loginDisplay fe cx r)"
  unfolding loginDisplay_def by (intro keeps_web)

lemma keeps_not_found: "keeps (calls_within P) (not_found fe cx r)"
  unfolding not_found_def by (intro keeps_web)

lemma keeps_pix: "keeps (calls_within P) (pix_handler fe cx r)"
proof -
  have headers: "keeps (calls_within P) (add_headers fe hs httpError m)" if "keeps (calls_within P) m" for hs m
    unfolding add_headers_def using that
    by (induction hs) (auto intro!: keeps_web split: sum.splits)
  show ?thesis unfolding pix_handler_def open_stream_def Let_def
    by (auto intro!: keeps_web keeps_interceptor headers reads split: option.splits sum.splits response.splits)
qed

lemma keeps_readHandler:
  assumes "\<And>cx. keeps (calls_within P) (h cx r)"
  shows "keeps (calls_within P) (readHandler fe h cx r)"
proof -
  have subject: "keeps (calls_within P) (with_subject fe cx)" for cx
    unfolding with_subject_def lookup_self_def by (auto intro!: keeps_web keeps_client reads)
  have xsrf: "keeps (calls_within P) (with_xsrf fe cx r)" for cx
    unfolding with_xsrf_def by (auto intro!: keeps_web split: option.splits sum.splits)
  show ?thesis unfolding readHandler_def by (intro keeps_web subject xsrf assms)
qed

lemmas keeps_pages = keeps_readHandler keeps_viewer keeps_index keeps_commentDisplay keeps_userEvents
  keeps_user_static keeps_loginDisplay keeps_not_found keeps_pix

lemma keeps_rootHandler: "keeps (calls_within P) (rootHandler fe cx r)"
  unfolding rootHandler_def get_page_def Let_def by (auto intro!: keeps_methodHandler keeps_pages)

end

subsubsection \<open>Actions\<close>

locale action_client = page_client +
  assumes acts: "P req"
begin

lemma keeps_actionHandler: "(\<And>cx. keeps (calls_within P) (h cx r)) \<Longrightarrow> keeps (calls_within P) (actionHandler h cx r)"
  unfolding actionHandler_def by (auto intro: keeps_errors split: sum.splits)

lemma keeps_addPicComment:
  "(\<And>cx r. keeps (calls_within P) (display cx r)) \<Longrightarrow> keeps (calls_within P) (addPicComment fe display cx r)"
  unfolding addPicComment_def by (intro keeps_web keeps_client acts)

lemma keeps_vote: "keeps (calls_within P) (viewer_vote fe cx r)"
  unfolding viewer_vote_def by (auto intro!: keeps_web keeps_client acts split: sum.splits)

lemma keeps_softdelete: "keeps (calls_within P) (viewer_softdelete fe cx r)"
  unfolding viewer_softdelete_def by (auto intro!: keeps_web keeps_client acts split: sum.splits)

lemma keeps_upsert: "keeps (calls_within P) (upsert fe cx r)"
  unfolding upsert_def upsert_with_def Let_def
  by (auto intro!: keeps_web keeps_client acts split: sum.splits form_file.splits)

lemma keeps_useredit: "keeps (calls_within P) (useredit fe cx r)"
  unfolding useredit_def by (auto intro!: keeps_web keeps_client acts split: sum.splits prod.splits)

lemma keeps_loginAction:
  assumes "\<And>cx r. keeps (calls_within P) (display cx r)"
  shows "keeps (calls_within P) (loginAction fe display cx r)"
proof -
  have "keeps (calls_within P) (refresh0 fe display cx r res)" for res
    unfolding refresh0_def by (auto intro!: keeps_web assms split: sum.splits)
  then show ?thesis unfolding loginAction_def login_def logout_def Let_def
    by (auto intro!: keeps_web keeps_client acts assms)
qed

lemma keeps_createUser:
  "(\<And>cx r. keeps (calls_within P) (display cx r)) \<Longrightarrow> (\<And>cx r. keeps (calls_within P) (login' cx r)) \<Longrightarrow>
    keeps (calls_within P) (createUser fe display login' cx r)"
  unfolding createUser_def by (intro keeps_web keeps_client acts)

lemmas keeps_actions = keeps_actionHandler keeps_addPicComment keeps_vote keeps_softdelete keeps_upsert
  keeps_useredit keeps_loginAction keeps_createUser

end

subsection \<open>The two clients\<close>

interpretation page: page_client harmless
  by unfold_locales (simp_all add: harmless_cases)

interpretation site: action_client "\<lambda>req. True"
  by unfold_locales simp_all

lemma keeps_mux:
  assumes "\<And>p h. (p, h) \<in> set rs \<Longrightarrow> keeps (calls_within P) (h cx r)"
    "\<And>x. keeps (calls_within P) (write_reply x)"
  shows "keeps (calls_within P) (mux rs cx r)"
proof (cases "map_of rs (hr_path r)")
  case None
  show ?thesis
  proof (cases "filter (subtree_of (hr_path r)) (rev (sort_key (length \<circ> fst) rs))")
    case (Cons ph phs)
    then have "ph \<in> set (filter (subtree_of (hr_path r)) (rev (sort_key (length \<circ> fst) rs)))" by simp
    then have "ph \<in> set rs" by simp
    then have "keeps (calls_within P) (snd ph cx r)" using assms(1) by (metis prod.collapse)
    then show ?thesis using Cons None by (simp add: mux_def)
  qed (simp add: mux_def None assms(2))
next
  case (Some h)
  then show ?thesis using assms(1) by (auto simp: mux_def dest: map_of_SomeD)
qed

definition matching_xsrf :: "http_req \<Rightarrow> bool" where
  "matching_xsrf r \<longleftrightarrow> (\<exists>c. Cookie r pr_XsrfCookie = Some c \<and> length c = b64XsrfTokenLength \<and> PostFormValue r pr_Xsrf = c)"

lemma incoming_xsrf_matching: "incoming_xsrf Background r = Inr t \<Longrightarrow> matching_xsrf r"
  by (auto simp: incoming_xsrf_def incomingXsrfTokensFromReq_def checkXsrfTokens_def matching_xsrf_def
    Background_def split: option.splits if_splits)

text \<open>A request with matching tokens passes, with what it carries.\<close>

lemma matching_action:
  assumes "Cookie r pr_XsrfCookie = Some t" "length t = b64XsrfTokenLength" "PostFormValue r pr_Xsrf = t"
  shows "actionHandler h Background r = h (with_auth (Background\<lparr>wx_xsrf_out := Some t\<rparr>) r) r"
  using assms by (simp add: actionHandler_def incoming_xsrf_def Background_def incomingXsrfTokensFromReq_def
      checkXsrfTokens_def)

lemma forged_action:
  assumes "\<not> matching_xsrf r"
  shows "keeps (calls_within harmless) (actionHandler h Background r)"
proof (cases "incoming_xsrf Background r")
  case (Inr t)
  then show ?thesis using incoming_xsrf_matching assms by blast
qed (simp add: actionHandler_def page.keeps_errors)

lemma routes_keep:
  assumes "(p, h) \<in> set (routes fe)"
  shows "keeps (calls_within (\<lambda>req. True)) (h cx r)"
proof -
  have display: "keeps (calls_within (\<lambda>req. True)) (readHandler fe (loginDisplay fe) cx r)" for cx r
    by (intro site.keeps_pages)
  have cdh: "keeps (calls_within (\<lambda>req. True)) (readHandler fe (commentDisplay fe) cx r)" for cx r
    by (intro site.keeps_pages)
  show ?thesis using assms unfolding routes_def comment_page_def Let_def
    by (auto intro!: site.keeps_methodHandler site.keeps_rootHandler site.keeps_actions site.keeps_pages display cdh)
qed

lemma routes_forged:
  assumes "(p, h) \<in> set (routes fe)" "\<not> matching_xsrf r"
  shows "keeps (calls_within harmless) (h Background r)"
  using assms(1) unfolding routes_def comment_page_def Let_def
  by (auto intro!: page.keeps_methodHandler page.keeps_rootHandler forged_action [OF assms(2)] page.keeps_pages)

lemma ServeHTTP_calls: "keeps (calls_within (\<lambda>req. True)) (ServeHTTP fe r)"
  unfolding ServeHTTP_def by (rule keeps_mux [OF routes_keep site.keeps_write_reply])

lemma ServeHTTP_forged: "\<not> matching_xsrf r \<Longrightarrow> keeps (calls_within harmless) (ServeHTTP fe r)"
  unfolding ServeHTTP_def by (rule keeps_mux [OF routes_forged page.keeps_write_reply])

lemma browse_calls: "calls_within (\<lambda>req. True) s (browse rs s)"
proof (induction rs arbitrary: s)
  case Nil
  show ?case using frame.refl [OF frame_calls] by simp
next
  case (Cons fr rs)
  obtain fe r where fr: "fr = (fe, r)" by fastforce
  have "calls_within (\<lambda>req. True) s (snd (ServeHTTP fe r s))" using ServeHTTP_calls by (simp add: keeps_def)
  from frame.trans [OF frame_calls this Cons.IH] show ?case by (simp add: fr)
qed

subsection \<open>Comments on their way to a page\<close>

text \<open>
  The back end sends the comments of a picture with replies before what they reply to; the viewer puts them
  together again by the ids of their parents. \<open>shown\<close> is a thread as the page has it.
\<close>

fun post :: "comment_tree \<Rightarrow> pic_comment list" where
  "post (CommentTree c ts) = concat (map post ts) @ [c]"

fun linked :: "int \<Rightarrow> comment_tree \<Rightarrow> bool" where
  "linked p (CommentTree c ts) \<longleftrightarrow> pc_parent c = p \<and> (\<forall>t \<in> set ts. linked (pc_id c) t)"

definition api_of :: "pic_comment \<Rightarrow> api_comment" where
  "api_of c = (case apiPicComment c of Ok a \<Rightarrow> a | _ \<Rightarrow> blank_comment [])"

definition name_of :: "(string \<rightharpoonup> api_public_user) \<Rightarrow> pic_comment \<Rightarrow> string \<times> string" where
  "name_of puis c = (case named puis (ac_user (api_of c)) of Ok n \<Rightarrow> n | _ \<Rightarrow> ([], []))"

fun shown :: "(string \<rightharpoonup> api_public_user) \<Rightarrow> string \<Rightarrow> comment_tree \<Rightarrow> picComment" where
  "shown puis x (CommentTree c ts) =
     PicComment (api_of c) (fst (name_of puis c)) (snd (name_of puis c)) x (map (shown puis x) ts)"

definition showable :: "(string \<rightharpoonup> api_public_user) \<Rightarrow> pic_comment \<Rightarrow> bool" where
  "showable puis c \<longleftrightarrow> (\<exists>a. apiPicComment c = Ok a) \<and> int64 (pc_id c) \<and>
     (case ac_user (api_of c) of None \<Rightarrow> True | Some u \<Rightarrow> puis u \<noteq> None)"

lemma flatten_post: "flattenPicCommentTree acc t = acc @ post t"
proof (induction t arbitrary: acc)
  case (CommentTree c ts)
  then have "fold (\<lambda>t acc. flattenPicCommentTree acc t) ts acc = acc @ concat (map post ts)"
    by (induction ts arbitrary: acc) auto
  then show ?case by simp
qed

lemma mset_post: "mset (post t) = mset (tree_comments t)"
proof (induction t)
  case (CommentTree c ts)
  then have "mset (concat (map post ts)) = mset (concat (map tree_comments ts))"
    by (induction ts) auto
  then show ?case by simp
qed

lemma thread_linked: "linked (pc_parent c) (thread n pcs c)"
proof (induction n arbitrary: c)
  case (Suc n)
  then show ?case by (auto simp: replies_def) (metis)
qed simp

lemma api_of_keys:
  assumes "showable puis c"
  shows "apiPicComment c = Ok (api_of c)" "ac_id (api_of c) = EncodeVarint (pc_id c)"
    "ac_parent (api_of c) = EncodeVarint (pc_parent c)"
    "named puis (ac_user (api_of c)) = Ok (name_of puis c)"
proof -
  obtain a where a: "apiPicComment c = Ok a" using assms by (auto simp: showable_def)
  then have api: "api_of c = a" by (simp add: api_of_def)
  show "apiPicComment c = Ok (api_of c)" by (simp add: a api)
  show "ac_id (api_of c) = EncodeVarint (pc_id c)" "ac_parent (api_of c) = EncodeVarint (pc_parent c)"
    using a by (auto simp: api apiPicComment_def res_map_Ok)
  show "named puis (ac_user (api_of c)) = Ok (name_of puis c)"
    using assms by (auto simp: showable_def name_of_def named_def split: option.splits)
qed

lemma EncodeVarint_eq: "int64 v \<Longrightarrow> int64 w \<Longrightarrow> EncodeVarint v = EncodeVarint w \<longleftrightarrow> v = w"
  using EncodeVarint_prefix_free [of v "[]" w "[]"] by auto

lemma add_comments_append:
  "add_comments puis x (cs @ ds) m = res_bind (add_comments puis x cs m) (add_comments puis x ds)"
proof (induction cs arbitrary: m)
  case (Cons c cs)
  then show ?case by (cases "add_comment puis x c m") simp_all
qed simp

text \<open>The loop over threads with distinct comments adds them, in order, to the replies to their common parent,
  and the replies to what is not in them stay what they are.\<close>

definition ready :: "(string \<rightharpoonup> api_public_user) \<Rightarrow> int \<Rightarrow> pic_comment list \<Rightarrow> child_map \<Rightarrow> bool" where
  "ready puis p cs m \<longleftrightarrow> distinct (map pc_id cs) \<and> p \<notin> pc_id ` set cs \<and> int64 p \<and>
     (\<forall>c \<in> set cs. showable puis c \<and> m (EncodeVarint (pc_id c)) = [])"

definition added :: "(string \<rightharpoonup> api_public_user) \<Rightarrow> string \<Rightarrow> int \<Rightarrow> pic_comment list \<Rightarrow> comment_tree list \<Rightarrow>
    child_map \<Rightarrow> bool" where
  "added puis x p cs ts m \<longleftrightarrow> (\<exists>m'. add_comments puis x (map api_of cs) m = Ok m' \<and>
     m' (EncodeVarint p) = m (EncodeVarint p) @ map (shown puis x) ts \<and>
     (\<forall>i. int64 i \<longrightarrow> i \<notin> pc_id ` set cs \<longrightarrow> i \<noteq> p \<longrightarrow> m' (EncodeVarint i) = m (EncodeVarint i)))"

lemma add_forest:
  assumes "\<And>t m. t \<in> set ts \<Longrightarrow> ready puis p (post t) m \<Longrightarrow> added puis x p (post t) [t] m"
    "ready puis p (concat (map post ts)) m"
  shows "added puis x p (concat (map post ts)) ts m"
  using assms
proof (induction ts arbitrary: m)
  case Nil
  then show ?case by (simp add: added_def)
next
  case (Cons t ts)
  have t: "ready puis p (post t) m" using Cons.prems(2) by (auto simp: ready_def)
  obtain m1 where m1: "add_comments puis x (map api_of (post t)) m = Ok m1"
    "m1 (EncodeVarint p) = m (EncodeVarint p) @ [shown puis x t]"
    "\<And>i. int64 i \<Longrightarrow> i \<notin> pc_id ` set (post t) \<Longrightarrow> i \<noteq> p \<Longrightarrow> m1 (EncodeVarint i) = m (EncodeVarint i)"
    using Cons.prems(1) [OF _ t] unfolding added_def by auto
  have "m1 (EncodeVarint (pc_id c)) = []" if "c \<in> set (concat (map post ts))" for c
  proof -
    have "pc_id c \<notin> pc_id ` set (post t)" "int64 (pc_id c)" "pc_id c \<noteq> p" "m (EncodeVarint (pc_id c)) = []"
      using Cons.prems(2) that by (auto simp: ready_def showable_def)
    then show ?thesis using m1(3) by simp
  qed
  then have "ready puis p (concat (map post ts)) m1" using Cons.prems(2) by (auto simp: ready_def)
  from Cons.IH [OF Cons.prems(1) this] obtain m2 where m2:
    "add_comments puis x (map api_of (concat (map post ts))) m1 = Ok m2"
    "m2 (EncodeVarint p) = m1 (EncodeVarint p) @ map (shown puis x) ts"
    "\<And>i. int64 i \<Longrightarrow> i \<notin> pc_id ` set (concat (map post ts)) \<Longrightarrow> i \<noteq> p \<Longrightarrow> m2 (EncodeVarint i) = m1 (EncodeVarint i)"
    unfolding added_def by auto
  show ?case unfolding added_def
    using m1 m2 by (intro exI [of _ m2]) (simp add: add_comments_append image_Un)
qed

lemma add_tree: "linked p t \<Longrightarrow> ready puis p (post t) m \<Longrightarrow> added puis x p (post t) [t] m"
proof (induction t arbitrary: p m)
  case (CommentTree c ts)
  have c: "showable puis c" "pc_parent c = p" "pc_id c \<noteq> p" "int64 (pc_id c)" "int64 p"
    "m (EncodeVarint (pc_id c)) = []"
    using CommentTree.prems by (auto simp: ready_def showable_def)
  have "ready puis (pc_id c) (concat (map post ts)) m" using CommentTree.prems(2) c by (auto simp: ready_def)
  then have "added puis x (pc_id c) (concat (map post ts)) ts m"
    using CommentTree.prems(1) by (intro add_forest) (auto intro: CommentTree.IH)
  then obtain m1 where m1: "add_comments puis x (map api_of (concat (map post ts))) m = Ok m1"
    "m1 (EncodeVarint (pc_id c)) = map (shown puis x) ts"
    "\<And>i. int64 i \<Longrightarrow> i \<notin> pc_id ` set (concat (map post ts)) \<Longrightarrow> i \<noteq> pc_id c \<Longrightarrow> m1 (EncodeVarint i) = m (EncodeVarint i)"
    using c(6) unfolding added_def by auto
  have p: "m1 (EncodeVarint p) = m (EncodeVarint p)"
    using CommentTree.prems(2) c by (intro m1(3)) (auto simp: ready_def)
  note keys = api_of_keys [OF c(1)]
  have "add_comment puis x (api_of c) m1 =
      Ok (m1(EncodeVarint p := m (EncodeVarint p) @ [shown puis x (CommentTree c ts)]))"
    by (simp add: add_comment_def keys add_child_def p m1(2) c(2) split: prod.splits)
  then show ?case unfolding added_def
    using m1 c(5) by (simp add: add_comments_append EncodeVarint_eq)
qed

lemma EncodeVarint_0: "EncodeVarint 0 = ''0''"
  by (simp add: EncodeVarint_def encode_small sym_0)

subsection \<open>Changing capabilities\<close>

lemma cap_map_of_Inr:
  "cap_map_of b cs m = Inr m' \<longleftrightarrow> m' = m @ map (\<lambda>c. (c, b)) cs \<and> distinct cs \<and> set cs \<inter> fst ` set m = {}"
proof (induction cs arbitrary: m)
  case (Cons c cs)
  show ?case by (auto simp: Cons map_of_eq_None_iff)
qed auto

lemma yes_and_no_Inr:
  "yes_and_no yes no = Inr m \<longleftrightarrow> m = map (\<lambda>c. (c, True)) yes @ map (\<lambda>c. (c, False)) no \<and> distinct (yes @ no)"
proof -
  have "yes_and_no yes no = Inr m \<longleftrightarrow> (\<exists>m0. cap_map_of True yes [] = Inr m0 \<and> cap_map_of False no m0 = Inr m)"
    by (auto simp: yes_and_no_def split: sum.splits)
  also have "\<dots> \<longleftrightarrow> m = map (\<lambda>c. (c, True)) yes @ map (\<lambda>c. (c, False)) no \<and> distinct (yes @ no)"
    by (auto simp: cap_map_of_Inr image_image)
  finally show ?thesis .
qed

text \<open>What the loop returns for a new map whose keys are those of a part of the old one.\<close>

lemma diff_loop_Inr:
  assumes "distinct (map fst old)" "distinct (map fst new)"
  shows "diff_loop old new add remove = Inr (add', remove', left) \<longleftrightarrow>
    fst ` set new \<subseteq> fst ` set old \<and>
    add' = add @ map fst (filter (\<lambda>(c, b). b \<and> map_of old c = Some False) new) \<and>
    remove' = remove @ map fst (filter (\<lambda>(c, b). \<not> b \<and> map_of old c = Some True) new) \<and>
    left = filter (\<lambda>p. fst p \<notin> fst ` set new) old"
  using assms
proof (induction new arbitrary: old add remove)
  case (Cons cb new)
  obtain c b where cb: "cb = (c, b)" by fastforce
  show ?case
  proof (cases "map_of old c")
    case None
    then have "c \<notin> fst ` set old" by (simp add: map_of_eq_None_iff)
    with None show ?thesis by (auto simp: cb)
  next
    case (Some b0)
    let ?old = "filter (\<lambda>p. fst p \<noteq> c) old"
    have dist: "distinct (map fst ?old)" "distinct (map fst new)" "c \<notin> fst ` set new"
      using Cons.prems by (auto simp: cb distinct_map_filter)
    have look: "map_of ?old d = map_of old d" if "d \<noteq> c" for d
      using that by (induction old) auto
    have same: "filter (\<lambda>(d, e). P d e \<and> map_of ?old d = v) new = filter (\<lambda>(d, e). P d e \<and> map_of old d = v) new" for P v
      using dist(3) look by (intro filter_cong) (force simp: image_iff)+
    have sub: "fst ` set new \<subseteq> fst ` set ?old \<longleftrightarrow> fst ` set (cb # new) \<subseteq> fst ` set old"
      using dist(3) Some by (auto simp: cb image_iff dest!: map_of_SomeD) force+
    have left: "filter (\<lambda>p. fst p \<notin> fst ` set new) ?old = filter (\<lambda>p. fst p \<notin> fst ` set (cb # new)) old"
      by (simp add: cb conj_commute)
    show ?thesis
      using Cons.IH [OF dist(1,2)] Some unfolding sub left
      by (simp add: cb same [where P = "\<lambda>d e. e"] same [where P = "\<lambda>d e. \<not> e"] del: filter_filter)
  qed
qed auto

text \<open>The map that the code makes of what is on and what is off.\<close>

abbreviation yes_no :: "int list \<Rightarrow> int list \<Rightarrow> cap_map" where
  "yes_no yes no \<equiv> map (\<lambda>c. (c, True)) yes @ map (\<lambda>c. (c, False)) no"

lemma yes_no_lookup:
  "map_of (yes_no yes no) c = (if c \<in> set yes then Some True else if c \<in> set no then Some False else None)"
proof -
  have "map_of (map (\<lambda>c. (c, b)) cs) c = (if c \<in> set cs then Some b else None)" for b :: bool and cs :: "int list"
    by (induction cs) auto
  then show ?thesis by (simp add: map_add_def)
qed

lemma yes_no_keys: "map fst (yes_no yes no) = yes @ no" "fst ` set (yes_no yes no) = set (yes @ no)"
  by (simp_all add: comp_def image_Un image_image)

lemma yes_no_filter:
  "map fst (filter (\<lambda>(c, b). b \<and> P c) (yes_no yes no)) = filter P yes"
  "map fst (filter (\<lambda>(c, b). \<not> b \<and> P c) (yes_no yes no)) = filter P no"
  by (simp_all add: filter_map comp_def)

lemma diffcaps_Inr:
  "diffcaps oldyes oldno newyes newno = Inr (add, remove) \<longleftrightarrow>
     distinct (oldyes @ oldno) \<and> distinct (newyes @ newno) \<and>
     diff_loop (yes_no oldyes oldno) (yes_no newyes newno) [] [] = Inr (add, remove, [])"
proof -
  have "\<not> distinct (yes @ no)" if "yes_and_no yes no = Inl e" for yes no e
    using that yes_and_no_Inr [of yes no "yes_no yes no"] by auto
  then show ?thesis by (auto simp: diffcaps_def yes_and_no_Inr split: sum.splits if_splits)
qed

text \<open>The page of a picture is lost in a panic if a comment has a user whose data the viewer may not read, for the
  code reads the fields of a nil pointer.\<close>

lemma add_comments_unknown:
  "c \<in> set cs \<Longrightarrow> ac_user c = Some u \<Longrightarrow> puis u = None \<Longrightarrow> add_comments puis x cs m = Panic ''nil pointer dereference''"
proof (induction cs arbitrary: m)
  case (Cons d cs)
  have "named puis (ac_user d) = Panic ''nil pointer dereference'' \<or> (\<exists>n. named puis (ac_user d) = Ok n)"
    by (auto simp: named_def split: option.splits)
  then show ?case
  proof
    assume "\<exists>n. named puis (ac_user d) = Ok n"
    then obtain n where n: "named puis (ac_user d) = Ok n" by blast
    then have "d \<noteq> c" using Cons.prems by (auto simp: named_def)
    then show ?thesis using Cons n by (simp add: add_comment_def)
  qed (simp add: add_comment_def)
qed simp

theorem viewer_panics_on_unknown_user:
  assumes "\<not> hasCap fe cx USER_READ_PUBLIC" "\<not> hasCap fe cx USER_READ_ALL" "c \<in> set cs" "ac_user c = Some u"
  shows "bind (public_infos fe cx cs) (\<lambda>puis. lift_res (comment_root puis x picId cs)) s =
    (Panic ''nil pointer dereference'', s)"
  using assms by (simp add: public_infos_def comment_root_def add_comments_unknown run_simps)

text \<open>So is the page of a user for somebody who is not signed in.\<close>

theorem user_page_panics_when_signed_out:
  assumes "wx_subject cx = None" "hr_form_err r = None"
  shows "fst (user_static fe cx r s) = Panic ''nil pointer dereference''"
  using assms by (simp add: user_static_def or_stop_def or_else_def subjectUserFromCtx_def object_user_def
      bind_def run_simps)

subsection \<open>The properties\<close>




text \<open>C28. The form with a user's capabilities asks for exactly the difference: it is accepted if and only if the old and the
  new values name the same capabilities, each once, and then the ones to set are those that were
  off and shall be on, and the ones to clear are those that were on and shall be off.\<close>

theorem diffcaps_difference:
  "diffcaps oldyes oldno newyes newno = Inr (add, remove) \<longleftrightarrow>
     distinct (oldyes @ oldno) \<and> distinct (newyes @ newno) \<and> set (newyes @ newno) = set (oldyes @ oldno) \<and>
     add = filter (\<lambda>c. c \<in> set oldno) newyes \<and> remove = filter (\<lambda>c. c \<in> set oldyes) newno"
proof (cases "distinct (oldyes @ oldno) \<and> distinct (newyes @ newno)")
  case True
  let ?old = "yes_no oldyes oldno" and ?new = "yes_no newyes newno"
  have "map_of ?old c = Some True \<longleftrightarrow> c \<in> set oldyes" "map_of ?old c = Some False \<longleftrightarrow> c \<in> set oldno" for c
    using True unfolding yes_no_lookup by auto
  moreover have "[] = filter (\<lambda>p. fst p \<notin> fst ` set ?new) ?old \<longleftrightarrow> set (oldyes @ oldno) \<subseteq> set (newyes @ newno)"
    by (auto simp: filter_empty_conv image_Un image_image)
  ultimately show ?thesis
    using diff_loop_Inr [of ?old ?new "[]" "[]" add remove "[]"] True
    unfolding diffcaps_Inr yes_no_keys yes_no_filter by auto
qed (unfold diffcaps_Inr, blast)

subsection \<open>The site at the small database\<close>

definition demo_frontend :: frontend where
  "demo_frontend = \<lparr>fe_root = None, fe_secure = True, fe_site_name = ''Pixur'', fe_conf = Inl (WOther (EOther ''no configuration'')),
     fe_now = (\<lambda>n. now0), fe_random = (\<lambda>n. Inr ''random''), fe_net = (\<lambda>n. Delivered), fe_server = (\<lambda>n. demo_server),
     fe_cx = (\<lambda>n. as_alice), fe_execute = (\<lambda>n p. None), fe_reparse = Inr, fe_collate = (\<lambda>ts. ts),
     fe_unmarshal_http = (\<lambda>h. Inl (EOther ''no header''))\<rparr>"

definition demo_site :: site where
  "demo_site = \<lparr>st_world = demo, st_calls = [], st_reply = [], st_n = 0\<rparr>"

text \<open>A vote that another site posts: the form has a token, but the cookie has another one.\<close>

definition forged_vote :: http_req where
  "forged_vote = \<lparr>hr_method = ''POST'', hr_path = ''/a/picvote'',
     hr_cookies = [(pr_XsrfCookie, ''AAAAAAAAAAAAAAAAAAAAAAAA''), (authPwtCookieName, ''token'')],
     hr_post = [(pr_PicId, [''3'']), (pr_Vote, [''UP'']), (pr_Xsrf, [''BBBBBBBBBBBBBBBBBBBBBBBB''])],
     hr_form = [(pr_PicId, [''3'']), (pr_Vote, [''UP'']), (pr_Xsrf, [''BBBBBBBBBBBBBBBBBBBBBBBB''])],
     hr_form_err = None, hr_file = MissingFile\<rparr>"

lemma forged_vote_forged: "\<not> matching_xsrf forged_vote"
  by (simp add: matching_xsrf_def forged_vote_def Cookie_def PostFormValue_def Values_Get_def
      pr_XsrfCookie_def pr_Xsrf_def pr_PicId_def pr_Vote_def)

lemma forged_vote_answer:
  "ServeHTTP demo_frontend forged_vote demo_site =
     (Ok (), demo_site\<lparr>st_reply := [ErrorText ''xsrf tokens don't match'' 401]\<rparr>)"
proof -
  have paths: "ln_path (CommentLink None) = ''/comment''" "ln_path (Login None) = ''/u/login''"
    "ln_path (Logout None) = ''/u/logout''" "ln_path (LoginAction None) = ''/a/auth''"
    "ln_path (CreateUserAction None) = ''/a/createUser''" "ln_path (Root None) = ''/''"
    "ln_path (UpsertPicAction None) = ''/a/upsertPic''" "ln_path (UserEdit None []) = ''/u/edit''"
    "ln_path (UserEvents None [] [] False) = ''/u/activity''" "ln_path (UpdateUserAction None) = ''/a/updateUser''"
    "ln_path (VoteAction None) = ''/a/picvote''" "ln_path (SoftDeletePicAction None) = ''/a/softDeletePic''"
    by code_simp+
  have "fe_root demo_frontend = None" "hr_path forged_vote = ''/a/picvote''"
    by (simp_all add: demo_frontend_def forged_vote_def)
  then have route: "map_of (routes demo_frontend) (hr_path forged_vote) = Some (actionHandler (viewer_vote demo_frontend))"
    by (simp add: routes_def Let_def paths)
  have "incoming_xsrf Background forged_vote = Inl (HTTPErr 401 ''xsrf tokens don't match'')"
    by (simp add: incoming_xsrf_def Background_def incomingXsrfTokensFromReq_def forged_vote_def Cookie_def
        checkXsrfTokens_def PostFormValue_def Values_Get_def b64XsrfTokenLength_def pr_XsrfCookie_def pr_Xsrf_def
        pr_PicId_def pr_Vote_def)
  then show ?thesis unfolding ServeHTTP_def mux_def route
    by (simp add: actionHandler_def httpError_def write_reply_def run_simps demo_site_def)
qed


definition first_comment :: pic_comment where
  "first_comment = no_comment\<lparr>pc_id := 1, pc_user := 5, pc_modified := Some ts0\<rparr>"

definition reply_comment :: pic_comment where
  "reply_comment = no_comment\<lparr>pc_id := 2, pc_parent := 1, pc_modified := Some ts0\<rparr>"

definition user_five :: "string \<rightharpoonup> api_public_user" where
  "user_five = [EncodeVarint 5 \<mapsto> \<lparr>apu_id = EncodeVarint 5, apu_ident = ''five'', apu_created = None\<rparr>]"

lemmas two_comments = first_comment_def reply_comment_def no_comment_def


end
