(* ===== verification/Spec2Isabelle.thy ===== *)
theory Spec2Isabelle
  imports VarintFacts CapSets SqlFacts TextValid IdFacts AuthFacts PicRuns VoteRuns UserRuns TagRuns
    CommentTree PageFacts LookupFacts RunnerFacts UserEventFacts UploadRuns Tokens ReadFacts WebFacts
begin

text \<open>
  Pixur is a server for sharing pictures. This development models its back end, the Go packages under
  \<open>src/be\<close>, and the handlers of its front end, \<open>src/fe/handlers\<close>, and states what makes them correct.

  The program. A browser sends requests to the front end, whose pages and actions call the back end with the token of
  the browser's cookie. There a request passes an interceptor, which turns the token it carries into a user, and reaches a
  handler (be/handlers), which builds a task (be/tasks) and gives it to the task runner. A task authenticates the user, opens a job, that is a transaction over the tables of the site
  (be/schema/tables, be/schema/db), reads and writes rows and commits. The rows hold protocol messages
  (be/schema); ids come from an allocator that reserves ranges of them (be/schema/db/idalloc.go); pictures
  are files whose names are encodings of ids (be/schema/varint.go, picfile.go). Errors are values of
  the package be/status.

  How it is modelled. A Go function with state is a function from a \<open>world\<close> to a result and a world
  (Effects): the result is \<open>Ok\<close>, \<open>Err\<close> with the status, or \<open>Panic\<close>. A world (Store) has the committed
  database, the open transaction with its own copy of the database, the ids held by the allocator, the
  configuration of the site, the files, and an environment that decides which engine calls and file
  operations fail, so that every theorem holds for every pattern of failures. Machine integers are kept
  at their width: words for the encoding of ids, \<open>wrap64\<close> where a signed sum may overflow. Loops are
  structural recursion, \<open>function\<close> with a measure (the loops of find_user_events_task.go and
  nextPicFileIndex), or \<open>partial_function\<close> with a proof that they return (the task runner). Fuel occurs twice:
  \<open>authed_loop\<close> runs the loop of authedJobInternal with two rounds, and \<open>authedJob_terminates\<close> shows that two
  are always enough; the tree of comments is read back with the number of comments as its height, which
  no chain of replies exceeds.

  The theories, in the order of the program's layers (model first, then facts, then runs for witnesses).
  \<^item> Prelude, Effects: shared lemmas, programs with state, the locale \<open>frame\<close> of what a program leaves alone.
  \<^item> Status: be/status/errors.go. VarintCode, VarintFacts: be/schema/varint.go; encoding and decoding are
    inverse and order-preserving. CapSets: be/schema/user.go, the sets of capabilities.
  \<^item> SqlStmt, SqlPlan, SqlFacts: the query builder of be/schema/db/db.go and the four adapters; a scan's
    text means its plan, and the plan selects the rows in range.
  \<^item> Schema, Config, Keys: the messages, their time and order columns, the site's configuration.
  \<^item> Store, Tables, IdAlloc: transactions of be/schema/db/sql.go, the operations of \<open>Job\<close> in
    be/schema/tables/tables.tab.go, the allocator. JobFacts, RowFacts, JobSteps: every operation keeps the
    integrity of the database (\<open>fits\<close>: columns agree with messages, keys are unique) and what a
    successful statement does to the messages. IdFacts: no id is handed out twice.
  \<^item> TextValid: be/text/text.go. Auth, AuthFacts: be/tasks/auth.go, authctx.go, configuration.go.
  \<^item> Disk, Task, PicPath: what all tasks share. The locale \<open>task_body\<close> is the contract of a task's body;
    \<open>atomic_task\<close> adds that it commits last, so that a task that fails has changed nothing, and \<open>read_task\<close>
    that it only reads. Every task of the model is an interpretation of one of them.
  \<^item> PicTasks, PicFacts, PurgeFacts, PicRuns: deleting and viewing pictures. Votes, Notify, VoteFacts, Tally,
    VoteRuns: votes and comments, with the invariant that a picture's counts are the sums of its
    votes. Tags, TagFacts, TagCount, TagRuns: tags, with the invariant that a tag counts its uses. Users,
    UserFacts, UserRuns: sign-in, sign-out, creation, update and lookup of users.
  \<^item> CommentTree, Lookup, LookupFacts: lookups, and the tree of comments as nodes linked in a store, equal to the
    tree of replies. IndexPics, OrderedScan, PageFacts: the index of pictures, page by page.
    UserEvents, UserEventFacts: the events of a user.
  \<^item> Files, FileNames, Upload, UploadFrames, UploadFiles, UploadFacts, UploadRuns: uploading a picture, with its
    temporary files and their clean-up on every path.
  \<^item> TaskRunner, RunnerFacts: the retries of be/tasks/task_runner.go, and what they mean for a vote.
  \<^item> Pwt: base64 and signed tokens, be/handlers/pwt.go. ApiConvert: be/handlers/apiconvert.go. Rpc: the server, the
    interceptor and authutil.go. Handlers, ReadHandlers, FileHandlers: the handlers that write, that read, and
    those of files and configuration. Serve: handlers.go, from a request to its response.
  \<^item> Promises, ServeFacts: what the tasks promise carries over the runner, the handlers and the
    interceptor to every request; the locale \<open>change\<close> is the contract of what a successful request may do,
    so a request that only reads changes nothing and one that fails has changed nothing.
  \<^item> Histories, Service, ServeRuns: the locale \<open>site_invariant\<close> lists what each task owes to an
    invariant of the database, and its interpretation gives the invariant of counts and contents along
    every history of requests.
  \<^item> Tokens: what the interceptor accepts, and that the tokens handed out are accepted. ReadFacts: a
    file read part by part is the file.
  \<^item> WebPaths: fe/handlers/paths.go and params.go, with the functions of net/url they use. WebSite: a site, that is the back end with
    the calls made so far and the answer being written, and what every browser request passes (handlers.go, xsrf.go,
    userutil.go, errors.go). WebHandlers: the pages and actions, one definition per handler, and \<open>ServeHTTP\<close>, the
    table of routes. WebFacts: the locales \<open>page_client\<close> and \<open>action_client\<close> say which calls a handler may make; the first is
    interpreted with the requests that read or count a view, which gives that forged requests do nothing else. The
    comments on a page are the threads that the back end has.
  \<^item> Examples, AuthExamples, Runs: a small database, on which the witnesses run the tasks.

  Parameters. Code that is not in the repository is an argument: the Unicode tables of golang.org/x/text, the
  password hash, the cryptographic and keyed hashes, the bytes of protocol messages (package proto; assumed to
  be inverse to reading them where a theorem says so), image decoding and conversion, HTTP, address parsing, dates,
  the Wilson score in floating point, collation, running a template, the network between front end and back end, the order in which the engine returns rows that a query does not order.

  Not modelled. The servers of be/server and fe/server and the command-line tools start things and have no state of their own.
  Of the front end the texts of templates, compression and content types, redirects of paths that are not clean, and
  clients that go away are left out; the lookup of the user, which runs beside a handler, is complete when the handler starts; ffmpeg and
  ImageMagick (be/imaging) are external; the table generator prints tables.tab.go, whose output is
  modelled instead; SqlTables (the CREATE TABLE texts) and the test servers for databases. Logging, tracing,
  stack traces and counters are left out, and messages of errors are their format strings. Concurrency of
  jobs is modelled at the isolation the code asks for: a job works on a copy, and the commit installs it;
  interleavings of two open jobs are those of the id allocator only, and requests are answered one after the
  other.
\<close>

end
